(* ===== verification/Prelude.thy ===== *)
theory Prelude
  imports
    Main
    "HOL-Library.Word"
    "HOL-Library.List_Lexorder"
    "HOL-Library.Char_ord"
    "HOL-Library.Product_Lexorder"
    "HOL-Library.Sublist"
begin

text \<open>
  The prelude: what every component of the model shares.

  \<^item> \<open>('a, 'e) result\<close> is Rust's \<open>Result<T, E>\<close>: \<open>Inl\<close> carries the error, \<open>Inr\<close> the
    value. \<open>and_then\<close> is the \<open>?\<close> operator: it stops at the first error.
  \<^item> \<open>emit b x\<close> is \<open>if b { issues.push(x) }\<close>: a validation pass of the code pushes issues on
    a vector, its model returns the issues it pushes, in order.
  \<^item> \<open>run_loop\<close> is an enumerated \<open>for\<close> loop that pushes issues and threads mutable state (a set
    of names already seen, a table of host ports already bound). Its lemmas are the loop
    rules the passes share: a loop that pushed nothing ran every iteration without a push
    (\<open>run_loop_Nil_inv\<close>), a loop that records a key per iteration and pushes on a repeated one
    leaves the keys distinct (\<open>run_loop_distinct\<close>).

  The collection \<open>pass_simps\<close> holds the rewrites that turn ``this pass pushed nothing'' into
  what it checked, \<open>exec_simps\<close> the definitions that evaluate a closed term, which is how the
  witnesses run the model at a concrete input.
\<close>

named_theorems pass_simps \<open>a pass pushed nothing iff its checks hold\<close>
named_theorems exec_simps \<open>definitions that evaluate a closed term\<close>

section \<open>Results\<close>

type_synonym ('a, 'e) result = "'e + 'a"

definition and_then :: "('a, 'e) result \<Rightarrow> ('a \<Rightarrow> ('b, 'e) result) \<Rightarrow> ('b, 'e) result" where
  "and_then r k = (case r of Inl e \<Rightarrow> Inl e | Inr x \<Rightarrow> k x)"

definition map_err :: "('e \<Rightarrow> 'f) \<Rightarrow> ('a, 'e) result \<Rightarrow> ('a, 'f) result" where
  "map_err f r = (case r of Inl e \<Rightarrow> Inl (f e) | Inr x \<Rightarrow> Inr x)"

definition ok_or :: "'e \<Rightarrow> 'a option \<Rightarrow> ('a, 'e) result" where
  "ok_or e v = (case v of None \<Rightarrow> Inl e | Some x \<Rightarrow> Inr x)"

definition is_ok :: "('a, 'e) result \<Rightarrow> bool" where
  "is_ok r = (case r of Inl _ \<Rightarrow> False | Inr _ \<Rightarrow> True)"

lemma and_then_simps [simp]:
  "and_then (Inl e) k = Inl e"
  "and_then (Inr x) k = k x"
  by (simp_all add: and_then_def)

lemma and_then_Inr [simp]: "and_then r k = Inr y \<longleftrightarrow> (\<exists>x. r = Inr x \<and> k x = Inr y)"
  by (cases r) auto

lemma map_err_Inr [simp]: "map_err f r = Inr x \<longleftrightarrow> r = Inr x"
  by (cases r) (auto simp: map_err_def)

lemma map_err_simps [simp]:
  "map_err f (Inl e) = Inl (f e)"
  "map_err f (Inr x) = Inr x"
  by (simp_all add: map_err_def)

lemma ok_or_Inr [simp]: "ok_or e v = Inr x \<longleftrightarrow> v = Some x"
  by (cases v) (auto simp: ok_or_def)

lemma ok_or_simps [simp]:
  "ok_or e None = Inl e"
  "ok_or e (Some x) = Inr x"
  by (simp_all add: ok_or_def)

lemma is_ok_simps [simp]:
  "is_ok (Inl e) = False"
  "is_ok (Inr x) = True"
  by (simp_all add: is_ok_def)

lemma is_ok_iff: "is_ok r \<longleftrightarrow> (\<exists>x. r = Inr x)"
  by (cases r) auto

section \<open>Pushing issues\<close>

definition emit :: "bool \<Rightarrow> 'a \<Rightarrow> 'a list" where
  "emit b x = (if b then [x] else [])"

lemma emit_Nil [simp, pass_simps]: "emit b x = [] \<longleftrightarrow> \<not> b"
  by (simp add: emit_def)

lemma set_emit [simp]: "set (emit b x) = (if b then {x} else {})"
  by (cases b) (simp_all add: emit_def)

lemma emit_True [simp]: "emit True x = [x]"
  by (simp add: emit_def)

lemma emit_False [exec_simps]: "emit False x = []"
  by (simp add: emit_def)

text \<open>Evaluates the guard of a push and leaves its message alone.\<close>

lemma emit_cong: "b = c \<Longrightarrow> emit b x = emit c x"
  by simp

declare append_is_Nil_conv [pass_simps] concat_eq_Nil_conv [pass_simps]

lemma concat_map_Nil [simp, pass_simps]:
  "concat (map f xs) = [] \<longleftrightarrow> (\<forall>x \<in> set xs. f x = [])"
  by (induction xs) auto

lemma ball_enumerate: "(\<forall>p \<in> set (enumerate n xs). P p) \<longleftrightarrow> (\<forall>i < length xs. P (n + i, xs ! i))"
proof
  assume all: "\<forall>p \<in> set (enumerate n xs). P p"
  show "\<forall>i < length xs. P (n + i, xs ! i)"
  proof (intro allI impI)
    fix i assume "i < length xs"
    then have "(n + i, xs ! i) \<in> set (enumerate n xs)" by (simp add: in_set_enumerate_eq)
    with all show "P (n + i, xs ! i)" by blast
  qed
next
  assume all: "\<forall>i < length xs. P (n + i, xs ! i)"
  show "\<forall>p \<in> set (enumerate n xs). P p"
  proof
    fix p assume "p \<in> set (enumerate n xs)"
    then have "n \<le> fst p" "fst p - n < length xs" "snd p = xs ! (fst p - n)"
      by (auto simp: in_set_enumerate_eq)
    with all have "P (n + (fst p - n), snd p)" by metis
    with \<open>n \<le> fst p\<close> show "P p" by simp
  qed
qed

lemma ball_enumerate_snd:
  "(\<forall>p \<in> set (enumerate n xs). P (snd p)) \<longleftrightarrow> (\<forall>x \<in> set xs. P x)"
  by (simp add: ball_enumerate all_set_conv_all_nth nth_enumerate_eq)

text \<open>A pass over an enumerated list whose check ignores the index.\<close>

lemma ball_pass:
  assumes "\<And>i x. f (i, x) = [] \<longleftrightarrow> ok x"
  shows "concat (map f (enumerate n xs)) = [] \<longleftrightarrow> (\<forall>x \<in> set xs. ok x)"
proof -
  have "f p = [] \<longleftrightarrow> ok (snd p)" for p using assms [of "fst p" "snd p"] by simp
  then show ?thesis by (simp add: ball_enumerate_snd del: concat_eq_Nil_conv)
qed

section \<open>Enumerated loops with state\<close>

fun run_loop :: "(nat \<Rightarrow> 's \<Rightarrow> 'a \<Rightarrow> 'i list \<times> 's) \<Rightarrow> nat \<Rightarrow> 's \<Rightarrow> 'a list \<Rightarrow> 'i list \<times> 's" where
  "run_loop body i s [] = ([], s)"
| "run_loop body i s (x # xs) =
     (let (pushed, s') = body i s x;
          (later, s'') = run_loop body (Suc i) s' xs
      in (pushed @ later, s''))"

lemma run_loop_Cons_Nil:
  "fst (run_loop body i s (x # xs)) = [] \<longleftrightarrow>
     fst (body i s x) = [] \<and> fst (run_loop body (Suc i) (snd (body i s x)) xs) = []"
  by (simp add: case_prod_unfold Let_def)

lemma run_loop_snd: "snd (run_loop body i s (x # xs)) = snd (run_loop body (Suc i) (snd (body i s x)) xs)"
  by (simp add: split_beta Let_def)

text \<open>The loop rule: an invariant of the state that every silent iteration keeps holds at the
  end of a silent loop, and every iteration was silent from a state that satisfies it.\<close>

lemma run_loop_Nil_inv:
  assumes "fst (run_loop body i s xs) = []" and "ok s"
    and "\<And>j t x. ok t \<Longrightarrow> x \<in> set xs \<Longrightarrow> fst (body j t x) = [] \<Longrightarrow> ok (snd (body j t x))"
  shows "ok (snd (run_loop body i s xs)) \<and>
    (\<forall>k < length xs. \<exists>t. ok t \<and> fst (body (i + k) t (xs ! k)) = [])"
  using assms
proof (induction xs arbitrary: i s)
  case Nil
  then show ?case by simp
next
  case (Cons x xs)
  let ?s' = "snd (body i s x)"
  have silent: "fst (body i s x) = []" "fst (run_loop body (Suc i) ?s' xs) = []"
    using Cons.prems(1) by (simp_all add: run_loop_Cons_Nil del: run_loop.simps)
  have "ok ?s'" using Cons.prems(2,3) silent(1) by simp
  have "ok (snd (run_loop body (Suc i) ?s' xs)) \<and>
    (\<forall>k < length xs. \<exists>t. ok t \<and> fst (body (Suc i + k) t (xs ! k)) = [])"
    using silent(2) \<open>ok ?s'\<close>
  proof (rule Cons.IH)
    fix j t y
    assume "ok t" "y \<in> set xs" "fst (body j t y) = []"
    then show "ok (snd (body j t y))" using Cons.prems(3) by simp
  qed
  then have rest: "ok (snd (run_loop body (Suc i) ?s' xs))"
    "\<And>k. k < length xs \<Longrightarrow> \<exists>t. ok t \<and> fst (body (Suc (i + k)) t (xs ! k)) = []"
    by simp_all
  have "ok (snd (run_loop body i s (x # xs)))"
    using rest(1) by (simp add: case_prod_unfold Let_def)
  moreover have "\<exists>t. ok t \<and> fst (body (i + k) t ((x # xs) ! k)) = []" if k: "k < length (x # xs)" for k
  proof (cases k)
    case 0
    with Cons.prems(2) silent(1) show ?thesis by auto
  next
    case (Suc m)
    with rest(2) [of m] k show ?thesis by simp
  qed
  ultimately show ?case by blast
qed

lemma run_loop_Nil_ball:
  assumes "fst (run_loop body i s xs) = []"
  shows "\<forall>x \<in> set xs. \<exists>j t. fst (body j t x) = []"
  using run_loop_Nil_inv [OF assms, of "\<lambda>_. True"] by (fastforce simp: in_set_conv_nth)

lemma run_loop_distinct:
  assumes "fst (run_loop body i s xs) = []"
    and "\<And>j t x. fst (body j t x) = [] \<Longrightarrow> key x \<notin> t \<and> snd (body j t x) = insert (key x) t"
  shows "distinct (map key xs) \<and> set (map key xs) \<inter> s = {}"
  using assms(1)
proof (induction xs arbitrary: i s)
  case Nil
  then show ?case by simp
next
  case (Cons x xs)
  have silent: "fst (body i s x) = []" "fst (run_loop body (Suc i) (snd (body i s x)) xs) = []"
    using Cons.prems by (simp_all add: run_loop_Cons_Nil del: run_loop.simps)
  with assms(2) have "key x \<notin> s" "snd (body i s x) = insert (key x) s" by blast+
  with Cons.IH [OF silent(2)] show ?case by auto
qed

text \<open>The same with the loop's other checks: the loop is silent iff its keys are new and distinct
  and every element passes them.\<close>

lemma run_loop_keys_iff:
  assumes "\<And>j t x. fst (body j t x) = [] \<longleftrightarrow> key x \<notin> t \<and> ok x"
    and "\<And>j t x. snd (body j t x) = insert (key x) t"
  shows "fst (run_loop body i s xs) = [] \<longleftrightarrow>
    distinct (map key xs) \<and> set (map key xs) \<inter> s = {} \<and> (\<forall>x \<in> set xs. ok x)"
proof (induction xs arbitrary: i s)
  case Nil
  then show ?case by simp
next
  case (Cons x xs)
  show ?case
    unfolding run_loop_Cons_Nil assms(2) Cons.IH by (auto simp: assms(1))
qed

text \<open>A loop whose body keeps no state is a plain enumeration.\<close>

lemma run_loop_stateless:
  assumes "\<And>j t x. body j t x = (f (j, x), t)"
  shows "run_loop body i s xs = (concat (map f (enumerate i xs)), s)"
  by (induction xs arbitrary: i) (simp_all add: assms)

section \<open>Lists\<close>

fun find_index :: "('a \<Rightarrow> bool) \<Rightarrow> 'a list \<Rightarrow> nat option" where
  "find_index p [] = None"
| "find_index p (x # xs) = (if p x then Some 0 else map_option Suc (find_index p xs))"

lemma find_index_None [simp]: "find_index p xs = None \<longleftrightarrow> (\<forall>x \<in> set xs. \<not> p x)"
  by (induction xs) auto

lemma find_index_Some:
  "find_index p xs = Some i \<Longrightarrow> i < length xs \<and> p (xs ! i) \<and> (\<forall>j < i. \<not> p (xs ! j))"
proof (induction xs arbitrary: i)
  case Nil
  then show ?case by simp
next
  case (Cons x xs)
  show ?case
  proof (cases "p x")
    case True
    with Cons.prems show ?thesis by auto
  next
    case False
    with Cons.prems obtain j where "find_index p xs = Some j" "i = Suc j" by auto
    with Cons.IH [of j] False show ?thesis by (auto simp: less_Suc_eq_0_disj)
  qed
qed

text \<open>\<open>Vec::remove(index)\<close>; the code calls it with an index it has just found.\<close>

definition remove_at :: "nat \<Rightarrow> 'a list \<Rightarrow> 'a list" where
  "remove_at i xs = take i xs @ drop (Suc i) xs"

lemma remove_at_append_last: "remove_at (length xs) (xs @ [x]) = xs"
  by (simp add: remove_at_def)

lemma set_remove_at: "set (remove_at i xs) \<subseteq> set xs"
  by (auto simp: remove_at_def dest: in_set_takeD in_set_dropD)

lemma distinct_map_remove_at:
  assumes "distinct (map f xs)"
  shows "distinct (map f (remove_at i xs))"
proof (cases "i < length xs")
  case True
  then have "xs = take i xs @ xs ! i # drop (Suc i) xs" by (simp add: id_take_nth_drop)
  with assms have "distinct (map f (take i xs @ xs ! i # drop (Suc i) xs))" by simp
  then show ?thesis by (auto simp: remove_at_def)
next
  case False
  with assms show ?thesis by (simp add: remove_at_def)
qed

end
