(* ===== verification/RustNum.thy ===== *)
theory RustNum
  imports RustStr
begin

text \<open>
  Machine integers and addresses as the standard library reads and prints them.
  \<open>parse_uint b\<close> is \<open>str::parse\<close> at an unsigned type with \<open>b\<close> values: an optional leading
  \<open>+\<close>, at least one digit, digits only, and a value below \<open>b\<close>. \<open>show_nat\<close> is \<open>Display\<close>.
  \<open>parse_ipv4\<close> and \<open>show_ipv4\<close> are \<open>Ipv4Addr\<close>'s \<open>FromStr\<close> and \<open>Display\<close>: four decimal
  octets of at most three digits with no leading zero. Addresses are 32-bit words, as in
  \<open>u32::from(ip)\<close>, ports are 16-bit words.

  The lemmas are the round trips between the two directions.
\<close>

type_synonym u16 = "16 word"
type_synonym u32 = "32 word"
type_synonym u64 = "64 word"
type_synonym ipv4 = "32 word"

lemma unat_of_nat_u32: "n < 4294967296 \<Longrightarrow> unat (of_nat n :: u32) = n"
  by (simp add: unsigned_of_nat take_bit_nat_eq_self)

lemma unat_u32_less: "unat (w :: u32) < 4294967296"
  using unsigned_less [where ?'a = nat, of w] by simp

section \<open>Decimal numbers\<close>

definition digit_char :: "nat \<Rightarrow> char" where
  "digit_char n = char_of (48 + n)"

definition digit_value :: "char \<Rightarrow> nat" where
  "digit_value c = byte c - 48"

fun show_nat :: "nat \<Rightarrow> string" where
  "show_nat n = (if n < 10 then [digit_char n] else show_nat (n div 10) @ [digit_char (n mod 10)])"

declare show_nat.simps [simp del]

definition dec_value :: "string \<Rightarrow> nat" where
  "dec_value s = foldl (\<lambda>n c. 10 * n + digit_value c) 0 s"

definition parse_uint :: "nat \<Rightarrow> string \<Rightarrow> nat option" where
  "parse_uint b s =
     (let ds = (case s of c # cs \<Rightarrow> if c = CHR ''+'' then cs else s | [] \<Rightarrow> [])
      in if ds \<noteq> [] \<and> list_all is_ascii_digit ds \<and> dec_value ds < b then Some (dec_value ds) else None)"

definition show_word :: "'a::len word \<Rightarrow> string" where
  "show_word w = show_nat (unat w)"

definition parse_u16 :: "string \<Rightarrow> u16 option" where
  "parse_u16 s = map_option of_nat (parse_uint 65536 s)"

definition parse_u64 :: "string \<Rightarrow> u64 option" where
  "parse_u64 s = map_option of_nat (parse_uint 18446744073709551616 s)"

lemma byte_digit_char: "n < 10 \<Longrightarrow> byte (digit_char n) = 48 + n"
  by (simp add: digit_char_def)

lemma digit_value_char [simp]: "n < 10 \<Longrightarrow> digit_value (digit_char n) = n"
  by (simp add: digit_value_def byte_digit_char)

lemma is_digit_digit_char [simp]: "n < 10 \<Longrightarrow> is_ascii_digit (digit_char n)"
  by (simp add: is_ascii_digit_def byte_digit_char)

lemma dec_value_snoc [simp]: "dec_value (s @ [c]) = 10 * dec_value s + digit_value c"
  by (simp add: dec_value_def)

lemma dec_value_Nil [simp]: "dec_value [] = 0"
  by (simp add: dec_value_def)

lemma show_nat_digits: "list_all is_ascii_digit (show_nat n)"
proof (induction n rule: show_nat.induct)
  case (1 n)
  then show ?case by (cases "n < 10") (simp_all add: show_nat.simps [of n])
qed

lemma show_nat_not_Nil [simp]: "show_nat n \<noteq> []"
  by (subst show_nat.simps) simp

lemma dec_value_show_nat [simp]: "dec_value (show_nat n) = n"
proof (induction n rule: show_nat.induct)
  case (1 n)
  show ?case
  proof (cases "n < 10")
    case True
    then have "dec_value ([] @ [digit_char n]) = n" by (simp del: append_Nil)
    with True show ?thesis by (simp add: show_nat.simps [of n])
  next
    case False
    with "1.IH" show ?thesis by (simp add: show_nat.simps [of n])
  qed
qed

lemma show_nat_inj: "show_nat n = show_nat m \<longleftrightarrow> n = m"
  by (metis dec_value_show_nat)

lemma in_show_nat_digit: "c \<in> set (show_nat n) \<Longrightarrow> is_ascii_digit c"
  using show_nat_digits [of n] by (simp add: list_all_iff)

lemma parse_uint_digits:
  assumes "list_all is_ascii_digit s" and "s \<noteq> []"
  shows "parse_uint b s = (if dec_value s < b then Some (dec_value s) else None)"
proof -
  obtain c cs where s: "s = c # cs" using assms(2) by (cases s) auto
  with assms(1) have "c \<noteq> CHR ''+''" by (auto simp: is_ascii_digit_def)
  with s assms show ?thesis by (simp add: parse_uint_def Let_def)
qed

lemma parse_uint_show_nat [simp]: "parse_uint b (show_nat n) = (if n < b then Some n else None)"
  by (simp add: parse_uint_digits show_nat_digits)

lemma parse_uint_bound: "parse_uint b s = Some n \<Longrightarrow> n < b"
  by (auto simp: parse_uint_def Let_def split: if_splits)

lemma parse_uint_Nil [simp]: "parse_uint b [] = None"
  by (simp add: parse_uint_def)

lemma parse_uint_no_colon: "parse_uint b s = Some n \<Longrightarrow> CHR '':'' \<notin> set s"
  by (cases s) (auto simp: parse_uint_def Let_def list_all_iff is_ascii_digit_def split: if_splits)

lemma parse_u16_show [simp]: "parse_u16 (show_word w) = Some w"
  using unsigned_less [where ?'a = nat, of w] by (simp add: parse_u16_def show_word_def)

lemma parse_u16_no_colon: "parse_u16 s = Some w \<Longrightarrow> CHR '':'' \<notin> set s"
  by (auto simp: parse_u16_def dest: parse_uint_no_colon)

lemma in_show_word_digit: "c \<in> set (show_word w) \<Longrightarrow> is_ascii_digit c"
  by (simp add: show_word_def in_show_nat_digit)

lemma show_word_not_Nil [simp]: "show_word w \<noteq> []"
  by (simp add: show_word_def)

lemma show_word_inj: "show_word v = show_word w \<longleftrightarrow> v = w"
  by (simp add: show_word_def show_nat_inj word_unat_eq_iff)

section \<open>IPv4 addresses\<close>

definition octet :: "nat \<Rightarrow> ipv4 \<Rightarrow> nat" where
  "octet k ip = unat ip div 2 ^ (24 - 8 * k) mod 256"

definition ip_of_octets :: "nat \<Rightarrow> nat \<Rightarrow> nat \<Rightarrow> nat \<Rightarrow> ipv4" where
  "ip_of_octets a b c d = of_nat (((a * 256 + b) * 256 + c) * 256 + d)"

definition show_ipv4 :: "ipv4 \<Rightarrow> string" where
  "show_ipv4 ip = join ''.'' (map (\<lambda>k. show_nat (octet k ip)) [0, 1, 2, 3])"

definition parse_octet :: "string \<Rightarrow> nat option" where
  "parse_octet s =
     (if s \<noteq> [] \<and> length s \<le> 3 \<and> list_all is_ascii_digit s
         \<and> (1 < length s \<longrightarrow> hd s \<noteq> CHR ''0'') \<and> dec_value s \<le> 255
      then Some (dec_value s) else None)"

definition parse_ipv4 :: "string \<Rightarrow> ipv4 option" where
  "parse_ipv4 s =
     (case map parse_octet (split_on CHR ''.'' s) of
        [Some a, Some b, Some c, Some d] \<Rightarrow> Some (ip_of_octets a b c d)
      | _ \<Rightarrow> None)"

definition is_loopback :: "ipv4 \<Rightarrow> bool" where
  "is_loopback ip \<longleftrightarrow> octet 0 ip = 127"

lemma octet_less: "octet k ip < 256"
  by (simp add: octet_def)

lemma nat_of_octets:
  fixes n :: nat
  shows "((n div 16777216 * 256 + n div 65536 mod 256) * 256 + n div 256 mod 256) * 256 + n mod 256 = n"
proof -
  have "n div 256 * 256 + n mod 256 = n" by (rule div_mult_mod_eq)
  moreover have "n div 65536 * 256 + n div 256 mod 256 = n div 256"
    using div_mult_mod_eq [of "n div 256" 256] by (simp only: div_mult2_eq [symmetric]) simp
  moreover have "n div 16777216 * 256 + n div 65536 mod 256 = n div 65536"
    using div_mult_mod_eq [of "n div 65536" 256] by (simp only: div_mult2_eq [symmetric]) simp
  ultimately show ?thesis by (simp only:)
qed

lemma ip_of_octets_octet: "ip_of_octets (octet 0 ip) (octet 1 ip) (octet 2 ip) (octet 3 ip) = ip"
proof -
  let ?n = "unat ip"
  have "?n < 2 ^ 32" using unsigned_less [where ?'a = nat, of ip] by simp
  then have "?n div 16777216 mod 256 = ?n div 16777216" by simp
  then have "ip_of_octets (octet 0 ip) (octet 1 ip) (octet 2 ip) (octet 3 ip) = of_nat ?n"
    using nat_of_octets [of ?n] by (simp only: ip_of_octets_def octet_def) simp
  then show ?thesis by simp
qed

lemma show_nat_small:
  "n < 10 \<Longrightarrow> show_nat n = [digit_char n]"
  "10 \<le> n \<Longrightarrow> n < 100 \<Longrightarrow> show_nat n = [digit_char (n div 10), digit_char (n mod 10)]"
  "100 \<le> n \<Longrightarrow> n < 1000 \<Longrightarrow>
     show_nat n = [digit_char (n div 100), digit_char (n div 10 mod 10), digit_char (n mod 10)]"
proof -
  assume "n < 10"
  then show "show_nat n = [digit_char n]" by (simp add: show_nat.simps [of n])
next
  assume "10 \<le> n" "n < 100"
  then show "show_nat n = [digit_char (n div 10), digit_char (n mod 10)]"
    by (simp add: show_nat.simps [of n] show_nat.simps [of "n div 10"])
next
  assume "100 \<le> n" "n < 1000"
  then show "show_nat n = [digit_char (n div 100), digit_char (n div 10 mod 10), digit_char (n mod 10)]"
    by (auto simp: show_nat.simps [of n] show_nat.simps [of "n div 10"] show_nat.simps [of "n div 100"]
        div_mult2_eq [symmetric])
qed

lemma digit_char_eq_0: "n < 10 \<Longrightarrow> digit_char n = CHR ''0'' \<longleftrightarrow> n = 0"
proof -
  assume n: "n < 10"
  have "digit_char n = CHR ''0'' \<longleftrightarrow> byte (digit_char n) = byte (CHR ''0'')" by (simp only: byte_inj)
  also have "\<dots> \<longleftrightarrow> n = 0" using n by (simp add: byte_digit_char)
  finally show ?thesis .
qed

lemma parse_octet_show [simp]: "n < 256 \<Longrightarrow> parse_octet (show_nat n) = Some n"
proof -
  assume n: "n < 256"
  have digits: "list_all is_ascii_digit (show_nat n)" by (rule show_nat_digits)
  consider "n < 10" | "10 \<le> n" "n < 100" | "100 \<le> n" "n < 1000" using n by linarith
  then have "length (show_nat n) \<le> 3 \<and> (1 < length (show_nat n) \<longrightarrow> hd (show_nat n) \<noteq> CHR ''0'')"
    by cases (simp_all add: show_nat_small digit_char_eq_0)
  with digits n show ?thesis by (simp add: parse_octet_def)
qed

lemma parse_ipv4_show [simp]: "parse_ipv4 (show_ipv4 ip) = Some ip"
proof -
  let ?parts = "map (\<lambda>k. show_nat (octet k ip)) [0, 1, 2, 3]"
  have "split_on CHR ''.'' (show_ipv4 ip) = ?parts"
    unfolding show_ipv4_def
    by (rule split_on_join) (auto simp: is_ascii_digit_def dest!: in_show_nat_digit)
  then show ?thesis
    by (simp add: parse_ipv4_def octet_less ip_of_octets_octet [unfolded One_nat_def])
qed

lemma show_ipv4_inj: "show_ipv4 a = show_ipv4 b \<longleftrightarrow> a = b"
  by (metis option.inject parse_ipv4_show)

declare digit_char_def [exec_simps] digit_value_def [exec_simps] show_nat.simps [exec_simps]
  dec_value_def [exec_simps] parse_uint_def [exec_simps] show_word_def [exec_simps]
  parse_u16_def [exec_simps] parse_u64_def [exec_simps] octet_def [exec_simps]
  ip_of_octets_def [exec_simps] show_ipv4_def [exec_simps] parse_octet_def [exec_simps]
  parse_ipv4_def [exec_simps] is_loopback_def [exec_simps]

end
