(* ===== verification/OrdMap.thy ===== *)
theory OrdMap
  imports RustNum
begin

text \<open>
  \<open>BTreeMap\<close>: an association list with strictly increasing keys (\<open>bm_wf\<close>), so iterating the
  map is running through the list. \<open>bm_insert\<close> is \<open>insert\<close> (the value it returns, the one it
  replaced, is \<open>map_of\<close> of the map before), \<open>bm_remove\<close> is \<open>remove\<close>.

  The locale \<open>ordered_map\<close> is the contract the configuration code relies on: what a lookup
  returns after an insert or a removal, that keys stay sorted, and that two maps with the
  same entries are the same map. Its clients' lemmas (undoing an insert, inserting twice) are
  proved from the contract; \<open>bm\<close> interprets it on the association lists.
\<close>

type_synonym ('k, 'v) bmap = "('k \<times> 'v) list"

definition bm_wf :: "('k::linorder, 'v) bmap \<Rightarrow> bool" where
  "bm_wf m \<longleftrightarrow> sorted_wrt (<) (map fst m)"

abbreviation bm_get :: "('k, 'v) bmap \<Rightarrow> 'k \<Rightarrow> 'v option" where
  "bm_get m k \<equiv> map_of m k"

abbreviation bm_keys :: "('k, 'v) bmap \<Rightarrow> 'k list" where
  "bm_keys m \<equiv> map fst m"

abbreviation bm_values :: "('k, 'v) bmap \<Rightarrow> 'v list" where
  "bm_values m \<equiv> map snd m"

definition bm_contains :: "('k, 'v) bmap \<Rightarrow> 'k \<Rightarrow> bool" where
  "bm_contains m k \<longleftrightarrow> bm_get m k \<noteq> None"

fun bm_insert :: "'k::linorder \<Rightarrow> 'v \<Rightarrow> ('k, 'v) bmap \<Rightarrow> ('k, 'v) bmap" where
  "bm_insert k v [] = [(k, v)]"
| "bm_insert k v (e # m) =
     (if fst e < k then e # bm_insert k v m else if fst e = k then (k, v) # m else (k, v) # e # m)"

definition bm_remove :: "'k \<Rightarrow> ('k, 'v) bmap \<Rightarrow> ('k, 'v) bmap" where
  "bm_remove k m = filter (\<lambda>e. fst e \<noteq> k) m"

definition bm_of_list :: "('k::linorder \<times> 'v) list \<Rightarrow> ('k, 'v) bmap" where
  "bm_of_list xs = foldl (\<lambda>m e. bm_insert (fst e) (snd e) m) [] xs"

lemma bm_contains_iff: "bm_contains m k \<longleftrightarrow> k \<in> set (bm_keys m)"
  by (force simp: bm_contains_def map_of_eq_None_iff)

lemma bm_contains_Some: "bm_contains m k \<longleftrightarrow> (\<exists>v. bm_get m k = Some v)"
  by (auto simp: bm_contains_def)

lemma bm_wf_distinct: "bm_wf m \<Longrightarrow> distinct (bm_keys m)"
  by (simp add: bm_wf_def strict_sorted_iff)

lemma bm_wf_in_set: "bm_wf m \<Longrightarrow> bm_get m k = Some v \<longleftrightarrow> (k, v) \<in> set m"
  by (simp add: bm_wf_distinct)

lemma bm_wf_Nil [simp]: "bm_wf []"
  by (simp add: bm_wf_def)

lemma keys_bm_insert: "set (bm_keys (bm_insert k v m)) = insert k (set (bm_keys m))"
  by (induction m) auto

lemma bm_wf_insert [simp]: "bm_wf m \<Longrightarrow> bm_wf (bm_insert k v m)"
proof (induction m)
  case Nil
  then show ?case by (simp add: bm_wf_def)
next
  case (Cons e m)
  then have "bm_wf (bm_insert k v m)" "\<forall>x \<in> set (bm_keys m). fst e < x"
    by (simp_all add: bm_wf_def)
  with Cons.prems keys_bm_insert [of k v m] show ?case
    by (auto simp: bm_wf_def simp del: set_map)
qed

lemma bm_get_insert: "bm_get (bm_insert k v m) = (bm_get m)(k \<mapsto> v)"
  by (induction m) (auto simp: fun_eq_iff)

lemma dom_bm_insert: "dom (bm_get (bm_insert k v m)) = insert k (dom (bm_get m))"
  by (auto simp: bm_get_insert dom_def split: if_splits)

lemma bm_wf_remove [simp]: "bm_wf m \<Longrightarrow> bm_wf (bm_remove k m)"
  by (induction m) (auto simp: bm_wf_def bm_remove_def)

lemma bm_get_remove: "bm_get (bm_remove k m) = (bm_get m)(k := None)"
  by (induction m) (auto simp: bm_remove_def fun_eq_iff)

lemma bm_wf_ext:
  assumes "bm_wf m" and "bm_wf n" and "bm_get m = bm_get n"
  shows "m = n"
proof -
  have same: "set m = set n"
    using assms by (simp add: map_of_inject_set bm_wf_distinct)
  have "inj_on fst (set m)"
    using bm_wf_distinct [OF assms(1)] by (simp add: distinct_map)
  then have "inj_on fst (set m \<union> set n)" by (simp add: same)
  with assms(1,2) same show ?thesis
    unfolding bm_wf_def strict_sorted_iff by (blast intro: map_sorted_distinct_set_unique)
qed

section \<open>The contract of an ordered map\<close>

locale ordered_map =
  fixes lookup :: "'m \<Rightarrow> 'k::linorder \<Rightarrow> 'v option"
    and update :: "'k \<Rightarrow> 'v \<Rightarrow> 'm \<Rightarrow> 'm"
    and delete :: "'k \<Rightarrow> 'm \<Rightarrow> 'm"
    and keys :: "'m \<Rightarrow> 'k list"
    and ok :: "'m \<Rightarrow> bool"
  assumes lookup_update: "lookup (update k v m) = (lookup m)(k \<mapsto> v)"
    and lookup_delete: "lookup (delete k m) = (lookup m)(k := None)"
    and ok_update: "ok m \<Longrightarrow> ok (update k v m)"
    and ok_delete: "ok m \<Longrightarrow> ok (delete k m)"
    and keys_dom: "set (keys m) = dom (lookup m)"
    and keys_sorted: "ok m \<Longrightarrow> sorted (keys m) \<and> distinct (keys m)"
    and ok_ext: "ok m \<Longrightarrow> ok n \<Longrightarrow> lookup m = lookup n \<Longrightarrow> m = n"
begin

lemma delete_update_fresh: "ok m \<Longrightarrow> lookup m k = None \<Longrightarrow> delete k (update k v m) = m"
  by (rule ok_ext) (simp_all add: ok_update ok_delete lookup_update lookup_delete fun_upd_idem)

lemma update_delete: "ok m \<Longrightarrow> lookup m k = Some v \<Longrightarrow> update k v (delete k m) = m"
  by (rule ok_ext) (simp_all add: ok_update ok_delete lookup_update lookup_delete fun_upd_idem)

lemma update_update: "ok m \<Longrightarrow> update k w (update k v m) = update k w m"
  by (rule ok_ext) (simp_all add: ok_update lookup_update)

lemma update_same: "ok m \<Longrightarrow> lookup m k = Some v \<Longrightarrow> update k v m = m"
  by (rule ok_ext) (simp_all add: ok_update lookup_update fun_upd_idem)

lemma update_twist: "ok m \<Longrightarrow> k \<noteq> l \<Longrightarrow> update k v (update l w m) = update l w (update k v m)"
  by (rule ok_ext) (simp_all add: ok_update lookup_update fun_upd_twist)

lemma keys_update: "set (keys (update k v m)) = insert k (set (keys m))"
  by (simp add: keys_dom lookup_update)

lemma keys_delete: "set (keys (delete k m)) = set (keys m) - {k}"
  by (simp add: keys_dom lookup_delete)

end

interpretation bm: ordered_map "map_of" "bm_insert" "bm_remove" "map fst" "bm_wf"
proof
  fix k :: "'a::linorder" and v :: 'b and m n :: "('a, 'b) bmap"
  show "bm_get (bm_insert k v m) = (bm_get m)(k \<mapsto> v)" by (rule bm_get_insert)
  show "bm_get (bm_remove k m) = (bm_get m)(k := None)" by (rule bm_get_remove)
  show "bm_wf m \<Longrightarrow> bm_wf (bm_insert k v m)" by (rule bm_wf_insert)
  show "bm_wf m \<Longrightarrow> bm_wf (bm_remove k m)" by (rule bm_wf_remove)
  show "set (bm_keys m) = dom (bm_get m)" by (simp add: dom_map_of_conv_image_fst)
  show "bm_wf m \<Longrightarrow> sorted (bm_keys m) \<and> distinct (bm_keys m)"
    by (simp add: bm_wf_def strict_sorted_iff)
  show "bm_wf m \<Longrightarrow> bm_wf n \<Longrightarrow> bm_get m = bm_get n \<Longrightarrow> m = n" by (rule bm_wf_ext)
qed

lemma bm_wf_of_list [simp]: "bm_wf (bm_of_list xs)"
proof -
  have "bm_wf m \<Longrightarrow> bm_wf (foldl (\<lambda>m e. bm_insert (fst e) (snd e) m) m xs)" for m
    by (induction xs arbitrary: m) auto
  then show ?thesis by (simp add: bm_of_list_def)
qed

lemma bm_get_of_list: "bm_get (bm_of_list xs) = map_of (rev xs)"
proof -
  have "bm_get (foldl (\<lambda>m e. bm_insert (fst e) (snd e) m) m xs) k
      = (case map_of (rev xs) k of None \<Rightarrow> bm_get m k | Some v \<Rightarrow> Some v)" for m k
    by (induction xs arbitrary: m) (auto simp: bm_get_insert map_add_def split: option.splits)
  then show ?thesis by (auto simp: bm_of_list_def fun_eq_iff split: option.splits)
qed

declare bm_contains_def [exec_simps] bm_remove_def [exec_simps] bm_of_list_def [exec_simps]

end
