(* ===== verification/ConfigTypes.thy ===== *)
theory ConfigTypes
  imports OrdMap
begin

text \<open>
  The \<open>hypernetwork/v1\<close> environment, the data every component reads: the structs and enums
  of \<open>config.rs\<close>, \<open>kubernetes.rs\<close> and \<open>controllers/config.rs\<close>. A struct is a record whose
  fields carry the struct's prefix (\<open>vm_networks\<close> is \<open>VmConfig::networks\<close>), a \<open>BTreeMap\<close> is a
  \<open>bmap\<close>, an \<open>Option\<close> an \<open>option\<close>, a port a 16-bit word.
\<close>

section \<open>JSON values\<close>

text \<open>\<open>serde_json::Value\<close>; a number keeps its text, an object is sorted by key.\<close>

datatype json =
    JNull
  | JBool bool
  | JNum string
  | JStr string
  | JArr "json list"
  | JObj "(string \<times> json) list"

section \<open>Metadata and observability\<close>

datatype config_api_version = HypernetworkV1

datatype config_kind = KindEnvironment

record metadata =
  md_name :: string

datatype probe_expect = Tcp | Http2xx | Dns

record sql_data_source_entry =
  sql_host :: string
  sql_port :: u16
  sql_database :: string
  sql_user :: string
  sql_password_file :: "string option"
  sql_via :: "string option"

record sql_data_source_type =
  sqlt_default :: string
  sqlt_via :: string
  sqlt_entries :: "(string, sql_data_source_entry) bmap"

record nats_data_source_entry =
  nats_host :: string
  nats_port :: u16
  nats_user :: "string option"
  nats_password_file :: "string option"
  nats_token_file :: "string option"
  nats_creds_file :: "string option"
  nats_via :: "string option"

record nats_data_source_type =
  natst_default :: string
  natst_via :: string
  natst_entries :: "(string, nats_data_source_entry) bmap"

record data_sources_config =
  ds_postgres :: "sql_data_source_type option"
  ds_mysql :: "sql_data_source_type option"
  ds_nats :: "nats_data_source_type option"

definition data_sources_is_empty :: "data_sources_config \<Rightarrow> bool" where
  "data_sources_is_empty ds \<longleftrightarrow> ds_postgres ds = None \<and> ds_mysql ds = None \<and> ds_nats ds = None"

record observability_probe =
  probe_name :: string
  probe_from :: string
  probe_target :: string
  probe_expect :: probe_expect

record observability_config =
  obs_probes :: "observability_probe list"
  obs_data_sources :: data_sources_config

definition default_observability :: observability_config where
  "default_observability =
     \<lparr>obs_probes = [], obs_data_sources = \<lparr>ds_postgres = None, ds_mysql = None, ds_nats = None\<rparr>\<rparr>"

section \<open>Resilience\<close>

record egress_probe_config =
  egress_enabled :: bool
  egress_url :: string

record network_resilience_config =
  nr_egress_probe :: egress_probe_config
  nr_restart_vms_on_stuck_egress :: bool

record resilience_config =
  res_network :: network_resilience_config

definition default_egress_probe_url :: string where
  "default_egress_probe_url = ''https://captive.apple.com/''"

definition default_egress_probe :: egress_probe_config where
  "default_egress_probe = \<lparr>egress_enabled = True, egress_url = default_egress_probe_url\<rparr>"

definition default_network_resilience :: network_resilience_config where
  "default_network_resilience =
     \<lparr>nr_egress_probe = default_egress_probe, nr_restart_vms_on_stuck_egress = False\<rparr>"

section \<open>Certificates, ingress, OIDC\<close>

datatype certs_on_rotate = Reinject | Reboot

record certs_config =
  certs_enabled :: bool
  certs_on_rotate :: certs_on_rotate

record ingress_route =
  ir_host :: string
  ir_to :: string
  ir_requires :: "string list"

record ingress_config =
  ing_enabled :: bool
  ing_bind :: string
  ing_http_port :: u16
  ing_https_port :: u16
  ing_host_aliases :: bool
  ing_redirect_http :: bool
  ing_routes :: "ingress_route list"

datatype oidc_mode = Embedded | OidcSimple

datatype oidc_clients = ClientsAuto

datatype oidc_uplink_type = UplinkOidc | UplinkGithub | UplinkMicrosoft | UplinkDiscord

record oidc_simple_user =
  user_username :: string
  user_email :: string
  user_claims :: "(string, json) bmap"

record oidc_uplink =
  up_type :: "oidc_uplink_type option"
  up_issuer :: "string option"
  up_tenant :: "string option"
  up_client_id :: "string option"
  up_client_secret_file :: "string option"
  up_scopes :: "string list option"
  up_get_user_info :: "bool option"

record oidc_config =
  oidc_enabled :: bool
  oidc_mode :: oidc_mode
  oidc_issuer :: string
  oidc_listen :: string
  oidc_clients :: oidc_clients
  oidc_password_file :: "string option"
  oidc_uplink :: "oidc_uplink option"
  oidc_users :: "oidc_simple_user list"

section \<open>Networks, routes, policies\<close>

record dns_forward =
  fwd_enabled :: bool
  fwd_upstream :: string

record dns_config =
  dns_enabled :: bool
  dns_host_resolver :: bool
  dns_host_listen :: string
  dns_forward :: dns_forward

datatype image_role = Base

record image_config =
  img_from :: string
  img_role :: image_role
  img_tag :: string

datatype network_backend = Vmnet | Docker

datatype network_mode = Shared | Host

record network_config =
  net_cidr :: string
  net_mode :: network_mode
  net_dhcp :: bool
  net_nat_egress :: bool
  net_backend :: network_backend

record route_config =
  rt_name :: string
  rt_from :: string
  rt_to :: string
  rt_via :: string

datatype forward_policy = DenyAll

datatype protocol = ProtoTcp | ProtoUdp | ProtoIcmp

record allow_rule =
  allow_to :: string
  allow_proto :: protocol
  allow_ports :: "u16 list"

record policy_config =
  pol_name :: string
  pol_network :: string
  pol_via :: "string option"
  pol_forward :: forward_policy
  pol_allow :: "allow_rule list"

section \<open>Virtual machines\<close>

record vm_logs_config =
  logs_journald :: "string list"

record container_config =
  ct_image :: string
  ct_ports :: "string list"
  ct_env :: "(string, string) bmap"
  ct_volumes :: "string list"
  ct_restart :: "string option"
  ct_command :: "string list"
  ct_workdir :: "string option"
  ct_user :: "string option"

record vm_mount =
  mnt_source :: string
  mnt_target :: string
  mnt_read_only :: bool

record vm_network =
  att_name :: string
  att_ip :: string

datatype clone_mode = Linked

record vm_config =
  vm_from :: string
  vm_clone :: clone_mode
  vm_disk :: string
  vm_cpus :: "u32 option"
  vm_memory :: "string option"
  vm_networks :: "vm_network list"
  vm_cloud_init :: "string option"
  vm_depends_on :: "string list"
  vm_roles :: "string list"
  vm_requires :: "string list"
  vm_ports :: "string list"
  vm_mounts :: "vm_mount list"
  vm_compose_files :: "string list"
  vm_containers :: "(string, container_config) bmap"
  vm_logs :: "vm_logs_config option"

section \<open>Kubernetes clusters, service providers and claims\<close>

record cluster_config =
  cl_version :: string
  cl_sha256 :: string
  cl_server :: string
  cl_agents :: "string list"
  cl_network :: string
  cl_pod_cidr :: string
  cl_service_cidr :: string
  cl_manifests :: "string list"
  cl_default_namespace :: string

record kubernetes_config =
  k8s_clusters :: "(string, cluster_config) bmap"

datatype service_kind = KindIngress | KindOidc | KindPostgres | KindS3

record provider_config =
  pv_kind :: service_kind
  pv_via :: "string option"
  pv_endpoint :: "string option"
  pv_advertise_endpoint :: "string option"
  pv_admin_user :: "string option"
  pv_password_file :: "string option"
  pv_access_key_file :: "string option"
  pv_secret_key_file :: "string option"
  pv_implementation :: "string option"

record kubernetes_target =
  kt_cluster :: string
  kt_namespace :: string
  kt_secret :: string

datatype consumer = ConsumerVm string | ConsumerContainer string | ConsumerKubernetes kubernetes_target

record kubernetes_service =
  ks_cluster :: string
  ks_namespace :: string
  ks_service :: string
  ks_port :: u16

datatype backend = BackendVm string u16 | BackendKubernetes kubernetes_service

record claim_config =
  cm_kind :: service_kind
  cm_provider :: "string option"
  cm_database :: "string option"
  cm_bucket :: "string option"
  cm_client_id :: "string option"
  cm_redirect_uris :: "string list"
  cm_scopes :: "string list"
  cm_host :: "string option"
  cm_backend :: "backend option"
  cm_consumers :: "consumer list"

section \<open>The environment\<close>

record spec =
  sp_project :: string
  sp_domain :: string
  sp_dns :: dns_config
  sp_resilience :: resilience_config
  sp_images :: "(string, image_config) bmap"
  sp_networks :: "(string, network_config) bmap"
  sp_routes :: "route_config list"
  sp_policies :: "policy_config list"
  sp_ports :: "string list"
  sp_volumes :: "(string, string) bmap"
  sp_certs :: "certs_config option"
  sp_ingress :: "ingress_config option"
  sp_oidc :: "oidc_config option"
  sp_observability :: observability_config
  sp_kubernetes :: kubernetes_config
  sp_service_providers :: "(string, provider_config) bmap"
  sp_service_claims :: "(string, claim_config) bmap"
  sp_vms :: "(string, vm_config) bmap"

record environment =
  env_api_version :: config_api_version
  env_kind :: config_kind
  env_metadata :: metadata
  env_spec :: spec

abbreviation env_vms :: "environment \<Rightarrow> (string, vm_config) bmap" where
  "env_vms env \<equiv> sp_vms (env_spec env)"

abbreviation env_networks :: "environment \<Rightarrow> (string, network_config) bmap" where
  "env_networks env \<equiv> sp_networks (env_spec env)"

abbreviation env_images :: "environment \<Rightarrow> (string, image_config) bmap" where
  "env_images env \<equiv> sp_images (env_spec env)"

abbreviation env_volumes :: "environment \<Rightarrow> (string, string) bmap" where
  "env_volumes env \<equiv> sp_volumes (env_spec env)"

abbreviation with_vms :: "(string, vm_config) bmap \<Rightarrow> environment \<Rightarrow> environment" where
  "with_vms m env \<equiv> env\<lparr>env_spec := (env_spec env)\<lparr>sp_vms := m\<rparr>\<rparr>"

abbreviation with_networks :: "(string, network_config) bmap \<Rightarrow> environment \<Rightarrow> environment" where
  "with_networks m env \<equiv> env\<lparr>env_spec := (env_spec env)\<lparr>sp_networks := m\<rparr>\<rparr>"

abbreviation with_volumes :: "(string, string) bmap \<Rightarrow> environment \<Rightarrow> environment" where
  "with_volumes m env \<equiv> env\<lparr>env_spec := (env_spec env)\<lparr>sp_volumes := m\<rparr>\<rparr>"

text \<open>What deserialising the maps of a document gives: sorted keys in every map.\<close>

definition env_wf :: "environment \<Rightarrow> bool" where
  "env_wf env \<longleftrightarrow>
     bm_wf (env_vms env) \<and> bm_wf (env_networks env) \<and> bm_wf (env_images env) \<and> bm_wf (env_volumes env)
     \<and> bm_wf (k8s_clusters (sp_kubernetes (env_spec env)))
     \<and> bm_wf (sp_service_providers (env_spec env)) \<and> bm_wf (sp_service_claims (env_spec env))"

text \<open>\<open>vm.roles.iter().any(|role| role == r)\<close> and \<open>vm.networks.iter().any(..name == n)\<close>.\<close>

definition has_role :: "string \<Rightarrow> vm_config \<Rightarrow> bool" where
  "has_role r vm \<longleftrightarrow> r \<in> set (vm_roles vm)"

definition attached_to :: "string \<Rightarrow> vm_config \<Rightarrow> bool" where
  "attached_to n vm \<longleftrightarrow> n \<in> set (map att_name (vm_networks vm))"

declare has_role_def [exec_simps] attached_to_def [exec_simps] data_sources_is_empty_def [exec_simps]
  default_observability_def [exec_simps] default_egress_probe_url_def [exec_simps]
  default_egress_probe_def [exec_simps] default_network_resilience_def [exec_simps]

end
