(* ===== verification/Names.thy ===== *)
theory Names
  imports ConfigTypes
begin

text \<open>
  Names: which strings the configuration accepts as names, labels, tags and units
  (the \<open>valid_*\<close> functions of \<open>config.rs\<close> and the checks of \<open>kubernetes.rs\<close>,
  \<open>controllers/validation.rs\<close>, \<open>vm_create.rs\<close>), how a project name is normalised, and how the
  runtime identifier of a VM, \<open>project/vm\<close>, is built and split.

  The lemmas show what an accepted name is made of, that normalising gives a valid name and
  is idempotent, and that a runtime identifier splits into what it was built from.
\<close>

section \<open>Predicates on names\<close>

text \<open>\<open>name.bytes().enumerate().all(|(index, byte)| ..)\<close>\<close>

definition all_indexed :: "(nat \<Rightarrow> char \<Rightarrow> bool) \<Rightarrow> string \<Rightarrow> bool" where
  "all_indexed p s \<longleftrightarrow> list_all (\<lambda>(i, c). p i c) (enumerate 0 s)"

definition valid_name :: "string \<Rightarrow> bool" where
  "valid_name name \<longleftrightarrow>
     1 \<le> length name \<and> length name \<le> 63
     \<and> all_indexed (\<lambda>index c. is_ascii_alphanumeric c
          \<or> 0 < index \<and> c \<in> {CHR ''.'', CHR ''-'', CHR ''_''}) name"

definition valid_dns_label :: "string \<Rightarrow> bool" where
  "valid_dns_label name \<longleftrightarrow>
     name \<noteq> ''svc''
     \<and> 1 \<le> length name \<and> length name \<le> 63
     \<and> all_indexed (\<lambda>index c. is_ascii_lowercase c \<or> is_ascii_digit c
          \<or> 0 < index \<and> c = CHR ''-'') name
     \<and> name \<noteq> [] \<and> is_ascii_alphanumeric (last name)"

definition valid_image_tag :: "string \<Rightarrow> bool" where
  "valid_image_tag tag \<longleftrightarrow>
     1 \<le> length tag \<and> length tag \<le> 64
     \<and> all_indexed (\<lambda>index c. is_ascii_alphanumeric c
          \<or> 0 < index \<and> c \<in> {CHR ''.'', CHR ''-'', CHR ''_''}) tag"

definition VIRTIOFS_DEVICE_TAG :: string where
  "VIRTIOFS_DEVICE_TAG = ''vzctl''"

definition valid_volume_name :: "string \<Rightarrow> bool" where
  "valid_volume_name name \<longleftrightarrow>
     (if name = VIRTIOFS_DEVICE_TAG then False
      else 1 \<le> length name \<and> length name \<le> 36
        \<and> all_indexed (\<lambda>index c. is_ascii_alphanumeric c
             \<or> 0 < index \<and> c \<in> {CHR ''-'', CHR ''_''}) name)"

definition valid_container_name :: "string \<Rightarrow> bool" where
  "valid_container_name name \<longleftrightarrow>
     1 \<le> length name \<and> length name \<le> 63
     \<and> all_indexed (\<lambda>index c. is_ascii_alphanumeric c
          \<or> 0 < index \<and> c \<in> {CHR ''_'', CHR ''.'', CHR ''-''}) name"

definition valid_systemd_unit :: "string \<Rightarrow> bool" where
  "valid_systemd_unit unit \<longleftrightarrow>
     (if unit = [] \<or> 256 < length unit \<or> \<not> contains_char unit CHR ''.'' then False
      else if \<not> is_ascii_alphanumeric (hd unit) then False
      else list_all (\<lambda>c. is_ascii_alphanumeric c
             \<or> c \<in> {CHR ''@'', CHR ''.'', CHR ''-'', CHR ''_'', CHR 0x5C}) (tl unit))"

definition valid_restart_policy :: "string \<Rightarrow> bool" where
  "valid_restart_policy policy \<longleftrightarrow>
     policy \<in> {''no'', ''always'', ''on-failure'', ''unless-stopped''}
     \<or> starts_with policy ''on-failure:''"

text \<open>\<open>kubernetes.rs\<close>: \<open>dns_label\<close>.\<close>

definition k8s_dns_label :: "string \<Rightarrow> bool" where
  "k8s_dns_label s \<longleftrightarrow>
     s \<noteq> [] \<and> length s \<le> 63
     \<and> list_all (\<lambda>c. is_ascii_lowercase c \<or> is_ascii_digit c \<or> c = CHR ''-'') s
     \<and> hd s \<noteq> CHR ''-'' \<and> last s \<noteq> CHR ''-''"

text \<open>\<open>controllers/validation.rs\<close>: \<open>key\<close>, \<open>dns_label\<close>, \<open>dns_name\<close>.\<close>

definition controller_key :: "string \<Rightarrow> bool" where
  "controller_key s \<longleftrightarrow>
     s \<noteq> [] \<and> length s \<le> 63
     \<and> list_all (\<lambda>c. is_ascii_alphanumeric c \<or> c = CHR ''_'' \<or> c = CHR ''-'') s"

definition controller_dns_label :: "string \<Rightarrow> bool" where
  "controller_dns_label s \<longleftrightarrow>
     controller_key s \<and> \<not> contains_char s CHR ''_'' \<and> s = to_ascii_lowercase s
     \<and> \<not> starts_with s ''-'' \<and> \<not> ends_with s ''-''"

definition controller_dns_name :: "string \<Rightarrow> bool" where
  "controller_dns_name s \<longleftrightarrow> length s \<le> 253 \<and> list_all controller_dns_label (split_on CHR ''.'' s)"

text \<open>\<open>vm_create.rs\<close>\<close>

definition valid_vm_id_segment :: "string \<Rightarrow> bool" where
  "valid_vm_id_segment segment \<longleftrightarrow>
     segment \<noteq> [] \<and> length segment \<le> 63
     \<and> list_all (\<lambda>c. is_ascii_alphanumeric c \<or> c \<in> {CHR ''.'', CHR ''_'', CHR ''-''}) segment
     \<and> is_ascii_alphanumeric (hd segment)"

definition valid_vm_id :: "string \<Rightarrow> bool" where
  "valid_vm_id i \<longleftrightarrow>
     (if i = [] \<or> 127 < length i then False
      else case split_once CHR ''/'' i of
             None \<Rightarrow> valid_vm_id_segment i
           | Some (project, vm) \<Rightarrow>
               \<not> contains_char project CHR ''/'' \<and> \<not> contains_char vm CHR ''/''
               \<and> valid_vm_id_segment project \<and> valid_vm_id_segment vm)"

definition valid_probe_url :: "string \<Rightarrow> bool" where
  "valid_probe_url s =
     (case (case strip_prefix s ''https://'' of Some r \<Rightarrow> Some r | None \<Rightarrow> strip_prefix s ''http://'') of
        None \<Rightarrow> False
      | Some rest \<Rightarrow>
          (let authority = before_any [CHR ''/'', CHR ''?'', CHR ''#''] rest
           in authority \<noteq> [] \<and> \<not> contains_char authority CHR ''@''
              \<and> \<not> list_ex is_whitespace (utf8_chars authority)))"

definition valid_data_source_host :: "string \<Rightarrow> bool" where
  "valid_data_source_host host =
     (if ends_with host ''.vz.test'' then True
      else case parse_ipv4 host of
             Some ip \<Rightarrow>
               is_loopback ip \<or> octet 0 ip = 10
               \<or> octet 0 ip = 172 \<and> 16 \<le> octet 1 ip \<and> octet 1 ip \<le> 31
               \<or> octet 0 ip = 192 \<and> octet 1 ip = 168
           | None \<Rightarrow> False)"

section \<open>Runtime identifiers\<close>

definition runtime_vm_id :: "string \<Rightarrow> string \<Rightarrow> string" where
  "runtime_vm_id project name = project @ ''/'' @ name"

definition vm_id_basename :: "string \<Rightarrow> string" where
  "vm_id_basename i = (case rsplit_once CHR ''/'' i of Some (_, name) \<Rightarrow> name | None \<Rightarrow> i)"

definition split_runtime_vm_id :: "string \<Rightarrow> (string \<times> string) option" where
  "split_runtime_vm_id vm_id =
     (case split_once CHR ''/'' vm_id of
        None \<Rightarrow> None
      | Some (project, vm_key) \<Rightarrow>
          if project = [] \<or> vm_key = [] \<or> \<not> valid_name project \<or> \<not> valid_name vm_key then None
          else Some (project, vm_key))"

definition journald_units_for_vm_config :: "vm_config \<Rightarrow> string list" where
  "journald_units_for_vm_config vm =
     (case vm_logs vm of Some logs \<Rightarrow> logs_journald logs | None \<Rightarrow> [])"

definition journald_units_for_runtime_vm :: "environment \<Rightarrow> string \<Rightarrow> string list" where
  "journald_units_for_runtime_vm env vm_id =
     (case split_runtime_vm_id vm_id of
        None \<Rightarrow> []
      | Some (project, vm_key) \<Rightarrow>
          if sp_project (env_spec env) \<noteq> project then []
          else case bm_get (env_vms env) vm_key of
                 Some vm \<Rightarrow> journald_units_for_vm_config vm
               | None \<Rightarrow> [])"

section \<open>Normalising a project name\<close>

definition project_char :: "char \<Rightarrow> bool" where
  "project_char c \<longleftrightarrow> is_ascii_alphanumeric c \<or> c \<in> {CHR ''.'', CHR ''_'', CHR ''-''}"

text \<open>Each \<open>char\<close> that is not a project character becomes one dash.\<close>

definition dash_others :: "string \<Rightarrow> string" where
  "dash_others s =
     map (\<lambda>ch. case ch of [c] \<Rightarrow> if project_char c then c else CHR ''-'' | _ \<Rightarrow> CHR ''-'') (utf8_chars s)"

definition drop_trailing_dashes :: "string \<Rightarrow> string" where
  "drop_trailing_dashes s = trim_end_matches [CHR ''-''] s"

definition normalize_project_name :: "string \<Rightarrow> string option" where
  "normalize_project_name raw =
     (let trimmed = trim raw in
      if trimmed = [] then None
      else
        let mapped = dash_others (to_ascii_lowercase trimmed);
            stripped = drop_trailing_dashes (dropWhile (\<lambda>c. c = CHR ''-'') mapped);
            bounded = (if 63 < length stripped then drop_trailing_dashes (take 63 stripped) else stripped)
        in if bounded = [] then None
           else if \<not> is_ascii_alphanumeric (hd bounded) then None
           else if \<not> list_all project_char bounded then None
           else Some bounded)"

declare all_indexed_def [exec_simps] valid_name_def [exec_simps] valid_dns_label_def [exec_simps]
  valid_image_tag_def [exec_simps] VIRTIOFS_DEVICE_TAG_def [exec_simps] valid_volume_name_def [exec_simps]
  valid_container_name_def [exec_simps] valid_systemd_unit_def [exec_simps]
  valid_restart_policy_def [exec_simps] k8s_dns_label_def [exec_simps] controller_key_def [exec_simps]
  controller_dns_label_def [exec_simps] controller_dns_name_def [exec_simps]
  valid_vm_id_segment_def [exec_simps] valid_vm_id_def [exec_simps] valid_probe_url_def [exec_simps]
  valid_data_source_host_def [exec_simps] runtime_vm_id_def [exec_simps] vm_id_basename_def [exec_simps]
  split_runtime_vm_id_def [exec_simps] journald_units_for_vm_config_def [exec_simps]
  journald_units_for_runtime_vm_def [exec_simps] project_char_def [exec_simps] dash_others_def [exec_simps]
  drop_trailing_dashes_def [exec_simps] normalize_project_name_def [exec_simps]

section \<open>What an accepted name is made of\<close>

lemma all_indexed_Nil [simp]: "all_indexed p []"
  by (simp add: all_indexed_def)

lemma all_indexed_Cons:
  "all_indexed (\<lambda>i c. p c \<or> 0 < i \<and> q c) (c # s) \<longleftrightarrow> p c \<and> list_all (\<lambda>c. p c \<or> q c) s"
proof -
  have "list_all (\<lambda>(i, c). p c \<or> 0 < i \<and> q c) (enumerate (Suc n) s) \<longleftrightarrow> list_all (\<lambda>c. p c \<or> q c) s" for n
    by (induction s arbitrary: n) auto
  then show ?thesis by (simp add: all_indexed_def)
qed

lemma valid_name_iff:
  "valid_name s \<longleftrightarrow> s \<noteq> [] \<and> length s \<le> 63 \<and> is_ascii_alphanumeric (hd s) \<and> list_all project_char s"
proof (cases s)
  case (Cons c cs)
  have "(\<lambda>c. is_ascii_alphanumeric c \<or> c \<in> {CHR ''.'', CHR ''-'', CHR ''_''}) = project_char"
    by (auto simp: project_char_def fun_eq_iff)
  with Cons show ?thesis
    by (auto simp: valid_name_def all_indexed_Cons Suc_le_eq project_char_def)
qed (simp add: valid_name_def)

lemma valid_name_segment: "valid_vm_id_segment s \<longleftrightarrow> valid_name s"
  by (auto simp: valid_vm_id_segment_def valid_name_iff project_char_def [abs_def])

lemma project_char_not_slash: "\<not> project_char CHR ''/''"
  by (simp add: project_char_def char_class_defs)

lemma valid_name_no_slash: "valid_name s \<Longrightarrow> CHR ''/'' \<notin> set s"
  using project_char_not_slash by (auto simp: valid_name_iff list_all_iff)

lemma valid_dns_label_name: "valid_dns_label s \<Longrightarrow> valid_name s"
proof (cases s)
  case (Cons c cs)
  assume "valid_dns_label s"
  with Cons show ?thesis
    unfolding valid_dns_label_def valid_name_def
    using all_indexed_Cons [of "\<lambda>c. is_ascii_lowercase c \<or> is_ascii_digit c" "\<lambda>c. c = CHR ''-''" c cs]
      all_indexed_Cons [of is_ascii_alphanumeric "\<lambda>c. c \<in> {CHR ''.'', CHR ''-'', CHR ''_''}" c cs]
    by (auto simp: list_all_iff is_ascii_alphanumeric_def simp del: insert_iff)
qed (simp add: valid_dns_label_def)

section \<open>Splitting a runtime identifier\<close>

lemma split_runtime_vm_id_build:
  assumes "valid_name project" and "valid_name vm"
  shows "split_runtime_vm_id (runtime_vm_id project vm) = Some (project, vm)"
proof -
  have "split_once CHR ''/'' (runtime_vm_id project vm) = Some (project, vm)"
    using valid_name_no_slash [OF assms(1)] by (simp add: split_once_Some runtime_vm_id_def)
  then show ?thesis
    using assms by (auto simp: split_runtime_vm_id_def valid_name_iff)
qed

lemma split_runtime_vm_id_Some:
  assumes "split_runtime_vm_id i = Some (project, vm)"
  shows "i = runtime_vm_id project vm \<and> valid_name project \<and> valid_name vm"
proof -
  obtain a b where ab: "split_once CHR ''/'' i = Some (a, b)"
    using assms by (cases "split_once CHR ''/'' i") (auto simp: split_runtime_vm_id_def)
  then have "a = project" "b = vm" "valid_name a" "valid_name b"
    using assms by (auto simp: split_runtime_vm_id_def split: if_splits)
  with ab show ?thesis by (simp add: split_once_Some runtime_vm_id_def)
qed

section \<open>Normalising is idempotent\<close>

lemma utf8_chars_ascii: "(\<And>c. c \<in> set s \<Longrightarrow> byte c < 128) \<Longrightarrow> utf8_chars s = map (\<lambda>c. [c]) s"
proof (induction s)
  case Nil
  then show ?case by simp
next
  case (Cons c cs)
  have small: "byte d < 128" if "d \<in> set cs" for d
    using Cons.prems [of d] that by simp
  have "takeWhile is_continuation cs = [] \<and> dropWhile is_continuation cs = cs"
  proof (cases cs)
    case (Cons d ds)
    with small [of d] show ?thesis by (simp add: is_continuation_def)
  qed simp
  moreover have "utf8_chars cs = map (\<lambda>c. [c]) cs"
    by (rule Cons.IH) (rule small)
  ultimately show ?case by simp
qed

lemma project_char_ascii: "project_char c \<Longrightarrow> byte c < 128"
  by (auto simp: project_char_def char_class_defs)

lemma project_char_not_space: "project_char c \<Longrightarrow> \<not> is_whitespace [c]"
  by (auto simp: project_char_def is_whitespace_def whitespace_chars_def char_class_defs)

lemma dropWhile_no: "(\<And>x. x \<in> set xs \<Longrightarrow> \<not> p x) \<Longrightarrow> dropWhile p xs = xs"
  by (cases xs) auto

lemma trim_project: "list_all project_char s \<Longrightarrow> trim s = s"
proof -
  assume s: "list_all project_char s"
  then have "utf8_chars s = map (\<lambda>c. [c]) s"
    by (intro utf8_chars_ascii) (simp add: list_all_iff project_char_ascii)
  moreover have "dropWhile is_whitespace (map (\<lambda>c. [c]) s) = map (\<lambda>c. [c]) s"
    using s project_char_not_space by (intro dropWhile_no) (auto simp: list_all_iff)
  moreover have "dropWhile is_whitespace (rev (map (\<lambda>c. [c]) s)) = rev (map (\<lambda>c. [c]) s)"
    using s project_char_not_space by (intro dropWhile_no) (auto simp: list_all_iff)
  moreover have "concat (map (\<lambda>c. [c]) s) = s" by (induction s) auto
  ultimately show ?thesis by (simp add: trim_def)
qed

lemma dash_others_project: "list_all project_char s \<Longrightarrow> dash_others s = s"
  by (simp add: dash_others_def list_all_iff utf8_chars_ascii project_char_ascii map_idI comp_def)

lemma set_trim_end: "set (trim_end_matches ds s) \<subseteq> set s"
  by (auto simp: trim_end_matches_def dest: set_dropWhileD)

lemma length_trim_end: "length (trim_end_matches ds s) \<le> length s"
  unfolding trim_end_matches_def length_rev
  using length_dropWhile_le [of "\<lambda>c. c \<in> set ds" "rev s"] by (simp only: length_rev)

lemma trim_end_prefix: "\<exists>t. s = trim_end_matches ds s @ t"
proof -
  have "rev (takeWhile (\<lambda>c. c \<in> set ds) (rev s) @ dropWhile (\<lambda>c. c \<in> set ds) (rev s)) = s"
    by (simp only: takeWhile_dropWhile_id rev_rev_ident)
  then have "s = trim_end_matches ds s @ rev (takeWhile (\<lambda>c. c \<in> set ds) (rev s))"
    by (simp only: trim_end_matches_def rev_append)
  then show ?thesis ..
qed

lemma last_trim_end: "trim_end_matches ds s \<noteq> [] \<Longrightarrow> last (trim_end_matches ds s) \<notin> set ds"
  using hd_dropWhile [of "\<lambda>c. c \<in> set ds" "rev s"] by (simp add: trim_end_matches_def last_rev)

lemma trim_end_id: "s = [] \<or> last s \<notin> set ds \<Longrightarrow> trim_end_matches ds s = s"
  by (cases s rule: rev_cases) (auto simp: trim_end_matches_def)

lemma set_dropWhile_sub: "set (dropWhile p s) \<subseteq> set s"
  by (auto dest: set_dropWhileD)

definition normal_name :: "string \<Rightarrow> bool" where
  "normal_name s \<longleftrightarrow> s \<noteq> [] \<and> length s \<le> 63 \<and> is_ascii_alphanumeric (hd s) \<and> list_all project_char s
     \<and> to_ascii_lowercase s = s \<and> last s \<noteq> CHR ''-''"

lemma ascii_lower_fix: "\<not> is_ascii_uppercase c \<Longrightarrow> ascii_lower c = c"
  by (simp add: ascii_lower_def)

lemma dash_others_lower:
  assumes "c \<in> set (dash_others (to_ascii_lowercase s))"
  shows "ascii_lower c = c"
proof -
  obtain ch where ch: "ch \<in> set (utf8_chars (to_ascii_lowercase s))"
    and c: "c = (case ch of [c] \<Rightarrow> if project_char c then c else CHR ''-'' | _ \<Rightarrow> CHR ''-'')"
    using assms by (auto simp: dash_others_def)
  have dash: "ascii_lower CHR ''-'' = CHR ''-''"
    by (rule ascii_lower_fix) (simp add: is_ascii_uppercase_def)
  show ?thesis
  proof (cases "\<exists>d. ch = [d] \<and> project_char d")
    case True
    then obtain d where d: "ch = [d]" "c = d" using c by auto
    have "d \<in> \<Union> (set ` set (utf8_chars (to_ascii_lowercase s)))"
      using ch d(1) by (intro UN_I [of ch]) simp_all
    then have "d \<in> set (concat (utf8_chars (to_ascii_lowercase s)))" by (simp only: set_concat)
    then have "d \<in> ascii_lower ` set s" by (simp add: to_ascii_lowercase_def)
    with d(2) show ?thesis by auto
  next
    case False
    then have "c = CHR ''-''" using c by (auto split: list.splits)
    with dash show ?thesis by simp
  qed
qed

lemma normalize_project_name_normal:
  assumes "normalize_project_name raw = Some n"
  shows "normal_name n"
proof -
  define mapped where "mapped = dash_others (to_ascii_lowercase (trim raw))"
  define stripped where "stripped = drop_trailing_dashes (dropWhile (\<lambda>c. c = CHR ''-'') mapped)"
  define bounded where
    "bounded = (if 63 < length stripped then drop_trailing_dashes (take 63 stripped) else stripped)"
  have n: "n = bounded" "bounded \<noteq> []" "is_ascii_alphanumeric (hd bounded)" "list_all project_char bounded"
    using assms
    unfolding normalize_project_name_def Let_def mapped_def stripped_def bounded_def
    by (simp_all split: if_splits)
  have "length bounded \<le> 63"
    using length_trim_end [of "[CHR ''-'']" "take 63 stripped"]
    by (auto simp: bounded_def drop_trailing_dashes_def)
  moreover have "set stripped \<subseteq> set mapped"
    unfolding stripped_def drop_trailing_dashes_def
    using set_trim_end set_dropWhile_sub by (metis order_trans)
  then have sub: "set bounded \<subseteq> set mapped"
    unfolding bounded_def drop_trailing_dashes_def
    using set_trim_end [of "[CHR ''-'']" "take 63 stripped"] set_take_subset [of 63 stripped] by auto
  have "to_ascii_lowercase bounded = bounded"
    unfolding to_ascii_lowercase_def
    using sub dash_others_lower by (intro map_idI) (auto simp: mapped_def)
  moreover have "last bounded \<noteq> CHR ''-''"
  proof (cases "63 < length stripped")
    case True
    with n(2) show ?thesis
      using last_trim_end [of "[CHR ''-'']" "take 63 stripped"]
      by (simp add: bounded_def drop_trailing_dashes_def)
  next
    case False
    with n(2) show ?thesis
      using last_trim_end [of "[CHR ''-'']" "dropWhile (\<lambda>c. c = CHR ''-'') mapped"]
      by (simp add: bounded_def stripped_def drop_trailing_dashes_def)
  qed
  ultimately show ?thesis using n by (simp add: normal_name_def)
qed

lemma normal_name_fixed:
  assumes "normal_name n"
  shows "normalize_project_name n = Some n"
proof -
  have n: "n \<noteq> []" "length n \<le> 63" "is_ascii_alphanumeric (hd n)" "list_all project_char n"
    "to_ascii_lowercase n = n" "last n \<noteq> CHR ''-''"
    using assms by (simp_all add: normal_name_def)
  have "hd n \<noteq> CHR ''-''" using n(3) by (auto simp: char_class_defs)
  with n(1) have "dropWhile (\<lambda>c. c = CHR ''-'') n = n" by (cases n) auto
  moreover have "drop_trailing_dashes n = n"
    using n(6) by (simp add: drop_trailing_dashes_def trim_end_id)
  ultimately show ?thesis
    using n by (simp add: normalize_project_name_def trim_project dash_others_project)
qed

lemma normal_name_valid: "normal_name n \<Longrightarrow> valid_name n"
  by (simp add: normal_name_def valid_name_iff)

lemma valid_vm_id_build:
  assumes "valid_name project" and "valid_name vm"
  shows "valid_vm_id (runtime_vm_id project vm)"
proof -
  have "split_once CHR ''/'' (runtime_vm_id project vm) = Some (project, vm)"
    using valid_name_no_slash [OF assms(1)] by (simp add: split_once_Some runtime_vm_id_def)
  moreover have "length (runtime_vm_id project vm) \<le> 127"
    using assms by (auto simp: valid_name_iff runtime_vm_id_def)
  moreover have "runtime_vm_id project vm \<noteq> []"
    by (simp add: runtime_vm_id_def)
  ultimately show ?thesis
    using assms valid_name_no_slash by (simp add: valid_vm_id_def contains_char_def valid_name_segment)
qed

lemma vm_id_basename_build:
  assumes "valid_name vm"
  shows "vm_id_basename (runtime_vm_id project vm) = vm"
proof -
  have "split_once CHR ''/'' (rev (runtime_vm_id project vm)) = Some (rev vm, rev project)"
    using valid_name_no_slash [OF assms] by (simp add: split_once_Some runtime_vm_id_def)
  then show ?thesis by (simp add: vm_id_basename_def rsplit_once_def)
qed

section \<open>Properties\<close>

text \<open>A normalised project name is a valid, lower-case name that does not end with a dash, and
  normalising it again changes nothing.\<close>

lemma normalize_project_name_sound:
  assumes "normalize_project_name raw = Some n"
  shows "valid_name n \<and> to_ascii_lowercase n = n \<and> last n \<noteq> CHR ''-'' \<and> normalize_project_name n = Some n"
  using normalize_project_name_normal [OF assms] normal_name_valid normal_name_fixed
  by (simp add: normal_name_def)

lemma normalize_project_name_sound_witness:
  "valid_name ''my-demo.app'' \<and> normalize_project_name ''my-demo.app'' = Some ''my-demo.app''"
  using normalize_project_name_sound [of "''  -My Demo.app- ''" "''my-demo.app''"]
  by (simp add: exec_simps)

text \<open>A runtime identifier splits into a project and a VM exactly when it is \<open>project/vm\<close> with
  two valid names, and into those.\<close>

lemma split_runtime_vm_id_iff:
  "split_runtime_vm_id i = Some (project, vm) \<longleftrightarrow>
     i = runtime_vm_id project vm \<and> valid_name project \<and> valid_name vm"
  using split_runtime_vm_id_build split_runtime_vm_id_Some by blast

text \<open>The identifier built from two valid names is within the bounds \<open>create\<close> accepts (the two
  names and the slash are at most 127 bytes), and its base name is the VM's name.\<close>

lemma runtime_vm_id_valid:
  assumes "valid_name project" and "valid_name vm"
  shows "valid_vm_id (runtime_vm_id project vm) \<and> vm_id_basename (runtime_vm_id project vm) = vm"
  using assms by (simp add: valid_vm_id_build vm_id_basename_build)

lemma runtime_vm_id_valid_witness:
  "valid_vm_id ''demo/web-1'' \<and> vm_id_basename ''demo/web-1'' = ''web-1''"
  using runtime_vm_id_valid [of "''demo''" "''web-1''"] by (simp add: exec_simps)

end
