(* ===== verification/Issues.thy ===== *)
theory Issues
  imports Names
begin

text \<open>
  Validation issues: \<open>ValidationIssue\<close> of \<open>config.rs\<close>, the JSON paths that locate them
  (\<open>json_path_key\<close>, \<open>pointer_to_json_path\<close>) and \<open>sort_and_deduplicate\<close>. An issue is ordered
  by path, message and kind, as the code sorts it: the type is an instance of \<open>linorder\<close>.

  The lemmas say that a path determines its key, and that sorting and deduplicating gives
  the sorted list of the same issues with none repeated.
\<close>

section \<open>Issues\<close>

datatype validation_issue = ValidationIssue (vi_path: string) (vi_message: string) (vi_kind: string)

definition issue_key :: "validation_issue \<Rightarrow> string \<times> string \<times> string" where
  "issue_key i = (vi_path i, vi_message i, vi_kind i)"

lemma issue_key_inj: "issue_key i = issue_key j \<longleftrightarrow> i = j"
  by (cases i; cases j) (simp add: issue_key_def)

instantiation validation_issue :: linorder
begin

definition less_eq_validation_issue :: "validation_issue \<Rightarrow> validation_issue \<Rightarrow> bool" where
  "i \<le> j \<longleftrightarrow> issue_key i \<le> issue_key j"

definition less_validation_issue :: "validation_issue \<Rightarrow> validation_issue \<Rightarrow> bool" where
  "i < j \<longleftrightarrow> issue_key i < issue_key j"

instance
proof
  fix i j k :: validation_issue
  show "i < j \<longleftrightarrow> i \<le> j \<and> \<not> j \<le> i"
    by (auto simp: less_eq_validation_issue_def less_validation_issue_def)
  show "i \<le> i" by (simp add: less_eq_validation_issue_def)
  show "i \<le> j \<Longrightarrow> j \<le> k \<Longrightarrow> i \<le> k" by (auto simp: less_eq_validation_issue_def)
  show "i \<le> j \<Longrightarrow> j \<le> i \<Longrightarrow> i = j"
    by (auto simp: less_eq_validation_issue_def issue_key_inj dest: order_antisym)
  show "i \<le> j \<or> j \<le> i" by (auto simp: less_eq_validation_issue_def)
qed

end

text \<open>\<open>ValidationIssue::new(path, message, "semantic")\<close>, the issue every check of the
  references pushes.\<close>

definition semantic :: "string \<Rightarrow> string \<Rightarrow> validation_issue" where
  "semantic path message = ValidationIssue path message ''semantic''"

definition sort_and_deduplicate :: "validation_issue list \<Rightarrow> validation_issue list" where
  "sort_and_deduplicate issues = remdups_adj (sort issues)"

section \<open>JSON paths\<close>

text \<open>\<open>format!("{base}[{index}]")\<close>\<close>

definition at_index :: "string \<Rightarrow> nat \<Rightarrow> string" where
  "at_index base i = base @ ''['' @ show_nat i @ '']''"

definition json_path_key :: "string \<Rightarrow> string \<Rightarrow> string" where
  "json_path_key base key =
     (if list_all (\<lambda>(index, ch). case ch of
            [c] \<Rightarrow> is_ascii_alphanumeric c \<or> 0 < index \<and> c = CHR ''_''
          | _ \<Rightarrow> False) (enumerate 0 (utf8_chars key))
      then base @ ''.'' @ key
      else base @ ''['' @ json_str key @ '']'')"

definition pointer_segment :: "string \<Rightarrow> string" where
  "pointer_segment raw =
     (let segment = replace_str ''~0'' ''~'' (replace_str ''~1'' ''/'' raw)
      in if list_all is_ascii_digit segment then ''['' @ segment @ '']''
         else if list_all (\<lambda>c. is_ascii_alphanumeric c \<or> c = CHR ''_'' \<or> c = CHR ''-'') segment
           then ''.'' @ segment
         else ''['' @ json_str segment @ '']'')"

definition pointer_to_json_path :: "string \<Rightarrow> string" where
  "pointer_to_json_path pointer = ''$'' @ concat (map pointer_segment (tl (split_on CHR ''/'' pointer)))"

declare issue_key_def [exec_simps] less_eq_validation_issue_def [exec_simps]
  less_validation_issue_def [exec_simps] semantic_def [exec_simps] sort_and_deduplicate_def [exec_simps]
  at_index_def [exec_simps] json_path_key_def [exec_simps] pointer_segment_def [exec_simps]
  pointer_to_json_path_def [exec_simps]

section \<open>Passes that push issues\<close>

definition validate_name_keys :: "string \<Rightarrow> string list \<Rightarrow> validation_issue list" where
  "validate_name_keys base names =
     concat (map (\<lambda>name. emit (\<not> valid_name name)
       (semantic (json_path_key base name)
         ''name must be 1-63 ASCII characters: alphanumeric, dot, dash, or underscore'')) names)"

definition validate_dns_keys :: "string \<Rightarrow> string list \<Rightarrow> validation_issue list" where
  "validate_dns_keys base names =
     concat (map (\<lambda>name. emit (\<not> valid_dns_label name)
       (semantic (json_path_key base name)
         ''DNS-visible name must be lowercase a-z, 0-9, hyphen; never svc'')) names)"

lemma validate_name_keys_Nil [pass_simps]: "validate_name_keys base names = [] \<longleftrightarrow> (\<forall>n \<in> set names. valid_name n)"
  by (simp add: validate_name_keys_def)

lemma validate_dns_keys_Nil [pass_simps]: "validate_dns_keys base names = [] \<longleftrightarrow> (\<forall>n \<in> set names. valid_dns_label n)"
  by (simp add: validate_dns_keys_def)

section \<open>Sorting and deduplicating\<close>

lemma set_sort_and_deduplicate [simp]: "set (sort_and_deduplicate issues) = set issues"
  by (simp add: sort_and_deduplicate_def)

lemma sort_and_deduplicate_Nil [simp, pass_simps]: "sort_and_deduplicate issues = [] \<longleftrightarrow> issues = []"
  by (metis set_empty set_sort_and_deduplicate)

lemma sorted_remdups_adj_strict: "sorted xs \<Longrightarrow> sorted_wrt (<) (remdups_adj xs)"
  by (induction xs rule: remdups_adj.induct) (auto simp: less_le)

lemma sort_and_deduplicate_strict: "sorted_wrt (<) (sort_and_deduplicate issues)"
  by (simp add: sort_and_deduplicate_def sorted_remdups_adj_strict)

text \<open>The order in which the passes push does not show in the report.\<close>

lemma sort_and_deduplicate_cong: "set xs = set ys \<Longrightarrow> sort_and_deduplicate xs = sort_and_deduplicate ys"
  by (rule strict_sorted_equal) (simp_all add: sort_and_deduplicate_strict)

section \<open>A path determines its key\<close>

lemma json_path_key_inj: "json_path_key base k = json_path_key base l \<longleftrightarrow> k = l"
proof
  assume "json_path_key base k = json_path_key base l"
  then show "k = l"
    by (simp add: json_path_key_def json_str_inj split: if_splits)
qed simp

lemma at_index_inj: "at_index base i = at_index base j \<longleftrightarrow> i = j"
  by (simp add: at_index_def show_nat_inj)

section \<open>Properties\<close>

text \<open>The reported issues are the pushed ones, in strictly increasing order of path, message
  and kind, so none is repeated, and the report does not depend on the order of the passes.\<close>

lemma sort_and_deduplicate_correct:
  "set (sort_and_deduplicate issues) = set issues
   \<and> sorted_wrt (<) (map issue_key (sort_and_deduplicate issues))
   \<and> (set issues = set others \<longrightarrow> sort_and_deduplicate issues = sort_and_deduplicate others)"
  using sort_and_deduplicate_strict [of issues] sort_and_deduplicate_cong [of issues others]
  by (simp add: sorted_wrt_map less_validation_issue_def [abs_def])

lemma sort_and_deduplicate_correct_witness:
  "sort_and_deduplicate [semantic ''b'' [], semantic ''a'' [], semantic ''b'' []]
     = sort_and_deduplicate [semantic ''a'' [], semantic ''b'' []]"
  using sort_and_deduplicate_correct [of "[semantic ''b'' [], semantic ''a'' [], semantic ''b'' []]"
      "[semantic ''a'' [], semantic ''b'' []]"]
  by auto

text \<open>Under one base path, the path of an issue determines the key it is about, whatever
  characters the key has, and the index of a list entry.\<close>

lemma json_path_determines:
  "(json_path_key base k = json_path_key base l \<longleftrightarrow> k = l) \<and> (at_index base i = at_index base j \<longleftrightarrow> i = j)"
  by (simp add: json_path_key_inj at_index_inj)

end
