(* ===== verification/Ipnet.thy ===== *)
theory Ipnet
  imports OrdMap
begin

text \<open>
  The crate \<open>ipnet\<close> is not part of the repository. What the code uses of \<open>Ipv4Net\<close> is a
  parameter of the model: a record of the operations on an abstract type of networks.
  \<open>ipnet_laws\<close> is the documented behaviour the theorems rely on: a network is the interval
  from its network address to its broadcast address, and truncating changes neither; \<open>ipnet_sized\<close> says
  how long it is.

  \<open>cidr_lib\<close> is a concrete instance, an address with a prefix length, at which the theorems
  with that hypothesis are applied.
\<close>

record 'n ipnet_lib =
  net_parse :: "string \<Rightarrow> ('n, string) result"
  net_trunc :: "'n \<Rightarrow> 'n"
  net_contains :: "'n \<Rightarrow> ipv4 \<Rightarrow> bool"
  net_network :: "'n \<Rightarrow> ipv4"
  net_broadcast :: "'n \<Rightarrow> ipv4"
  net_addr :: "'n \<Rightarrow> ipv4"
  net_prefix_len :: "'n \<Rightarrow> nat"
  net_display :: "'n \<Rightarrow> string"

definition ipnet_laws :: "'n ipnet_lib \<Rightarrow> bool" where
  "ipnet_laws L \<longleftrightarrow>
     (\<forall>n ip. net_contains L n ip \<longleftrightarrow> net_network L n \<le> ip \<and> ip \<le> net_broadcast L n)
     \<and> (\<forall>n. net_network L n \<le> net_broadcast L n)
     \<and> (\<forall>n. net_network L (net_trunc L n) = net_network L n)
     \<and> (\<forall>n. net_broadcast L (net_trunc L n) = net_broadcast L n)"

text \<open>How many addresses a prefix leaves.\<close>

definition ipnet_sized :: "'n ipnet_lib \<Rightarrow> bool" where
  "ipnet_sized L \<longleftrightarrow>
     (\<forall>n. net_prefix_len L n \<le> 32 \<longrightarrow>
        unat (net_broadcast L n) = unat (net_network L n) + (2 ^ (32 - net_prefix_len L n) - 1))"

lemma ipnet_contains:
  "ipnet_laws L \<Longrightarrow> net_contains L n ip \<longleftrightarrow> net_network L n \<le> ip \<and> ip \<le> net_broadcast L n"
  by (simp add: ipnet_laws_def)

lemma ipnet_trunc [simp]:
  "ipnet_laws L \<Longrightarrow> net_network L (net_trunc L n) = net_network L n"
  "ipnet_laws L \<Longrightarrow> net_broadcast L (net_trunc L n) = net_broadcast L n"
  by (simp_all add: ipnet_laws_def)

section \<open>A concrete instance\<close>

definition cidr_block :: "ipv4 \<times> nat \<Rightarrow> nat" where
  "cidr_block n = 2 ^ (32 - snd n)"

definition cidr_network :: "ipv4 \<times> nat \<Rightarrow> ipv4" where
  "cidr_network n = of_nat (unat (fst n) div cidr_block n * cidr_block n)"

definition cidr_broadcast :: "ipv4 \<times> nat \<Rightarrow> ipv4" where
  "cidr_broadcast n = of_nat (unat (fst n) div cidr_block n * cidr_block n + (cidr_block n - 1))"

definition cidr_trunc :: "ipv4 \<times> nat \<Rightarrow> ipv4 \<times> nat" where
  "cidr_trunc n = (cidr_network n, snd n)"

definition cidr_parse :: "string \<Rightarrow> (ipv4 \<times> nat, string) result" where
  "cidr_parse s =
     (case split_once CHR ''/'' s of
        None \<Rightarrow> Inl ''invalid IP address syntax''
      | Some (a, l) \<Rightarrow>
          (case (parse_ipv4 a, parse_uint 33 l) of
             (Some ip, Some len) \<Rightarrow> Inr (ip, len)
           | _ \<Rightarrow> Inl ''invalid IP address syntax''))"

definition cidr_lib :: "(ipv4 \<times> nat) ipnet_lib" where
  "cidr_lib =
     \<lparr>net_parse = cidr_parse,
      net_trunc = cidr_trunc,
      net_contains = (\<lambda>n ip. cidr_network n \<le> ip \<and> ip \<le> cidr_broadcast n),
      net_network = cidr_network,
      net_broadcast = cidr_broadcast,
      net_addr = fst,
      net_prefix_len = snd,
      net_display = (\<lambda>n. show_ipv4 (fst n) @ ''/'' @ show_nat (snd n))\<rparr>"

lemma cidr_block_le: "unat (a :: ipv4) div 2 ^ (32 - l) * 2 ^ (32 - l) + (2 ^ (32 - l) - 1) < 2 ^ 32"
proof -
  let ?k = "32 - l"
  have "unat a < 2 ^ 32" using unsigned_less [where ?'a = nat, of a] by simp
  also have "(2::nat) ^ 32 = 2 ^ (32 - ?k) * 2 ^ ?k" by (subst power_add [symmetric]) simp
  finally have "unat a div 2 ^ ?k < 2 ^ (32 - ?k)" by (simp add: less_mult_imp_div_less)
  then have "(unat a div 2 ^ ?k + 1) * 2 ^ ?k \<le> 2 ^ (32 - ?k) * 2 ^ ?k"
    by (intro mult_right_mono) simp_all
  also have "\<dots> = (2::nat) ^ 32" by (subst power_add [symmetric]) simp
  finally have "unat a div 2 ^ ?k * 2 ^ ?k + 2 ^ ?k \<le> 2 ^ 32" by (simp add: distrib_right)
  moreover have "(0::nat) < 2 ^ ?k" by simp
  ultimately show ?thesis by linarith
qed

lemma unat_cidr_network: "unat (cidr_network n) = unat (fst n) div cidr_block n * cidr_block n"
proof -
  have "unat (fst n) div cidr_block n * cidr_block n < 2 ^ 32"
    using cidr_block_le [of "fst n" "snd n"] unfolding cidr_block_def by linarith
  then have "unat (fst n) div cidr_block n * cidr_block n < 4294967296" by simp
  then show ?thesis unfolding cidr_network_def by (rule unat_of_nat_u32)
qed

lemma unat_cidr_broadcast: "unat (cidr_broadcast n) = unat (cidr_network n) + (cidr_block n - 1)"
proof -
  have "unat (fst n) div cidr_block n * cidr_block n + (cidr_block n - 1) < 4294967296"
    using cidr_block_le [of "fst n" "snd n"] unfolding cidr_block_def by simp
  then show ?thesis unfolding cidr_broadcast_def unat_cidr_network by (rule unat_of_nat_u32)
qed

lemma cidr_network_trunc: "cidr_network (cidr_trunc n) = cidr_network n"
proof -
  have "unat (cidr_network (cidr_trunc n)) = unat (cidr_network n)"
    by (simp add: unat_cidr_network cidr_trunc_def cidr_block_def)
  then show ?thesis by (simp add: word_unat_eq_iff)
qed

lemma cidr_lib_laws: "ipnet_laws cidr_lib"
proof -
  have "cidr_network n \<le> cidr_broadcast n" for n
    by (simp add: word_le_nat_alt unat_cidr_broadcast)
  moreover have "cidr_broadcast (cidr_trunc n) = cidr_broadcast n" for n
  proof -
    have "unat (cidr_broadcast (cidr_trunc n)) = unat (cidr_broadcast n)"
      by (simp add: unat_cidr_broadcast cidr_network_trunc) (simp add: cidr_block_def cidr_trunc_def)
    then show ?thesis by (simp add: word_unat_eq_iff)
  qed
  ultimately show ?thesis
    by (simp add: ipnet_laws_def cidr_lib_def cidr_network_trunc)
qed

lemma cidr_lib_sized: "ipnet_sized cidr_lib"
  by (simp add: ipnet_sized_def cidr_lib_def unat_cidr_broadcast) (simp add: cidr_block_def)

declare cidr_block_def [exec_simps] cidr_network_def [exec_simps] cidr_broadcast_def [exec_simps]
  cidr_trunc_def [exec_simps] cidr_parse_def [exec_simps] cidr_lib_def [exec_simps]

end
