(* ===== verification/Samples.thy ===== *)
theory Samples
  imports ConfigTypes
begin

text \<open>
  A small environment on which the theorems are applied: a router VM \<open>web\<close> between a vmnet
  network \<open>lan\<close> and a docker network \<open>dock\<close>, and a VM \<open>db\<close> on \<open>lan\<close> that \<open>web\<close> depends on.
\<close>

definition plain_vm :: vm_config where
  "plain_vm = \<lparr>vm_from = ''base'', vm_clone = Linked, vm_disk = ''20GiB'', vm_cpus = None, vm_memory = None,
     vm_networks = [], vm_cloud_init = None, vm_depends_on = [], vm_roles = [], vm_requires = [],
     vm_ports = [], vm_mounts = [], vm_compose_files = [], vm_containers = [], vm_logs = None\<rparr>"

definition sample_web :: vm_config where
  "sample_web = plain_vm\<lparr>
     vm_networks := [\<lparr>att_name = ''lan'', att_ip = ''10.0.0.10''\<rparr>, \<lparr>att_name = ''dock'', att_ip = ''10.1.0.2''\<rparr>],
     vm_depends_on := [''db''], vm_roles := [''router'', ''docker''], vm_ports := [''8080:80'']\<rparr>"

definition sample_db :: vm_config where
  "sample_db = plain_vm\<lparr>
     vm_cpus := Some 2, vm_memory := Some ''1GiB'',
     vm_networks := [\<lparr>att_name = ''lan'', att_ip = ''10.0.0.11''\<rparr>],
     vm_mounts := [\<lparr>mnt_source = ''data'', mnt_target = ''/data'', mnt_read_only = False\<rparr>]\<rparr>"

definition sample_lan :: network_config where
  "sample_lan = \<lparr>net_cidr = ''10.0.0.0/24'', net_mode = Shared, net_dhcp = False, net_nat_egress = True,
     net_backend = Vmnet\<rparr>"

definition sample_dock :: network_config where
  "sample_dock = \<lparr>net_cidr = ''10.1.0.0/24'', net_mode = Host, net_dhcp = False, net_nat_egress = False,
     net_backend = Docker\<rparr>"

definition sample_env :: environment where
  "sample_env = \<lparr>env_api_version = HypernetworkV1, env_kind = KindEnvironment,
     env_metadata = \<lparr>md_name = ''demo''\<rparr>,
     env_spec = \<lparr>sp_project = ''demo'', sp_domain = ''demo.vz.test'',
       sp_dns = \<lparr>dns_enabled = True, dns_host_resolver = True, dns_host_listen = ''127.0.0.1:53535'',
         dns_forward = \<lparr>fwd_enabled = True, fwd_upstream = ''system''\<rparr>\<rparr>,
       sp_resilience = \<lparr>res_network = default_network_resilience\<rparr>,
       sp_images = [(''base'', \<lparr>img_from = ''ubuntu'', img_role = Base, img_tag = ''v1''\<rparr>)],
       sp_networks = [(''dock'', sample_dock), (''lan'', sample_lan)],
       sp_routes = [\<lparr>rt_name = ''r1'', rt_from = ''lan'', rt_to = ''dock'', rt_via = ''web''\<rparr>],
       sp_policies = [\<lparr>pol_name = ''p1'', pol_network = ''dock'', pol_via = Some ''web'', pol_forward = DenyAll,
         pol_allow = [\<lparr>allow_to = ''lan'', allow_proto = ProtoTcp, allow_ports = [5432]\<rparr>]\<rparr>],
       sp_ports = [''9090:db:90''],
       sp_volumes = [(''data'', ''/srv/data'')],
       sp_certs = None, sp_ingress = None, sp_oidc = None,
       sp_observability = default_observability,
       sp_kubernetes = \<lparr>k8s_clusters = []\<rparr>,
       sp_service_providers = [], sp_service_claims = [],
       sp_vms = [(''db'', sample_db), (''web'', sample_web)]\<rparr>\<rparr>"

lemmas sample_simps [exec_simps] =
  plain_vm_def sample_web_def sample_db_def sample_lan_def sample_dock_def sample_env_def

end
