(* ===== verification/ValidateNet.thy ===== *)
theory ValidateNet
  imports Issues Ipnet Samples
begin

text \<open>
  The part of \<open>validate_references\<close> (\<open>config.rs\<close>) about networks: egress probe, images and
  names, the networks with the table of their canonical CIDRs that the later passes read, the
  routes and the policies. Each pass is the list of issues it pushes; the sets \<open>route_names\<close> and
  \<open>policy_names\<close> and the table are the state of their loops.

  For each pass the lemmas give the condition under which it pushes nothing: \<open>network_ok\<close>,
  \<open>route_ok\<close>, \<open>policy_ok\<close>, read off the code's checks.
\<close>

section \<open>Probe, images, names\<close>

definition validate_egress_probe :: "environment \<Rightarrow> validation_issue list" where
  "validate_egress_probe env =
     (let probe = nr_egress_probe (res_network (sp_resilience (env_spec env)))
      in emit (egress_enabled probe \<and> \<not> valid_probe_url (egress_url probe))
           (semantic ''$.spec.resilience.network.egressProbe.url''
              ''egress probe URL must be http(s), include a host, and contain no credentials''))"

definition validate_images :: "environment \<Rightarrow> validation_issue list" where
  "validate_images env =
     validate_name_keys ''$.spec.images'' (bm_keys (env_images env))
     @ concat (map (\<lambda>(name, image). emit (\<not> valid_image_tag (img_tag image))
         (semantic (json_path_key ''$.spec.images'' name @ ''.tag'')
            ''image tag must be 1-64 ASCII characters: alphanumeric, dot, dash, or underscore''))
         (env_images env))"

definition validate_names :: "environment \<Rightarrow> validation_issue list" where
  "validate_names env =
     validate_name_keys ''$.spec.networks'' (bm_keys (env_networks env))
     @ validate_name_keys ''$.spec.vms'' (bm_keys (env_vms env))
     @ validate_dns_keys ''$.spec.networks'' (bm_keys (env_networks env))
     @ validate_dns_keys ''$.spec.vms'' (bm_keys (env_vms env))"

section \<open>Networks\<close>

definition validate_network ::
    "'n ipnet_lib \<Rightarrow> nat \<Rightarrow> (string, 'n) bmap \<Rightarrow> string \<times> network_config
     \<Rightarrow> validation_issue list \<times> (string, 'n) bmap" where
  "validate_network L index table e =
     (let (name, network) = e;
          base = json_path_key ''$.spec.networks'' name;
          path = base @ ''.cidr'';
          (cidr_issues, table') =
            (case net_parse L (net_cidr network) of
               Inr cidr \<Rightarrow>
                 (let canonical = net_trunc L cidr
                  in (emit (cidr \<noteq> canonical)
                        (semantic path (''CIDR must use its network address; expected '' @ net_display L canonical)),
                      bm_insert name canonical table))
             | Inl error \<Rightarrow> ([semantic path (''invalid IPv4 CIDR: '' @ error)], table))
      in (cidr_issues
          @ (if net_backend network = Docker then
               emit (net_dhcp network)
                 (semantic (base @ ''.dhcp'') ''backend docker networks must not enable DHCP'')
               @ emit (net_nat_egress network)
                 (semantic (base @ ''.natEgress'') ''backend docker networks must set natEgress: false'')
             else []),
          table'))"

definition validate_networks ::
    "'n ipnet_lib \<Rightarrow> environment \<Rightarrow> validation_issue list \<times> (string, 'n) bmap" where
  "validate_networks L env = run_loop (validate_network L) 0 [] (env_networks env)"

definition require_network :: "string \<Rightarrow> string \<Rightarrow> (string, 'n) bmap \<Rightarrow> validation_issue list" where
  "require_network name path table =
     emit (\<not> bm_contains table name) (semantic path (''unknown network '' @ debug_str name))"

section \<open>Routes\<close>

definition validate_route_via ::
    "environment \<Rightarrow> (string, 'n) bmap \<Rightarrow> string \<Rightarrow> route_config \<Rightarrow> validation_issue list" where
  "validate_route_via env table base route =
     (case bm_get (env_vms env) (rt_via route) of
        None \<Rightarrow>
          [semantic (base @ ''.via'') (''route via references unknown VM '' @ debug_str (rt_via route))]
      | Some vm \<Rightarrow>
          emit (\<not> has_role ''router'' vm)
            (semantic (base @ ''.via'')
               (''route via VM '' @ debug_str (rt_via route) @ '' does not have role router''))
          @ concat (map (\<lambda>network.
              emit (bm_contains table network \<and> \<not> attached_to network vm)
                (semantic (base @ ''.via'')
                   (''route via VM '' @ debug_str (rt_via route) @ '' is not attached to network ''
                    @ debug_str network)))
              [rt_from route, rt_to route]))"

definition validate_route ::
    "environment \<Rightarrow> (string, 'n) bmap \<Rightarrow> nat \<Rightarrow> string set \<Rightarrow> route_config
     \<Rightarrow> validation_issue list \<times> string set" where
  "validate_route env table index names route =
     (let base = at_index ''$.spec.routes'' index
      in (emit (rt_name route \<in> names)
            (semantic (base @ ''.name'') (''duplicate route name '' @ debug_str (rt_name route)))
          @ require_network (rt_from route) (base @ ''.from'') table
          @ require_network (rt_to route) (base @ ''.to'') table
          @ validate_route_via env table base route,
          insert (rt_name route) names))"

definition validate_routes :: "environment \<Rightarrow> (string, 'n) bmap \<Rightarrow> validation_issue list" where
  "validate_routes env table = fst (run_loop (validate_route env table) 0 {} (sp_routes (env_spec env)))"

section \<open>Policies\<close>

definition validate_policy_via ::
    "environment \<Rightarrow> (string, 'n) bmap \<Rightarrow> string \<Rightarrow> policy_config \<Rightarrow> string \<Rightarrow> validation_issue list" where
  "validate_policy_via env table base policy via =
     (case bm_get (env_vms env) via of
        None \<Rightarrow> [semantic (base @ ''.via'') (''policy via references unknown VM '' @ debug_str via)]
      | Some vm \<Rightarrow>
          emit (\<not> has_role ''router'' vm)
            (semantic (base @ ''.via'') (''policy via VM '' @ debug_str via @ '' does not have role router''))
          @ emit (bm_contains table (pol_network policy) \<and> \<not> attached_to (pol_network policy) vm)
            (semantic (base @ ''.via'')
               (''policy via VM '' @ debug_str via @ '' is not attached to network ''
                @ debug_str (pol_network policy)))
          @ concat (map (\<lambda>allow.
              if allow_to allow = ''internet'' then []
              else emit (bm_contains table (allow_to allow) \<and> \<not> attached_to (allow_to allow) vm)
                (semantic (base @ ''.via'')
                   (''policy via VM '' @ debug_str via @ '' is not attached to network ''
                    @ debug_str (allow_to allow))))
              (pol_allow policy)))"

definition has_nat_egress :: "environment \<Rightarrow> string \<Rightarrow> bool" where
  "has_nat_egress env n \<longleftrightarrow>
     (case bm_get (env_networks env) n of Some net \<Rightarrow> net_nat_egress net | None \<Rightarrow> False)"

definition is_docker_network :: "environment \<Rightarrow> string \<Rightarrow> bool" where
  "is_docker_network env n \<longleftrightarrow>
     (case bm_get (env_networks env) n of Some net \<Rightarrow> net_backend net = Docker | None \<Rightarrow> False)"

definition has_internet_router :: "environment \<Rightarrow> string \<Rightarrow> bool" where
  "has_internet_router env source \<longleftrightarrow>
     list_ex (\<lambda>vm. has_role ''router'' vm \<and> attached_to source vm
       \<and> list_ex (\<lambda>n. has_nat_egress env (att_name n)) (vm_networks vm)) (bm_values (env_vms env))"

definition validate_allow_ports :: "string \<Rightarrow> allow_rule \<Rightarrow> validation_issue list" where
  "validate_allow_ports base allow =
     (if allow_proto allow = ProtoIcmp \<and> allow_ports allow \<noteq> [] then
        [semantic (base @ ''.ports'') ''ICMP rules must not declare ports'']
      else if (allow_proto allow = ProtoTcp \<or> allow_proto allow = ProtoUdp) \<and> allow_ports allow = [] then
        [semantic (base @ ''.ports'') ''TCP/UDP rules require at least one port'']
      else [])
     @ concat (map (\<lambda>(port_index, port). emit (port = 0)
         (semantic (at_index (base @ ''.ports'') port_index) ''port must be in 1...65535''))
         (enumerate 0 (allow_ports allow)))"

definition validate_allow ::
    "environment \<Rightarrow> (string, 'n) bmap \<Rightarrow> string \<Rightarrow> policy_config \<Rightarrow> nat \<times> allow_rule \<Rightarrow> validation_issue list" where
  "validate_allow env table base policy e =
     (let (allow_index, allow) = e;
          allow_base = at_index (base @ ''.allow'') allow_index
      in (if allow_to allow = ''internet'' then
            let source = pol_network policy
            in emit (\<not> has_internet_router env source \<and> \<not> is_docker_network env source)
                 (semantic (allow_base @ ''.to'')
                    (''policy '' @ debug_str (pol_name policy) @ '' allow to internet requires a router on ''
                     @ debug_str source @ '' that also attaches a natEgress network''))
          else require_network (allow_to allow) (allow_base @ ''.to'') table)
         @ validate_allow_ports allow_base allow)"

definition validate_policy ::
    "environment \<Rightarrow> (string, 'n) bmap \<Rightarrow> nat \<Rightarrow> string set \<Rightarrow> policy_config
     \<Rightarrow> validation_issue list \<times> string set" where
  "validate_policy env table index names policy =
     (let base = at_index ''$.spec.policies'' index
      in (emit (pol_name policy \<in> names)
            (semantic (base @ ''.name'') (''duplicate policy name '' @ debug_str (pol_name policy)))
          @ require_network (pol_network policy) (base @ ''.network'') table
          @ (case pol_via policy of
               None \<Rightarrow> []
             | Some via \<Rightarrow> validate_policy_via env table base policy via)
          @ concat (map (validate_allow env table base policy) (enumerate 0 (pol_allow policy))),
          insert (pol_name policy) names))"

definition validate_policies :: "environment \<Rightarrow> (string, 'n) bmap \<Rightarrow> validation_issue list" where
  "validate_policies env table = fst (run_loop (validate_policy env table) 0 {} (sp_policies (env_spec env)))"

declare validate_egress_probe_def [exec_simps] validate_images_def [exec_simps] validate_names_def [exec_simps]
  validate_name_keys_def [exec_simps] validate_dns_keys_def [exec_simps]
  validate_network_def [exec_simps] validate_networks_def [exec_simps] require_network_def [exec_simps]
  validate_route_via_def [exec_simps] validate_route_def [exec_simps] validate_routes_def [exec_simps]
  validate_policy_via_def [exec_simps] has_nat_egress_def [exec_simps] is_docker_network_def [exec_simps]
  has_internet_router_def [exec_simps] validate_allow_ports_def [exec_simps] validate_allow_def [exec_simps]
  validate_policy_def [exec_simps] validate_policies_def [exec_simps]

section \<open>What the passes accept\<close>

definition cidr_of :: "'n ipnet_lib \<Rightarrow> network_config \<Rightarrow> 'n option" where
  "cidr_of L network = (case net_parse L (net_cidr network) of Inr c \<Rightarrow> Some c | Inl _ \<Rightarrow> None)"

definition network_ok :: "'n ipnet_lib \<Rightarrow> network_config \<Rightarrow> bool" where
  "network_ok L network \<longleftrightarrow>
     (\<exists>c. cidr_of L network = Some c \<and> net_trunc L c = c)
     \<and> (net_backend network = Docker \<longrightarrow> \<not> net_dhcp network \<and> \<not> net_nat_egress network)"

definition router_between :: "environment \<Rightarrow> string \<Rightarrow> string list \<Rightarrow> bool" where
  "router_between env via ns \<longleftrightarrow>
     (\<exists>vm. bm_get (env_vms env) via = Some vm \<and> has_role ''router'' vm \<and> (\<forall>n \<in> set ns. attached_to n vm))"

definition route_ok :: "environment \<Rightarrow> route_config \<Rightarrow> bool" where
  "route_ok env route \<longleftrightarrow>
     bm_contains (env_networks env) (rt_from route) \<and> bm_contains (env_networks env) (rt_to route)
     \<and> router_between env (rt_via route) [rt_from route, rt_to route]"

definition allow_ports_ok :: "allow_rule \<Rightarrow> bool" where
  "allow_ports_ok allow \<longleftrightarrow>
     (allow_proto allow = ProtoIcmp \<longleftrightarrow> allow_ports allow = []) \<and> 0 \<notin> set (allow_ports allow)"

definition allow_ok :: "environment \<Rightarrow> string \<Rightarrow> allow_rule \<Rightarrow> bool" where
  "allow_ok env source allow \<longleftrightarrow>
     (if allow_to allow = ''internet'' then has_internet_router env source \<or> is_docker_network env source
      else bm_contains (env_networks env) (allow_to allow))
     \<and> allow_ports_ok allow"

definition policy_targets :: "policy_config \<Rightarrow> string list" where
  "policy_targets policy = filter (\<lambda>n. n \<noteq> ''internet'') (map allow_to (pol_allow policy))"

definition policy_ok :: "environment \<Rightarrow> policy_config \<Rightarrow> bool" where
  "policy_ok env policy \<longleftrightarrow>
     bm_contains (env_networks env) (pol_network policy)
     \<and> (\<forall>via. pol_via policy = Some via \<longrightarrow>
          router_between env via (pol_network policy # policy_targets policy))
     \<and> (\<forall>allow \<in> set (pol_allow policy). allow_ok env (pol_network policy) allow)"

section \<open>Networks\<close>

lemma validate_network_Nil:
  "fst (validate_network L i table e) = [] \<longleftrightarrow> network_ok L (snd e)"
  by (cases e) (auto simp: validate_network_def network_ok_def cidr_of_def Let_def split: sum.splits)

lemma validate_network_table:
  "snd (validate_network L i table e) =
     (case cidr_of L (snd e) of Some c \<Rightarrow> bm_insert (fst e) (net_trunc L c) table | None \<Rightarrow> table)"
  by (cases e) (auto simp: validate_network_def cidr_of_def Let_def split: sum.splits)

lemma validate_networks_loop:
  "fst (run_loop (validate_network L) i table es) = [] \<longleftrightarrow> (\<forall>e \<in> set es. network_ok L (snd e))"
  by (induction es arbitrary: i table) (auto simp: run_loop_Cons_Nil validate_network_Nil simp del: run_loop.simps(2))

lemma validate_networks_Nil [pass_simps]:
  "fst (validate_networks L env) = [] \<longleftrightarrow> (\<forall>e \<in> set (env_networks env). network_ok L (snd e))"
  by (simp add: validate_networks_def validate_networks_loop)

lemma validate_networks_table_loop:
  assumes "distinct (map fst es)" and "\<forall>e \<in> set es. network_ok L (snd e)"
  shows "bm_get (snd (run_loop (validate_network L) i table es)) n =
    (case bm_get es n of Some network \<Rightarrow> cidr_of L network | None \<Rightarrow> bm_get table n)"
  using assms
proof (induction es arbitrary: i table)
  case Nil
  then show ?case by simp
next
  case (Cons e es)
  obtain c where c: "cidr_of L (snd e) = Some c" "net_trunc L c = c"
    using Cons.prems(2) by (auto simp: network_ok_def)
  have "bm_get es (fst e) = None" using Cons.prems(1) by (simp add: map_of_eq_None_iff)
  with c Cons show ?case
    unfolding run_loop_snd by (auto simp: validate_network_table bm_get_insert split: option.splits)
qed

lemma validate_networks_table:
  assumes "fst (validate_networks L env) = []" and "bm_wf (env_networks env)"
  shows "bm_get (snd (validate_networks L env)) n =
    (case bm_get (env_networks env) n of Some network \<Rightarrow> cidr_of L network | None \<Rightarrow> None)"
  using assms validate_networks_table_loop [OF bm_wf_distinct [OF assms(2)], of L 0 "[]" n]
  by (simp add: validate_networks_def validate_networks_loop split: option.splits)

lemma validate_networks_known:
  assumes "fst (validate_networks L env) = []" and "bm_wf (env_networks env)"
  shows "bm_contains (snd (validate_networks L env)) n \<longleftrightarrow> bm_contains (env_networks env) n"
proof -
  have "\<exists>c. cidr_of L network = Some c" if "bm_get (env_networks env) n = Some network" for network
    using assms(1) map_of_SomeD [OF that] by (fastforce simp: validate_networks_Nil network_ok_def)
  then show ?thesis
    unfolding bm_contains_def validate_networks_table [OF assms] by (auto split: option.splits)
qed

section \<open>Routes and policies\<close>

text \<open>Here \<open>table\<close> is any table with the networks of the environment as keys.\<close>

lemma require_network_Nil [pass_simps]: "require_network name path table = [] \<longleftrightarrow> bm_contains table name"
  by (simp add: require_network_def)

lemma validate_routes_Nil:
  assumes "\<And>n. bm_contains table n \<longleftrightarrow> bm_contains (env_networks env) n"
  shows "validate_routes env table = [] \<longleftrightarrow>
    distinct (map rt_name (sp_routes (env_spec env))) \<and> (\<forall>r \<in> set (sp_routes (env_spec env)). route_ok env r)"
proof -
  have "fst (validate_route env table i names r) = [] \<longleftrightarrow> rt_name r \<notin> names \<and> route_ok env r" for i names r
    by (auto simp: validate_route_def validate_route_via_def route_ok_def router_between_def
        require_network_Nil assms Let_def split: option.splits)
  moreover have "snd (validate_route env table i names r) = insert (rt_name r) names" for i names r
    by (simp add: validate_route_def Let_def)
  ultimately show ?thesis
    unfolding validate_routes_def
    by (subst run_loop_keys_iff [where key = rt_name and ok = "route_ok env"]) auto
qed

lemma validate_allow_ports_Nil [pass_simps]: "validate_allow_ports base allow = [] \<longleftrightarrow> allow_ports_ok allow"
proof -
  have "concat (map (\<lambda>(i, port). emit (port = 0) (issue i)) (enumerate 0 ps)) = [] \<longleftrightarrow> 0 \<notin> set ps"
    for ps :: "u16 list" and issue :: "nat \<Rightarrow> validation_issue"
    using ball_enumerate_snd [of 0 ps "\<lambda>p. p \<noteq> 0"] by (auto simp: split_beta)
  then show ?thesis
    by (cases "allow_proto allow") (auto simp: validate_allow_ports_def allow_ports_ok_def)
qed

lemma validate_allow_Nil:
  assumes "\<And>n. bm_contains table n \<longleftrightarrow> bm_contains (env_networks env) n"
  shows "validate_allow env table base policy e = [] \<longleftrightarrow> allow_ok env (pol_network policy) (snd e)"
  by (auto simp: validate_allow_def allow_ok_def split_beta Let_def validate_allow_ports_Nil
      require_network_Nil assms)

lemma validate_policies_Nil:
  assumes "\<And>n. bm_contains table n \<longleftrightarrow> bm_contains (env_networks env) n"
  shows "validate_policies env table = [] \<longleftrightarrow>
    distinct (map pol_name (sp_policies (env_spec env)))
    \<and> (\<forall>p \<in> set (sp_policies (env_spec env)). policy_ok env p)"
proof -
  have allows: "(\<forall>e \<in> set (enumerate 0 (pol_allow p)). validate_allow env table base p e = [])
      \<longleftrightarrow> (\<forall>allow \<in> set (pol_allow p). allow_ok env (pol_network p) allow)" for base p
    by (simp add: validate_allow_Nil [OF assms] ball_enumerate_snd)
  have via: "validate_policy_via env table base p via = [] \<longleftrightarrow> router_between env via (pol_network p # policy_targets p)"
    if "bm_contains (env_networks env) (pol_network p)"
      and "\<forall>allow \<in> set (pol_allow p). allow_ok env (pol_network p) allow" for base p via
    using that by (auto simp: validate_policy_via_def router_between_def policy_targets_def assms allow_ok_def
        split: option.splits if_splits simp del: concat_eq_Nil_conv)
  have "fst (validate_policy env table i names p) = [] \<longleftrightarrow> pol_name p \<notin> names \<and> policy_ok env p" for i names p
    using via allows
    by (auto simp: validate_policy_def policy_ok_def require_network_Nil assms Let_def split: option.splits)
  moreover have "snd (validate_policy env table i names p) = insert (pol_name p) names" for i names p
    by (simp add: validate_policy_def Let_def)
  ultimately show ?thesis
    unfolding validate_policies_def
    by (subst run_loop_keys_iff [where key = pol_name and ok = "policy_ok env"]) auto
qed

end
