(* ===== verification/Ports.thy ===== *)
theory Ports
  imports Issues Samples
begin

text \<open>
  Ports: the texts that name them and the pass that collects them (\<open>config.rs\<close>):
  \<open>IngressUpstream::parse\<close>, \<open>parse_port_number\<close>, \<open>parse_port_forward\<close>, \<open>collect_port_list\<close>,
  \<open>collect_port_forwards\<close>, \<open>validate_container_publish\<close>, \<open>validate_container_volume\<close>.
  The table \<open>host_binds\<close> and the vector of forwards, which the code mutates, are the state of
  the loop over the entries.

  The lemmas: a forward printed in its full form parses back, a parsed forward has nonzero
  ports and a VM, and collecting succeeds exactly when every entry parses, binds to
  127.0.0.1, names a VM of the environment and no two entries bind the same host port.
\<close>

section \<open>Ingress upstreams\<close>

datatype ingress_upstream = UpstreamVm string u16 | UpstreamOidc u16

definition upstream_form :: string where
  "upstream_form = ''ingress route to must be vm:port or oidc:<port>''"

definition ingress_upstream_parse :: "string \<Rightarrow> (ingress_upstream, string) result" where
  "ingress_upstream_parse raw =
     (case split_once CHR '':'' raw of
        None \<Rightarrow> Inl upstream_form
      | Some (left, right) \<Rightarrow>
          if left = [] \<or> right = [] then Inl upstream_form
          else and_then (ok_or (''invalid port in ingress route to '' @ debug_str raw) (parse_u16 right))
            (\<lambda>port. if port = 0 then Inl ''ingress route port must be in 1...65535''
                    else if eq_ignore_ascii_case left ''oidc'' then Inr (UpstreamOidc port)
                    else Inr (UpstreamVm left port)))"

section \<open>Port forwards\<close>

record port_forward =
  pf_bind :: string
  pf_host_port :: u16
  pf_vm :: string
  pf_guest_port :: u16
  pf_source :: string

definition parse_port_number :: "string \<Rightarrow> string \<Rightarrow> (u16, string) result" where
  "parse_port_number s label =
     and_then (ok_or (''invalid '' @ label @ '': '' @ s) (parse_u16 s))
       (\<lambda>port. if port = 0 then Inl (label @ '' must be in 1...65535'') else Inr port)"

text \<open>The end of \<open>parse_port_forward\<close>: the parts, in the order the tuple is built.\<close>

definition forward_of_parts ::
    "string \<Rightarrow> string \<Rightarrow> string \<Rightarrow> string \<Rightarrow> string \<Rightarrow> (port_forward, string) result" where
  "forward_of_parts raw bind host vm guest =
     and_then (parse_port_number host ''host port'') (\<lambda>host_port.
     and_then (parse_port_number guest ''guest port'') (\<lambda>guest_port.
       if vm = [] then Inl ''port forward VM name must not be empty''
       else Inr \<lparr>pf_bind = bind, pf_host_port = host_port, pf_vm = vm,
                 pf_guest_port = guest_port, pf_source = raw\<rparr>))"

definition parse_port_forward :: "string \<Rightarrow> string option \<Rightarrow> (port_forward, string) result" where
  "parse_port_forward raw default_vm =
     (case split_on CHR '':'' raw of
        [host, guest] \<Rightarrow>
          and_then (ok_or ''stack-level port requires VM name (hostPort:vm:guestPort)'' default_vm)
            (\<lambda>vm. forward_of_parts raw ''127.0.0.1'' host vm guest)
      | [left, middle, right] \<Rightarrow>
          if list_all is_ascii_digit middle then
            and_then (ok_or ''stack-level port with bind requires VM name (bind:hostPort:vm:guestPort)'' default_vm)
              (\<lambda>vm. forward_of_parts raw left middle vm right)
          else forward_of_parts raw ''127.0.0.1'' left middle right
      | [bind, host, vm, guest] \<Rightarrow> forward_of_parts raw bind host vm guest
      | _ \<Rightarrow> Inl ''invalid port forward; expected hostPort:guestPort, bind:hostPort:guestPort, hostPort:vm:guestPort, or bind:hostPort:vm:guestPort'')"

section \<open>Collecting the forwards of an environment\<close>

type_synonym host_binds = "(string \<times> u16, string) bmap"

definition forward_key :: "port_forward \<Rightarrow> string \<times> u16" where
  "forward_key f = (pf_bind f, pf_host_port f)"

definition collect_port_entry ::
    "string \<Rightarrow> string option \<Rightarrow> (string, vm_config) bmap \<Rightarrow> nat \<Rightarrow> host_binds \<times> port_forward list
     \<Rightarrow> string \<Rightarrow> validation_issue list \<times> host_binds \<times> port_forward list" where
  "collect_port_entry base default_vm vms index state entry =
     (let path = at_index base index; (binds, forwards) = state
      in case parse_port_forward entry default_vm of
           Inl message \<Rightarrow> ([semantic path message], binds, forwards)
         | Inr f \<Rightarrow>
             ((if pf_bind f = ''0.0.0.0'' then
                 [semantic path ''Alpha rejects bind 0.0.0.0; use 127.0.0.1 (Ingress is loopback-only until v0.2)'']
               else emit (pf_bind f \<noteq> ''127.0.0.1'')
                 (semantic path (''unsupported bind address '' @ debug_str (pf_bind f)
                    @ ''; Alpha only allows 127.0.0.1'')))
              @ emit (\<not> bm_contains vms (pf_vm f))
                 (semantic path (''port forward references unknown VM '' @ debug_str (pf_vm f)))
              @ (case bm_get binds (forward_key f) of
                   None \<Rightarrow> []
                 | Some other \<Rightarrow>
                     [semantic path (''host bind '' @ pf_bind f @ '':'' @ show_word (pf_host_port f)
                        @ '' collides with '' @ other)]),
              bm_insert (forward_key f) path binds,
              forwards @ [f]))"

definition collect_port_list ::
    "string list \<Rightarrow> string \<Rightarrow> string option \<Rightarrow> (string, vm_config) bmap \<Rightarrow> host_binds \<times> port_forward list
     \<Rightarrow> validation_issue list \<times> host_binds \<times> port_forward list" where
  "collect_port_list entries base default_vm vms state =
     run_loop (collect_port_entry base default_vm vms) 0 state entries"

definition validate_port_list ::
    "string list \<Rightarrow> string \<Rightarrow> string option \<Rightarrow> (string, vm_config) bmap \<Rightarrow> host_binds
     \<Rightarrow> validation_issue list \<times> host_binds" where
  "validate_port_list entries base default_vm vms binds =
     (let (pushed, binds', forwards) = collect_port_list entries base default_vm vms (binds, [])
      in (pushed, binds'))"

definition collect_vm_ports ::
    "(string, vm_config) bmap \<Rightarrow> nat \<Rightarrow> host_binds \<times> port_forward list \<Rightarrow> string \<times> vm_config
     \<Rightarrow> validation_issue list \<times> host_binds \<times> port_forward list" where
  "collect_vm_ports vms i state e =
     collect_port_list (vm_ports (snd e)) (json_path_key ''$.spec.vms'' (fst e) @ ''.ports'')
       (Some (fst e)) vms state"

definition collect_port_forwards :: "environment \<Rightarrow> (port_forward list, validation_issue list) result" where
  "collect_port_forwards env =
     (let (stack_issues, state) =
            collect_port_list (sp_ports (env_spec env)) ''$.spec.ports'' None (env_vms env) ([], []);
          (vm_issues, binds, forwards) =
            run_loop (collect_vm_ports (env_vms env)) 0 state (env_vms env);
          issues = stack_issues @ vm_issues
      in if issues = [] then Inr forwards else Inl issues)"

section \<open>Docker publish and volume texts\<close>

definition validate_container_publish :: "string \<Rightarrow> (unit, string) result" where
  "validate_container_publish raw =
     (let without_proto = hd (split_on CHR ''/'' raw)
      in if without_proto = [] then Inl ''publish spec must not be empty''
         else
           let parts = split_on CHR '':'' without_proto
           in if \<not> (1 \<le> length parts \<and> length parts \<le> 3) then
                Inl (''invalid publish '' @ debug_str raw @ ''; expected PORT, HOST:CONTAINER, or IP:HOST:CONTAINER'')
              else if parse_u16 (last parts) = None then
                Inl (''invalid container port in publish '' @ debug_str raw)
              else if 2 \<le> length parts \<and> parse_u16 (parts ! (length parts - 2)) = None then
                Inl (''invalid host port in publish '' @ debug_str raw)
              else if length parts = 3 \<and> parse_ipv4 (parts ! 0) = None \<and> parts ! 0 \<noteq> ''localhost'' then
                Inl (''invalid bind address in publish '' @ debug_str raw @ ''; use IPv4 or localhost'')
              else Inr ())"

text \<open>\<open>PathBuf::join\<close> of two relative or absolute unix paths, and \<open>resolve_volume_path\<close>.\<close>

definition path_join :: "string \<Rightarrow> string \<Rightarrow> string" where
  "path_join dir p =
     (if starts_with p ''/'' then p
      else if dir = [] \<or> ends_with dir ''/'' then dir @ p else dir @ ''/'' @ p)"

definition resolve_volume_path :: "string \<Rightarrow> string option \<Rightarrow> string option" where
  "resolve_volume_path path config_dir =
     (if starts_with path ''/'' then Some path else map_option (\<lambda>dir. path_join dir path) config_dir)"

definition validate_container_volume :: "string \<Rightarrow> string option \<Rightarrow> (unit, string) result" where
  "validate_container_volume raw config_dir =
     (let parts = split_on CHR '':'' raw
      in if length parts < 2 \<or> 3 < length parts then
           Inl (''invalid volume '' @ debug_str raw @ ''; expected HOST:CONTAINER or HOST:CONTAINER:ro|rw'')
         else if parts ! 0 = [] \<or> parts ! 1 = [] then
           Inl (''invalid volume '' @ debug_str raw @ ''; host and container paths required'')
         else if \<not> starts_with (parts ! 1) ''/'' then
           Inl (''container volume target must be absolute: '' @ debug_str (parts ! 1))
         else if length parts = 3 \<and> parts ! 2 \<noteq> ''ro'' \<and> parts ! 2 \<noteq> ''rw'' then
           Inl (''invalid volume mode '' @ debug_str (parts ! 2) @ ''; expected ro or rw'')
         else if resolve_volume_path (parts ! 0) config_dir = Some [] then
           Inl (''cannot resolve volume host path '' @ debug_str (parts ! 0))
         else Inr ())"

declare upstream_form_def [exec_simps] ingress_upstream_parse_def [exec_simps]
  parse_port_number_def [exec_simps] forward_of_parts_def [exec_simps] parse_port_forward_def [exec_simps]
  forward_key_def [exec_simps] collect_port_entry_def [exec_simps] collect_port_list_def [exec_simps]
  validate_port_list_def [exec_simps] collect_vm_ports_def [exec_simps] collect_port_forwards_def [exec_simps]
  validate_container_publish_def [exec_simps] path_join_def [exec_simps] resolve_volume_path_def [exec_simps]
  validate_container_volume_def [exec_simps]

section \<open>Parsing one forward\<close>

lemma parse_port_number_Inr: "parse_port_number s label = Inr p \<longleftrightarrow> parse_u16 s = Some p \<and> p \<noteq> 0"
  by (auto simp: parse_port_number_def)

lemma forward_of_parts_Inr:
  "forward_of_parts raw bind host vm guest = Inr f \<longleftrightarrow>
     parse_u16 host = Some (pf_host_port f) \<and> pf_host_port f \<noteq> 0
     \<and> parse_u16 guest = Some (pf_guest_port f) \<and> pf_guest_port f \<noteq> 0
     \<and> vm \<noteq> [] \<and> pf_vm f = vm \<and> pf_bind f = bind \<and> pf_source f = raw"
  by (cases f) (auto simp: forward_of_parts_def parse_port_number_Inr)

text \<open>A forward in its full form \<open>bind:hostPort:vm:guestPort\<close>.\<close>

definition forward_text :: "port_forward \<Rightarrow> string" where
  "forward_text f = join '':'' [pf_bind f, show_word (pf_host_port f), pf_vm f, show_word (pf_guest_port f)]"

definition forward_ok :: "port_forward \<Rightarrow> bool" where
  "forward_ok f \<longleftrightarrow> pf_host_port f \<noteq> 0 \<and> pf_guest_port f \<noteq> 0 \<and> pf_vm f \<noteq> []"

declare forward_text_def [exec_simps] forward_ok_def [exec_simps]

lemma show_word_no_colon: "CHR '':'' \<notin> set (show_word w)"
  by (auto simp: is_ascii_digit_def dest!: in_show_word_digit)

lemma split_forward_text:
  assumes "CHR '':'' \<notin> set (pf_bind f)" and "CHR '':'' \<notin> set (pf_vm f)"
  shows "split_on CHR '':'' (forward_text f)
    = [pf_bind f, show_word (pf_host_port f), pf_vm f, show_word (pf_guest_port f)]"
  unfolding forward_text_def using assms show_word_no_colon by (intro split_on_join) auto

lemma parse_forward_parts:
  assumes "parse_port_forward raw default_vm = Inr f"
  shows "\<exists>host guest bind. forward_of_parts raw bind host (pf_vm f) guest = Inr f
    \<and> bind \<in> {''127.0.0.1'', hd (split_on CHR '':'' raw)}
    \<and> pf_vm f \<in> set_option default_vm \<union> set (split_on CHR '':'' raw)"
proof -
  consider (two) h g where "split_on CHR '':'' raw = [h, g]"
    | (three) l m r where "split_on CHR '':'' raw = [l, m, r]"
    | (four) b h v g where "split_on CHR '':'' raw = [b, h, v, g]"
    | (other) "parse_port_forward raw default_vm \<noteq> Inr f"
  proof -
    let ?xs = "split_on CHR '':'' raw"
    consider "?xs = []" | a where "?xs = [a]" | a b where "?xs = [a, b]" | a b c where "?xs = [a, b, c]"
      | a b c d where "?xs = [a, b, c, d]" | a b c d e r where "?xs = a # b # c # d # e # r"
      by (metis list.exhaust)
    then show ?thesis
    proof cases
      case 1 then show ?thesis by (intro other) (simp add: parse_port_forward_def)
    next
      case 2 then show ?thesis by (intro other) (simp add: parse_port_forward_def)
    next
      case 3 then show ?thesis by (rule two)
    next
      case 4 then show ?thesis by (rule three)
    next
      case 5 then show ?thesis by (rule four)
    next
      case 6 then show ?thesis by (intro other) (simp add: parse_port_forward_def)
    qed
  qed
  then show ?thesis
  proof cases
    case two
    then obtain v where "default_vm = Some v" "forward_of_parts raw ''127.0.0.1'' h v g = Inr f"
      using assms by (auto simp: parse_port_forward_def)
    moreover from this have "pf_vm f = v" by (simp add: forward_of_parts_Inr)
    ultimately show ?thesis by auto
  next
    case three
    show ?thesis
    proof (cases "list_all is_ascii_digit m")
      case True
      with three obtain v where v: "default_vm = Some v" "forward_of_parts raw l m v r = Inr f"
        using assms by (auto simp: parse_port_forward_def)
      moreover from this have "pf_vm f = v" by (simp add: forward_of_parts_Inr)
      ultimately show ?thesis using three by auto
    next
      case False
      with three have f: "forward_of_parts raw ''127.0.0.1'' l m r = Inr f"
        using assms by (auto simp: parse_port_forward_def)
      moreover from this have "pf_vm f = m" by (simp add: forward_of_parts_Inr)
      ultimately show ?thesis using three by auto
    qed
  next
    case four
    then have f: "forward_of_parts raw b h v g = Inr f"
      using assms by (auto simp: parse_port_forward_def)
    moreover from this have "pf_vm f = v" by (simp add: forward_of_parts_Inr)
    ultimately show ?thesis using four by auto
  next
    case other
    with assms show ?thesis by simp
  qed
qed

lemma parse_forward_ok:
  "parse_port_forward raw default_vm = Inr f \<Longrightarrow> forward_ok f \<and> pf_source f = raw"
  using parse_forward_parts [of raw default_vm f] by (auto simp: forward_of_parts_Inr forward_ok_def)

section \<open>Collecting forwards\<close>

text \<open>What the two loops accept, as one pass over all declared entries with the set of host
  binds taken so far.\<close>

definition usable :: "(string, vm_config) bmap \<Rightarrow> port_forward \<Rightarrow> bool" where
  "usable vms f \<longleftrightarrow> pf_bind f = ''127.0.0.1'' \<and> bm_contains vms (pf_vm f)"

fun accept :: "(string, vm_config) bmap \<Rightarrow> (string \<times> u16) set \<Rightarrow> (string option \<times> string) list
    \<Rightarrow> port_forward list option" where
  "accept vms taken [] = Some []"
| "accept vms taken ((d, e) # xs) =
     (case parse_port_forward e d of
        Inl _ \<Rightarrow> None
      | Inr f \<Rightarrow> if usable vms f \<and> forward_key f \<notin> taken
                then map_option (Cons f) (accept vms (insert (forward_key f) taken) xs)
                else None)"

definition declared_ports :: "environment \<Rightarrow> (string option \<times> string) list" where
  "declared_ports env =
     map (Pair None) (sp_ports (env_spec env))
     @ concat (map (\<lambda>(name, vm). map (Pair (Some name)) (vm_ports vm)) (env_vms env))"

lemma accept_append:
  "accept vms taken (xs @ ys) =
     (case accept vms taken xs of
        None \<Rightarrow> None
      | Some fs \<Rightarrow> map_option ((@) fs) (accept vms (taken \<union> set (map forward_key fs)) ys))"
  by (induction vms taken xs rule: accept.induct)
    (auto simp: map_option_case split: sum.splits option.splits)

lemma accept_Some:
  "accept vms taken xs = Some fs \<longleftrightarrow>
     map (\<lambda>(d, e). parse_port_forward e d) xs = map Inr fs
     \<and> (\<forall>f \<in> set fs. usable vms f \<and> forward_key f \<notin> taken) \<and> distinct (map forward_key fs)"
proof (induction vms taken xs arbitrary: fs rule: accept.induct)
  case (1 vms taken)
  show ?case by auto
next
  case (2 vms taken d e xs)
  show ?case
  proof (cases "parse_port_forward e d")
    case (Inl m)
    then show ?thesis by auto
  next
    case (Inr f)
    show ?thesis
    proof (cases "usable vms f \<and> forward_key f \<notin> taken")
      case True
      with Inr "2.IH" [OF Inr True] show ?thesis
        by (auto simp: map_eq_Cons_conv image_iff) metis+
    next
      case False
      with Inr show ?thesis by auto
    qed
  qed
qed

lemma collect_port_entry_Inl:
  "parse_port_forward e d = Inl m \<Longrightarrow> fst (collect_port_entry base d vms i (b, acc) e) \<noteq> []"
  by (simp add: collect_port_entry_def)

lemma collect_port_entry_Inr:
  assumes "parse_port_forward e d = Inr f"
  shows "fst (collect_port_entry base d vms i (b, acc) e) = []
      \<longleftrightarrow> usable vms f \<and> forward_key f \<notin> dom (bm_get b)"
    and "snd (collect_port_entry base d vms i (b, acc) e)
      = (bm_insert (forward_key f) (at_index base i) b, acc @ [f])"
  using assms by (auto simp: collect_port_entry_def usable_def Let_def split: option.splits)

lemma collect_port_list_accept:
  assumes "run_loop (collect_port_entry base d vms) i (b, acc) es = (pushed, b', acc')"
  shows "case accept vms (dom (bm_get b)) (map (Pair d) es) of
      None \<Rightarrow> pushed \<noteq> []
    | Some fs \<Rightarrow> pushed = [] \<and> acc' = acc @ fs \<and> dom (bm_get b') = dom (bm_get b) \<union> set (map forward_key fs)"
  using assms
proof (induction es arbitrary: i b acc pushed)
  case Nil
  then show ?case by simp
next
  case (Cons e es)
  obtain p1 b1 acc1 where one: "collect_port_entry base d vms i (b, acc) e = (p1, b1, acc1)"
    by (cases "collect_port_entry base d vms i (b, acc) e") auto
  obtain p2 where two: "run_loop (collect_port_entry base d vms) (Suc i) (b1, acc1) es = (p2, b', acc')"
      and pushed: "pushed = p1 @ p2"
    using Cons.prems one by (auto split: prod.splits)
  show ?case
  proof (cases "parse_port_forward e d")
    case (Inl m)
    with collect_port_entry_Inl [OF Inl, of base vms i b acc] one pushed show ?thesis by simp
  next
    case (Inr f)
    note step = collect_port_entry_Inr [OF Inr, of base vms i b acc]
    have b1: "dom (bm_get b1) = insert (forward_key f) (dom (bm_get b))" and acc1: "acc1 = acc @ [f]"
      using step(2) one by (auto simp: bm_get_insert)
    show ?thesis
    proof (cases "usable vms f \<and> forward_key f \<notin> dom (bm_get b)")
      case True
      then have "p1 = []" using step(1) one by simp
      with True Inr pushed show ?thesis
        using Cons.IH [OF two] by (auto simp: b1 acc1 split: option.splits)
    next
      case False
      then have "p1 \<noteq> []" using step(1) one by simp
      with False Inr pushed show ?thesis by auto
    qed
  qed
qed

lemma collect_vm_ports_accept:
  assumes "run_loop (collect_vm_ports vms) i (b, acc) es = (pushed, b', acc')"
  shows "case accept vms (dom (bm_get b)) (concat (map (\<lambda>(name, vm). map (Pair (Some name)) (vm_ports vm)) es)) of
      None \<Rightarrow> pushed \<noteq> []
    | Some fs \<Rightarrow> pushed = [] \<and> acc' = acc @ fs \<and> dom (bm_get b') = dom (bm_get b) \<union> set (map forward_key fs)"
  using assms
proof (induction es arbitrary: i b acc pushed)
  case Nil
  then show ?case by simp
next
  case (Cons e es)
  obtain p1 b1 acc1 where one: "collect_vm_ports vms i (b, acc) e = (p1, b1, acc1)"
    by (cases "collect_vm_ports vms i (b, acc) e") auto
  obtain p2 where two: "run_loop (collect_vm_ports vms) (Suc i) (b1, acc1) es = (p2, b', acc')"
      and pushed: "pushed = p1 @ p2"
    using Cons.prems one by (auto split: prod.splits)
  have first: "case accept vms (dom (bm_get b)) (map (Pair (Some (fst e))) (vm_ports (snd e))) of
      None \<Rightarrow> p1 \<noteq> []
    | Some fs \<Rightarrow> p1 = [] \<and> acc1 = acc @ fs \<and> dom (bm_get b1) = dom (bm_get b) \<union> set (map forward_key fs)"
    using one unfolding collect_vm_ports_def collect_port_list_def by (rule collect_port_list_accept)
  show ?case
    using first Cons.IH [OF two] pushed
    by (auto simp: accept_append case_prod_unfold Un_assoc split: option.splits)
qed

lemma collect_port_forwards_accept:
  "collect_port_forwards env = Inr fs \<longleftrightarrow> accept (env_vms env) {} (declared_ports env) = Some fs"
proof -
  let ?vms = "env_vms env"
  obtain p1 b1 acc1 where one:
    "collect_port_list (sp_ports (env_spec env)) ''$.spec.ports'' None ?vms ([], []) = (p1, b1, acc1)"
    by (cases "collect_port_list (sp_ports (env_spec env)) ''$.spec.ports'' None ?vms ([], [])") auto
  obtain p2 b2 acc2 where two: "run_loop (collect_vm_ports ?vms) 0 (b1, acc1) ?vms = (p2, b2, acc2)"
    by (cases "run_loop (collect_vm_ports ?vms) 0 (b1, acc1) ?vms") auto
  show ?thesis
    using collect_port_list_accept [OF one [unfolded collect_port_list_def]] collect_vm_ports_accept [OF two]
    by (auto simp: collect_port_forwards_def one two declared_ports_def accept_append split: option.splits)
qed

lemma validate_port_list_Nil:
  assumes "validate_port_list entries base d vms b = ([], b')"
  shows "\<exists>fs. accept vms (dom (bm_get b)) (map (Pair d) entries) = Some fs
    \<and> dom (bm_get b') = dom (bm_get b) \<union> set (map forward_key fs)"
proof -
  obtain acc where "run_loop (collect_port_entry base d vms) 0 (b, []) entries = ([], b', acc)"
    using assms by (auto simp: validate_port_list_def collect_port_list_def split: prod.splits)
  from collect_port_list_accept [OF this] show ?thesis by (auto split: option.splits)
qed

section \<open>Publish texts\<close>

text \<open>The grammar of a publish text before its protocol: \<open>PORT\<close>, \<open>HOST:CONTAINER\<close> or
  \<open>BIND:HOST:CONTAINER\<close>.\<close>

definition publish_parts :: "string list \<Rightarrow> bool" where
  "publish_parts parts \<longleftrightarrow>
     (\<exists>c. parts = [c] \<and> parse_u16 c \<noteq> None)
     \<or> (\<exists>h c. parts = [h, c] \<and> parse_u16 h \<noteq> None \<and> parse_u16 c \<noteq> None)
     \<or> (\<exists>b h c. parts = [b, h, c] \<and> (b = ''localhost'' \<or> parse_ipv4 b \<noteq> None)
           \<and> parse_u16 h \<noteq> None \<and> parse_u16 c \<noteq> None)"

lemma parse_u16_Nil [simp]: "parse_u16 [] = None"
  by (simp add: parse_u16_def)

lemma validate_publish_iff:
  "validate_container_publish raw = Inr () \<longleftrightarrow>
     publish_parts (split_on CHR '':'' (hd (split_on CHR ''/'' raw)))"
proof -
  let ?w = "hd (split_on CHR ''/'' raw)"
  let ?parts = "split_on CHR '':'' ?w"
  have empty: "?w = [] \<longleftrightarrow> ?parts = [[]]"
    by (metis join.simps(2) join_split_on split_on.simps(1))
  consider a where "?parts = [a]" | a b where "?parts = [a, b]" | a b c where "?parts = [a, b, c]"
    | a b c d r where "?parts = a # b # c # d # r"
    by (metis list.exhaust split_on_not_Nil)
  then show ?thesis
    using empty by cases (auto simp: validate_container_publish_def Let_def publish_parts_def)
qed

section \<open>Properties\<close>

text \<open>A port forward written in its full form \<open>bind:hostPort:vm:guestPort\<close> is parsed back to
  the same forward, whatever VM the entry stands under, provided its bind address and VM name hold
  no colon, its VM name is not empty and its ports are not zero.\<close>

lemma port_forward_roundtrip:
  assumes "CHR '':'' \<notin> set (pf_bind f)" and "CHR '':'' \<notin> set (pf_vm f)" and "forward_ok f"
  shows "parse_port_forward (forward_text f) default_vm = Inr (f\<lparr>pf_source := forward_text f\<rparr>)"
  using assms
  by (simp add: parse_port_forward_def split_forward_text forward_of_parts_Inr forward_ok_def)

lemma port_forward_roundtrip_witness:
  "parse_port_forward ''127.0.0.1:8080:web:80'' None =
     Inr \<lparr>pf_bind = ''127.0.0.1'', pf_host_port = 8080, pf_vm = ''web'', pf_guest_port = 80,
          pf_source = ''127.0.0.1:8080:web:80''\<rparr>"
  using port_forward_roundtrip [of "\<lparr>pf_bind = ''127.0.0.1'', pf_host_port = 8080, pf_vm = ''web'',
      pf_guest_port = 80, pf_source = []\<rparr>" None]
  by (simp add: exec_simps)

text \<open>A port forward that parses has nonzero ports and a VM, remembers its text, binds to
  127.0.0.1 unless the text starts with another bind address, and names the VM it stands under
  or one written in the text.\<close>

lemma port_forward_sound:
  assumes "parse_port_forward raw default_vm = Inr f"
  shows "forward_ok f \<and> pf_source f = raw
    \<and> pf_bind f \<in> {''127.0.0.1'', hd (split_on CHR '':'' raw)}
    \<and> pf_vm f \<in> set_option default_vm \<union> set (split_on CHR '':'' raw)"
  using parse_forward_parts [OF assms] parse_forward_ok [OF assms] by (auto simp: forward_of_parts_Inr)

lemma port_forward_sound_witness:
  "forward_ok \<lparr>pf_bind = ''127.0.0.1'', pf_host_port = 8080, pf_vm = ''web'', pf_guest_port = 80,
     pf_source = ''8080:80''\<rparr>"
  using port_forward_sound [of "''8080:80''" "Some ''web''" "\<lparr>pf_bind = ''127.0.0.1'', pf_host_port = 8080,
      pf_vm = ''web'', pf_guest_port = 80, pf_source = ''8080:80''\<rparr>"]
  by (simp add: exec_simps)

text \<open>Collecting the port forwards of an environment succeeds with exactly the forwards its
  entries parse to, in order, when every entry parses, binds to 127.0.0.1 and names a VM of the
  environment, and no two entries bind the same host address and port; otherwise it fails.\<close>

lemma collect_port_forwards_iff:
  "collect_port_forwards env = Inr fs \<longleftrightarrow>
     map (\<lambda>(d, e). parse_port_forward e d) (declared_ports env) = map Inr fs
     \<and> (\<forall>f \<in> set fs. pf_bind f = ''127.0.0.1'' \<and> bm_contains (env_vms env) (pf_vm f))
     \<and> distinct (map (\<lambda>f. (pf_bind f, pf_host_port f)) fs)"
  by (simp add: collect_port_forwards_accept accept_Some usable_def forward_key_def [abs_def])

lemma collect_port_forwards_iff_witness:
  "is_ok (collect_port_forwards sample_env) \<and> declared_ports sample_env =
     [(None, ''9090:db:90''), (Some ''web'', ''8080:80'')]"
proof -
  let ?f = "\<lparr>pf_bind = ''127.0.0.1'', pf_host_port = 9090, pf_vm = ''db'', pf_guest_port = 90,
    pf_source = ''9090:db:90''\<rparr>"
  let ?g = "\<lparr>pf_bind = ''127.0.0.1'', pf_host_port = 8080, pf_vm = ''web'', pf_guest_port = 80,
    pf_source = ''8080:80''\<rparr>"
  have "collect_port_forwards sample_env = Inr [?f, ?g]"
    by (subst collect_port_forwards_iff) (simp add: declared_ports_def exec_simps)
  then show ?thesis by (simp add: declared_ports_def sample_simps)
qed

text \<open>A publish text of a container is accepted exactly when, before its protocol, it is
  \<open>PORT\<close>, \<open>HOST:CONTAINER\<close> or \<open>BIND:HOST:CONTAINER\<close> with 16-bit ports and a bind address that is
  \<open>localhost\<close> or an IPv4 address; every other text is an error.\<close>

lemma container_publish_iff:
  "is_ok (validate_container_publish raw) \<longleftrightarrow>
     publish_parts (split_on CHR '':'' (hd (split_on CHR ''/'' raw)))"
  by (simp add: is_ok_iff validate_publish_iff)

text \<open>An ingress target \<open>vm:port\<close> is parsed to that VM and port, and \<open>oidc:port\<close>, in any
  case, to the identity provider, when the port is not zero.\<close>

lemma ingress_upstream_roundtrip:
  assumes "left \<noteq> []" and "CHR '':'' \<notin> set left" and "port \<noteq> 0"
  shows "ingress_upstream_parse (left @ '':'' @ show_word port) =
    Inr (if to_ascii_lowercase left = ''oidc'' then UpstreamOidc port else UpstreamVm left port)"
proof -
  have "split_once CHR '':'' (left @ '':'' @ show_word port) = Some (left, show_word port)"
    using assms(2) by (simp add: split_once_Some)
  moreover have "to_ascii_lowercase ''oidc'' = ''oidc''" by (simp add: exec_simps)
  ultimately show ?thesis
    using assms(1,3) by (simp add: ingress_upstream_parse_def eq_ignore_ascii_case_def)
qed

lemma ingress_upstream_roundtrip_witness:
  "ingress_upstream_parse ''OIDC:8443'' = Inr (UpstreamOidc 8443)
   \<and> ingress_upstream_parse ''web:80'' = Inr (UpstreamVm ''web'' 80)"
  using ingress_upstream_roundtrip [of "''OIDC''" 8443] ingress_upstream_roundtrip [of "''web''" 80]
  by (simp add: exec_simps)

end
