(* ===== verification/Deps.thy ===== *)
theory Deps
  imports Issues Samples
begin

text \<open>
  VM dependencies. \<open>detect_dependency_cycles\<close> of \<open>config.rs\<close> reports the cycles of \<open>dependsOn\<close>
  during validation; \<open>dependency_order\<close> of \<open>reconciler/plan.rs\<close> gives the order in which the
  reconciler starts VMs. Both are depth-first searches. The stack \<open>visiting\<close>, which the code
  pushes before the recursive calls and pops after them, is the argument of the search; the
  set \<open>visited\<close> and the output are its state. A recursive call enters a VM of the map that is
  not on the stack, so the VMs off the stack are the termination measure.

  The locale \<open>settling\<close> holds what both searches rely on: a set of nodes closed under
  successors with no node on a cycle can be extended by a node whose successors it contains.
  It is interpreted on the dependency graph of a map of VMs.
\<close>

section \<open>Settled sets of a graph\<close>

locale settling =
  fixes nodes :: "'a set" and succs :: "'a \<Rightarrow> 'a set"
  assumes succs_nodes: "succs a \<subseteq> nodes"
    and succs_outside: "a \<notin> nodes \<Longrightarrow> succs a = {}"
begin

definition edges :: "('a \<times> 'a) set" where
  "edges = {(a, b). b \<in> succs a}"

definition settled :: "'a set \<Rightarrow> bool" where
  "settled v \<longleftrightarrow> (\<forall>a \<in> v. succs a \<subseteq> v \<and> (a, a) \<notin> edges\<^sup>+)"

lemma settled_empty: "settled {}"
  by (simp add: settled_def)

lemma settled_reach:
  assumes "settled v" and "a \<in> v" and "(a, b) \<in> edges\<^sup>+"
  shows "b \<in> v"
  using assms(3) by (induction rule: trancl_induct) (use assms(1,2) in \<open>auto simp: settled_def edges_def\<close>)

lemma settled_insert:
  assumes "settled v" and "n \<notin> v" and "succs n \<subseteq> v"
  shows "settled (insert n v)"
proof -
  have "(n, n) \<notin> edges\<^sup>+"
  proof
    assume "(n, n) \<in> edges\<^sup>+"
    then obtain m where "(n, m) \<in> edges" "m = n \<or> (m, n) \<in> edges\<^sup>+"
      by (blast elim: converse_tranclE)
    with assms settled_reach [of v m n] show False by (auto simp: edges_def)
  qed
  with assms show ?thesis by (auto simp: settled_def)
qed

lemma settled_acyclic:
  assumes "settled v" and "nodes \<subseteq> v"
  shows "acyclic edges"
proof (rule acyclicI, rule allI)
  fix a
  show "(a, a) \<notin> edges\<^sup>+"
  proof (cases "a \<in> nodes")
    case True
    with assms show ?thesis by (auto simp: settled_def)
  next
    case False
    then show ?thesis using succs_outside by (auto simp: edges_def elim: converse_tranclE)
  qed
qed

text \<open>A list in which every node stands after its successors.\<close>

definition topological :: "'a list \<Rightarrow> bool" where
  "topological xs \<longleftrightarrow> distinct xs \<and> (\<forall>i < length xs. succs (xs ! i) \<subseteq> set (take i xs))"

lemma topological_Nil: "topological []"
  by (simp add: topological_def)

lemma topological_snoc:
  assumes "topological xs" and "n \<notin> set xs" and "succs n \<subseteq> set xs"
  shows "topological (xs @ [n])"
  using assms by (auto simp: topological_def nth_append less_Suc_eq)

lemma topological_settled: "topological xs \<Longrightarrow> settled (set xs)"
proof (induction xs rule: rev_induct)
  case Nil
  then show ?case by (simp add: settled_empty)
next
  case (snoc n xs)
  have "\<forall>i < length (xs @ [n]). succs ((xs @ [n]) ! i) \<subseteq> set (take i (xs @ [n]))"
    using snoc.prems unfolding topological_def by (rule conjunct2)
  then have "succs ((xs @ [n]) ! length xs) \<subseteq> set (take (length xs) (xs @ [n]))"
    by (elim allE [of _ "length xs"]) simp
  then have n: "succs n \<subseteq> set xs" by simp
  have "topological xs"
    unfolding topological_def
  proof (intro conjI allI impI)
    show "distinct xs" using snoc.prems by (simp add: topological_def)
    fix i assume i: "i < length xs"
    then have "succs ((xs @ [n]) ! i) \<subseteq> set (take i (xs @ [n]))"
      using snoc.prems unfolding topological_def by simp
    with i show "succs (xs ! i) \<subseteq> set (take i xs)" by (simp add: nth_append)
  qed
  then have "settled (insert n (set xs))"
    using snoc n by (intro settled_insert) (auto simp: topological_def)
  then show ?case by simp
qed

end

section \<open>The dependency graph of a map of VMs\<close>

type_synonym vms = "(string, vm_config) bmap"

definition depends_on :: "vms \<Rightarrow> string \<Rightarrow> string list" where
  "depends_on vms vm = (case bm_get vms vm of Some config \<Rightarrow> vm_depends_on config | None \<Rightarrow> [])"

definition known_deps :: "vms \<Rightarrow> string \<Rightarrow> string set" where
  "known_deps vms vm = {d \<in> set (depends_on vms vm). bm_contains vms d}"

text \<open>\<open>vm\<close> depends on a VM of the map.\<close>

definition dep_edges :: "vms \<Rightarrow> (string \<times> string) set" where
  "dep_edges vms = {(vm, d). d \<in> known_deps vms vm}"

definition deps_known :: "vms \<Rightarrow> bool" where
  "deps_known vms \<longleftrightarrow> (\<forall>vm. \<forall>d \<in> set (depends_on vms vm). bm_contains vms d)"

interpretation vm_graph: settling "set (bm_keys vms)" "known_deps vms" for vms
proof
  fix a
  show "known_deps vms a \<subseteq> set (bm_keys vms)"
    by (auto simp: known_deps_def bm_contains_iff simp del: set_map)
  assume "a \<notin> set (bm_keys vms)"
  then have "bm_get vms a = None" by (simp add: map_of_eq_None_iff)
  then show "known_deps vms a = {}" by (simp add: known_deps_def depends_on_def)
qed

lemma vm_graph_edges: "vm_graph.edges vms = dep_edges vms"
  by (simp add: vm_graph.edges_def dep_edges_def)

lemma keys_not_visiting_less:
  assumes "bm_get vms vm = Some config" and "vm \<notin> v"
  shows "card (set (bm_keys vms) - insert vm v) < card (set (bm_keys vms) - v)"
proof -
  have "vm \<in> set (bm_keys vms)"
    using assms(1) by (metis bm_contains_Some bm_contains_iff)
  with assms(2) show ?thesis by (intro psubset_card_mono) auto
qed

section \<open>detect_dependency_cycles\<close>

definition cycle_issue :: "string list \<Rightarrow> validation_issue" where
  "cycle_issue cycle =
     semantic (json_path_key ''$.spec.vms'' (last cycle) @ ''.dependsOn'')
       (''dependency cycle: '' @ join '' -> '' cycle)"

function detect_visit :: "vms \<Rightarrow> string list \<Rightarrow> string set \<Rightarrow> string \<Rightarrow> validation_issue list \<times> string set"
  and detect_visit_all :: "vms \<Rightarrow> string list \<Rightarrow> string set \<Rightarrow> string list \<Rightarrow> validation_issue list \<times> string set"
where
  "detect_visit vms visiting visited vm =
     (if vm \<in> visited then ([], visited)
      else case find_index (\<lambda>candidate. candidate = vm) visiting of
        Some position \<Rightarrow> ([cycle_issue (drop position visiting @ [vm])], visited)
      | None \<Rightarrow>
          (let (issues, visited') =
                 (case bm_get vms vm of
                    None \<Rightarrow> ([], visited)
                  | Some config \<Rightarrow> detect_visit_all vms (visiting @ [vm]) visited (vm_depends_on config))
           in (issues, insert vm visited')))"
| "detect_visit_all vms visiting visited [] = ([], visited)"
| "detect_visit_all vms visiting visited (dependency # rest) =
     (let (issues, visited') =
            (if bm_contains vms dependency then detect_visit vms visiting visited dependency
             else ([], visited));
          (later, visited'') = detect_visit_all vms visiting visited' rest
      in (issues @ later, visited''))"
  by pat_completeness auto
termination
proof (relation "measures
    [\<lambda>p. case p of Inl (vms, visiting, _, _) \<Rightarrow> card (set (bm_keys vms) - set visiting)
       | Inr (vms, visiting, _, _) \<Rightarrow> card (set (bm_keys vms) - set visiting),
     \<lambda>p. case p of Inl _ \<Rightarrow> 0 | Inr (_, _, _, ds) \<Rightarrow> Suc (length ds)]", goal_cases)
  case 1
  show ?case by simp
next
  case (2 vms visiting visited vm config)
  then have "vm \<notin> set visiting" by auto
  with 2 keys_not_visiting_less [of vms vm config "set visiting"] show ?case by simp
qed simp_all

declare detect_visit.simps [simp del]

fun detect_from :: "vms \<Rightarrow> string set \<Rightarrow> string list \<Rightarrow> validation_issue list" where
  "detect_from vms visited [] = []"
| "detect_from vms visited (vm # rest) =
     (let (issues, visited') = detect_visit vms [] visited vm
      in issues @ detect_from vms visited' rest)"

definition detect_dependency_cycles :: "vms \<Rightarrow> validation_issue list" where
  "detect_dependency_cycles vms = detect_from vms {} (bm_keys vms)"

section \<open>dependency_order\<close>

text \<open>Indexing the map at a key it does not hold panics.\<close>

datatype dep_error = DependencyCycle | MissingVm

type_synonym order_state = "string set \<times> string list"

function order_visit :: "vms \<Rightarrow> string set \<Rightarrow> order_state \<Rightarrow> string \<Rightarrow> (order_state, dep_error) result"
  and order_visit_all :: "vms \<Rightarrow> string set \<Rightarrow> order_state \<Rightarrow> string list \<Rightarrow> (order_state, dep_error) result"
where
  "order_visit vms visiting st name =
     (if name \<in> fst st then Inr st
      else if name \<in> visiting then Inl DependencyCycle
      else case bm_get vms name of
        None \<Rightarrow> Inl MissingVm
      | Some config \<Rightarrow>
          and_then (order_visit_all vms (insert name visiting) st (vm_depends_on config))
            (\<lambda>st'. Inr (insert name (fst st'), snd st' @ [name])))"
| "order_visit_all vms visiting st [] = Inr st"
| "order_visit_all vms visiting st (dependency # rest) =
     and_then (order_visit vms visiting st dependency) (\<lambda>st'. order_visit_all vms visiting st' rest)"
  by pat_completeness auto
termination
proof (relation "measures
    [\<lambda>p. case p of Inl (vms, visiting, _, _) \<Rightarrow> card (set (bm_keys vms) - visiting)
       | Inr (vms, visiting, _, _) \<Rightarrow> card (set (bm_keys vms) - visiting),
     \<lambda>p. case p of Inl _ \<Rightarrow> 0 | Inr (_, _, _, ds) \<Rightarrow> Suc (length ds)]", goal_cases)
  case 1
  show ?case by simp
next
  case (2 vms visiting st name config)
  then show ?case using keys_not_visiting_less [of vms name config visiting] by simp
qed simp_all

declare order_visit.simps [simp del]

definition dependency_order :: "vms \<Rightarrow> (string list, dep_error) result" where
  "dependency_order vms =
     and_then (order_visit_all vms {} ({}, []) (bm_keys vms)) (\<lambda>st. Inr (snd st))"

declare depends_on_def [exec_simps] known_deps_def [exec_simps] cycle_issue_def [exec_simps]
  detect_visit.simps [exec_simps] detect_dependency_cycles_def [exec_simps]
  order_visit.simps [exec_simps] dependency_order_def [exec_simps]

section \<open>A silent search proves the graph acyclic\<close>

definition swept :: "vms \<Rightarrow> string list \<Rightarrow> string set \<Rightarrow> bool" where
  "swept vms visiting visited \<longleftrightarrow> vm_graph.settled vms visited \<and> visited \<inter> set visiting = {}"

lemma known_deps_lookup:
  "bm_get vms vm = Some config \<Longrightarrow> known_deps vms vm = {d \<in> set (vm_depends_on config). bm_contains vms d}"
  "bm_get vms vm = None \<Longrightarrow> known_deps vms vm = {}"
  by (auto simp: known_deps_def depends_on_def)

lemma detect_visit_silent:
  shows "swept vms visiting visited \<Longrightarrow> fst (detect_visit vms visiting visited vm) = [] \<Longrightarrow>
      swept vms visiting (snd (detect_visit vms visiting visited vm))
      \<and> insert vm visited \<subseteq> snd (detect_visit vms visiting visited vm)"
    and "swept vms visiting visited \<Longrightarrow> fst (detect_visit_all vms visiting visited ds) = [] \<Longrightarrow>
      swept vms visiting (snd (detect_visit_all vms visiting visited ds))
      \<and> visited \<union> {d \<in> set ds. bm_contains vms d} \<subseteq> snd (detect_visit_all vms visiting visited ds)"
proof (induction vms visiting visited vm and vms visiting visited ds
    rule: detect_visit_detect_visit_all.induct)
  case (1 vms visiting visited vm)
  show ?case
  proof (cases "vm \<in> visited")
    case True
    with 1 show ?thesis by (simp add: detect_visit.simps [of vms visiting visited vm])
  next
    case fresh: False
    have none: "find_index (\<lambda>candidate. candidate = vm) visiting = None"
      using 1(3) fresh by (auto simp: detect_visit.simps [of vms visiting visited vm] split: option.splits)
    then have off: "vm \<notin> set visiting" by auto
    define r where "r = (case bm_get vms vm of None \<Rightarrow> ([], visited)
      | Some config \<Rightarrow> detect_visit_all vms (visiting @ [vm]) visited (vm_depends_on config))"
    have visit: "detect_visit vms visiting visited vm = (fst r, insert vm (snd r))"
      using fresh none
      by (simp add: detect_visit.simps [of vms visiting visited vm] r_def split_beta del: find_index_None)
    have swept0: "swept vms (visiting @ [vm]) visited"
      using 1(2) fresh by (auto simp: swept_def)
    have "swept vms (visiting @ [vm]) (snd r) \<and> visited \<union> known_deps vms vm \<subseteq> snd r"
    proof (cases "bm_get vms vm")
      case None
      with swept0 show ?thesis by (simp add: r_def known_deps_lookup)
    next
      case (Some config)
      have "fst r = []" using 1(3) visit by simp
      with Some 1(1) [OF fresh none Some swept0] show ?thesis
        by (simp add: r_def known_deps_lookup)
    qed
    moreover from this have "vm_graph.settled vms (insert vm (snd r))"
      by (intro vm_graph.settled_insert) (auto simp: swept_def)
    ultimately show ?thesis using off by (auto simp: visit swept_def)
  qed
next
  case (2 vms visiting visited)
  then show ?case by simp
next
  case (3 vms visiting visited d ds)
  define r where "r = (if bm_contains vms d then detect_visit vms visiting visited d else ([], visited))"
  have all: "detect_visit_all vms visiting visited (d # ds) =
      (fst r @ fst (detect_visit_all vms visiting (snd r) ds), snd (detect_visit_all vms visiting (snd r) ds))"
    by (simp add: r_def split_beta)
  have "fst r = []" and rest: "fst (detect_visit_all vms visiting (snd r) ds) = []"
    using 3(4) by (simp_all add: all del: detect_visit_all.simps)
  then have "swept vms visiting (snd r) \<and> visited \<union> {x \<in> {d}. bm_contains vms x} \<subseteq> snd r"
    using 3(1) [OF _ 3(3)] 3(3) by (auto simp: r_def split: if_splits)
  moreover from this have "swept vms visiting (snd (detect_visit_all vms visiting (snd r) ds))
      \<and> snd r \<union> {x \<in> set ds. bm_contains vms x} \<subseteq> snd (detect_visit_all vms visiting (snd r) ds)"
    using 3(2) [OF refl _ _ rest] by (cases r) (auto simp: r_def)
  ultimately show ?case by (auto simp: all simp del: detect_visit_all.simps)
qed

lemma detect_from_silent:
  "vm_graph.settled vms visited \<Longrightarrow> detect_from vms visited ns = [] \<Longrightarrow>
     \<exists>v. vm_graph.settled vms v \<and> visited \<union> set ns \<subseteq> v"
proof (induction vms visited ns rule: detect_from.induct)
  case (1 vms visited)
  then show ?case by auto
next
  case (2 vms visited vm rest)
  obtain issues visited' where visit: "detect_visit vms [] visited vm = (issues, visited')"
    by (cases "detect_visit vms [] visited vm") auto
  with 2(3) have silent: "issues = []" "detect_from vms visited' rest = []" by simp_all
  have "swept vms [] visited" using 2(2) by (simp add: swept_def)
  with detect_visit_silent(1) [of vms "[]" visited vm] visit silent(1)
  have "vm_graph.settled vms visited'" "insert vm visited \<subseteq> visited'" by (simp_all add: swept_def)
  with 2(1) [OF visit [symmetric] refl _ silent(2)] show ?case by auto
qed

lemma detect_silent_acyclic:
  assumes "detect_dependency_cycles vms = []"
  shows "acyclic (dep_edges vms)"
proof -
  obtain v where "vm_graph.settled vms v" "set (bm_keys vms) \<subseteq> v"
    using detect_from_silent [OF vm_graph.settled_empty, of vms "bm_keys vms"] assms
    unfolding detect_dependency_cycles_def by blast
  then have "acyclic (vm_graph.edges vms)" by (rule vm_graph.settled_acyclic)
  then show ?thesis by (simp add: vm_graph_edges)
qed

section \<open>Every reported cycle is one\<close>

definition dep_cycle :: "vms \<Rightarrow> string list \<Rightarrow> bool" where
  "dep_cycle vms c \<longleftrightarrow> 2 \<le> length c \<and> hd c = last c \<and> successively (\<lambda>a b. (a, b) \<in> dep_edges vms) c"

lemma successively_trancl:
  "successively (\<lambda>a b. (a, b) \<in> r) c \<Longrightarrow> 2 \<le> length c \<Longrightarrow> (hd c, last c) \<in> r\<^sup>+"
proof (induction c)
  case Nil
  then show ?case by simp
next
  case (Cons a c)
  then obtain b d where c: "c = b # d" by (cases c) auto
  show ?case
  proof (cases d)
    case Nil
    with Cons.prems c show ?thesis by auto
  next
    case (Cons x xs)
    with Cons.prems Cons.IH c show ?thesis by (auto intro: trancl_into_trancl2)
  qed
qed

lemma dep_cycle_cyclic: "dep_cycle vms c \<Longrightarrow> \<not> acyclic (dep_edges vms)"
  unfolding dep_cycle_def acyclic_def by (metis successively_trancl)

lemma dep_cycle_drop:
  assumes "successively (\<lambda>a b. (a, b) \<in> dep_edges vms) (visiting @ [vm])"
    and "find_index (\<lambda>candidate. candidate = vm) visiting = Some i"
  shows "dep_cycle vms (drop i visiting @ [vm])"
proof -
  have i: "i < length visiting" "visiting ! i = vm"
    using find_index_Some [OF assms(2)] by simp_all
  have "successively (\<lambda>a b. (a, b) \<in> dep_edges vms) (take i visiting @ (drop i visiting @ [vm]))"
    using assms(1) by (simp flip: append_assoc)
  then have "successively (\<lambda>a b. (a, b) \<in> dep_edges vms) (drop i visiting @ [vm])"
    by (simp only: successively_append_iff)
  moreover have "drop i visiting = vm # drop (Suc i) visiting"
    using i by (simp add: Cons_nth_drop_Suc [symmetric])
  ultimately show ?thesis by (simp add: dep_cycle_def)
qed

lemma detect_visit_cycles:
  shows "successively (\<lambda>a b. (a, b) \<in> dep_edges vms) (visiting @ [vm]) \<Longrightarrow>
      \<forall>i \<in> set (fst (detect_visit vms visiting visited vm)). \<exists>c. dep_cycle vms c \<and> i = cycle_issue c"
    and "\<forall>d \<in> set ds. bm_contains vms d \<longrightarrow> successively (\<lambda>a b. (a, b) \<in> dep_edges vms) (visiting @ [d]) \<Longrightarrow>
      \<forall>i \<in> set (fst (detect_visit_all vms visiting visited ds)). \<exists>c. dep_cycle vms c \<and> i = cycle_issue c"
proof (induction vms visiting visited vm and vms visiting visited ds
    rule: detect_visit_detect_visit_all.induct)
  case (1 vms visiting visited vm)
  let ?find = "find_index (\<lambda>candidate. candidate = vm) visiting"
  consider "vm \<in> visited" | i where "vm \<notin> visited" "?find = Some i"
    | "vm \<notin> visited" "?find = None" "bm_get vms vm = None"
    | config where "vm \<notin> visited" "?find = None" "bm_get vms vm = Some config"
    by fastforce
  then show ?case
  proof cases
    case (2 i)
    with dep_cycle_drop [OF 1(2)] show ?thesis by (auto simp: detect_visit.simps [of vms visiting visited vm])
  next
    case (4 config)
    have "\<forall>d \<in> set (vm_depends_on config). bm_contains vms d \<longrightarrow>
        successively (\<lambda>a b. (a, b) \<in> dep_edges vms) ((visiting @ [vm]) @ [d])"
      using 1(2) 4(3) by (auto simp: successively_append_iff dep_edges_def known_deps_lookup)
    with 4 1(1) show ?thesis
      by (simp add: detect_visit.simps [of vms visiting visited vm] split_beta del: find_index_None)
  qed (simp_all add: detect_visit.simps [of vms visiting visited vm] del: find_index_None)
next
  case (2 vms visiting visited)
  then show ?case by simp
next
  case (3 vms visiting visited d ds)
  define r where "r = (if bm_contains vms d then detect_visit vms visiting visited d else ([], visited))"
  have all: "fst (detect_visit_all vms visiting visited (d # ds)) =
      fst r @ fst (detect_visit_all vms visiting (snd r) ds)"
    by (simp add: r_def split_beta)
  have "\<forall>i \<in> set (fst r). \<exists>c. dep_cycle vms c \<and> i = cycle_issue c"
    using 3(1,3) by (auto simp: r_def split: if_splits)
  moreover have "\<forall>i \<in> set (fst (detect_visit_all vms visiting (snd r) ds)). \<exists>c. dep_cycle vms c \<and> i = cycle_issue c"
    using 3(2) [of r "fst r" "snd r"] 3(3) by (auto simp: r_def)
  ultimately show ?case by (auto simp: all simp del: detect_visit_all.simps)
qed

lemma detect_from_cycles: "i \<in> set (detect_from vms visited ns) \<Longrightarrow> \<exists>c. dep_cycle vms c \<and> i = cycle_issue c"
proof (induction vms visited ns rule: detect_from.induct)
  case (2 vms visited vm rest)
  obtain issues visited' where visit: "detect_visit vms [] visited vm = (issues, visited')"
    by (cases "detect_visit vms [] visited vm") auto
  with 2(2) consider "i \<in> set issues" | "i \<in> set (detect_from vms visited' rest)" by auto
  then show ?case
  proof cases
    case 1
    then show ?thesis using detect_visit_cycles(1) [of vms "[]" vm visited] visit by simp
  next
    case 2
    then show ?thesis using "2.IH" [OF visit [symmetric] refl] by simp
  qed
qed simp

lemma detect_acyclic_silent:
  assumes "acyclic (dep_edges vms)"
  shows "detect_dependency_cycles vms = []"
proof (rule ccontr)
  assume "detect_dependency_cycles vms \<noteq> []"
  then obtain i where "i \<in> set (detect_dependency_cycles vms)" by (cases "detect_dependency_cycles vms") auto
  then show False
    using detect_from_cycles dep_cycle_cyclic assms unfolding detect_dependency_cycles_def by blast
qed

section \<open>The order is topological\<close>

definition order_ok :: "vms \<Rightarrow> string set \<Rightarrow> order_state \<Rightarrow> bool" where
  "order_ok vms visiting st \<longleftrightarrow>
     vm_graph.topological vms (snd st) \<and> set (snd st) = fst st \<and> fst st \<inter> visiting = {}
     \<and> fst st \<subseteq> set (bm_keys vms) \<and> (\<forall>n \<in> fst st. set (depends_on vms n) \<subseteq> fst st)"

lemma order_ok_visit:
  assumes "order_ok vms (insert name visiting) st" and "bm_get vms name = Some config"
    and "set (vm_depends_on config) \<subseteq> fst st" and "name \<notin> visiting"
  shows "order_ok vms visiting (insert name (fst st), snd st @ [name])"
proof -
  have "known_deps vms name \<subseteq> set (snd st)"
    using assms by (auto simp: order_ok_def known_deps_lookup)
  then have "vm_graph.topological vms (snd st @ [name])"
    using assms(1) by (intro vm_graph.topological_snoc) (auto simp: order_ok_def)
  moreover have "name \<in> set (bm_keys vms)"
    using assms(2) by (metis bm_contains_Some bm_contains_iff)
  moreover have "set (depends_on vms name) \<subseteq> fst st"
    using assms(2,3) by (simp add: depends_on_def)
  ultimately show ?thesis using assms(1,4) by (auto simp: order_ok_def)
qed

lemma order_visit_ok:
  shows "order_ok vms visiting st \<Longrightarrow> order_visit vms visiting st name = Inr st' \<Longrightarrow>
      order_ok vms visiting st' \<and> insert name (fst st) \<subseteq> fst st'"
    and "order_ok vms visiting st \<Longrightarrow> order_visit_all vms visiting st ds = Inr st' \<Longrightarrow>
      order_ok vms visiting st' \<and> set ds \<union> fst st \<subseteq> fst st'"
proof (induction vms visiting st name and vms visiting st ds arbitrary: st' and st'
    rule: order_visit_order_visit_all.induct)
  case (1 vms visiting st name)
  show ?case
  proof (cases "name \<in> fst st")
    case True
    with 1 show ?thesis by (simp add: order_visit.simps [of vms visiting st name])
  next
    case fresh: False
    with 1(3) have off: "name \<notin> visiting"
      by (auto simp: order_visit.simps [of vms visiting st name])
    with fresh 1(3) obtain config st1 where config: "bm_get vms name = Some config"
        and st1: "order_visit_all vms (insert name visiting) st (vm_depends_on config) = Inr st1"
        and st': "st' = (insert name (fst st1), snd st1 @ [name])"
      by (auto simp: order_visit.simps [of vms visiting st name] split: option.splits)
    have "order_ok vms (insert name visiting) st"
      using 1(2) fresh by (auto simp: order_ok_def)
    from 1(1) [OF fresh off config this st1]
    have "order_ok vms (insert name visiting) st1" "set (vm_depends_on config) \<subseteq> fst st1" "fst st \<subseteq> fst st1"
      by simp_all
    with order_ok_visit [OF _ config _ off] show ?thesis by (auto simp: st')
  qed
next
  case (2 vms visiting st)
  then show ?case by simp
next
  case (3 vms visiting st d ds)
  obtain st1 where st1: "order_visit vms visiting st d = Inr st1" "order_visit_all vms visiting st1 ds = Inr st'"
    using 3(4) by auto
  with 3(1) [OF 3(3) st1(1)] 3(2) [of st1 st'] show ?case by auto
qed

lemma order_visit_error:
  shows "deps_known vms \<Longrightarrow> bm_contains vms name \<Longrightarrow> \<forall>x \<in> visiting. (x, name) \<in> (dep_edges vms)\<^sup>+ \<Longrightarrow>
      order_visit vms visiting st name = Inl e \<Longrightarrow> e = DependencyCycle \<and> \<not> acyclic (dep_edges vms)"
    and "deps_known vms \<Longrightarrow> \<forall>d \<in> set ds. bm_contains vms d \<and> (\<forall>x \<in> visiting. (x, d) \<in> (dep_edges vms)\<^sup>+) \<Longrightarrow>
      order_visit_all vms visiting st ds = Inl e \<Longrightarrow> e = DependencyCycle \<and> \<not> acyclic (dep_edges vms)"
proof (induction vms visiting st name and vms visiting st ds rule: order_visit_order_visit_all.induct)
  case (1 vms visiting st name)
  then have fresh: "name \<notin> fst st" by (auto simp: order_visit.simps [of vms visiting st name])
  obtain config where config: "bm_get vms name = Some config"
    using 1(3) by (auto simp: bm_contains_Some)
  show ?case
  proof (cases "name \<in> visiting")
    case True
    with 1(4) have "(name, name) \<in> (dep_edges vms)\<^sup>+" by blast
    with True fresh 1(5) show ?thesis
      by (auto simp: order_visit.simps [of vms visiting st name] acyclic_def)
  next
    case off: False
    have deps: "(name, d) \<in> dep_edges vms \<and> bm_contains vms d" if "d \<in> set (vm_depends_on config)" for d
      using that 1(2) config unfolding deps_known_def dep_edges_def known_deps_def depends_on_def
      by (auto dest: spec [of _ name])
    then have "\<forall>d \<in> set (vm_depends_on config). bm_contains vms d
        \<and> (\<forall>x \<in> insert name visiting. (x, d) \<in> (dep_edges vms)\<^sup>+)"
      using 1(4) by (auto intro: trancl_into_trancl)
    moreover have "order_visit_all vms (insert name visiting) st (vm_depends_on config) = Inl e"
      using fresh off config 1(5)
      by (cases "order_visit_all vms (insert name visiting) st (vm_depends_on config)")
        (simp_all add: order_visit.simps [of vms visiting st name])
    ultimately show ?thesis using 1(1) [OF fresh off config 1(2)] by blast
  qed
next
  case (2 vms visiting st)
  then show ?case by simp
next
  case (3 vms visiting st d ds)
  show ?case
  proof (cases "order_visit vms visiting st d")
    case (Inl e')
    with 3 show ?thesis by simp
  next
    case (Inr st')
    with 3(2) [of st'] 3(3-5) show ?thesis by simp
  qed
qed

lemma dependency_order_Inr:
  assumes "dependency_order vms = Inr order"
  shows "distinct order \<and> set order = set (bm_keys vms) \<and> vm_graph.topological vms order
    \<and> (\<forall>n \<in> set order. set (depends_on vms n) \<subseteq> set order)"
proof -
  obtain st where st: "order_visit_all vms {} ({}, []) (bm_keys vms) = Inr st" "order = snd st"
    using assms by (auto simp: dependency_order_def)
  have "order_ok vms {} ({}, [])"
    by (simp add: order_ok_def vm_graph.topological_Nil)
  from order_visit_ok(2) [OF this st(1)] show ?thesis
    by (auto simp: order_ok_def st(2) vm_graph.topological_def simp del: set_map)
qed

lemma topological_deps:
  assumes "dependency_order vms = Inr order" and "i < length order"
  shows "set (depends_on vms (order ! i)) \<subseteq> set (take i order)"
proof -
  note order = dependency_order_Inr [OF assms(1)]
  have "set (depends_on vms (order ! i)) \<subseteq> set (bm_keys vms)"
    using order assms(2) by (metis nth_mem)
  then have "known_deps vms (order ! i) = set (depends_on vms (order ! i))"
    by (auto simp: known_deps_def bm_contains_iff simp del: set_map)
  with order assms(2) show ?thesis by (metis vm_graph.topological_def)
qed

lemma dependency_order_Inl:
  assumes "deps_known vms" and "dependency_order vms = Inl e"
  shows "e = DependencyCycle \<and> \<not> acyclic (dep_edges vms)"
proof -
  have "order_visit_all vms {} ({}, []) (bm_keys vms) = Inl e"
    using assms(2) by (cases "order_visit_all vms {} ({}, []) (bm_keys vms)") (auto simp: dependency_order_def)
  moreover have "\<forall>d \<in> set (bm_keys vms). bm_contains vms d" by (simp add: bm_contains_iff del: set_map)
  ultimately show ?thesis using order_visit_error(2) [OF assms(1)] by blast
qed

lemma dependency_order_acyclic:
  assumes "dependency_order vms = Inr order"
  shows "acyclic (dep_edges vms)"
proof -
  have "vm_graph.settled vms (set order)" "set (bm_keys vms) \<subseteq> set order"
    using dependency_order_Inr [OF assms] vm_graph.topological_settled by blast+
  then have "acyclic (vm_graph.edges vms)" by (rule vm_graph.settled_acyclic)
  then show ?thesis by (simp add: vm_graph_edges)
qed

section \<open>Properties\<close>

definition sample_loop :: vms where
  "sample_loop = [(''a'', plain_vm\<lparr>vm_depends_on := [''b'']\<rparr>), (''b'', plain_vm\<lparr>vm_depends_on := [''a'']\<rparr>)]"

declare sample_loop_def [exec_simps]

text \<open>Validation reports no dependency cycle exactly when the dependencies between the VMs of
  the environment are acyclic.\<close>

lemma detect_dependency_cycles_iff:
  "detect_dependency_cycles vms = [] \<longleftrightarrow> acyclic (dep_edges vms)"
  using detect_silent_acyclic detect_acyclic_silent by blast

text \<open>Every cycle issue lists a cycle of the dependencies: at least two names, the first and
  the last equal, each depending on the next, and it stands at the \<open>dependsOn\<close> of that VM.\<close>

lemma reported_cycle_is_cycle:
  assumes "i \<in> set (detect_dependency_cycles vms)"
  shows "\<exists>c. dep_cycle vms c \<and> vi_message i = ''dependency cycle: '' @ join '' -> '' c
    \<and> vi_path i = json_path_key ''$.spec.vms'' (hd c) @ ''.dependsOn''"
  using detect_from_cycles [OF assms [unfolded detect_dependency_cycles_def]]
  by (auto simp: cycle_issue_def semantic_def dep_cycle_def)

lemma reported_cycle_is_cycle_witness:
  "\<exists>c. dep_cycle sample_loop c \<and> ''dependency cycle: a -> b -> a'' = ''dependency cycle: '' @ join '' -> '' c
    \<and> ''$.spec.vms.a.dependsOn'' = json_path_key ''$.spec.vms'' (hd c) @ ''.dependsOn''"
proof -
  have "semantic ''$.spec.vms.a.dependsOn'' ''dependency cycle: a -> b -> a''
      \<in> set (detect_dependency_cycles sample_loop)"
    by (simp add: exec_simps)
  from reported_cycle_is_cycle [OF this] show ?thesis by (simp only: semantic_def validation_issue.sel)
qed

text \<open>The order in which VMs are started contains every VM once, and each VM after all the VMs
  it depends on.\<close>

lemma dependency_order_topological:
  assumes "dependency_order vms = Inr order"
  shows "distinct order \<and> set order = set (bm_keys vms)
    \<and> (\<forall>i < length order. set (depends_on vms (order ! i)) \<subseteq> set (take i order))"
  using dependency_order_Inr [OF assms] topological_deps [OF assms] by blast

lemma dependency_order_topological_witness:
  "set (depends_on (env_vms sample_env) ''web'') \<subseteq> {''db''}"
proof -
  have "dependency_order (env_vms sample_env) = Inr [''db'', ''web'']"
    by (simp add: exec_simps)
  from dependency_order_topological [OF this] show ?thesis
    by (auto simp: numeral_2_eq_2 less_Suc_eq)
qed

text \<open>When every dependency names a VM of the map, an order exists exactly when the
  dependencies are acyclic, and the only error is the cycle; the lookup never panics.\<close>

lemma dependency_order_total:
  assumes "deps_known vms"
  shows "(is_ok (dependency_order vms) \<longleftrightarrow> acyclic (dep_edges vms))
    \<and> (dependency_order vms = Inl DependencyCycle \<longleftrightarrow> \<not> acyclic (dep_edges vms))"
proof (cases "dependency_order vms")
  case (Inl e)
  with dependency_order_Inl [OF assms Inl] show ?thesis by simp
next
  case (Inr order)
  with dependency_order_acyclic [OF Inr] show ?thesis by simp
qed

lemma dependency_order_total_witness: "dependency_order sample_loop = Inl DependencyCycle"
proof -
  have "deps_known sample_loop"
    by (auto simp: deps_known_def sample_loop_def depends_on_def bm_contains_def plain_vm_def
        split: if_splits)
  moreover have "detect_dependency_cycles sample_loop \<noteq> []" by (simp add: exec_simps)
  ultimately show ?thesis
    using dependency_order_total detect_silent_acyclic detect_acyclic_silent by blast
qed

end
