(* ===== verification/Memory.thy ===== *)
theory Memory
  imports Issues Samples
begin

text \<open>
  Memory sizes (\<open>parse_memory_mib\<close> of \<open>vm_create.rs\<close>) and the advisory memory budget of a
  stack (\<open>resource_budget.rs\<close>). Sizes are 64-bit words of MiB: \<open>checked_mul\<close> and
  \<open>saturating_add\<close> are written out on words, and the lemmas relate them to the natural
  numbers they stand for.
\<close>

section \<open>64-bit arithmetic\<close>

definition checked_mul :: "u64 \<Rightarrow> u64 \<Rightarrow> u64 option" where
  "checked_mul a b = (if unat a * unat b < 2 ^ 64 then Some (a * b) else None)"

definition saturating_add :: "u64 \<Rightarrow> u64 \<Rightarrow> u64" where
  "saturating_add a b = (if unat a + unat b < 2 ^ 64 then a + b else - 1)"

definition saturating_sub :: "u64 \<Rightarrow> u64 \<Rightarrow> u64" where
  "saturating_sub a b = (if b \<le> a then a - b else 0)"

definition div_ceil :: "u64 \<Rightarrow> u64 \<Rightarrow> u64" where
  "div_ceil a b = (if a mod b = 0 then a div b else a div b + 1)"

lemma unat_u64_less: "unat (w :: u64) < 18446744073709551616"
  using unsigned_less [where ?'a = nat, of w] by simp

lemma unat_of_nat_u64: "n < 18446744073709551616 \<Longrightarrow> unat (of_nat n :: u64) = n"
  by (simp add: unsigned_of_nat take_bit_nat_eq_self)

lemma checked_mul_Some:
  "checked_mul a b = Some c \<longleftrightarrow> unat c = unat a * unat b"
proof
  assume "checked_mul a b = Some c"
  then show "unat c = unat a * unat b"
    by (auto simp: checked_mul_def unat_word_ariths split: if_splits)
next
  assume c: "unat c = unat a * unat b"
  then have "unat a * unat b < 18446744073709551616" using unat_u64_less [of c] by simp
  moreover from this have "unat (a * b) = unat c" by (simp add: c unat_word_ariths)
  ultimately show "checked_mul a b = Some c"
    by (simp add: checked_mul_def word_unat_eq_iff)
qed

lemma unat_saturating_add: "unat (saturating_add a b) = min 18446744073709551615 (unat a + unat b)"
proof (cases "unat a + unat b < 18446744073709551616")
  case True
  then show ?thesis by (simp add: saturating_add_def unat_word_ariths)
next
  case False
  then show ?thesis by (simp add: saturating_add_def unsigned_minus_1_eq_mask mask_eq_exp_minus_1)
qed

lemma unat_saturating_sub: "unat (saturating_sub a b) = unat a - unat b"
  by (auto simp: saturating_sub_def unat_sub word_le_nat_alt)

lemma div_ceil_nat: "(if n mod 5 = 0 then n div 5 else n div 5 + 1) = (n + 4) div (5 :: nat)"
  by presburger

lemma unat_div_ceil_5: "unat (div_ceil a 5) = (unat a + 4) div 5"
proof -
  have "unat (a div 5) = unat a div 5" "unat (a mod 5) = unat a mod 5"
    by (simp_all add: unat_div unat_mod)
  moreover have "unat a div 5 + 1 < 18446744073709551616" using unat_u64_less [of a] by simp
  ultimately have "unat (div_ceil a 5) = (if unat a mod 5 = 0 then unat a div 5 else unat a div 5 + 1)"
    by (auto simp: div_ceil_def unat_word_ariths word_unat_eq_iff)
  also have "\<dots> = (unat a + 4) div 5" by (rule div_ceil_nat)
  finally show ?thesis .
qed

section \<open>parse_memory_mib\<close>

definition at_least_256 :: "string \<Rightarrow> u64 \<Rightarrow> (u64, string) result" where
  "at_least_256 message mib = (if mib < 256 then Inl message else Inr mib)"

definition parse_memory_mib :: "string \<Rightarrow> (u64, string) result" where
  "parse_memory_mib s =
     (if s = [] then Inl ''invalid --memory: empty''
      else if list_all is_ascii_digit s then
        and_then (ok_or (''invalid --memory: '' @ s) (parse_u64 s))
          (at_least_256 (''--memory must be at least 256 MiB; bare values are MiB (use '' @ s
             @ ''Gi for '' @ s @ '' GiB)''))
      else
        and_then (ok_or (''invalid --memory: '' @ s) (parse_u64 (takeWhile is_ascii_digit s))) (\<lambda>number.
          if number = 0 then Inl ''--memory must be greater than zero''
          else
            let unit = to_ascii_lowercase (dropWhile is_ascii_digit s)
            in and_then
                 (if unit \<in> {''m'', ''mb'', ''mi'', ''mib''} then Inr number
                  else if unit \<in> {''g'', ''gb'', ''gi'', ''gib''} then
                    ok_or ''--memory is too large'' (checked_mul number 1024)
                  else if unit \<in> {''t'', ''tb'', ''ti'', ''tib''} then
                    ok_or ''--memory is too large'' (checked_mul number (1024 * 1024))
                  else Inl (''--memory must use MiB/GiB/TiB or a bare MiB integer: '' @ s))
                 (at_least_256 ''--memory must be at least 256 MiB'')))"

section \<open>The budget of a stack\<close>

record budget_report =
  budget_host :: "u64 option"
  budget_requested :: u64
  budget_reserve :: u64
  budget_available :: "u64 option"
  budget_warnings :: "string list"

definition invalid_memory_warning :: string where
  "invalid_memory_warning = ''RAM-Budget unvollst'' @ [CHR 0xC3, CHR 0xA4]
     @ ''ndig: ung'' @ [CHR 0xC3, CHR 0xBC] @ ''ltige VM-Speicherangabe.''"

definition too_much_warning :: "u64 \<Rightarrow> u64 \<Rightarrow> u64 \<Rightarrow> string" where
  "too_much_warning requested reserve available =
     ''Stack fordert '' @ show_word requested @ '' MiB RAM; nach '' @ show_word reserve
     @ '' MiB Hostreserve bleiben '' @ show_word available
     @ '' MiB der Gesamtkapazit'' @ [CHR 0xC3, CHR 0xA4]
     @ ''t. Andere Stacks und laufende Apps sind nicht eingerechnet.''"

definition unknown_host_warning :: string where
  "unknown_host_warning = ''Host-RAM unbekannt; kein Kapazit'' @ [CHR 0xC3, CHR 0xA4] @ ''tsvergleich m''
     @ [CHR 0xC3, CHR 0xB6] @ ''glich.''"

text \<open>One VM of the fold: its memory and the warning it pushes.\<close>

definition budget_memory :: "vm_config \<Rightarrow> string list \<times> u64" where
  "budget_memory vm =
     (case vm_memory vm of
        None \<Rightarrow> ([], 1024)
      | Some text \<Rightarrow>
          (case parse_memory_mib text of
             Inr memory \<Rightarrow> ([], memory)
           | Inl _ \<Rightarrow> ([invalid_memory_warning], 0)))"

fun budget_sum :: "string list \<times> u64 \<Rightarrow> vm_config list \<Rightarrow> string list \<times> u64" where
  "budget_sum st [] = st"
| "budget_sum st (vm # rest) =
     budget_sum (fst st @ fst (budget_memory vm), saturating_add (snd st) (snd (budget_memory vm))) rest"

definition assess_with_host_memory :: "environment \<Rightarrow> u64 option \<Rightarrow> budget_report" where
  "assess_with_host_memory env host =
     (let (warnings, requested) = budget_sum ([], 0) (bm_values (env_vms env));
          reserve = (case host of None \<Rightarrow> 2048 | Some t \<Rightarrow> max 2048 (div_ceil t 5));
          available = map_option (\<lambda>t. saturating_sub t reserve) host;
          more = (case available of
                    None \<Rightarrow> [unknown_host_warning]
                  | Some a \<Rightarrow> emit (a < requested) (too_much_warning requested reserve a))
      in \<lparr>budget_host = host, budget_requested = requested, budget_reserve = reserve,
          budget_available = available, budget_warnings = warnings @ more\<rparr>)"

declare checked_mul_def [exec_simps] saturating_add_def [exec_simps] saturating_sub_def [exec_simps]
  div_ceil_def [exec_simps] at_least_256_def [exec_simps] parse_memory_mib_def [exec_simps]
  invalid_memory_warning_def [exec_simps] too_much_warning_def [exec_simps]
  unknown_host_warning_def [exec_simps] budget_memory_def [exec_simps] assess_with_host_memory_def [exec_simps]

section \<open>What a memory text means\<close>

definition unit_factor :: "string \<Rightarrow> nat option" where
  "unit_factor unit =
     (if unit = [] then Some 1
      else if unit \<in> {''m'', ''mb'', ''mi'', ''mib''} then Some 1
      else if unit \<in> {''g'', ''gb'', ''gi'', ''gib''} then Some 1024
      else if unit \<in> {''t'', ''tb'', ''ti'', ''tib''} then Some 1048576
      else None)"

text \<open>The text is digits and a unit in any case; the size is their product.\<close>

definition memory_means :: "string \<Rightarrow> nat \<Rightarrow> bool" where
  "memory_means s mib \<longleftrightarrow>
     (let ds = takeWhile is_ascii_digit s; unit = to_ascii_lowercase (dropWhile is_ascii_digit s)
      in ds \<noteq> [] \<and> (case unit_factor unit of None \<Rightarrow> False | Some k \<Rightarrow> mib = dec_value ds * k))"

lemma parse_u64_digits:
  "list_all is_ascii_digit s \<Longrightarrow> parse_u64 s = Some n \<longleftrightarrow> s \<noteq> [] \<and> dec_value s = unat n"
proof (cases "s = []")
  case True
  then show ?thesis by (simp add: parse_u64_def)
next
  case False
  assume "list_all is_ascii_digit s"
  with False show ?thesis
    using unat_u64_less [of n] by (auto simp: parse_u64_def parse_uint_digits unat_of_nat_u64 word_unat_eq_iff)
qed

lemma at_least_256_Inr: "at_least_256 message mib = Inr m \<longleftrightarrow> m = mib \<and> 256 \<le> unat m"
  by (auto simp: at_least_256_def word_less_nat_alt)

lemma list_all_takeWhile [simp]: "list_all p (takeWhile p xs)"
  by (induction xs) auto

lemma memory_means_iff:
  "memory_means s mib \<longleftrightarrow> takeWhile is_ascii_digit s \<noteq> []
    \<and> (\<exists>k. unit_factor (to_ascii_lowercase (dropWhile is_ascii_digit s)) = Some k
          \<and> mib = dec_value (takeWhile is_ascii_digit s) * k)"
  by (auto simp: memory_means_def Let_def split: option.splits)

lemma parse_memory_bare:
  assumes "s \<noteq> []" and "list_all is_ascii_digit s"
  shows "parse_memory_mib s = Inr m \<longleftrightarrow> memory_means s (unat m) \<and> 256 \<le> unat m"
proof -
  have "takeWhile is_ascii_digit s = s" "dropWhile is_ascii_digit s = []"
    using assms(2) by (simp_all add: list_all_iff)
  with assms have "memory_means s (unat m) \<longleftrightarrow> unat m = dec_value s"
    by (simp add: memory_means_iff unit_factor_def to_ascii_lowercase_def
        del: takeWhile_eq_all_conv dropWhile_eq_Nil_conv)
  with assms show ?thesis
    by (auto simp: parse_memory_mib_def at_least_256_Inr parse_u64_digits)
qed

lemma parse_memory_unit:
  assumes "s \<noteq> []" and "\<not> list_all is_ascii_digit s"
  shows "parse_memory_mib s = Inr m \<longleftrightarrow> memory_means s (unat m) \<and> 256 \<le> unat m"
proof (cases "takeWhile is_ascii_digit s = []")
  case True
  with assms show ?thesis
    by (simp add: parse_memory_mib_def memory_means_def parse_u64_def)
next
  case digits: False
  let ?ds = "takeWhile is_ascii_digit s"
  define u where "u = to_ascii_lowercase (dropWhile is_ascii_digit s)"
  have "dropWhile is_ascii_digit s \<noteq> []" using assms(2) by (simp add: list_all_iff)
  then have u: "u \<noteq> []" by (simp add: u_def to_ascii_lowercase_def)
  have means: "memory_means s mib \<longleftrightarrow> (\<exists>k. unit_factor u = Some k \<and> mib = dec_value ?ds * k)" for mib
    using digits by (simp add: memory_means_iff u_def)
  show ?thesis
  proof (cases "parse_u64 ?ds")
    case None
    have "\<not> dec_value ?ds < 18446744073709551616"
      using None digits by (auto simp: parse_u64_def parse_uint_digits split: if_splits)
    then have "unat m < dec_value ?ds" using unat_u64_less [of m] by linarith
    then have "\<not> memory_means s (unat m)" by (auto simp: means unit_factor_def split: if_splits)
    with None assms show ?thesis by (simp add: parse_memory_mib_def)
  next
    case (Some number)
    then have n: "dec_value ?ds = unat number" by (simp add: parse_u64_digits)
    have zero: "number = 0 \<longleftrightarrow> unat number = 0" by (simp add: word_unat_eq_iff)
    consider "u \<in> {''m'', ''mb'', ''mi'', ''mib''}"
      | "u \<notin> {''m'', ''mb'', ''mi'', ''mib''}" "u \<in> {''g'', ''gb'', ''gi'', ''gib''}"
      | "u \<notin> {''m'', ''mb'', ''mi'', ''mib''}" "u \<notin> {''g'', ''gb'', ''gi'', ''gib''}"
        "u \<in> {''t'', ''tb'', ''ti'', ''tib''}"
      | "u \<notin> {''m'', ''mb'', ''mi'', ''mib''}"
        "u \<notin> {''g'', ''gb'', ''gi'', ''gib''}" "u \<notin> {''t'', ''tb'', ''ti'', ''tib''}"
      by argo
    then show ?thesis
    proof cases
      case 1
      then have "unit_factor u = Some 1" using u unfolding unit_factor_def by (simp only: if_True if_False)
      moreover have "parse_memory_mib s =
          (if number = 0 then Inl ''--memory must be greater than zero''
           else at_least_256 ''--memory must be at least 256 MiB'' number)"
        using assms Some 1 unfolding parse_memory_mib_def u_def by (simp only: Let_def if_True if_False ok_or_simps and_then_simps)
      ultimately show ?thesis by (auto simp: means n at_least_256_Inr zero word_unat_eq_iff)
    next
      case 2
      then have "unit_factor u = Some 1024" using u unfolding unit_factor_def by (simp only: if_True if_False)
      moreover have "parse_memory_mib s =
          (if number = 0 then Inl ''--memory must be greater than zero''
           else and_then (ok_or ''--memory is too large'' (checked_mul number 1024))
             (at_least_256 ''--memory must be at least 256 MiB''))"
        using assms Some 2 unfolding parse_memory_mib_def u_def by (simp only: Let_def if_True if_False ok_or_simps and_then_simps)
      ultimately show ?thesis by (auto simp: means n at_least_256_Inr checked_mul_Some zero)
    next
      case 3
      then have "unit_factor u = Some 1048576" using u unfolding unit_factor_def by (simp only: if_True if_False)
      moreover have "parse_memory_mib s =
          (if number = 0 then Inl ''--memory must be greater than zero''
           else and_then (ok_or ''--memory is too large'' (checked_mul number (1024 * 1024)))
             (at_least_256 ''--memory must be at least 256 MiB''))"
        using assms Some 3 unfolding parse_memory_mib_def u_def by (simp only: Let_def if_True if_False ok_or_simps and_then_simps)
      ultimately show ?thesis by (auto simp: means n at_least_256_Inr checked_mul_Some zero)
    next
      case 4
      then have "\<not> is_ok (parse_memory_mib s)"
        using assms Some unfolding parse_memory_mib_def u_def
        by (simp only: Let_def if_True if_False ok_or_simps and_then_simps) simp
      moreover have "unit_factor u = None" using u 4 unfolding unit_factor_def by (simp only: if_False)
      ultimately show ?thesis by (auto simp: means is_ok_iff)
    qed
  qed
qed

lemma parse_memory_iff:
  "parse_memory_mib s = Inr m \<longleftrightarrow> memory_means s (unat m) \<and> 256 \<le> unat m"
proof (cases "s = []")
  case True
  then show ?thesis by (simp add: parse_memory_mib_def memory_means_def)
next
  case False
  then show ?thesis using parse_memory_bare parse_memory_unit by blast
qed

section \<open>The budget is the sum\<close>

definition memory_or_zero :: "vm_config \<Rightarrow> nat" where
  "memory_or_zero vm = unat (snd (budget_memory vm))"

definition memory_readable :: "vm_config \<Rightarrow> bool" where
  "memory_readable vm \<longleftrightarrow> fst (budget_memory vm) = []"

lemma memory_readable_iff: "memory_readable vm \<longleftrightarrow> (\<forall>t. vm_memory vm = Some t \<longrightarrow> is_ok (parse_memory_mib t))"
  by (auto simp: memory_readable_def budget_memory_def split: option.splits sum.splits)

lemma budget_sum_unat:
  "unat (snd (budget_sum st vs)) = min 18446744073709551615 (unat (snd st) + sum_list (map memory_or_zero vs))"
proof (induction st vs rule: budget_sum.induct)
  case (1 st)
  then show ?case using unat_u64_less [of "snd st"] by simp
next
  case (2 st vm rest)
  then show ?case by (simp add: unat_saturating_add memory_or_zero_def)
qed

lemma budget_sum_warnings:
  "fst (budget_sum st vs) = [] \<longleftrightarrow> fst st = [] \<and> (\<forall>vm \<in> set vs. memory_readable vm)"
  by (induction st vs rule: budget_sum.induct) (auto simp: memory_readable_def)

section \<open>Properties\<close>

text \<open>A memory text is read as \<open>m\<close> MiB exactly when it is a decimal number and a MiB, GiB or
  TiB unit (in any case, or none) whose product, computed without any wrap-around, is \<open>m\<close>, and
  \<open>m\<close> is at least 256; every other text, and every product beyond 64 bits, is an error.\<close>

lemma parse_memory_mib_iff:
  "parse_memory_mib s = Inr m \<longleftrightarrow> memory_means s (unat m) \<and> 256 \<le> unat m"
  by (rule parse_memory_iff)

text \<open>The budget requests the sum of the VMs' memory, 1024 MiB for a VM that states none and
  nothing for one it cannot read, capped at 64 bits.\<close>

lemma budget_requested_sum:
  "unat (budget_requested (assess_with_host_memory env host)) =
     min 18446744073709551615 (sum_list (map memory_or_zero (bm_values (env_vms env))))"
  using budget_sum_unat [of "([], 0)" "bm_values (env_vms env)"]
  by (simp add: assess_with_host_memory_def split_beta Let_def)

text \<open>With a known host of \<open>t\<close> MiB the budget warns about nothing exactly when every memory
  text is readable and the request fits into what a reserve of 2048 MiB, or a fifth of the host
  rounded up, leaves; with an unknown host it always warns.\<close>

lemma budget_warnings_iff:
  "budget_warnings (assess_with_host_memory env host) = [] \<longleftrightarrow>
     (\<exists>t. host = Some t \<and> (\<forall>vm \<in> set (bm_values (env_vms env)). memory_readable vm)
        \<and> unat (budget_requested (assess_with_host_memory env host))
            \<le> unat t - max 2048 ((unat t + 4) div 5))"
proof (cases host)
  case None
  then show ?thesis by (simp add: assess_with_host_memory_def split_beta Let_def)
next
  case (Some t)
  have "unat (max 2048 (div_ceil t 5)) = max 2048 ((unat t + 4) div 5)"
    unfolding unat_div_ceil_5 [symmetric] by (auto simp: max_def word_le_nat_alt)
  with Some show ?thesis
    using budget_sum_warnings [of "([], 0)" "bm_values (env_vms env)"]
    by (auto simp: assess_with_host_memory_def split_beta Let_def unat_saturating_sub
        not_less word_le_nat_alt)
qed

lemma budget_warnings_iff_witness:
  "budget_warnings (assess_with_host_memory sample_env (Some 8192)) = []"
proof -
  have "budget_requested (assess_with_host_memory sample_env (Some 8192)) = 2048"
    by (simp add: exec_simps)
  moreover have "\<forall>vm \<in> set (bm_values (env_vms sample_env)). memory_readable vm"
    by (simp add: memory_readable_def exec_simps)
  ultimately show ?thesis
    using budget_warnings_iff [of sample_env "Some 8192"] by simp
qed

end
