(* ===== verification/ValidateVm.thy ===== *)
theory ValidateVm
  imports ValidateNet Ports Deps Memory
begin

text \<open>
  The part of \<open>validate_references\<close> (\<open>config.rs\<close>) about volumes and virtual machines: volume
  keys, and for each VM its image, roles, ports, mounts, containers, logs, size, network
  attachments and dependencies; then the owners of docker networks. Two tables live across the
  VMs, the host ports bound so far and the addresses assigned so far: they are the state of the
  loop. Whether a path is a directory or a file is asked of the file system \<open>fs\<close>.

  The lemmas say what a silent pass guarantees about each VM and across VMs.
\<close>

record file_system =
  fs_is_dir :: "string \<Rightarrow> bool"
  fs_is_file :: "string \<Rightarrow> bool"

section \<open>Volumes\<close>

definition validate_volume :: "file_system \<Rightarrow> string option \<Rightarrow> string \<times> string \<Rightarrow> validation_issue list" where
  "validate_volume fs config_dir e =
     (let (name, path) = e;
          base = json_path_key ''$.spec.volumes'' name
      in emit (\<not> valid_volume_name name)
           (semantic base (''volume name must be 1-36 chars [A-Za-z0-9][A-Za-z0-9_-]* and must not be reserved tag ''
              @ debug_str VIRTIOFS_DEVICE_TAG))
         @ (if trim path = [] then [semantic base ''volume path must not be empty'']
            else case resolve_volume_path path config_dir of
                   None \<Rightarrow> []
                 | Some candidate \<Rightarrow>
                     emit (\<not> fs_is_dir fs candidate)
                       (semantic base (''volume path '' @ debug_str candidate @ '' is not an existing directory''))))"

definition validate_volume_keys ::
    "file_system \<Rightarrow> string option \<Rightarrow> (string, string) bmap \<Rightarrow> validation_issue list" where
  "validate_volume_keys fs config_dir volumes = concat (map (validate_volume fs config_dir) volumes)"

section \<open>Roles, mounts, containers, logs\<close>

definition ALLOWED_VM_ROLES :: "string list" where
  "ALLOWED_VM_ROLES = [''router'', ''docker'']"

definition validate_roles :: "string \<Rightarrow> vm_config \<Rightarrow> validation_issue list" where
  "validate_roles vm_base vm =
     concat (map (\<lambda>(role_index, role). emit (role \<notin> set ALLOWED_VM_ROLES)
       (semantic (at_index (vm_base @ ''.roles'') role_index)
          (''unsupported VM role '' @ debug_str role @ ''; allowed: router, docker'')))
       (enumerate 0 (vm_roles vm)))"

definition validate_mount ::
    "string \<Rightarrow> (string, string) bmap \<Rightarrow> string \<Rightarrow> nat \<Rightarrow> string set \<times> string set \<Rightarrow> vm_mount
     \<Rightarrow> validation_issue list \<times> string set \<times> string set" where
  "validate_mount vm_name volumes vm_base index state mount =
     (let (sources, targets) = state;
          base = at_index (vm_base @ ''.mounts'') index;
          known = bm_contains volumes (mnt_source mount);
          absolute = (starts_with (mnt_target mount) ''/'' \<and> 2 \<le> length (mnt_target mount))
      in ((if \<not> known then
             [semantic (base @ ''.source'') (''mount source '' @ debug_str (mnt_source mount)
                @ '' references unknown volume (VM '' @ vm_name @ '')'')]
           else emit (mnt_source mount \<in> sources)
             (semantic (base @ ''.source'') (''duplicate mount source '' @ debug_str (mnt_source mount))))
          @ (if \<not> absolute then
               [semantic (base @ ''.target'') ''mount target must be an absolute path (not /)'']
             else emit (mnt_target mount \<in> targets)
               (semantic (base @ ''.target'') (''duplicate mount target '' @ debug_str (mnt_target mount)))),
          if known then insert (mnt_source mount) sources else sources,
          if absolute then insert (mnt_target mount) targets else targets))"

definition validate_vm_mounts ::
    "string \<Rightarrow> vm_mount list \<Rightarrow> (string, string) bmap \<Rightarrow> string \<Rightarrow> validation_issue list" where
  "validate_vm_mounts vm_name mounts volumes vm_base =
     fst (run_loop (validate_mount vm_name volumes vm_base) 0 ({}, {}) mounts)"

definition error_issue :: "string \<Rightarrow> (unit, string) result \<Rightarrow> validation_issue list" where
  "error_issue path r = (case r of Inl message \<Rightarrow> [semantic path message] | Inr _ \<Rightarrow> [])"

definition validate_container ::
    "string option \<Rightarrow> string \<Rightarrow> string \<times> container_config \<Rightarrow> validation_issue list" where
  "validate_container config_dir vm_base e =
     (let (name, container) = e;
          base = json_path_key (vm_base @ ''.containers'') name
      in emit (\<not> valid_container_name name)
           (semantic base ''container name must be 1-63 ASCII characters: alphanumeric, underscore, dot, or dash'')
         @ emit (\<not> valid_dns_label name)
           (semantic base ''container DNS name must be lowercase a-z, 0-9, hyphen; never svc'')
         @ emit (trim (ct_image container) = [])
           (semantic (base @ ''.image'') ''container image must not be empty'')
         @ concat (map (\<lambda>(index, publish).
             error_issue (at_index (base @ ''.ports'') index) (validate_container_publish publish))
             (enumerate 0 (ct_ports container)))
         @ concat (map (\<lambda>(index, volume).
             error_issue (at_index (base @ ''.volumes'') index) (validate_container_volume volume config_dir))
             (enumerate 0 (ct_volumes container)))
         @ (case ct_restart container of
              None \<Rightarrow> []
            | Some restart \<Rightarrow>
                emit (\<not> valid_restart_policy restart)
                  (semantic (base @ ''.restart'') (''unsupported restart policy '' @ debug_str restart
                     @ ''; allowed: no, always, on-failure, unless-stopped''))))"

definition validate_compose_file ::
    "file_system \<Rightarrow> string option \<Rightarrow> string \<Rightarrow> nat \<times> string \<Rightarrow> validation_issue list" where
  "validate_compose_file fs config_dir vm_base e =
     (let (index, compose_file) = e;
          path = at_index (vm_base @ ''.composeFiles'') index
      in if trim compose_file = [] then [semantic path ''compose file path must not be empty'']
         else case resolve_volume_path compose_file config_dir of
                None \<Rightarrow> []
              | Some resolved \<Rightarrow>
                  emit (\<not> fs_is_file fs resolved) (semantic path (''compose file not found: '' @ resolved)))"

definition validate_vm_containers ::
    "file_system \<Rightarrow> string option \<Rightarrow> string \<Rightarrow> vm_config \<Rightarrow> string \<Rightarrow> validation_issue list" where
  "validate_vm_containers fs config_dir vm_name vm vm_base =
     (if \<not> has_role ''docker'' vm then
        emit (vm_compose_files vm \<noteq> [])
          (semantic (vm_base @ ''.composeFiles'')
             (''composeFiles requires roles to include docker (VM '' @ vm_name @ '')''))
        @ emit (vm_containers vm \<noteq> [])
          (semantic (vm_base @ ''.containers'')
             (''containers requires roles to include docker (VM '' @ vm_name @ '')''))
      else
        concat (map (validate_compose_file fs config_dir vm_base) (enumerate 0 (vm_compose_files vm)))
        @ concat (map (validate_container config_dir vm_base) (vm_containers vm)))"

definition validate_journald_unit ::
    "string \<Rightarrow> nat \<Rightarrow> string set \<Rightarrow> string \<Rightarrow> validation_issue list \<times> string set" where
  "validate_journald_unit vm_base index seen unit =
     (let path = at_index (vm_base @ ''.logs.journald'') index
      in (emit (\<not> valid_systemd_unit unit)
            (semantic path (''journald unit must be 1-256 chars: alphanumeric start, then letters, digits, @._-''
               @ [CHR 0x5C] @ '', with a type suffix (e.g. .service)''))
          @ emit (unit \<in> seen) (semantic path (''duplicate journald unit '' @ debug_str unit)),
          insert unit seen))"

definition validate_vm_logs :: "string \<Rightarrow> vm_logs_config \<Rightarrow> validation_issue list" where
  "validate_vm_logs vm_base logs = fst (run_loop (validate_journald_unit vm_base) 0 {} (logs_journald logs))"

definition attached_to_docker :: "environment \<Rightarrow> vm_config \<Rightarrow> bool" where
  "attached_to_docker env vm \<longleftrightarrow> list_ex (\<lambda>a. is_docker_network env (att_name a)) (vm_networks vm)"

text \<open>Container DNS, \<open>cpus\<close>, \<open>memory\<close>.\<close>

definition validate_container_dns :: "environment \<Rightarrow> string \<Rightarrow> vm_config \<Rightarrow> validation_issue list" where
  "validate_container_dns env vm_base vm =
     emit ((vm_compose_files vm \<noteq> [] \<or> vm_containers vm \<noteq> []) \<and> \<not> attached_to_docker env vm)
       (semantic (vm_base @ ''.networks'') ''container DNS requires an attached backend: docker network'')"

definition validate_size :: "string \<Rightarrow> vm_config \<Rightarrow> validation_issue list" where
  "validate_size vm_base vm =
     emit (vm_cpus vm = Some 0) (semantic (vm_base @ ''.cpus'') ''cpus must be greater than zero'')
     @ (case vm_memory vm of
          None \<Rightarrow> []
        | Some memory \<Rightarrow>
            (case parse_memory_mib memory of
               Inl message \<Rightarrow> [semantic (vm_base @ ''.memory'') message]
             | Inr _ \<Rightarrow> []))"

section \<open>Attachments\<close>

type_synonym assigned_ips = "(string \<times> ipv4, string \<times> nat) bmap"

record attach_state =
  as_names :: "string set"
  as_has_vmnet :: bool
  as_ips :: assigned_ips

definition host_offset :: "'n ipnet_lib \<Rightarrow> 'n \<Rightarrow> ipv4 \<Rightarrow> u32" where
  "host_offset L cidr ip = ip - net_network L cidr"

text \<open>The last arm of the match: the address is assigned.\<close>

definition assign_ip ::
    "'n ipnet_lib \<Rightarrow> environment \<Rightarrow> string \<Rightarrow> string \<Rightarrow> nat \<Rightarrow> vm_network \<Rightarrow> 'n \<Rightarrow> ipv4 \<Rightarrow> assigned_ips
     \<Rightarrow> validation_issue list \<times> assigned_ips" where
  "assign_ip L env vm_name base index att cidr ip ips =
     (emit (is_docker_network env (att_name att) \<and> host_offset L cidr ip \<noteq> 2)
        (semantic (base @ ''.ip'') (''backend docker network '' @ debug_str (att_name att)
           @ '' requires router IP .2, got '' @ show_ipv4 ip))
      @ (case bm_get ips (att_name att, ip) of
           None \<Rightarrow> []
         | Some (other_vm, other_index) \<Rightarrow>
             [semantic (base @ ''.ip'') (''IP '' @ show_ipv4 ip @ '' collides with ''
                @ json_path_key ''$.spec.vms'' other_vm @ ''.networks['' @ show_nat other_index @ ''].ip'')])
      @ emit (case bm_get (env_networks env) (att_name att) of Some net \<Rightarrow> net_dhcp net | None \<Rightarrow> False)
        (semantic (base @ ''.ip'') (''static IP '' @ show_ipv4 ip
           @ '' collides with DHCP enabled on network '' @ debug_str (att_name att))),
      bm_insert (att_name att, ip) (vm_name, index) ips)"

definition validate_ip ::
    "'n ipnet_lib \<Rightarrow> environment \<Rightarrow> string \<Rightarrow> string \<Rightarrow> nat \<Rightarrow> vm_network \<Rightarrow> 'n \<Rightarrow> assigned_ips
     \<Rightarrow> validation_issue list \<times> assigned_ips" where
  "validate_ip L env vm_name base index att cidr ips =
     (case parse_ipv4 (att_ip att) of
        None \<Rightarrow> ([semantic (base @ ''.ip'') ''invalid IPv4 address: invalid IPv4 address syntax''], ips)
      | Some ip \<Rightarrow>
          if \<not> net_contains L cidr ip then
            ([semantic (base @ ''.ip'') (''IP '' @ show_ipv4 ip @ '' is not in CIDR '' @ net_display L cidr)], ips)
          else if ip = net_network L cidr \<or> ip = net_broadcast L cidr then
            ([semantic (base @ ''.ip'') (''IP '' @ show_ipv4 ip
                @ '' is a reserved network/broadcast address in '' @ net_display L cidr)], ips)
          else if host_offset L cidr ip \<le> 1 then
            ([semantic (base @ ''.ip'') (''IP '' @ show_ipv4 ip
                @ '' is reserved for gateway/DNS (.0) or future use (.1)'')], ips)
          else assign_ip L env vm_name base index att cidr ip ips)"

definition validate_attachment ::
    "'n ipnet_lib \<Rightarrow> environment \<Rightarrow> (string, 'n) bmap \<Rightarrow> string \<Rightarrow> string \<Rightarrow> nat \<Rightarrow> attach_state
     \<Rightarrow> vm_network \<Rightarrow> validation_issue list \<times> attach_state" where
  "validate_attachment L env table vm_name vm_base index st att =
     (let base = at_index (vm_base @ ''.networks'') index;
          duplicate = emit (att_name att \<in> as_names st)
            (semantic (base @ ''.name'') (''VM has duplicate attachment to '' @ debug_str (att_name att)));
          st' = st\<lparr>as_names := insert (att_name att) (as_names st)\<rparr>
      in case bm_get table (att_name att) of
           None \<Rightarrow>
             (duplicate @ [semantic (base @ ''.name'') (''unknown network '' @ debug_str (att_name att))], st')
         | Some cidr \<Rightarrow>
             (let (ip_issues, ips) = validate_ip L env vm_name base index att cidr (as_ips st)
              in (duplicate @ ip_issues,
                  st'\<lparr>as_has_vmnet := as_has_vmnet st \<or> \<not> is_docker_network env (att_name att), as_ips := ips\<rparr>)))"

definition validate_attachments ::
    "'n ipnet_lib \<Rightarrow> environment \<Rightarrow> (string, 'n) bmap \<Rightarrow> string \<Rightarrow> string \<Rightarrow> vm_config \<Rightarrow> assigned_ips
     \<Rightarrow> validation_issue list \<times> attach_state" where
  "validate_attachments L env table vm_name vm_base vm ips =
     run_loop (validate_attachment L env table vm_name vm_base) 0
       \<lparr>as_names = {}, as_has_vmnet = False, as_ips = ips\<rparr> (vm_networks vm)"

definition validate_docker_attachment :: "environment \<Rightarrow> string \<Rightarrow> vm_config \<Rightarrow> bool \<Rightarrow> validation_issue list" where
  "validate_docker_attachment env vm_base vm has_vmnet =
     (if attached_to_docker env vm then
        emit (\<not> has_vmnet)
          (semantic (vm_base @ ''.networks'') ''VM attached to a backend docker network also needs a vmnet attachment'')
        @ emit (\<not> has_role ''docker'' vm \<or> \<not> has_role ''router'' vm)
          (semantic (vm_base @ ''.roles'') ''VM attached to a backend docker network requires roles [docker, router]'')
      else [])"

section \<open>Dependencies and the loop over the VMs\<close>

definition validate_dependency ::
    "environment \<Rightarrow> string \<Rightarrow> string \<Rightarrow> nat \<Rightarrow> string set \<Rightarrow> string \<Rightarrow> validation_issue list \<times> string set" where
  "validate_dependency env vm_name vm_base index dependencies dependency =
     (let path = at_index (vm_base @ ''.dependsOn'') index
      in if dependency = vm_name then ([semantic path ''VM cannot depend on itself''], dependencies)
         else if \<not> bm_contains (env_vms env) dependency then
           ([semantic path (''unknown VM dependency '' @ debug_str dependency)], dependencies)
         else (emit (dependency \<in> dependencies)
                 (semantic path (''duplicate VM dependency '' @ debug_str dependency)),
               insert dependency dependencies))"

definition validate_depends_on :: "environment \<Rightarrow> string \<Rightarrow> string \<Rightarrow> vm_config \<Rightarrow> validation_issue list" where
  "validate_depends_on env vm_name vm_base vm =
     fst (run_loop (validate_dependency env vm_name vm_base) 0 {} (vm_depends_on vm))"

definition validate_vm ::
    "'n ipnet_lib \<Rightarrow> file_system \<Rightarrow> string option \<Rightarrow> environment \<Rightarrow> (string, 'n) bmap \<Rightarrow> nat
     \<Rightarrow> host_binds \<times> assigned_ips \<Rightarrow> string \<times> vm_config
     \<Rightarrow> validation_issue list \<times> host_binds \<times> assigned_ips" where
  "validate_vm L fs config_dir env table vm_index state e =
     (let (vm_name, vm) = e;
          (host_binds, ips) = state;
          vm_base = json_path_key ''$.spec.vms'' vm_name;
          (port_issues, host_binds') =
            validate_port_list (vm_ports vm) (vm_base @ ''.ports'') (Some vm_name) (env_vms env) host_binds;
          (attach_issues, st) = validate_attachments L env table vm_name vm_base vm ips
      in (emit (\<not> bm_contains (env_images env) (vm_from vm))
            (semantic (vm_base @ ''.from'') (''unknown image '' @ debug_str (vm_from vm)))
          @ validate_roles vm_base vm
          @ port_issues
          @ validate_vm_mounts vm_name (vm_mounts vm) (env_volumes env) vm_base
          @ validate_vm_containers fs config_dir vm_name vm vm_base
          @ (case vm_logs vm of Some logs \<Rightarrow> validate_vm_logs vm_base logs | None \<Rightarrow> [])
          @ validate_container_dns env vm_base vm
          @ validate_size vm_base vm
          @ attach_issues
          @ validate_docker_attachment env vm_base vm (as_has_vmnet st)
          @ validate_depends_on env vm_name vm_base vm,
          host_binds', as_ips st))"

definition validate_docker_owner :: "environment \<Rightarrow> string \<times> network_config \<Rightarrow> validation_issue list" where
  "validate_docker_owner env e =
     (let (name, network) = e
      in if net_backend network \<noteq> Docker then []
         else
           let owners = map fst (filter (\<lambda>(vm_name, vm). attached_to name vm) (env_vms env))
           in emit (length owners \<noteq> 1)
                (semantic (json_path_key ''$.spec.networks'' name @ ''.backend'')
                   (''backend docker network '' @ debug_str name
                    @ '' requires exactly one attached VM, found '' @ show_nat (length owners))))"

definition validate_docker_owners :: "environment \<Rightarrow> validation_issue list" where
  "validate_docker_owners env = concat (map (validate_docker_owner env) (env_networks env))"

definition validate_vms ::
    "'n ipnet_lib \<Rightarrow> file_system \<Rightarrow> string option \<Rightarrow> environment \<Rightarrow> (string, 'n) bmap \<Rightarrow> validation_issue list" where
  "validate_vms L fs config_dir env table =
     (let (stack_issues, host_binds) =
            validate_port_list (sp_ports (env_spec env)) ''$.spec.ports'' None (env_vms env) [];
          (vm_issues, state) = run_loop (validate_vm L fs config_dir env table) 0 (host_binds, []) (env_vms env)
      in stack_issues @ vm_issues @ validate_docker_owners env @ detect_dependency_cycles (env_vms env))"

lemmas validate_vm_defs [exec_simps] = validate_volume_def validate_volume_keys_def ALLOWED_VM_ROLES_def
  validate_roles_def validate_mount_def validate_vm_mounts_def error_issue_def validate_container_def
  validate_compose_file_def validate_vm_containers_def validate_journald_unit_def validate_vm_logs_def
  attached_to_docker_def validate_container_dns_def validate_size_def host_offset_def assign_ip_def
  validate_ip_def validate_attachment_def validate_attachments_def validate_docker_attachment_def
  validate_dependency_def validate_depends_on_def validate_vm_def validate_docker_owner_def
  validate_docker_owners_def validate_vms_def

section \<open>What the passes accept\<close>

definition volume_ok :: "file_system \<Rightarrow> string option \<Rightarrow> string \<times> string \<Rightarrow> bool" where
  "volume_ok fs config_dir e \<longleftrightarrow>
     valid_volume_name (fst e) \<and> trim (snd e) \<noteq> []
     \<and> (\<forall>dir. resolve_volume_path (snd e) config_dir = Some dir \<longrightarrow> fs_is_dir fs dir)"

definition mounts_ok :: "(string, string) bmap \<Rightarrow> vm_mount list \<Rightarrow> bool" where
  "mounts_ok volumes mounts \<longleftrightarrow>
     distinct (map mnt_source mounts) \<and> distinct (map mnt_target mounts)
     \<and> (\<forall>m \<in> set mounts. bm_contains volumes (mnt_source m)
          \<and> starts_with (mnt_target m) ''/'' \<and> 2 \<le> length (mnt_target m))"

definition logs_ok :: "vm_logs_config \<Rightarrow> bool" where
  "logs_ok logs \<longleftrightarrow> distinct (logs_journald logs) \<and> (\<forall>u \<in> set (logs_journald logs). valid_systemd_unit u)"

definition size_ok :: "vm_config \<Rightarrow> bool" where
  "size_ok vm \<longleftrightarrow> vm_cpus vm \<noteq> Some 0 \<and> (\<forall>t. vm_memory vm = Some t \<longrightarrow> is_ok (parse_memory_mib t))"

definition dependencies_ok :: "environment \<Rightarrow> string \<times> vm_config \<Rightarrow> bool" where
  "dependencies_ok env e \<longleftrightarrow>
     distinct (vm_depends_on (snd e)) \<and> fst e \<notin> set (vm_depends_on (snd e))
     \<and> (\<forall>d \<in> set (vm_depends_on (snd e)). bm_contains (env_vms env) d)"

definition container_ok :: "string option \<Rightarrow> string \<times> container_config \<Rightarrow> bool" where
  "container_ok config_dir e \<longleftrightarrow>
     valid_container_name (fst e) \<and> valid_dns_label (fst e) \<and> trim (ct_image (snd e)) \<noteq> []
     \<and> (\<forall>p \<in> set (ct_ports (snd e)). is_ok (validate_container_publish p))
     \<and> (\<forall>v \<in> set (ct_volumes (snd e)). is_ok (validate_container_volume v config_dir))
     \<and> (\<forall>r. ct_restart (snd e) = Some r \<longrightarrow> valid_restart_policy r)"

definition containers_ok :: "file_system \<Rightarrow> string option \<Rightarrow> vm_config \<Rightarrow> bool" where
  "containers_ok fs config_dir vm \<longleftrightarrow>
     (if has_role ''docker'' vm then
        (\<forall>f \<in> set (vm_compose_files vm). trim f \<noteq> []
           \<and> (\<forall>r. resolve_volume_path f config_dir = Some r \<longrightarrow> fs_is_file fs r))
        \<and> (\<forall>c \<in> set (vm_containers vm). container_ok config_dir c)
      else vm_compose_files vm = [] \<and> vm_containers vm = [])"

definition docker_attachment_ok :: "environment \<Rightarrow> vm_config \<Rightarrow> bool" where
  "docker_attachment_ok env vm \<longleftrightarrow>
     (attached_to_docker env vm \<longrightarrow>
        (\<exists>a \<in> set (vm_networks vm). \<not> is_docker_network env (att_name a))
        \<and> has_role ''docker'' vm \<and> has_role ''router'' vm)
     \<and> (vm_compose_files vm \<noteq> [] \<or> vm_containers vm \<noteq> [] \<longrightarrow> attached_to_docker env vm)"

definition address_ok :: "'n ipnet_lib \<Rightarrow> environment \<Rightarrow> string \<Rightarrow> 'n \<Rightarrow> ipv4 \<Rightarrow> bool" where
  "address_ok L env net cidr ip \<longleftrightarrow>
     net_contains L cidr ip \<and> ip \<noteq> net_network L cidr \<and> ip \<noteq> net_broadcast L cidr
     \<and> 1 < host_offset L cidr ip
     \<and> (is_docker_network env net \<longrightarrow> host_offset L cidr ip = 2)
     \<and> (\<forall>network. bm_get (env_networks env) net = Some network \<longrightarrow> \<not> net_dhcp network)"

definition attachment_ok :: "'n ipnet_lib \<Rightarrow> environment \<Rightarrow> (string, 'n) bmap \<Rightarrow> vm_network \<Rightarrow> bool" where
  "attachment_ok L env table att \<longleftrightarrow>
     (\<exists>cidr ip. bm_get table (att_name att) = Some cidr \<and> parse_ipv4 (att_ip att) = Some ip
        \<and> address_ok L env (att_name att) cidr ip)"

text \<open>The network and address an attachment occupies.\<close>

definition att_key :: "vm_network \<Rightarrow> string \<times> ipv4" where
  "att_key att = (att_name att, case parse_ipv4 (att_ip att) of Some ip \<Rightarrow> ip | None \<Rightarrow> 0)"

definition vm_ok ::
    "'n ipnet_lib \<Rightarrow> file_system \<Rightarrow> string option \<Rightarrow> environment \<Rightarrow> (string, 'n) bmap
     \<Rightarrow> string \<times> vm_config \<Rightarrow> bool" where
  "vm_ok L fs config_dir env table e \<longleftrightarrow>
     bm_contains (env_images env) (vm_from (snd e))
     \<and> set (vm_roles (snd e)) \<subseteq> set ALLOWED_VM_ROLES
     \<and> mounts_ok (env_volumes env) (vm_mounts (snd e))
     \<and> containers_ok fs config_dir (snd e)
     \<and> (\<forall>logs. vm_logs (snd e) = Some logs \<longrightarrow> logs_ok logs)
     \<and> size_ok (snd e)
     \<and> distinct (map att_name (vm_networks (snd e)))
     \<and> (\<forall>att \<in> set (vm_networks (snd e)). attachment_ok L env table att)
     \<and> docker_attachment_ok env (snd e)
     \<and> dependencies_ok env e"

section \<open>The passes of one VM\<close>

lemma validate_volume_Nil: "validate_volume fs dir e = [] \<longleftrightarrow> volume_ok fs dir e"
  by (auto simp: validate_volume_def volume_ok_def split_beta Let_def split: option.splits)

lemma validate_volume_keys_Nil [pass_simps]:
  "validate_volume_keys fs dir volumes = [] \<longleftrightarrow> (\<forall>e \<in> set volumes. volume_ok fs dir e)"
  by (simp add: validate_volume_keys_def validate_volume_Nil)

lemma validate_roles_Nil [pass_simps]: "validate_roles base vm = [] \<longleftrightarrow> set (vm_roles vm) \<subseteq> set ALLOWED_VM_ROLES"
  unfolding validate_roles_def by (subst ball_pass [where ok = "\<lambda>r. r \<in> set ALLOWED_VM_ROLES"]) auto

lemma validate_mounts_loop:
  "fst (run_loop (validate_mount vm_name volumes base) i (ss, ts) ms) = [] \<longleftrightarrow>
     mounts_ok volumes ms \<and> set (map mnt_source ms) \<inter> ss = {} \<and> set (map mnt_target ms) \<inter> ts = {}"
proof (induction ms arbitrary: i ss ts)
  case Nil
  then show ?case by (simp add: mounts_ok_def)
next
  case (Cons m ms)
  let ?known = "bm_contains volumes (mnt_source m)"
  let ?absolute = "starts_with (mnt_target m) ''/'' \<and> 2 \<le> length (mnt_target m)"
  have one: "fst (validate_mount vm_name volumes base i (ss, ts) m) = [] \<longleftrightarrow>
      ?known \<and> ?absolute \<and> mnt_source m \<notin> ss \<and> mnt_target m \<notin> ts"
    by (auto simp: validate_mount_def Let_def)
  have state: "snd (validate_mount vm_name volumes base i (ss, ts) m) =
      (insert (mnt_source m) ss, insert (mnt_target m) ts)" if "?known" "?absolute"
    using that by (simp add: validate_mount_def Let_def)
  show ?case
  proof (cases "?known \<and> ?absolute")
    case True
    then show ?thesis unfolding run_loop_Cons_Nil one
      by (simp add: state Cons.IH) (auto simp: mounts_ok_def)
  next
    case False
    then show ?thesis unfolding run_loop_Cons_Nil one by (auto simp: mounts_ok_def)
  qed
qed

lemma validate_vm_mounts_Nil [pass_simps]:
  "validate_vm_mounts vm_name mounts volumes base = [] \<longleftrightarrow> mounts_ok volumes mounts"
  by (simp add: validate_vm_mounts_def validate_mounts_loop)

lemma error_issue_Nil [pass_simps]: "error_issue path r = [] \<longleftrightarrow> is_ok r"
  by (simp add: error_issue_def split: sum.splits)

lemma validate_container_Nil: "validate_container dir base e = [] \<longleftrightarrow> container_ok dir e"
proof -
  have pass: "concat (map (\<lambda>(i, x). error_issue (p i) (f x)) (enumerate 0 xs)) = [] \<longleftrightarrow> (\<forall>x \<in> set xs. is_ok (f x))"
    for p and f :: "string \<Rightarrow> (unit, string) result" and xs
    by (rule ball_pass) (simp add: error_issue_Nil)
  show ?thesis
    by (cases "ct_restart (snd e)")
      (simp_all add: validate_container_def container_ok_def split_beta Let_def pass
        conj_assoc del: concat_map_Nil concat_eq_Nil_conv)
qed

lemma validate_compose_Nil:
  "validate_compose_file fs dir base e = [] \<longleftrightarrow>
     trim (snd e) \<noteq> [] \<and> (\<forall>r. resolve_volume_path (snd e) dir = Some r \<longrightarrow> fs_is_file fs r)"
  by (auto simp: validate_compose_file_def split_beta Let_def split: option.splits)

lemma validate_vm_containers_Nil [pass_simps]:
  "validate_vm_containers fs dir vm_name vm base = [] \<longleftrightarrow> containers_ok fs dir vm"
proof -
  have "(\<forall>e \<in> set (enumerate 0 xs). validate_compose_file fs dir base e = []) \<longleftrightarrow>
      (\<forall>f \<in> set xs. trim f \<noteq> [] \<and> (\<forall>r. resolve_volume_path f dir = Some r \<longrightarrow> fs_is_file fs r))" for xs
    using ball_enumerate_snd [of 0 xs "\<lambda>f. trim f \<noteq> [] \<and> (\<forall>r. resolve_volume_path f dir = Some r \<longrightarrow> fs_is_file fs r)"]
    by (simp add: validate_compose_Nil)
  then show ?thesis
    by (simp add: validate_vm_containers_def containers_ok_def validate_container_Nil
        del: concat_eq_Nil_conv)
qed

lemma validate_vm_logs_Nil [pass_simps]: "validate_vm_logs base logs = [] \<longleftrightarrow> logs_ok logs"
proof -
  have "fst (validate_journald_unit base i seen u) = [] \<longleftrightarrow> u \<notin> seen \<and> valid_systemd_unit u" for i seen u
    by (auto simp: validate_journald_unit_def Let_def)
  moreover have "snd (validate_journald_unit base i seen u) = insert u seen" for i seen u
    by (simp add: validate_journald_unit_def Let_def)
  ultimately show ?thesis
    unfolding validate_vm_logs_def logs_ok_def
    by (subst run_loop_keys_iff [where key = "\<lambda>u. u" and ok = valid_systemd_unit]) auto
qed

lemma validate_size_Nil [pass_simps]: "validate_size base vm = [] \<longleftrightarrow> size_ok vm"
  by (auto simp: validate_size_def size_ok_def split: option.splits sum.splits)

lemma validate_dependencies_loop:
  "fst (run_loop (validate_dependency env vm_name base) i seen ds) = [] \<longleftrightarrow>
     distinct ds \<and> set ds \<inter> seen = {} \<and> vm_name \<notin> set ds \<and> (\<forall>d \<in> set ds. bm_contains (env_vms env) d)"
proof (induction ds arbitrary: i seen)
  case Nil
  then show ?case by simp
next
  case (Cons d ds)
  show ?case
    unfolding run_loop_Cons_Nil Cons.IH by (auto simp: validate_dependency_def Let_def split: if_splits)
qed

lemma validate_depends_on_Nil [pass_simps]:
  "validate_depends_on env vm_name base vm = [] \<longleftrightarrow> dependencies_ok env (vm_name, vm)"
  by (auto simp: validate_depends_on_def validate_dependencies_loop dependencies_ok_def)

lemma validate_docker_Nil:
  assumes "has_vmnet \<longleftrightarrow> (\<exists>a \<in> set (vm_networks vm). \<not> is_docker_network env (att_name a))"
  shows "validate_container_dns env base vm @ validate_docker_attachment env base vm has_vmnet = []
    \<longleftrightarrow> docker_attachment_ok env vm"
  using assms by (auto simp: validate_container_dns_def validate_docker_attachment_def docker_attachment_ok_def)

section \<open>Attachments\<close>

lemma validate_ip_Nil:
  "fst (validate_ip L env vm_name base i att cidr ips) = [] \<longleftrightarrow>
     (\<exists>ip. parse_ipv4 (att_ip att) = Some ip \<and> address_ok L env (att_name att) cidr ip)
     \<and> att_key att \<notin> dom (bm_get ips)"
  by (auto simp: validate_ip_def assign_ip_def address_ok_def att_key_def not_less not_le Let_def
      split: option.splits)

lemma validate_ip_table:
  assumes "fst (validate_ip L env vm_name base i att cidr ips) = []"
  shows "snd (validate_ip L env vm_name base i att cidr ips) = bm_insert (att_key att) (vm_name, i) ips"
  using assms by (auto simp: validate_ip_def assign_ip_def att_key_def split: option.splits if_splits)

lemma validate_attachment_Nil:
  "fst (validate_attachment L env table vm_name base i st att) = [] \<longleftrightarrow>
     att_name att \<notin> as_names st \<and> attachment_ok L env table att \<and> att_key att \<notin> dom (bm_get (as_ips st))"
  by (auto simp: validate_attachment_def attachment_ok_def split_beta Let_def validate_ip_Nil split: option.splits)

lemma validate_attachment_state:
  assumes "fst (validate_attachment L env table vm_name base i st att) = []"
  shows "snd (validate_attachment L env table vm_name base i st att) =
    \<lparr>as_names = insert (att_name att) (as_names st),
     as_has_vmnet = as_has_vmnet st \<or> \<not> is_docker_network env (att_name att),
     as_ips = bm_insert (att_key att) (vm_name, i) (as_ips st)\<rparr>"
  using assms
  by (auto simp: validate_attachment_def split_beta Let_def validate_ip_table split: option.splits)

definition attachments_ok :: "'n ipnet_lib \<Rightarrow> environment \<Rightarrow> (string, 'n) bmap \<Rightarrow> vm_network list \<Rightarrow> bool" where
  "attachments_ok L env table atts \<longleftrightarrow>
     distinct (map att_name atts) \<and> (\<forall>att \<in> set atts. attachment_ok L env table att)"

lemma att_key_distinct: "distinct (map att_name atts) \<Longrightarrow> distinct (map att_key atts)"
  by (induction atts) (auto simp: att_key_def image_iff)

lemma validate_attachments_loop:
  "fst (run_loop (validate_attachment L env table vm_name base) i st atts) = [] \<longleftrightarrow>
     attachments_ok L env table atts \<and> set (map att_name atts) \<inter> as_names st = {}
     \<and> set (map att_key atts) \<inter> dom (bm_get (as_ips st)) = {}"
  (is "?silent i st atts \<longleftrightarrow> ?ok st atts")
proof (induction atts arbitrary: i st)
  case Nil
  then show ?case by (simp add: attachments_ok_def)
next
  case (Cons att atts)
  let ?one = "validate_attachment L env table vm_name base i st att"
  show ?case
  proof (cases "fst ?one = []")
    case True
    then show ?thesis
      unfolding run_loop_Cons_Nil Cons.IH validate_attachment_state [OF True]
      by (auto simp: validate_attachment_Nil attachments_ok_def bm_get_insert att_key_def)
  next
    case False
    then show ?thesis
      unfolding run_loop_Cons_Nil by (auto simp: validate_attachment_Nil attachments_ok_def)
  qed
qed

lemma validate_attachments_state:
  assumes "fst (run_loop (validate_attachment L env table vm_name base) i st atts) = []"
  defines "st' \<equiv> snd (run_loop (validate_attachment L env table vm_name base) i st atts)"
  shows "(as_has_vmnet st' \<longleftrightarrow> as_has_vmnet st \<or> (\<exists>a \<in> set atts. \<not> is_docker_network env (att_name a)))
    \<and> dom (bm_get (as_ips st')) = dom (bm_get (as_ips st)) \<union> set (map att_key atts)"
  using assms(1) unfolding st'_def
proof (induction atts arbitrary: i st)
  case Nil
  then show ?case by simp
next
  case (Cons att atts)
  then have one: "fst (validate_attachment L env table vm_name base i st att) = []"
    and rest: "fst (run_loop (validate_attachment L env table vm_name base) (Suc i)
      (snd (validate_attachment L env table vm_name base i st att)) atts) = []"
    by (simp_all only: run_loop_Cons_Nil)
  show ?case
    unfolding run_loop_snd using Cons.IH [OF rest]
    by (auto simp: validate_attachment_state [OF one] dom_bm_insert)
qed

section \<open>The loop over the VMs\<close>

definition vm_port_entries :: "string \<times> vm_config \<Rightarrow> (string option \<times> string) list" where
  "vm_port_entries e = map (Pair (Some (fst e))) (vm_ports (snd e))"

definition vm_att_keys :: "string \<times> vm_config \<Rightarrow> (string \<times> ipv4) list" where
  "vm_att_keys e = map att_key (vm_networks (snd e))"

lemma validate_port_list_accept:
  "case accept vms (dom (bm_get b)) (map (Pair d) entries) of
     None \<Rightarrow> fst (validate_port_list entries base d vms b) \<noteq> []
   | Some fs \<Rightarrow> fst (validate_port_list entries base d vms b) = []
       \<and> dom (bm_get (snd (validate_port_list entries base d vms b)))
           = dom (bm_get b) \<union> set (map forward_key fs)"
proof -
  obtain pushed b' acc where run: "run_loop (collect_port_entry base d vms) 0 (b, []) entries = (pushed, b', acc)"
    by (cases "run_loop (collect_port_entry base d vms) 0 (b, []) entries") auto
  then have "validate_port_list entries base d vms b = (pushed, b')"
    by (simp add: validate_port_list_def collect_port_list_def)
  with collect_port_list_accept [OF run] show ?thesis by (auto split: option.splits)
qed

lemma validate_vm_fst:
  "fst (validate_vm L fs dir env table i (b, ips) e) = [] \<longleftrightarrow>
     fst (validate_port_list (vm_ports (snd e)) (json_path_key ''$.spec.vms'' (fst e) @ ''.ports'')
       (Some (fst e)) (env_vms env) b) = []
     \<and> vm_ok L fs dir env table e
     \<and> set (vm_att_keys e) \<inter> dom (bm_get ips) = {}"
proof -
  let ?base = "json_path_key ''$.spec.vms'' (fst e)"
  let ?atts = "validate_attachments L env table (fst e) ?base (snd e) ips"
  have silent: "fst ?atts = [] \<longleftrightarrow> attachments_ok L env table (vm_networks (snd e))
      \<and> set (vm_att_keys e) \<inter> dom (bm_get ips) = {}"
    by (simp add: validate_attachments_def validate_attachments_loop vm_att_keys_def)
  have docker: "validate_container_dns env ?base (snd e) = []
      \<and> validate_docker_attachment env ?base (snd e) (as_has_vmnet (snd ?atts)) = []
      \<longleftrightarrow> docker_attachment_ok env (snd e)" if "fst ?atts = []"
  proof -
    have "as_has_vmnet (snd ?atts) \<longleftrightarrow> (\<exists>a \<in> set (vm_networks (snd e)). \<not> is_docker_network env (att_name a))"
      using validate_attachments_state [OF that [unfolded validate_attachments_def]]
      by (simp add: validate_attachments_def)
    from validate_docker_Nil [OF this, of ?base] show ?thesis by simp
  qed
  have logs: "(case vm_logs (snd e) of None \<Rightarrow> [] | Some logs \<Rightarrow> validate_vm_logs ?base logs) = []
      \<longleftrightarrow> (\<forall>logs. vm_logs (snd e) = Some logs \<longrightarrow> logs_ok logs)"
    by (simp add: validate_vm_logs_Nil split: option.splits)
  have all: "fst (validate_vm L fs dir env table i (b, ips) e) = [] \<longleftrightarrow>
      bm_contains (env_images env) (vm_from (snd e))
      \<and> set (vm_roles (snd e)) \<subseteq> set ALLOWED_VM_ROLES
      \<and> fst (validate_port_list (vm_ports (snd e)) (?base @ ''.ports'') (Some (fst e)) (env_vms env) b) = []
      \<and> mounts_ok (env_volumes env) (vm_mounts (snd e))
      \<and> containers_ok fs dir (snd e)
      \<and> (\<forall>logs. vm_logs (snd e) = Some logs \<longrightarrow> logs_ok logs)
      \<and> validate_container_dns env ?base (snd e) = [] \<and> size_ok (snd e)
      \<and> fst ?atts = []
      \<and> validate_docker_attachment env ?base (snd e) (as_has_vmnet (snd ?atts)) = []
      \<and> dependencies_ok env e"
    by (simp add: validate_vm_def split_beta Let_def validate_roles_Nil validate_vm_mounts_Nil
        validate_vm_containers_Nil logs validate_size_Nil validate_depends_on_Nil)
  show ?thesis
  proof (cases "fst ?atts = []")
    case True
    with docker [OF True] silent all show ?thesis by (auto simp: vm_ok_def attachments_ok_def)
  next
    case False
    with silent all show ?thesis by (auto simp: vm_ok_def attachments_ok_def)
  qed
qed

lemma validate_vm_state:
  assumes "fst (validate_vm L fs dir env table i (b, ips) e) = []"
  shows "\<exists>fs'. accept (env_vms env) (dom (bm_get b)) (vm_port_entries e) = Some fs'
    \<and> dom (bm_get (fst (snd (validate_vm L fs dir env table i (b, ips) e))))
        = dom (bm_get b) \<union> set (map forward_key fs')
    \<and> dom (bm_get (snd (snd (validate_vm L fs dir env table i (b, ips) e))))
        = dom (bm_get ips) \<union> set (vm_att_keys e)"
proof -
  let ?base = "json_path_key ''$.spec.vms'' (fst e)"
  let ?ports = "validate_port_list (vm_ports (snd e)) (?base @ ''.ports'') (Some (fst e)) (env_vms env) b"
  let ?atts = "validate_attachments L env table (fst e) ?base (snd e) ips"
  have state: "snd (validate_vm L fs dir env table i (b, ips) e) = (snd ?ports, as_ips (snd ?atts))"
    by (simp add: validate_vm_def split_beta Let_def)
  have "fst ?ports = []" and ok: "vm_ok L fs dir env table e" "set (vm_att_keys e) \<inter> dom (bm_get ips) = {}"
    using assms unfolding validate_vm_fst by blast+
  moreover have "fst ?atts = []"
    using ok by (simp add: validate_attachments_def validate_attachments_loop vm_att_keys_def
        attachments_ok_def vm_ok_def)
  note validate_attachments_state [OF this [unfolded validate_attachments_def]]
  ultimately show ?thesis
    using validate_port_list_accept [where vms = "env_vms env" and b = b and d = "Some (fst e)"
        and entries = "vm_ports (snd e)" and base = "?base @ ''.ports''"]
    unfolding state by (auto simp: validate_attachments_def vm_port_entries_def vm_att_keys_def split: option.splits)
qed

lemma validate_vms_loop:
  "fst (run_loop (validate_vm L fs dir env table) i (b, ips) es) = [] \<longleftrightarrow>
     (\<forall>e \<in> set es. vm_ok L fs dir env table e)
     \<and> accept (env_vms env) (dom (bm_get b)) (concat (map vm_port_entries es)) \<noteq> None
     \<and> distinct (concat (map vm_att_keys es)) \<and> set (concat (map vm_att_keys es)) \<inter> dom (bm_get ips) = {}"
proof (induction es arbitrary: i b ips)
  case Nil
  then show ?case by simp
next
  case (Cons e es)
  let ?one = "validate_vm L fs dir env table i (b, ips) e"
  show ?case
  proof (cases "fst ?one = []")
    case True
    obtain fs' where fs': "accept (env_vms env) (dom (bm_get b)) (vm_port_entries e) = Some fs'"
      "dom (bm_get (fst (snd ?one))) = dom (bm_get b) \<union> set (map forward_key fs')"
      "dom (bm_get (snd (snd ?one))) = dom (bm_get ips) \<union> set (vm_att_keys e)"
      using validate_vm_state [OF True] by blast
    have ok: "vm_ok L fs dir env table e" "set (vm_att_keys e) \<inter> dom (bm_get ips) = {}"
      using True unfolding validate_vm_fst by blast+
    then have "distinct (vm_att_keys e)"
      by (simp add: vm_ok_def vm_att_keys_def att_key_distinct)
    with True ok fs' show ?thesis
      unfolding run_loop_Cons_Nil
      using Cons.IH [of "Suc i" "fst (snd ?one)" "snd (snd ?one)"]
      by (auto simp: accept_append)
  next
    case False
    have "accept (env_vms env) (dom (bm_get b)) (concat (map vm_port_entries (e # es))) = None
        \<or> \<not> vm_ok L fs dir env table e \<or> set (vm_att_keys e) \<inter> dom (bm_get ips) \<noteq> {}"
      using False unfolding validate_vm_fst
      using validate_port_list_accept [where vms = "env_vms env" and b = b and d = "Some (fst e)"
          and entries = "vm_ports (snd e)" and base = "json_path_key ''$.spec.vms'' (fst e) @ ''.ports''"]
      by (auto simp: accept_append vm_port_entries_def split: option.splits)
    with False show ?thesis
      unfolding run_loop_Cons_Nil by auto
  qed
qed

section \<open>All VMs\<close>

definition docker_owned :: "environment \<Rightarrow> bool" where
  "docker_owned env \<longleftrightarrow>
     (\<forall>(name, network) \<in> set (env_networks env). net_backend network = Docker \<longrightarrow>
        length (filter (\<lambda>(vm_name, vm). attached_to name vm) (env_vms env)) = 1)"

lemma validate_docker_owners_Nil [pass_simps]: "validate_docker_owners env = [] \<longleftrightarrow> docker_owned env"
  unfolding validate_docker_owners_def validate_docker_owner_def docker_owned_def concat_map_Nil
  by (simp add: split_beta Let_def)

definition vms_ok ::
    "'n ipnet_lib \<Rightarrow> file_system \<Rightarrow> string option \<Rightarrow> environment \<Rightarrow> (string, 'n) bmap \<Rightarrow> bool" where
  "vms_ok L fs config_dir env table \<longleftrightarrow>
     (\<forall>e \<in> set (env_vms env). vm_ok L fs config_dir env table e)
     \<and> is_ok (collect_port_forwards env)
     \<and> distinct (concat (map vm_att_keys (env_vms env)))
     \<and> docker_owned env
     \<and> acyclic (dep_edges (env_vms env))"

lemma vm_port_entries_declared:
  "declared_ports env = map (Pair None) (sp_ports (env_spec env)) @ concat (map vm_port_entries (env_vms env))"
proof -
  have "vm_port_entries = (\<lambda>(name, vm). map (Pair (Some name)) (vm_ports vm))"
    by (simp add: fun_eq_iff vm_port_entries_def)
  then show ?thesis by (simp add: declared_ports_def)
qed

lemma detect_cycles_Nil [pass_simps]: "detect_dependency_cycles vms = [] \<longleftrightarrow> acyclic (dep_edges vms)"
  using detect_silent_acyclic detect_acyclic_silent by blast

lemma bm_get_Nil: "(A \<inter> dom (bm_get []) = {}) = True"
  by simp

lemma validate_vms_Nil: "validate_vms L fs dir env table = [] \<longleftrightarrow> vms_ok L fs dir env table"
proof -
  let ?ports = "validate_port_list (sp_ports (env_spec env)) ''$.spec.ports'' None (env_vms env) []"
  have ports: "fst ?ports = [] \<and> accept (env_vms env) (dom (bm_get (snd ?ports)))
        (concat (map vm_port_entries (env_vms env))) \<noteq> None
      \<longleftrightarrow> is_ok (collect_port_forwards env)"
    using validate_port_list_accept [where vms = "env_vms env" and b = "[]" and d = None
        and entries = "sp_ports (env_spec env)" and base = "''$.spec.ports''"]
    by (auto simp: is_ok_iff collect_port_forwards_accept vm_port_entries_declared accept_append split: option.splits)
  let ?loop = "run_loop (validate_vm L fs dir env table) 0 (snd ?ports, []) (env_vms env)"
  have loop: "fst ?loop = [] \<longleftrightarrow> (\<forall>e \<in> set (env_vms env). vm_ok L fs dir env table e)
      \<and> accept (env_vms env) (dom (bm_get (snd ?ports))) (concat (map vm_port_entries (env_vms env))) \<noteq> None
      \<and> distinct (concat (map vm_att_keys (env_vms env)))"
    unfolding validate_vms_loop bm_get_Nil by (simp only: simp_thms)
  have "validate_vms L fs dir env table = [] \<longleftrightarrow>
      fst ?ports = [] \<and> fst ?loop = [] \<and> docker_owned env \<and> acyclic (dep_edges (env_vms env))"
    by (simp add: validate_vms_def split_beta Let_def validate_docker_owners_Nil detect_cycles_Nil
        del: run_loop.simps)
  then show ?thesis
    unfolding loop vms_ok_def ports [symmetric] by argo
qed

end
