(* ===== verification/ValidateEdge.thy ===== *)
theory ValidateEdge
  imports Ports
begin

text \<open>
  The part of \<open>validate_references\<close> (\<open>config.rs\<close>) about the edge of a stack:
  \<open>validate_certs_ingress_oidc\<close> (ingress routes, the identity provider, the features VMs
  require) and \<open>validate_observability\<close> (probes and data sources). The loop over the ingress
  routes keeps the hosts seen and the hosts routed to the identity provider.

  The lemmas say what a silent pass guarantees: distinct hosts that route to VMs of the
  environment, an issuer that is the host of a route to the provider, distinct users.
\<close>

section \<open>Ingress\<close>

definition oidc_on :: "environment \<Rightarrow> bool" where
  "oidc_on env \<longleftrightarrow> (case sp_oidc (env_spec env) of Some oidc \<Rightarrow> oidc_enabled oidc | None \<Rightarrow> False)"

definition ingress_on :: "environment \<Rightarrow> bool" where
  "ingress_on env \<longleftrightarrow> (case sp_ingress (env_spec env) of Some ingress \<Rightarrow> ing_enabled ingress | None \<Rightarrow> False)"

definition validate_requires :: "environment \<Rightarrow> string \<Rightarrow> string list \<Rightarrow> validation_issue list" where
  "validate_requires env base requires =
     concat (map (\<lambda>(index, req).
       if req = ''oidc'' \<and> \<not> oidc_on env then
         [semantic (at_index (base @ ''.requires'') index) ''requires: [oidc] needs spec.oidc.enabled'']
       else emit (req \<noteq> ''oidc'' \<and> req \<noteq> ''guest-agent-v1'')
         (semantic (at_index (base @ ''.requires'') index)
            (''unsupported require '' @ debug_str req @ ''; allowed: oidc, guest-agent-v1'')))
       (enumerate 0 requires))"

definition validate_ingress_host ::
    "string \<Rightarrow> string set \<Rightarrow> ingress_route \<Rightarrow> validation_issue list \<times> string set" where
  "validate_ingress_host base hosts route =
     (if ir_host route = [] then
        ([semantic (base @ ''.host'') ''ingress route host must not be empty''], hosts)
      else if ends_with (ir_host route) ''.localhost'' then
        ([semantic (base @ ''.host'') ''ingress route host must not use *.localhost; use *.svc.{project}.vz.test (hostAliases publishes localhost separately)''], hosts)
      else
        (emit (ir_host route \<in> hosts)
           (semantic (base @ ''.host'') (''duplicate ingress host '' @ debug_str (ir_host route))),
         insert (ir_host route) hosts))"

definition validate_ingress_to ::
    "environment \<Rightarrow> string \<Rightarrow> string set \<Rightarrow> ingress_route \<Rightarrow> validation_issue list \<times> string set" where
  "validate_ingress_to env base oidc_hosts route =
     (case ingress_upstream_parse (ir_to route) of
        Inr (UpstreamVm name port) \<Rightarrow>
          (emit (\<not> bm_contains (env_vms env) name)
             (semantic (base @ ''.to'') (''ingress route references unknown VM '' @ debug_str name)), oidc_hosts)
      | Inr (UpstreamOidc port) \<Rightarrow>
          (emit (\<not> oidc_on env) (semantic (base @ ''.to'') ''ingress oidc upstream requires spec.oidc.enabled''),
           insert (ir_host route) oidc_hosts)
      | Inl message \<Rightarrow> ([semantic (base @ ''.to'') message], oidc_hosts))"

definition validate_ingress_route ::
    "environment \<Rightarrow> nat \<Rightarrow> string set \<times> string set \<Rightarrow> ingress_route
     \<Rightarrow> validation_issue list \<times> string set \<times> string set" where
  "validate_ingress_route env index state route =
     (let base = at_index ''$.spec.ingress.routes'' index;
          (host_issues, hosts) = validate_ingress_host base (fst state) route;
          (to_issues, oidc_hosts) = validate_ingress_to env base (snd state) route
      in (host_issues @ to_issues @ validate_requires env base (ir_requires route), hosts, oidc_hosts))"

text \<open>The ingress part; with the hosts that route to the identity provider.\<close>

definition validate_ingress :: "environment \<Rightarrow> validation_issue list \<times> string set" where
  "validate_ingress env =
     (case sp_ingress (env_spec env) of
        None \<Rightarrow> ([], {})
      | Some ingress \<Rightarrow>
          if \<not> ing_enabled ingress then ([], {})
          else
            let (route_issues, state) = run_loop (validate_ingress_route env) 0 ({}, {}) (ing_routes ingress)
            in (emit (ing_bind ingress \<noteq> ''127.0.0.1'')
                  (semantic ''$.spec.ingress.bind'' (''unsupported bind address '' @ debug_str (ing_bind ingress)
                     @ ''; v0.2 only allows 127.0.0.1''))
                @ emit (ing_http_port ingress = 0)
                  (semantic ''$.spec.ingress.httpPort'' ''httpPort must be in 1...65535'')
                @ emit (ing_https_port ingress = 0)
                  (semantic ''$.spec.ingress.httpsPort'' ''httpsPort must be in 1...65535'')
                @ emit (ing_routes ingress = [])
                  (semantic ''$.spec.ingress.routes'' ''ingress.enabled requires at least one route'')
                @ route_issues,
                snd state))"

section \<open>The identity provider\<close>

definition oidc_issuer_host :: "string \<Rightarrow> string option" where
  "oidc_issuer_host issuer =
     (case strip_prefix issuer ''https://'' of
        None \<Rightarrow> None
      | Some rest \<Rightarrow>
          (let host = hd (split_on CHR '':'' (hd (split_on CHR ''/'' rest)))
           in if host = [] then None else Some host))"

definition validate_oidc_uplink :: "oidc_uplink \<Rightarrow> string \<Rightarrow> validation_issue list" where
  "validate_oidc_uplink uplink base =
     (case up_issuer uplink of
        None \<Rightarrow> []
      | Some issuer \<Rightarrow>
          if issuer = [] then
            [semantic (base @ ''.issuer'') ''oidc.uplink.issuer must not be empty when set'']
          else emit (\<not> starts_with issuer ''https://'')
            (semantic (base @ ''.issuer'') ''oidc.uplink.issuer must be an https:// URL''))
     @ (case up_tenant uplink of
          None \<Rightarrow> []
        | Some tenant \<Rightarrow> emit (tenant = [])
            (semantic (base @ ''.tenant'') ''oidc.uplink.tenant must not be empty when set''))
     @ (case up_client_id uplink of
          None \<Rightarrow> []
        | Some client_id \<Rightarrow> emit (client_id = [])
            (semantic (base @ ''.clientID'') ''oidc.uplink.clientID must not be empty when set''))
     @ (case up_client_secret_file uplink of
          None \<Rightarrow> []
        | Some secret_file \<Rightarrow> emit (secret_file = [])
            (semantic (base @ ''.clientSecretFile'') ''oidc.uplink.clientSecretFile must not be empty when set''))"

definition validate_oidc_issuer :: "environment \<Rightarrow> string set \<Rightarrow> oidc_config \<Rightarrow> validation_issue list" where
  "validate_oidc_issuer env oidc_hosts oidc =
     (if oidc_issuer oidc = [] then [semantic ''$.spec.oidc.issuer'' ''oidc.issuer must not be empty'']
      else
        emit (contains_str (oidc_issuer oidc) ''.localhost'')
          (semantic ''$.spec.oidc.issuer'' ''oidc.issuer must never use *.localhost; use https://auth.svc.{project}.vz.test'')
        @ (case oidc_issuer_host (oidc_issuer oidc) of
             None \<Rightarrow> [semantic ''$.spec.oidc.issuer'' ''oidc.issuer must be an https:// URL'']
           | Some host \<Rightarrow>
               (let expected = ''auth.svc.'' @ sp_domain (env_spec env)
                in emit (ingress_on env \<and> host \<notin> oidc_hosts)
                     (semantic ''$.spec.oidc.issuer'' (''oidc.issuer host '' @ debug_str host
                        @ '' must match an ingress route with to: oidc:<port>''))
                   @ emit (host \<noteq> expected)
                     (semantic ''$.spec.oidc.issuer'' (''oidc.issuer host must be '' @ debug_str expected
                        @ '' (got '' @ debug_str host @ '')'')))))"

definition validate_oidc_user ::
    "nat \<Rightarrow> string set \<Rightarrow> oidc_simple_user \<Rightarrow> validation_issue list \<times> string set" where
  "validate_oidc_user index seen user =
     (let ubase = at_index ''$.spec.oidc.users'' index;
          blank = trim (user_username user) = []
      in ((if blank then [semantic (ubase @ ''.username'') ''oidc user username must not be empty'']
           else emit (user_username user \<in> seen)
             (semantic (ubase @ ''.username'') (''duplicate oidc user username '' @ debug_str (user_username user))))
          @ emit (trim (user_email user) = []) (semantic (ubase @ ''.email'') ''oidc user email must not be empty''),
          if blank then seen else insert (user_username user) seen))"

definition validate_oidc_mode :: "oidc_config \<Rightarrow> validation_issue list" where
  "validate_oidc_mode oidc =
     (case oidc_mode oidc of
        OidcSimple \<Rightarrow>
          emit (oidc_password_file oidc \<noteq> None)
            (semantic ''$.spec.oidc.passwordFile'' ''oidc.passwordFile is not allowed with mode: oidc-simple'')
          @ emit (oidc_uplink oidc \<noteq> None)
            (semantic ''$.spec.oidc.uplink'' ''oidc.uplink is not allowed with mode: oidc-simple'')
          @ (if oidc_users oidc = [] then
               [semantic ''$.spec.oidc.users'' ''oidc.users must list at least one user when mode: oidc-simple'']
             else fst (run_loop validate_oidc_user 0 {} (oidc_users oidc)))
      | Embedded \<Rightarrow>
          emit (oidc_users oidc \<noteq> [])
            (semantic ''$.spec.oidc.users'' ''oidc.users is only valid with mode: oidc-simple'')
          @ (case oidc_uplink oidc of
               None \<Rightarrow> []
             | Some uplink \<Rightarrow> validate_oidc_uplink uplink ''$.spec.oidc.uplink''))"

definition validate_oidc :: "environment \<Rightarrow> string set \<Rightarrow> validation_issue list" where
  "validate_oidc env oidc_hosts =
     (case sp_oidc (env_spec env) of
        None \<Rightarrow> []
      | Some oidc \<Rightarrow>
          if \<not> oidc_enabled oidc then []
          else
            validate_oidc_issuer env oidc_hosts oidc
            @ emit (\<not> starts_with (oidc_listen oidc) ''127.0.0.1:'')
              (semantic ''$.spec.oidc.listen'' (''oidc.listen must bind 127.0.0.1 (got ''
                 @ debug_str (oidc_listen oidc) @ '')''))
            @ validate_oidc_mode oidc)"

definition validate_certs_ingress_oidc :: "environment \<Rightarrow> validation_issue list" where
  "validate_certs_ingress_oidc env =
     (let (ingress_issues, oidc_hosts) = validate_ingress env
      in ingress_issues
         @ validate_oidc env oidc_hosts
         @ concat (map (\<lambda>(vm_name, vm).
             validate_requires env (json_path_key ''$.spec.vms'' vm_name) (vm_requires vm)) (env_vms env)))"

section \<open>Observability\<close>

definition validate_probe ::
    "environment \<Rightarrow> nat \<Rightarrow> string set \<Rightarrow> observability_probe \<Rightarrow> validation_issue list \<times> string set" where
  "validate_probe env index names probe =
     (let base = at_index ''$.spec.observability.probes'' index;
          target = probe_target probe
      in (emit (probe_name probe \<in> names)
            (semantic (base @ ''.name'') (''duplicate probe name '' @ debug_str (probe_name probe)))
          @ emit (probe_from probe \<noteq> ''host'' \<and> \<not> bm_contains (env_vms env) (probe_from probe))
            (semantic (base @ ''.from'') (''probe from references unknown VM '' @ debug_str (probe_from probe)))
          @ emit (contains_char target CHR ''@'' \<or> contains_str target ''://'' \<and> \<not> valid_probe_url target)
            (semantic (base @ ''.target'') ''probe target must not contain credentials or secrets'')
          @ (case probe_expect probe of
               Http2xx \<Rightarrow> emit (\<not> valid_probe_url target)
                 (semantic (base @ ''.target'') ''http2xx probes require an http(s) URL without credentials'')
             | _ \<Rightarrow> emit (contains_str target ''://'')
                 (semantic (base @ ''.target'') ''tcp/dns probes require host or host:port, not a URL'')),
          insert (probe_name probe) names))"

text \<open>What both kinds of data source check: the type before its entries, and the name, the VM and
  the host of an entry.\<close>

definition validate_source_type :: "environment \<Rightarrow> string \<Rightarrow> string list \<Rightarrow> string \<Rightarrow> string \<Rightarrow> validation_issue list" where
  "validate_source_type env base names dflt via =
     emit (dflt \<notin> set names)
       (semantic (base @ ''.default'') (''default source '' @ debug_str dflt @ '' is not defined in entries''))
     @ emit (\<not> bm_contains (env_vms env) via)
       (semantic (base @ ''.via'') (''via references unknown VM '' @ debug_str via))"

definition validate_source_entry ::
    "environment \<Rightarrow> string \<Rightarrow> string set \<Rightarrow> string \<Rightarrow> string option \<Rightarrow> string \<Rightarrow> validation_issue list" where
  "validate_source_entry env entry_base names name via host =
     emit (name \<in> names) (semantic entry_base (''duplicate data source name '' @ debug_str name))
     @ emit (\<not> valid_name name) (semantic entry_base (''invalid data source name '' @ debug_str name))
     @ (case via of
          None \<Rightarrow> []
        | Some v \<Rightarrow> emit (\<not> bm_contains (env_vms env) v)
            (semantic (entry_base @ ''.via'') (''via references unknown VM '' @ debug_str v)))
     @ emit (\<not> valid_data_source_host host)
       (semantic (entry_base @ ''.host'') ''host must end with .vz.test or be a private RFC1918 or loopback IPv4 address'')"

definition validate_sql_entry ::
    "environment \<Rightarrow> string \<Rightarrow> nat \<Rightarrow> string set \<Rightarrow> string \<times> sql_data_source_entry
     \<Rightarrow> validation_issue list \<times> string set" where
  "validate_sql_entry env base index names e =
     (let entry_base = base @ ''.entries.'' @ fst e
      in (validate_source_entry env entry_base names (fst e) (sql_via (snd e)) (sql_host (snd e))
          @ emit (trim (sql_database (snd e)) = [])
            (semantic (entry_base @ ''.database'') ''database must not be empty'')
          @ emit (trim (sql_user (snd e)) = [])
            (semantic (entry_base @ ''.user'') ''user must not be empty''),
          insert (fst e) names))"

definition validate_sql_data_source_type ::
    "environment \<Rightarrow> string \<Rightarrow> sql_data_source_type \<Rightarrow> validation_issue list" where
  "validate_sql_data_source_type env base t =
     (if sqlt_entries t = [] then [semantic base ''data source type requires at least one entry'']
      else validate_source_type env base (bm_keys (sqlt_entries t)) (sqlt_default t) (sqlt_via t)
        @ fst (run_loop (validate_sql_entry env base) 0 {} (sqlt_entries t)))"

definition validate_nats_entry ::
    "environment \<Rightarrow> string \<Rightarrow> nat \<Rightarrow> string set \<Rightarrow> string \<times> nats_data_source_entry
     \<Rightarrow> validation_issue list \<times> string set" where
  "validate_nats_entry env base index names e =
     (validate_source_entry env (base @ ''.entries.'' @ fst e) names (fst e) (nats_via (snd e)) (nats_host (snd e)),
      insert (fst e) names)"

definition validate_nats_data_source_type ::
    "environment \<Rightarrow> string \<Rightarrow> nats_data_source_type \<Rightarrow> validation_issue list" where
  "validate_nats_data_source_type env base t =
     (if natst_entries t = [] then [semantic base ''data source type requires at least one entry'']
      else validate_source_type env base (bm_keys (natst_entries t)) (natst_default t) (natst_via t)
        @ fst (run_loop (validate_nats_entry env base) 0 {} (natst_entries t)))"

definition validate_data_sources :: "environment \<Rightarrow> validation_issue list" where
  "validate_data_sources env =
     (let base = ''$.spec.observability.dataSources'';
          ds = obs_data_sources (sp_observability (env_spec env))
      in if data_sources_is_empty ds then []
         else
           (case ds_postgres ds of
              None \<Rightarrow> [] | Some t \<Rightarrow> validate_sql_data_source_type env (base @ ''.postgres'') t)
           @ (case ds_mysql ds of
                None \<Rightarrow> [] | Some t \<Rightarrow> validate_sql_data_source_type env (base @ ''.mysql'') t)
           @ (case ds_nats ds of
                None \<Rightarrow> [] | Some t \<Rightarrow> validate_nats_data_source_type env (base @ ''.nats'') t))"

definition validate_observability :: "environment \<Rightarrow> validation_issue list" where
  "validate_observability env =
     fst (run_loop (validate_probe env) 0 {} (obs_probes (sp_observability (env_spec env))))
     @ validate_data_sources env"

lemmas validate_edge_defs [exec_simps] = oidc_on_def ingress_on_def validate_requires_def
  validate_ingress_host_def validate_ingress_to_def validate_ingress_route_def validate_ingress_def
  oidc_issuer_host_def validate_oidc_uplink_def validate_oidc_issuer_def validate_oidc_user_def
  validate_oidc_mode_def validate_oidc_def validate_certs_ingress_oidc_def validate_probe_def
  validate_source_type_def validate_source_entry_def validate_sql_entry_def
  validate_sql_data_source_type_def validate_nats_entry_def validate_nats_data_source_type_def
  validate_data_sources_def validate_observability_def

section \<open>What the passes accept\<close>

definition requires_ok :: "environment \<Rightarrow> string list \<Rightarrow> bool" where
  "requires_ok env requires \<longleftrightarrow> (\<forall>r \<in> set requires. r = ''oidc'' \<and> oidc_on env \<or> r = ''guest-agent-v1'')"

definition upstream_ok :: "environment \<Rightarrow> ingress_upstream \<Rightarrow> bool" where
  "upstream_ok env upstream \<longleftrightarrow>
     (case upstream of UpstreamVm name port \<Rightarrow> bm_contains (env_vms env) name | UpstreamOidc port \<Rightarrow> oidc_on env)"

definition ingress_route_ok :: "environment \<Rightarrow> ingress_route \<Rightarrow> bool" where
  "ingress_route_ok env route \<longleftrightarrow>
     ir_host route \<noteq> [] \<and> \<not> ends_with (ir_host route) ''.localhost''
     \<and> (\<exists>u. ingress_upstream_parse (ir_to route) = Inr u \<and> upstream_ok env u)
     \<and> requires_ok env (ir_requires route)"

definition routes_to_oidc :: "ingress_route \<Rightarrow> bool" where
  "routes_to_oidc route \<longleftrightarrow> (\<exists>port. ingress_upstream_parse (ir_to route) = Inr (UpstreamOidc port))"

definition ingress_ok :: "environment \<Rightarrow> ingress_config \<Rightarrow> bool" where
  "ingress_ok env ingress \<longleftrightarrow>
     ing_bind ingress = ''127.0.0.1'' \<and> ing_http_port ingress \<noteq> 0 \<and> ing_https_port ingress \<noteq> 0
     \<and> ing_routes ingress \<noteq> [] \<and> distinct (map ir_host (ing_routes ingress))
     \<and> (\<forall>r \<in> set (ing_routes ingress). ingress_route_ok env r)"

definition enabled_routes :: "environment \<Rightarrow> ingress_route list" where
  "enabled_routes env =
     (case sp_ingress (env_spec env) of
        Some ingress \<Rightarrow> if ing_enabled ingress then ing_routes ingress else [] | None \<Rightarrow> [])"

definition set_ok :: "string option \<Rightarrow> bool" where
  "set_ok v \<longleftrightarrow> v \<noteq> Some []"

definition uplink_ok :: "oidc_uplink \<Rightarrow> bool" where
  "uplink_ok u \<longleftrightarrow>
     (\<forall>issuer. up_issuer u = Some issuer \<longrightarrow> starts_with issuer ''https://'')
     \<and> set_ok (up_tenant u) \<and> set_ok (up_client_id u) \<and> set_ok (up_client_secret_file u)"

definition oidc_mode_ok :: "oidc_config \<Rightarrow> bool" where
  "oidc_mode_ok oidc \<longleftrightarrow>
     (case oidc_mode oidc of
        OidcSimple \<Rightarrow>
          oidc_password_file oidc = None \<and> oidc_uplink oidc = None \<and> oidc_users oidc \<noteq> []
          \<and> distinct (map user_username (oidc_users oidc))
          \<and> (\<forall>u \<in> set (oidc_users oidc). trim (user_username u) \<noteq> [] \<and> trim (user_email u) \<noteq> [])
      | Embedded \<Rightarrow> oidc_users oidc = [] \<and> (\<forall>u. oidc_uplink oidc = Some u \<longrightarrow> uplink_ok u))"

text \<open>The issuer is \<open>https://auth.svc.\<close> with the domain, and with ingress on it is routed.\<close>

definition issuer_ok :: "environment \<Rightarrow> oidc_config \<Rightarrow> bool" where
  "issuer_ok env oidc \<longleftrightarrow>
     oidc_issuer_host (oidc_issuer oidc) = Some (''auth.svc.'' @ sp_domain (env_spec env))
     \<and> \<not> contains_str (oidc_issuer oidc) ''.localhost''
     \<and> (ingress_on env \<longrightarrow> (\<exists>r \<in> set (enabled_routes env). routes_to_oidc r
           \<and> ir_host r = ''auth.svc.'' @ sp_domain (env_spec env)))"

definition edge_ok :: "environment \<Rightarrow> bool" where
  "edge_ok env \<longleftrightarrow>
     (\<forall>ingress. sp_ingress (env_spec env) = Some ingress \<and> ing_enabled ingress \<longrightarrow> ingress_ok env ingress)
     \<and> (\<forall>oidc. sp_oidc (env_spec env) = Some oidc \<and> oidc_enabled oidc \<longrightarrow>
          issuer_ok env oidc \<and> starts_with (oidc_listen oidc) ''127.0.0.1:'' \<and> oidc_mode_ok oidc)
     \<and> (\<forall>vm \<in> set (bm_values (env_vms env)). requires_ok env (vm_requires vm))"

definition probe_ok :: "environment \<Rightarrow> observability_probe \<Rightarrow> bool" where
  "probe_ok env probe \<longleftrightarrow>
     (probe_from probe = ''host'' \<or> bm_contains (env_vms env) (probe_from probe))
     \<and> \<not> contains_char (probe_target probe) CHR ''@''
     \<and> (if probe_expect probe = Http2xx then valid_probe_url (probe_target probe)
        else \<not> contains_str (probe_target probe) ''://'')"

section \<open>Ingress\<close>

lemma validate_requires_Nil [pass_simps]: "validate_requires env base rs = [] \<longleftrightarrow> requires_ok env rs"
  unfolding validate_requires_def requires_ok_def
  by (rule ball_pass) (auto simp: emit_def)

lemma validate_ingress_route_Nil:
  "fst (validate_ingress_route env i st r) = [] \<longleftrightarrow> ir_host r \<notin> fst st \<and> ingress_route_ok env r"
  by (auto simp: validate_ingress_route_def validate_ingress_host_def validate_ingress_to_def split_beta Let_def
      validate_requires_Nil ingress_route_ok_def upstream_ok_def split: sum.splits ingress_upstream.splits)

lemma validate_ingress_route_state:
  "fst (validate_ingress_route env i st r) = [] \<Longrightarrow>
     snd (validate_ingress_route env i st r) =
       (insert (ir_host r) (fst st), if routes_to_oidc r then insert (ir_host r) (snd st) else snd st)"
  by (auto simp: validate_ingress_route_def validate_ingress_host_def validate_ingress_to_def split_beta Let_def
      routes_to_oidc_def split: sum.splits ingress_upstream.splits if_splits)

lemma validate_ingress_loop:
  "fst (run_loop (validate_ingress_route env) i st rs) = [] \<longleftrightarrow>
     distinct (map ir_host rs) \<and> set (map ir_host rs) \<inter> fst st = {} \<and> (\<forall>r \<in> set rs. ingress_route_ok env r)"
proof (induction rs arbitrary: i st)
  case Nil
  then show ?case by simp
next
  case (Cons r rs)
  show ?case
  proof (cases "fst (validate_ingress_route env i st r) = []")
    case True
    then show ?thesis
      unfolding run_loop_Cons_Nil Cons.IH validate_ingress_route_state [OF True]
      by (auto simp: validate_ingress_route_Nil)
  next
    case False
    then show ?thesis unfolding run_loop_Cons_Nil by (auto simp: validate_ingress_route_Nil)
  qed
qed

lemma validate_ingress_hosts:
  "fst (run_loop (validate_ingress_route env) i st rs) = [] \<Longrightarrow>
     snd (snd (run_loop (validate_ingress_route env) i st rs)) = snd st \<union> {ir_host r | r. r \<in> set rs \<and> routes_to_oidc r}"
proof (induction rs arbitrary: i st)
  case Nil
  then show ?case by simp
next
  case (Cons r rs)
  then have one: "fst (validate_ingress_route env i st r) = []"
    and rest: "fst (run_loop (validate_ingress_route env) (Suc i) (snd (validate_ingress_route env i st r)) rs) = []"
    by (simp_all only: run_loop_Cons_Nil)
  show ?case
    unfolding run_loop_snd Cons.IH [OF rest] by (auto simp: validate_ingress_route_state [OF one])
qed

lemma validate_ingress_Nil:
  "fst (validate_ingress env) = [] \<longleftrightarrow>
     (\<forall>ingress. sp_ingress (env_spec env) = Some ingress \<and> ing_enabled ingress \<longrightarrow> ingress_ok env ingress)"
proof (cases "sp_ingress (env_spec env)")
  case (Some ingress)
  then show ?thesis
    by (auto simp: validate_ingress_def split_beta Let_def validate_ingress_loop ingress_ok_def)
qed (simp add: validate_ingress_def)

lemma validate_ingress_oidc_hosts:
  assumes "fst (validate_ingress env) = []"
  shows "snd (validate_ingress env) = {ir_host r | r. r \<in> set (enabled_routes env) \<and> routes_to_oidc r}"
proof (cases "sp_ingress (env_spec env)")
  case (Some ingress)
  show ?thesis
  proof (cases "ing_enabled ingress")
    case True
    have "fst (run_loop (validate_ingress_route env) 0 ({}, {}) (ing_routes ingress)) = []"
      using assms Some True by (simp add: validate_ingress_def split_beta Let_def)
    from validate_ingress_hosts [OF this] Some True show ?thesis
      by (simp add: validate_ingress_def split_beta Let_def enabled_routes_def)
  qed (simp add: Some validate_ingress_def enabled_routes_def)
qed (simp add: validate_ingress_def enabled_routes_def)

section \<open>The identity provider\<close>

lemma validate_uplink_Nil [pass_simps]: "validate_oidc_uplink u base = [] \<longleftrightarrow> uplink_ok u"
  by (auto simp: validate_oidc_uplink_def uplink_ok_def set_ok_def starts_with_def split: option.splits)

lemma validate_issuer_Nil:
  assumes "oidc_hosts = {ir_host r | r. r \<in> set (enabled_routes env) \<and> routes_to_oidc r}"
  shows "validate_oidc_issuer env oidc_hosts oidc = [] \<longleftrightarrow> issuer_ok env oidc"
proof (cases "oidc_issuer_host (oidc_issuer oidc)")
  case None
  then show ?thesis by (simp add: validate_oidc_issuer_def issuer_ok_def)
next
  case (Some host)
  then have "oidc_issuer oidc \<noteq> []" by (auto simp: oidc_issuer_host_def strip_prefix_def starts_with_def)
  with Some show ?thesis by (auto simp: validate_oidc_issuer_def issuer_ok_def assms Let_def)
qed

lemma validate_users_loop:
  "fst (run_loop validate_oidc_user i seen us) = [] \<longleftrightarrow>
     distinct (map user_username us) \<and> set (map user_username us) \<inter> seen = {}
     \<and> (\<forall>u \<in> set us. trim (user_username u) \<noteq> [] \<and> trim (user_email u) \<noteq> [])"
proof (induction us arbitrary: i seen)
  case Nil
  then show ?case by simp
next
  case (Cons u us)
  show ?case
    unfolding run_loop_Cons_Nil Cons.IH by (auto simp: validate_oidc_user_def Let_def)
qed

lemma validate_mode_Nil [pass_simps]: "validate_oidc_mode oidc = [] \<longleftrightarrow> oidc_mode_ok oidc"
proof (cases "oidc_mode oidc")
  case Embedded
  then show ?thesis
    by (cases "oidc_uplink oidc") (auto simp: validate_oidc_mode_def oidc_mode_ok_def validate_uplink_Nil)
next
  case OidcSimple
  then show ?thesis by (auto simp: validate_oidc_mode_def oidc_mode_ok_def validate_users_loop)
qed

lemma validate_certs_ingress_oidc_Nil: "validate_certs_ingress_oidc env = [] \<longleftrightarrow> edge_ok env"
proof (cases "fst (validate_ingress env) = []")
  case True
  have oidc: "validate_oidc env (snd (validate_ingress env)) = [] \<longleftrightarrow>
      (\<forall>oidc. sp_oidc (env_spec env) = Some oidc \<and> oidc_enabled oidc \<longrightarrow>
          issuer_ok env oidc \<and> starts_with (oidc_listen oidc) ''127.0.0.1:'' \<and> oidc_mode_ok oidc)"
    using validate_issuer_Nil [OF validate_ingress_oidc_hosts [OF True]] validate_mode_Nil
    by (auto simp: validate_oidc_def split: option.splits)
  have vms: "concat (map (\<lambda>(vm_name, vm). validate_requires env (json_path_key ''$.spec.vms'' vm_name) (vm_requires vm))
        (env_vms env)) = []
      \<longleftrightarrow> (\<forall>vm \<in> set (bm_values (env_vms env)). requires_ok env (vm_requires vm))"
    by (simp add: split_beta validate_requires_Nil del: concat_eq_Nil_conv)
  show ?thesis
    using True unfolding validate_certs_ingress_oidc_def edge_ok_def validate_ingress_Nil [symmetric]
    by (simp add: split_beta oidc vms del: concat_map_Nil concat_eq_Nil_conv)
next
  case False
  then show ?thesis
    unfolding edge_ok_def validate_ingress_Nil [symmetric]
    by (simp add: validate_certs_ingress_oidc_def split_beta)
qed

section \<open>Observability\<close>

definition source_entry_ok :: "environment \<Rightarrow> string \<Rightarrow> string option \<Rightarrow> string \<Rightarrow> bool" where
  "source_entry_ok env name via host \<longleftrightarrow>
     valid_name name \<and> valid_data_source_host host \<and> (\<forall>v. via = Some v \<longrightarrow> bm_contains (env_vms env) v)"

definition source_type_ok :: "environment \<Rightarrow> string list \<Rightarrow> string \<Rightarrow> string \<Rightarrow> bool" where
  "source_type_ok env names dflt via \<longleftrightarrow> dflt \<in> set names \<and> distinct names \<and> bm_contains (env_vms env) via"

definition sql_type_ok :: "environment \<Rightarrow> sql_data_source_type \<Rightarrow> bool" where
  "sql_type_ok env t \<longleftrightarrow>
     source_type_ok env (bm_keys (sqlt_entries t)) (sqlt_default t) (sqlt_via t)
     \<and> (\<forall>e \<in> set (sqlt_entries t). source_entry_ok env (fst e) (sql_via (snd e)) (sql_host (snd e))
          \<and> trim (sql_database (snd e)) \<noteq> [] \<and> trim (sql_user (snd e)) \<noteq> [])"

definition nats_type_ok :: "environment \<Rightarrow> nats_data_source_type \<Rightarrow> bool" where
  "nats_type_ok env t \<longleftrightarrow>
     source_type_ok env (bm_keys (natst_entries t)) (natst_default t) (natst_via t)
     \<and> (\<forall>e \<in> set (natst_entries t). source_entry_ok env (fst e) (nats_via (snd e)) (nats_host (snd e)))"

definition observability_ok :: "environment \<Rightarrow> bool" where
  "observability_ok env \<longleftrightarrow>
     (let obs = sp_observability (env_spec env); ds = obs_data_sources obs
      in distinct (map probe_name (obs_probes obs)) \<and> (\<forall>p \<in> set (obs_probes obs). probe_ok env p)
         \<and> (\<forall>t. ds_postgres ds = Some t \<longrightarrow> sql_type_ok env t)
         \<and> (\<forall>t. ds_mysql ds = Some t \<longrightarrow> sql_type_ok env t)
         \<and> (\<forall>t. ds_nats ds = Some t \<longrightarrow> nats_type_ok env t))"

lemma validate_source_entry_Nil:
  "validate_source_entry env base names name via host = [] \<longleftrightarrow> name \<notin> names \<and> source_entry_ok env name via host"
  by (cases via) (auto simp: validate_source_entry_def source_entry_ok_def)

lemma validate_sql_Nil [pass_simps]: "validate_sql_data_source_type env base t = [] \<longleftrightarrow> sql_type_ok env t"
proof -
  let ?ok = "\<lambda>e. source_entry_ok env (fst e) (sql_via (snd e)) (sql_host (snd e))
      \<and> trim (sql_database (snd e)) \<noteq> [] \<and> trim (sql_user (snd e)) \<noteq> []"
  have "fst (run_loop (validate_sql_entry env base) 0 {} es) = [] \<longleftrightarrow>
      distinct (bm_keys es) \<and> (\<forall>e \<in> set es. ?ok e)" for es
    by (subst run_loop_keys_iff [where key = fst and ok = ?ok])
      (auto simp: validate_sql_entry_def Let_def validate_source_entry_Nil)
  then show ?thesis
    by (auto simp: validate_sql_data_source_type_def validate_source_type_def sql_type_ok_def source_type_ok_def)
qed

lemma validate_nats_Nil [pass_simps]: "validate_nats_data_source_type env base t = [] \<longleftrightarrow> nats_type_ok env t"
proof -
  let ?ok = "\<lambda>e. source_entry_ok env (fst e) (nats_via (snd e)) (nats_host (snd e))"
  have "fst (run_loop (validate_nats_entry env base) 0 {} es) = [] \<longleftrightarrow>
      distinct (bm_keys es) \<and> (\<forall>e \<in> set es. ?ok e)" for es
    by (subst run_loop_keys_iff [where key = fst and ok = ?ok])
      (auto simp: validate_nats_entry_def validate_source_entry_Nil)
  then show ?thesis
    by (auto simp: validate_nats_data_source_type_def validate_source_type_def nats_type_ok_def source_type_ok_def)
qed

lemma valid_probe_url_scheme: "valid_probe_url s \<Longrightarrow> contains_str s ''://''"
proof -
  assume "valid_probe_url s"
  then consider r where "s = ''https://'' @ r" | r where "s = ''http://'' @ r"
    by (auto simp: valid_probe_url_def strip_prefix_Some split: option.splits)
  then show ?thesis
  proof cases
    case (1 r)
    then have "s = ''https'' @ ''://'' @ r" by simp
    then show ?thesis unfolding contains_str_iff by blast
  next
    case (2 r)
    then have "s = ''http'' @ ''://'' @ r" by simp
    then show ?thesis unfolding contains_str_iff by blast
  qed
qed

lemma validate_probe_Nil:
  "fst (validate_probe env i names p) = [] \<longleftrightarrow> probe_name p \<notin> names \<and> probe_ok env p"
  using valid_probe_url_scheme [of "probe_target p"]
  by (cases "probe_expect p") (auto simp: validate_probe_def Let_def probe_ok_def)

lemma validate_probe_snd: "snd (validate_probe env i names p) = insert (probe_name p) names"
  by (simp add: validate_probe_def Let_def)

lemma validate_observability_Nil: "validate_observability env = [] \<longleftrightarrow> observability_ok env"
proof -
  let ?obs = "sp_observability (env_spec env)"
  have probes: "fst (run_loop (validate_probe env) 0 {} (obs_probes ?obs)) = [] \<longleftrightarrow>
      distinct (map probe_name (obs_probes ?obs)) \<and> (\<forall>p \<in> set (obs_probes ?obs). probe_ok env p)"
    by (subst run_loop_keys_iff [where key = probe_name and ok = "probe_ok env"])
      (auto simp: validate_probe_Nil validate_probe_snd)
  have sources: "validate_data_sources env = [] \<longleftrightarrow>
      (\<forall>t. ds_postgres (obs_data_sources ?obs) = Some t \<longrightarrow> sql_type_ok env t)
      \<and> (\<forall>t. ds_mysql (obs_data_sources ?obs) = Some t \<longrightarrow> sql_type_ok env t)
      \<and> (\<forall>t. ds_nats (obs_data_sources ?obs) = Some t \<longrightarrow> nats_type_ok env t)"
    by (auto simp: validate_data_sources_def data_sources_is_empty_def Let_def validate_sql_Nil
        validate_nats_Nil split: option.splits)
  show ?thesis
    by (simp add: validate_observability_def observability_ok_def Let_def probes sources)
qed

end
