(* ===== verification/Manifests.thy ===== *)
theory Manifests
  imports Issues Samples
begin

text \<open>
  Kubernetes manifests (\<open>kubernetes/manifests.rs\<close>): reading the resources of a file, marking
  them as owned by a cluster of the project, recognising an object that already has what a
  resource declares, and refusing an object that somebody else owns.

  A JSON object is a sorted association list. Opening a file, the YAML parser, the JSON printer
  and SHA-256 are not part of the repository: they are the parameters \<open>manifest_lib\<close>, and no
  law of them is used. Indexing a value that is not an object for writing panics; the code does
  so only on values it has checked, so the panic is an error of the model (\<open>None\<close> of \<open>json_set\<close>).
\<close>

section \<open>JSON values\<close>

definition json_get :: "json \<Rightarrow> string \<Rightarrow> json" where
  "json_get v k = (case v of JObj m \<Rightarrow> (case bm_get m k of Some x \<Rightarrow> x | None \<Rightarrow> JNull) | _ \<Rightarrow> JNull)"

definition json_set :: "json \<Rightarrow> string \<Rightarrow> json \<Rightarrow> json option" where
  "json_set v k x =
     (case v of JObj m \<Rightarrow> Some (JObj (bm_insert k x m)) | JNull \<Rightarrow> Some (JObj [(k, x)]) | _ \<Rightarrow> None)"

definition json_as_str :: "json \<Rightarrow> string option" where
  "json_as_str v = (case v of JStr s \<Rightarrow> Some s | _ \<Rightarrow> None)"

definition is_object :: "json \<Rightarrow> bool" where
  "is_object v = (case v of JObj _ \<Rightarrow> True | _ \<Rightarrow> False)"

definition non_string_values :: "json \<Rightarrow> bool" where
  "non_string_values v = (case v of JObj m \<Rightarrow> list_ex (\<lambda>x. json_as_str x = None) (bm_values m) | _ \<Rightarrow> False)"

text \<open>\<open>value["metadata"][field] = x\<close>\<close>

definition set_metadata :: "json \<Rightarrow> string \<Rightarrow> json \<Rightarrow> json option" where
  "set_metadata v field x =
     (case json_set (json_get v ''metadata'') field x of None \<Rightarrow> None | Some m \<Rightarrow> json_set v ''metadata'' m)"

record manifest_lib =
  ml_open :: "string \<Rightarrow> (string, string) result"
  ml_yaml :: "string \<Rightarrow> (json, string) result list"
  ml_json :: "json \<Rightarrow> string"
  ml_sha256 :: "string \<Rightarrow> string"

definition MANAGED :: string where "MANAGED = ''vzctl.dev/managed-by''"
definition PROJECT :: string where "PROJECT = ''vzctl.dev/project''"
definition CLUSTER :: string where "CLUSTER = ''vzctl.dev/cluster''"
definition DIGEST :: string where "DIGEST = ''vzctl.dev/manifest-sha256''"

section \<open>read\<close>

definition nonempty_str :: "json \<Rightarrow> bool" where
  "nonempty_str v = (case json_as_str v of None \<Rightarrow> False | Some s \<Rightarrow> s \<noteq> [])"

text \<open>The checks of one resource, in the code's order.\<close>

definition check_resource :: "manifest_lib \<Rightarrow> json \<Rightarrow> (json, string) result" where
  "check_resource lib v =
     (let labels = json_get (json_get v ''metadata'') ''labels'';
          annotations = json_get (json_get v ''metadata'') ''annotations''
      in if \<not> nonempty_str (json_get v ''apiVersion'') then Inl ''resource requires nonempty /apiVersion''
         else if \<not> nonempty_str (json_get v ''kind'') then Inl ''resource requires nonempty /kind''
         else if \<not> nonempty_str (json_get (json_get v ''metadata'') ''name'') then
           Inl ''resource requires nonempty /metadata/name''
         else if json_as_str (json_get (json_get v ''metadata'') ''generateName'') \<noteq> None then
           Inl ''generateName is unsupported for declarative resources; use metadata.name''
         else if labels \<noteq> JNull \<and> \<not> is_object labels then Inl ''metadata.labels must be an object''
         else if non_string_values labels then Inl ''metadata.labels values must be strings''
         else if annotations \<noteq> JNull \<and> \<not> is_object annotations then
           Inl ''metadata.annotations must be an object''
         else if non_string_values annotations then Inl ''metadata.annotations values must be strings''
         else if 240 * 1024 < length (ml_json lib v) then
           Inl ''individual resource exceeds 240 KiB guest-transfer limit''
         else Inr v)"

fun read_values :: "manifest_lib \<Rightarrow> json list \<Rightarrow> json list \<Rightarrow> (json list, string) result" where
  "read_values lib objects [] = Inr objects"
| "read_values lib objects (v # vs) =
     (if 128 \<le> length objects then Inl ''manifest exceeds 128 resources''
      else and_then (check_resource lib v) (\<lambda>checked. read_values lib (objects @ [checked]) vs))"

definition document_values :: "json \<Rightarrow> (json list, string) result" where
  "document_values v =
     (if json_get v ''kind'' = JStr ''List'' then
        (case json_get v ''items'' of JArr xs \<Rightarrow> Inr xs | _ \<Rightarrow> Inl ''List requires items array'')
      else Inr [v])"

fun read_documents ::
    "manifest_lib \<Rightarrow> json list \<Rightarrow> (json, string) result list \<Rightarrow> (json list, string) result" where
  "read_documents lib objects [] = Inr objects"
| "read_documents lib objects (d # ds) =
     (if 128 \<le> length objects then Inl ''manifest exceeds 128 resources''
      else and_then (map_err (\<lambda>e. ''invalid Kubernetes YAML: '' @ e) d) (\<lambda>v.
        if v = JNull then read_documents lib objects ds
        else and_then (document_values v) (\<lambda>vs.
          and_then (read_values lib objects vs) (\<lambda>objects'. read_documents lib objects' ds))))"

definition read_manifest :: "manifest_lib \<Rightarrow> string \<Rightarrow> (json list, string) result" where
  "read_manifest lib path =
     and_then (map_err (\<lambda>e. ''read manifest '' @ path @ '': '' @ e) (ml_open lib path)) (\<lambda>content.
       let bytes = take 1048577 content
       in if 1048576 < length bytes then Inl ''manifest file exceeds 1 MiB''
          else and_then (read_documents lib [] (ml_yaml lib bytes)) (\<lambda>objects.
            if objects = [] then Inl ''manifest contains no resources'' else Inr objects))"

section \<open>owned\<close>

text \<open>Setting one ownership label; a label with another value is a conflict.\<close>

definition own_label :: "string \<times> string \<Rightarrow> json \<Rightarrow> (json, string) result" where
  "own_label l v =
     (let labels = json_get (json_get v ''metadata'') ''labels''
      in if (case json_as_str (json_get labels (fst l)) of Some existing \<Rightarrow> existing \<noteq> snd l | None \<Rightarrow> False) then
           Inl (''manifest has conflicting ownership label '' @ fst l)
         else case json_set labels (fst l) (JStr (snd l)) of
                None \<Rightarrow> Inl ''panic: cannot index''
              | Some updated \<Rightarrow> ok_or ''panic: cannot index'' (set_metadata v ''labels'' updated))"

definition default_field :: "string \<Rightarrow> json \<Rightarrow> (json, string) result" where
  "default_field field v =
     (if json_get (json_get v ''metadata'') field = JNull
      then ok_or ''panic: cannot index'' (set_metadata v field (JObj [])) else Inr v)"

definition own_digest :: "manifest_lib \<Rightarrow> json \<Rightarrow> (json, string) result" where
  "own_digest lib v =
     (case json_get (json_get v ''metadata'') ''annotations'' of
        JObj m \<Rightarrow>
          and_then (ok_or ''panic: cannot index'' (set_metadata v ''annotations'' (JObj (bm_remove DIGEST m))))
            (\<lambda>plain. ok_or ''panic: cannot index''
               (set_metadata plain ''annotations''
                  (JObj (bm_insert DIGEST (JStr (ml_sha256 lib (ml_json lib plain))) (bm_remove DIGEST m)))))
      | _ \<Rightarrow> Inl ''metadata.annotations must be an object'')"

definition owned :: "manifest_lib \<Rightarrow> json \<Rightarrow> string \<Rightarrow> string \<Rightarrow> (json, string) result" where
  "owned lib v project cluster =
     and_then (default_field ''labels'' v) (\<lambda>v0.
     and_then (own_label (MANAGED, ''vzctl'') v0) (\<lambda>v1.
     and_then (own_label (PROJECT, project) v1) (\<lambda>v2.
     and_then (own_label (CLUSTER, cluster) v2) (\<lambda>v3.
     and_then (default_field ''annotations'' v3) (own_digest lib)))))"

section \<open>matches_desired and check_existing\<close>

fun matches_desired :: "json \<Rightarrow> json \<Rightarrow> bool"
  and matches_fields :: "(string \<times> json) list \<Rightarrow> json \<Rightarrow> bool"
  and matches_items :: "json list \<Rightarrow> json list \<Rightarrow> bool"
where
  "matches_desired (JObj ms) actual = matches_fields ms actual"
| "matches_desired (JArr items) actual =
     (case actual of JArr observed \<Rightarrow> matches_items items observed | _ \<Rightarrow> False)"
| "matches_desired JNull actual = (actual = JNull)"
| "matches_desired (JBool b) actual = (actual = JBool b)"
| "matches_desired (JNum n) actual = (actual = JNum n)"
| "matches_desired (JStr s) actual = (actual = JStr s)"
| "matches_fields [] actual = True"
| "matches_fields ((k, v) # ms) actual =
     ((case actual of
         JObj m \<Rightarrow> (case bm_get m k of Some observed \<Rightarrow> matches_desired v observed | None \<Rightarrow> False)
       | _ \<Rightarrow> False)
      \<and> matches_fields ms actual)"
| "matches_items [] observed = (observed = [])"
| "matches_items (v # vs) observed =
     (case observed of [] \<Rightarrow> False | x # xs \<Rightarrow> matches_desired v x \<and> matches_items vs xs)"

definition json_str_or :: "json \<Rightarrow> string" where
  "json_str_or v = (case json_as_str v of Some s \<Rightarrow> s | None \<Rightarrow> ''?'')"

definition foreign_object :: "json \<Rightarrow> string \<Rightarrow> string \<Rightarrow> bool" where
  "foreign_object v project cluster \<longleftrightarrow>
     (let labels = json_get (json_get v ''metadata'') ''labels''
      in json_get labels MANAGED \<noteq> JStr ''vzctl'' \<or> json_get labels PROJECT \<noteq> JStr project
         \<or> json_get labels CLUSTER \<noteq> JStr cluster)"

lemma size_json_member: "x \<in> set xs \<Longrightarrow> size x < size (JArr xs)"
  by (simp add: size_list_estimation' less_Suc_eq_le)

lemma size_json_field: "(k, x) \<in> set m \<Longrightarrow> size x < size (JObj m)"
proof -
  assume "(k, x) \<in> set m"
  then have "size x \<le> size_list (size_prod (\<lambda>_. 0) size) m"
    by (rule size_list_estimation') simp
  then show ?thesis by simp
qed

lemma size_json_items: "json_get v ''items'' = JArr xs \<Longrightarrow> x \<in> set xs \<Longrightarrow> size x < size v"
proof -
  assume items: "json_get v ''items'' = JArr xs" and x: "x \<in> set xs"
  then obtain m where m: "v = JObj m" "bm_get m ''items'' = Some (JArr xs)"
    by (auto simp: json_get_def split: json.splits option.splits)
  then have "size (JArr xs) < size v"
    using size_json_field [OF map_of_SomeD [OF m(2)]] by simp
  with size_json_member [OF x] show ?thesis by simp
qed

function check_existing :: "json \<Rightarrow> string \<Rightarrow> string \<Rightarrow> (unit, string) result"
  and check_existing_all :: "json list \<Rightarrow> string \<Rightarrow> string \<Rightarrow> (unit, string) result"
where
  "check_existing v project cluster =
     (if v = JNull then Inr ()
      else if json_get v ''kind'' = JStr ''List'' then
        (case json_get v ''items'' of
           JArr items \<Rightarrow> check_existing_all items project cluster
         | _ \<Rightarrow> Inl ''invalid Kubernetes inventory'')
      else if foreign_object v project cluster then
        Inl (''ownership conflict: '' @ json_str_or (json_get v ''kind'') @ '' ''
           @ json_str_or (json_get (json_get v ''metadata'') ''name'')
           @ '' already exists outside this cluster controller'')
      else Inr ())"
| "check_existing_all [] project cluster = Inr ()"
| "check_existing_all (item # items) project cluster =
     and_then (check_existing item project cluster) (\<lambda>_. check_existing_all items project cluster)"
  by pat_completeness auto
termination
proof (relation "measure (\<lambda>p. case p of Inl (v, _, _) \<Rightarrow> 2 * size v | Inr (items, _, _) \<Rightarrow> 2 * size_list size items + 1)",
    goal_cases)
  case 1
  show ?case by simp
next
  case (2 v project cluster items)
  then obtain m where m: "v = JObj m" "bm_get m ''items'' = Some (JArr items)"
    by (auto simp: json_get_def split: json.splits option.splits)
  then have "size (JArr items) < size v"
    using size_json_field [OF map_of_SomeD [OF m(2)]] by simp
  then show ?case by simp
next
  case (3 item items project cluster)
  then show ?case by simp
next
  case (4 item items project cluster)
  then show ?case by simp
qed

declare check_existing.simps [simp del]

declare json_get_def [exec_simps] json_set_def [exec_simps] json_as_str_def [exec_simps] is_object_def [exec_simps]
  non_string_values_def [exec_simps] set_metadata_def [exec_simps] MANAGED_def [exec_simps]
  PROJECT_def [exec_simps] CLUSTER_def [exec_simps] DIGEST_def [exec_simps] nonempty_str_def [exec_simps]
  check_resource_def [exec_simps] document_values_def [exec_simps] read_manifest_def [exec_simps]
  own_label_def [exec_simps] default_field_def [exec_simps] own_digest_def [exec_simps] owned_def [exec_simps]
  json_str_or_def [exec_simps] foreign_object_def [exec_simps] check_existing.simps [exec_simps]

section \<open>Writing into a value\<close>

lemma json_get_empty [simp]: "json_get JNull k = JNull" "json_get (JObj []) k = JNull"
  by (simp_all add: json_get_def)

lemma json_get_set: "json_set v k x = Some w \<Longrightarrow> json_get w l = (if l = k then x else json_get v l)"
  by (auto simp: json_set_def json_get_def bm_get_insert split: json.splits)

lemma set_metadata_get:
  assumes "set_metadata v field x = Some w"
  shows "json_get (json_get w ''metadata'') l = (if l = field then x else json_get (json_get v ''metadata'') l)"
    and "l \<noteq> ''metadata'' \<Longrightarrow> json_get w l = json_get v l"
  using assms by (auto simp: set_metadata_def json_get_set split: option.splits)

definition label_of :: "json \<Rightarrow> string \<Rightarrow> json" where
  "label_of v k = json_get (json_get (json_get v ''metadata'') ''labels'') k"

lemma own_label_get:
  assumes "own_label (k, x) v = Inr w"
  shows "label_of w l = (if l = k then JStr x else label_of v l)"
    and "l \<noteq> ''metadata'' \<Longrightarrow> json_get w l = json_get v l"
    and "json_as_str (label_of v k) \<in> {None, Some x}"
  using assms
  by (auto simp: own_label_def label_of_def Let_def set_metadata_get json_get_set split: if_splits option.splits)

lemma default_labels_get:
  assumes "default_field ''labels'' v = Inr w"
  shows "label_of w l = label_of v l" and "l \<noteq> ''metadata'' \<Longrightarrow> json_get w l = json_get v l"
  using assms
  by (auto simp: default_field_def label_of_def set_metadata_get split: if_splits)

lemma default_annotations_get:
  assumes "default_field ''annotations'' v = Inr w"
  shows "label_of w l = label_of v l" and "l \<noteq> ''metadata'' \<Longrightarrow> json_get w l = json_get v l"
  using assms by (auto simp: default_field_def label_of_def set_metadata_get split: if_splits)

lemma own_digest_get:
  assumes "own_digest lib v = Inr w"
  shows "label_of w l = label_of v l" and "l \<noteq> ''metadata'' \<Longrightarrow> json_get w l = json_get v l"
  using assms by (auto simp: own_digest_def label_of_def set_metadata_get split: json.splits)

text \<open>What \<open>owned\<close> gives: the three labels, every other label and field as before, and no label it
  would have had to overwrite.\<close>

lemma owned_Inr:
  assumes "owned lib v project cluster = Inr w"
  shows "label_of w MANAGED = JStr ''vzctl'' \<and> label_of w PROJECT = JStr project
      \<and> label_of w CLUSTER = JStr cluster"
    and "l \<notin> {MANAGED, PROJECT, CLUSTER} \<Longrightarrow> label_of w l = label_of v l"
    and "l \<noteq> ''metadata'' \<Longrightarrow> json_get w l = json_get v l"
    and "json_as_str (label_of v MANAGED) \<in> {None, Some ''vzctl''}
      \<and> json_as_str (label_of v PROJECT) \<in> {None, Some project}
      \<and> json_as_str (label_of v CLUSTER) \<in> {None, Some cluster}"
proof -
  obtain v0 v1 v2 v3 v4 where steps: "default_field ''labels'' v = Inr v0"
      "own_label (MANAGED, ''vzctl'') v0 = Inr v1" "own_label (PROJECT, project) v1 = Inr v2"
      "own_label (CLUSTER, cluster) v2 = Inr v3" "default_field ''annotations'' v3 = Inr v4"
      "own_digest lib v4 = Inr w"
    using assms by (auto simp: owned_def)
  have keys: "MANAGED \<noteq> PROJECT" "MANAGED \<noteq> CLUSTER" "PROJECT \<noteq> CLUSTER"
    by (simp_all add: MANAGED_def PROJECT_def CLUSTER_def)
  note labels = own_digest_get(1) [OF steps(6)] default_annotations_get(1) [OF steps(5)]
    own_label_get(1) [OF steps(4)] own_label_get(1) [OF steps(3)] own_label_get(1) [OF steps(2)]
    default_labels_get(1) [OF steps(1)]
  show "label_of w MANAGED = JStr ''vzctl'' \<and> label_of w PROJECT = JStr project \<and> label_of w CLUSTER = JStr cluster"
    using keys by (simp add: labels)
  show "l \<notin> {MANAGED, PROJECT, CLUSTER} \<Longrightarrow> label_of w l = label_of v l"
    by (simp add: labels)
  show "l \<noteq> ''metadata'' \<Longrightarrow> json_get w l = json_get v l"
    using own_digest_get(2) [OF steps(6)] default_annotations_get(2) [OF steps(5)]
      own_label_get(2) [OF steps(4)] own_label_get(2) [OF steps(3)] own_label_get(2) [OF steps(2)]
      default_labels_get(2) [OF steps(1)] by simp
  show "json_as_str (label_of v MANAGED) \<in> {None, Some ''vzctl''}
      \<and> json_as_str (label_of v PROJECT) \<in> {None, Some project}
      \<and> json_as_str (label_of v CLUSTER) \<in> {None, Some cluster}"
    using own_label_get(3) [OF steps(2)] own_label_get(3) [OF steps(3)] own_label_get(3) [OF steps(4)] keys
    by (simp add: labels)
qed

lemma foreign_object_labels:
  "foreign_object v project cluster \<longleftrightarrow> label_of v MANAGED \<noteq> JStr ''vzctl''
     \<or> label_of v PROJECT \<noteq> JStr project \<or> label_of v CLUSTER \<noteq> JStr cluster"
  by (simp add: foreign_object_def label_of_def Let_def)

section \<open>matches_desired is a preorder\<close>

fun json_wf :: "json \<Rightarrow> bool" where
  "json_wf (JObj m) \<longleftrightarrow> bm_wf m \<and> (\<forall>x \<in> set m. json_wf (snd x))"
| "json_wf (JArr xs) \<longleftrightarrow> (\<forall>x \<in> set xs. json_wf x)"
| "json_wf _ \<longleftrightarrow> True"

lemma matches_fields_iff:
  "matches_fields ms actual \<longleftrightarrow>
     (\<forall>e \<in> set ms. \<exists>m x. actual = JObj m \<and> bm_get m (fst e) = Some x \<and> matches_desired (snd e) x)"
  by (induction ms) (auto split: json.splits option.splits)

lemma matches_items_iff: "matches_items vs observed \<longleftrightarrow> list_all2 matches_desired vs observed"
  by (induction vs arbitrary: observed) (auto split: list.splits simp: list_all2_Cons1)

lemma matches_desired_refl: "json_wf v \<Longrightarrow> matches_desired v v"
proof (induction v rule: json_wf.induct)
  case (1 m)
  then have "bm_get m (fst e) = Some (snd e)" if "e \<in> set m" for e
    using that by (cases e) (simp add: bm_wf_in_set)
  with 1 show ?case by (auto simp: matches_fields_iff)
next
  case (2 xs)
  then show ?case by (auto simp: matches_items_iff list.rel_refl_strong)
qed simp_all

lemma matches_desired_trans: "matches_desired a b \<Longrightarrow> matches_desired b c \<Longrightarrow> matches_desired a c"
proof (induction a arbitrary: b c rule: measure_induct_rule [where f = size])
  case (less a)
  show ?case
  proof (cases a)
    case (JObj ms)
    show ?thesis
      unfolding JObj matches_desired.simps matches_fields_iff
    proof
      fix e assume e: "e \<in> set ms"
      obtain m x where m: "b = JObj m" "bm_get m (fst e) = Some x" "matches_desired (snd e) x"
        using less.prems(1) e by (auto simp: JObj matches_fields_iff)
      obtain m' y where m': "c = JObj m'" "bm_get m' (fst e) = Some y" "matches_desired x y"
        using less.prems(2) map_of_SomeD [OF m(2)] by (fastforce simp: m(1) matches_fields_iff)
      have "size (snd e) < size a"
        using e size_json_field [of "fst e" "snd e" ms] by (simp add: JObj)
      with m(3) m'(3) less.IH have "matches_desired (snd e) y" by blast
      with m' show "\<exists>m x. c = JObj m \<and> bm_get m (fst e) = Some x \<and> matches_desired (snd e) x" by blast
    qed
  next
    case (JArr xs)
    obtain ys where ys: "b = JArr ys" "list_all2 matches_desired xs ys"
      using less.prems(1) by (auto simp: JArr matches_items_iff split: json.splits)
    obtain zs where zs: "c = JArr zs" "list_all2 matches_desired ys zs"
      using less.prems(2) by (auto simp: ys matches_items_iff split: json.splits)
    have "matches_desired (xs ! i) (zs ! i)" if "i < length xs" for i
    proof (rule less.IH)
      show "size (xs ! i) < size a" using that size_json_member [of "xs ! i" xs] by (simp add: JArr)
      show "matches_desired (xs ! i) (ys ! i)" "matches_desired (ys ! i) (zs ! i)"
        using that ys(2) zs(2) by (auto simp: list_all2_conv_all_nth)
    qed
    then show ?thesis
      using ys(2) zs(2) by (simp add: JArr zs(1) matches_items_iff list_all2_conv_all_nth)
  qed (use less.prems in auto)
qed

section \<open>What read accepts\<close>

definition resource_ok :: "manifest_lib \<Rightarrow> json \<Rightarrow> bool" where
  "resource_ok lib v \<longleftrightarrow>
     nonempty_str (json_get v ''apiVersion'') \<and> nonempty_str (json_get v ''kind'')
     \<and> nonempty_str (json_get (json_get v ''metadata'') ''name'')
     \<and> length (ml_json lib v) \<le> 240 * 1024"

lemma check_resource_Inr: "check_resource lib v = Inr w \<Longrightarrow> w = v \<and> resource_ok lib v"
  by (auto simp: check_resource_def resource_ok_def Let_def split: if_splits)

lemma read_values_ok:
  "read_values lib objects vs = Inr out \<Longrightarrow> length objects \<le> 128 \<Longrightarrow> \<forall>v \<in> set objects. resource_ok lib v \<Longrightarrow>
     length out \<le> 128 \<and> (\<forall>v \<in> set out. resource_ok lib v)"
  by (induction lib objects vs rule: read_values.induct) (auto split: if_splits dest!: check_resource_Inr)

lemma read_documents_ok:
  "read_documents lib objects ds = Inr out \<Longrightarrow> length objects \<le> 128 \<Longrightarrow> \<forall>v \<in> set objects. resource_ok lib v \<Longrightarrow>
     length out \<le> 128 \<and> (\<forall>v \<in> set out. resource_ok lib v)"
proof (induction lib objects ds rule: read_documents.induct)
  case (1 lib objects)
  then show ?case by simp
next
  case (2 lib objects d ds)
  then obtain v where v: "128 > length objects" "map_err (\<lambda>e. ''invalid Kubernetes YAML: '' @ e) d = Inr v"
    by (auto split: if_splits)
  show ?case
  proof (cases "v = JNull")
    case True
    with 2 v show ?thesis by auto
  next
    case False
    with 2(3) v obtain vs objects' where vs: "document_values v = Inr vs"
        "read_values lib objects vs = Inr objects'" "read_documents lib objects' ds = Inr out"
      by auto
    have "length objects' \<le> 128 \<and> (\<forall>v \<in> set objects'. resource_ok lib v)"
      using read_values_ok [OF vs(2)] 2(4,5) by blast
    moreover have "\<not> 128 \<le> length objects" using v(1) by simp
    ultimately show ?thesis
      using 2(2) [OF _ False vs(3)] by blast
  qed
qed

lemma read_manifest_ok:
  assumes "read_manifest lib path = Inr out"
  shows "out \<noteq> [] \<and> length out \<le> 128 \<and> (\<forall>v \<in> set out. resource_ok lib v)"
proof -
  obtain ds where "read_documents lib [] ds = Inr out" "out \<noteq> []"
    using assms by (auto simp: read_manifest_def Let_def split: if_splits)
  with read_documents_ok [of lib "[]" ds out] show ?thesis by simp
qed

section \<open>Properties\<close>

text \<open>Marking a resource as owned sets the three ownership labels and changes nothing but its
  metadata; it fails rather than overwrite an ownership label with another value; and the marked
  resource is one that \<open>check_existing\<close> accepts for the same project and cluster.\<close>

lemma owned_is_accepted:
  assumes "owned lib v project cluster = Inr w" and "json_get v ''kind'' \<noteq> JStr ''List''"
  shows "check_existing w project cluster = Inr ()
    \<and> (\<forall>l. l \<notin> {MANAGED, PROJECT, CLUSTER} \<longrightarrow> label_of w l = label_of v l)
    \<and> (\<forall>l. l \<noteq> ''metadata'' \<longrightarrow> json_get w l = json_get v l)
    \<and> json_as_str (label_of v PROJECT) \<in> {None, Some project}"
proof -
  have "\<not> foreign_object w project cluster"
    using owned_Inr(1) [OF assms(1)] by (simp add: foreign_object_labels)
  moreover have "json_get w ''kind'' \<noteq> JStr ''List''"
    using owned_Inr(3) [OF assms(1), of "''kind''"] assms(2) by simp
  ultimately have "check_existing w project cluster = Inr ()"
    by (simp add: check_existing.simps)
  with owned_Inr [OF assms(1)] show ?thesis by blast
qed

definition sample_lib :: manifest_lib where
  "sample_lib = \<lparr>ml_open = (\<lambda>p. Inr ''x''), ml_yaml = (\<lambda>b. [Inr JNull]), ml_json = (\<lambda>v. ''{}''),
     ml_sha256 = (\<lambda>b. ''00'')\<rparr>"

definition sample_resource :: json where
  "sample_resource = JObj [(''apiVersion'', JStr ''v1''), (''kind'', JStr ''ConfigMap''),
     (''metadata'', JObj [(''name'', JStr ''cm'')])]"

declare sample_lib_def [exec_simps] sample_resource_def [exec_simps]

lemma owned_is_accepted_witness:
  "\<exists>w. owned sample_lib sample_resource ''demo'' ''k3s'' = Inr w \<and> check_existing w ''demo'' ''k3s'' = Inr ()"
proof -
  obtain w where w: "owned sample_lib sample_resource ''demo'' ''k3s'' = Inr w"
    by (simp add: exec_simps)
  moreover have "json_get sample_resource ''kind'' \<noteq> JStr ''List''" by (simp add: exec_simps)
  ultimately show ?thesis using owned_is_accepted by blast
qed

text \<open>An object of the cluster matches what a resource declares in a way that is reflexive on
  well-formed values and transitive: what matches an applied resource matches what that matches.\<close>

lemma matches_desired_preorder:
  "(json_wf a \<longrightarrow> matches_desired a a)
   \<and> (matches_desired a b \<and> matches_desired b c \<longrightarrow> matches_desired a c)"
  using matches_desired_refl matches_desired_trans by blast

lemma matches_desired_preorder_witness:
  "matches_desired sample_resource sample_resource"
proof -
  have "json_wf sample_resource" by (simp add: sample_resource_def bm_wf_def)
  with matches_desired_preorder [of sample_resource sample_resource sample_resource] show ?thesis by blast
qed

text \<open>C40: a manifest file that is read gives between one and 128 resources, each with a nonempty
  apiVersion, kind and name and at most 240 KiB of JSON.\<close>

theorem read_manifest_bounds:
  assumes "read_manifest lib path = Inr out"
  shows "out \<noteq> [] \<and> length out \<le> 128 \<and> (\<forall>v \<in> set out. resource_ok lib v)"
  by (rule read_manifest_ok [OF assms])

lemma read_manifest_bounds_witness:
  "resource_ok (sample_lib\<lparr>ml_yaml := \<lambda>b. [Inr sample_resource]\<rparr>) sample_resource"
proof -
  have "read_manifest (sample_lib\<lparr>ml_yaml := \<lambda>b. [Inr sample_resource]\<rparr>) ''a.yaml'' = Inr [sample_resource]"
    by (simp add: exec_simps)
  from read_manifest_bounds [OF this] show ?thesis by simp
qed

end
