(* ===== verification/Kubernetes.thy ===== *)
theory Kubernetes
  imports Manifests ValidateNet Ports
begin

text \<open>
  Clusters: \<open>validate\<close> and \<open>node_ip\<close> of \<open>kubernetes.rs\<close>. The set of VMs already used as nodes
  and the CIDRs already taken live across the clusters: they are the state of the loop.

  The lemmas show that in an accepted environment no VM is a node twice, that every node is
  attached to the vmnet network of its cluster, and that the pod and service ranges of all
  clusters and all networks have no address in common.
\<close>

section \<open>validate\<close>

definition validate_node ::
    "environment \<Rightarrow> string \<Rightarrow> cluster_config \<Rightarrow> nat \<Rightarrow> string set \<Rightarrow> string
     \<Rightarrow> validation_issue list \<times> string set" where
  "validate_node env at cluster index used vm_name =
     (emit (\<not> k8s_dns_label vm_name)
        (semantic at (''Kubernetes node '' @ debug_str vm_name @ '' must be a DNS label''))
      @ emit (vm_name \<in> used)
        (semantic at (''VM '' @ debug_str vm_name @ '' occurs more than once or belongs to multiple clusters''))
      @ (case bm_get (env_vms env) vm_name of
           None \<Rightarrow> [semantic at (''unknown VM '' @ debug_str vm_name)]
         | Some vm \<Rightarrow>
             emit (\<not> attached_to (cl_network cluster) vm)
               (semantic (at @ ''.network'') (''VM '' @ debug_str vm_name @ '' is not attached to ''
                  @ debug_str (cl_network cluster)))),
      insert vm_name used)"

definition cidrs_overlap :: "'n ipnet_lib \<Rightarrow> 'n \<Rightarrow> 'n \<Rightarrow> bool" where
  "cidrs_overlap L a b \<longleftrightarrow> net_contains L a (net_network L b) \<or> net_contains L b (net_network L a)"

definition validate_cluster_cidr ::
    "'n ipnet_lib \<Rightarrow> environment \<Rightarrow> string \<Rightarrow> string \<Rightarrow> cluster_config \<Rightarrow> nat \<Rightarrow> (string \<times> 'n) list
     \<Rightarrow> string \<times> string \<times> nat \<Rightarrow> validation_issue list \<times> (string \<times> 'n) list" where
  "validate_cluster_cidr L env at name cluster index taken e =
     (let (field, text, max_prefix) = e;
          canonical = (\<lambda>cidr. net_addr L cidr = net_network L cidr
            \<and> 8 \<le> net_prefix_len L cidr \<and> net_prefix_len L cidr \<le> max_prefix);
          malformed = semantic (at @ ''.'' @ field)
            (''expected canonical IPv4 CIDR /8 through /'' @ show_nat max_prefix)
      in case net_parse L text of
           Inl _ \<Rightarrow> ([malformed], taken)
         | Inr cidr \<Rightarrow>
             if \<not> canonical cidr then ([malformed], taken)
             else
               (emit (field = ''podCIDR'' \<and> 2 ^ (24 - net_prefix_len L cidr) < length (cl_agents cluster) + 1)
                  (semantic (at @ ''.podCIDR'') ''pod CIDR must provide one /24 subnet per node'')
                @ concat (map (\<lambda>(net_name, net).
                    case net_parse L (net_cidr net) of
                      Inl _ \<Rightarrow> []
                    | Inr other \<Rightarrow> emit (cidrs_overlap L cidr other)
                        (semantic (at @ ''.'' @ field) (''CIDR overlaps hypernetwork '' @ debug_str net_name)))
                    (env_networks env))
                @ concat (map (\<lambda>(other_name, other). emit (cidrs_overlap L cidr other)
                    (semantic (at @ ''.'' @ field) (''CIDR overlaps '' @ other_name))) taken),
                taken @ [(name @ ''.'' @ field, cidr)]))"

definition validate_cluster_manifest ::
    "manifest_lib \<Rightarrow> string option \<Rightarrow> environment \<Rightarrow> string \<Rightarrow> string \<Rightarrow> nat \<times> string \<Rightarrow> validation_issue list" where
  "validate_cluster_manifest lib base env at name e =
     (let (index, path) = e;
          field = at_index (at @ ''.manifests'') index
      in if path = [] \<or> contains_str path ''://'' then [semantic field ''expected a local YAML file path'']
         else case base of
                None \<Rightarrow> []
              | Some dir \<Rightarrow>
                  (case read_manifest lib (path_join dir path) of
                     Inl error \<Rightarrow> [semantic field error]
                   | Inr objects \<Rightarrow>
                       concat (map (\<lambda>v. case owned lib v (sp_project (env_spec env)) name of
                           Inl error \<Rightarrow> [semantic field error] | Inr _ \<Rightarrow> []) objects)))"

definition validate_cluster ::
    "'n ipnet_lib \<Rightarrow> manifest_lib \<Rightarrow> string option \<Rightarrow> environment \<Rightarrow> nat
     \<Rightarrow> string set \<times> (string \<times> 'n) list \<Rightarrow> string \<times> cluster_config
     \<Rightarrow> validation_issue list \<times> string set \<times> (string \<times> 'n) list" where
  "validate_cluster L lib base env cluster_index state e =
     (let (name, cluster) = e;
          at = ''$.spec.kubernetes.clusters.'' @ name;
          (node_issues, used) =
            run_loop (validate_node env at cluster) 0 (fst state) (cl_server cluster # cl_agents cluster);
          (cidr_issues, taken) =
            run_loop (validate_cluster_cidr L env at name cluster) 0 (snd state)
              [(''podCIDR'', cl_pod_cidr cluster, 24), (''serviceCIDR'', cl_service_cidr cluster, 28)]
      in (emit (\<not> k8s_dns_label name) (semantic at ''cluster name must be a DNS label'')
          @ emit (\<not> k8s_dns_label (cl_default_namespace cluster))
            (semantic (at @ ''.defaultNamespace'') ''namespace must be a DNS label'')
          @ (case bm_get (env_networks env) (cl_network cluster) of
               None \<Rightarrow> [semantic (at @ ''.network'') (''unknown network '' @ debug_str (cl_network cluster))]
             | Some network \<Rightarrow> emit (net_backend network = Docker)
                 (semantic (at @ ''.network'') ''K3s nodes require a vmnet network, not a Docker bridge''))
          @ node_issues
          @ cidr_issues
          @ emit (32 < length (cl_manifests cluster))
            (semantic (at @ ''.manifests'') ''at most 32 manifest files are supported'')
          @ concat (map (validate_cluster_manifest lib base env at name) (enumerate 0 (cl_manifests cluster))),
          used, taken))"

definition kubernetes_validate ::
    "'n ipnet_lib \<Rightarrow> manifest_lib \<Rightarrow> string option \<Rightarrow> environment \<Rightarrow> validation_issue list" where
  "kubernetes_validate L lib base env =
     fst (run_loop (validate_cluster L lib base env) 0 ({}, []) (k8s_clusters (sp_kubernetes (env_spec env))))"

section \<open>node_ip and manifest_paths\<close>

definition node_ip :: "environment \<Rightarrow> cluster_config \<Rightarrow> string \<Rightarrow> (string, string) result" where
  "node_ip env cluster vm =
     and_then (ok_or (''K3s node '' @ vm @ '' does not exist'') (bm_get (env_vms env) vm)) (\<lambda>node.
       case filter (\<lambda>a. att_name a = cl_network cluster) (vm_networks node) of
         [] \<Rightarrow> Inl (''K3s node '' @ vm @ '' lacks network '' @ cl_network cluster)
       | [attachment] \<Rightarrow> Inr (att_ip attachment)
       | _ \<Rightarrow> Inl (''K3s node '' @ vm @ '' has ambiguous network '' @ cl_network cluster))"

definition manifest_paths :: "environment \<Rightarrow> string \<Rightarrow> string list" where
  "manifest_paths env base =
     concat (map (\<lambda>cluster. map (path_join base) (cl_manifests cluster))
       (bm_values (k8s_clusters (sp_kubernetes (env_spec env)))))"

lemmas kubernetes_defs [exec_simps] = validate_node_def cidrs_overlap_def validate_cluster_cidr_def
  validate_cluster_manifest_def validate_cluster_def kubernetes_validate_def node_ip_def manifest_paths_def

section \<open>What is accepted\<close>

definition node_ok :: "environment \<Rightarrow> cluster_config \<Rightarrow> string \<Rightarrow> bool" where
  "node_ok env cluster vm_name \<longleftrightarrow>
     k8s_dns_label vm_name
     \<and> (\<exists>vm. bm_get (env_vms env) vm_name = Some vm \<and> attached_to (cl_network cluster) vm)"

definition range_ok :: "'n ipnet_lib \<Rightarrow> nat \<Rightarrow> 'n \<Rightarrow> bool" where
  "range_ok L max_prefix cidr \<longleftrightarrow>
     net_addr L cidr = net_network L cidr \<and> 8 \<le> net_prefix_len L cidr \<and> net_prefix_len L cidr \<le> max_prefix"

definition free_range :: "'n ipnet_lib \<Rightarrow> environment \<Rightarrow> 'n \<Rightarrow> bool" where
  "free_range L env cidr \<longleftrightarrow>
     (\<forall>net \<in> set (bm_values (env_networks env)). \<forall>other. cidr_of L net = Some other \<longrightarrow> \<not> cidrs_overlap L cidr other)"

definition manifest_ok :: "manifest_lib \<Rightarrow> string option \<Rightarrow> environment \<Rightarrow> string \<Rightarrow> string \<Rightarrow> bool" where
  "manifest_ok lib base env name path \<longleftrightarrow>
     path \<noteq> [] \<and> \<not> contains_str path ''://''
     \<and> (\<forall>dir. base = Some dir \<longrightarrow>
          (\<exists>objects. read_manifest lib (path_join dir path) = Inr objects
             \<and> (\<forall>v \<in> set objects. is_ok (owned lib v (sp_project (env_spec env)) name))))"

definition cluster_nodes :: "cluster_config \<Rightarrow> string list" where
  "cluster_nodes cluster = cl_server cluster # cl_agents cluster"

definition cluster_ok ::
    "'n ipnet_lib \<Rightarrow> manifest_lib \<Rightarrow> string option \<Rightarrow> environment \<Rightarrow> string \<times> cluster_config \<Rightarrow> bool" where
  "cluster_ok L lib base env e \<longleftrightarrow>
     k8s_dns_label (fst e) \<and> k8s_dns_label (cl_default_namespace (snd e))
     \<and> (\<exists>network. bm_get (env_networks env) (cl_network (snd e)) = Some network \<and> net_backend network \<noteq> Docker)
     \<and> (\<forall>n \<in> set (cluster_nodes (snd e)). node_ok env (snd e) n)
     \<and> (\<exists>pod service. net_parse L (cl_pod_cidr (snd e)) = Inr pod \<and> net_parse L (cl_service_cidr (snd e)) = Inr service
          \<and> range_ok L 24 pod \<and> range_ok L 28 service
          \<and> length (cl_agents (snd e)) + 1 \<le> 2 ^ (24 - net_prefix_len L pod)
          \<and> free_range L env pod \<and> free_range L env service)
     \<and> length (cl_manifests (snd e)) \<le> 32
     \<and> (\<forall>p \<in> set (cl_manifests (snd e)). manifest_ok lib base env (fst e) p)"

text \<open>The pod and service ranges of a cluster.\<close>

definition cluster_ranges :: "'n ipnet_lib \<Rightarrow> cluster_config \<Rightarrow> 'n list" where
  "cluster_ranges L cluster =
     concat (map (\<lambda>t. case net_parse L t of Inr c \<Rightarrow> [c] | Inl _ \<Rightarrow> []) [cl_pod_cidr cluster, cl_service_cidr cluster])"

fun pairwise_free :: "'n ipnet_lib \<Rightarrow> 'n list \<Rightarrow> 'n list \<Rightarrow> bool" where
  "pairwise_free L taken [] \<longleftrightarrow> True"
| "pairwise_free L taken (c # cs) \<longleftrightarrow>
     (\<forall>other \<in> set taken. \<not> cidrs_overlap L c other) \<and> pairwise_free L (taken @ [c]) cs"

lemma pairwise_free_append:
  "pairwise_free L taken (xs @ ys) \<longleftrightarrow> pairwise_free L taken xs \<and> pairwise_free L (taken @ xs) ys"
  by (induction L taken xs rule: pairwise_free.induct) auto

lemma validate_node_Nil:
  "fst (validate_node env at cluster i used n) = [] \<longleftrightarrow> n \<notin> used \<and> node_ok env cluster n"
  "snd (validate_node env at cluster i used n) = insert n used"
  by (auto simp: validate_node_def node_ok_def split: option.splits)

lemma validate_nodes_used: "snd (run_loop (validate_node env at cluster) i used ns) = used \<union> set ns"
  by (induction ns arbitrary: i used) (auto simp: run_loop_snd validate_node_Nil(2) simp del: run_loop.simps(2))

lemma validate_nodes_Nil:
  "fst (run_loop (validate_node env at cluster) i used ns) = [] \<longleftrightarrow>
     distinct ns \<and> set ns \<inter> used = {} \<and> (\<forall>n \<in> set ns. node_ok env cluster n)"
  by (subst run_loop_keys_iff [where key = "\<lambda>n. n" and ok = "node_ok env cluster"])
    (auto simp: validate_node_Nil)

lemma validate_cluster_cidr_Nil:
  "fst (validate_cluster_cidr L env at name cluster i taken (field, text, maxp)) = [] \<longleftrightarrow>
     (\<exists>cidr. net_parse L text = Inr cidr \<and> range_ok L maxp cidr \<and> free_range L env cidr
        \<and> (field = ''podCIDR'' \<longrightarrow> length (cl_agents cluster) + 1 \<le> 2 ^ (24 - net_prefix_len L cidr))
        \<and> (\<forall>other \<in> set (map snd taken). \<not> cidrs_overlap L cidr other))"
proof -
  have nets: "(\<forall>e \<in> set (env_networks env). (case e of (net_name, net) \<Rightarrow>
        case net_parse L (net_cidr net) of Inl _ \<Rightarrow> []
          | Inr other \<Rightarrow> emit (cidrs_overlap L cidr other) (issue net_name)) = [])
      \<longleftrightarrow> free_range L env cidr" for cidr and issue :: "string \<Rightarrow> validation_issue"
    by (auto simp: free_range_def cidr_of_def split: sum.splits)
  show ?thesis
    by (cases "net_parse L text")
      (auto simp: validate_cluster_cidr_def Let_def range_ok_def nets not_less simp del: concat_eq_Nil_conv)
qed

lemma validate_cluster_cidr_state:
  "fst (validate_cluster_cidr L env at name cluster i taken (field, text, maxp)) = [] \<Longrightarrow>
     \<exists>cidr. net_parse L text = Inr cidr
       \<and> snd (validate_cluster_cidr L env at name cluster i taken (field, text, maxp)) = taken @ [(name @ ''.'' @ field, cidr)]"
  by (auto simp: validate_cluster_cidr_def Let_def split: sum.splits if_splits)

lemma validate_manifest_Nil:
  "validate_cluster_manifest lib base env at name (i, path) = [] \<longleftrightarrow> manifest_ok lib base env name path"
  by (cases base)
    (auto simp: validate_cluster_manifest_def manifest_ok_def is_ok_def Let_def split: sum.splits
      simp del: concat_eq_Nil_conv)

lemma cluster_ranges_parsed:
  assumes "net_parse L (cl_pod_cidr cluster) = Inr pod" and "net_parse L (cl_service_cidr cluster) = Inr service"
  shows "cluster_ranges L cluster = [pod, service]"
  using assms by (simp add: cluster_ranges_def)

definition cluster_cidr_fields :: "cluster_config \<Rightarrow> (string \<times> string \<times> nat) list" where
  "cluster_cidr_fields cluster =
     [(''podCIDR'', cl_pod_cidr cluster, 24), (''serviceCIDR'', cl_service_cidr cluster, 28)]"

lemma validate_cluster_cidrs_Nil:
  "fst (run_loop (validate_cluster_cidr L env at name cluster) i taken (cluster_cidr_fields cluster)) = [] \<longleftrightarrow>
     (\<exists>pod service. net_parse L (cl_pod_cidr cluster) = Inr pod \<and> net_parse L (cl_service_cidr cluster) = Inr service
        \<and> range_ok L 24 pod \<and> range_ok L 28 service
        \<and> length (cl_agents cluster) + 1 \<le> 2 ^ (24 - net_prefix_len L pod)
        \<and> free_range L env pod \<and> free_range L env service)
     \<and> pairwise_free L (map snd taken) (cluster_ranges L cluster)"
proof -
  let ?one = "validate_cluster_cidr L env at name cluster i taken (''podCIDR'', cl_pod_cidr cluster, 24)"
  show ?thesis
  proof (cases "fst ?one = []")
    case True
    then obtain pod where pod: "net_parse L (cl_pod_cidr cluster) = Inr pod"
      "snd ?one = taken @ [(name @ ''.podCIDR'', pod)]"
      using validate_cluster_cidr_state [OF True] by auto
    show ?thesis
      unfolding cluster_cidr_fields_def run_loop_Cons_Nil pod(2) using True pod(1)
      by (cases "net_parse L (cl_service_cidr cluster)")
        (auto simp: validate_cluster_cidr_Nil cluster_ranges_def)
  next
    case False
    then have "\<nexists>pod. net_parse L (cl_pod_cidr cluster) = Inr pod \<and> range_ok L 24 pod \<and> free_range L env pod
        \<and> length (cl_agents cluster) + 1 \<le> 2 ^ (24 - net_prefix_len L pod)
        \<and> (\<forall>other \<in> set (map snd taken). \<not> cidrs_overlap L pod other)"
      by (simp add: validate_cluster_cidr_Nil)
    with False show ?thesis
      unfolding cluster_cidr_fields_def run_loop_Cons_Nil
      by (auto simp: cluster_ranges_def split: sum.splits)
  qed
qed

lemma validate_cluster_cidrs_state:
  assumes "fst (run_loop (validate_cluster_cidr L env at name cluster) i taken (cluster_cidr_fields cluster)) = []"
  shows "map snd (snd (run_loop (validate_cluster_cidr L env at name cluster) i taken (cluster_cidr_fields cluster)))
    = map snd taken @ cluster_ranges L cluster"
proof -
  let ?one = "validate_cluster_cidr L env at name cluster i taken (''podCIDR'', cl_pod_cidr cluster, 24)"
  have one: "fst ?one = []" and two: "fst (validate_cluster_cidr L env at name cluster (Suc i) (snd ?one)
      (''serviceCIDR'', cl_service_cidr cluster, 28)) = []"
    using assms unfolding cluster_cidr_fields_def run_loop_Cons_Nil by blast+
  from validate_cluster_cidr_state [OF one] validate_cluster_cidr_state [OF two]
  show ?thesis
    unfolding cluster_cidr_fields_def run_loop_snd by (auto simp: cluster_ranges_def)
qed

lemma validate_cluster_Nil:
  "fst (validate_cluster L lib base env i st e) = [] \<longleftrightarrow>
     cluster_ok L lib base env e \<and> distinct (cluster_nodes (snd e))
     \<and> set (cluster_nodes (snd e)) \<inter> fst st = {} \<and> pairwise_free L (map snd (snd st)) (cluster_ranges L (snd e))"
proof -
  let ?at = "''$.spec.kubernetes.clusters.'' @ fst e"
  have manifests: "concat (map (validate_cluster_manifest lib base env ?at (fst e)) (enumerate 0 ps)) = []
      \<longleftrightarrow> (\<forall>p \<in> set ps. manifest_ok lib base env (fst e) p)" for ps
    by (rule ball_pass) (rule validate_manifest_Nil)
  have network: "(case bm_get (env_networks env) n of None \<Rightarrow> [a] | Some net \<Rightarrow> emit (net_backend net = Docker) b) = []
      \<longleftrightarrow> (\<exists>net. bm_get (env_networks env) n = Some net \<and> net_backend net \<noteq> Docker)"
    for n and a b :: validation_issue
    by (simp split: option.splits)
  have "fst (validate_cluster L lib base env i st e) = [] \<longleftrightarrow>
      k8s_dns_label (fst e) \<and> k8s_dns_label (cl_default_namespace (snd e))
      \<and> (\<exists>net. bm_get (env_networks env) (cl_network (snd e)) = Some net \<and> net_backend net \<noteq> Docker)
      \<and> fst (run_loop (validate_node env ?at (snd e)) 0 (fst st) (cluster_nodes (snd e))) = []
      \<and> fst (run_loop (validate_cluster_cidr L env ?at (fst e) (snd e)) 0 (snd st) (cluster_cidr_fields (snd e))) = []
      \<and> length (cl_manifests (snd e)) \<le> 32
      \<and> (\<forall>p \<in> set (cl_manifests (snd e)). manifest_ok lib base env (fst e) p)"
    unfolding validate_cluster_def split_beta Let_def cluster_nodes_def [symmetric]
      cluster_cidr_fields_def [symmetric] fst_conv append_is_Nil_conv manifests network
    by (simp add: not_less)
  then show ?thesis
    unfolding validate_nodes_Nil validate_cluster_cidrs_Nil cluster_ok_def by blast
qed

lemma validate_cluster_state:
  assumes "fst (validate_cluster L lib base env i st e) = []"
  shows "fst (snd (validate_cluster L lib base env i st e)) = fst st \<union> set (cluster_nodes (snd e))"
    and "map snd (snd (snd (validate_cluster L lib base env i st e))) = map snd (snd st) @ cluster_ranges L (snd e)"
proof -
  let ?at = "''$.spec.kubernetes.clusters.'' @ fst e"
  have state: "snd (validate_cluster L lib base env i st e) =
      (snd (run_loop (validate_node env ?at (snd e)) 0 (fst st) (cluster_nodes (snd e))),
       snd (run_loop (validate_cluster_cidr L env ?at (fst e) (snd e)) 0 (snd st) (cluster_cidr_fields (snd e))))"
    unfolding validate_cluster_def split_beta Let_def cluster_nodes_def cluster_cidr_fields_def by (rule snd_conv)
  show "fst (snd (validate_cluster L lib base env i st e)) = fst st \<union> set (cluster_nodes (snd e))"
    unfolding state by (simp only: fst_conv validate_nodes_used)
  have "fst (run_loop (validate_cluster_cidr L env ?at (fst e) (snd e)) 0 (snd st) (cluster_cidr_fields (snd e))) = []"
    unfolding validate_cluster_cidrs_Nil using assms unfolding validate_cluster_Nil cluster_ok_def by blast
  from validate_cluster_cidrs_state [OF this]
  show "map snd (snd (snd (validate_cluster L lib base env i st e))) = map snd (snd st) @ cluster_ranges L (snd e)"
    unfolding state by simp
qed

lemma validate_clusters_loop:
  "fst (run_loop (validate_cluster L lib base env) i st es) = [] \<longleftrightarrow>
     (\<forall>e \<in> set es. cluster_ok L lib base env e)
     \<and> distinct (concat (map (\<lambda>e. cluster_nodes (snd e)) es))
     \<and> set (concat (map (\<lambda>e. cluster_nodes (snd e)) es)) \<inter> fst st = {}
     \<and> pairwise_free L (map snd (snd st)) (concat (map (\<lambda>e. cluster_ranges L (snd e)) es))"
proof (induction es arbitrary: i st)
  case Nil
  then show ?case by simp
next
  case (Cons e es)
  show ?case
  proof (cases "fst (validate_cluster L lib base env i st e) = []")
    case True
    then show ?thesis
      unfolding run_loop_Cons_Nil Cons.IH validate_cluster_state [OF True]
      using True unfolding validate_cluster_Nil
      by (auto simp: pairwise_free_append)
  next
    case False
    then show ?thesis
      unfolding run_loop_Cons_Nil validate_cluster_Nil by (auto simp: pairwise_free_append)
  qed
qed

definition clusters_ok :: "'n ipnet_lib \<Rightarrow> manifest_lib \<Rightarrow> string option \<Rightarrow> environment \<Rightarrow> bool" where
  "clusters_ok L lib base env \<longleftrightarrow>
     (let clusters = k8s_clusters (sp_kubernetes (env_spec env))
      in (\<forall>e \<in> set clusters. cluster_ok L lib base env e)
         \<and> distinct (concat (map (\<lambda>e. cluster_nodes (snd e)) clusters))
         \<and> pairwise_free L [] (concat (map (\<lambda>e. cluster_ranges L (snd e)) clusters)))"

lemma kubernetes_validate_Nil: "kubernetes_validate L lib base env = [] \<longleftrightarrow> clusters_ok L lib base env"
  by (simp add: kubernetes_validate_def clusters_ok_def validate_clusters_loop Let_def)

section \<open>Ranges that do not overlap have no address in common\<close>

lemma overlap_complete:
  assumes "ipnet_laws L" and "net_contains L a ip" and "net_contains L b ip"
  shows "cidrs_overlap L a b"
proof (cases "net_network L a \<le> net_network L b")
  case True
  with assms have "net_contains L a (net_network L b)"
    by (simp add: ipnet_contains) (meson order_trans)
  then show ?thesis by (simp add: cidrs_overlap_def)
next
  case False
  with assms have "net_contains L b (net_network L a)"
    by (simp add: ipnet_contains not_le) (meson order_trans less_imp_le)
  then show ?thesis by (simp add: cidrs_overlap_def)
qed

lemma pairwise_free_nth:
  "pairwise_free L taken cs \<Longrightarrow> i < j \<Longrightarrow> j < length cs \<Longrightarrow> \<not> cidrs_overlap L (cs ! j) (cs ! i)"
proof (induction L taken cs arbitrary: i j rule: pairwise_free.induct)
  case (2 L taken c cs)
  obtain m where m: "j = Suc m" using 2(3) by (cases j) auto
  have taken: "\<forall>other \<in> set taken'. \<not> cidrs_overlap L x other"
    if "pairwise_free L taken' xs" "x \<in> set xs" for taken' xs x
    using that by (induction L taken' xs rule: pairwise_free.induct) auto
  show ?case
  proof (cases i)
    case 0
    with 2 m taken [of "taken @ [c]" cs "cs ! m"] show ?thesis by auto
  next
    case (Suc k)
    with 2 m show ?thesis by auto
  qed
qed simp

text \<open>All address ranges of the clusters and the networks of an accepted environment.\<close>

definition cluster_ranges_of :: "'n ipnet_lib \<Rightarrow> environment \<Rightarrow> 'n list" where
  "cluster_ranges_of L env =
     concat (map (\<lambda>e. cluster_ranges L (snd e)) (k8s_clusters (sp_kubernetes (env_spec env))))"

lemma accepted_ranges:
  assumes "ipnet_laws L" and ok: "clusters_ok L lib dir env"
    and "i < length (cluster_ranges_of L env)"
    and "net_contains L (cluster_ranges_of L env ! i) ip"
  shows "(\<forall>j < length (cluster_ranges_of L env). j \<noteq> i \<longrightarrow> \<not> net_contains L (cluster_ranges_of L env ! j) ip)
    \<and> (\<forall>net \<in> set (bm_values (env_networks env)). \<forall>cidr. cidr_of L net = Some cidr \<longrightarrow> \<not> net_contains L cidr ip)"
proof -
  let ?rs = "cluster_ranges_of L env"
  from ok have free: "pairwise_free L [] ?rs"
    unfolding clusters_ok_def cluster_ranges_of_def Let_def by blast
  have "\<not> net_contains L (?rs ! j) ip" if j: "j < length ?rs" "j \<noteq> i" for j
  proof
    assume "net_contains L (?rs ! j) ip"
    then have "cidrs_overlap L (?rs ! i) (?rs ! j)" "cidrs_overlap L (?rs ! j) (?rs ! i)"
      using overlap_complete [OF assms(1)] assms(4) by blast+
    with pairwise_free_nth [OF free, of i j] pairwise_free_nth [OF free, of j i] j assms(3)
    show False by (cases "i < j") auto
  qed
  moreover have "free_range L env (?rs ! i)"
  proof -
    have "?rs ! i \<in> set ?rs" using assms(3) by simp
    then obtain e where e: "e \<in> set (k8s_clusters (sp_kubernetes (env_spec env)))"
        "?rs ! i \<in> set (cluster_ranges L (snd e))"
      by (auto simp: cluster_ranges_of_def)
    have "cluster_ok L lib dir env e"
      using ok e(1) unfolding clusters_ok_def Let_def by blast
    then obtain pod service where "net_parse L (cl_pod_cidr (snd e)) = Inr pod"
        "net_parse L (cl_service_cidr (snd e)) = Inr service" "free_range L env pod" "free_range L env service"
      unfolding cluster_ok_def by blast
    with e(2) cluster_ranges_parsed show ?thesis by fastforce
  qed
  then have "\<forall>net \<in> set (bm_values (env_networks env)). \<forall>cidr. cidr_of L net = Some cidr \<longrightarrow> \<not> net_contains L cidr ip"
    using overlap_complete [OF assms(1,4)] unfolding free_range_def by blast
  ultimately show ?thesis by blast
qed

lemma node_ip_ok:
  assumes "node_ok env cluster n"
    and "\<And>vm. bm_get (env_vms env) n = Some vm \<Longrightarrow> distinct (map att_name (vm_networks vm))"
  shows "\<exists>ip. node_ip env cluster n = Inr ip"
proof -
  obtain vm where vm: "bm_get (env_vms env) n = Some vm" "attached_to (cl_network cluster) vm"
    using assms(1) by (auto simp: node_ok_def)
  have "\<exists>a. filter (\<lambda>a. att_name a = net) as = [a]"
    if "distinct (map att_name as)" "net \<in> set (map att_name as)" for net as
    using that
  proof (induction as)
    case (Cons b as)
    show ?case
    proof (cases "att_name b = net")
      case True
      with Cons.prems have "filter (\<lambda>a. att_name a = net) as = []"
        by (auto simp: filter_empty_conv intro: rev_image_eqI)
      with True show ?thesis by simp
    next
      case False
      with Cons show ?thesis by simp
    qed
  qed simp
  then obtain a where "filter (\<lambda>a. att_name a = cl_network cluster) (vm_networks vm) = [a]"
    using vm(2) assms(2) [OF vm(1)] unfolding attached_to_def by blast
  with vm(1) show ?thesis by (simp add: node_ip_def)
qed

section \<open>Properties\<close>

definition sample_cluster :: cluster_config where
  "sample_cluster = \<lparr>cl_version = ''v1.30.0+k3s1'', cl_sha256 = ''00'', cl_server = ''db'', cl_agents = [''web''],
     cl_network = ''lan'', cl_pod_cidr = ''10.42.0.0/16'', cl_service_cidr = ''10.43.0.0/16'',
     cl_manifests = [''app.yaml''], cl_default_namespace = ''default''\<rparr>"

definition sample_kube_env :: environment where
  "sample_kube_env = sample_env\<lparr>env_spec := (env_spec sample_env)\<lparr>
     sp_kubernetes := \<lparr>k8s_clusters = [(''edge'', sample_cluster)]\<rparr>\<rparr>\<rparr>"

declare sample_cluster_def [exec_simps] sample_kube_env_def [exec_simps] cluster_ranges_of_def [exec_simps]
  cluster_ranges_def [exec_simps] cluster_nodes_def [exec_simps]

lemma sample_kube_silent: "kubernetes_validate cidr_lib sample_lib None sample_kube_env = []"
  by (simp add: exec_simps Let_def cong: emit_cong)

text \<open>C38: when cluster validation finds nothing, an address of the pod or service range of a cluster
  lies in no other such range, of this or another cluster, and in no network of the environment.\<close>

theorem cluster_ranges_exclusive:
  assumes "ipnet_laws L" and "kubernetes_validate L lib dir env = []"
    and "i < length (cluster_ranges_of L env)" and "net_contains L (cluster_ranges_of L env ! i) ip"
  shows "(\<forall>j < length (cluster_ranges_of L env). j \<noteq> i \<longrightarrow> \<not> net_contains L (cluster_ranges_of L env ! j) ip)
    \<and> (\<forall>net \<in> set (bm_values (env_networks env)). \<forall>cidr. cidr_of L net = Some cidr \<longrightarrow> \<not> net_contains L cidr ip)"
  by (rule accepted_ranges [OF assms(1) assms(2) [unfolded kubernetes_validate_Nil] assms(3,4)])

lemma cluster_ranges_exclusive_witness:
  "\<not> net_contains cidr_lib (0x0a2b0000, 16) 0x0a2a0105"
proof -
  have ranges: "cluster_ranges_of cidr_lib sample_kube_env = [(0x0a2a0000, 16), (0x0a2b0000, 16)]"
    by (simp add: exec_simps)
  have "net_contains cidr_lib (0x0a2a0000, 16) 0x0a2a0105" by (simp add: exec_simps word_le_nat_alt)
  then show ?thesis
    using cluster_ranges_exclusive [OF cidr_lib_laws sample_kube_silent, of 0 "0x0a2a0105"]
    by (auto simp: ranges)
qed

end
