(* ===== verification/Services.thy ===== *)
theory Services
  imports ValidateNet Ports
begin

text \<open>
  Service providers and claims: \<open>validate_config\<close> of \<open>controllers/validation.rs\<close> with the
  predicates it calls in \<open>controllers/postgres.rs\<close> and \<open>controllers/s3.rs\<close>. IPv6 addresses are
  parsed as the standard library does: up to eight groups of at most four hex digits, one \<open>::\<close>,
  an optional IPv4 tail. The sets \<open>resources\<close> and \<open>secret_targets\<close> live across the claims: they
  are the state of the loop.

  The lemmas say what a silent pass guarantees of every claim and its provider.
\<close>

section \<open>IPv6 addresses\<close>

definition is_hex_digit :: "char \<Rightarrow> bool" where
  "is_hex_digit c \<longleftrightarrow> is_ascii_digit c \<or> 97 \<le> byte c \<and> byte c \<le> 102 \<or> 65 \<le> byte c \<and> byte c \<le> 70"

definition hex_value :: "char \<Rightarrow> nat" where
  "hex_value c = (if is_ascii_digit c then byte c - 48 else if 97 \<le> byte c then byte c - 87 else byte c - 55)"

definition read_hex_group :: "string \<Rightarrow> (nat \<times> string) option" where
  "read_hex_group s =
     (let ds = takeWhile is_hex_digit s
      in if ds \<noteq> [] \<and> length ds \<le> 4
         then Some (foldl (\<lambda>n c. 16 * n + hex_value c) 0 ds, dropWhile is_hex_digit s) else None)"

definition read_octet :: "string \<Rightarrow> (nat \<times> string) option" where
  "read_octet s =
     map_option (\<lambda>n. (n, dropWhile is_ascii_digit s)) (parse_octet (takeWhile is_ascii_digit s))"

fun read_octets :: "nat \<Rightarrow> nat \<Rightarrow> string \<Rightarrow> (nat list \<times> string) option" where
  "read_octets i 0 s = Some ([], s)"
| "read_octets i (Suc n) s =
     (case (if i = 0 then Some s else strip_prefix s ''.'') of
        None \<Rightarrow> None
      | Some r \<Rightarrow>
          (case read_octet r of
             None \<Rightarrow> None
           | Some (o1, r') \<Rightarrow> map_option (\<lambda>(os, t). (o1 # os, t)) (read_octets (Suc i) n r')))"

definition read_separator :: "nat \<Rightarrow> string \<Rightarrow> string option" where
  "read_separator i s = (if i = 0 then Some s else strip_prefix s '':'')"

text \<open>\<open>n\<close> groups are still allowed; with at least two, an IPv4 address may end the part.\<close>

fun read_groups :: "nat \<Rightarrow> nat \<Rightarrow> string \<Rightarrow> nat list \<times> bool \<times> string" where
  "read_groups i 0 s = ([], False, s)"
| "read_groups i (Suc n) s =
     (case read_separator i s of
        None \<Rightarrow> ([], False, s)
      | Some r \<Rightarrow>
          (case (if n = 0 then None else read_octets 0 4 r) of
             Some ([a, b, c, d], t) \<Rightarrow> ([a * 256 + b, c * 256 + d], True, t)
           | _ \<Rightarrow>
               (case read_hex_group r of
                  None \<Rightarrow> ([], False, s)
                | Some (g, r') \<Rightarrow>
                    (let (gs, v4, t) = read_groups (Suc i) n r' in (g # gs, v4, t)))))"

definition parse_ipv6 :: "string \<Rightarrow> nat list option" where
  "parse_ipv6 s =
     (let (head, head_v4, rest) = read_groups 0 8 s
      in if length head = 8 then (if rest = [] then Some head else None)
         else if head_v4 then None
         else case strip_prefix rest ''::'' of
                None \<Rightarrow> None
              | Some r \<Rightarrow>
                  (let (tail, tail_v4, rest') = read_groups 0 (7 - length head) r
                   in if rest' = []
                      then Some (head @ replicate (8 - length head - length tail) 0 @ tail) else None))"

definition ipv6_is_loopback :: "nat list \<Rightarrow> bool" where
  "ipv6_is_loopback g \<longleftrightarrow> g = [0, 0, 0, 0, 0, 0, 0, 1]"

definition ipv6_maps_loopback :: "nat list \<Rightarrow> bool" where
  "ipv6_maps_loopback g \<longleftrightarrow> take 6 g = [0, 0, 0, 0, 0, 65535] \<and> g ! 6 div 256 = 127"

section \<open>Endpoints and resource names\<close>

text \<open>\<open>postgres::endpoint\<close>; an error is its reason and message.\<close>

definition host_label :: "string \<Rightarrow> bool" where
  "host_label label \<longleftrightarrow>
     label \<noteq> [] \<and> length label \<le> 63 \<and> is_ascii_alphanumeric (hd label) \<and> is_ascii_alphanumeric (last label)
     \<and> list_all (\<lambda>c. is_ascii_alphanumeric c \<or> c = CHR ''-'') label"

definition endpoint :: "string \<Rightarrow> (string \<times> u16, string \<times> string) result" where
  "endpoint s =
     and_then (ok_or (''InvalidProvider'', ''PostgreSQL endpoint requires host:port'') (rsplit_once CHR '':'' s))
       (\<lambda>(h, p).
        and_then
          (if starts_with h ''['' \<and> ends_with h '']'' then
             (let ip = take (length h - 2) (tl h)
              in if parse_ipv6 ip = None then Inl (''InvalidProvider'', ''invalid IPv6 endpoint'') else Inr ip)
           else if h = [] \<or> 253 < length h
               \<or> list_all (\<lambda>c. is_ascii_digit c \<or> c = CHR ''.'') h \<and> parse_ipv4 h = None
               \<or> \<not> list_all host_label (split_on CHR ''.'' h) then
             Inl (''InvalidProvider'', ''invalid PostgreSQL host'')
           else Inr h)
          (\<lambda>host.
            case parse_u16 p of
              Some port \<Rightarrow>
                if port = 0 then Inl (''InvalidProvider'', ''invalid PostgreSQL port'') else Inr (host, port)
            | None \<Rightarrow> Inl (''InvalidProvider'', ''invalid PostgreSQL port'')))"

definition database_name :: "string \<Rightarrow> bool" where
  "database_name s \<longleftrightarrow>
     s \<noteq> [] \<and> length s \<le> 63
     \<and> (is_ascii_lowercase (hd s) \<or> is_ascii_uppercase (hd s))
     \<and> list_all (\<lambda>c. is_ascii_alphanumeric c \<or> c = CHR ''_'') s
     \<and> to_ascii_lowercase s \<notin> {''postgres'', ''template0'', ''template1''}
     \<and> \<not> starts_with (to_ascii_lowercase s) ''pg_''"

text \<open>\<open>split_once("://")\<close>\<close>

fun split_scheme :: "string \<Rightarrow> (string \<times> string) option" where
  "split_scheme [] = None"
| "split_scheme (c # cs) =
     (case strip_prefix (c # cs) ''://'' of
        Some r \<Rightarrow> Some ([], r)
      | None \<Rightarrow> map_option (\<lambda>(a, b). (c # a, b)) (split_scheme cs))"

definition valid_endpoint :: "string \<Rightarrow> bool" where
  "valid_endpoint s \<longleftrightarrow>
     (case split_scheme s of
        None \<Rightarrow> False
      | Some (scheme, a) \<Rightarrow>
          if scheme \<noteq> ''http'' \<and> scheme \<noteq> ''https'' then False
          else
            let authority = (if ends_with a ''/'' then butlast a else a);
                port = (if scheme = ''https'' then ''443'' else ''80'');
                with_port =
                  (if starts_with authority ''['' \<and> ends_with authority '']'' then authority @ '':'' @ port
                   else if contains_char authority CHR '':'' then authority
                   else authority @ '':'' @ port)
            in is_ok (endpoint with_port))"

definition valid_bucket :: "string \<Rightarrow> bool" where
  "valid_bucket s \<longleftrightarrow>
     3 \<le> length s \<and> length s \<le> 63
     \<and> list_all (\<lambda>c. is_ascii_lowercase c \<or> is_ascii_digit c \<or> c = CHR ''-'') s
     \<and> is_ascii_alphanumeric (hd s) \<and> is_ascii_alphanumeric (last s)
     \<and> \<not> starts_with s ''xn--'' \<and> \<not> starts_with s ''sthree-'' \<and> \<not> starts_with s ''amzn-s3-demo-''
     \<and> \<not> list_ex (ends_with s) [''-s3alias'', ''--ol-s3'', ''--x-s3'', ''--table-s3'']"

definition loopback :: "string \<Rightarrow> bool" where
  "loopback s =
     (let stripped = (case strip_prefix s ''https://'' of
            Some r \<Rightarrow> r
          | None \<Rightarrow> (case strip_prefix s ''http://'' of Some r \<Rightarrow> r | None \<Rightarrow> s));
          ep = trim_end_matches [CHR ''/''] stripped;
          host = (case strip_prefix ep ''['' of
              Some bracketed \<Rightarrow> (case split_once CHR '']'' bracketed of Some (h, _) \<Rightarrow> h | None \<Rightarrow> bracketed)
            | None \<Rightarrow> (case rsplit_once CHR '':'' ep of Some (h, _) \<Rightarrow> h | None \<Rightarrow> ep));
          hostname = to_ascii_lowercase host
      in hostname = ''localhost'' \<or> ends_with hostname ''.localhost''
         \<or> (case parse_ipv4 host of
              Some ip \<Rightarrow> is_loopback ip
            | None \<Rightarrow>
                (case parse_ipv6 host of
                   Some g \<Rightarrow> ipv6_is_loopback g \<or> ipv6_maps_loopback g
                 | None \<Rightarrow> False)))"

function trim_start_str :: "string \<Rightarrow> string \<Rightarrow> string" where
  "trim_start_str p s =
     (if p = [] then s else case strip_prefix s p of None \<Rightarrow> s | Some r \<Rightarrow> trim_start_str p r)"
  by pat_completeness auto
termination
  by (relation "measure (\<lambda>(p, s). length s)") (auto simp: strip_prefix_Some)

declare trim_start_str.simps [simp del]

section \<open>Providers\<close>

definition blank_option :: "string option \<Rightarrow> bool" where
  "blank_option v \<longleftrightarrow> v = None \<or> v = Some []"

definition validate_provider :: "environment \<Rightarrow> string \<times> provider_config \<Rightarrow> validation_issue list" where
  "validate_provider env e =
     (let (name, provider) = e;
          path = ''spec.serviceProviders.'' @ name
      in emit (\<not> controller_key name)
           (semantic path ''provider name must contain 1..63 letters, digits, underscores or hyphens'')
         @ (case pv_via provider of
              None \<Rightarrow> []
            | Some vm \<Rightarrow> emit (\<not> bm_contains (env_vms env) vm)
                (semantic (path @ ''.via'') ''provider references unknown VM''))
         @ (if pv_kind provider = KindPostgres \<or> pv_kind provider = KindS3 then
              emit (pv_via provider = None \<or> pv_endpoint provider = None)
                (semantic path ''provider requires via and endpoint'')
              @ concat (map (\<lambda>ep.
                  emit (\<not> (if pv_kind provider = KindPostgres then is_ok (endpoint ep) else valid_endpoint ep))
                    (semantic path ''provider endpoint is invalid; credentials in endpoint URLs are forbidden''))
                  ((case pv_endpoint provider of Some x \<Rightarrow> [x] | None \<Rightarrow> [])
                   @ (case pv_advertise_endpoint provider of Some x \<Rightarrow> [x] | None \<Rightarrow> [])))
              @ emit (pv_kind provider = KindPostgres
                    \<and> (blank_option (pv_admin_user provider) \<or> blank_option (pv_password_file provider)))
                (semantic path ''PostgreSQL requires adminUser and passwordFile'')
              @ emit (pv_kind provider = KindS3
                    \<and> (pv_implementation provider \<noteq> Some ''minio''
                       \<or> blank_option (pv_access_key_file provider) \<or> blank_option (pv_secret_key_file provider)))
                (semantic path ''S3 requires implementation: minio, accessKeyFile and secretKeyFile'')
            else
              emit (pv_via provider \<noteq> None \<or> pv_endpoint provider \<noteq> None)
                (semantic path ''Ingress/OIDC use the configured stack edge provider, not an external endpoint'')))"

section \<open>Claims\<close>

text \<open>The provider a claim selects, and the issue of the selection.\<close>

definition compatible_providers :: "environment \<Rightarrow> claim_config \<Rightarrow> (string \<times> provider_config) list" where
  "compatible_providers env claim =
     filter (\<lambda>(_, p). pv_kind p = cm_kind claim) (sp_service_providers (env_spec env))"

definition select_provider ::
    "environment \<Rightarrow> string \<Rightarrow> claim_config \<Rightarrow> validation_issue list \<times> provider_config option" where
  "select_provider env path claim =
     (let compatible = compatible_providers env claim
      in case cm_provider claim of
           Some provider \<Rightarrow>
             (let selected = map_option snd (find (\<lambda>(n, _). n = provider) compatible)
              in (emit (selected = None) (semantic (path @ ''.provider'') ''unknown or incompatible provider''), selected))
         | None \<Rightarrow>
             (case compatible of
                [p] \<Rightarrow> ([], Some (snd p))
              | _ \<Rightarrow>
                  (emit (1 < length compatible
                      \<or> compatible = [] \<and> (cm_kind claim = KindPostgres \<or> cm_kind claim = KindS3))
                     (semantic (path @ ''.provider'') ''select exactly one compatible provider''), None)))"

definition claim_resource :: "claim_config \<Rightarrow> string option" where
  "claim_resource claim =
     (case cm_kind claim of
        KindPostgres \<Rightarrow> cm_database claim
      | KindS3 \<Rightarrow> cm_bucket claim
      | KindOidc \<Rightarrow> cm_client_id claim
      | KindIngress \<Rightarrow> cm_host claim)"

definition show_kind :: "service_kind \<Rightarrow> string" where
  "show_kind k =
     (case k of KindIngress \<Rightarrow> ''Ingress'' | KindOidc \<Rightarrow> ''Oidc'' | KindPostgres \<Rightarrow> ''Postgres'' | KindS3 \<Rightarrow> ''S3'')"

definition edge_or :: "string option \<Rightarrow> string" where
  "edge_or v = (case v of Some s \<Rightarrow> s | None \<Rightarrow> ''stack-edge'')"

definition claim_identity :: "claim_config \<Rightarrow> provider_config option \<Rightarrow> string \<Rightarrow> string" where
  "claim_identity claim selected resource =
     show_kind (cm_kind claim) @ ''/'' @ edge_or (Option.bind selected pv_via)
     @ ''/'' @ edge_or (Option.bind selected pv_endpoint) @ ''/'' @ resource"

definition option_ok :: "(string \<Rightarrow> bool) \<Rightarrow> string option \<Rightarrow> bool" where
  "option_ok p v \<longleftrightarrow> (case v of Some s \<Rightarrow> p s | None \<Rightarrow> False)"

definition has_cluster :: "environment \<Rightarrow> string \<Rightarrow> bool" where
  "has_cluster env c \<longleftrightarrow> bm_contains (k8s_clusters (sp_kubernetes (env_spec env))) c"

definition validate_ingress_claim :: "environment \<Rightarrow> string \<Rightarrow> claim_config \<Rightarrow> validation_issue list" where
  "validate_ingress_claim env path claim =
     emit (\<not> option_ok controller_dns_name (cm_host claim))
       (semantic (path @ ''.host'') ''ingress host must be a DNS name'')
     @ emit (\<not> (case sp_ingress (env_spec env) of Some i \<Rightarrow> ing_enabled i | None \<Rightarrow> False))
       (semantic path ''ingress claim requires enabled spec.ingress'')
     @ emit (case sp_ingress (env_spec env) of
           Some i \<Rightarrow> list_ex (\<lambda>r. Some (ir_host r) = cm_host claim) (ing_routes i) | None \<Rightarrow> False)
       (semantic path ''ingress host is already declared in spec.ingress.routes'')
     @ (case cm_backend claim of
          Some (BackendVm vm port) \<Rightarrow>
            emit (\<not> bm_contains (env_vms env) vm \<or> port = 0)
              (semantic (path @ ''.backend'') ''unknown VM or invalid port'')
        | Some (BackendKubernetes target) \<Rightarrow>
            emit (\<not> has_cluster env (ks_cluster target) \<or> \<not> controller_dns_label (ks_namespace target)
                \<or> \<not> controller_dns_name (ks_service target) \<or> ks_port target = 0)
              (semantic (path @ ''.backend'') ''invalid Kubernetes service backend'')
        | None \<Rightarrow> [semantic (path @ ''.backend'') ''ingress requires backend''])"

definition redirect_uri_ok :: "string \<Rightarrow> bool" where
  "redirect_uri_ok uri \<longleftrightarrow>
     starts_with uri ''https://'' \<and> \<not> list_ex is_control (utf8_chars uri)
     \<and> \<not> contains_char uri CHR ''*'' \<and> \<not> contains_char uri CHR ''#''
     \<and> (let authority = hd (split_on CHR ''/'' (trim_start_str ''https://'' uri))
        in authority \<noteq> [] \<and> \<not> contains_char authority CHR ''@'')"

definition validate_oidc_claim :: "environment \<Rightarrow> string \<Rightarrow> claim_config \<Rightarrow> validation_issue list" where
  "validate_oidc_claim env path claim =
     emit (\<not> (case sp_oidc (env_spec env) of Some oidc \<Rightarrow> oidc_enabled oidc | None \<Rightarrow> False))
       (semantic path ''OIDC claim requires enabled spec.oidc'')
     @ emit (\<not> option_ok controller_key (cm_client_id claim))
       (semantic path ''OIDC clientID must contain 1..63 letters, digits, underscores or hyphens'')
     @ emit (cm_scopes claim \<noteq> [] \<and> set (cm_scopes claim) \<noteq> {''openid'', ''profile'', ''email''})
       (semantic (path @ ''.scopes'') ''UnsupportedOidcScopes: built-in providers support standard openid/profile/email; per-client restrictions are unavailable'')
     @ emit (cm_redirect_uris claim = [] \<or> list_ex (\<lambda>u. \<not> redirect_uri_ok u) (cm_redirect_uris claim))
       (semantic (path @ ''.redirectURIs'') ''OIDC requires explicit HTTPS redirect URIs without credentials, fragments or wildcards'')"

definition validate_claim_kind :: "environment \<Rightarrow> string \<Rightarrow> claim_config \<Rightarrow> validation_issue list" where
  "validate_claim_kind env path claim =
     (case cm_kind claim of
        KindPostgres \<Rightarrow> emit (\<not> option_ok database_name (cm_database claim))
          (semantic (path @ ''.database'') ''invalid or reserved PostgreSQL database name'')
      | KindS3 \<Rightarrow> emit (\<not> option_ok valid_bucket (cm_bucket claim))
          (semantic (path @ ''.bucket'') ''invalid or reserved S3 bucket name'')
      | KindIngress \<Rightarrow> validate_ingress_claim env path claim
      | KindOidc \<Rightarrow> validate_oidc_claim env path claim)"

section \<open>Consumers\<close>

definition container_consumer_ok :: "environment \<Rightarrow> string \<Rightarrow> string \<Rightarrow> bool" where
  "container_consumer_ok env vm container \<longleftrightarrow>
     controller_key container
     \<and> (case bm_get (env_vms env) vm of
          None \<Rightarrow> False
        | Some v \<Rightarrow> has_role ''docker'' v \<and> (bm_contains (vm_containers v) container \<or> vm_compose_files v \<noteq> []))"

definition secret_target :: "kubernetes_target \<Rightarrow> string" where
  "secret_target t = kt_cluster t @ ''/'' @ kt_namespace t @ ''/'' @ kt_secret t"

definition is_remote :: "provider_config option \<Rightarrow> consumer \<Rightarrow> bool" where
  "is_remote selected c \<longleftrightarrow>
     (case c of ConsumerVm vm \<Rightarrow> Option.bind selected pv_via \<noteq> Some vm | _ \<Rightarrow> True)"

definition needs_advertised :: "provider_config option \<Rightarrow> bool" where
  "needs_advertised selected \<longleftrightarrow>
     (case selected of
        None \<Rightarrow> False
      | Some p \<Rightarrow> option_ok loopback (pv_endpoint p)
          \<and> (case pv_advertise_endpoint p of None \<Rightarrow> True | Some a \<Rightarrow> loopback a))"

definition validate_consumer ::
    "environment \<Rightarrow> string \<Rightarrow> provider_config option \<Rightarrow> nat \<Rightarrow> string set \<Rightarrow> consumer
     \<Rightarrow> validation_issue list \<times> string set" where
  "validate_consumer env path selected index secrets c =
     ((case c of
         ConsumerVm vm \<Rightarrow> emit (\<not> bm_contains (env_vms env) vm) (semantic (path @ ''.consumers'') ''unknown VM consumer'')
       | ConsumerContainer target \<Rightarrow>
           (case split_once CHR ''/'' target of
              Some (vm, container) \<Rightarrow> emit (\<not> container_consumer_ok env vm container)
                (semantic (path @ ''.consumers'') ''container consumer needs a declared container or Compose service on a Docker VM'')
            | None \<Rightarrow> [semantic (path @ ''.consumers'') ''container consumer must be vm/container''])
       | ConsumerKubernetes target \<Rightarrow>
           emit (\<not> has_cluster env (kt_cluster target) \<or> \<not> controller_dns_label (kt_namespace target)
               \<or> \<not> controller_dns_name (kt_secret target))
             (semantic (path @ ''.consumers'') ''invalid Kubernetes consumer'')
           @ emit (secret_target target \<in> secrets)
             (semantic (path @ ''.consumers'') ''Kubernetes binding secret is assigned more than once''))
      @ emit (is_remote selected c \<and> needs_advertised selected)
        (semantic path ''loopback provider requires a non-loopback advertiseEndpoint for remote consumers''),
      case c of ConsumerKubernetes target \<Rightarrow> insert (secret_target target) secrets | _ \<Rightarrow> secrets)"

definition validate_claim ::
    "environment \<Rightarrow> nat \<Rightarrow> string set \<times> string set \<Rightarrow> string \<times> claim_config
     \<Rightarrow> validation_issue list \<times> string set \<times> string set" where
  "validate_claim env index state e =
     (let (name, claim) = e;
          (resources, secrets) = state;
          path = ''spec.serviceClaims.'' @ name;
          (select_issues, selected) = select_provider env path claim;
          required = claim_resource claim;
          (consumer_issues, secrets') = run_loop (validate_consumer env path selected) 0 secrets (cm_consumers claim)
      in (emit (\<not> controller_key name)
            (semantic path ''claim name must contain 1..63 letters, digits, underscores or hyphens'')
          @ select_issues
          @ emit (blank_option required) (semantic path ''claim is missing its resource name'')
          @ (case required of
               None \<Rightarrow> []
             | Some resource \<Rightarrow> emit (claim_identity claim selected resource \<in> resources)
                 (semantic path ''another claim already declares this provider resource''))
          @ validate_claim_kind env path claim
          @ consumer_issues,
          (case required of
             None \<Rightarrow> resources | Some resource \<Rightarrow> insert (claim_identity claim selected resource) resources),
          secrets'))"

definition controllers_validate_config :: "environment \<Rightarrow> validation_issue list" where
  "controllers_validate_config env =
     concat (map (validate_provider env) (sp_service_providers (env_spec env)))
     @ fst (run_loop (validate_claim env) 0 ({}, {}) (sp_service_claims (env_spec env)))"

lemmas services_defs [exec_simps] = is_hex_digit_def hex_value_def read_hex_group_def read_octet_def
  read_separator_def parse_ipv6_def ipv6_is_loopback_def ipv6_maps_loopback_def host_label_def endpoint_def
  database_name_def valid_endpoint_def valid_bucket_def loopback_def trim_start_str.simps blank_option_def
  validate_provider_def compatible_providers_def select_provider_def claim_resource_def show_kind_def
  edge_or_def claim_identity_def option_ok_def has_cluster_def validate_ingress_claim_def redirect_uri_ok_def
  validate_oidc_claim_def validate_claim_kind_def container_consumer_ok_def secret_target_def is_remote_def
  needs_advertised_def validate_consumer_def validate_claim_def controllers_validate_config_def

lemma read_numeral [exec_simps]:
  "read_groups i (numeral k) s =
     (case read_separator i s of
        None \<Rightarrow> ([], False, s)
      | Some r \<Rightarrow>
          (case (if pred_numeral k = 0 then None else read_octets 0 4 r) of
             Some ([a, b, c, d], t) \<Rightarrow> ([a * 256 + b, c * 256 + d], True, t)
           | _ \<Rightarrow>
               (case read_hex_group r of
                  None \<Rightarrow> ([], False, s)
                | Some (g, r') \<Rightarrow>
                    (let (gs, v4, t) = read_groups (Suc i) (pred_numeral k) r' in (g # gs, v4, t)))))"
  "read_octets i (numeral k) s =
     (case (if i = 0 then Some s else strip_prefix s ''.'') of
        None \<Rightarrow> None
      | Some r \<Rightarrow>
          (case read_octet r of
             None \<Rightarrow> None
           | Some (o1, r') \<Rightarrow>
               map_option (\<lambda>(os, t). (o1 # os, t)) (read_octets (Suc i) (pred_numeral k) r')))"
  by (simp_all only: numeral_eq_Suc [of k] read_groups.simps(2) read_octets.simps(2))

lemma replicate_step [exec_simps]: "replicate (numeral k) x = x # replicate (pred_numeral k) x"
  by (simp only: numeral_eq_Suc [of k] replicate_Suc)

section \<open>What is accepted\<close>

definition provider_ok :: "environment \<Rightarrow> string \<times> provider_config \<Rightarrow> bool" where
  "provider_ok env e \<longleftrightarrow>
     (let p = snd e
      in controller_key (fst e)
         \<and> (\<forall>vm. pv_via p = Some vm \<longrightarrow> bm_contains (env_vms env) vm)
         \<and> (case pv_kind p of
              KindPostgres \<Rightarrow>
                pv_via p \<noteq> None \<and> (\<exists>ep. pv_endpoint p = Some ep \<and> is_ok (endpoint ep))
                \<and> (\<forall>a. pv_advertise_endpoint p = Some a \<longrightarrow> is_ok (endpoint a))
                \<and> \<not> blank_option (pv_admin_user p) \<and> \<not> blank_option (pv_password_file p)
            | KindS3 \<Rightarrow>
                pv_via p \<noteq> None \<and> (\<exists>ep. pv_endpoint p = Some ep \<and> valid_endpoint ep)
                \<and> (\<forall>a. pv_advertise_endpoint p = Some a \<longrightarrow> valid_endpoint a)
                \<and> pv_implementation p = Some ''minio''
                \<and> \<not> blank_option (pv_access_key_file p) \<and> \<not> blank_option (pv_secret_key_file p)
            | _ \<Rightarrow> pv_via p = None \<and> pv_endpoint p = None))"

definition selected_provider :: "environment \<Rightarrow> claim_config \<Rightarrow> provider_config option" where
  "selected_provider env claim = snd (select_provider env [] claim)"

definition selection_ok :: "environment \<Rightarrow> claim_config \<Rightarrow> bool" where
  "selection_ok env claim \<longleftrightarrow>
     (case cm_provider claim of
        Some n \<Rightarrow> \<exists>p. (n, p) \<in> set (compatible_providers env claim)
      | None \<Rightarrow> length (compatible_providers env claim) = 1
          \<or> compatible_providers env claim = [] \<and> cm_kind claim \<in> {KindIngress, KindOidc})"

definition consumer_ok :: "environment \<Rightarrow> provider_config option \<Rightarrow> consumer \<Rightarrow> bool" where
  "consumer_ok env selected c \<longleftrightarrow>
     (case c of
        ConsumerVm vm \<Rightarrow> bm_contains (env_vms env) vm
      | ConsumerContainer target \<Rightarrow>
          (\<exists>vm container. split_once CHR ''/'' target = Some (vm, container)
             \<and> container_consumer_ok env vm container)
      | ConsumerKubernetes t \<Rightarrow>
          has_cluster env (kt_cluster t) \<and> controller_dns_label (kt_namespace t) \<and> controller_dns_name (kt_secret t))
     \<and> (is_remote selected c \<longrightarrow> \<not> needs_advertised selected)"

definition consumer_secrets :: "consumer list \<Rightarrow> string list" where
  "consumer_secrets cs = concat (map (\<lambda>c. case c of ConsumerKubernetes t \<Rightarrow> [secret_target t] | _ \<Rightarrow> []) cs)"

definition claim_ok :: "environment \<Rightarrow> string \<times> claim_config \<Rightarrow> bool" where
  "claim_ok env e \<longleftrightarrow>
     controller_key (fst e) \<and> selection_ok env (snd e)
     \<and> \<not> blank_option (claim_resource (snd e))
     \<and> validate_claim_kind env [] (snd e) = []
     \<and> (\<forall>c \<in> set (cm_consumers (snd e)). consumer_ok env (selected_provider env (snd e)) c)
     \<and> distinct (consumer_secrets (cm_consumers (snd e)))"

definition claim_identity_of :: "environment \<Rightarrow> claim_config \<Rightarrow> string list" where
  "claim_identity_of env claim =
     (case claim_resource claim of
        None \<Rightarrow> [] | Some r \<Rightarrow> [claim_identity claim (selected_provider env claim) r])"

definition services_ok :: "environment \<Rightarrow> bool" where
  "services_ok env \<longleftrightarrow>
     (let claims = sp_service_claims (env_spec env)
      in (\<forall>e \<in> set (sp_service_providers (env_spec env)). provider_ok env e)
         \<and> (\<forall>e \<in> set claims. claim_ok env e)
         \<and> distinct (concat (map (\<lambda>e. claim_identity_of env (snd e)) claims))
         \<and> distinct (concat (map (\<lambda>e. consumer_secrets (cm_consumers (snd e))) claims)))"

lemma validate_provider_Nil: "validate_provider env e = [] \<longleftrightarrow> provider_ok env e"
  by (cases "pv_kind (snd e)"; cases "pv_via (snd e)"; cases "pv_endpoint (snd e)";
      cases "pv_advertise_endpoint (snd e)")
    (auto simp: validate_provider_def provider_ok_def split_beta Let_def)

lemma select_provider_Nil: "fst (select_provider env path claim) = [] \<longleftrightarrow> selection_ok env claim"
proof (cases "cm_provider claim")
  case None
  show ?thesis
  proof (cases "compatible_providers env claim")
    case Nil
    with None show ?thesis by (cases "cm_kind claim") (simp_all add: select_provider_def selection_ok_def)
  next
    case (Cons p ps)
    with None show ?thesis by (cases ps) (simp_all add: select_provider_def selection_ok_def)
  qed
next
  case (Some n)
  have "find (\<lambda>(m, _). m = n) ps = None \<longleftrightarrow> \<not> (\<exists>p. (n, p) \<in> set ps)" for ps :: "(string \<times> provider_config) list"
    by (induction ps) auto
  with Some show ?thesis
    by (simp add: select_provider_def selection_ok_def Let_def)
qed

lemma select_provider_snd: "snd (select_provider env path claim) = selected_provider env claim"
  by (auto simp: selected_provider_def select_provider_def Let_def split: option.splits list.splits)

lemma validate_claim_kind_path: "validate_claim_kind env path claim = [] \<longleftrightarrow> validate_claim_kind env [] claim = []"
  by (auto simp: validate_claim_kind_def validate_ingress_claim_def validate_oidc_claim_def
      split: service_kind.splits option.splits backend.splits)

lemma validate_consumer_Nil:
  "fst (validate_consumer env path selected i secrets c) = [] \<longleftrightarrow>
     consumer_ok env selected c \<and> set (consumer_secrets [c]) \<inter> secrets = {}"
  by (cases c) (auto simp: validate_consumer_def consumer_ok_def consumer_secrets_def split: option.splits)

lemma validate_consumer_snd:
  "snd (validate_consumer env path selected i secrets c) = secrets \<union> set (consumer_secrets [c])"
  by (cases c) (auto simp: validate_consumer_def consumer_secrets_def)

lemma consumer_secrets_Cons: "consumer_secrets (c # cs) = consumer_secrets [c] @ consumer_secrets cs"
  by (simp add: consumer_secrets_def)

lemma validate_consumers_Nil:
  "fst (run_loop (validate_consumer env path selected) i secrets cs) = [] \<longleftrightarrow>
     (\<forall>c \<in> set cs. consumer_ok env selected c) \<and> distinct (consumer_secrets cs)
     \<and> set (consumer_secrets cs) \<inter> secrets = {}"
proof (induction cs arbitrary: i secrets)
  case Nil
  then show ?case by (simp add: consumer_secrets_def)
next
  case (Cons c cs)
  have "distinct (consumer_secrets [c])" by (simp add: consumer_secrets_def split: consumer.splits)
  then show ?case
    unfolding run_loop_Cons_Nil Cons.IH validate_consumer_snd validate_consumer_Nil
      consumer_secrets_Cons [of c cs]
    by auto
qed

lemma validate_consumers_snd:
  "snd (run_loop (validate_consumer env path selected) i secrets cs) = secrets \<union> set (consumer_secrets cs)"
proof (induction cs arbitrary: i secrets)
  case Nil
  then show ?case by (simp add: consumer_secrets_def)
next
  case (Cons c cs)
  show ?case
    unfolding run_loop_snd Cons.IH validate_consumer_snd consumer_secrets_Cons [of c cs] by auto
qed

lemma validate_claim_Nil:
  "fst (validate_claim env i (resources, secrets) e) = [] \<longleftrightarrow>
     claim_ok env e \<and> set (claim_identity_of env (snd e)) \<inter> resources = {}
     \<and> set (consumer_secrets (cm_consumers (snd e))) \<inter> secrets = {}"
proof -
  let ?path = "''spec.serviceClaims.'' @ fst e"
  let ?sel = "selected_provider env (snd e)"
  have identity: "(case claim_resource (snd e) of None \<Rightarrow> []
      | Some resource \<Rightarrow> emit (claim_identity (snd e) ?sel resource \<in> resources) issue) = []
      \<longleftrightarrow> set (claim_identity_of env (snd e)) \<inter> resources = {}" for issue :: validation_issue
    by (simp add: claim_identity_of_def split: option.splits)
  have "fst (validate_claim env i (resources, secrets) e) = [] \<longleftrightarrow>
      controller_key (fst e) \<and> fst (select_provider env ?path (snd e)) = []
      \<and> \<not> blank_option (claim_resource (snd e))
      \<and> set (claim_identity_of env (snd e)) \<inter> resources = {}
      \<and> validate_claim_kind env ?path (snd e) = []
      \<and> fst (run_loop (validate_consumer env ?path ?sel) 0 secrets (cm_consumers (snd e))) = []"
    unfolding validate_claim_def split_beta Let_def select_provider_snd fst_conv snd_conv
      append_is_Nil_conv identity emit_Nil not_not ..
  then show ?thesis
    unfolding select_provider_Nil validate_claim_kind_path [of env ?path] validate_consumers_Nil claim_ok_def
    by blast
qed

lemma validate_claim_snd:
  "snd (validate_claim env i (resources, secrets) e) =
     (resources \<union> set (claim_identity_of env (snd e)), secrets \<union> set (consumer_secrets (cm_consumers (snd e))))"
proof -
  have "(case claim_resource (snd e) of None \<Rightarrow> resources
      | Some resource \<Rightarrow> insert (claim_identity (snd e) (selected_provider env (snd e)) resource) resources)
      = resources \<union> set (claim_identity_of env (snd e))"
    by (simp add: claim_identity_of_def split: option.splits)
  then show ?thesis
    unfolding validate_claim_def split_beta Let_def select_provider_snd validate_consumers_snd fst_conv snd_conv
    by simp
qed

lemma validate_claims_loop:
  "fst (run_loop (validate_claim env) i (resources, secrets) es) = [] \<longleftrightarrow>
     (\<forall>e \<in> set es. claim_ok env e)
     \<and> distinct (concat (map (\<lambda>e. claim_identity_of env (snd e)) es))
     \<and> set (concat (map (\<lambda>e. claim_identity_of env (snd e)) es)) \<inter> resources = {}
     \<and> distinct (concat (map (\<lambda>e. consumer_secrets (cm_consumers (snd e))) es))
     \<and> set (concat (map (\<lambda>e. consumer_secrets (cm_consumers (snd e))) es)) \<inter> secrets = {}"
proof (induction es arbitrary: i resources secrets)
  case Nil
  then show ?case by simp
next
  case (Cons e es)
  have d: "distinct (claim_identity_of env (snd e))"
    by (simp add: claim_identity_of_def split: option.splits)
  have c: "claim_ok env e \<Longrightarrow> distinct (consumer_secrets (cm_consumers (snd e)))"
    by (simp add: claim_ok_def)
  show ?case
    unfolding run_loop_Cons_Nil validate_claim_snd Cons.IH validate_claim_Nil
    using d c by auto
qed

lemma controllers_validate_Nil: "controllers_validate_config env = [] \<longleftrightarrow> services_ok env"
  by (simp add: controllers_validate_config_def services_ok_def validate_provider_Nil validate_claims_loop Let_def
      del: concat_eq_Nil_conv)

lemma claim_identities_nth:
  assumes "services_ok env" and "i < j" and "j < length (sp_service_claims (env_spec env))"
    and "ci = snd (sp_service_claims (env_spec env) ! i)" and "cj = snd (sp_service_claims (env_spec env) ! j)"
  shows "set (claim_identity_of env ci) \<inter> set (claim_identity_of env cj) = {}
    \<and> set (consumer_secrets (cm_consumers ci)) \<inter> set (consumer_secrets (cm_consumers cj)) = {}"
proof -
  have concat_nth: "set (f (xs ! i)) \<inter> set (f (xs ! j)) = {}"
    if "distinct (concat (map f xs))" "j < length xs" for f :: "'a \<Rightarrow> 'b list" and xs
  proof -
    have "drop i xs = xs ! i # drop (Suc i) xs" using assms(2) that(2) by (simp add: Cons_nth_drop_Suc)
    then have "distinct (concat (map f (xs ! i # drop (Suc i) xs)))"
      using that(1) by (metis append_take_drop_id concat_append distinct_append map_append)
    moreover have "xs ! j \<in> set (drop (Suc i) xs)"
      using assms(2) that(2) by (auto simp: in_set_conv_nth intro!: exI [of _ "j - Suc i"])
    ultimately show ?thesis by auto
  qed
  then show ?thesis
    using assms(1,3) unfolding assms(4,5) services_ok_def Let_def by blast
qed

section \<open>Properties\<close>

definition sample_provider :: provider_config where
  "sample_provider = \<lparr>pv_kind = KindPostgres, pv_via = Some ''db'', pv_endpoint = Some ''127.0.0.1:5432'',
     pv_advertise_endpoint = Some ''10.0.0.11:5432'', pv_admin_user = Some ''postgres'',
     pv_password_file = Some ''/run/pw'', pv_access_key_file = None, pv_secret_key_file = None,
     pv_implementation = None\<rparr>"

definition sample_claim :: "string \<Rightarrow> string \<Rightarrow> claim_config" where
  "sample_claim database vm = \<lparr>cm_kind = KindPostgres, cm_provider = None, cm_database = Some database,
     cm_bucket = None, cm_client_id = None, cm_redirect_uris = [], cm_scopes = [], cm_host = None,
     cm_backend = None, cm_consumers = [ConsumerVm vm]\<rparr>"

definition sample_service_env :: environment where
  "sample_service_env = sample_env\<lparr>env_spec := (env_spec sample_env)\<lparr>
     sp_service_providers := [(''pg'', sample_provider)],
     sp_service_claims := [(''app'', sample_claim ''app'' ''web''), (''log'', sample_claim ''log'' ''db'')]\<rparr>\<rparr>"

declare sample_provider_def [exec_simps] sample_claim_def [exec_simps] sample_service_env_def [exec_simps]

lemma sample_service_silent: "controllers_validate_config sample_service_env = []"
  by (simp add: exec_simps Let_def cong: emit_cong)

lemma sample_service_selected:
  "selected_provider sample_service_env (sample_claim database vm) = Some sample_provider"
  by (simp add: selected_provider_def exec_simps)

text \<open>C39: when service validation finds nothing, two claims of one kind for the same database, bucket,
  client or host are served at different addresses, and no Kubernetes secret is a target of two
  claims.\<close>

theorem service_claims_exclusive:
  assumes "controllers_validate_config env = []"
    and "i < j" and "j < length (sp_service_claims (env_spec env))"
    and "ci = snd (sp_service_claims (env_spec env) ! i)" and "cj = snd (sp_service_claims (env_spec env) ! j)"
  shows "(cm_kind ci = cm_kind cj \<and> claim_resource ci = Some r \<and> claim_resource cj = Some r \<longrightarrow>
      (Option.bind (selected_provider env ci) pv_via, Option.bind (selected_provider env ci) pv_endpoint)
        \<noteq> (Option.bind (selected_provider env cj) pv_via, Option.bind (selected_provider env cj) pv_endpoint))
    \<and> (ConsumerKubernetes t \<in> set (cm_consumers ci) \<longrightarrow> ConsumerKubernetes t \<notin> set (cm_consumers cj))"
proof -
  note disjoint = claim_identities_nth [OF assms(1) [unfolded controllers_validate_Nil] assms(2-5)]
  have secret: "secret_target t \<in> set (consumer_secrets cs)" if "ConsumerKubernetes t \<in> set cs" for cs
    using that by (force simp: consumer_secrets_def)
  have "claim_identity ci (selected_provider env ci) r \<noteq> claim_identity cj (selected_provider env cj) r"
    if "claim_resource ci = Some r" "claim_resource cj = Some r"
    using disjoint that by (auto simp: claim_identity_of_def)
  then have "(Option.bind (selected_provider env ci) pv_via, Option.bind (selected_provider env ci) pv_endpoint)
        \<noteq> (Option.bind (selected_provider env cj) pv_via, Option.bind (selected_provider env cj) pv_endpoint)"
    if "cm_kind ci = cm_kind cj" "claim_resource ci = Some r" "claim_resource cj = Some r"
    using that unfolding claim_identity_def by (metis prod.inject)
  moreover have "ConsumerKubernetes t \<notin> set (cm_consumers cj)" if "ConsumerKubernetes t \<in> set (cm_consumers ci)"
    using disjoint secret that by blast
  ultimately show ?thesis by blast
qed

lemma service_claims_exclusive_witness: "claim_resource (sample_claim ''app'' ''web'') \<noteq> claim_resource (sample_claim ''log'' ''db'')"
proof -
  have claims: "sp_service_claims (env_spec sample_service_env) =
      [(''app'', sample_claim ''app'' ''web''), (''log'', sample_claim ''log'' ''db'')]"
    by (simp add: sample_service_env_def)
  have "cm_kind (sample_claim ''app'' ''web'') = cm_kind (sample_claim ''log'' ''db'')"
      "claim_resource (sample_claim ''app'' ''web'') = Some ''app''"
    by (simp_all add: sample_claim_def claim_resource_def)
  then show ?thesis
    using service_claims_exclusive [OF sample_service_silent, of 0 1 "sample_claim ''app'' ''web''"
        "sample_claim ''log'' ''db''" "''app''" undefined]
    unfolding claims sample_service_selected by auto
qed

text \<open>When service validation finds nothing, a consumer that does not run on the VM of the provider its
  claim selects is given an address it can reach: if the provider's own endpoint is a loopback address,
  an advertised endpoint is set and is not a loopback address.\<close>

lemma remote_consumers_reachable:
  assumes "controllers_validate_config env = []"
    and "(name, claim) \<in> set (sp_service_claims (env_spec env))" and "c \<in> set (cm_consumers claim)"
    and "selected_provider env claim = Some p" and "pv_endpoint p = Some e" and "loopback e"
    and "is_remote (Some p) c"
  shows "\<exists>a. pv_advertise_endpoint p = Some a \<and> \<not> loopback a"
proof -
  have "claim_ok env (name, claim)"
    using assms(1,2) unfolding controllers_validate_Nil services_ok_def Let_def by blast
  with assms(3,4) have "consumer_ok env (Some p) c" by (simp add: claim_ok_def)
  with assms(5-7) show ?thesis
    by (auto simp: consumer_ok_def needs_advertised_def option_ok_def split: option.splits)
qed

lemma remote_consumers_reachable_witness: "\<not> loopback ''10.0.0.11:5432''"
proof -
  have claim: "(''app'', sample_claim ''app'' ''web'') \<in> set (sp_service_claims (env_spec sample_service_env))"
    by (simp add: sample_service_env_def)
  have "loopback ''127.0.0.1:5432''" by (simp add: exec_simps)
  then have "\<exists>a. pv_advertise_endpoint sample_provider = Some a \<and> \<not> loopback a"
    using remote_consumers_reachable [OF sample_service_silent claim, of "ConsumerVm ''web''" sample_provider
        "''127.0.0.1:5432''"] sample_service_selected
    by (simp add: sample_claim_def sample_provider_def is_remote_def)
  then show ?thesis by (simp add: sample_provider_def)
qed

end
