(* ===== verification/Validate.thy ===== *)
theory Validate
  imports ValidateVm ValidateEdge Kubernetes Services
begin

text \<open>
  \<open>validate_references\<close> and \<open>validate_source_with_base\<close> of \<open>config.rs\<close>: all passes, in the order
  of the code, and what an environment without issues satisfies. \<open>env_accepted\<close> is the contract
  of validation, stated without the loops and their tables; the main theorem is that the passes
  implement it exactly. The rest of the theory draws from the contract what the other
  components rely on: addresses, routes, docker networks, cluster ranges, start order.

  The YAML parser, the JSON schema and the deserialiser are the parameters \<open>config_lib\<close>.
\<close>

section \<open>validate_references\<close>

definition validate_references ::
    "'n ipnet_lib \<Rightarrow> file_system \<Rightarrow> manifest_lib \<Rightarrow> string option \<Rightarrow> environment \<Rightarrow> validation_issue list" where
  "validate_references L fs lib config_dir env =
     (let (network_issues, table) = validate_networks L env
      in sort_and_deduplicate
           (validate_egress_probe env
            @ validate_images env
            @ validate_names env
            @ validate_volume_keys fs config_dir (env_volumes env)
            @ network_issues
            @ validate_routes env table
            @ validate_policies env table
            @ validate_vms L fs config_dir env table
            @ validate_certs_ingress_oidc env
            @ validate_observability env
            @ kubernetes_validate L lib config_dir env
            @ controllers_validate_config env))"

section \<open>validate_source_with_base\<close>

record yaml_error =
  ye_location :: "(nat \<times> nat) option"
  ye_message :: string

record schema_error =
  se_pointer :: string
  se_required :: "string option"
  se_message :: string

record config_lib =
  cfg_yaml :: "string \<Rightarrow> (json, yaml_error) result"
  cfg_compile :: "(unit, string) result"
  cfg_schema :: "json \<Rightarrow> schema_error list"
  cfg_from_value :: "json \<Rightarrow> (environment, string) result"

definition yaml_issue :: "yaml_error \<Rightarrow> validation_issue" where
  "yaml_issue e =
     ValidationIssue ''$''
       (''invalid YAML''
        @ (case ye_location e of
             None \<Rightarrow> []
           | Some (line, column) \<Rightarrow> '' at line '' @ show_nat line @ '', column '' @ show_nat column)
        @ '': '' @ ye_message e)
       ''syntax''"

definition schema_issue :: "schema_error \<Rightarrow> validation_issue" where
  "schema_issue e =
     ValidationIssue
       (pointer_to_json_path (se_pointer e)
        @ (case se_required e of None \<Rightarrow> [] | Some property \<Rightarrow> ''.'' @ property))
       (se_message e) ''schema''"

definition validate_source_with_base ::
    "config_lib \<Rightarrow> 'n ipnet_lib \<Rightarrow> file_system \<Rightarrow> manifest_lib \<Rightarrow> string \<Rightarrow> string option
     \<Rightarrow> (environment, validation_issue list) result" where
  "validate_source_with_base cfg L fs lib source config_dir =
     and_then (map_err (\<lambda>e. [yaml_issue e]) (cfg_yaml cfg source)) (\<lambda>document.
     and_then (map_err (\<lambda>e. [ValidationIssue ''$'' (''internal hypernetwork schema error: '' @ e) ''schema''])
       (cfg_compile cfg)) (\<lambda>_.
       if cfg_schema cfg document \<noteq> [] then
         Inl (sort_and_deduplicate (map schema_issue (cfg_schema cfg document)))
       else
         and_then (map_err (\<lambda>e. [ValidationIssue ''$'' (''cannot deserialize validated config: '' @ e) ''schema''])
           (cfg_from_value cfg document)) (\<lambda>env.
           let issues = validate_references L fs lib config_dir env
           in if issues = [] then Inr env else Inl issues)))"

declare validate_references_def [exec_simps] yaml_issue_def [exec_simps] schema_issue_def [exec_simps]
  validate_source_with_base_def [exec_simps]

section \<open>The contract\<close>

text \<open>The canonical CIDR of every network whose CIDR parses.\<close>

definition cidr_table :: "'n ipnet_lib \<Rightarrow> environment \<Rightarrow> (string, 'n) bmap" where
  "cidr_table L env =
     concat (map (\<lambda>(name, network). case cidr_of L network of Some c \<Rightarrow> [(name, c)] | None \<Rightarrow> []) (env_networks env))"

definition names_ok :: "environment \<Rightarrow> bool" where
  "names_ok env \<longleftrightarrow>
     (\<forall>n \<in> set (bm_keys (env_images env)). valid_name n)
     \<and> (\<forall>i \<in> set (bm_values (env_images env)). valid_image_tag (img_tag i))
     \<and> (\<forall>n \<in> set (bm_keys (env_networks env)). valid_dns_label n)
     \<and> (\<forall>n \<in> set (bm_keys (env_vms env)). valid_dns_label n)"

definition egress_ok :: "environment \<Rightarrow> bool" where
  "egress_ok env \<longleftrightarrow>
     (let probe = nr_egress_probe (res_network (sp_resilience (env_spec env)))
      in egress_enabled probe \<longrightarrow> valid_probe_url (egress_url probe))"

definition env_accepted ::
    "'n ipnet_lib \<Rightarrow> file_system \<Rightarrow> manifest_lib \<Rightarrow> string option \<Rightarrow> environment \<Rightarrow> bool" where
  "env_accepted L fs lib config_dir env \<longleftrightarrow>
     egress_ok env \<and> names_ok env
     \<and> (\<forall>e \<in> set (env_volumes env). volume_ok fs config_dir e)
     \<and> (\<forall>e \<in> set (env_networks env). network_ok L (snd e))
     \<and> distinct (map rt_name (sp_routes (env_spec env)))
     \<and> (\<forall>r \<in> set (sp_routes (env_spec env)). route_ok env r)
     \<and> distinct (map pol_name (sp_policies (env_spec env)))
     \<and> (\<forall>p \<in> set (sp_policies (env_spec env)). policy_ok env p)
     \<and> vms_ok L fs config_dir env (cidr_table L env)
     \<and> edge_ok env
     \<and> observability_ok env
     \<and> clusters_ok L lib config_dir env
     \<and> services_ok env"

lemma validate_egress_Nil [pass_simps]: "validate_egress_probe env = [] \<longleftrightarrow> egress_ok env"
  by (simp add: validate_egress_probe_def egress_ok_def Let_def)

lemma validate_names_Nil:
  "validate_images env = [] \<and> validate_names env = [] \<longleftrightarrow> names_ok env"
proof -
  have "concat (map (\<lambda>(name, image). emit (\<not> valid_image_tag (img_tag image)) (issue name)) es) = []
      \<longleftrightarrow> (\<forall>i \<in> set (bm_values es). valid_image_tag (img_tag i))"
    for es and issue :: "string \<Rightarrow> validation_issue"
    by (simp add: split_beta del: concat_eq_Nil_conv)
  note tags = this
  show ?thesis
    unfolding validate_images_def validate_names_def names_ok_def append_is_Nil_conv
      validate_name_keys_Nil validate_dns_keys_Nil tags
    using valid_dns_label_name by blast
qed

lemma cidr_table_get:
  assumes "distinct (map fst es)"
  shows "bm_get (concat (map (\<lambda>(name, network). case cidr_of L network of Some c \<Rightarrow> [(name, c)] | None \<Rightarrow> []) es)) n =
    (case bm_get es n of Some network \<Rightarrow> cidr_of L network | None \<Rightarrow> None)"
  using assms
proof (induction es)
  case Nil
  then show ?case by simp
next
  case (Cons e es)
  have "bm_get es (fst e) = None" using Cons.prems by (simp add: map_of_eq_None_iff)
  with Cons show ?case by (cases e) (auto split: option.splits)
qed

lemma vms_ok_table_cong:
  assumes "bm_get table = bm_get table'"
  shows "vms_ok L fs dir env table \<longleftrightarrow> vms_ok L fs dir env table'"
proof -
  have "attachment_ok L env table = attachment_ok L env table'"
    by (simp add: fun_eq_iff attachment_ok_def assms)
  then have "vm_ok L fs dir env table = vm_ok L fs dir env table'"
    by (simp add: fun_eq_iff vm_ok_def)
  then show ?thesis by (simp add: vms_ok_def)
qed

lemma validate_references_iff:
  assumes "bm_wf (env_networks env)"
  shows "validate_references L fs lib dir env = [] \<longleftrightarrow> env_accepted L fs lib dir env"
proof (cases "fst (validate_networks L env) = []")
  case True
  define table where "table = snd (validate_networks L env)"
  have get: "bm_get table = bm_get (cidr_table L env)"
    unfolding table_def cidr_table_def
    by (rule ext) (simp only: validate_networks_table [OF True assms] cidr_table_get [OF bm_wf_distinct [OF assms]])
  have known: "\<And>n. bm_contains table n \<longleftrightarrow> bm_contains (env_networks env) n"
    unfolding table_def using validate_networks_known [OF True assms] .
  show ?thesis
    using True
    unfolding validate_references_def split_beta Let_def table_def [symmetric] sort_and_deduplicate_Nil
      append_is_Nil_conv validate_egress_Nil validate_volume_keys_Nil validate_networks_Nil
      validate_routes_Nil [OF known] validate_policies_Nil [OF known] validate_vms_Nil
      validate_certs_ingress_oidc_Nil validate_observability_Nil kubernetes_validate_Nil
      controllers_validate_Nil env_accepted_def validate_names_Nil [symmetric]
      vms_ok_table_cong [OF get]
    by argo
next
  case False
  then have "\<not> (\<forall>e \<in> set (env_networks env). network_ok L (snd e))"
    by (simp only: validate_networks_Nil not_False_eq_True)
  then have "\<not> env_accepted L fs lib dir env" unfolding env_accepted_def by argo
  moreover have "validate_references L fs lib dir env \<noteq> []"
    using False by (simp add: validate_references_def split_beta)
  ultimately show ?thesis by simp
qed

section \<open>What the contract gives\<close>

lemma accepted_vm:
  assumes "env_accepted L fs lib dir env" and "(n, vm) \<in> set (env_vms env)"
  shows "vm_ok L fs dir env (cidr_table L env) (n, vm)"
  using assms by (simp add: env_accepted_def vms_ok_def)

lemma cidr_table_network:
  assumes "bm_wf (env_networks env)"
  shows "bm_get (cidr_table L env) n = Some cidr \<longleftrightarrow>
    (\<exists>network. bm_get (env_networks env) n = Some network \<and> cidr_of L network = Some cidr)"
  unfolding cidr_table_def
  by (simp add: cidr_table_get [OF bm_wf_distinct [OF assms]] split: option.splits)

text \<open>The address of every attachment is that of a host of its network: above the first two
  addresses, below the broadcast address.\<close>

lemma address_inside:
  assumes "ipnet_laws L" and "address_ok L env net cidr ip"
  shows "net_network L cidr < ip \<and> ip < net_broadcast L cidr
    \<and> unat (net_network L cidr) + 2 \<le> unat ip"
proof -
  have range: "net_network L cidr \<le> ip" "ip \<le> net_broadcast L cidr" "ip \<noteq> net_network L cidr"
    "ip \<noteq> net_broadcast L cidr" "1 < host_offset L cidr ip"
    using assms by (simp_all add: address_ok_def ipnet_contains)
  then have "unat (host_offset L cidr ip) = unat ip - unat (net_network L cidr)"
    by (simp add: host_offset_def unat_sub)
  moreover have "1 < unat (host_offset L cidr ip)"
    using range(5) by (simp add: word_less_nat_alt)
  ultimately show ?thesis using range by (auto simp: less_le)
qed

lemma concat_map_distinct:
  "distinct (concat (map f xs)) \<Longrightarrow> x \<in> set xs \<Longrightarrow> y \<in> set xs \<Longrightarrow> a \<in> set (f x) \<Longrightarrow> a \<in> set (f y)
   \<Longrightarrow> x = y"
  by (induction xs) auto

lemma accepted_addresses:
  assumes "env_accepted L fs lib dir env"
    and "(n1, vm1) \<in> set (env_vms env)" and "a1 \<in> set (vm_networks vm1)"
    and "(n2, vm2) \<in> set (env_vms env)" and "a2 \<in> set (vm_networks vm2)"
    and "att_name a1 = att_name a2" and "parse_ipv4 (att_ip a1) = parse_ipv4 (att_ip a2)"
  shows "n1 = n2 \<and> vm1 = vm2 \<and> a1 = a2"
proof -
  have d: "distinct (concat (map vm_att_keys (env_vms env)))"
    using assms(1) by (simp add: env_accepted_def vms_ok_def)
  have key: "att_key a1 = att_key a2" using assms(6,7) by (simp add: att_key_def)
  then have "att_key a1 \<in> set (vm_att_keys (n1, vm1))" "att_key a1 \<in> set (vm_att_keys (n2, vm2))"
    using assms(3,5) by (auto simp: vm_att_keys_def intro: rev_image_eqI)
  from concat_map_distinct [OF d assms(2,4) this] have "n1 = n2" "vm1 = vm2" by simp_all
  moreover have "distinct (map att_name (vm_networks vm1))"
    using accepted_vm [OF assms(1,2)] by (simp add: vm_ok_def)
  then have "a1 = a2"
    using assms(3,5,6) \<open>vm1 = vm2\<close> by (auto simp: distinct_map dest: inj_onD)
  ultimately show ?thesis by simp
qed

lemma accepted_deps_known:
  assumes "env_accepted L fs lib dir env"
  shows "deps_known (env_vms env)"
proof -
  have "bm_contains (env_vms env) d" if d: "d \<in> set (depends_on (env_vms env) n)" for n d
  proof -
    obtain vm where vm: "bm_get (env_vms env) n = Some vm" "d \<in> set (vm_depends_on vm)"
      using d by (cases "bm_get (env_vms env) n") (simp_all add: depends_on_def)
    have "vm_ok L fs dir env (cidr_table L env) (n, vm)"
      by (rule accepted_vm [OF assms map_of_SomeD [OF vm(1)]])
    with vm(2) show ?thesis by (simp add: vm_ok_def dependencies_ok_def)
  qed
  then show ?thesis by (simp add: deps_known_def)
qed

section \<open>Properties\<close>

definition sample_fs :: file_system where
  "sample_fs = \<lparr>fs_is_dir = (\<lambda>p. True), fs_is_file = (\<lambda>p. True)\<rparr>"

declare sample_fs_def [exec_simps]

lemma sample_networks_wf: "bm_wf (env_networks sample_env)"
  by (simp add: bm_wf_def sample_simps)

lemma sample_validates: "validate_references cidr_lib sample_fs sample_lib None sample_env = []"
  by (simp add: exec_simps Let_def word_le_nat_alt cong: emit_cong)

definition sample_cfg :: config_lib where
  "sample_cfg = \<lparr>cfg_yaml = (\<lambda>source. Inr JNull), cfg_compile = Inr (), cfg_schema = (\<lambda>document. []),
     cfg_from_value = (\<lambda>document. Inr sample_env)\<rparr>"

lemma accepted_of_silent:
  assumes "bm_wf (env_networks env)" and "validate_references L fs lib dir env = []"
  shows "env_accepted L fs lib dir env"
  using assms validate_references_iff by blast

lemma docker_owner:
  assumes "docker_owned env" and "bm_wf (env_networks env)"
    and "bm_get (env_networks env) net = Some network" and "net_backend network = Docker"
  shows "\<exists>owner vm. filter (\<lambda>e. attached_to net (snd e)) (env_vms env) = [(owner, vm)]"
proof -
  have "(net, network) \<in> set (env_networks env)" using assms(2,3) by (simp add: bm_wf_in_set)
  with assms(1,4) have "length (filter (\<lambda>e. attached_to net (snd e)) (env_vms env)) = 1"
    unfolding docker_owned_def split_beta by fastforce
  then show ?thesis by (auto simp: length_Suc_conv)
qed

lemma sample_kube_wf: "bm_wf (env_networks sample_kube_env)"
  by (simp add: bm_wf_def sample_kube_env_def sample_simps)

lemma sample_kube_validates: "validate_references cidr_lib sample_fs sample_lib None sample_kube_env = []"
  by (simp add: exec_simps Let_def word_le_nat_alt cong: emit_cong)

text \<open>C1: loading a configuration succeeds exactly when it is YAML that the schema accepts, it
  deserialises, and the environment fulfils the contract of validation; then the result is that
  environment.\<close>

theorem validate_source_accepts_iff:
  assumes "\<And>document env. cfg_from_value cfg document = Inr env \<Longrightarrow> bm_wf (env_networks env)"
  shows "validate_source_with_base cfg L fs lib source dir = Inr env \<longleftrightarrow>
    (\<exists>document. cfg_yaml cfg source = Inr document \<and> cfg_compile cfg = Inr () \<and> cfg_schema cfg document = []
       \<and> cfg_from_value cfg document = Inr env \<and> env_accepted L fs lib dir env)"
proof -
  have silent: "(if issues = [] then Inr env' else Inl issues) = Inr env \<longleftrightarrow> issues = [] \<and> env' = env"
    for issues :: "validation_issue list" and env'
    by auto
  have "validate_references L fs lib dir env = [] \<longleftrightarrow> env_accepted L fs lib dir env"
    if "cfg_from_value cfg document = Inr env" for document
    using validate_references_iff [OF assms [OF that]] .
  then show ?thesis
    unfolding validate_source_with_base_def and_then_Inr map_err_Inr Let_def silent
    by (cases "cfg_compile cfg") (auto split: if_splits)
qed

lemma validate_source_accepts_iff_witness:
  "validate_source_with_base sample_cfg cidr_lib sample_fs sample_lib ''metadata: demo'' None = Inr sample_env"
proof -
  have wf: "bm_wf (env_networks env)" if "cfg_from_value sample_cfg document = Inr env" for document env
    using that sample_networks_wf by (simp add: sample_cfg_def)
  show ?thesis
    using accepted_of_silent [OF sample_networks_wf sample_validates]
    by (subst validate_source_accepts_iff [OF wf]) (simp_all add: sample_cfg_def)
qed

text \<open>C2: in an environment without issues no address of a network is assigned twice: two
  attachments to the same network with the same address are the same attachment of the same VM.\<close>

theorem validated_addresses_unique:
  assumes "bm_wf (env_networks env)" and "validate_references L fs lib dir env = []"
    and "(n1, vm1) \<in> set (env_vms env)" and "a1 \<in> set (vm_networks vm1)"
    and "(n2, vm2) \<in> set (env_vms env)" and "a2 \<in> set (vm_networks vm2)"
    and "att_name a1 = att_name a2" and "parse_ipv4 (att_ip a1) = parse_ipv4 (att_ip a2)"
  shows "n1 = n2 \<and> vm1 = vm2 \<and> a1 = a2"
  by (rule accepted_addresses [OF accepted_of_silent [OF assms(1,2)] assms(3-8)])

lemma validated_addresses_unique_witness:
  "parse_ipv4 ''10.0.0.10'' \<noteq> parse_ipv4 ''10.0.0.11''"
proof
  assume "parse_ipv4 ''10.0.0.10'' = parse_ipv4 ''10.0.0.11''"
  then have "''web'' = ''db'' \<and> sample_web = sample_db
      \<and> \<lparr>att_name = ''lan'', att_ip = ''10.0.0.10''\<rparr> = (\<lparr>att_name = ''lan'', att_ip = ''10.0.0.11''\<rparr> :: vm_network)"
    by (intro validated_addresses_unique [OF sample_networks_wf sample_validates]) (simp_all add: sample_env_def sample_web_def sample_db_def)
  then show False by simp
qed

text \<open>C3: in an environment without issues every attachment names a declared network without DHCP
  and an address in its CIDR that is a host: at least two above the network address (the gateway's
  place), below the broadcast address, and exactly two above it on a docker network.\<close>

theorem validated_address_is_host:
  assumes "ipnet_laws L" and "bm_wf (env_networks env)" and "validate_references L fs lib dir env = []"
    and "(n, vm) \<in> set (env_vms env)" and "att \<in> set (vm_networks vm)"
  shows "\<exists>network cidr ip. bm_get (env_networks env) (att_name att) = Some network
    \<and> net_parse L (net_cidr network) = Inr cidr \<and> parse_ipv4 (att_ip att) = Some ip
    \<and> \<not> net_dhcp network \<and> unat (net_network L cidr) + 2 \<le> unat ip \<and> ip < net_broadcast L cidr
    \<and> (net_backend network = Docker \<longrightarrow> ip - net_network L cidr = 2)"
proof -
  have "attachment_ok L env (cidr_table L env) att"
    using accepted_vm [OF accepted_of_silent [OF assms(2,3)] assms(4)] assms(5) by (simp add: vm_ok_def)
  then obtain cidr ip where cidr: "bm_get (cidr_table L env) (att_name att) = Some cidr"
      "parse_ipv4 (att_ip att) = Some ip" "address_ok L env (att_name att) cidr ip"
    by (auto simp: attachment_ok_def)
  obtain network where network: "bm_get (env_networks env) (att_name att) = Some network" "cidr_of L network = Some cidr"
    using cidr(1) unfolding cidr_table_network [OF assms(2)] by blast
  have parsed: "net_parse L (net_cidr network) = Inr cidr"
    using network(2) by (simp add: cidr_of_def split: sum.splits)
  have docker: "net_backend network = Docker \<longrightarrow> ip - net_network L cidr = 2"
    using cidr(3) network(1) unfolding address_ok_def is_docker_network_def host_offset_def by simp
  have dhcp: "\<not> net_dhcp network" using cidr(3) network(1) unfolding address_ok_def by blast
  show ?thesis
    using network(1) parsed cidr(2) dhcp address_inside [OF assms(1) cidr(3)] docker by blast
qed

lemma validated_address_is_host_witness: "unat (0x0a000000 :: ipv4) + 2 \<le> unat (0x0a00000a :: ipv4)"
proof -
  obtain network cidr ip where "bm_get (env_networks sample_env) ''lan'' = Some network"
      "net_parse cidr_lib (net_cidr network) = Inr cidr" "parse_ipv4 ''10.0.0.10'' = Some ip"
      "unat (net_network cidr_lib cidr) + 2 \<le> unat ip"
    using validated_address_is_host [OF cidr_lib_laws sample_networks_wf sample_validates,
        of "''web''" sample_web "\<lparr>att_name = ''lan'', att_ip = ''10.0.0.10''\<rparr>"]
    by (auto simp: sample_env_def sample_web_def)
  then show ?thesis by (simp add: exec_simps)
qed

text \<open>C4: in an environment without issues both ends of every route are declared networks, and the
  VM it goes through has the role \<open>router\<close> and an attachment to both; the same holds for the router a
  policy names, its network and every network it allows traffic to.\<close>

theorem validated_routers:
  assumes "bm_wf (env_networks env)" and "validate_references L fs lib dir env = []"
  shows "(\<forall>r \<in> set (sp_routes (env_spec env)). bm_contains (env_networks env) (rt_from r)
      \<and> bm_contains (env_networks env) (rt_to r) \<and> router_between env (rt_via r) [rt_from r, rt_to r])
    \<and> (\<forall>p \<in> set (sp_policies (env_spec env)). \<forall>via. pol_via p = Some via \<longrightarrow>
        router_between env via (pol_network p # policy_targets p))"
  using accepted_of_silent [OF assms] by (simp add: env_accepted_def route_ok_def policy_ok_def)

lemma validated_routers_witness:
  "router_between sample_env ''web'' [''lan'', ''dock''] \<and> router_between sample_env ''web'' [''dock'', ''lan'']"
  using validated_routers [OF sample_networks_wf sample_validates]
  by (simp add: sample_env_def policy_targets_def)

text \<open>In an environment without issues a docker network has exactly one attached VM; it has the
  roles \<open>docker\<close> and \<open>router\<close>, an attachment to a network that is not a docker network as well, and the
  network has neither DHCP nor NAT.\<close>

lemma validated_docker_network:
  assumes "bm_wf (env_networks env)" and "validate_references L fs lib dir env = []"
    and "bm_get (env_networks env) net = Some network" and "net_backend network = Docker"
  shows "\<not> net_dhcp network \<and> \<not> net_nat_egress network
    \<and> (\<exists>owner vm. filter (\<lambda>e. attached_to net (snd e)) (env_vms env) = [(owner, vm)]
        \<and> has_role ''docker'' vm \<and> has_role ''router'' vm
        \<and> (\<exists>a \<in> set (vm_networks vm). \<not> is_docker_network env (att_name a)))"
proof -
  note ok = accepted_of_silent [OF assms(1,2)]
  then have owned: "docker_owned env" by (simp add: env_accepted_def vms_ok_def)
  obtain owner vm where one: "filter (\<lambda>e. attached_to net (snd e)) (env_vms env) = [(owner, vm)]"
    using docker_owner [OF owned assms(1,3,4)] by blast
  then have "(owner, vm) \<in> set (filter (\<lambda>e. attached_to net (snd e)) (env_vms env))" by simp
  then have vm: "(owner, vm) \<in> set (env_vms env)" "attached_to net vm" by simp_all
  have "is_docker_network env net" using assms(3,4) by (simp add: is_docker_network_def)
  then have "attached_to_docker env vm"
    using vm(2) by (auto simp: attached_to_docker_def attached_to_def list_ex_iff)
  with accepted_vm [OF ok vm(1)] have roles: "has_role ''docker'' vm \<and> has_role ''router'' vm
      \<and> (\<exists>a \<in> set (vm_networks vm). \<not> is_docker_network env (att_name a))"
    unfolding vm_ok_def docker_attachment_ok_def snd_conv by blast
  have "(net, network) \<in> set (env_networks env)" using assms(1,3) by (simp add: bm_wf_in_set)
  with ok assms(4) have "\<not> net_dhcp network \<and> \<not> net_nat_egress network"
    unfolding env_accepted_def network_ok_def by fastforce
  with one roles show ?thesis by blast
qed

lemma validated_docker_network_witness:
  "filter (\<lambda>e. attached_to ''dock'' (snd e)) (env_vms sample_env) = [(''web'', sample_web)] \<and> has_role ''router'' sample_web"
proof -
  have "bm_get (env_networks sample_env) ''dock'' = Some sample_dock" "net_backend sample_dock = Docker"
    by (simp_all add: sample_simps)
  from validated_docker_network [OF sample_networks_wf sample_validates this]
  obtain owner vm where "filter (\<lambda>e. attached_to ''dock'' (snd e)) (env_vms sample_env) = [(owner, vm)]"
      "has_role ''router'' vm" by blast
  moreover from this have "owner = ''web'' \<and> vm = sample_web"
    by (simp add: sample_env_def sample_db_def sample_web_def plain_vm_def attached_to_def)
  ultimately show ?thesis by simp
qed

text \<open>C5: the VMs of an environment without issues can be started: a start order exists, it has every
  VM once, and each after the VMs it depends on.\<close>

theorem validated_start_order:
  assumes "bm_wf (env_networks env)" and "validate_references L fs lib dir env = []"
  shows "\<exists>order. dependency_order (env_vms env) = Inr order \<and> distinct order
    \<and> set order = set (bm_keys (env_vms env))
    \<and> (\<forall>i < length order. set (depends_on (env_vms env) (order ! i)) \<subseteq> set (take i order))"
proof -
  note ok = accepted_of_silent [OF assms]
  have "acyclic (dep_edges (env_vms env))" using ok by (simp add: env_accepted_def vms_ok_def)
  with dependency_order_Inl [OF accepted_deps_known [OF ok]]
  obtain order where order: "dependency_order (env_vms env) = Inr order"
    by (cases "dependency_order (env_vms env)") auto
  with dependency_order_Inr [OF order] topological_deps [OF order] show ?thesis by blast
qed

lemma validated_start_order_witness: "dependency_order (env_vms sample_env) = Inr [''db'', ''web'']"
proof -
  obtain order where "dependency_order (env_vms sample_env) = Inr order" "distinct order"
      "set order = set (bm_keys (env_vms sample_env))"
    using validated_start_order [OF sample_networks_wf sample_validates] by blast
  moreover have "dependency_order (env_vms sample_env) = Inr [''db'', ''web'']" by (simp add: exec_simps)
  ultimately show ?thesis by simp
qed

text \<open>In an environment without issues no VM is a node of two clusters or twice a node of one, and
  every node has exactly one address on the network of its cluster.\<close>

lemma validated_cluster_nodes:
  assumes "bm_wf (env_networks env)" and "validate_references L fs lib dir env = []"
  shows "distinct (concat (map (\<lambda>e. cluster_nodes (snd e)) (k8s_clusters (sp_kubernetes (env_spec env)))))
    \<and> (\<forall>e \<in> set (k8s_clusters (sp_kubernetes (env_spec env))).
        \<forall>n \<in> set (cluster_nodes (snd e)). \<exists>ip. node_ip env (snd e) n = Inr ip)"
proof -
  note ok = accepted_of_silent [OF assms]
  then have clusters: "clusters_ok L lib dir env" by (simp add: env_accepted_def)
  have "distinct (map att_name (vm_networks vm))" if "bm_get (env_vms env) n = Some vm" for n vm
    using accepted_vm [OF ok map_of_SomeD [OF that]] by (simp add: vm_ok_def)
  then have "\<exists>ip. node_ip env cluster n = Inr ip" if "node_ok env cluster n" for cluster n
    using node_ip_ok [OF that] by blast
  with clusters show ?thesis
    unfolding clusters_ok_def cluster_ok_def Let_def by blast
qed

lemma validated_cluster_nodes_witness: "node_ip sample_kube_env sample_cluster ''web'' = Inr ''10.0.0.10''"
proof -
  have "\<exists>ip. node_ip sample_kube_env sample_cluster ''web'' = Inr ip"
    using validated_cluster_nodes [OF sample_kube_wf sample_kube_validates]
    by (simp add: sample_kube_env_def cluster_nodes_def) (simp add: sample_cluster_def)
  moreover have "node_ip sample_kube_env sample_cluster ''web'' = Inr ip \<Longrightarrow> ip = ''10.0.0.10''" for ip
    by (simp add: exec_simps)
  ultimately show ?thesis by blast
qed

end
