(* ===== verification/Edit.thy ===== *)
theory Edit
  imports Validate
begin

text \<open>
  The operations of \<open>config.rs\<close> that edit an environment: \<open>scaffold_environment\<close>, \<open>add_vm\<close>,
  \<open>remove_vm\<close> and their companions for networks, volumes and mounts, the choice of a free address
  (\<open>next_free_ip\<close>, \<open>offset_ip\<close>), and \<open>write_environment_atomic\<close>, which puts the result on disk.

  An operation that takes \<open>&mut Environment\<close> returns the edited environment or the issues; in the
  code as here an error leaves the environment as it was. \<open>network + offset\<close> is the addition of
  \<open>u32\<close>: it wraps, as in a release build (a debug build panics there). The serialisers derived by
  serde and the YAML writer are the parameters \<open>serde_lib\<close>; what the disk does with a write or a
  rename is \<open>disk_faults\<close>.

  The lemmas: a free address is unused, the first one, and inside the network; adding and then
  removing gives the environment back; a failed write never touches the configuration.
\<close>

section \<open>scaffold_environment\<close>

definition scaffold_environment :: "'n ipnet_lib \<Rightarrow> string \<Rightarrow> string \<Rightarrow> (environment, string) result" where
  "scaffold_environment L raw_name cidr =
     and_then (ok_or ''invalid or empty project name'' (normalize_project_name raw_name)) (\<lambda>name.
       case net_parse L cidr of
         Inl _ \<Rightarrow> Inl (''invalid CIDR: '' @ cidr)
       | Inr _ \<Rightarrow> Inr
           \<lparr>env_api_version = HypernetworkV1, env_kind = KindEnvironment, env_metadata = \<lparr>md_name = name\<rparr>,
            env_spec = \<lparr>sp_project = name, sp_domain = name @ ''.vz.test'',
              sp_dns = \<lparr>dns_enabled = True, dns_host_resolver = True, dns_host_listen = ''127.0.0.1:15353'',
                dns_forward = \<lparr>fwd_enabled = True, fwd_upstream = ''system''\<rparr>\<rparr>,
              sp_resilience = \<lparr>res_network = default_network_resilience\<rparr>,
              sp_images = [(''ubuntu-base'', \<lparr>img_from = ''ubuntu-latest'', img_role = Base, img_tag = ''v1''\<rparr>)],
              sp_networks = [(''lan'', \<lparr>net_cidr = cidr, net_mode = Shared, net_dhcp = False,
                net_nat_egress = True, net_backend = Vmnet\<rparr>)],
              sp_routes = [], sp_policies = [], sp_ports = [], sp_volumes = [],
              sp_certs = None, sp_ingress = None, sp_oidc = None, sp_observability = default_observability,
              sp_kubernetes = \<lparr>k8s_clusters = []\<rparr>, sp_service_providers = [], sp_service_claims = [],
              sp_vms = []\<rparr>\<rparr>)"

section \<open>next_free_ip\<close>

definition offset_ip :: "'n ipnet_lib \<Rightarrow> 'n \<Rightarrow> u32 \<Rightarrow> (ipv4, string) result" where
  "offset_ip L cidr offset =
     (let candidate = net_network L cidr + offset
      in if net_broadcast L cidr < candidate then
           Inl (''host offset '' @ show_word offset @ '' out of range for '' @ net_display L cidr)
         else Inr candidate)"

text \<open>The parsed addresses of all attachments to a network.\<close>

definition used_ips :: "environment \<Rightarrow> string \<Rightarrow> ipv4 set" where
  "used_ips env network_name =
     set (concat (map (\<lambda>vm. concat (map (\<lambda>att.
       if att_name att = network_name then (case parse_ipv4 (att_ip att) of Some ip \<Rightarrow> [ip] | None \<Rightarrow> []) else [])
       (vm_networks vm))) (bm_values (env_vms env))))"

fun first_free :: "'n ipnet_lib \<Rightarrow> 'n \<Rightarrow> ipv4 set \<Rightarrow> string \<Rightarrow> u32 list \<Rightarrow> (string, string) result" where
  "first_free L cidr used network_name [] = Inl (''no free IP on network '' @ debug_str network_name)"
| "first_free L cidr used network_name (offset # offsets) =
     and_then (offset_ip L cidr offset) (\<lambda>ip.
       if net_contains L cidr ip \<and> ip \<notin> used then Inr (show_ipv4 ip)
       else first_free L cidr used network_name offsets)"

definition host_offsets :: "u32 list" where
  "host_offsets = map of_nat [10..<254]"

definition next_free_ip :: "'n ipnet_lib \<Rightarrow> environment \<Rightarrow> string \<Rightarrow> (string, string) result" where
  "next_free_ip L env network_name =
     and_then (ok_or (''unknown network '' @ debug_str network_name) (bm_get (env_networks env) network_name))
       (\<lambda>network.
     and_then (map_err (\<lambda>e. ''invalid CIDR '' @ net_cidr network @ '': '' @ e) (net_parse L (net_cidr network)))
       (\<lambda>cidr.
         let used = used_ips env network_name
         in if net_backend network = Docker then
              and_then (offset_ip L cidr 2) (\<lambda>ip.
                if ip \<in> used then
                  Inl (''docker network '' @ debug_str network_name @ '' already has owner at '' @ show_ipv4 ip)
                else Inr (show_ipv4 ip))
            else first_free L cidr used network_name host_offsets))"

section \<open>Adding and removing\<close>

record add_vm_options =
  av_from_image :: string
  av_network :: "string option"
  av_ip :: "string option"
  av_disk :: string
  av_cpus :: "u32 option"
  av_memory :: "string option"
  av_roles :: "string list"
  av_cloud_init :: "string option"

definition resolve_image_key :: "environment \<Rightarrow> string \<Rightarrow> (string, string) result" where
  "resolve_image_key env reference =
     (if bm_contains (env_images env) reference then Inr reference
      else case map fst (filter (\<lambda>(key, image). img_from image = reference) (env_images env)) of
        [] \<Rightarrow> Inl (''unknown image '' @ debug_str reference @ ''; available: ''
                @ join '', '' (map (\<lambda>(key, image). key @ '' (from '' @ img_from image @ '')'') (env_images env)))
      | [key] \<Rightarrow> Inr key
      | keys \<Rightarrow> Inl (''image alias '' @ debug_str reference @ '' is ambiguous; use one of: '' @ join '', '' keys))"

definition add_vm ::
    "'n ipnet_lib \<Rightarrow> environment \<Rightarrow> string \<Rightarrow> add_vm_options \<Rightarrow> (environment, validation_issue list) result" where
  "add_vm L env name options =
     (if bm_contains (env_vms env) name then
        Inl [semantic (json_path_key ''$.spec.vms'' name) (''VM '' @ debug_str name @ '' already exists'')]
      else
        and_then (map_err (\<lambda>m. [semantic ''$.spec.images'' m]) (resolve_image_key env (av_from_image options)))
          (\<lambda>from_image.
        and_then
          (case av_network options of
             Some n \<Rightarrow> Inr n
           | None \<Rightarrow>
               (case bm_keys (env_networks env) of
                  [] \<Rightarrow> Inl [semantic ''$.spec.networks'' ''no networks defined; add a network first'']
                | n # _ \<Rightarrow> Inr n))
          (\<lambda>network_name.
            if \<not> bm_contains (env_networks env) network_name then
              Inl [semantic ''$.spec.networks'' (''unknown network '' @ debug_str network_name)]
            else
              and_then
                (case av_ip options of
                   Some ip \<Rightarrow> Inr ip
                 | None \<Rightarrow> map_err (\<lambda>m. [semantic (json_path_key ''$.spec.vms'' name) m])
                     (next_free_ip L env network_name))
                (\<lambda>ip. Inr (with_vms (bm_insert name
                   \<lparr>vm_from = from_image, vm_clone = Linked, vm_disk = av_disk options, vm_cpus = av_cpus options,
                    vm_memory = av_memory options, vm_networks = [\<lparr>att_name = network_name, att_ip = ip\<rparr>],
                    vm_cloud_init = av_cloud_init options, vm_depends_on = [], vm_roles = av_roles options,
                    vm_requires = [], vm_ports = [], vm_mounts = [], vm_compose_files = [],
                    vm_containers = [], vm_logs = None\<rparr> (env_vms env)) env)))))"

definition remove_vm :: "environment \<Rightarrow> string \<Rightarrow> (environment, validation_issue list) result" where
  "remove_vm env name =
     (if \<not> bm_contains (env_vms env) name then
        Inl [semantic (json_path_key ''$.spec.vms'' name) (''VM '' @ debug_str name @ '' does not exist'')]
      else Inr (with_vms (bm_remove name (env_vms env)) env))"

record add_network_options =
  an_cidr :: string
  an_mode :: network_mode
  an_backend :: network_backend
  an_nat_egress :: bool

definition add_network ::
    "environment \<Rightarrow> string \<Rightarrow> add_network_options \<Rightarrow> (environment, validation_issue list) result" where
  "add_network env name options =
     (if bm_contains (env_networks env) name then
        Inl [semantic (json_path_key ''$.spec.networks'' name) (''network '' @ debug_str name @ '' already exists'')]
      else Inr (with_networks (bm_insert name
        \<lparr>net_cidr = an_cidr options, net_mode = an_mode options, net_dhcp = False,
         net_nat_egress = an_nat_egress options, net_backend = an_backend options\<rparr> (env_networks env)) env))"

definition remove_network :: "environment \<Rightarrow> string \<Rightarrow> (environment, validation_issue list) result" where
  "remove_network env name =
     (if \<not> bm_contains (env_networks env) name then
        Inl [semantic (json_path_key ''$.spec.networks'' name) (''network '' @ debug_str name @ '' does not exist'')]
      else Inr (with_networks (bm_remove name (env_networks env)) env))"

definition add_volume :: "environment \<Rightarrow> string \<Rightarrow> string \<Rightarrow> (environment, validation_issue list) result" where
  "add_volume env name path =
     (if bm_contains (env_volumes env) name then
        Inl [semantic (json_path_key ''$.spec.volumes'' name) (''volume '' @ debug_str name @ '' already exists'')]
      else Inr (with_volumes (bm_insert name path (env_volumes env)) env))"

definition remove_volume :: "environment \<Rightarrow> string \<Rightarrow> (environment, validation_issue list) result" where
  "remove_volume env name =
     (if \<not> bm_contains (env_volumes env) name then
        Inl [semantic (json_path_key ''$.spec.volumes'' name) (''volume '' @ debug_str name @ '' does not exist'')]
      else Inr (with_volumes (bm_remove name (env_volumes env)) env))"

text \<open>\<open>vms.get_mut(vm_name)\<close>: the VM is edited in place.\<close>

definition vm_missing :: "string \<Rightarrow> validation_issue list" where
  "vm_missing vm_name =
     [semantic (json_path_key ''$.spec.vms'' vm_name) (''VM '' @ debug_str vm_name @ '' does not exist'')]"

definition set_mounts :: "environment \<Rightarrow> string \<Rightarrow> vm_config \<Rightarrow> vm_mount list \<Rightarrow> environment" where
  "set_mounts env vm_name vm mounts = with_vms (bm_insert vm_name (vm\<lparr>vm_mounts := mounts\<rparr>) (env_vms env)) env"

definition add_mount ::
    "environment \<Rightarrow> string \<Rightarrow> string \<Rightarrow> string \<Rightarrow> bool \<Rightarrow> (environment, validation_issue list) result" where
  "add_mount env vm_name source target read_only =
     and_then (ok_or (vm_missing vm_name) (bm_get (env_vms env) vm_name)) (\<lambda>vm.
       if \<not> bm_contains (env_volumes env) source then
         Inl [semantic (json_path_key ''$.spec.volumes'' source) (''unknown volume '' @ debug_str source)]
       else if list_ex (\<lambda>m. mnt_target m = target) (vm_mounts vm) then
         Inl [semantic (json_path_key ''$.spec.vms'' vm_name)
                (''mount target '' @ debug_str target @ '' already exists on VM '' @ debug_str vm_name)]
       else Inr (set_mounts env vm_name vm (vm_mounts vm
         @ [\<lparr>mnt_source = source, mnt_target = target, mnt_read_only = read_only\<rparr>])))"

definition remove_mount :: "environment \<Rightarrow> string \<Rightarrow> string \<Rightarrow> (environment, validation_issue list) result" where
  "remove_mount env vm_name target =
     and_then (ok_or (vm_missing vm_name) (bm_get (env_vms env) vm_name)) (\<lambda>vm.
     and_then
       (ok_or [semantic (json_path_key ''$.spec.vms'' vm_name)
                 (''mount target '' @ debug_str target @ '' not found on VM '' @ debug_str vm_name)]
          (find_index (\<lambda>m. mnt_target m = target) (vm_mounts vm)))
       (\<lambda>index. Inr (set_mounts env vm_name vm (remove_at index (vm_mounts vm)))))"

lemmas edit_defs [exec_simps] = scaffold_environment_def offset_ip_def used_ips_def host_offsets_def
  next_free_ip_def resolve_image_key_def add_vm_def remove_vm_def add_network_def remove_network_def
  add_volume_def remove_volume_def vm_missing_def set_mounts_def add_mount_def remove_mount_def

section \<open>Writing the environment\<close>

record serde_lib =
  ser_dns :: "dns_config \<Rightarrow> json"
  ser_images :: "(string, image_config) bmap \<Rightarrow> json"
  ser_networks :: "(string, network_config) bmap \<Rightarrow> json"
  ser_routes :: "route_config list \<Rightarrow> json"
  ser_policies :: "policy_config list \<Rightarrow> json"
  ser_certs :: "certs_config option \<Rightarrow> json"
  ser_ingress :: "ingress_config option \<Rightarrow> json"
  ser_oidc :: "oidc_config option \<Rightarrow> json"
  ser_observability :: "observability_config \<Rightarrow> json"
  ser_resilience :: "resilience_config \<Rightarrow> json"
  ser_vms :: "(string, vm_config) bmap \<Rightarrow> json"
  ser_yaml :: "json \<Rightarrow> string"

definition field_if :: "bool \<Rightarrow> string \<Rightarrow> json \<Rightarrow> (string \<times> json) list" where
  "field_if b key v = (if b then [(key, v)] else [])"

definition spec_map :: "serde_lib \<Rightarrow> spec \<Rightarrow> (string, json) bmap" where
  "spec_map S sp =
     bm_of_list
       ([(''project'', JStr (sp_project sp)), (''domain'', JStr (sp_domain sp)), (''dns'', ser_dns S (sp_dns sp)),
         (''images'', ser_images S (sp_images sp)), (''networks'', ser_networks S (sp_networks sp)),
         (''routes'', ser_routes S (sp_routes sp)), (''policies'', ser_policies S (sp_policies sp))]
        @ field_if (sp_volumes sp \<noteq> []) ''volumes'' (JObj (map (\<lambda>(name, path). (name, JStr path)) (sp_volumes sp)))
        @ field_if (sp_ports sp \<noteq> []) ''ports'' (JArr (map JStr (sp_ports sp)))
        @ field_if (sp_certs sp \<noteq> None) ''certs'' (ser_certs S (sp_certs sp))
        @ field_if (sp_ingress sp \<noteq> None) ''ingress'' (ser_ingress S (sp_ingress sp))
        @ field_if (sp_oidc sp \<noteq> None) ''oidc'' (ser_oidc S (sp_oidc sp))
        @ field_if (obs_probes (sp_observability sp) \<noteq> []
              \<or> \<not> data_sources_is_empty (obs_data_sources (sp_observability sp)))
            ''observability'' (ser_observability S (sp_observability sp))
        @ [(''resilience'', ser_resilience S (sp_resilience sp)), (''vms'', ser_vms S (sp_vms sp))])"

definition serialize_environment_yaml :: "serde_lib \<Rightarrow> environment \<Rightarrow> string" where
  "serialize_environment_yaml S env =
     ser_yaml S (JObj
       [(''apiVersion'', JStr ''hypernetwork/v1''), (''kind'', JStr ''Environment''),
        (''metadata'', JObj [(''name'', JStr (md_name (env_metadata env)))]),
        (''spec'', JObj (spec_map S (env_spec env)))])"

text \<open>\<open>Path::with_extension\<close> and \<open>Path::parent\<close>: the extension follows the last dot of the last
  component, unless that dot is its first character; a path without a file name is unchanged.\<close>

definition split_file_name :: "string \<Rightarrow> string \<times> string" where
  "split_file_name path =
     (case rsplit_once CHR ''/'' path of None \<Rightarrow> ([], path) | Some (dir, name) \<Rightarrow> (dir @ ''/'', name))"

definition file_stem :: "string \<Rightarrow> string" where
  "file_stem name =
     (case rsplit_once CHR ''.'' name of
        None \<Rightarrow> name | Some (stem, _) \<Rightarrow> if stem = [] then name else stem)"

definition has_file_name :: "string \<Rightarrow> bool" where
  "has_file_name path \<longleftrightarrow> snd (split_file_name path) \<notin> {[], ''.'', ''..''}"

definition with_extension :: "string \<Rightarrow> string \<Rightarrow> string" where
  "with_extension path extension =
     (let (dir, name) = split_file_name path
      in if has_file_name path then dir @ file_stem name @ ''.'' @ extension else path)"

definition path_parent :: "string \<Rightarrow> string option" where
  "path_parent path =
     (if path = [] \<or> path = ''/'' then None
      else case rsplit_once CHR ''/'' path of
        None \<Rightarrow> Some [] | Some (dir, _) \<Rightarrow> Some (if dir = [] then ''/'' else dir))"

text \<open>What the disk does: a failing write reports an error and leaves some content, or none, in the
  file it wrote; a failing rename reports an error.\<close>

type_synonym disk = "string \<Rightarrow> string option"

record disk_faults =
  fault_write :: "(string \<times> string option) option"
  fault_rename :: "string option"

definition io_issue :: "string \<Rightarrow> validation_issue list" where
  "io_issue message = [ValidationIssue ''$'' message ''io'']"

definition write_environment_atomic ::
    "config_lib \<Rightarrow> 'n ipnet_lib \<Rightarrow> file_system \<Rightarrow> manifest_lib \<Rightarrow> serde_lib \<Rightarrow> disk_faults \<Rightarrow> string
     \<Rightarrow> environment \<Rightarrow> disk \<Rightarrow> (environment, validation_issue list) result \<times> disk" where
  "write_environment_atomic cfg L fs lib S faults path env disk =
     (let yaml = serialize_environment_yaml S env;
          tmp_path = with_extension path ''yaml.tmp''
      in case validate_source_with_base cfg L fs lib yaml (path_parent path) of
           Inl issues \<Rightarrow> (Inl issues, disk)
         | Inr validated \<Rightarrow>
             (case fault_write faults of
                Some (e, left_over) \<Rightarrow>
                  (Inl (io_issue (''cannot write '' @ tmp_path @ '': '' @ e)), disk(tmp_path := left_over))
              | None \<Rightarrow>
                  (case fault_rename faults of
                     Some e \<Rightarrow>
                       (Inl (io_issue (''cannot rename '' @ tmp_path @ '' to '' @ path @ '': '' @ e)),
                        disk(tmp_path := Some yaml))
                   | None \<Rightarrow> (Inr validated, disk(tmp_path := None, path := Some yaml)))))"

declare spec_map_def [exec_simps] field_if_def [exec_simps] serialize_environment_yaml_def [exec_simps]
  split_file_name_def [exec_simps] file_stem_def [exec_simps] has_file_name_def [exec_simps]
  with_extension_def [exec_simps] path_parent_def [exec_simps] io_issue_def [exec_simps]
  write_environment_atomic_def [exec_simps]

section \<open>Choosing an address\<close>

lemma offset_ip_Inr: "offset_ip L cidr k = Inr ip \<longleftrightarrow> ip = net_network L cidr + k \<and> ip \<le> net_broadcast L cidr"
  by (auto simp: offset_ip_def Let_def not_less)

lemma first_free_Inr:
  assumes "first_free L cidr used name ks = Inr t"
  shows "\<exists>pre k post. ks = pre @ k # post \<and> t = show_ipv4 (net_network L cidr + k)
    \<and> net_contains L cidr (net_network L cidr + k) \<and> net_network L cidr + k \<notin> used
    \<and> (\<forall>j \<in> set pre. net_contains L cidr (net_network L cidr + j) \<longrightarrow> net_network L cidr + j \<in> used)"
  using assms
proof (induction ks)
  case Nil
  then show ?case by simp
next
  case (Cons k ks)
  let ?ip = "net_network L cidr + k"
  from Cons.prems have ip: "offset_ip L cidr k = Inr ?ip"
    by (auto simp: offset_ip_Inr)
  show ?case
  proof (cases "net_contains L cidr ?ip \<and> ?ip \<notin> used")
    case True
    with Cons.prems ip have "t = show_ipv4 ?ip" by simp
    with True show ?thesis by (intro exI [of _ "[]"]) auto
  next
    case False
    with Cons.prems ip have "first_free L cidr used name ks = Inr t" by (simp split: if_splits)
    from Cons.IH [OF this] obtain pre j post where "ks = pre @ j # post" "t = show_ipv4 (net_network L cidr + j)"
        "net_contains L cidr (net_network L cidr + j)" "net_network L cidr + j \<notin> used"
        "\<forall>i \<in> set pre. net_contains L cidr (net_network L cidr + i) \<longrightarrow> net_network L cidr + i \<in> used"
      by blast
    with False show ?thesis by (intro exI [of _ "k # pre"]) auto
  qed
qed

text \<open>An address of the network at a small offset from its start has not wrapped around.\<close>

lemma offset_no_wrap:
  assumes "ipnet_laws L" and "net_contains L cidr (net_network L cidr + of_nat k)" and "k < 4294967296"
  shows "unat (net_network L cidr + of_nat k) = unat (net_network L cidr) + k"
proof -
  let ?n = "net_network L cidr"
  have "?n \<le> ?n + of_nat k" using assms(1,2) by (simp add: ipnet_contains)
  then have "unat (?n + of_nat k) = unat ?n + unat (of_nat k :: u32)"
    by (simp only: unat_plus_simple)
  with assms(3) show ?thesis by (simp add: unat_of_nat_u32)
qed

lemma map_upt_split:
  "map f [a..<b] = pre @ k # post \<Longrightarrow> \<exists>n. a \<le> n \<and> n < b \<and> k = f n \<and> set pre = f ` {a..<n}"
proof (induction pre arbitrary: a)
  case Nil
  then show ?case by (cases "a < b") (auto simp: upt_conv_Cons)
next
  case (Cons x pre)
  then have a: "a < b" by (cases "a < b") simp_all
  with Cons.prems have x: "x = f a" "map f [Suc a..<b] = pre @ k # post"
    by (simp_all add: upt_conv_Cons)
  from Cons.IH [OF x(2)] obtain n where n: "Suc a \<le> n" "n < b" "k = f n" "set pre = f ` {Suc a..<n}"
    by blast
  moreover have "{a..<n} = insert a {Suc a..<n}" using n(1) by auto
  ultimately show ?case using x(1) by (intro exI [of _ n]) auto
qed

lemmas host_offsets_split = map_upt_split [of "of_nat :: nat \<Rightarrow> u32" 10 254, folded host_offsets_def]

lemma next_free_ip_Inr:
  assumes "next_free_ip L env name = Inr t"
  obtains network cidr where "bm_get (env_networks env) name = Some network"
    "net_parse L (net_cidr network) = Inr cidr"
    "if net_backend network = Docker
     then net_network L cidr + 2 \<notin> used_ips env name \<and> t = show_ipv4 (net_network L cidr + 2)
       \<and> net_network L cidr + 2 \<le> net_broadcast L cidr
     else first_free L cidr (used_ips env name) name host_offsets = Inr t"
  using assms by (auto simp: next_free_ip_def Let_def offset_ip_Inr split: if_splits)

section \<open>Undoing an edit\<close>

lemma add_vm_Inr:
  assumes "add_vm L env name options = Inr env'"
  obtains vm ip network where "env' = with_vms (bm_insert name vm (env_vms env)) env"
    "bm_get (env_vms env) name = None" "vm_networks vm = [\<lparr>att_name = network, att_ip = ip\<rparr>]"
    "bm_contains (env_networks env) network"
    "av_ip options = None \<Longrightarrow> next_free_ip L env network = Inr ip"
    "av_ip options \<noteq> None \<Longrightarrow> av_ip options = Some ip"
proof -
  have fresh: "bm_get (env_vms env) name = None"
    using assms by (auto simp: add_vm_def bm_contains_def split: if_splits)
  show ?thesis
    using assms fresh
    by (cases "av_ip options")
      (auto simp: add_vm_def bm_contains_def split: if_splits intro: that)
qed

lemma with_vms_id: "with_vms (env_vms env) env = env"
  by simp

text \<open>The edits of a map of the environment, over the contract of the ordered map.\<close>

lemmas map_edit_simps = bm.delete_update_fresh bm.update_update bm.update_same

lemma mount_position_last:
  assumes "\<not> list_ex (\<lambda>m. mnt_target m = target) mounts"
  shows "find_index (\<lambda>m. mnt_target m = target) (mounts @ [m]) =
    (if mnt_target m = target then Some (length mounts) else None)"
  using assms by (induction mounts) auto

lemma remove_add_mount:
  assumes "bm_wf (env_vms env)" and "add_mount env vm_name source target read_only = Inr env'"
  shows "remove_mount env' vm_name target = Inr env"
proof -
  obtain vm where vm: "bm_get (env_vms env) vm_name = Some vm"
      "\<not> list_ex (\<lambda>m. mnt_target m = target) (vm_mounts vm)"
      "env' = set_mounts env vm_name vm (vm_mounts vm
         @ [\<lparr>mnt_source = source, mnt_target = target, mnt_read_only = read_only\<rparr>])"
    using assms(2) by (auto simp: add_mount_def split: if_splits)
  have "bm_insert vm_name vm (env_vms env) = env_vms env"
    by (rule bm.update_same [OF assms(1) vm(1)])
  then show ?thesis
    using vm by (simp add: remove_mount_def set_mounts_def bm_get_insert mount_position_last
        remove_at_append_last bm.update_update [OF assms(1)])
qed

section \<open>The temporary file\<close>

lemma rsplit_once_Some:
  "rsplit_once d s = Some (a, b) \<longleftrightarrow> s = a @ d # b \<and> d \<notin> set b"
proof -
  have "rsplit_once d s = Some (a, b) \<longleftrightarrow> split_once d (rev s) = Some (rev b, rev a)"
    by (auto simp: rsplit_once_def)
  also have "\<dots> \<longleftrightarrow> rev s = rev b @ d # rev a \<and> d \<notin> set b" by (auto simp: split_once_Some)
  also have "\<dots> \<longleftrightarrow> s = a @ d # b \<and> d \<notin> set b"
    by (metis append.assoc append_Cons append_Nil rev.simps(2) rev_append rev_rev_ident)
  finally show ?thesis .
qed

lemma split_file_name_append: "split_file_name path = (dir, name) \<Longrightarrow> dir @ name = path"
  by (auto simp: split_file_name_def rsplit_once_Some split: option.splits)

lemma with_extension_fresh:
  assumes "has_file_name path"
  shows "with_extension path ''yaml.tmp'' \<noteq> path"
proof
  obtain dir name where split: "split_file_name path = (dir, name)" by fastforce
  assume "with_extension path ''yaml.tmp'' = path"
  then have eq: "file_stem name @ ''.yaml.tmp'' = name"
    using assms split_file_name_append [OF split] by (auto simp: with_extension_def split)
  show False
  proof (cases "rsplit_once CHR ''.'' name")
    case None
    with eq show False by (simp add: file_stem_def)
  next
    case (Some p)
    obtain a b where p: "p = (a, b)" by fastforce
    with Some have ab: "name = a @ CHR ''.'' # b" "CHR ''.'' \<notin> set b" by (simp_all add: rsplit_once_Some)
    show False
    proof (cases "a = []")
      case True
      with eq Some p show False by (simp add: file_stem_def)
    next
      case False
      with eq Some p ab(1) have "b = ''yaml.tmp''" by (simp add: file_stem_def)
      with ab(2) show False by simp
    qed
  qed
qed

definition sample_serde :: serde_lib where
  "sample_serde = \<lparr>ser_dns = (\<lambda>_. JNull), ser_images = (\<lambda>_. JNull), ser_networks = (\<lambda>_. JNull),
     ser_routes = (\<lambda>_. JNull), ser_policies = (\<lambda>_. JNull), ser_certs = (\<lambda>_. JNull), ser_ingress = (\<lambda>_. JNull),
     ser_oidc = (\<lambda>_. JNull), ser_observability = (\<lambda>_. JNull), ser_resilience = (\<lambda>_. JNull),
     ser_vms = (\<lambda>_. JNull), ser_yaml = (\<lambda>_. ''spec'')\<rparr>"

section \<open>Properties\<close>

text \<open>The address chosen for a new VM is one no VM uses on the network; on a docker network it
  is the second after the network address, on any other it lies in the network, 10 to 253 above its
  first address, and every candidate below it is taken.\<close>

lemma next_free_ip_first_unused:
  assumes "ipnet_laws L" and "next_free_ip L env name = Inr t"
  shows "\<exists>network cidr ip. bm_get (env_networks env) name = Some network
    \<and> net_parse L (net_cidr network) = Inr cidr \<and> t = show_ipv4 ip \<and> ip \<notin> used_ips env name
    \<and> (if net_backend network = Docker then ip = net_network L cidr + 2
       else net_contains L cidr ip
         \<and> (\<exists>k. 10 \<le> k \<and> k < 254 \<and> unat ip = unat (net_network L cidr) + k
             \<and> (\<forall>j. 10 \<le> j \<and> j < k \<longrightarrow> net_network L cidr + of_nat j \<in> used_ips env name)))"
proof -
  obtain network cidr where found: "bm_get (env_networks env) name = Some network"
      "net_parse L (net_cidr network) = Inr cidr"
      "if net_backend network = Docker
       then net_network L cidr + 2 \<notin> used_ips env name \<and> t = show_ipv4 (net_network L cidr + 2)
         \<and> net_network L cidr + 2 \<le> net_broadcast L cidr
       else first_free L cidr (used_ips env name) name host_offsets = Inr t"
    by (rule next_free_ip_Inr [OF assms(2)])
  let ?n = "net_network L cidr"
  show ?thesis
  proof (cases "net_backend network = Docker")
    case True
    with found show ?thesis by auto
  next
    case False
    with found(3) have "first_free L cidr (used_ips env name) name host_offsets = Inr t" by simp
    then obtain pre w post where w: "host_offsets = pre @ w # post" "t = show_ipv4 (?n + w)"
        "net_contains L cidr (?n + w)" "?n + w \<notin> used_ips env name"
        "\<forall>j \<in> set pre. net_contains L cidr (?n + j) \<longrightarrow> ?n + j \<in> used_ips env name"
      using first_free_Inr [of L cidr "used_ips env name" name host_offsets t] by blast
    obtain k where k: "10 \<le> k" "k < 254" "w = of_nat k" "set pre = of_nat ` {10..<k}"
      using host_offsets_split [OF w(1)] by blast
    have unat_k: "unat (?n + w) = unat ?n + k"
      using offset_no_wrap [OF assms(1), of cidr k] w(3) k(2,3) by simp
    have "?n + of_nat j \<in> used_ips env name" if j: "10 \<le> j" "j < k" for j
    proof -
      have small: "unat (of_nat j :: u32) = j" using j(2) k(2) by (simp add: unat_of_nat_u32)
      have "unat ?n + j < 4294967296" using unat_k j(2) unat_u32_less [of "?n + w"] by linarith
      then have unat_j: "unat (?n + of_nat j) = unat ?n + j"
        by (simp add: unat_word_ariths small)
      have "?n \<le> ?n + of_nat j" "?n + of_nat j \<le> ?n + w"
        using unat_j unat_k j(2) by (simp_all add: word_le_nat_alt)
      moreover have "?n + w \<le> net_broadcast L cidr" using w(3) assms(1) by (simp add: ipnet_contains)
      ultimately have "net_contains L cidr (?n + of_nat j)"
        using assms(1) by (simp add: ipnet_contains)
      moreover have "of_nat j \<in> set pre" using j k(4) by simp
      ultimately show ?thesis using w(5) by blast
    qed
    with found(1,2) w(2-4) k(1,2) unat_k False show ?thesis by auto
  qed
qed

lemma next_free_ip_first_unused_witness:
  "next_free_ip cidr_lib sample_env ''lan'' = Inr ''10.0.0.12'' \<and> 0x0a00000b \<in> used_ips sample_env ''lan''"
proof -
  have free: "next_free_ip cidr_lib sample_env ''lan'' = Inr ''10.0.0.12''"
    by (simp add: exec_simps Let_def)
  show ?thesis
    using next_free_ip_first_unused [OF cidr_lib_laws free] free by (simp add: exec_simps)
qed

text \<open>Adding a VM, a network, a volume or a mount and removing it again gives the environment
  back, for every addition that succeeds.\<close>

lemma additions_undone:
  assumes "bm_wf (env_vms env)" and "bm_wf (env_networks env)" and "bm_wf (env_volumes env)"
  shows "(add_vm L env name vm_options = Inr env' \<longrightarrow> remove_vm env' name = Inr env)
    \<and> (add_network env name network_options = Inr env' \<longrightarrow> remove_network env' name = Inr env)
    \<and> (add_volume env name path = Inr env' \<longrightarrow> remove_volume env' name = Inr env)
    \<and> (add_mount env name source target read_only = Inr env' \<longrightarrow> remove_mount env' name target = Inr env)"
proof -
  have "remove_vm env' name = Inr env" if added: "add_vm L env name vm_options = Inr env'"
  proof -
    obtain vm where "env' = with_vms (bm_insert name vm (env_vms env)) env" "bm_get (env_vms env) name = None"
      using add_vm_Inr [OF added] by blast
    with assms(1) show ?thesis
      by (simp add: remove_vm_def bm_contains_def bm_get_insert bm.delete_update_fresh)
  qed
  moreover have "remove_network env' name = Inr env" if "add_network env name network_options = Inr env'"
    using that assms(2)
    by (auto simp: add_network_def remove_network_def bm_contains_def bm_get_insert bm.delete_update_fresh
        split: if_splits)
  moreover have "remove_volume env' name = Inr env" if "add_volume env name path = Inr env'"
    using that assms(3)
    by (auto simp: add_volume_def remove_volume_def bm_contains_def bm_get_insert bm.delete_update_fresh
        split: if_splits)
  ultimately show ?thesis using remove_add_mount [OF assms(1)] by blast
qed

lemma additions_undone_witness:
  "\<exists>env'. add_mount sample_env ''web'' ''data'' ''/mnt'' True = Inr env'
     \<and> remove_mount env' ''web'' ''/mnt'' = Inr sample_env"
proof -
  have wf: "bm_wf (env_vms sample_env)" "bm_wf (env_volumes sample_env)"
    by (simp_all add: bm_wf_def sample_simps)
  have "is_ok (add_mount sample_env ''web'' ''data'' ''/mnt'' True)" by (simp add: exec_simps)
  then obtain env' where "add_mount sample_env ''web'' ''data'' ''/mnt'' True = Inr env'"
    by (auto simp: is_ok_iff)
  with additions_undone [OF wf(1) sample_networks_wf wf(2), where name = "''web''" and source = "''data''"
      and target = "''/mnt''" and read_only = True and env' = env']
  show ?thesis by blast
qed

text \<open>C37: writing an environment either reports success, and the configuration file then holds the
  YAML that was validated, whose environment is returned, with no temporary file left; or it reports
  an error, and every file but the temporary one is as before.\<close>

theorem write_environment_outcome:
  assumes "has_file_name path"
    and "write_environment_atomic cfg L fs lib S faults path env disk = (result, disk')"
  shows "(\<forall>validated. result = Inr validated \<longrightarrow>
      disk' path = Some (serialize_environment_yaml S env)
      \<and> validate_source_with_base cfg L fs lib (serialize_environment_yaml S env) (path_parent path) = Inr validated
      \<and> disk' (with_extension path ''yaml.tmp'') = None)
    \<and> (\<forall>issues. result = Inl issues \<longrightarrow> disk' path = disk path)
    \<and> (\<forall>other. other \<noteq> path \<and> other \<noteq> with_extension path ''yaml.tmp'' \<longrightarrow> disk' other = disk other)"
proof -
  have "with_extension path ''yaml.tmp'' \<noteq> path" using assms(1) by (rule with_extension_fresh)
  with assms(2) show ?thesis
    by (auto simp: write_environment_atomic_def Let_def split: sum.splits option.splits)
qed

lemma write_environment_outcome_witness:
  "snd (write_environment_atomic sample_cfg cidr_lib sample_fs sample_lib sample_serde
     \<lparr>fault_write = None, fault_rename = Some ''EXDEV''\<rparr> ''stack.yaml'' sample_env
     (\<lambda>_. Some ''old'')) ''stack.yaml'' = Some ''old''"
proof -
  obtain result disk' where w: "write_environment_atomic sample_cfg cidr_lib sample_fs sample_lib sample_serde
     \<lparr>fault_write = None, fault_rename = Some ''EXDEV''\<rparr> ''stack.yaml'' sample_env (\<lambda>_. Some ''old'')
     = (result, disk')"
    by fastforce
  have "\<exists>issues. fst (write_environment_atomic sample_cfg cidr_lib sample_fs sample_lib sample_serde
     \<lparr>fault_write = None, fault_rename = Some ''EXDEV''\<rparr> ''stack.yaml'' sample_env (\<lambda>_. Some ''old''))
     = Inl issues"
    unfolding write_environment_atomic_def by (simp add: Let_def split: sum.split)
  with w have "\<exists>issues. result = Inl issues" by simp
  moreover have "has_file_name ''stack.yaml''" by (simp add: exec_simps)
  ultimately have "disk' ''stack.yaml'' = Some ''old''"
    using write_environment_outcome [OF _ w] by blast
  with w show ?thesis by simp
qed

section \<open>Divergences\<close>

text \<open>The clusters, service providers and claims of an environment are not written: environments that
  differ in nothing else are written as the same file, so an edit of a stack that declares them
  drops them.\<close>

lemma serialize_drops_services:
  "serialize_environment_yaml S (env\<lparr>env_spec := (env_spec env)\<lparr>
     sp_kubernetes := kubernetes, sp_service_providers := providers, sp_service_claims := claims\<rparr>\<rparr>)
   = serialize_environment_yaml S env"
  by (simp add: serialize_environment_yaml_def spec_map_def)

text \<open>On a small network the first free address can be its broadcast address, which validation
  rejects.\<close>

definition crowded_env :: environment where
  "crowded_env = with_vms
     (map (\<lambda>(n, ip). (n, plain_vm\<lparr>vm_networks := [\<lparr>att_name = ''lan'', att_ip = ip\<rparr>]\<rparr>))
        [(''a'', ''10.0.0.10''), (''b'', ''10.0.0.11''), (''c'', ''10.0.0.12''), (''d'', ''10.0.0.13''), (''e'', ''10.0.0.14'')])
     (with_networks [(''lan'', sample_lan\<lparr>net_cidr := ''10.0.0.0/28''\<rparr>)] sample_env)"

lemma next_free_ip_broadcast:
  "next_free_ip cidr_lib crowded_env ''lan'' = Inr ''10.0.0.15''
   \<and> net_broadcast cidr_lib (0x0a000000, 28) = 0x0a00000f"
  by (simp add: crowded_env_def exec_simps Let_def)

end
