(* ===== verification/Plan.thy ===== *)
theory Plan
  imports Edit
begin

text \<open>
  \<open>reconciler/plan.rs\<close>: the resources an environment declares (\<open>desired_resources\<close>, with
  \<open>docker/bindings.rs::for_vm\<close>), what the journal of an interrupted run says (\<open>journal_context\<close>),
  and the plan that takes the recorded resources to the desired ones (\<open>build_plan\<close>).

  The texts serde gives for the configuration structs are the parameters \<open>plan_lib\<close>, with the reader
  that recovers a VM from its text; the texts of strings and of lists of strings are written out. A
  \<open>BTreeMap\<close> collected from resources is \<open>bm_of_list\<close>, \<open>sort_by\<close> on a key is the stable \<open>sort_key\<close>.

  The lemmas: every action of a plan comes from one key and one of the rules of the code
  (\<open>plan_action_cases\<close>), a plan is empty exactly when nothing differs.
\<close>

section \<open>Modes, failures, resources, plans\<close>

datatype mode = ModePlan | ModeDiff | ModeUp | ModeApply | ModeDown | ModeAdopt

record failure =
  fail_code :: nat
  fail_message :: string

definition EXIT_INVALID :: nat where "EXIT_INVALID = 3"
definition EXIT_INCOMPLETE :: nat where "EXIT_INCOMPLETE = 5"
definition EXIT_SUPERVISOR :: nat where "EXIT_SUPERVISOR = 10"
definition EXIT_STEP :: nat where "EXIT_STEP = 24"

definition mode_command :: "mode \<Rightarrow> string" where
  "mode_command m =
     (case m of ModePlan \<Rightarrow> ''plan'' | ModeDiff \<Rightarrow> ''diff'' | ModeUp \<Rightarrow> ''up'' | ModeApply \<Rightarrow> ''apply''
      | ModeDown \<Rightarrow> ''down'' | ModeAdopt \<Rightarrow> ''adopt'')"

record resource =
  res_kind :: string
  res_name :: string
  res_labels :: "(string, string) bmap"
  res_state :: string

record plan_action =
  act_action :: string
  act_kind :: string
  act_name :: string
  act_breaking :: bool
  act_reason :: string

record plan =
  plan_actions :: "plan_action list"
  plan_desired :: "resource list"

abbreviation res_key :: "resource \<Rightarrow> string \<times> string" where
  "res_key r \<equiv> (res_kind r, res_name r)"

abbreviation res_spec :: "resource \<Rightarrow> string option" where
  "res_spec r \<equiv> bm_get (res_labels r) ''spec''"

record plan_lib =
  text_dns :: "dns_config \<Rightarrow> string"
  text_image :: "image_config \<Rightarrow> string"
  text_network :: "network_config \<Rightarrow> string"
  text_vm :: "vm_config \<Rightarrow> string"
  text_route :: "route_config \<Rightarrow> string"
  text_policy :: "policy_config \<Rightarrow> string"
  text_resilience :: "resilience_config \<Rightarrow> string"
  text_observability :: "observability_config \<Rightarrow> string"
  text_certs :: "certs_config \<Rightarrow> string"
  text_ingress :: "ingress_config \<Rightarrow> string"
  text_oidc :: "oidc_config \<Rightarrow> string"
  text_cluster :: "cluster_config \<Rightarrow> string"
  text_provider :: "provider_config \<Rightarrow> string"
  text_claim :: "claim_config \<Rightarrow> string"
  read_vm :: "string \<Rightarrow> vm_config option"
  value_vm :: "vm_config \<Rightarrow> json"
  read_json :: "string \<Rightarrow> (json, string) result"

section \<open>Container bindings\<close>

definition bind_claim :: "string \<Rightarrow> string \<Rightarrow> (string, string list) bmap \<Rightarrow> (string, string list) bmap" where
  "bind_claim claim container m =
     (let claims = (case bm_get m container of Some cs \<Rightarrow> cs | None \<Rightarrow> [])
      in bm_insert container (if claim \<in> set claims then claims else claims @ [claim]) m)"

definition bind_consumer ::
    "string \<Rightarrow> string \<Rightarrow> (string, string list) bmap \<Rightarrow> consumer \<Rightarrow> (string, string list) bmap" where
  "bind_consumer vm claim m c =
     (case c of
        ConsumerContainer target \<Rightarrow>
          (case split_once CHR ''/'' target of
             Some (node, container) \<Rightarrow> if node = vm then bind_claim claim container m else m
           | None \<Rightarrow> m)
      | _ \<Rightarrow> m)"

definition bindings_for_vm :: "string \<Rightarrow> (string, claim_config) bmap \<Rightarrow> (string, string list) bmap" where
  "bindings_for_vm vm claims =
     foldl (\<lambda>m (name, claim). foldl (bind_consumer vm name) m (cm_consumers claim)) [] claims"

section \<open>desired_resources\<close>

definition stack_id :: "environment \<Rightarrow> string" where
  "stack_id env = sp_project (env_spec env) @ '':'' @ md_name (env_metadata env)"

definition vm_runtime_id :: "environment \<Rightarrow> string \<Rightarrow> string" where
  "vm_runtime_id env name = runtime_vm_id (sp_project (env_spec env)) name"

definition make_resource :: "environment \<Rightarrow> string \<Rightarrow> string \<Rightarrow> string \<Rightarrow> string \<Rightarrow> resource" where
  "make_resource env kind name text state =
     \<lparr>res_kind = kind, res_name = name,
      res_labels = bm_of_list [(''managed-by'', ''vzctl''), (''project'', sp_project (env_spec env)),
        (''stack_id'', stack_id env), (''spec'', text)],
      res_state = state\<rparr>"

definition claims_text :: "string list \<Rightarrow> string" where
  "claims_text claims = ''{\"claims\":['' @ join '','' (map json_str claims) @ '']}''"

definition desired_resources :: "plan_lib \<Rightarrow> environment \<Rightarrow> resource list" where
  "desired_resources P env =
     (let sp = env_spec env; add = make_resource env
      in sort_key res_key
        ([add ''dns'' (sp_domain sp) (text_dns P (sp_dns sp)) ''active'']
         @ map (\<lambda>(name, image). add ''image'' name (text_image P image) ''sealed'') (sp_images sp)
         @ map (\<lambda>(name, network). add ''network'' name (text_network P network) ''active'') (sp_networks sp)
         @ map (\<lambda>(name, vm). add ''vm'' (vm_runtime_id env name) (text_vm P vm) ''running'') (sp_vms sp)
         @ map (\<lambda>route. add ''route'' (rt_name route) (text_route P route) ''active'') (sp_routes sp)
         @ map (\<lambda>policy. add ''policy'' (pol_name policy) (text_policy P policy) ''active'') (sp_policies sp)
         @ [add ''resilience'' ''default'' (text_resilience P (sp_resilience sp)) ''active'',
            add ''observability'' ''default'' (text_observability P (sp_observability sp)) ''active'']
         @ map (\<lambda>port. add ''port'' port (json_str port) ''active'') (sp_ports sp)
         @ map (\<lambda>(name, path). add ''volume'' name (json_str path) ''active'') (sp_volumes sp)
         @ (case sp_certs sp of Some c \<Rightarrow> [add ''certs'' ''default'' (text_certs P c) ''active''] | None \<Rightarrow> [])
         @ (case sp_ingress sp of Some i \<Rightarrow> [add ''ingress'' ''default'' (text_ingress P i) ''active''] | None \<Rightarrow> [])
         @ (case sp_oidc sp of Some oidc \<Rightarrow> [add ''oidc'' ''default'' (text_oidc P oidc) ''active''] | None \<Rightarrow> [])
         @ map (\<lambda>(name, cluster). add ''kubernetes'' name (text_cluster P cluster) ''ready'')
             (k8s_clusters (sp_kubernetes sp))
         @ map (\<lambda>(name, provider). add ''service_provider'' name (text_provider P provider) ''configured'')
             (sp_service_providers sp)
         @ map (\<lambda>(name, claim). add ''service_claim'' name (text_claim P claim) ''ready'') (sp_service_claims sp)
         @ concat (map (\<lambda>vm. map (\<lambda>(container, claims).
               add ''container_binding'' (vm @ ''/'' @ container) (claims_text claims) ''mounted'')
               (bindings_for_vm vm (sp_service_claims sp))) (bm_keys (sp_vms sp)))))"

section \<open>append_input_resources\<close>

text \<open>The files apply reads, with their fingerprints (none for a missing file), in the order of the set the code
  collects; how they are found and hashed is not modelled here.\<close>

definition input_text :: "string option \<Rightarrow> string" where
  "input_text digest = ''{\"sha256\":'' @ (case digest of Some d \<Rightarrow> json_str d | None \<Rightarrow> ''null'') @ ''}''"

definition append_input_resources ::
    "environment \<Rightarrow> (string \<times> string option) list \<Rightarrow> resource list \<Rightarrow> resource list" where
  "append_input_resources env inputs resources =
     sort_key res_key (resources
       @ map (\<lambda>(path, digest). make_resource env ''input'' path (input_text digest) ''active'') inputs)"

section \<open>journal_context\<close>

definition incomplete :: "string \<Rightarrow> failure" where
  "incomplete message = \<lparr>fail_code = EXIT_INCOMPLETE, fail_message = message\<rparr>"

definition journal_context :: "plan_lib \<Rightarrow> json \<Rightarrow> (mode \<times> bool, failure) result" where
  "journal_context P state =
     and_then (ok_or (incomplete ''incomplete journal has no payload'')
         (json_as_str (json_get (json_get state ''journal'') ''payload''))) (\<lambda>text.
     and_then (map_err (\<lambda>e. incomplete (''invalid journal payload: '' @ e)) (read_json P text)) (\<lambda>payload.
     and_then
       (case json_as_str (json_get payload ''mode'') of
          Some m \<Rightarrow>
            if m = ''up'' then Inr ModeUp else if m = ''apply'' then Inr ModeApply
            else if m = ''down'' then Inr ModeDown
            else Inl (incomplete (''cannot resume journal mode '' @ m))
        | None \<Rightarrow> Inl (incomplete ''incomplete journal has no mode''))
       (\<lambda>mode. Inr (mode, json_get payload ''purge'' = JBool True))))"

section \<open>build_plan\<close>

definition only_new_containers_added :: "plan_lib \<Rightarrow> resource \<Rightarrow> resource \<Rightarrow> bool" where
  "only_new_containers_added P current wanted =
     (let reader = (\<lambda>r. Option.bind (res_spec r) (read_vm P))
      in case (reader current, reader wanted) of
           (Some before, Some after) \<Rightarrow>
             \<not> (length (vm_containers after) \<le> length (vm_containers before)
                \<or> \<not> list_all (\<lambda>(name, config). bm_get (vm_containers after) name = Some config) (vm_containers before))
             \<and> value_vm P (before\<lparr>vm_containers := []\<rparr>) = value_vm P (after\<lparr>vm_containers := []\<rparr>)
         | _ \<Rightarrow> False)"

definition binding_consumer_may_exist :: "plan_lib \<Rightarrow> resource \<Rightarrow> resource list \<Rightarrow> bool" where
  "binding_consumer_may_exist P binding actual =
     (case (split_once CHR ''/'' (res_name binding), bm_get (res_labels binding) ''project'') of
        (Some (vm, container), Some project) \<Rightarrow>
          (case find (\<lambda>r. res_kind r = ''vm'' \<and> (res_name r = project @ ''/'' @ vm
                 \<or> res_name r = vm \<and> (case bm_get (res_labels r) ''project'' of
                       None \<Rightarrow> True | Some owner \<Rightarrow> owner = project))) actual of
             None \<Rightarrow> False
           | Some previous_vm \<Rightarrow>
               (case Option.bind (res_spec previous_vm) (read_vm P) of
                  None \<Rightarrow> True
                | Some previous \<Rightarrow> bm_contains (vm_containers previous) container \<or> vm_compose_files previous \<noteq> []))
      | _ \<Rightarrow> list_ex (\<lambda>r. res_kind r = ''vm'') actual)"

definition action_for :: "string \<Rightarrow> resource \<Rightarrow> bool \<Rightarrow> string \<Rightarrow> plan_action" where
  "action_for action r breaking reason =
     \<lparr>act_action = action, act_kind = res_kind r, act_name = res_name r, act_breaking = breaking, act_reason = reason\<rparr>"

definition plan_missing :: "plan_lib \<Rightarrow> resource list \<Rightarrow> resource \<Rightarrow> plan_action list" where
  "plan_missing P actual wanted =
     (let recreate = res_kind wanted = ''container_binding'' \<and> binding_consumer_may_exist P wanted actual
      in [action_for (if recreate then ''recreate'' else ''create'') wanted recreate
            (if recreate then ''managed binding mount required; existing consumer containers are recreated''
             else ''missing from actual state'')])"

definition plan_present :: "plan_lib \<Rightarrow> mode \<Rightarrow> resource \<Rightarrow> resource \<Rightarrow> plan_action list" where
  "plan_present P mode wanted current =
     (if res_spec current \<noteq> res_spec wanted \<and> mode \<noteq> ModeUp then
        let added_containers = res_kind wanted = ''vm'' \<and> only_new_containers_added P current wanted
        in [action_for (if res_kind wanted = ''container_binding'' then ''recreate'' else ''update'') wanted
              (res_kind wanted \<in> {''network'', ''container_binding''} \<or> res_kind wanted = ''vm'' \<and> \<not> added_containers)
              (if res_kind wanted = ''container_binding'' then
                 ''binding mounts changed; consumer container must be recreated''
               else if added_containers then
                 ''new containers added; existing containers and VM configuration are unchanged''
               else ''desired spec differs from actual state'')]
      else if res_kind wanted = ''vm'' \<and> res_state current = ''stopped'' \<and> mode \<noteq> ModeDown then
        [action_for ''start'' wanted False ''VM is stopped'']
      else [])"

definition retained_kinds :: "string set" where
  "retained_kinds = {''kubernetes'', ''service_claim'', ''service_provider''}"

definition plan_absent :: "resource \<Rightarrow> plan_action" where
  "plan_absent current =
     action_for
       (if res_kind current \<in> retained_kinds then ''retain''
        else if res_kind current = ''container_binding'' then ''recreate'' else ''delete'')
       current (res_kind current \<notin> retained_kinds)
       (if res_kind current = ''kubernetes'' then
          ''Kubernetes declaration removed; existing cluster and objects are retained (no implicit prune)''
        else if res_kind current = ''container_binding'' then
          ''binding mounts removed; consumer container must be recreated''
        else if res_kind current \<in> {''service_claim'', ''service_provider''} then
          ''service declaration removed; external service resources are retained''
        else ''managed resource absent from desired state'')"

definition resource_map :: "resource list \<Rightarrow> (string \<times> string, resource) bmap" where
  "resource_map rs = bm_of_list (map (\<lambda>r. (res_key r, r)) rs)"

definition build_plan :: "plan_lib \<Rightarrow> mode \<Rightarrow> resource list \<Rightarrow> resource list \<Rightarrow> plan" where
  "build_plan P mode desired actual =
     (let desired_map = resource_map desired;
          actual_map = resource_map actual;
          present = concat (map (\<lambda>(key, wanted).
            case bm_get actual_map key of
              None \<Rightarrow> plan_missing P actual wanted
            | Some current \<Rightarrow> plan_present P mode wanted current) desired_map);
          absent = (if mode \<in> {ModeUp, ModeDown} then []
            else concat (map (\<lambda>(key, current).
              if bm_contains desired_map key then [] else [plan_absent current]) actual_map));
          stops = (if mode = ModeDown
            then map (\<lambda>vm. \<lparr>act_action = ''stop'', act_kind = ''vm'', act_name = res_name vm, act_breaking = False,
                   act_reason = ''down stops VMs in reverse dependency order''\<rparr>)
                 (filter (\<lambda>r. res_kind r = ''vm'') desired)
            else [])
      in \<lparr>plan_actions = sort_key (\<lambda>a. (act_kind a, act_name a, act_action a)) (present @ absent @ stops),
          plan_desired = desired\<rparr>)"

definition action_json :: "plan_action \<Rightarrow> json" where
  "action_json a =
     JObj [(''action'', JStr (act_action a)), (''breaking'', JBool (act_breaking a)), (''kind'', JStr (act_kind a)),
       (''name'', JStr (act_name a)), (''reason'', JStr (act_reason a))]"

definition plan_output :: "string \<Rightarrow> plan \<Rightarrow> json" where
  "plan_output stack pl =
     JObj [(''actions'', JArr (map action_json (plan_actions pl))),
       (''breaking'', JNum (show_nat (length (filter act_breaking (plan_actions pl))))),
       (''changed'', JBool (plan_actions pl \<noteq> [])),
       (''message'', JStr (if plan_actions pl = [] then ''no changes'' else ''changes planned'')),
       (''stack_id'', JStr stack)]"

declare input_text_def [exec_simps] append_input_resources_def [exec_simps]
  EXIT_INVALID_def [exec_simps] EXIT_INCOMPLETE_def [exec_simps] EXIT_SUPERVISOR_def [exec_simps]
  EXIT_STEP_def [exec_simps] mode_command_def [exec_simps] bind_claim_def [exec_simps]
  bind_consumer_def [exec_simps] bindings_for_vm_def [exec_simps] stack_id_def [exec_simps]
  vm_runtime_id_def [exec_simps] make_resource_def [exec_simps] claims_text_def [exec_simps]
  desired_resources_def [exec_simps] incomplete_def [exec_simps] journal_context_def [exec_simps]
  only_new_containers_added_def [exec_simps] binding_consumer_may_exist_def [exec_simps]
  action_for_def [exec_simps] plan_missing_def [exec_simps] plan_present_def [exec_simps]
  retained_kinds_def [exec_simps] plan_absent_def [exec_simps] resource_map_def [exec_simps]
  build_plan_def [exec_simps] action_json_def [exec_simps] plan_output_def [exec_simps]

section \<open>The maps of a plan\<close>

lemma resource_map_get: "bm_get (resource_map rs) k = find (\<lambda>r. res_key r = k) (rev rs)"
proof -
  have "map_of (map (\<lambda>r. (res_key r, r)) xs) k = find (\<lambda>r. res_key r = k) xs" for xs :: "resource list"
    by (induction xs) auto
  from this [of "rev rs"] show ?thesis
    by (simp add: resource_map_def bm_get_of_list rev_map)
qed

lemma resource_map_key: "bm_get (resource_map rs) k = Some r \<Longrightarrow> res_key r = k \<and> r \<in> set rs"
  by (auto simp: resource_map_def bm_get_of_list dest!: map_of_SomeD)

lemma resource_map_in: "(k, r) \<in> set (resource_map rs) \<longleftrightarrow> bm_get (resource_map rs) k = Some r"
proof -
  have "bm_wf (resource_map rs)" by (simp add: resource_map_def)
  then show ?thesis by (simp only: bm_wf_in_set)
qed

lemma resource_map_unique:
  assumes "distinct (map res_key rs)" and "r \<in> set rs"
  shows "bm_get (resource_map rs) (res_key r) = Some r"
proof -
  have "find (\<lambda>s. res_key s = res_key r) xs = Some r" if "distinct (map res_key xs)" "r \<in> set xs" for xs
    using that by (induction xs) (auto intro: rev_image_eqI)
  from this [of "rev rs"] assms show ?thesis
    by (simp add: resource_map_get rev_map [symmetric])
qed

lemma resource_map_entries:
  "a \<in> set (concat (map (\<lambda>(k, r). f k r) (resource_map rs))) \<longleftrightarrow>
    (\<exists>k r. bm_get (resource_map rs) k = Some r \<and> a \<in> set (f k r))"
  by (force simp: resource_map_in [symmetric] split_beta)

text \<open>Where an action of a plan comes from.\<close>

lemma plan_action_cases:
  "a \<in> set (plan_actions (build_plan P mode desired actual)) \<longleftrightarrow>
    (\<exists>k w. bm_get (resource_map desired) k = Some w \<and> bm_get (resource_map actual) k = None
        \<and> a \<in> set (plan_missing P actual w))
    \<or> (\<exists>k w c. bm_get (resource_map desired) k = Some w \<and> bm_get (resource_map actual) k = Some c
        \<and> a \<in> set (plan_present P mode w c))
    \<or> mode \<notin> {ModeUp, ModeDown} \<and> (\<exists>k c. bm_get (resource_map desired) k = None
        \<and> bm_get (resource_map actual) k = Some c \<and> a = plan_absent c)
    \<or> mode = ModeDown \<and> (\<exists>w \<in> set desired. res_kind w = ''vm'' \<and> act_action a = ''stop'' \<and> act_kind a = ''vm''
        \<and> act_name a = res_name w \<and> \<not> act_breaking a \<and> act_reason a = ''down stops VMs in reverse dependency order'')"
proof -
  let ?D = "resource_map desired" and ?A = "resource_map actual"
  have present: "a \<in> set (concat (map (\<lambda>(key, wanted). case bm_get ?A key of None \<Rightarrow> plan_missing P actual wanted
      | Some current \<Rightarrow> plan_present P mode wanted current) ?D)) \<longleftrightarrow>
    (\<exists>k w. bm_get ?D k = Some w \<and> a \<in> set (case bm_get ?A k of None \<Rightarrow> plan_missing P actual w
      | Some current \<Rightarrow> plan_present P mode w current))"
    unfolding resource_map_entries by simp
  have absent: "a \<in> set (concat (map (\<lambda>(key, current).
      if bm_contains ?D key then [] else [plan_absent current]) ?A)) \<longleftrightarrow>
    (\<exists>k c. bm_get ?A k = Some c \<and> a \<in> set (if bm_contains ?D k then [] else [plan_absent c]))"
    unfolding resource_map_entries by simp
  have split: "(\<exists>k w. bm_get ?D k = Some w \<and> a \<in> set (case bm_get ?A k of None \<Rightarrow> plan_missing P actual w
      | Some current \<Rightarrow> plan_present P mode w current)) \<longleftrightarrow>
    (\<exists>k w. bm_get ?D k = Some w \<and> bm_get ?A k = None \<and> a \<in> set (plan_missing P actual w))
    \<or> (\<exists>k w c. bm_get ?D k = Some w \<and> bm_get ?A k = Some c \<and> a \<in> set (plan_present P mode w c))"
    by (auto split: option.split_asm) (metis option.case)+
  have absent': "(\<exists>k c. bm_get ?A k = Some c \<and> a \<in> set (if bm_contains ?D k then [] else [plan_absent c])) \<longleftrightarrow>
    (\<exists>k c. bm_get ?D k = None \<and> bm_get ?A k = Some c \<and> a = plan_absent c)"
    by (auto simp: bm_contains_def)
  have stops: "a \<in> set (map (\<lambda>vm. \<lparr>act_action = ''stop'', act_kind = ''vm'', act_name = res_name vm, act_breaking = False,
                   act_reason = ''down stops VMs in reverse dependency order''\<rparr>)
                 (filter (\<lambda>r. res_kind r = ''vm'') desired)) \<longleftrightarrow>
    (\<exists>w \<in> set desired. res_kind w = ''vm'' \<and> act_action a = ''stop'' \<and> act_kind a = ''vm''
        \<and> act_name a = res_name w \<and> \<not> act_breaking a \<and> act_reason a = ''down stops VMs in reverse dependency order'')"
    by (cases a) auto
  have "a \<in> set (plan_actions (build_plan P mode desired actual)) \<longleftrightarrow>
      a \<in> set (concat (map (\<lambda>(key, wanted). case bm_get ?A key of None \<Rightarrow> plan_missing P actual wanted
          | Some current \<Rightarrow> plan_present P mode wanted current) ?D))
      \<or> mode \<notin> {ModeUp, ModeDown} \<and> a \<in> set (concat (map (\<lambda>(key, current).
          if bm_contains ?D key then [] else [plan_absent current]) ?A))
      \<or> mode = ModeDown \<and> a \<in> set (map (\<lambda>vm. \<lparr>act_action = ''stop'', act_kind = ''vm'',
           act_name = res_name vm, act_breaking = False,
           act_reason = ''down stops VMs in reverse dependency order''\<rparr>) (filter (\<lambda>r. res_kind r = ''vm'') desired))"
    unfolding build_plan_def Let_def plan.simps set_sort set_append Un_iff by (simp del: set_concat set_map set_filter)
  then show ?thesis unfolding present absent split absent' stops by argo
qed

lemma plan_action_elim [consumes 1, case_names missing present absent stop]:
  assumes "a \<in> set (plan_actions (build_plan P mode desired actual))"
  obtains k w where "bm_get (resource_map desired) k = Some w" "bm_get (resource_map actual) k = None"
      "a \<in> set (plan_missing P actual w)"
    | k w c where "bm_get (resource_map desired) k = Some w" "bm_get (resource_map actual) k = Some c"
      "a \<in> set (plan_present P mode w c)"
    | k c where "mode \<notin> {ModeUp, ModeDown}" "bm_get (resource_map desired) k = None"
      "bm_get (resource_map actual) k = Some c" "a = plan_absent c"
    | w where "mode = ModeDown" "w \<in> set desired" "res_kind w = ''vm''"
      "act_action a = ''stop''" "act_kind a = ''vm''" "\<not> act_breaking a"
  using assms unfolding plan_action_cases by blast

lemma plan_present_member:
  "bm_get (resource_map desired) k = Some w \<Longrightarrow> bm_get (resource_map actual) k = Some c \<Longrightarrow>
   a \<in> set (plan_present P mode w c) \<Longrightarrow> a \<in> set (plan_actions (build_plan P mode desired actual))"
  unfolding plan_action_cases by blast

lemma plan_empty_keys:
  "plan_actions (build_plan P mode desired actual) = [] \<longleftrightarrow>
    (\<forall>k w. bm_get (resource_map desired) k = Some w \<longrightarrow>
       (\<exists>c. bm_get (resource_map actual) k = Some c \<and> plan_present P mode w c = []))
    \<and> (mode \<notin> {ModeUp, ModeDown} \<longrightarrow>
         (\<forall>k. bm_get (resource_map desired) k = None \<longrightarrow> bm_get (resource_map actual) k = None))
    \<and> (mode = ModeDown \<longrightarrow> (\<forall>w \<in> set desired. res_kind w \<noteq> ''vm''))" (is "?plan = [] \<longleftrightarrow> ?present \<and> ?absent \<and> ?stops")
proof
  assume empty: "?plan = []"
  then have none: "a \<notin> set ?plan" for a by simp
  have ?present
  proof (intro allI impI)
    fix k w assume w: "bm_get (resource_map desired) k = Some w"
    have "set (plan_missing P actual w) \<noteq> {}" by (simp add: plan_missing_def Let_def)
    then obtain a where a: "a \<in> set (plan_missing P actual w)" by (metis ex_in_conv)
    obtain c where c: "bm_get (resource_map actual) k = Some c"
      using none [of a] w a unfolding plan_action_cases by (cases "bm_get (resource_map actual) k") blast+
    have "b \<notin> set (plan_present P mode w c)" for b
      using none [of b] w c unfolding plan_action_cases by blast
    then have "plan_present P mode w c = []" by (cases "plan_present P mode w c") auto
    with c show "\<exists>c. bm_get (resource_map actual) k = Some c \<and> plan_present P mode w c = []" by blast
  qed
  moreover have ?absent
    using none unfolding plan_action_cases by (metis option.exhaust)
  moreover have ?stops
  proof (intro impI ballI notI)
    fix w assume "mode = ModeDown" "w \<in> set desired" "res_kind w = ''vm''"
    then show False
      using none [of "\<lparr>act_action = ''stop'', act_kind = ''vm'', act_name = res_name w, act_breaking = False,
        act_reason = ''down stops VMs in reverse dependency order''\<rparr>"] unfolding plan_action_cases by auto
  qed
  ultimately show "?present \<and> ?absent \<and> ?stops" by blast
next
  assume all: "?present \<and> ?absent \<and> ?stops"
  have "a \<notin> set ?plan" for a
  proof
    assume "a \<in> set ?plan"
    then show False
    proof (cases rule: plan_action_elim)
      case (missing k w)
      with all obtain c where "bm_get (resource_map actual) k = Some c" by blast
      with missing(2) show False by simp
    next
      case (present k w c)
      with all have "plan_present P mode w c = []" by fastforce
      with present(3) show False by simp
    next
      case (absent k c)
      with all have "bm_get (resource_map actual) k = None" by blast
      with absent(3) show False by simp
    next
      case (stop w)
      with all show False by blast
    qed
  qed
  then show "?plan = []" by (cases ?plan) auto
qed

lemma plan_present_Nil:
  "plan_present P mode w c = [] \<longleftrightarrow>
    (res_spec c = res_spec w \<or> mode = ModeUp)
    \<and> \<not> (res_kind w = ''vm'' \<and> res_state c = ''stopped'' \<and> mode \<noteq> ModeDown)"
  by (auto simp: plan_present_def Let_def)

lemma resource_map_None: "bm_get (resource_map rs) k = None \<longleftrightarrow> k \<notin> res_key ` set rs"
  by (auto simp: resource_map_get find_None_iff)

section \<open>What is recorded after a run\<close>

text \<open>\<open>final_resources\<close> of \<open>reconciler.rs\<close>: what \<open>stack.finish\<close> records.\<close>

definition final_resources :: "mode \<Rightarrow> bool \<Rightarrow> resource list \<Rightarrow> resource list" where
  "final_resources mode purge desired =
     (if mode = ModeDown \<and> purge then []
      else if mode = ModeDown then
        map (\<lambda>r. if res_kind r = ''vm'' then r\<lparr>res_state := ''stopped''\<rparr> else r) desired
      else desired)"

declare final_resources_def [exec_simps]

lemma desired_states: "r \<in> set (desired_resources P env) \<Longrightarrow> res_state r \<noteq> ''stopped''"
  unfolding desired_resources_def Let_def set_sort set_append
  by (auto simp: make_resource_def split: option.splits)

lemma map_stopped_get:
  "bm_get (resource_map (map (\<lambda>r. if res_kind r = ''vm'' then r\<lparr>res_state := ''stopped''\<rparr> else r) rs)) k =
    map_option (\<lambda>r. if res_kind r = ''vm'' then r\<lparr>res_state := ''stopped''\<rparr> else r) (bm_get (resource_map rs) k)"
proof -
  let ?f = "\<lambda>r :: resource. if res_kind r = ''vm'' then r\<lparr>res_state := ''stopped''\<rparr> else r"
  have "find (\<lambda>r. res_key r = k) (map ?f xs) = map_option ?f (find (\<lambda>r. res_key r = k) xs)" for xs
    by (induction xs) auto
  from this [of "rev rs"] show ?thesis by (simp only: resource_map_get rev_map)
qed

section \<open>Properties\<close>

text \<open>C30: when a plan is empty, for every command.  Of \<open>plan\<close>, \<open>diff\<close>, \<open>apply\<close> and \<open>adopt\<close>: exactly when the
  recorded state is the declared one, that is every declared resource is recorded with the same specification and, for
  a VM, is not stopped, and nothing else is recorded.  Of \<open>up\<close>: exactly when every declared resource is recorded, with
  whatever specification, and no VM is stopped.  Of \<open>down\<close>: exactly when no VM is declared and every declared
  resource is recorded with the same specification.\<close>

theorem plan_empty_iff_converged:
  assumes "distinct (map res_key desired)" and "distinct (map res_key actual)"
  shows "plan_actions (build_plan P mode desired actual) = [] \<longleftrightarrow>
    (case mode of
       ModeUp \<Rightarrow>
         (\<forall>w \<in> set desired. \<exists>c \<in> set actual. res_key c = res_key w \<and> \<not> (res_kind w = ''vm'' \<and> res_state c = ''stopped''))
     | ModeDown \<Rightarrow>
         (\<forall>w \<in> set desired. res_kind w \<noteq> ''vm'' \<and> (\<exists>c \<in> set actual. res_key c = res_key w \<and> res_spec c = res_spec w))
     | _ \<Rightarrow>
         (\<forall>w \<in> set desired. \<exists>c \<in> set actual. res_key c = res_key w \<and> res_spec c = res_spec w
            \<and> \<not> (res_kind w = ''vm'' \<and> res_state c = ''stopped''))
         \<and> res_key ` set actual \<subseteq> res_key ` set desired)"
proof -
  have get: "bm_get (resource_map rs) k = Some r \<longleftrightarrow> r \<in> set rs \<and> res_key r = k"
    if "distinct (map res_key rs)" for rs k r
    using resource_map_unique [OF that] resource_map_key by blast
  have outside: "(\<forall>k. k \<notin> A \<longrightarrow> k \<notin> B) \<longleftrightarrow> B \<subseteq> A" for A B :: "(string \<times> string) set"
    by blast
  have keys: "(\<forall>k w. w \<in> A \<and> res_key w = k \<longrightarrow> (\<exists>c. (c \<in> B \<and> res_key c = k) \<and> Q w c))
      \<longleftrightarrow> (\<forall>w \<in> A. \<exists>c \<in> B. res_key c = res_key w \<and> Q w c)" for A B :: "resource set" and Q
    by blast
  show ?thesis
    unfolding plan_empty_keys plan_present_Nil resource_map_None get [OF assms(1)] get [OF assms(2)] keys outside
    by (cases mode) auto
qed

definition sample_plan_lib :: plan_lib where
  "sample_plan_lib = \<lparr>text_dns = (\<lambda>_. ''dns''), text_image = (\<lambda>_. ''image''), text_network = net_cidr,
     text_vm = vm_disk, text_route = rt_via, text_policy = pol_network, text_resilience = (\<lambda>_. ''r''),
     text_observability = (\<lambda>_. ''o''), text_certs = (\<lambda>_. ''c''), text_ingress = (\<lambda>_. ''i''), text_oidc = (\<lambda>_. ''o''),
     text_cluster = cl_version, text_provider = (\<lambda>_. ''p''), text_claim = (\<lambda>_. ''c''),
     read_vm = (\<lambda>disk. Some (plain_vm\<lparr>vm_disk := disk\<rparr>)), value_vm = (\<lambda>vm. JStr (vm_disk vm)),
     read_json = (\<lambda>_. Inl ''no'')\<rparr>"

definition sample_res :: "string \<Rightarrow> string \<Rightarrow> string \<Rightarrow> string \<Rightarrow> resource" where
  "sample_res kind name text state =
     \<lparr>res_kind = kind, res_name = name, res_labels = [(''spec'', text)], res_state = state\<rparr>"

declare sample_plan_lib_def [exec_simps]

lemma plan_empty_iff_converged_witness:
  "plan_actions (build_plan sample_plan_lib ModeApply [sample_res ''vm'' ''demo/db'' ''20GiB'' ''running'']
     [sample_res ''vm'' ''demo/db'' ''20GiB'' ''stopped'']) \<noteq> []
   \<and> plan_actions (build_plan sample_plan_lib ModeUp [sample_res ''vm'' ''demo/db'' ''20GiB'' ''running'']
     [sample_res ''vm'' ''demo/db'' ''30GiB'' ''running'', sample_res ''port'' ''80'' ''80'' ''active'']) = []"
  by (subst (1 2) plan_empty_iff_converged) (simp_all add: sample_res_def)

text \<open>C31: after a run that reported success there is nothing left to do. Planning any command but
  \<open>down\<close> against the resources that \<open>up\<close> or \<open>apply\<close> recorded gives no action, and \<open>up\<close> against those
  that \<open>down\<close> recorded does nothing but start VMs, each VM of the environment among them.\<close>

theorem recorded_state_converges:
  assumes "desired = append_input_resources env inputs (desired_resources P env)" and "run_mode \<noteq> ModeDown"
  shows "(mode \<noteq> ModeDown \<longrightarrow> plan_actions (build_plan P mode desired (final_resources run_mode purge desired)) = [])
    \<and> (\<forall>a \<in> set (plan_actions (build_plan P ModeUp desired (final_resources ModeDown False desired))).
         act_action a = ''start'' \<and> act_kind a = ''vm'' \<and> \<not> act_breaking a)
    \<and> (\<forall>name \<in> set (bm_keys (env_vms env)).
         \<exists>a \<in> set (plan_actions (build_plan P ModeUp desired (final_resources ModeDown False desired))).
           act_name a = vm_runtime_id env name)"
proof -
  have states: "res_state r \<noteq> ''stopped''" if "r \<in> set desired" for r
    using that desired_states by (auto simp: assms(1) append_input_resources_def make_resource_def)
  have "plan_actions (build_plan P mode desired (final_resources run_mode purge desired)) = []" if "mode \<noteq> ModeDown"
    using that assms(2) resource_map_key states
    unfolding plan_empty_keys plan_present_Nil final_resources_def by (simp split: if_splits)
  moreover have "act_action a = ''start'' \<and> act_kind a = ''vm'' \<and> \<not> act_breaking a"
    if "a \<in> set (plan_actions (build_plan P ModeUp desired (final_resources ModeDown False desired)))" for a
    using that unfolding plan_action_cases final_resources_def
    by (auto simp: map_stopped_get plan_present_def action_for_def split: if_splits)
  moreover have "\<exists>a \<in> set (plan_actions (build_plan P ModeUp desired (final_resources ModeDown False desired))).
      act_name a = vm_runtime_id env name" if in_env: "name \<in> set (bm_keys (env_vms env))" for name
  proof -
    obtain vm where "(name, vm) \<in> set (env_vms env)" using in_env by auto
    then have "make_resource env ''vm'' (vm_runtime_id env name) (text_vm P vm) ''running''
        \<in> set (desired_resources P env)"
      unfolding desired_resources_def Let_def set_sort set_append by force
    then have "make_resource env ''vm'' (vm_runtime_id env name) (text_vm P vm) ''running'' \<in> set desired"
      by (simp add: assms(1) append_input_resources_def)
    then have "(''vm'', vm_runtime_id env name) \<in> res_key ` set desired" by (force simp: make_resource_def)
    then obtain w where w: "bm_get (resource_map desired) (''vm'', vm_runtime_id env name) = Some w"
      using resource_map_None by (metis option.exhaust)
    then have key: "res_kind w = ''vm''" "res_name w = vm_runtime_id env name"
      using resource_map_key by fastforce+
    have "action_for ''start'' w False ''VM is stopped'' \<in>
        set (plan_actions (build_plan P ModeUp desired (final_resources ModeDown False desired)))"
      unfolding final_resources_def
      by (rule plan_present_member [OF w, where c = "w\<lparr>res_state := ''stopped''\<rparr>"])
        (simp_all add: map_stopped_get plan_present_def w key(1))
    then show ?thesis using key(2) by (force simp: action_for_def)
  qed
  ultimately show ?thesis by blast
qed

lemma recorded_state_converges_witness:
  "plan_actions (build_plan sample_plan_lib ModeApply
     (append_input_resources sample_env [(''a.yaml'', None)] (desired_resources sample_plan_lib sample_env))
     (final_resources ModeUp False
       (append_input_resources sample_env [(''a.yaml'', None)] (desired_resources sample_plan_lib sample_env)))) = []"
  using recorded_state_converges [OF refl, of ModeUp ModeApply sample_plan_lib sample_env "[(''a.yaml'', None)]" False]
  by simp

text \<open>C32: what a plan may do without being asked twice. \<open>up\<close> only creates, starts and recreates the
  containers that mount a binding; whatever deletes or recreates is marked as breaking, a cluster, a
  service provider or a claim is never deleted, and an update of a VM that is not marked as breaking
  leaves every container it had as it was.\<close>

theorem plan_destruction_is_breaking:
  assumes "a \<in> set (plan_actions (build_plan P mode desired actual))"
  shows "(mode = ModeUp \<longrightarrow> act_action a \<in> {''create'', ''start'', ''recreate''})
    \<and> (act_action a \<in> {''delete'', ''recreate''} \<longrightarrow> act_breaking a)
    \<and> (act_kind a \<in> retained_kinds \<longrightarrow> act_action a \<noteq> ''delete'' \<and> \<not> act_breaking a)
    \<and> (act_action a = ''update'' \<and> act_kind a = ''vm'' \<and> \<not> act_breaking a \<longrightarrow>
        (\<exists>c \<in> set actual. \<exists>w \<in> set desired. \<exists>before after. res_key c = res_key w \<and> act_name a = res_name w
           \<and> Option.bind (res_spec c) (read_vm P) = Some before \<and> Option.bind (res_spec w) (read_vm P) = Some after
           \<and> (\<forall>(name, config) \<in> set (vm_containers before). bm_get (vm_containers after) name = Some config)))"
proof -
  show ?thesis
    using assms
  proof (cases rule: plan_action_elim)
    case (missing k w)
    then show ?thesis by (auto simp: plan_missing_def action_for_def retained_kinds_def Let_def)
  next
    case (present k w c)
    have "res_key c = res_key w" "c \<in> set actual" "w \<in> set desired"
      using resource_map_key present(1,2) by blast+
    moreover have "\<exists>before after. Option.bind (res_spec c) (read_vm P) = Some before
        \<and> Option.bind (res_spec w) (read_vm P) = Some after
        \<and> (\<forall>(name, config) \<in> set (vm_containers before). bm_get (vm_containers after) name = Some config)"
      if "only_new_containers_added P c w"
      using that by (auto simp: only_new_containers_added_def list_all_iff Let_def split: option.splits)
    ultimately have unchanged: "\<exists>c \<in> set actual. \<exists>w' \<in> set desired. \<exists>before after. res_key c = res_key w'
        \<and> res_name w = res_name w' \<and> Option.bind (res_spec c) (read_vm P) = Some before
        \<and> Option.bind (res_spec w') (read_vm P) = Some after
        \<and> (\<forall>(name, config) \<in> set (vm_containers before). bm_get (vm_containers after) name = Some config)"
      if "only_new_containers_added P c w"
      using that by blast
    have "a \<in> set (plan_present P mode w c)" by (rule present(3))
    then show ?thesis
      using unchanged
      by (simp add: plan_present_def action_for_def retained_kinds_def Let_def split: if_split_asm)
  next
    case (absent k c)
    then show ?thesis by (auto simp: plan_absent_def action_for_def retained_kinds_def)
  next
    case (stop w)
    then show ?thesis by (simp add: retained_kinds_def)
  qed
qed

lemma plan_destruction_is_breaking_witness:
  "act_breaking (plan_absent (sample_res ''network'' ''old'' ''10.0.0.0/24'' ''active''))"
proof -
  let ?c = "sample_res ''network'' ''old'' ''10.0.0.0/24'' ''active''"
  have "plan_absent ?c \<in> set (plan_actions (build_plan sample_plan_lib ModeApply [] [?c]))"
    by (simp add: build_plan_def resource_map_def bm_of_list_def bm_contains_def)
  from plan_destruction_is_breaking [OF this] show ?thesis
    by (simp add: plan_absent_def action_for_def sample_res_def retained_kinds_def)
qed

section \<open>Divergences\<close>

text \<open>\<open>down\<close> plans an update, and a breaking one, when the specification of a VM has changed since it
  was applied; such a \<open>down\<close> asks for a confirmation, and the command has no \<open>--force\<close>.\<close>

lemma down_plans_breaking_update:
  "filter act_breaking (plan_actions (build_plan sample_plan_lib ModeDown
     [sample_res ''vm'' ''demo/db'' ''40GiB'' ''running''] [sample_res ''vm'' ''demo/db'' ''20GiB'' ''running''])) \<noteq> []"
  by (simp add: exec_simps sample_res_def Let_def)

end
