(* ===== verification/Rpc.thy ===== *)
theory Rpc
  imports Plan
begin

text \<open>
  Operations that talk to the supervisor (\<open>reconciler/io.rs\<close>): \<open>rpc\<close>, the decoding of its
  reply, \<open>checkpoint\<close>.

  The socket is not part of the program: writing the request line and reading and parsing the line that
  answers is the parameter \<open>exchange\<close>, a function of the request that may change the state \<open>'w\<close> of the
  world. An operation is a function of the session: the world and the calls made so far, with their
  parameters, in order. \<open>io_bind\<close> is the \<open>?\<close> operator, \<open>io_each\<close> a \<open>for\<close> loop whose body may return
  early with an error, \<open>io_try\<close> is \<open>let _ = ...\<close>, which drops an error.

  The lemmas are the rules of a small logic of calls: \<open>emits P m\<close> says that every call \<open>m\<close> makes
  satisfies \<open>P\<close> and that it only appends to the log, \<open>yields m x\<close> that \<open>m\<close> can return \<open>x\<close>,
  \<open>ensures m Q\<close> that \<open>m\<close> only returns when it has made calls satisfying \<open>Q\<close>.
\<close>

named_theorems emits_intros \<open>rules for what an operation may call\<close>

section \<open>Operations\<close>

type_synonym call = "string \<times> json"

record 'w session =
  se_world :: 'w
  se_calls :: "call list"

type_synonym 'w exchange = "json \<Rightarrow> 'w \<Rightarrow> (json, string) result \<times> 'w"

type_synonym ('w, 'a) io = "'w session \<Rightarrow> ('a, failure) result \<times> 'w session"

definition io_of :: "('a, failure) result \<Rightarrow> ('w, 'a) io" where
  "io_of r = (\<lambda>s. (r, s))"

definition io_ok :: "'a \<Rightarrow> ('w, 'a) io" where
  "io_ok x = io_of (Inr x)"

definition io_bind :: "('w, 'a) io \<Rightarrow> ('a \<Rightarrow> ('w, 'b) io) \<Rightarrow> ('w, 'b) io" where
  "io_bind m k = (\<lambda>s. case m s of (Inl e, s') \<Rightarrow> (Inl e, s') | (Inr x, s') \<Rightarrow> k x s')"

definition io_then :: "('w, unit) io \<Rightarrow> ('w, 'b) io \<Rightarrow> ('w, 'b) io" where
  "io_then m n = io_bind m (\<lambda>_. n)"

definition io_try :: "('w, 'a) io \<Rightarrow> ('w, unit) io" where
  "io_try m = (\<lambda>s. (Inr (), snd (m s)))"

fun io_each :: "('a \<Rightarrow> ('w, unit) io) \<Rightarrow> 'a list \<Rightarrow> ('w, unit) io" where
  "io_each f [] = io_ok ()"
| "io_each f (x # xs) = io_then (f x) (io_each f xs)"

text \<open>A \<open>for\<close> loop of checks that returns the first error.\<close>

fun check_each :: "('a \<Rightarrow> (unit, 'e) result) \<Rightarrow> 'a list \<Rightarrow> (unit, 'e) result" where
  "check_each f [] = Inr ()"
| "check_each f (x # xs) = and_then (f x) (\<lambda>_. check_each f xs)"

lemma check_each_ok [simp]: "check_each f xs = Inr () \<longleftrightarrow> (\<forall>x \<in> set xs. f x = Inr ())"
  by (induction xs) auto

definition io_unit :: "('w, 'a) io \<Rightarrow> ('w, unit) io" where
  "io_unit m = io_bind m (\<lambda>_. io_ok ())"

section \<open>JSON access\<close>

text \<open>\<open>v.get(key)\<close> and \<open>v[key].as_array().into_iter().flatten()\<close>\<close>

definition json_find :: "json \<Rightarrow> string \<Rightarrow> json option" where
  "json_find v k = (case v of JObj m \<Rightarrow> bm_get m k | _ \<Rightarrow> None)"

definition json_obj :: "(string \<times> json) list \<Rightarrow> json" where
  "json_obj members = JObj (bm_of_list members)"

definition json_items :: "json \<Rightarrow> json list" where
  "json_items v = (case v of JArr xs \<Rightarrow> xs | _ \<Rightarrow> [])"

section \<open>rpc\<close>

definition EXIT_LEASE :: nat where "EXIT_LEASE = 6"

definition rpc_request :: "string \<Rightarrow> json \<Rightarrow> json" where
  "rpc_request method params =
     json_obj [(''jsonrpc'', JStr ''2.0''), (''method'', JStr method), (''params'', params), (''id'', JNum ''1'')]"

definition error_code :: "json \<Rightarrow> nat" where
  "error_code v =
     (case v of
        JNum n \<Rightarrow> if n = ''5'' then EXIT_INCOMPLETE else if n = ''6'' then EXIT_LEASE else EXIT_STEP
      | _ \<Rightarrow> EXIT_STEP)"

definition rpc_response :: "string \<Rightarrow> json \<Rightarrow> (json, failure) result" where
  "rpc_response method response =
     (case json_find response ''error'' of
        Some error \<Rightarrow>
          if error \<noteq> JNull then
            Inl \<lparr>fail_code = error_code (json_get error ''code''),
                 fail_message = (case json_as_str (json_get error ''message'') of
                   Some m \<Rightarrow> m | None \<Rightarrow> ''supervisor error'')\<rparr>
          else ok_or \<lparr>fail_code = EXIT_SUPERVISOR, fail_message = method @ '': missing result''\<rparr>
                 (json_find response ''result'')
      | None \<Rightarrow> ok_or \<lparr>fail_code = EXIT_SUPERVISOR, fail_message = method @ '': missing result''\<rparr>
                 (json_find response ''result''))"

definition rpc :: "'w exchange \<Rightarrow> string \<Rightarrow> json \<Rightarrow> ('w, json) io" where
  "rpc X method params s =
     (let (reply, w) = X (rpc_request method params) (se_world s)
      in (case reply of
            Inl e \<Rightarrow> Inl \<lparr>fail_code = EXIT_SUPERVISOR, fail_message = e\<rparr>
          | Inr response \<Rightarrow> rpc_response method response,
          \<lparr>se_world = w, se_calls = se_calls s @ [(method, params)]\<rparr>))"

definition checkpoint ::
    "'w exchange \<Rightarrow> string \<Rightarrow> string \<Rightarrow> string \<Rightarrow> string \<Rightarrow> string \<Rightarrow> string option \<Rightarrow> ('w, unit) io" where
  "checkpoint X jid stack holder step status error =
     io_unit (rpc X ''stack.step''
       (json_obj [(''id'', JStr jid), (''stack_id'', JStr stack), (''holder'', JStr holder),
          (''step'', JStr step), (''status'', JStr status),
          (''error'', case error of Some e \<Rightarrow> JStr e | None \<Rightarrow> JNull)]))"

section \<open>Retrying\<close>

text \<open>\<open>Instant::now()\<close> in seconds and \<open>thread::sleep\<close>.\<close>

record 'w clock =
  ck_now :: "'w \<Rightarrow> nat"
  ck_sleep :: "nat \<Rightarrow> 'w \<Rightarrow> 'w"

definition clock_laws :: "'w clock \<Rightarrow> bool" where
  "clock_laws C \<longleftrightarrow> (\<forall>n w. ck_now C w + n \<le> ck_now C (ck_sleep C n w))"

text \<open>The loop of the three retrying operations: it may not end, unless time passes.\<close>

partial_function (option) retry_until ::
    "'w clock \<Rightarrow> nat \<Rightarrow> nat \<Rightarrow> (failure \<Rightarrow> bool) \<Rightarrow> ('w, unit) io \<Rightarrow> ('w, 'a) io
     \<Rightarrow> 'w session \<Rightarrow> (('a, failure) result \<times> 'w session) option" where
  "retry_until C deadline pause retryable guard m s =
     (case guard s of
        (Inl e, s1) \<Rightarrow> Some (Inl e, s1)
      | (Inr _, s1) \<Rightarrow>
          (case m s1 of
             (Inr x, s2) \<Rightarrow> Some (Inr x, s2)
           | (Inl e, s2) \<Rightarrow>
               if retryable e \<and> ck_now C (se_world s2) < deadline then
                 retry_until C deadline pause retryable guard m (s2\<lparr>se_world := ck_sleep C pause (se_world s2)\<rparr>)
               else Some (Inl e, s2)))"

definition rpc_transient_failure :: "string \<Rightarrow> bool" where
  "rpc_transient_failure message \<longleftrightarrow>
     contains_str message ''os error 35'' \<or> contains_str message ''WouldBlock''
     \<or> contains_str message ''Timed out'' \<or> contains_str message ''timeout''
     \<or> contains_str message ''Connection reset'' \<or> contains_str message ''Connection refused''
     \<or> contains_str message ''vz-edge'' \<or> contains_str message ''dns-bind''
     \<or> contains_str message ''did not respond'' \<or> contains_str message ''Resource temporarily unavailable''"

definition rpc_retrying ::
    "'w clock \<Rightarrow> 'w exchange \<Rightarrow> string \<Rightarrow> json \<Rightarrow> ('w, unit) io
     \<Rightarrow> 'w session \<Rightarrow> ((json, failure) result \<times> 'w session) option" where
  "rpc_retrying C X method params guard s =
     retry_until C (ck_now C (se_world s) + 120) 2 (\<lambda>failure. rpc_transient_failure (fail_message failure))
       guard (rpc X method params) s"

section \<open>What an operation calls\<close>

definition new_calls :: "('w, 'a) io \<Rightarrow> 'w session \<Rightarrow> call list" where
  "new_calls m s = drop (length (se_calls s)) (se_calls (snd (m s)))"

definition emits :: "(call \<Rightarrow> bool) \<Rightarrow> ('w, 'a) io \<Rightarrow> bool" where
  "emits P m \<longleftrightarrow> (\<forall>s. \<exists>cs. se_calls (snd (m s)) = se_calls s @ cs \<and> (\<forall>c \<in> set cs. P c))"

definition yields :: "('w, 'a) io \<Rightarrow> 'a \<Rightarrow> bool" where
  "yields m x \<longleftrightarrow> (\<exists>s. fst (m s) = Inr x)"

lemma emits_new_calls: "emits P m \<Longrightarrow> c \<in> set (new_calls m s) \<Longrightarrow> P c"
  by (auto simp: emits_def new_calls_def dest: spec [of _ s])

lemma emits_mono: "emits P m \<Longrightarrow> (\<And>c. P c \<Longrightarrow> Q c) \<Longrightarrow> emits Q m"
  unfolding emits_def by blast

lemma emits_of [emits_intros]: "emits P (io_of r)"
  by (simp add: emits_def io_of_def)

lemma emits_ok [emits_intros]: "emits P (io_ok x)"
  by (simp add: io_ok_def emits_of)

lemma emits_bind:
  assumes "emits P m" and "\<And>x. yields m x \<Longrightarrow> emits P (k x)"
  shows "emits P (io_bind m k)"
  unfolding emits_def
proof
  fix s
  obtain r s' where run: "m s = (r, s')" by fastforce
  obtain cs where cs: "se_calls s' = se_calls s @ cs" "\<forall>c \<in> set cs. P c"
    using assms(1) run unfolding emits_def by (metis snd_conv)
  show "\<exists>cs. se_calls (snd (io_bind m k s)) = se_calls s @ cs \<and> (\<forall>c \<in> set cs. P c)"
  proof (cases r)
    case (Inl e)
    with run cs show ?thesis by (simp add: io_bind_def)
  next
    case (Inr x)
    then have "emits P (k x)" using assms(2) run unfolding yields_def by (metis fst_conv)
    then obtain ds where "se_calls (snd (k x s')) = se_calls s' @ ds" "\<forall>c \<in> set ds. P c"
      unfolding emits_def by blast
    with Inr run cs show ?thesis by (intro exI [of _ "cs @ ds"]) (auto simp: io_bind_def)
  qed
qed

lemma emits_bind_of [emits_intros]: "(\<And>x. r = Inr x \<Longrightarrow> emits P (k x)) \<Longrightarrow> emits P (io_bind (io_of r) k)"
  by (rule emits_bind [OF emits_of]) (auto simp: yields_def io_of_def)

lemma emits_bind_any [emits_intros]: "emits P m \<Longrightarrow> (\<And>x. emits P (k x)) \<Longrightarrow> emits P (io_bind m k)"
  by (rule emits_bind)

lemma emits_then [emits_intros]: "emits P m \<Longrightarrow> emits P n \<Longrightarrow> emits P (io_then m n)"
  by (simp add: io_then_def emits_bind)

lemma emits_unit [emits_intros]: "emits P m \<Longrightarrow> emits P (io_unit m)"
  by (simp add: io_unit_def emits_bind emits_ok)

lemma emits_try [emits_intros]: "emits P m \<Longrightarrow> emits P (io_try m)"
  by (simp add: emits_def io_try_def)

lemma emits_if [emits_intros]:
  "(b \<Longrightarrow> emits P m) \<Longrightarrow> (\<not> b \<Longrightarrow> emits P n) \<Longrightarrow> emits P (if b then m else n)"
  by simp

lemma emits_option [emits_intros]:
  "(v = None \<Longrightarrow> emits P m) \<Longrightarrow> (\<And>x. v = Some x \<Longrightarrow> emits P (k x)) \<Longrightarrow>
   emits P (case v of None \<Rightarrow> m | Some x \<Rightarrow> k x)"
  by (cases v) simp_all

lemma emits_each [emits_intros]: "(\<And>x. x \<in> set xs \<Longrightarrow> emits P (f x)) \<Longrightarrow> emits P (io_each f xs)"
  by (induction xs) (simp_all add: emits_ok emits_then)

lemma emits_rpc [emits_intros]: "P (method, params) \<Longrightarrow> emits P (rpc X method params)"
  by (simp add: emits_def rpc_def Let_def split_beta)

lemma emits_checkpoint [emits_intros]:
  "(\<And>params. P (''stack.step'', params)) \<Longrightarrow> emits P (checkpoint X jid stack holder step status error)"
  by (simp add: checkpoint_def emits_rpc emits_unit)

section \<open>What an operation has called when it returns\<close>

definition ensures :: "('w, 'a) io \<Rightarrow> (call \<Rightarrow> bool) \<Rightarrow> bool" where
  "ensures m Q \<longleftrightarrow> (\<forall>s. is_ok (fst (m s)) \<longrightarrow> (\<exists>c \<in> set (new_calls m s). Q c))"

definition appends :: "('w, 'a) io \<Rightarrow> bool" where
  "appends m \<longleftrightarrow> emits (\<lambda>_. True) m"

lemma emits_appends: "emits P m \<Longrightarrow> appends m"
  by (auto simp: appends_def intro: emits_mono)

lemma new_calls_of [simp]: "new_calls (io_of r) s = []"
  by (simp add: new_calls_def io_of_def)

lemma new_calls_rpc: "new_calls (rpc X method params) s = [(method, params)]"
  by (simp add: new_calls_def rpc_def Let_def split_beta)

lemma new_calls_bind:
  assumes "appends m" and "\<And>x. appends (k x)"
  shows "new_calls (io_bind m k) s =
    new_calls m s @ (case m s of (Inl e, s') \<Rightarrow> [] | (Inr x, s') \<Rightarrow> new_calls (k x) s')"
proof -
  obtain r s' where run: "m s = (r, s')" by fastforce
  obtain cs where cs: "se_calls s' = se_calls s @ cs"
    using assms(1) run unfolding appends_def emits_def by (metis snd_conv)
  show ?thesis
  proof (cases r)
    case (Inl e)
    with run show ?thesis by (simp add: io_bind_def new_calls_def)
  next
    case (Inr x)
    obtain ds where "se_calls (snd (k x s')) = se_calls s' @ ds"
      using assms(2) unfolding appends_def emits_def by blast
    with Inr run cs show ?thesis by (simp add: io_bind_def new_calls_def)
  qed
qed

lemma ensures_bind_left:
  assumes "ensures m Q" and "appends m" and "\<And>x. appends (k x)"
  shows "ensures (io_bind m k) Q"
  unfolding ensures_def
proof (intro allI impI)
  fix s
  assume ok: "is_ok (fst (io_bind m k s))"
  have "is_ok (fst (m s))" using ok by (cases "m s"; cases "fst (m s)") (auto simp: io_bind_def)
  then obtain c where "c \<in> set (new_calls m s)" "Q c" using assms(1) unfolding ensures_def by blast
  then show "\<exists>c \<in> set (new_calls (io_bind m k) s). Q c" by (auto simp: new_calls_bind [OF assms(2,3)])
qed

lemma ensures_bind_right:
  assumes "appends m" and "\<And>x. appends (k x)" and "\<And>x. yields m x \<Longrightarrow> ensures (k x) Q"
  shows "ensures (io_bind m k) Q"
  unfolding ensures_def
proof (intro allI impI)
  fix s
  assume ok: "is_ok (fst (io_bind m k s))"
  obtain r s' where run: "m s = (r, s')" by fastforce
  obtain x where r: "r = Inr x" using ok run by (cases r) (auto simp: io_bind_def)
  have "yields m x" using run r unfolding yields_def by (metis fst_conv)
  moreover have "is_ok (fst (k x s'))" using ok run r by (simp add: io_bind_def)
  ultimately obtain c where "c \<in> set (new_calls (k x) s')" "Q c"
    using assms(3) unfolding ensures_def by blast
  then show "\<exists>c \<in> set (new_calls (io_bind m k) s). Q c"
    using run r by (auto simp: new_calls_bind [OF assms(1,2)])
qed

lemma ensures_each:
  assumes "\<And>x. x \<in> set xs \<Longrightarrow> appends (f x)" and "x \<in> set xs" and "ensures (f x) Q"
  shows "ensures (io_each f xs) Q"
  using assms
proof (induction xs)
  case Nil
  then show ?case by simp
next
  case (Cons y ys)
  have heads: "appends (f y)" "appends (io_each f ys)"
    using Cons.prems(1) by (auto simp: appends_def intro: emits_each)
  show ?case
  proof (cases "x = y")
    case True
    with Cons.prems(3) heads show ?thesis by (simp add: io_then_def ensures_bind_left)
  next
    case False
    with Cons.prems(2) have "x \<in> set ys" by simp
    then have "ensures (io_each f ys) Q" using Cons.IH Cons.prems(1,3) by simp
    with heads show ?thesis by (simp add: io_then_def ensures_bind_right)
  qed
qed

lemma ensures_rpc: "Q (method, params) \<Longrightarrow> ensures (rpc X method params) Q"
  by (simp add: ensures_def new_calls_rpc)

text \<open>The first call and what the rest does with its reply.\<close>

lemma rpc_bind_run:
  "fst (rpc X method params s) = Inr x \<Longrightarrow> io_bind (rpc X method params) k s = k x (snd (rpc X method params s))"
  by (cases "rpc X method params s") (simp add: io_bind_def)

lemma new_calls_after_rpc:
  assumes "fst (rpc X method params s) = Inr x" and "\<And>x. appends (k x)"
  shows "new_calls (io_bind (rpc X method params) k) s =
    (method, params) # new_calls (k x) (snd (rpc X method params s))"
proof -
  have "appends (rpc X method params)" by (simp add: appends_def emits_rpc)
  then show ?thesis
    using assms by (cases "rpc X method params s") (simp add: new_calls_bind new_calls_rpc)
qed

declare io_of_def [exec_simps] io_ok_def [exec_simps] io_bind_def [exec_simps] io_then_def [exec_simps]
  io_try_def [exec_simps] io_unit_def [exec_simps] json_find_def [exec_simps] json_items_def [exec_simps]
  rpc_request_def [exec_simps] error_code_def [exec_simps] rpc_response_def [exec_simps] rpc_def [exec_simps]
  checkpoint_def [exec_simps] EXIT_LEASE_def [exec_simps] new_calls_def [exec_simps]

section \<open>Retrying ends\<close>

text \<open>An operation that takes no time back and makes no call but \<open>c\<close>.\<close>

definition forward_in_time :: "'w clock \<Rightarrow> ('w, 'a) io \<Rightarrow> bool" where
  "forward_in_time C m \<longleftrightarrow> (\<forall>s. ck_now C (se_world s) \<le> ck_now C (se_world (snd (m s))))"

lemma forward_rpc:
  "(\<And>request w. ck_now C w \<le> ck_now C (snd (X request w))) \<Longrightarrow> forward_in_time C (rpc X method params)"
  by (simp add: forward_in_time_def rpc_def Let_def split_beta)

lemma retry_step_bound:
  fixes n d d' p :: nat
  assumes "n * p < d' + 2 * p" and "0 < d" and "d' \<le> d - p"
  shows "Suc n * p < d + 2 * p"
proof (cases "d' = 0")
  case True
  with assms(1) have "n < 2" by (metis add_0 mult_less_cancel2)
  then have "n = 0 \<or> n = 1" by auto
  then show ?thesis using assms(2) by auto
next
  case False
  with assms(1,3) show ?thesis by simp
qed

lemma retry_until_returns:
  assumes "clock_laws C" and "forward_in_time C guard" and "forward_in_time C m" and "0 < pause"
    and "emits (\<lambda>_. False) guard" and "\<And>s. new_calls m s = [c]" and "appends m"
  shows "\<exists>r s' cs. retry_until C deadline pause retryable guard m s = Some (r, s') \<and> se_calls s' = se_calls s @ cs
    \<and> set cs \<subseteq> {c} \<and> length cs * pause < (deadline - ck_now C (se_world s)) + 2 * pause"
proof (induction "deadline - ck_now C (se_world s)" arbitrary: s rule: less_induct)
  case less
  obtain g s1 where g: "guard s = (g, s1)" by fastforce
  have calls1: "se_calls s1 = se_calls s"
    using assms(5) g unfolding emits_def by (metis append_Nil2 last_in_set snd_conv)
  have time1: "ck_now C (se_world s) \<le> ck_now C (se_world s1)"
    using assms(2) g unfolding forward_in_time_def by (metis snd_conv)
  obtain r s2 where r: "m s1 = (r, s2)" by fastforce
  have calls2: "se_calls s2 = se_calls s @ [c]"
    using assms(6) [of s1] assms(7) r calls1 unfolding new_calls_def appends_def emits_def
    by (metis append_eq_conv_conj snd_conv)
  have time2: "ck_now C (se_world s1) \<le> ck_now C (se_world s2)"
    using assms(3) r unfolding forward_in_time_def by (metis snd_conv)
  show ?case
  proof (cases "\<exists>e. g = Inr () \<and> r = Inl e \<and> retryable e \<and> ck_now C (se_world s2) < deadline")
    case False
    then have "retry_until C deadline pause retryable guard m s =
        Some (case g of Inl e \<Rightarrow> (Inl e, s1) | Inr _ \<Rightarrow> (r, s2))"
      using g r by (subst retry_until.simps) (auto split: sum.splits)
    then show ?thesis
      using calls1 calls2 assms(4) by (cases g) auto
  next
    case True
    then obtain e where e: "g = Inr ()" "r = Inl e" "retryable e" "ck_now C (se_world s2) < deadline" by blast
    let ?s3 = "s2\<lparr>se_world := ck_sleep C pause (se_world s2)\<rparr>"
    have step: "retry_until C deadline pause retryable guard m s = retry_until C deadline pause retryable guard m ?s3"
      using g r e by (subst retry_until.simps) simp
    have later: "ck_now C (se_world s) + pause \<le> ck_now C (se_world ?s3)"
      using assms(1) time1 time2 unfolding clock_laws_def by (simp, meson add_le_mono1 order_trans)
    then have "deadline - ck_now C (se_world ?s3) < deadline - ck_now C (se_world s)"
      using assms(4) e(4) time1 time2 by linarith
    then obtain x s' cs where rest: "retry_until C deadline pause retryable guard m ?s3 = Some (x, s')"
        "se_calls s' = se_calls ?s3 @ cs" "set cs \<subseteq> {c}"
        "length cs * pause < (deadline - ck_now C (se_world ?s3)) + 2 * pause"
      using less by blast
    have "0 < deadline - ck_now C (se_world s)"
      using e(4) time1 time2 by linarith
    moreover have "deadline - ck_now C (se_world ?s3) \<le> deadline - ck_now C (se_world s) - pause"
      using later by linarith
    ultimately have "Suc (length cs) * pause < (deadline - ck_now C (se_world s)) + 2 * pause"
      by (rule retry_step_bound [OF rest(4)])
    with step rest calls2 show ?thesis
      by (intro exI [of _ x] exI [of _ s'] exI [of _ "c # cs"]) simp
  qed
qed

text \<open>C29: retrying a call of the supervisor ends. If sleeping takes its time and neither the supervisor nor the
  guard turns the clock back, \<open>rpc_retrying\<close> returns, having made the call at most 61 times and nothing else.\<close>

theorem rpc_retrying_returns:
  assumes "clock_laws C" and "\<And>request w. ck_now C w \<le> ck_now C (snd (X request w))"
    and "forward_in_time C guard" and "emits (\<lambda>_. False) guard"
  shows "\<exists>r s' cs. rpc_retrying C X method params guard s = Some (r, s') \<and> se_calls s' = se_calls s @ cs
    \<and> set cs \<subseteq> {(method, params)} \<and> length cs \<le> 61"
proof -
  have "\<exists>r s' cs. rpc_retrying C X method params guard s = Some (r, s') \<and> se_calls s' = se_calls s @ cs
    \<and> set cs \<subseteq> {(method, params)}
    \<and> length cs * 2 < ((ck_now C (se_world s) + 120) - ck_now C (se_world s)) + 2 * 2"
    unfolding rpc_retrying_def
    by (rule retry_until_returns [OF assms(1,3) forward_rpc [OF assms(2)] _ assms(4)])
      (simp_all add: new_calls_rpc emits_appends [OF emits_rpc])
  then show ?thesis by fastforce
qed

text \<open>A supervisor that never answers in time, in a world that is its clock.\<close>

lemma rpc_retrying_returns_witness:
  "\<exists>r s' cs. rpc_retrying \<lparr>ck_now = (\<lambda>w. w), ck_sleep = (\<lambda>n w. w + n)\<rparr> (\<lambda>request w. (Inl ''timeout'', w + 1))
      ''ingress.ensure'' (json_obj []) (io_ok ()) \<lparr>se_world = 0, se_calls = []\<rparr> = Some (r, s')
    \<and> se_calls s' = cs \<and> set cs \<subseteq> {(''ingress.ensure'', json_obj [])} \<and> length cs \<le> 61"
  using rpc_retrying_returns [of "\<lparr>ck_now = (\<lambda>w :: nat. w), ck_sleep = (\<lambda>n w. w + n)\<rparr>"
      "\<lambda>request w. (Inl ''timeout'', w + 1)" "io_ok ()" "''ingress.ensure''" "json_obj []"
      "\<lparr>se_world = 0, se_calls = []\<rparr>"]
  by (simp add: clock_laws_def forward_in_time_def emits_ok) (simp add: io_ok_def io_of_def)

end
