(* ===== verification/Network.thy ===== *)
theory Network
  imports Rpc
begin

text \<open>
  The networks of a stack (\<open>reconciler/network.rs\<close>): the ownership gate, creating and recreating
  networks, attaching and detaching VMs, pruning, port forwards, and the purges of \<open>down\<close>.

  The supervisor is the parameter \<open>exchange\<close> of \<open>Rpc\<close>, the crate \<open>ipnet\<close> the parameter \<open>L\<close>.
  Every operation reads one snapshot (\<open>net.list\<close>) and issues its calls from it. A \<open>BTreeSet\<close> of
  triples that is only asked for membership is a list.

  The lemmas say which calls an operation can make (\<open>emits\<close>) and which it has made when it returns
  (\<open>ensures\<close>), for every supervisor.
\<close>

section \<open>What a snapshot says\<close>

definition backend_name :: "network_backend \<Rightarrow> string" where
  "backend_name b = (case b of Vmnet \<Rightarrow> ''vmnet'' | Docker \<Rightarrow> ''docker'')"

definition network_mode_name :: "network_mode \<Rightarrow> string" where
  "network_mode_name m = (case m of Shared \<Rightarrow> ''shared'' | Host \<Rightarrow> ''host'')"

definition network_changed :: "json \<Rightarrow> network_config \<Rightarrow> bool" where
  "network_changed actual desired \<longleftrightarrow>
     json_get actual ''cidr'' \<noteq> JStr (net_cidr desired)
     \<or> json_get actual ''mode'' \<noteq> JStr (network_mode_name (net_mode desired))
     \<or> (case json_get actual ''nat_egress'' of JBool b \<Rightarrow> b | _ \<Rightarrow> True) \<noteq> net_nat_egress desired
     \<or> (case json_as_str (json_get actual ''backend'') of Some b \<Rightarrow> b | None \<Rightarrow> ''vmnet'')
         \<noteq> backend_name (net_backend desired)"

text \<open>\<open>network.get("id").unwrap_or(&network["name"])\<close>\<close>

definition network_ref :: "json \<Rightarrow> json" where
  "network_ref network = (case json_find network ''id'' of Some v \<Rightarrow> v | None \<Rightarrow> json_get network ''name'')"

definition network_attachments :: "json \<Rightarrow> json \<Rightarrow> json list" where
  "network_attachments snapshot network =
     filter (\<lambda>attachment. case json_as_str (json_get attachment ''network_id'') of
         Some n \<Rightarrow> Some n = json_as_str (network_ref network)
       | None \<Rightarrow> json_get attachment ''network'' = json_get network ''name'')
       (json_items (json_get snapshot ''attachments''))"

definition in_project :: "environment \<Rightarrow> json \<Rightarrow> bool" where
  "in_project env v \<longleftrightarrow> json_get v ''project'' = JStr (sp_project (env_spec env))"

definition in_stack :: "environment \<Rightarrow> json \<Rightarrow> bool" where
  "in_stack env v \<longleftrightarrow> json_get v ''stack'' = JStr (stack_id env)"

section \<open>validate_network_ownership\<close>

definition invalid :: "string \<Rightarrow> failure" where
  "invalid message = \<lparr>fail_code = EXIT_INVALID, fail_message = message\<rparr>"

definition check_owned :: "environment \<Rightarrow> json \<Rightarrow> string \<Rightarrow> network_config \<Rightarrow> json \<Rightarrow> (unit, failure) result" where
  "check_owned env snapshot name desired actual =
     (if \<not> in_stack env actual then
        Inl (invalid (''network '' @ name @ '' belongs to another stack; explicit adoption is required''))
      else if network_changed actual desired
         \<and> list_ex (\<lambda>a. \<not> in_project env a \<or> \<not> in_stack env a) (network_attachments snapshot actual) then
        Inl (invalid (''network '' @ name
          @ '' has foreign or unowned attachments; --force cannot detach them''))
      else Inr ())"

definition overlap_message :: "'n ipnet_lib \<Rightarrow> string \<Rightarrow> network_config \<Rightarrow> json \<Rightarrow> 'n \<Rightarrow> string" where
  "overlap_message L name desired actual cidr =
     ''network '' @ name @ '' CIDR '' @ net_cidr desired @ '' overlaps existing network ''
     @ (case json_as_str (json_get actual ''project'') of Some p \<Rightarrow> p | None \<Rightarrow> ''<global>'') @ ''/''
     @ (case json_as_str (json_get actual ''name'') of Some n \<Rightarrow> n | None \<Rightarrow> ''<unknown>'')
     @ '' ('' @ net_display L cidr @ ''); --force cannot change another owner''"

definition check_foreign :: "'n ipnet_lib \<Rightarrow> string \<Rightarrow> network_config \<Rightarrow> 'n \<Rightarrow> json \<Rightarrow> (unit, failure) result" where
  "check_foreign L name desired desired_cidr actual =
     (case json_as_str (json_get actual ''cidr'') of
        None \<Rightarrow> Inr ()
      | Some text \<Rightarrow>
          (case net_parse L text of
             Inl _ \<Rightarrow> Inr ()
           | Inr cidr \<Rightarrow>
               if net_contains L desired_cidr (net_network L cidr)
                  \<or> net_contains L cidr (net_network L desired_cidr) then
                 Inl (invalid (overlap_message L name desired actual cidr))
               else Inr ()))"

definition owns :: "environment \<Rightarrow> string \<Rightarrow> json \<Rightarrow> bool" where
  "owns env name actual \<longleftrightarrow> json_get actual ''name'' = JStr name \<and> in_project env actual"

definition validate_network_ownership ::
    "'n ipnet_lib \<Rightarrow> environment \<Rightarrow> json \<Rightarrow> (unit, failure) result" where
  "validate_network_ownership L env snapshot =
     check_each (\<lambda>(name, desired).
         and_then (map_err invalid (net_parse L (net_cidr desired))) (\<lambda>desired_cidr.
           check_each (\<lambda>actual.
               if owns env name actual then check_owned env snapshot name desired actual
               else check_foreign L name desired desired_cidr actual)
             (json_items (json_get snapshot ''networks''))))
       (env_networks env)"

section \<open>ensure_networks\<close>

definition net_list :: "'w exchange \<Rightarrow> ('w, json) io" where
  "net_list X = rpc X ''net.list'' (json_obj [])"

definition detach_params :: "environment \<Rightarrow> json \<Rightarrow> json \<Rightarrow> json" where
  "detach_params env attachment network =
     json_obj [(''vm_id'', json_get attachment ''vm_id''), (''network'', network),
       (''project'', JStr (sp_project (env_spec env)))]"

definition delete_params :: "environment \<Rightarrow> json \<Rightarrow> json" where
  "delete_params env network =
     json_obj [(''name'', network_ref network), (''project'', JStr (sp_project (env_spec env)))]"

definition create_params :: "environment \<Rightarrow> string \<Rightarrow> network_config \<Rightarrow> json" where
  "create_params env name network =
     json_obj [(''name'', JStr name), (''cidr'', JStr (net_cidr network)), (''mode'', JStr ''shared''),
       (''nat_egress'', JBool (net_nat_egress network)),
       (''backend'', JStr (backend_name (net_backend network))),
       (''labels'', json_obj [(''managed-by'', JStr ''vzctl'')]),
       (''project'', JStr (sp_project (env_spec env))), (''stack'', JStr (stack_id env))]"

definition ensure_network ::
    "'w exchange \<Rightarrow> environment \<Rightarrow> bool \<Rightarrow> json \<Rightarrow> string \<times> network_config \<Rightarrow> ('w, unit) io" where
  "ensure_network X env force snapshot e =
     (let (name, network) = e;
          create = io_unit (rpc X ''net.create'' (create_params env name network))
      in case find (owns env name) (json_items (json_get snapshot ''networks'')) of
           None \<Rightarrow> create
         | Some existing \<Rightarrow>
             if network_changed existing network then
               if \<not> force then
                 io_of (Inl (invalid (''network '' @ name @ '' requires recreate; use --force'')))
               else
                 io_then (io_each (\<lambda>attachment.
                     io_unit (rpc X ''net.detach'' (detach_params env attachment (network_ref existing))))
                   (network_attachments snapshot existing))
                 (io_then (io_unit (rpc X ''net.delete'' (delete_params env existing))) create)
             else io_ok ())"

definition ensure_networks :: "'n ipnet_lib \<Rightarrow> 'w exchange \<Rightarrow> environment \<Rightarrow> bool \<Rightarrow> ('w, unit) io" where
  "ensure_networks L X env force =
     io_bind (net_list X) (\<lambda>snapshot.
     io_bind (io_of (validate_network_ownership L env snapshot)) (\<lambda>_.
       io_each (ensure_network X env force snapshot) (env_networks env)))"

section \<open>ensure_attachments\<close>

definition wanted_attachments :: "environment \<Rightarrow> (string \<times> string \<times> string) list" where
  "wanted_attachments env =
     concat (map (\<lambda>(config_name, vm).
       map (\<lambda>network. (vm_runtime_id env config_name, att_name network, att_ip network)) (vm_networks vm))
       (env_vms env))"

definition str_or_empty :: "json \<Rightarrow> string" where
  "str_or_empty v = (case json_as_str v of Some s \<Rightarrow> s | None \<Rightarrow> [])"

definition attachment_key :: "json \<Rightarrow> string \<times> string \<times> string" where
  "attachment_key attachment =
     (str_or_empty (json_get attachment ''vm_id''), str_or_empty (json_get attachment ''network''),
      str_or_empty (json_get attachment ''ip''))"

definition detach_drift :: "'w exchange \<Rightarrow> environment \<Rightarrow> json \<Rightarrow> ('w, unit) io" where
  "detach_drift X env attachment =
     (if in_project env attachment \<and> in_stack env attachment
         \<and> attachment_key attachment \<notin> set (wanted_attachments env) then
        io_unit (rpc X ''net.detach'' (detach_params env attachment (json_get attachment ''network'')))
      else io_ok ())"

definition attachment_exists :: "environment \<Rightarrow> json \<Rightarrow> string \<Rightarrow> vm_network \<Rightarrow> bool" where
  "attachment_exists env snapshot runtime_id attachment \<longleftrightarrow>
     list_ex (\<lambda>item. json_get item ''vm_id'' = JStr runtime_id \<and> in_project env item
         \<and> json_get item ''network'' = JStr (att_name attachment)
         \<and> json_get item ''ip'' = JStr (att_ip attachment))
       (json_items (json_get snapshot ''attachments''))"

definition attach_labels :: "environment \<Rightarrow> vm_config \<Rightarrow> vm_network \<Rightarrow> json" where
  "attach_labels env vm attachment =
     (let is_docker_backend = (case bm_get (env_networks env) (att_name attachment) of
            Some network \<Rightarrow> net_backend network = Docker | None \<Rightarrow> False)
      in json_obj ([(''managed-by'', JStr ''vzctl'')]
           @ (if list_ex (\<lambda>role. role = ''docker'') (vm_roles vm) \<and> \<not> is_docker_backend
              then [(''vzctl.dev/dns-services'', JStr ''docker'')] else [])))"

definition attach_params :: "environment \<Rightarrow> string \<Rightarrow> vm_config \<Rightarrow> vm_network \<Rightarrow> json" where
  "attach_params env runtime_id vm attachment =
     json_obj [(''vm_id'', JStr runtime_id), (''network'', JStr (att_name attachment)),
       (''ip'', JStr (att_ip attachment)), (''labels'', attach_labels env vm attachment),
       (''project'', JStr (sp_project (env_spec env))), (''stack'', JStr (stack_id env))]"

definition attach_vm :: "'w exchange \<Rightarrow> environment \<Rightarrow> json \<Rightarrow> string \<times> vm_config \<Rightarrow> ('w, unit) io" where
  "attach_vm X env snapshot e =
     (let (config_name, vm) = e; runtime_id = vm_runtime_id env config_name
      in io_each (\<lambda>attachment.
             if attachment_exists env snapshot runtime_id attachment then io_ok ()
             else io_unit (rpc X ''net.attach'' (attach_params env runtime_id vm attachment)))
           (vm_networks vm))"

definition ensure_attachments :: "'w exchange \<Rightarrow> environment \<Rightarrow> mode \<Rightarrow> ('w, unit) io" where
  "ensure_attachments X env mode =
     io_bind (net_list X) (\<lambda>snapshot.
     io_then
       (if mode \<in> {ModeApply, ModeUp} then
          io_each (detach_drift X env) (json_items (json_get snapshot ''attachments''))
        else io_ok ())
       (io_each (attach_vm X env snapshot) (env_vms env)))"

section \<open>prune_networks, detach_networks and the purges\<close>

definition prune_network :: "'w exchange \<Rightarrow> environment \<Rightarrow> string list \<Rightarrow> json \<Rightarrow> ('w, unit) io" where
  "prune_network X env names network =
     (if str_or_empty (json_get network ''name'') \<in> set names \<and> in_project env network \<and> in_stack env network
         \<and> json_get (json_get network ''labels'') ''managed-by'' = JStr ''vzctl'' then
        io_unit (rpc X ''net.delete'' (delete_params env network))
      else io_ok ())"

definition prune_networks :: "'w exchange \<Rightarrow> environment \<Rightarrow> mode \<Rightarrow> plan \<Rightarrow> ('w, unit) io" where
  "prune_networks X env mode pl =
     (if mode \<noteq> ModeApply then io_ok ()
      else
        let names = map act_name (filter (\<lambda>a. act_action a = ''delete'' \<and> act_kind a = ''network'') (plan_actions pl))
        in if names = [] then io_ok ()
           else io_bind (net_list X) (\<lambda>snapshot.
             io_each (prune_network X env names) (json_items (json_get snapshot ''networks''))))"

definition detach_networks :: "'w exchange \<Rightarrow> environment \<Rightarrow> ('w, unit) io" where
  "detach_networks X env =
     io_bind (net_list X) (\<lambda>snapshot.
       io_each (\<lambda>attachment.
           if in_project env attachment \<and> in_stack env attachment then
             io_unit (rpc X ''net.detach'' (detach_params env attachment (json_get attachment ''network'')))
           else io_ok ())
         (json_items (json_get snapshot ''attachments'')))"

definition project_params :: "environment \<Rightarrow> json" where
  "project_params env = json_obj [(''project'', JStr (sp_project (env_spec env)))]"

definition stack_params :: "environment \<Rightarrow> json" where
  "stack_params env =
     json_obj [(''project'', JStr (sp_project (env_spec env))), (''stack'', JStr (stack_id env))]"

definition purge_dns_records :: "'w exchange \<Rightarrow> environment \<Rightarrow> ('w, unit) io" where
  "purge_dns_records X env =
     io_then (io_try (rpc X ''dns.records.purge'' (project_params env)))
       (io_try (rpc X ''resilience.remove'' (project_params env)))"

definition purge_ports :: "'w exchange \<Rightarrow> environment \<Rightarrow> ('w, unit) io" where
  "purge_ports X env = io_unit (rpc X ''port.purge'' (stack_params env))"

section \<open>ensure_ports\<close>

definition issues_text :: "validation_issue list \<Rightarrow> string" where
  "issues_text issues = join ''; '' (map (\<lambda>i. vi_path i @ '': '' @ vi_message i) issues)"

definition port_entry :: "environment \<Rightarrow> json list \<Rightarrow> port_forward \<Rightarrow> (json, failure) result" where
  "port_entry env attachments forward =
     (let runtime_id = vm_runtime_id env (pf_vm forward)
      in and_then
           (ok_or \<lparr>fail_code = EXIT_STEP,
                   fail_message = ''port forward '' @ pf_source forward @ '' needs attachment IP for VM '' @ runtime_id\<rparr>
             (Option.bind (find (\<lambda>item. json_get item ''vm_id'' = JStr runtime_id \<and> in_project env item \<and> in_stack env item)
                attachments) (\<lambda>item. json_as_str (json_get item ''ip''))))
           (\<lambda>guest_ip. Inr (json_obj [(''bind'', JStr (pf_bind forward)),
              (''host_port'', JNum (show_word (pf_host_port forward))), (''guest_ip'', JStr guest_ip),
              (''guest_port'', JNum (show_word (pf_guest_port forward))), (''vm_id'', JStr runtime_id),
              (''source'', JStr (pf_source forward)), (''project'', JStr (sp_project (env_spec env))),
              (''stack'', JStr (stack_id env))])))"

fun map_result :: "('a \<Rightarrow> ('b, 'e) result) \<Rightarrow> 'a list \<Rightarrow> ('b list, 'e) result" where
  "map_result f [] = Inr []"
| "map_result f (x # xs) = and_then (f x) (\<lambda>y. and_then (map_result f xs) (\<lambda>ys. Inr (y # ys)))"

definition ensure_ports :: "'w exchange \<Rightarrow> environment \<Rightarrow> ('w, unit) io" where
  "ensure_ports X env =
     io_bind (io_of (map_err (\<lambda>issues. invalid (issues_text issues)) (collect_port_forwards env))) (\<lambda>forwards.
       if forwards = [] then io_unit (rpc X ''port.purge'' (stack_params env))
       else
         io_bind (net_list X) (\<lambda>snapshot.
         io_bind (io_of (map_result (port_entry env (json_items (json_get snapshot ''attachments''))) forwards)) (\<lambda>desired.
           io_unit (rpc X ''port.ensure''
             (json_obj [(''project'', JStr (sp_project (env_spec env))), (''stack'', JStr (stack_id env)),
                (''ports'', JArr desired)])))))"

section \<open>What the operations may call\<close>

lemma emits_net_list [emits_intros]: "P (''net.list'', json_obj []) \<Longrightarrow> emits P (net_list X)"
  by (simp add: net_list_def emits_rpc)

lemma net_list_then:
  assumes "fst (net_list X s) = Inr snapshot" and "\<And>x. appends (k x)"
  shows "new_calls (io_bind (net_list X) k) s =
      (''net.list'', json_obj []) # new_calls (k snapshot) (snd (net_list X s))"
    and "io_bind (net_list X) k s = k snapshot (snd (net_list X s))"
  using assms unfolding net_list_def by (simp_all add: new_calls_after_rpc rpc_bind_run)

text \<open>Recreating a network: what is detached and deleted is the network found in the snapshot.\<close>

definition network_call :: "environment \<Rightarrow> bool \<Rightarrow> json \<Rightarrow> string \<times> network_config \<Rightarrow> call \<Rightarrow> bool" where
  "network_call env force snapshot e c \<longleftrightarrow>
     c = (''net.create'', create_params env (fst e) (snd e))
     \<or> force \<and> (\<exists>network \<in> set (json_items (json_get snapshot ''networks'')).
         owns env (fst e) network \<and> network_changed network (snd e)
         \<and> (c = (''net.delete'', delete_params env network)
            \<or> (\<exists>a \<in> set (network_attachments snapshot network).
                 c = (''net.detach'', detach_params env a (network_ref network)))))"

lemma emits_ensure_network: "emits (network_call env force snapshot e) (ensure_network X env force snapshot e)"
  unfolding ensure_network_def Let_def split_beta
proof (intro emits_intros)
  fix existing attachment
  assume "find (owns env (fst e)) (json_items (json_get snapshot ''networks'')) = Some existing"
    and changed: "network_changed existing (snd e)" and force: "\<not> \<not> force"
  then have found: "owns env (fst e) existing" "existing \<in> set (json_items (json_get snapshot ''networks''))"
    by (auto simp: find_Some_iff)
  show "network_call env force snapshot e (''net.delete'', delete_params env existing)"
    using found changed force unfolding network_call_def by blast
  show "network_call env force snapshot e (''net.detach'', detach_params env attachment (network_ref existing))"
    if "attachment \<in> set (network_attachments snapshot existing)"
    using found changed force that unfolding network_call_def by blast
qed (simp_all add: network_call_def)

lemma appends_ensure_network: "appends (ensure_network X env force snapshot e)"
  by (rule emits_appends [OF emits_ensure_network])

lemma ensure_network_done:
  assumes "\<And>network. network \<in> set (json_items (json_get snapshot ''networks'')) \<Longrightarrow> owns env name network \<Longrightarrow>
    network_changed network desired"
  shows "ensures (ensure_network X env force snapshot (name, desired))
    (\<lambda>c. c = (''net.create'', create_params env name desired))"
proof -
  have create: "ensures (io_unit (rpc X ''net.create'' (create_params env name desired)))
      (\<lambda>c. c = (''net.create'', create_params env name desired))"
    unfolding io_unit_def
    by (intro ensures_bind_left ensures_rpc emits_appends [OF emits_rpc] emits_appends [OF emits_ok]) simp_all
  show ?thesis
  proof (cases "find (owns env name) (json_items (json_get snapshot ''networks''))")
    case None
    with create show ?thesis by (simp add: ensure_network_def)
  next
    case (Some existing)
    then have changed: "network_changed existing desired"
      using assms by (auto simp: find_Some_iff)
    let ?delete = "io_unit (rpc X ''net.delete'' (delete_params env existing))"
    let ?create = "io_unit (rpc X ''net.create'' (create_params env name desired))"
    let ?detach = "io_each (\<lambda>a. io_unit (rpc X ''net.detach'' (detach_params env a (network_ref existing))))
      (network_attachments snapshot existing)"
    have appends: "appends ?delete" "appends ?create" "appends ?detach" "appends (io_then ?delete ?create)"
      unfolding appends_def by (intro emits_intros; simp)+
    have "ensures (io_then ?detach (io_then ?delete ?create)) (\<lambda>c. c = (''net.create'', create_params env name desired))"
      unfolding io_then_def
      by (intro ensures_bind_right appends create appends [unfolded io_then_def])
    then show ?thesis
      using Some changed by (cases force) (simp_all add: ensure_network_def ensures_def io_of_def)
  qed
qed

text \<open>After the snapshot: nothing, when the gate refuses it, and one network after the other otherwise.\<close>

lemma ensure_networks_run:
  assumes "fst (net_list X s) = Inr snapshot"
  shows "new_calls (ensure_networks L X env force) s = (''net.list'', json_obj []) #
      (if validate_network_ownership L env snapshot = Inr () then
         new_calls (io_each (ensure_network X env force snapshot) (env_networks env)) (snd (net_list X s))
       else [])"
    and "fst (ensure_networks L X env force s) =
      (case validate_network_ownership L env snapshot of
         Inl e \<Rightarrow> Inl e
       | Inr _ \<Rightarrow> fst (io_each (ensure_network X env force snapshot) (env_networks env) (snd (net_list X s))))"
proof -
  let ?k = "\<lambda>snapshot. io_bind (io_of (validate_network_ownership L env snapshot))
    (\<lambda>_. io_each (ensure_network X env force snapshot) (env_networks env))"
  have each: "appends (io_each (ensure_network X env force x) (env_networks env))" for x
    unfolding appends_def by (intro emits_each appends_ensure_network [unfolded appends_def])
  have k: "appends (?k x)" for x
    using each unfolding appends_def by (simp add: emits_bind_of)
  show "new_calls (ensure_networks L X env force) s = (''net.list'', json_obj []) #
      (if validate_network_ownership L env snapshot = Inr () then
         new_calls (io_each (ensure_network X env force snapshot) (env_networks env)) (snd (net_list X s))
       else [])"
    unfolding ensure_networks_def net_list_then(1) [OF assms k]
    by (cases "validate_network_ownership L env snapshot") (simp_all add: new_calls_def io_bind_def io_of_def)
  show "fst (ensure_networks L X env force s) =
      (case validate_network_ownership L env snapshot of
         Inl e \<Rightarrow> Inl e
       | Inr _ \<Rightarrow> fst (io_each (ensure_network X env force snapshot) (env_networks env) (snd (net_list X s))))"
    unfolding ensure_networks_def net_list_then(2) [OF assms k]
    by (cases "validate_network_ownership L env snapshot") (simp_all add: io_bind_def io_of_def)
qed

section \<open>The gate\<close>

lemma check_owned_ok [simp]:
  "check_owned env snapshot name desired actual = Inr () \<longleftrightarrow>
     in_stack env actual \<and> (network_changed actual desired \<longrightarrow>
       (\<forall>a \<in> set (network_attachments snapshot actual). in_project env a \<and> in_stack env a))"
  by (auto simp: check_owned_def list_ex_iff)

lemma gate_owned:
  assumes "validate_network_ownership L env snapshot = Inr ()" and "(name, desired) \<in> set (env_networks env)"
    and "actual \<in> set (json_items (json_get snapshot ''networks''))" and "owns env name actual"
  shows "check_owned env snapshot name desired actual = Inr ()"
  using assms unfolding validate_network_ownership_def by fastforce

text \<open>Two networks meet exactly when one contains the network address of the other.\<close>

lemma networks_meet:
  assumes "ipnet_laws L"
  shows "net_contains L a (net_network L b) \<or> net_contains L b (net_network L a) \<longleftrightarrow>
    (\<exists>ip. net_contains L a ip \<and> net_contains L b ip)"
proof -
  note inside = ipnet_contains [OF assms]
  have bounds: "net_network L n \<le> net_broadcast L n" for n
    using assms unfolding ipnet_laws_def by blast
  show ?thesis (is "?left \<longleftrightarrow> ?right")
  proof
    assume ?left
    then show ?right
    proof
      assume "net_contains L a (net_network L b)"
      moreover have "net_contains L b (net_network L b)" using bounds by (simp add: inside)
      ultimately show ?right by blast
    next
      assume "net_contains L b (net_network L a)"
      moreover have "net_contains L a (net_network L a)" using bounds by (simp add: inside)
      ultimately show ?right by blast
    qed
  next
    assume ?right
    then obtain ip where ip: "net_network L a \<le> ip" "ip \<le> net_broadcast L a"
        "net_network L b \<le> ip" "ip \<le> net_broadcast L b"
      by (auto simp: inside)
    show ?left
    proof (cases "net_network L a \<le> net_network L b")
      case True
      with ip have "net_contains L a (net_network L b)" by (meson inside order_trans)
      then show ?thesis ..
    next
      case False
      then have "net_network L b \<le> net_network L a" by simp
      with ip have "net_contains L b (net_network L a)" by (meson inside order_trans)
      then show ?thesis ..
    qed
  qed
qed

lemma check_foreign_ok:
  assumes "ipnet_laws L"
  shows "check_foreign L name desired dc actual = Inr () \<longleftrightarrow>
    (\<forall>text cidr. json_get actual ''cidr'' = JStr text \<longrightarrow> net_parse L text = Inr cidr \<longrightarrow>
       \<not> (\<exists>ip. net_contains L dc ip \<and> net_contains L cidr ip))"
  unfolding check_foreign_def json_as_str_def networks_meet [OF assms]
  by (auto split: json.splits sum.splits)

section \<open>Attachments\<close>

definition attachment_call :: "environment \<Rightarrow> mode \<Rightarrow> json \<Rightarrow> call \<Rightarrow> bool" where
  "attachment_call env mode snapshot c \<longleftrightarrow>
     fst c = ''net.attach''
     \<or> mode \<in> {ModeApply, ModeUp} \<and> (\<exists>a \<in> set (json_items (json_get snapshot ''attachments'')).
          in_project env a \<and> in_stack env a \<and> attachment_key a \<notin> set (wanted_attachments env)
          \<and> c = (''net.detach'', detach_params env a (json_get a ''network'')))"

lemma appends_attach_vm: "appends (attach_vm X env snapshot e)"
  unfolding appends_def attach_vm_def Let_def split_beta by (intro emits_intros; simp)

lemma appends_drift: "appends (io_each (detach_drift X env) as)"
  unfolding appends_def detach_drift_def by (intro emits_intros; simp)

lemma emits_attachments:
  "emits (attachment_call env mode snapshot)
     (io_then (if mode \<in> {ModeApply, ModeUp} then
          io_each (detach_drift X env) (json_items (json_get snapshot ''attachments''))
        else io_ok ())
       (io_each (attach_vm X env snapshot) (env_vms env)))"
proof (rule emits_then)
  show "emits (attachment_call env mode snapshot) (if mode \<in> {ModeApply, ModeUp} then
      io_each (detach_drift X env) (json_items (json_get snapshot ''attachments'')) else io_ok ())"
    unfolding detach_drift_def by (intro emits_intros) (auto simp: attachment_call_def)
  show "emits (attachment_call env mode snapshot) (io_each (attach_vm X env snapshot) (env_vms env))"
    unfolding attach_vm_def Let_def split_beta by (intro emits_intros) (simp add: attachment_call_def)
qed

lemma attach_vm_done:
  assumes "(name, vm) \<in> set (env_vms env)" and "attachment \<in> set (vm_networks vm)"
    and "\<not> attachment_exists env snapshot (vm_runtime_id env name) attachment"
  shows "ensures (io_each (attach_vm X env snapshot) (env_vms env))
    (\<lambda>c. c = (''net.attach'', attach_params env (vm_runtime_id env name) vm attachment))" (is "ensures _ ?Q")
proof (rule ensures_each [OF appends_attach_vm assms(1)])
  show "ensures (attach_vm X env snapshot (name, vm)) ?Q"
    unfolding attach_vm_def Let_def prod.case
  proof (rule ensures_each [OF _ assms(2)])
    show "ensures (if attachment_exists env snapshot (vm_runtime_id env name) attachment then io_ok ()
        else io_unit (rpc X ''net.attach'' (attach_params env (vm_runtime_id env name) vm attachment))) ?Q"
      using assms(3) unfolding io_unit_def
      by (simp add: ensures_bind_left ensures_rpc emits_appends [OF emits_rpc] emits_appends [OF emits_ok])
  qed (unfold appends_def, intro emits_intros; simp)
qed

lemma ensure_attachments_run:
  assumes "fst (net_list X s) = Inr snapshot"
  shows "new_calls (ensure_attachments X env mode) s = (''net.list'', json_obj []) #
      new_calls (io_then (if mode \<in> {ModeApply, ModeUp} then
          io_each (detach_drift X env) (json_items (json_get snapshot ''attachments''))
        else io_ok ()) (io_each (attach_vm X env snapshot) (env_vms env))) (snd (net_list X s))"
    and "fst (ensure_attachments X env mode s) =
      fst (io_then (if mode \<in> {ModeApply, ModeUp} then
          io_each (detach_drift X env) (json_items (json_get snapshot ''attachments''))
        else io_ok ()) (io_each (attach_vm X env snapshot) (env_vms env)) (snd (net_list X s)))"
  unfolding ensure_attachments_def
  by (simp_all only: net_list_then [OF assms emits_appends [OF emits_attachments]])

section \<open>A supervisor for the witnesses\<close>

text \<open>It answers every call, \<open>net.list\<close> with a fixed snapshot.\<close>

definition fixed_supervisor :: "json \<Rightarrow> unit exchange" where
  "fixed_supervisor snapshot request w =
     (Inr (JObj [(''result'', if json_get request ''method'' = JStr ''net.list'' then snapshot else JNull)]), w)"

definition fresh_session :: "unit session" where
  "fresh_session = \<lparr>se_world = (), se_calls = []\<rparr>"

text \<open>A network \<open>lan\<close> of the stack whose range has changed since, with one VM on it.\<close>

definition sample_snapshot :: json where
  "sample_snapshot = JObj [
     (''attachments'', JArr [JObj [(''ip'', JStr ''10.9.0.10''), (''network'', JStr ''lan''),
        (''project'', JStr ''demo''), (''stack'', JStr ''demo:demo''), (''vm_id'', JStr ''demo/web'')]]),
     (''networks'', JArr [JObj [(''cidr'', JStr ''10.9.0.0/24''), (''mode'', JStr ''shared''), (''name'', JStr ''lan''),
        (''project'', JStr ''demo''), (''stack'', JStr ''demo:demo'')]])]"

lemmas network_exec [exec_simps] =
  backend_name_def network_mode_name_def network_changed_def network_ref_def network_attachments_def
  in_project_def in_stack_def invalid_def check_owned_def overlap_message_def check_foreign_def owns_def
  validate_network_ownership_def net_list_def detach_params_def delete_params_def create_params_def
  ensure_network_def ensure_networks_def wanted_attachments_def str_or_empty_def attachment_key_def
  detach_drift_def attachment_exists_def attach_labels_def attach_params_def attach_vm_def
  ensure_attachments_def fixed_supervisor_def fresh_session_def sample_snapshot_def json_obj_def bm_of_list_def
  json_get_def json_as_str_def stack_id_def vm_runtime_id_def

section \<open>Properties\<close>

text \<open>The ownership gate accepts a snapshot exactly when every declared network has a valid range,
  every network of the project under its name belongs to this stack and, if it would have to be
  recreated, has only attachments of this stack, and no other network the supervisor reports shares
  an address with it.\<close>

lemma network_gate_iff:
  assumes "ipnet_laws L"
  shows "validate_network_ownership L env snapshot = Inr () \<longleftrightarrow>
    (\<forall>(name, desired) \<in> set (env_networks env). \<exists>range. net_parse L (net_cidr desired) = Inr range
      \<and> (\<forall>actual \<in> set (json_items (json_get snapshot ''networks'')).
          if owns env name actual then
            in_stack env actual \<and> (network_changed actual desired \<longrightarrow>
              (\<forall>a \<in> set (network_attachments snapshot actual). in_project env a \<and> in_stack env a))
          else
            (\<forall>text other. json_get actual ''cidr'' = JStr text \<longrightarrow> net_parse L text = Inr other \<longrightarrow>
              \<not> (\<exists>ip. net_contains L range ip \<and> net_contains L other ip))))"
proof -
  have check: "(if owns env name actual then check_owned env snapshot name desired actual
        else check_foreign L name desired range actual) = Inr () \<longleftrightarrow>
      (if owns env name actual then
         in_stack env actual \<and> (network_changed actual desired \<longrightarrow>
           (\<forall>a \<in> set (network_attachments snapshot actual). in_project env a \<and> in_stack env a))
       else
         (\<forall>text other. json_get actual ''cidr'' = JStr text \<longrightarrow> net_parse L text = Inr other \<longrightarrow>
           \<not> (\<exists>ip. net_contains L range ip \<and> net_contains L other ip)))" for name desired actual range
    by (cases "owns env name actual") (simp_all only: if_True if_False check_owned_ok check_foreign_ok [OF assms])
  show ?thesis
    unfolding validate_network_ownership_def check_each_ok split_beta and_then_Inr map_err_Inr check
    by (simp only: split_beta)
qed

lemma sample_gate: "validate_network_ownership cidr_lib sample_env sample_snapshot = Inr ()"
  by (simp add: exec_simps Let_def word_le_nat_alt)

lemma network_gate_iff_witness:
  "\<not> (\<exists>ip. net_contains cidr_lib (167837696, 24) ip \<and> net_contains cidr_lib (168361984, 24) ip)"
proof -
  let ?lan = "JObj [(''cidr'', JStr ''10.9.0.0/24''), (''mode'', JStr ''shared''), (''name'', JStr ''lan''),
        (''project'', JStr ''demo''), (''stack'', JStr ''demo:demo'')]"
  have "(''dock'', sample_dock) \<in> set (env_networks sample_env)" by (simp add: sample_env_def)
  moreover have "?lan \<in> set (json_items (json_get sample_snapshot ''networks''))"
    "\<not> owns sample_env ''dock'' ?lan" "json_get ?lan ''cidr'' = JStr ''10.9.0.0/24''"
    by (simp_all add: exec_simps)
  moreover have "net_parse cidr_lib (net_cidr sample_dock) = Inr (167837696, 24)"
    "net_parse cidr_lib ''10.9.0.0/24'' = Inr (168361984, 24)"
    by (simp_all add: exec_simps)
  ultimately show ?thesis
    using network_gate_iff [OF cidr_lib_laws, of sample_env sample_snapshot] sample_gate by fastforce
qed

text \<open>C28: recreating networks only touches what belongs to the stack. Whatever the supervisor answers, a call
  of \<open>ensure_networks\<close> after \<open>net.list\<close> is made only once the gate has accepted the snapshot, it creates a
  declared network, or it deletes a network of this project and stack whose declaration has changed or
  detaches an attachment of that network that belongs to this stack as well, and that only with \<open>--force\<close>.\<close>

theorem ensure_networks_destroys_own:
  assumes "fst (net_list X s) = Inr snapshot"
    and "(method, params) \<in> set (new_calls (ensure_networks L X env force) s)" and "method \<noteq> ''net.list''"
  shows "validate_network_ownership L env snapshot = Inr ()
    \<and> (\<exists>(name, desired) \<in> set (env_networks env).
        method = ''net.create'' \<and> params = create_params env name desired
        \<or> force \<and> (\<exists>network \<in> set (json_items (json_get snapshot ''networks'')).
            owns env name network \<and> in_stack env network \<and> network_changed network desired
            \<and> (method = ''net.delete'' \<and> params = delete_params env network
               \<or> (\<exists>a \<in> set (network_attachments snapshot network). in_project env a \<and> in_stack env a
                    \<and> method = ''net.detach'' \<and> params = detach_params env a (network_ref network)))))"
proof -
  let ?each = "io_each (ensure_network X env force snapshot) (env_networks env)"
  have gate: "validate_network_ownership L env snapshot = Inr ()"
    and call: "(method, params) \<in> set (new_calls ?each (snd (net_list X s)))"
    using assms(2,3) unfolding ensure_networks_run(1) [OF assms(1)] by (auto split: if_splits)
  have "emits (\<lambda>c. \<exists>e \<in> set (env_networks env). network_call env force snapshot e c) ?each"
    by (intro emits_each) (auto intro: emits_mono [OF emits_ensure_network])
  from emits_new_calls [OF this call] obtain name desired where e: "(name, desired) \<in> set (env_networks env)"
      and c: "network_call env force snapshot (name, desired) (method, params)" by auto
  have owned: "in_stack env network \<and> (\<forall>a \<in> set (network_attachments snapshot network). in_project env a \<and> in_stack env a)"
    if "network \<in> set (json_items (json_get snapshot ''networks''))" "owns env name network"
      "network_changed network desired" for network
    using gate_owned [OF gate e that(1,2)] that(3) by simp
  show ?thesis
  proof (intro conjI gate bexI [OF _ e], unfold prod.case)
    consider "(method, params) = (''net.create'', create_params env name desired)"
      | network where "force" "network \<in> set (json_items (json_get snapshot ''networks''))" "owns env name network"
          "network_changed network desired"
          "(method, params) = (''net.delete'', delete_params env network)
            \<or> (\<exists>a \<in> set (network_attachments snapshot network).
                 (method, params) = (''net.detach'', detach_params env a (network_ref network)))"
      using c unfolding network_call_def fst_conv snd_conv by blast
    then show "method = ''net.create'' \<and> params = create_params env name desired
        \<or> force \<and> (\<exists>network \<in> set (json_items (json_get snapshot ''networks'')).
            owns env name network \<and> in_stack env network \<and> network_changed network desired
            \<and> (method = ''net.delete'' \<and> params = delete_params env network
               \<or> (\<exists>a \<in> set (network_attachments snapshot network). in_project env a \<and> in_stack env a
                    \<and> method = ''net.detach'' \<and> params = detach_params env a (network_ref network))))"
    proof cases
      case 1
      then show ?thesis by simp
    next
      case (2 network)
      show ?thesis
        using 2(3,4,5) owned [OF 2(2,3,4)]
        by (intro disjI2 [OF conjI] bexI [OF _ 2(2)] 2(1)) auto
    qed
  qed
qed

lemma sample_net_list: "fst (net_list (fixed_supervisor sample_snapshot) fresh_session) = Inr sample_snapshot"
  by (simp add: exec_simps Let_def)

lemma ensure_networks_destroys_own_witness:
  "\<exists>network \<in> set (json_items (json_get sample_snapshot ''networks'')). in_stack sample_env network"
proof -
  let ?c = "(''net.delete'', json_obj [(''name'', JStr ''lan''), (''project'', JStr ''demo'')])"
  have "?c \<in> set (new_calls (ensure_networks cidr_lib (fixed_supervisor sample_snapshot) sample_env True) fresh_session)"
    by (simp add: exec_simps Let_def word_le_nat_alt)
  from ensure_networks_destroys_own [OF sample_net_list this] show ?thesis by auto
qed

text \<open>When \<open>ensure_networks\<close> returns, every declared network exists: the supervisor reported it for this
  stack with the declared parameters, or its creation with them has been requested.\<close>

lemma ensure_networks_converges:
  assumes "fst (net_list X s) = Inr snapshot" and "fst (ensure_networks L X env force s) = Inr ()"
    and "(name, desired) \<in> set (env_networks env)"
  shows "(\<exists>network \<in> set (json_items (json_get snapshot ''networks'')).
      owns env name network \<and> in_stack env network \<and> \<not> network_changed network desired)
    \<or> (''net.create'', create_params env name desired) \<in> set (new_calls (ensure_networks L X env force) s)"
proof -
  let ?each = "io_each (ensure_network X env force snapshot) (env_networks env)"
  have gate: "validate_network_ownership L env snapshot = Inr ()"
    and ok: "is_ok (fst (?each (snd (net_list X s))))"
    using assms(2) unfolding ensure_networks_run(2) [OF assms(1)]
    by (auto split: sum.splits)
  show ?thesis
  proof (cases "\<exists>network \<in> set (json_items (json_get snapshot ''networks'')).
      owns env name network \<and> \<not> network_changed network desired")
    case True
    then obtain network where n: "network \<in> set (json_items (json_get snapshot ''networks''))"
      "owns env name network" "\<not> network_changed network desired" by blast
    have "in_stack env network" using gate_owned [OF gate assms(3) n(1,2)] by simp
    with n show ?thesis by blast
  next
    case False
    have "ensures ?each (\<lambda>c. c = (''net.create'', create_params env name desired))"
      by (rule ensures_each [OF appends_ensure_network assms(3)], rule ensure_network_done) (use False in blast)
    with ok have "(''net.create'', create_params env name desired) \<in> set (new_calls ?each (snd (net_list X s)))"
      unfolding ensures_def by blast
    with gate show ?thesis by (simp add: ensure_networks_run(1) [OF assms(1)])
  qed
qed

lemma ensure_networks_converges_witness:
  "(''net.create'', create_params sample_env ''lan'' sample_lan) \<in>
     set (new_calls (ensure_networks cidr_lib (fixed_supervisor sample_snapshot) sample_env True) fresh_session)"
proof -
  have "fst (ensure_networks cidr_lib (fixed_supervisor sample_snapshot) sample_env True fresh_session) = Inr ()"
    by (simp add: exec_simps Let_def word_le_nat_alt)
  from ensure_networks_converges [OF sample_net_list this, of "''lan''" sample_lan] show ?thesis
    by (simp add: exec_simps)
qed

text \<open>\<open>ensure_attachments\<close> detaches only attachments of this stack that are not declared, and only in
  \<open>up\<close> and \<open>apply\<close>; when it returns, every declared attachment was reported by the supervisor with
  its address, and then it has not been detached as drift, or has been requested.\<close>

lemma attachments_converge:
  assumes "fst (net_list X s) = Inr snapshot" and "fst (ensure_attachments X env mode s) = Inr ()"
    and "(name, vm) \<in> set (env_vms env)" and "attachment \<in> set (vm_networks vm)"
  shows "((\<exists>a \<in> set (json_items (json_get snapshot ''attachments'')). in_project env a
        \<and> attachment_key a = (vm_runtime_id env name, att_name attachment, att_ip attachment)
        \<and> attachment_key a \<in> set (wanted_attachments env))
      \<or> (''net.attach'', attach_params env (vm_runtime_id env name) vm attachment)
          \<in> set (new_calls (ensure_attachments X env mode) s))
    \<and> (\<forall>params. (''net.detach'', params) \<in> set (new_calls (ensure_attachments X env mode) s) \<longrightarrow>
         mode \<in> {ModeApply, ModeUp} \<and> (\<exists>a \<in> set (json_items (json_get snapshot ''attachments'')).
           in_project env a \<and> in_stack env a \<and> attachment_key a \<notin> set (wanted_attachments env)
           \<and> params = detach_params env a (json_get a ''network'')))"
proof -
  let ?each = "io_each (attach_vm X env snapshot) (env_vms env)"
  let ?drift = "if mode \<in> {ModeApply, ModeUp} then
    io_each (detach_drift X env) (json_items (json_get snapshot ''attachments'')) else io_ok ()"
  let ?s = "snd (net_list X s)"
  have appends: "appends ?drift" "appends ?each"
    using appends_drift by (auto simp: appends_def emits_ok intro: emits_each appends_attach_vm [unfolded appends_def])
  have wanted: "(vm_runtime_id env name, att_name attachment, att_ip attachment) \<in> set (wanted_attachments env)"
    unfolding wanted_attachments_def set_concat set_map image_image
    by (rule UN_I [OF assms(3)]) (use assms(4) in simp)
  have "(\<exists>a \<in> set (json_items (json_get snapshot ''attachments'')). in_project env a
        \<and> attachment_key a = (vm_runtime_id env name, att_name attachment, att_ip attachment)
        \<and> attachment_key a \<in> set (wanted_attachments env))
      \<or> (''net.attach'', attach_params env (vm_runtime_id env name) vm attachment)
          \<in> set (new_calls (ensure_attachments X env mode) s)"
  proof (cases "attachment_exists env snapshot (vm_runtime_id env name) attachment")
    case True
    then obtain a where a: "a \<in> set (json_items (json_get snapshot ''attachments''))" "in_project env a"
      "attachment_key a = (vm_runtime_id env name, att_name attachment, att_ip attachment)"
      unfolding attachment_exists_def list_ex_iff
      by (auto simp: attachment_key_def str_or_empty_def json_as_str_def)
    with wanted show ?thesis by (intro disjI1 bexI [OF _ a(1)]) simp
  next
    case False
    have "is_ok (fst (io_then ?drift ?each ?s))"
      using assms(2) by (simp add: ensure_attachments_run(2) [OF assms(1)])
    moreover have "ensures (io_then ?drift ?each)
        (\<lambda>c. c = (''net.attach'', attach_params env (vm_runtime_id env name) vm attachment))"
      unfolding io_then_def by (intro ensures_bind_right appends attach_vm_done [OF assms(3,4) False])
    ultimately have "(''net.attach'', attach_params env (vm_runtime_id env name) vm attachment)
        \<in> set (new_calls (io_then ?drift ?each) ?s)"
      unfolding ensures_def by blast
    then show ?thesis by (simp add: ensure_attachments_run(1) [OF assms(1)])
  qed
  moreover have "mode \<in> {ModeApply, ModeUp} \<and> (\<exists>a \<in> set (json_items (json_get snapshot ''attachments'')).
           in_project env a \<and> in_stack env a \<and> attachment_key a \<notin> set (wanted_attachments env)
           \<and> params = detach_params env a (json_get a ''network''))"
    if call: "(''net.detach'', params) \<in> set (new_calls (ensure_attachments X env mode) s)" for params
  proof -
    have "(''net.detach'', params) \<in> set (new_calls (io_then ?drift ?each) ?s)"
      using call unfolding ensure_attachments_run(1) [OF assms(1)] by simp
    from emits_new_calls [OF emits_attachments this] show ?thesis
      by (simp add: attachment_call_def)
  qed
  ultimately show ?thesis by blast
qed

lemma attachments_converge_witness:
  "(''net.attach'', attach_params sample_env ''demo/web'' sample_web \<lparr>att_name = ''lan'', att_ip = ''10.0.0.10''\<rparr>)
     \<in> set (new_calls (ensure_attachments (fixed_supervisor sample_snapshot) sample_env ModeUp) fresh_session)"
proof -
  have "fst (ensure_attachments (fixed_supervisor sample_snapshot) sample_env ModeUp fresh_session) = Inr ()"
    by (simp add: exec_simps Let_def)
  from attachments_converge [OF sample_net_list this, of "''web''" sample_web "\<lparr>att_name = ''lan'', att_ip = ''10.0.0.10''\<rparr>"]
  show ?thesis by (simp add: exec_simps)
qed

text \<open>A network declared with mode \<open>host\<close> is created with mode \<open>shared\<close>, so the next run finds it changed.\<close>

lemma host_network_never_converges:
  assumes "net_mode desired = Host"
    and "json_get actual ''mode'' = json_get (create_params env name desired) ''mode''"
  shows "network_changed actual desired"
proof -
  have "json_get (create_params env name desired) ''mode'' = JStr ''shared''"
    by (simp add: create_params_def json_obj_def bm_of_list_def json_get_def)
  with assms show ?thesis by (simp add: network_changed_def network_mode_name_def)
qed

end
