(* ===== verification/Reconcile.thy ===== *)
theory Reconcile
  imports Network
begin

text \<open>
  Running a plan (\<open>reconciler.rs\<close>): the steps of \<open>up\<close>, \<open>apply\<close> and \<open>down\<close>, their journal at the
  supervisor (\<open>stack.begin\<close>, \<open>stack.step\<close>, \<open>stack.finish\<close>, \<open>stack.abort\<close>), \<open>execute_step\<close>, the
  confirmation of breaking changes, resuming an interrupted run.

  \<open>host\<close> collects what the program does not decide: the supervisor's replies, the files, the terminal,
  serde, SHA-256, and the steps whose code is in other files (\<open>h_step\<close>; the network steps and the
  purges are those of \<open>Network\<close>). The lease is renewed by a thread: whether a renewal has failed is
  read from the world. Progress output is not modelled. Looking up a VM that is not declared panics;
  that is the failure \<open>panicked\<close>.

  The lemmas follow the calls that write the journal (\<open>journal_of\<close>) through the run.
\<close>

section \<open>The steps\<close>

definition APPLY_STEPS :: "string list" where
  "APPLY_STEPS = [''validate'', ''acquire_lease'', ''ensure_nets'', ''ensure_dns'', ''ensure_ca'', ''ensure_images'',
     ''attach_nets'', ''ensure_vms'', ''start_helpers'', ''await_agents'', ''await_cloud_init'',
     ''ensure_guest_utils'', ''ensure_docker_project_mount'', ''ensure_oidc'', ''ensure_ingress'',
     ''ensure_ca_rollout'', ''ensure_oidc_inject'', ''ensure_docker_context'', ''apply_routes_policies'',
     ''ensure_kubernetes'', ''ensure_service_claims'', ''ensure_containers'', ''ensure_ports'', ''release_lease'']"

definition DOWN_STEPS :: "string list" where
  "DOWN_STEPS = [''disable_service_controllers'', ''purge_ingress'', ''purge_dns_records'', ''purge_oidc'',
     ''stop_helpers'', ''detach_nets'', ''destroy_managed'', ''purge_docker_context'', ''purge_ports'',
     ''dns_cleanup'', ''release_lease'']"

definition mode_steps :: "mode \<Rightarrow> string list" where
  "mode_steps mode = (if mode = ModeDown then DOWN_STEPS else APPLY_STEPS)"

datatype step_op =
    StepDns | StepImages | StepVms | StepStart | StepAwait | StepCloudInit | StepGuestUtils | StepProjectMount
  | StepCa | StepOidc | StepIngress | StepCaRollout | StepOidcInject | StepDockerContext | StepContainers
  | StepServiceClaims | StepKubernetes | StepRoutes | StepPurgeIngress | StepPurgeOidc | StepStopHelpers
  | StepDestroy | StepPurgeContext | StepUninstallResolver

record options =
  op_mode :: mode
  op_config :: string
  op_force :: bool
  op_resume :: bool
  op_abort :: bool
  op_purge :: bool

record ('w, 'n) host =
  h_exchange :: "'w exchange"
  h_net :: "'n ipnet_lib"
  h_files :: "'w \<Rightarrow> file_system"
  h_read :: "string \<Rightarrow> 'w \<Rightarrow> (string, string) result"
  h_config :: config_lib
  h_manifests :: "'w \<Rightarrow> manifest_lib"
  h_plan :: plan_lib
  h_resources :: "json \<Rightarrow> (resource list, string) result"
  h_resource_value :: "resource \<Rightarrow> json"
  h_inputs :: "environment \<Rightarrow> 'w \<Rightarrow> ((string \<times> string option) list, failure) result"
  h_hash :: "environment \<Rightarrow> resource list \<Rightarrow> string"
  h_holder :: string
  h_lease :: "'w \<Rightarrow> failure option"
  h_terminal :: "'w \<Rightarrow> bool"
  h_answer :: "'w \<Rightarrow> (string, string) result"
  h_adopt :: "environment \<Rightarrow> resource list \<Rightarrow> resource list \<Rightarrow> ('w, json) io"
  h_step :: "step_op \<Rightarrow> options \<Rightarrow> environment \<Rightarrow> plan \<Rightarrow> ('w, unit) io"

section \<open>Loading the configuration\<close>

definition config_path :: "file_system \<Rightarrow> string \<Rightarrow> string" where
  "config_path fs path = (if fs_is_dir fs path then path_join path ''hypernetwork.config.yaml'' else path)"

definition validate_path ::
    "('w, 'n) host \<Rightarrow> string \<Rightarrow> 'w \<Rightarrow> (environment, validation_issue list) result" where
  "validate_path H path w =
     and_then (map_err (\<lambda>error. [ValidationIssue ''$'' (''cannot read '' @ path @ '': '' @ error) ''io''])
         (h_read H path w)) (\<lambda>source.
       validate_source_with_base (h_config H) (h_net H) (h_files H w) (h_manifests H w) source (path_parent path))"

definition load_config :: "('w, 'n) host \<Rightarrow> string \<Rightarrow> 'w \<Rightarrow> (environment, failure) result" where
  "load_config H path w =
     map_err (\<lambda>issues. invalid (issues_text issues)) (validate_path H (config_path (h_files H w) path) w)"

text \<open>The desired resources with the inputs, and the hash of the whole.\<close>

definition desired_state ::
    "('w, 'n) host \<Rightarrow> environment \<Rightarrow> 'w \<Rightarrow> (resource list \<times> string, failure) result" where
  "desired_state H env w =
     and_then (h_inputs H env w) (\<lambda>inputs.
       let desired = append_input_resources env inputs (desired_resources (h_plan H) env)
       in Inr (desired, h_hash H env desired))"

definition io_read :: "('w \<Rightarrow> ('a, failure) result) \<Rightarrow> ('w, 'a) io" where
  "io_read f = (\<lambda>s. (f (se_world s), s))"

section \<open>execute_step\<close>

definition execute_step ::
    "('w, 'n) host \<Rightarrow> string \<Rightarrow> options \<Rightarrow> environment \<Rightarrow> plan \<Rightarrow> ('w, unit) io" where
  "execute_step H step opts env pl =
     (let X = h_exchange H; op = (\<lambda>x. h_step H x opts env pl) in
      if step = ''ensure_nets'' then ensure_networks (h_net H) X env (op_force opts)
      else if step = ''ensure_dns'' then op StepDns
      else if step = ''ensure_images'' then op StepImages
      else if step = ''ensure_vms'' then op StepVms
      else if step = ''attach_nets'' then
        io_then (ensure_attachments X env (op_mode opts)) (prune_networks X env (op_mode opts) pl)
      else if step = ''start_helpers'' then op StepStart
      else if step = ''await_agents'' then
        io_then (if op_resume opts then op StepStart else io_ok ()) (op StepAwait)
      else if step = ''await_cloud_init'' then op StepCloudInit
      else if step = ''ensure_guest_utils'' then op StepGuestUtils
      else if step = ''ensure_docker_project_mount'' then op StepProjectMount
      else if step = ''ensure_ca'' then op StepCa
      else if step = ''ensure_oidc'' then op StepOidc
      else if step = ''ensure_ingress'' then
        (if sp_service_claims (env_spec env) \<noteq> [] \<or> k8s_clusters (sp_kubernetes (env_spec env)) \<noteq> [] then io_ok ()
         else op StepIngress)
      else if step = ''ensure_ca_rollout'' then op StepCaRollout
      else if step = ''ensure_oidc_inject'' then op StepOidcInject
      else if step = ''ensure_docker_context'' then op StepDockerContext
      else if step = ''ensure_containers'' then op StepContainers
      else if step = ''ensure_service_claims'' then op StepServiceClaims
      else if step = ''ensure_kubernetes'' then op StepKubernetes
      else if step = ''ensure_ports'' then ensure_ports X env
      else if step = ''apply_routes_policies'' then op StepRoutes
      else if step = ''disable_service_controllers'' then
        io_unit (rpc X ''controller.unregister'' (project_params env))
      else if step = ''purge_ingress'' then op StepPurgeIngress
      else if step = ''purge_dns_records'' then purge_dns_records X env
      else if step = ''purge_oidc'' then op StepPurgeOidc
      else if step = ''stop_helpers'' then op StepStopHelpers
      else if step = ''detach_nets'' \<and> op_purge opts then detach_networks X env
      else if step = ''destroy_managed'' \<and> op_purge opts then op StepDestroy
      else if step = ''purge_docker_context'' \<and> op_purge opts then op StepPurgeContext
      else if step = ''purge_ports'' \<and> op_purge opts then purge_ports X env
      else if step = ''dns_cleanup'' \<and> op_purge opts \<and> dns_host_resolver (sp_dns (env_spec env)) then
        op StepUninstallResolver
      else io_ok ())"

section \<open>The journal\<close>

text \<open>The identity of a run at the supervisor.\<close>

record run_id =
  run_journal :: string
  run_stack :: string

definition lease_check :: "('w, 'n) host \<Rightarrow> ('w, unit) io" where
  "lease_check H = io_read (\<lambda>w. case h_lease H w of Some failure \<Rightarrow> Inl failure | None \<Rightarrow> Inr ())"

definition heartbeat_start :: "('w, 'n) host \<Rightarrow> run_id \<Rightarrow> ('w, unit) io" where
  "heartbeat_start H R =
     io_unit (rpc (h_exchange H) ''stack.heartbeat''
       (json_obj [(''id'', JStr (run_journal R)), (''stack_id'', JStr (run_stack R)), (''holder'', JStr (h_holder H))]))"

definition step_mark :: "('w, 'n) host \<Rightarrow> run_id \<Rightarrow> string \<Rightarrow> string \<Rightarrow> string option \<Rightarrow> ('w, unit) io" where
  "step_mark H R step status error =
     checkpoint (h_exchange H) (run_journal R) (run_stack R) (h_holder H) step status error"

text \<open>One iteration of the loop over the steps; the error of marking a failed step is dropped.\<close>

definition execute_marked ::
    "('w, 'n) host \<Rightarrow> run_id \<Rightarrow> options \<Rightarrow> environment \<Rightarrow> plan \<Rightarrow> string \<Rightarrow> ('w, unit) io" where
  "execute_marked H R opts env pl step =
     (\<lambda>s. case execute_step H step opts env pl s of
            (Inl failure, s') \<Rightarrow>
              (Inl failure, snd (step_mark H R step ''failed'' (Some (fail_message failure)) s'))
          | (Inr u, s') \<Rightarrow> (Inr u, s'))"

definition run_step ::
    "('w, 'n) host \<Rightarrow> run_id \<Rightarrow> options \<Rightarrow> environment \<Rightarrow> plan \<Rightarrow> string \<Rightarrow> ('w, unit) io" where
  "run_step H R opts env pl step =
     io_then (lease_check H)
     (io_then (step_mark H R step ''running'' None)
     (io_then (execute_marked H R opts env pl step)
     (io_then (lease_check H) (step_mark H R step ''completed'' None))))"

text \<open>The loop: with a step to resume at, the steps before it are skipped.\<close>

fun run_steps ::
    "('w, 'n) host \<Rightarrow> run_id \<Rightarrow> options \<Rightarrow> environment \<Rightarrow> plan \<Rightarrow> string option \<Rightarrow> bool \<Rightarrow> string list
     \<Rightarrow> ('w, unit) io" where
  "run_steps H R opts env pl resume reached [] = io_ok ()"
| "run_steps H R opts env pl resume reached (step # steps) =
     (let reached' = reached \<or> resume = Some step
      in if \<not> reached' then run_steps H R opts env pl resume False steps
         else io_then (run_step H R opts env pl step) (run_steps H R opts env pl resume True steps))"

section \<open>confirm_breaking\<close>

definition confirm_breaking :: "('w, 'n) host \<Rightarrow> 'w \<Rightarrow> (bool, failure) result" where
  "confirm_breaking H w =
     (if \<not> h_terminal H w then Inr False
      else map_err invalid (and_then (h_answer H w)
        (\<lambda>answer. Inr (to_ascii_lowercase (trim answer) \<in> {''y'', ''yes''}))))"

section \<open>run\<close>

datatype outcome =
    Aborted json
  | Planned plan
  | Adopted json
  | Completed mode string plan

definition panicked :: failure where
  "panicked = \<lparr>fail_code = 101, fail_message = ''no entry found for key''\<rparr>"

definition order_failure :: "dep_error \<Rightarrow> failure" where
  "order_failure e = (case e of DependencyCycle \<Rightarrow> invalid ''VM dependency cycle'' | MissingVm \<Rightarrow> panicked)"

definition begin_params :: "('w, 'n) host \<Rightarrow> options \<Rightarrow> environment \<Rightarrow> string \<Rightarrow> json" where
  "begin_params H opts env digest =
     json_obj [(''stack_id'', JStr (stack_id env)), (''holder'', JStr (h_holder H)), (''desired_hash'', JStr digest),
       (''mode'', JStr (if op_resume opts then ''resume'' else mode_command (op_mode opts))),
       (''purge'', JBool (op_purge opts))]"

definition abort_params :: "('w, 'n) host \<Rightarrow> environment \<Rightarrow> json" where
  "abort_params H env = json_obj [(''stack_id'', JStr (stack_id env)), (''holder'', JStr (h_holder H))]"

definition finish_params :: "('w, 'n) host \<Rightarrow> run_id \<Rightarrow> resource list \<Rightarrow> json" where
  "finish_params H R resources =
     json_obj [(''id'', JStr (run_journal R)), (''stack_id'', JStr (run_stack R)), (''holder'', JStr (h_holder H)),
       (''resources'', JArr (map (h_resource_value H) resources))]"

text \<open>The end of a run: the configuration is read again, and the new state is committed only if it is what
  the run began with.\<close>

definition finish_run ::
    "('w, 'n) host \<Rightarrow> run_id \<Rightarrow> string \<Rightarrow> string \<Rightarrow> mode \<Rightarrow> bool \<Rightarrow> plan \<Rightarrow> ('w, outcome) io" where
  "finish_run H R config digest mode purge pl =
     io_bind (io_read (\<lambda>w. and_then (load_config H config w) (\<lambda>env. desired_state H env w))) (\<lambda>current.
       if snd current \<noteq> digest then
         io_of (Inl (incomplete
           ''configuration or referenced inputs changed during apply; abort the journal and apply again''))
       else
         io_then (lease_check H)
         (io_then (io_unit (rpc (h_exchange H) ''stack.finish''
             (finish_params H R (final_resources mode purge (plan_desired pl)))))
           (io_ok (Completed mode (run_journal R) pl))))"

definition resume_step :: "options \<Rightarrow> json \<Rightarrow> string option" where
  "resume_step opts journal =
     (if op_resume opts then
        Some (case json_as_str (json_get journal ''step'') of Some step \<Rightarrow> step | None \<Rightarrow> ''validate'')
      else None)"

definition effective_options :: "options \<Rightarrow> mode \<Rightarrow> bool \<Rightarrow> options" where
  "effective_options opts mode purge = opts\<lparr>op_mode := mode, op_purge := purge\<rparr>"

text \<open>The steps and the commit, under a lease.\<close>

definition run_confirmed ::
    "('w, 'n) host \<Rightarrow> run_id \<Rightarrow> options \<Rightarrow> environment \<Rightarrow> string \<Rightarrow> mode \<Rightarrow> bool \<Rightarrow> plan \<Rightarrow> string option
     \<Rightarrow> ('w, outcome) io" where
  "run_confirmed H R opts env digest mode purge pl resume =
     io_then (run_steps H R (effective_options opts mode purge) env pl resume (resume = None) (mode_steps mode))
       (finish_run H R (op_config opts) digest mode purge pl)"

text \<open>After \<open>stack.begin\<close>: the heartbeat starts, then breaking changes are confirmed.\<close>

definition run_leased ::
    "('w, 'n) host \<Rightarrow> run_id \<Rightarrow> options \<Rightarrow> environment \<Rightarrow> string \<Rightarrow> mode \<Rightarrow> bool \<Rightarrow> plan \<Rightarrow> string option
     \<Rightarrow> ('w, outcome) io" where
  "run_leased H R opts env digest mode purge pl resume =
     io_then (heartbeat_start H R)
       (io_bind (if list_ex act_breaking (plan_actions pl) \<and> \<not> op_force opts then io_read (confirm_breaking H)
           else io_ok True) (\<lambda>confirmed.
         if \<not> confirmed then
           io_then (io_try (rpc (h_exchange H) ''stack.abort'' (abort_params H env)))
             (io_of (Inl (invalid ''breaking changes require confirmation or --force'')))
         else run_confirmed H R opts env digest mode purge pl resume))"

definition run_plan ::
    "('w, 'n) host \<Rightarrow> options \<Rightarrow> environment \<Rightarrow> string \<Rightarrow> mode \<Rightarrow> bool \<Rightarrow> plan \<Rightarrow> ('w, outcome) io" where
  "run_plan H opts env digest mode purge pl =
     io_bind (io_of (if mode \<noteq> ModeDown then map_err order_failure (dependency_order (env_vms env)) else Inr [])) (\<lambda>_.
     io_bind (rpc (h_exchange H) ''stack.begin'' (begin_params H opts env digest)) (\<lambda>journal.
     io_bind (io_of (ok_or \<lparr>fail_code = EXIT_SUPERVISOR, fail_message = ''invalid stack.begin response''\<rparr>
         (json_as_str (json_get journal ''id'')))) (\<lambda>journal_id.
       run_leased H \<lparr>run_journal = journal_id, run_stack = stack_id env\<rparr> opts env digest mode purge pl
         (resume_step opts journal))))"

text \<open>Once the state is known: the ownership gate, then what the command asks for.\<close>

definition run_decided ::
    "('w, 'n) host \<Rightarrow> options \<Rightarrow> environment \<Rightarrow> resource list \<Rightarrow> string \<Rightarrow> resource list \<Rightarrow> mode \<Rightarrow> bool
     \<Rightarrow> ('w, outcome) io" where
  "run_decided H opts env desired digest actual mode purge =
     io_then (if mode \<noteq> ModeDown \<and> env_networks env \<noteq> [] then
         io_bind (net_list (h_exchange H)) (\<lambda>snapshot. io_of (validate_network_ownership (h_net H) env snapshot))
       else io_ok ())
     (if op_mode opts \<in> {ModePlan, ModeDiff} then
        io_ok (Planned (build_plan (h_plan H) mode desired actual))
      else if op_mode opts = ModeAdopt then io_bind (h_adopt H env desired actual) (\<lambda>report. io_ok (Adopted report))
      else run_plan H opts env digest mode purge (build_plan (h_plan H) mode desired actual))"

definition run_inspect :: "('w, 'n) host \<Rightarrow> options \<Rightarrow> environment \<Rightarrow> resource list \<Rightarrow> string \<Rightarrow> ('w, outcome) io" where
  "run_inspect H opts env desired digest =
     io_bind (rpc (h_exchange H) ''stack.inspect'' (json_obj [(''stack_id'', JStr (stack_id env))])) (\<lambda>state.
     io_bind (io_of (map_err (\<lambda>e. \<lparr>fail_code = EXIT_SUPERVISOR, fail_message = ''invalid stack state: '' @ e\<rparr>)
         (h_resources H (json_get state ''resources'')))) (\<lambda>actual.
     io_bind (io_of (if op_resume opts then journal_context (h_plan H) state
         else Inr (op_mode opts, op_purge opts))) (\<lambda>chosen.
       run_decided H opts env desired digest actual (fst chosen) (snd chosen))))"

definition run :: "('w, 'n) host \<Rightarrow> options \<Rightarrow> ('w, outcome) io" where
  "run H opts =
     io_bind (io_read (load_config H (op_config opts))) (\<lambda>env.
       if op_abort opts then
         io_bind (rpc (h_exchange H) ''stack.abort'' (abort_params H env)) (\<lambda>journal. io_ok (Aborted journal))
       else
         io_bind (io_read (desired_state H env)) (\<lambda>state. run_inspect H opts env (fst state) (snd state)))"

section \<open>The journal of an operation\<close>

definition journal_call :: "call \<Rightarrow> bool" where
  "journal_call c \<longleftrightarrow> fst c \<in> {''stack.begin'', ''stack.step'', ''stack.abort'', ''stack.finish''}"

definition journal_of :: "call list \<Rightarrow> call list" where
  "journal_of cs = filter journal_call cs"

abbreviation jtrace :: "('w, 'a) io \<Rightarrow> 'w session \<Rightarrow> call list" where
  "jtrace m s \<equiv> journal_of (new_calls m s)"

abbreviation quiet :: "('w, 'a) io \<Rightarrow> bool" where
  "quiet m \<equiv> emits (\<lambda>c. \<not> journal_call c) m"

text \<open>The steps of the other files leave the journal alone.\<close>

definition quiet_host :: "('w, 'n) host \<Rightarrow> bool" where
  "quiet_host H \<longleftrightarrow> (\<forall>op opts env pl. quiet (h_step H op opts env pl))
     \<and> (\<forall>env desired actual. quiet (h_adopt H env desired actual))"

lemma jtrace_quiet [simp]: "quiet m \<Longrightarrow> jtrace m s = []"
  unfolding journal_of_def filter_empty_conv using emits_new_calls by blast

lemma jtrace_rpc [simp]: "jtrace (rpc X method params) s = (if journal_call (method, params) then [(method, params)] else [])"
  by (simp add: journal_of_def new_calls_rpc)

lemma jtrace_bind:
  assumes "appends m" and "\<And>x. appends (k x)"
  shows "jtrace (io_bind m k) s =
    jtrace m s @ (case m s of (Inl e, s') \<Rightarrow> [] | (Inr x, s') \<Rightarrow> jtrace (k x) s')"
  unfolding new_calls_bind [OF assms] by (simp add: journal_of_def split: prod.split sum.split)

lemma jtrace_then:
  assumes "appends m" and "appends n"
  shows "jtrace (io_then m n) s = jtrace m s @ (if is_ok (fst (m s)) then jtrace n (snd (m s)) else [])"
  unfolding io_then_def jtrace_bind [OF assms] by (cases "m s"; cases "fst (m s)") auto

lemma fst_then: "fst (io_then m n s) = (case fst (m s) of Inl e \<Rightarrow> Inl e | Inr _ \<Rightarrow> fst (n (snd (m s))))"
  by (cases "m s"; cases "fst (m s)") (auto simp: io_then_def io_bind_def)

lemma fst_unit: "fst (io_unit m s) = (case fst (m s) of Inl e \<Rightarrow> Inl e | Inr _ \<Rightarrow> Inr ())"
  by (cases "m s"; cases "fst (m s)") (auto simp: io_unit_def io_bind_def io_ok_def io_of_def)

lemma jtrace_unit: "appends m \<Longrightarrow> jtrace (io_unit m) s = jtrace m s"
  unfolding io_unit_def
  by (subst jtrace_bind) (auto simp: io_ok_def journal_of_def appends_def emits_of split: prod.split sum.split)

lemma emits_read [emits_intros]: "emits P (io_read f)"
  by (simp add: emits_def io_read_def)

lemma appends_quiet: "quiet m \<Longrightarrow> appends m"
  by (rule emits_appends)

lemma appends_intros:
  "appends m \<Longrightarrow> (\<And>x. appends (k x)) \<Longrightarrow> appends (io_bind m k)"
  "appends l \<Longrightarrow> appends n \<Longrightarrow> appends (io_then l n)"
  "appends p \<Longrightarrow> appends (io_unit p)"
  "appends q \<Longrightarrow> appends (io_try q)"
  "appends (io_of r)"
  "appends (io_ok y)"
  "appends (io_read f)"
  "appends (rpc X method params)"
  unfolding appends_def by (intro emits_intros; simp)+

text \<open>What the network operations call.\<close>

lemma quiet_net_list [simp]: "quiet (net_list X)"
  by (intro emits_intros) (simp add: journal_call_def)

lemma quiet_rpc: "method \<notin> {''stack.begin'', ''stack.step'', ''stack.abort'', ''stack.finish''} \<Longrightarrow> quiet (rpc X method params)"
  by (intro emits_intros) (simp add: journal_call_def)

lemma quiet_ensure_networks: "quiet (ensure_networks L X env force)"
  unfolding ensure_networks_def ensure_network_def Let_def split_beta
  by (intro emits_intros) (simp_all add: journal_call_def)

lemma quiet_ensure_attachments: "quiet (ensure_attachments X env mode)"
  unfolding ensure_attachments_def attach_vm_def detach_drift_def Let_def split_beta
  by (intro emits_intros) (simp_all add: journal_call_def)

lemma quiet_prune_networks: "quiet (prune_networks X env mode pl)"
  unfolding prune_networks_def prune_network_def Let_def
  by (intro emits_intros) (simp_all add: journal_call_def)

lemma quiet_detach_networks: "quiet (detach_networks X env)"
  unfolding detach_networks_def by (intro emits_intros) (simp_all add: journal_call_def)

lemma quiet_ensure_ports: "quiet (ensure_ports X env)"
  unfolding ensure_ports_def by (intro emits_intros) (simp_all add: journal_call_def)

lemma quiet_purges: "quiet (purge_dns_records X env)" "quiet (purge_ports X env)"
  unfolding purge_dns_records_def purge_ports_def by (intro emits_intros; simp add: journal_call_def)+

lemma quiet_execute_step:
  assumes "quiet_host H"
  shows "quiet (execute_step H step opts env pl)"
proof -
  have ops: "quiet (h_step H op opts env pl)" for op
    using assms by (simp add: quiet_host_def)
  show ?thesis
    unfolding execute_step_def Let_def
    by (intro emits_if emits_then emits_unit emits_ok ops quiet_ensure_networks quiet_ensure_attachments
        quiet_prune_networks quiet_detach_networks quiet_ensure_ports quiet_purges quiet_rpc) simp
qed

section \<open>The journal of the steps\<close>

definition step_call :: "('w, 'n) host \<Rightarrow> run_id \<Rightarrow> string \<Rightarrow> string \<Rightarrow> string option \<Rightarrow> call" where
  "step_call H R step status error =
     (''stack.step'',
      json_obj [(''id'', JStr (run_journal R)), (''stack_id'', JStr (run_stack R)), (''holder'', JStr (h_holder H)),
        (''step'', JStr step), (''status'', JStr status),
        (''error'', case error of Some e \<Rightarrow> JStr e | None \<Rightarrow> JNull)])"

definition step_trace :: "('w, 'n) host \<Rightarrow> run_id \<Rightarrow> string \<Rightarrow> call list" where
  "step_trace H R step = [step_call H R step ''running'' None, step_call H R step ''completed'' None]"

text \<open>What an interrupted step leaves in the journal.\<close>

definition broken_trace :: "('w, 'n) host \<Rightarrow> run_id \<Rightarrow> string \<Rightarrow> call list \<Rightarrow> bool" where
  "broken_trace H R step cs \<longleftrightarrow>
     cs = [] \<or> cs = [step_call H R step ''running'' None]
     \<or> (\<exists>message. cs = [step_call H R step ''running'' None, step_call H R step ''failed'' (Some message)])
     \<or> cs = step_trace H R step"

definition steps_from :: "string option \<Rightarrow> string list \<Rightarrow> string list" where
  "steps_from resume steps = (case resume of None \<Rightarrow> steps | Some step \<Rightarrow> dropWhile (\<lambda>x. x \<noteq> step) steps)"

lemma step_mark_trace [simp]: "jtrace (step_mark H R step status error) s = [step_call H R step status error]"
  unfolding step_mark_def checkpoint_def
  by (simp add: jtrace_unit appends_intros journal_call_def step_call_def)

lemma appends_step_mark: "appends (step_mark H R step status error)"
  unfolding step_mark_def checkpoint_def by (intro appends_intros)

lemma lease_check_quiet [simp]: "quiet (lease_check H)"
  unfolding lease_check_def by (rule emits_read)

text \<open>The execution with its failure mark.\<close>

lemma marked_execution:
  assumes "quiet_host H"
  shows "appends (execute_marked H R opts env pl step)"
    and "jtrace (execute_marked H R opts env pl step) s =
      (case fst (execute_marked H R opts env pl step s) of
         Inl f \<Rightarrow> [step_call H R step ''failed'' (Some (fail_message f))] | Inr _ \<Rightarrow> [])"
proof -
  let ?m = "execute_marked H R opts env pl step"
  let ?e = "execute_step H step opts env pl"
  let ?failed = "\<lambda>f. step_mark H R step ''failed'' (Some (fail_message f))"
  have quiet: "quiet ?e" by (rule quiet_execute_step [OF assms(1)])
  have calls: "\<exists>cs. se_calls (snd (?m t)) = se_calls t @ cs
      \<and> journal_of cs = (case fst (?m t) of Inl f \<Rightarrow> [step_call H R step ''failed'' (Some (fail_message f))] | Inr _ \<Rightarrow> [])" for t
  proof -
    obtain r t' where run: "?e t = (r, t')" by fastforce
    obtain cs where cs: "se_calls t' = se_calls t @ cs" "\<forall>c \<in> set cs. \<not> journal_call c"
      using quiet run unfolding emits_def by (metis snd_conv)
    then have none: "journal_of cs = []" by (simp add: journal_of_def filter_empty_conv)
    show ?thesis
    proof (cases r)
      case (Inl f)
      have "se_calls (snd (?failed f t')) = se_calls t' @ [step_call H R step ''failed'' (Some (fail_message f))]"
        by (simp add: step_mark_def checkpoint_def io_unit_def io_bind_def io_ok_def io_of_def rpc_def Let_def
            step_call_def split: prod.split sum.split)
      with run Inl cs(1) none show ?thesis
        by (intro exI [of _ "cs @ [step_call H R step ''failed'' (Some (fail_message f))]"])
          (simp add: execute_marked_def journal_of_def journal_call_def step_call_def)
    next
      case (Inr u)
      with run cs(1) none show ?thesis by (simp add: execute_marked_def)
    qed
  qed
  then show "appends ?m" unfolding appends_def emits_def by blast
  show "jtrace ?m s = (case fst (?m s) of Inl f \<Rightarrow> [step_call H R step ''failed'' (Some (fail_message f))] | Inr _ \<Rightarrow> [])"
    using calls [of s] by (auto simp: new_calls_def)
qed

lemma run_step_trace:
  assumes "quiet_host H"
  shows "appends (run_step H R opts env pl step)"
    and "fst (run_step H R opts env pl step s) = Inr u \<Longrightarrow> jtrace (run_step H R opts env pl step) s = step_trace H R step"
    and "fst (run_step H R opts env pl step s) = Inl f \<Longrightarrow> broken_trace H R step (jtrace (run_step H R opts env pl step) s)"
proof -
  note execution = marked_execution [OF assms, of R opts env pl step]
  note parts = appends_intros appends_step_mark appends_quiet [OF lease_check_quiet] execution(1)
  show "appends (run_step H R opts env pl step)"
    unfolding run_step_def by (intro parts)
  note trace = jtrace_then [OF appends_quiet [OF lease_check_quiet]] jtrace_then [OF appends_step_mark]
    jtrace_then [OF execution(1)] parts execution(2) fst_then
  show "fst (run_step H R opts env pl step s) = Inr u \<Longrightarrow> jtrace (run_step H R opts env pl step) s = step_trace H R step"
    unfolding run_step_def
    by (simp add: trace step_trace_def is_ok_iff split: sum.splits)
  show "fst (run_step H R opts env pl step s) = Inl f \<Longrightarrow> broken_trace H R step (jtrace (run_step H R opts env pl step) s)"
    unfolding run_step_def
    by (auto simp: trace step_trace_def broken_trace_def is_ok_iff split: sum.splits)
qed

lemma appends_run_steps: "quiet_host H \<Longrightarrow> appends (run_steps H R opts env pl resume reached steps)"
  by (induction steps arbitrary: reached) (auto intro: appends_intros run_step_trace(1) simp: Let_def)

text \<open>What a run of the steps writes: the completed ones in full, then the one that broke, if any.\<close>

definition steps_outcome ::
    "('w, 'n) host \<Rightarrow> run_id \<Rightarrow> string list \<Rightarrow> (unit, failure) result \<Rightarrow> call list \<Rightarrow> bool" where
  "steps_outcome H R steps r cs \<longleftrightarrow>
     (case r of
        Inr _ \<Rightarrow> cs = concat (map (step_trace H R) steps)
      | Inl _ \<Rightarrow> (\<exists>done step later rest. steps = done @ step # later
          \<and> cs = concat (map (step_trace H R) done) @ rest \<and> broken_trace H R step rest))"

lemma run_reached_outcome:
  assumes "quiet_host H"
  shows "steps_outcome H R steps (fst (run_steps H R opts env pl resume True steps s))
    (jtrace (run_steps H R opts env pl resume True steps) s)"
proof (induction steps arbitrary: s)
  case Nil
  show ?case by (simp add: steps_outcome_def io_ok_def io_of_def journal_of_def new_calls_def)
next
  case (Cons step steps)
  let ?one = "run_step H R opts env pl step"
  let ?rest = "run_steps H R opts env pl resume True steps"
  note one = run_step_trace [OF assms, where R = R and opts = opts and env = env and pl = pl and step = step]
  note trace = jtrace_then [OF one(1) appends_run_steps [OF assms]]
  show ?case
  proof (cases "fst (?one s)")
    case (Inl f)
    then have "broken_trace H R step (jtrace ?one s)" by (rule one(3))
    then have "\<exists>ended broken later rest. step # steps = ended @ broken # later
        \<and> jtrace ?one s = concat (map (step_trace H R) ended) @ rest \<and> broken_trace H R broken rest"
      by (intro exI [of _ "[]"] exI [of _ step] exI [of _ steps] exI [of _ "jtrace ?one s"]) simp
    with Inl show ?thesis
      by (simp add: trace fst_then steps_outcome_def)
  next
    case (Inr u)
    then have head: "jtrace ?one s = step_trace H R step" by (rule one(2))
    show ?thesis
    proof (cases "fst (?rest (snd (?one s)))")
      case (Inr v)
      with Cons.IH [of "snd (?one s)"] head \<open>fst (?one s) = Inr u\<close> show ?thesis
        by (simp add: trace fst_then steps_outcome_def)
    next
      case (Inl f)
      have "\<exists>ended broken later rest. steps = ended @ broken # later
          \<and> jtrace ?rest (snd (?one s)) = concat (map (step_trace H R) ended) @ rest \<and> broken_trace H R broken rest"
        using Cons.IH [of "snd (?one s)"] unfolding steps_outcome_def Inl sum.case .
      then obtain ended broken later rest where split:
          "steps = ended @ broken # later"
          "jtrace ?rest (snd (?one s)) = concat (map (step_trace H R) ended) @ rest" "broken_trace H R broken rest"
        by blast
      have "step # steps = (step # ended) @ broken # later"
        "jtrace (run_steps H R opts env pl resume True (step # steps)) s =
          concat (map (step_trace H R) (step # ended)) @ rest"
        using split(1,2) head \<open>fst (?one s) = Inr u\<close> by (simp_all add: trace)
      moreover have "fst (run_steps H R opts env pl resume True (step # steps) s) = Inl f"
        using Inl \<open>fst (?one s) = Inr u\<close> by (simp add: fst_then)
      ultimately show ?thesis
        using split(3) unfolding steps_outcome_def by (simp only: sum.case) blast
    qed
  qed
qed

lemma run_steps_from:
  "run_steps H R opts env pl (Some at) False steps s =
    run_steps H R opts env pl (Some at) True (steps_from (Some at) steps) s"
  by (induction steps) (simp_all add: steps_from_def Let_def)

lemma run_steps_outcome:
  assumes "quiet_host H"
  shows "steps_outcome H R (steps_from resume steps) (fst (run_steps H R opts env pl resume (resume = None) steps s))
    (jtrace (run_steps H R opts env pl resume (resume = None) steps) s)"
proof (cases resume)
  case None
  then show ?thesis using run_reached_outcome [OF assms] by (simp add: steps_from_def)
next
  case (Some at)
  have "jtrace (run_steps H R opts env pl (Some at) False steps) s =
      jtrace (run_steps H R opts env pl (Some at) True (steps_from (Some at) steps)) s"
    by (simp only: new_calls_def run_steps_from)
  with Some show ?thesis
    using run_reached_outcome [OF assms, of R "steps_from (Some at) steps" opts env pl "Some at" s]
    by (simp add: run_steps_from)
qed

section \<open>The journal of a run\<close>

lemma bind_after:
  assumes "appends m" and "\<And>x. appends (k x)" and "c \<in> set (new_calls (io_bind m k) s)" and "c \<notin> set (new_calls m s)"
  obtains x s1 where "m s = (Inr x, s1)" and "jtrace (io_bind m k) s = jtrace m s @ jtrace (k x) s1"
    and "c \<in> set (new_calls (k x) s1)"
proof -
  obtain r s1 where run: "m s = (r, s1)" by fastforce
  have "c \<in> set (case r of Inl e \<Rightarrow> [] | Inr x \<Rightarrow> new_calls (k x) s1)"
    using assms(3,4) run unfolding new_calls_bind [OF assms(1,2)] by auto
  then obtain x where "r = Inr x" "c \<in> set (new_calls (k x) s1)" by (cases r) auto
  with run show thesis by (intro that [of x s1]) (simp_all add: jtrace_bind [OF assms(1,2)])
qed

lemma bind_runs: "m s = (Inr x, s1) \<Longrightarrow> io_bind m k s = k x s1"
  by (simp add: io_bind_def)

lemma then_runs: "m s = (Inr x, s1) \<Longrightarrow> io_then m n s = n s1"
  by (simp add: io_then_def io_bind_def)

lemma not_quiet_call: "quiet m \<Longrightarrow> journal_call c \<Longrightarrow> c \<notin> set (new_calls m s)"
  using emits_new_calls by blast

text \<open>The same after an operation that leaves the journal alone.\<close>

lemma bind_after_quiet:
  assumes "quiet m" and "\<And>x. appends (k x)" and "journal_call c" and "c \<in> set (new_calls (io_bind m k) s)"
  obtains x s1 where "m s = (Inr x, s1)" and "jtrace (io_bind m k) s = jtrace (k x) s1" and "c \<in> set (new_calls (k x) s1)"
proof -
  have "c \<notin> set (new_calls m s)" by (rule not_quiet_call [OF assms(1,3)])
  then obtain x s1 where run: "m s = (Inr x, s1)" "jtrace (io_bind m k) s = jtrace m s @ jtrace (k x) s1"
      "c \<in> set (new_calls (k x) s1)"
    by (rule bind_after [OF appends_quiet [OF assms(1)] assms(2,4)])
  moreover have "jtrace m s = []" using assms(1) by simp
  ultimately show thesis by (intro that [of x s1]) simp_all
qed

lemma read_runs [simp]: "io_read f s = (f (se_world s), s)"
  by (simp add: io_read_def)

lemma appends_finish_run: "appends (finish_run H R config digest mode purge pl)"
  unfolding finish_run_def by (simp add: appends_intros appends_quiet)

lemma finish_is_journal: "journal_call (''stack.finish'', params)"
  by (simp add: journal_call_def)

text \<open>The configuration and its inputs still have the hash.\<close>

definition unchanged_at :: "('w, 'n) host \<Rightarrow> string \<Rightarrow> string \<Rightarrow> 'w \<Rightarrow> bool" where
  "unchanged_at H config digest w \<longleftrightarrow>
     (\<exists>env desired. load_config H config w = Inr env \<and> desired_state H env w = Inr (desired, digest))"

lemma finish_run_calls:
  assumes "(''stack.finish'', params) \<in> set (new_calls (finish_run H R config digest mode purge pl) s)"
  shows "unchanged_at H config digest (se_world s) \<and> h_lease H (se_world s) = None
    \<and> jtrace (finish_run H R config digest mode purge pl) s =
        [(''stack.finish'', finish_params H R (final_resources mode purge (plan_desired pl)))]
    \<and> snd (finish_run H R config digest mode purge pl s) =
        snd (rpc (h_exchange H) ''stack.finish'' (finish_params H R (final_resources mode purge (plan_desired pl))) s)"
proof -
  let ?read = "and_then (load_config H config (se_world s)) (\<lambda>env. desired_state H env (se_world s))"
  let ?finish = "rpc (h_exchange H) ''stack.finish'' (finish_params H R (final_resources mode purge (plan_desired pl)))"
  let ?closing = "io_then (lease_check H) (io_then (io_unit ?finish) (io_ok (Completed mode (run_journal R) pl)))"
  obtain current where current: "?read = Inr current"
    using assms by (cases ?read) (simp_all add: finish_run_def io_bind_def new_calls_def)
  then have run: "finish_run H R config digest mode purge pl s =
      (if snd current \<noteq> digest then io_of (Inl (incomplete
         ''configuration or referenced inputs changed during apply; abort the journal and apply again''))
       else ?closing) s"
    unfolding finish_run_def by (intro bind_runs) (simp only: read_runs)
  with assms have same: "snd current = digest" by (auto simp: new_calls_def io_of_def split: if_splits)
  have lease: "h_lease H (se_world s) = None"
    using assms run same by (auto simp: new_calls_def lease_check_def io_then_def io_bind_def split: option.splits)
  then have closed: "?closing s = io_then (io_unit ?finish) (io_ok (Completed mode (run_journal R) pl)) s"
    by (intro then_runs [where x = "()"]) (simp add: lease_check_def)
  have ended: "snd (io_then (io_unit ?finish) (io_ok (Completed mode (run_journal R) pl)) s) = snd (?finish s)"
    by (simp add: io_then_def io_unit_def io_bind_def io_ok_def io_of_def split: prod.split sum.split)
  have "unchanged_at H config digest (se_world s)"
    using current same by (cases current) (auto simp: unchanged_at_def)
  moreover have "jtrace (finish_run H R config digest mode purge pl) s =
      [(''stack.finish'', finish_params H R (final_resources mode purge (plan_desired pl)))]"
    using ended run same closed new_calls_rpc [of "h_exchange H" "''stack.finish''"
      "finish_params H R (final_resources mode purge (plan_desired pl))" s]
    by (simp add: new_calls_def journal_of_def journal_call_def)
  ultimately show ?thesis using lease run same closed ended by simp
qed


lemma heartbeat_quiet: "quiet (heartbeat_start H R)"
  unfolding heartbeat_start_def by (intro emits_unit quiet_rpc) simp

lemma appends_run_confirmed: "quiet_host H \<Longrightarrow> appends (run_confirmed H R opts env digest mode purge pl resume)"
  unfolding run_confirmed_def by (intro appends_intros appends_run_steps appends_finish_run)

lemma appends_run_leased: "quiet_host H \<Longrightarrow> appends (run_leased H R opts env digest mode purge pl resume)"
  unfolding run_leased_def
  by (simp add: appends_intros appends_quiet [OF heartbeat_quiet] appends_run_confirmed)

lemma run_confirmed_calls:
  assumes "quiet_host H"
    and "(''stack.finish'', params) \<in> set (new_calls (run_confirmed H R opts env digest mode purge pl resume) s)"
  obtains s1 where "run_steps H R (effective_options opts mode purge) env pl resume (resume = None) (mode_steps mode) s = (Inr (), s1)"
    and "unchanged_at H (op_config opts) digest (se_world s1)" and "h_lease H (se_world s1) = None"
    and "jtrace (run_confirmed H R opts env digest mode purge pl resume) s =
      concat (map (step_trace H R) (steps_from resume (mode_steps mode)))
      @ [(''stack.finish'', finish_params H R (final_resources mode purge (plan_desired pl)))]"
    and "snd (run_confirmed H R opts env digest mode purge pl resume s) =
      snd (rpc (h_exchange H) ''stack.finish'' (finish_params H R (final_resources mode purge (plan_desired pl))) s1)"
proof -
  let ?steps = "run_steps H R (effective_options opts mode purge) env pl resume (resume = None) (mode_steps mode)"
  have marks: "c \<in> set (jtrace ?steps s) \<Longrightarrow> fst c = ''stack.step''" for c
    using run_steps_outcome [OF assms(1), of R resume "mode_steps mode" "effective_options opts mode purge" env pl s]
    unfolding steps_outcome_def
    by (auto simp: step_trace_def step_call_def broken_trace_def split: sum.splits)
  have "(''stack.finish'', params) \<notin> set (new_calls ?steps s)"
  proof
    assume "(''stack.finish'', params) \<in> set (new_calls ?steps s)"
    then have "(''stack.finish'', params) \<in> set (jtrace ?steps s)"
      by (simp add: journal_of_def finish_is_journal)
    with marks show False by fastforce
  qed
  then obtain u s1 where steps: "?steps s = (Inr u, s1)"
    and trace: "jtrace (run_confirmed H R opts env digest mode purge pl resume) s =
      jtrace ?steps s @ jtrace (finish_run H R (op_config opts) digest mode purge pl) s1"
    and call: "(''stack.finish'', params) \<in> set (new_calls (finish_run H R (op_config opts) digest mode purge pl) s1)"
    using assms(2) unfolding run_confirmed_def io_then_def
    by (elim bind_after [OF appends_run_steps [OF assms(1)] appends_finish_run])
  have "jtrace ?steps s = concat (map (step_trace H R) (steps_from resume (mode_steps mode)))"
    using run_steps_outcome [OF assms(1), of R resume "mode_steps mode" "effective_options opts mode purge" env pl s]
    by (simp add: steps steps_outcome_def)
  moreover have "snd (run_confirmed H R opts env digest mode purge pl resume s) =
      snd (finish_run H R (op_config opts) digest mode purge pl s1)"
    unfolding run_confirmed_def then_runs [where m = ?steps, OF steps] ..
  ultimately show thesis using that [of s1] steps trace finish_run_calls [OF call] by auto
qed

text \<open>Breaking changes are forced, or somebody at a terminal has said yes.\<close>

definition agreed_at :: "('w, 'n) host \<Rightarrow> options \<Rightarrow> plan \<Rightarrow> 'w \<Rightarrow> bool" where
  "agreed_at H opts pl w \<longleftrightarrow>
     (list_ex act_breaking (plan_actions pl) \<longrightarrow>
        op_force opts
        \<or> h_terminal H w \<and> (\<exists>answer. h_answer H w = Inr answer \<and> to_ascii_lowercase (trim answer) \<in> {''y'', ''yes''}))"

lemma confirmed_agreed: "confirm_breaking H w = Inr True \<Longrightarrow> agreed_at H opts pl w"
  by (auto simp: confirm_breaking_def agreed_at_def map_err_def split: if_splits sum.splits)

lemma run_leased_calls:
  assumes "quiet_host H"
    and "(''stack.finish'', params) \<in> set (new_calls (run_leased H R opts env digest mode purge pl resume) s)"
  obtains s1 where "heartbeat_start H R s = (Inr (), s1)" and "agreed_at H opts pl (se_world s1)"
    and "jtrace (run_leased H R opts env digest mode purge pl resume) s =
      jtrace (run_confirmed H R opts env digest mode purge pl resume) s1"
    and "(''stack.finish'', params) \<in> set (new_calls (run_confirmed H R opts env digest mode purge pl resume) s1)"
    and "run_leased H R opts env digest mode purge pl resume s = run_confirmed H R opts env digest mode purge pl resume s1"
proof -
  let ?ask = "if list_ex act_breaking (plan_actions pl) \<and> \<not> op_force opts then io_read (confirm_breaking H) else io_ok True"
  let ?k = "\<lambda>confirmed. if \<not> confirmed then
      io_then (io_try (rpc (h_exchange H) ''stack.abort'' (abort_params H env)))
        (io_of (Inl (invalid ''breaking changes require confirmation or --force'')))
    else run_confirmed H R opts env digest mode purge pl resume"
  have ask: "quiet ?ask" by (simp add: emits_read emits_ok)
  have k: "appends (?k confirmed)" for confirmed
    by (simp add: appends_intros appends_run_confirmed [OF assms(1)])
  have both: "appends (io_bind ?ask ?k)" by (intro appends_intros(1) appends_quiet [OF ask] k)
  have eq: "run_leased H R opts env digest mode purge pl resume = io_bind (heartbeat_start H R) (\<lambda>_. io_bind ?ask ?k)"
    unfolding run_leased_def io_then_def [of "heartbeat_start H R"] ..
  obtain u s1 where lease: "heartbeat_start H R s = (Inr u, s1)"
      "jtrace (run_leased H R opts env digest mode purge pl resume) s = jtrace (io_bind ?ask ?k) s1"
      "(''stack.finish'', params) \<in> set (new_calls (io_bind ?ask ?k) s1)"
    unfolding eq by (rule bind_after_quiet [OF heartbeat_quiet both finish_is_journal assms(2) [unfolded eq]])
  obtain confirmed s2 where answer: "?ask s1 = (Inr confirmed, s2)"
      "jtrace (io_bind ?ask ?k) s1 = jtrace (?k confirmed) s2"
      "(''stack.finish'', params) \<in> set (new_calls (?k confirmed) s2)"
    by (rule bind_after_quiet [OF ask k finish_is_journal lease(3)])
  have confirmed: "confirmed"
  proof (rule ccontr)
    assume "\<not> confirmed"
    moreover have "emits (\<lambda>c. fst c = ''stack.abort'') (?k False)"
      by (simp add: emits_then emits_try emits_rpc emits_of)
    ultimately show False using emits_new_calls [of "\<lambda>c. fst c = ''stack.abort''" "?k False"] answer(3) by fastforce
  qed
  have same: "s2 = s1" using answer(1) by (auto simp: io_ok_def io_of_def split: if_splits)
  have "agreed_at H opts pl (se_world s1)"
    using answer(1) confirmed confirmed_agreed [of H "se_world s1"]
    by (auto simp: agreed_at_def split: if_splits)
  moreover have "run_leased H R opts env digest mode purge pl resume s = run_confirmed H R opts env digest mode purge pl resume s1"
    unfolding eq bind_runs [where m = "heartbeat_start H R", OF lease(1)] bind_runs [where m = ?ask, OF answer(1)] using confirmed same by simp
  ultimately show thesis using that [of s1] lease answer(2,3) confirmed same by simp
qed

text \<open>What a run has done that commits: the sessions it went through, each the result of the step before, and its
  journal.\<close>

definition committed ::
    "('w, 'n) host \<Rightarrow> options \<Rightarrow> environment \<Rightarrow> string \<Rightarrow> mode \<Rightarrow> bool \<Rightarrow> plan \<Rightarrow> 'w session \<Rightarrow> 'w session
     \<Rightarrow> call list \<Rightarrow> bool" where
  "committed H opts env digest mode purge pl s s' cs \<longleftrightarrow>
     (\<exists>journal R resume s1 s2 s3.
         rpc (h_exchange H) ''stack.begin'' (begin_params H opts env digest) s = (Inr journal, s1)
       \<and> json_get journal ''id'' = JStr (run_journal R) \<and> run_stack R = stack_id env
       \<and> resume = (if op_resume opts
           then Some (case json_get journal ''step'' of JStr step \<Rightarrow> step | _ \<Rightarrow> ''validate'') else None)
       \<and> heartbeat_start H R s1 = (Inr (), s2)
       \<and> agreed_at H opts pl (se_world s2)
       \<and> run_steps H R (effective_options opts mode purge) env pl resume (resume = None) (mode_steps mode) s2 = (Inr (), s3)
       \<and> unchanged_at H (op_config opts) digest (se_world s3)
       \<and> h_lease H (se_world s3) = None
       \<and> s' = snd (rpc (h_exchange H) ''stack.finish''
           (finish_params H R (final_resources mode purge (plan_desired pl))) s3)
       \<and> cs = [(''stack.begin'', begin_params H opts env digest)]
           @ concat (map (step_trace H R) (steps_from resume (mode_steps mode)))
           @ [(''stack.finish'', finish_params H R (final_resources mode purge (plan_desired pl)))])"

lemma resume_step_cases:
  "resume_step opts journal =
     (if op_resume opts then Some (case json_get journal ''step'' of JStr step \<Rightarrow> step | _ \<Rightarrow> ''validate'') else None)"
  by (simp add: resume_step_def json_as_str_def split: json.split)

lemma appends_run_plan: "quiet_host H \<Longrightarrow> appends (run_plan H opts env digest mode purge pl)"
  unfolding run_plan_def by (intro appends_intros appends_run_leased)

lemma run_plan_calls:
  assumes "quiet_host H"
    and "(''stack.finish'', params) \<in> set (new_calls (run_plan H opts env digest mode purge pl) s)"
  shows "committed H opts env digest mode purge pl s (snd (run_plan H opts env digest mode purge pl s))
    (jtrace (run_plan H opts env digest mode purge pl) s)"
proof -
  let ?order = "io_of (if mode \<noteq> ModeDown then map_err order_failure (dependency_order (env_vms env)) else Inr [])"
  let ?opening = "rpc (h_exchange H) ''stack.begin'' (begin_params H opts env digest)"
  let ?parse = "\<lambda>journal. io_of (ok_or \<lparr>fail_code = EXIT_SUPERVISOR, fail_message = ''invalid stack.begin response''\<rparr>
         (json_as_str (json_get journal ''id'')))"
  let ?leased = "\<lambda>journal journal_id. run_leased H \<lparr>run_journal = journal_id, run_stack = stack_id env\<rparr>
    opts env digest mode purge pl (resume_step opts journal)"
  have leased: "appends (?leased journal journal_id)" for journal journal_id
    by (rule appends_run_leased [OF assms(1)])
  have parse: "appends (io_bind (?parse journal) (?leased journal))" for journal
    by (intro appends_intros leased)
  have begun: "appends (io_bind ?opening (\<lambda>journal. io_bind (?parse journal) (?leased journal)))"
    by (intro appends_intros leased)
  have eq: "run_plan H opts env digest mode purge pl =
      io_bind ?order (\<lambda>_. io_bind ?opening (\<lambda>journal. io_bind (?parse journal) (?leased journal)))"
    by (simp only: run_plan_def)
  obtain order s1 where ordered: "?order s = (Inr order, s1)"
      "jtrace (run_plan H opts env digest mode purge pl) s =
        jtrace (io_bind ?opening (\<lambda>journal. io_bind (?parse journal) (?leased journal))) s1"
      "(''stack.finish'', params) \<in> set (new_calls (io_bind ?opening (\<lambda>journal. io_bind (?parse journal) (?leased journal))) s1)"
    unfolding eq by (rule bind_after_quiet [OF emits_of begun finish_is_journal assms(2) [unfolded eq]])
  have start: "s1 = s" using ordered(1) by (simp add: io_of_def)
  have "(''stack.finish'', params) \<notin> set (new_calls ?opening s1)" by (simp add: new_calls_rpc)
  then obtain journal s2 where opened: "?opening s1 = (Inr journal, s2)"
      "jtrace (io_bind ?opening (\<lambda>journal. io_bind (?parse journal) (?leased journal))) s1 =
        jtrace ?opening s1 @ jtrace (io_bind (?parse journal) (?leased journal)) s2"
      "(''stack.finish'', params) \<in> set (new_calls (io_bind (?parse journal) (?leased journal)) s2)"
    by (rule bind_after [OF appends_intros(8) parse ordered(3)])
  obtain journal_id s3 where named: "?parse journal s2 = (Inr journal_id, s3)"
      "jtrace (io_bind (?parse journal) (?leased journal)) s2 = jtrace (?leased journal journal_id) s3"
      "(''stack.finish'', params) \<in> set (new_calls (?leased journal journal_id) s3)"
    by (rule bind_after_quiet [OF emits_of leased finish_is_journal opened(3)])
  have known: "s3 = s2" "json_get journal ''id'' = JStr journal_id"
    using named(1) by (auto simp: io_of_def ok_or_def json_as_str_def split: option.splits json.splits)
  let ?R = "\<lparr>run_journal = journal_id, run_stack = stack_id env\<rparr>"
  obtain s4 where confirmed: "heartbeat_start H ?R s3 = (Inr (), s4)" "agreed_at H opts pl (se_world s4)"
      "jtrace (?leased journal journal_id) s3 =
        jtrace (run_confirmed H ?R opts env digest mode purge pl (resume_step opts journal)) s4"
      "(''stack.finish'', params) \<in> set (new_calls (run_confirmed H ?R opts env digest mode purge pl (resume_step opts journal)) s4)"
      "?leased journal journal_id s3 = run_confirmed H ?R opts env digest mode purge pl (resume_step opts journal) s4"
    by (rule run_leased_calls [OF assms(1) named(3)])
  have final: "run_plan H opts env digest mode purge pl s =
      run_confirmed H ?R opts env digest mode purge pl (resume_step opts journal) s4"
    unfolding eq bind_runs [where m = ?order, OF ordered(1)] bind_runs [where m = ?opening, OF opened(1)]
      bind_runs [where m = "?parse journal", OF named(1)]
    by (rule confirmed(5))
  show ?thesis
  proof (rule run_confirmed_calls [OF assms(1) confirmed(4)])
    fix s5
    assume steps: "run_steps H ?R (effective_options opts mode purge) env pl (resume_step opts journal)
          (resume_step opts journal = None) (mode_steps mode) s4 = (Inr (), s5)"
        "unchanged_at H (op_config opts) digest (se_world s5)" "h_lease H (se_world s5) = None"
        "jtrace (run_confirmed H ?R opts env digest mode purge pl (resume_step opts journal)) s4 =
          concat (map (step_trace H ?R) (steps_from (resume_step opts journal) (mode_steps mode)))
          @ [(''stack.finish'', finish_params H ?R (final_resources mode purge (plan_desired pl)))]"
        "snd (run_confirmed H ?R opts env digest mode purge pl (resume_step opts journal) s4) =
          snd (rpc (h_exchange H) ''stack.finish'' (finish_params H ?R (final_resources mode purge (plan_desired pl))) s5)"
    have "jtrace (run_plan H opts env digest mode purge pl) s = [(''stack.begin'', begin_params H opts env digest)]
        @ concat (map (step_trace H ?R) (steps_from (resume_step opts journal) (mode_steps mode)))
        @ [(''stack.finish'', finish_params H ?R (final_resources mode purge (plan_desired pl)))]"
      using ordered(2) opened(2) named(2) confirmed(3) steps(4) by (simp add: journal_call_def)
    with opened(1) known confirmed(1,2) steps(1-3,5) show ?thesis
      unfolding committed_def final start known(1)
      by (intro exI [of _ journal] exI [of _ ?R] exI [of _ "resume_step opts journal"] exI [of _ s2] exI [of _ s4]
          exI [of _ s5]) (simp add: resume_step_cases)
  qed
qed


lemma quiet_adopt: "quiet_host H \<Longrightarrow> quiet (h_adopt H env desired actual)"
  by (simp add: quiet_host_def)

lemma appends_run_decided: "quiet_host H \<Longrightarrow> appends (run_decided H opts env desired digest actual mode purge)"
  unfolding run_decided_def
  by (simp add: appends_intros appends_quiet [OF quiet_net_list] appends_quiet [OF quiet_adopt] appends_run_plan)

lemma appends_run_inspect: "quiet_host H \<Longrightarrow> appends (run_inspect H opts env desired digest)"
  unfolding run_inspect_def by (intro appends_intros appends_run_decided)

text \<open>What is known before a run decides: the recorded resources the supervisor answers, the command and whether it
  purges (those of the interrupted run when resuming), and that the networks are ours.\<close>

definition inspected ::
    "('w, 'n) host \<Rightarrow> options \<Rightarrow> environment \<Rightarrow> 'w session \<Rightarrow> resource list \<Rightarrow> mode \<Rightarrow> bool \<Rightarrow> 'w session \<Rightarrow> bool" where
  "inspected H opts env s actual mode purge s' \<longleftrightarrow>
     (\<exists>state s1.
         rpc (h_exchange H) ''stack.inspect'' (json_obj [(''stack_id'', JStr (stack_id env))]) s = (Inr state, s1)
       \<and> h_resources H (json_get state ''resources'') = Inr actual
       \<and> (if op_resume opts then journal_context (h_plan H) state = Inr (mode, purge)
          else mode = op_mode opts \<and> purge = op_purge opts)
       \<and> (if mode \<noteq> ModeDown \<and> env_networks env \<noteq> []
          then \<exists>snapshot. net_list (h_exchange H) s1 = (Inr snapshot, s')
                 \<and> validate_network_ownership (h_net H) env snapshot = Inr ()
          else s' = s1))"

lemma run_decided_calls:
  assumes "quiet_host H"
    and "(''stack.finish'', params) \<in> set (new_calls (run_decided H opts env desired digest actual mode purge) s)"
  obtains s1 where "op_mode opts \<notin> {ModePlan, ModeDiff, ModeAdopt}"
    and "if mode \<noteq> ModeDown \<and> env_networks env \<noteq> []
         then \<exists>snapshot. net_list (h_exchange H) s = (Inr snapshot, s1)
                \<and> validate_network_ownership (h_net H) env snapshot = Inr ()
         else s1 = s"
    and "committed H opts env digest mode purge (build_plan (h_plan H) mode desired actual) s1
        (snd (run_decided H opts env desired digest actual mode purge s))
        (jtrace (run_decided H opts env desired digest actual mode purge) s)"
proof -
  let ?owned = "\<lambda>snapshot. io_of (validate_network_ownership (h_net H) env snapshot)"
  let ?gate = "if mode \<noteq> ModeDown \<and> env_networks env \<noteq> [] then io_bind (net_list (h_exchange H)) ?owned else io_ok ()"
  let ?rest = "if op_mode opts \<in> {ModePlan, ModeDiff} then
      io_ok (Planned (build_plan (h_plan H) mode desired actual))
    else if op_mode opts = ModeAdopt then io_bind (h_adopt H env desired actual) (\<lambda>report. io_ok (Adopted report))
    else run_plan H opts env digest mode purge (build_plan (h_plan H) mode desired actual)"
  have gate: "quiet ?gate" by (simp add: emits_ok emits_bind_any emits_of)
  have rest: "appends ?rest"
    by (simp add: appends_intros appends_quiet [OF quiet_adopt [OF assms(1)]] appends_run_plan [OF assms(1)])
  have eq: "run_decided H opts env desired digest actual mode purge = io_bind ?gate (\<lambda>_. ?rest)"
    unfolding run_decided_def io_then_def ..
  obtain u t where gated: "?gate s = (Inr u, t)"
      "jtrace (run_decided H opts env desired digest actual mode purge) s = jtrace ?rest t"
      "(''stack.finish'', params) \<in> set (new_calls ?rest t)"
    unfolding eq by (rule bind_after_quiet [OF gate rest finish_is_journal assms(2) [unfolded eq]])
  have adopt: "quiet (io_bind (h_adopt H env desired actual) (\<lambda>report. io_ok (Adopted report)))"
    by (intro emits_bind_any emits_ok quiet_adopt [OF assms(1)])
  have asked: "op_mode opts \<notin> {ModePlan, ModeDiff, ModeAdopt}"
    using gated(3) not_quiet_call [OF adopt finish_is_journal]
    by (auto simp: io_ok_def split: if_splits)
  have "if mode \<noteq> ModeDown \<and> env_networks env \<noteq> []
      then \<exists>snapshot. net_list (h_exchange H) s = (Inr snapshot, t)
        \<and> validate_network_ownership (h_net H) env snapshot = Inr ()
      else t = s"
    using gated(1) by (auto simp: io_bind_def io_of_def io_ok_def split: if_splits prod.splits sum.splits)
  moreover have "run_decided H opts env desired digest actual mode purge s =
      run_plan H opts env digest mode purge (build_plan (h_plan H) mode desired actual) t"
    unfolding eq bind_runs [where m = ?gate, OF gated(1)] using asked by simp
  ultimately show thesis
    using that [of t] asked gated(2,3) run_plan_calls [OF assms(1), of params opts env digest mode purge
      "build_plan (h_plan H) mode desired actual" t] by simp
qed

lemma run_inspect_calls:
  assumes "quiet_host H"
    and "(''stack.finish'', params) \<in> set (new_calls (run_inspect H opts env desired digest) s)"
  obtains actual mode purge s1 where "op_mode opts \<notin> {ModePlan, ModeDiff, ModeAdopt}"
    and "inspected H opts env s actual mode purge s1"
    and "committed H opts env digest mode purge (build_plan (h_plan H) mode desired actual) s1
        (snd (run_inspect H opts env desired digest s)) (jtrace (run_inspect H opts env desired digest) s)"
proof -
  let ?ask = "rpc (h_exchange H) ''stack.inspect'' (json_obj [(''stack_id'', JStr (stack_id env))])"
  let ?actual = "\<lambda>state. io_of (map_err (\<lambda>e. \<lparr>fail_code = EXIT_SUPERVISOR, fail_message = ''invalid stack state: '' @ e\<rparr>)
         (h_resources H (json_get state ''resources'')))"
  let ?chosen = "\<lambda>state. io_of (if op_resume opts then journal_context (h_plan H) state
         else Inr (op_mode opts, op_purge opts))"
  let ?decided = "\<lambda>actual chosen. run_decided H opts env desired digest actual (fst chosen) (snd chosen)"
  have decided: "appends (?decided actual chosen)" for actual chosen
    by (rule appends_run_decided [OF assms(1)])
  have decide: "appends (io_bind (?chosen state) (?decided actual))" for state actual
    by (intro appends_intros decided)
  have known: "appends (io_bind (?actual state) (\<lambda>actual. io_bind (?chosen state) (?decided actual)))" for state
    by (intro appends_intros decided)
  have eq: "run_inspect H opts env desired digest =
      io_bind ?ask (\<lambda>state. io_bind (?actual state) (\<lambda>actual. io_bind (?chosen state) (?decided actual)))"
    by (simp only: run_inspect_def)
  have ask: "quiet ?ask" by (rule quiet_rpc) simp
  obtain state s1 where inspected: "?ask s = (Inr state, s1)" "jtrace (run_inspect H opts env desired digest) s =
        jtrace (io_bind (?actual state) (\<lambda>actual. io_bind (?chosen state) (?decided actual))) s1"
      "(''stack.finish'', params) \<in>
        set (new_calls (io_bind (?actual state) (\<lambda>actual. io_bind (?chosen state) (?decided actual))) s1)"
    unfolding eq by (rule bind_after_quiet [OF ask known finish_is_journal assms(2) [unfolded eq]])
  obtain actual s2 where recorded: "?actual state s1 = (Inr actual, s2)"
      "jtrace (io_bind (?actual state) (\<lambda>actual. io_bind (?chosen state) (?decided actual))) s1 =
        jtrace (io_bind (?chosen state) (?decided actual)) s2"
      "(''stack.finish'', params) \<in> set (new_calls (io_bind (?chosen state) (?decided actual)) s2)"
    by (rule bind_after_quiet [OF emits_of decide finish_is_journal inspected(3)])
  obtain ctx s3 where ctx: "?chosen state s2 = (Inr ctx, s3)"
      "jtrace (io_bind (?chosen state) (?decided actual)) s2 = jtrace (?decided actual ctx) s3"
      "(''stack.finish'', params) \<in> set (new_calls (?decided actual ctx) s3)"
    by (rule bind_after_quiet [OF emits_of decided finish_is_journal recorded(3)])
  have same: "s3 = s1" "h_resources H (json_get state ''resources'') = Inr actual"
    using recorded(1) ctx(1) by (auto simp: io_of_def map_err_def split: sum.splits)
  have chosen: "if op_resume opts then journal_context (h_plan H) state = Inr (fst ctx, snd ctx)
      else fst ctx = op_mode opts \<and> snd ctx = op_purge opts"
    using ctx(1) by (auto simp: io_of_def split: if_splits)
  have final: "run_inspect H opts env desired digest s = ?decided actual ctx s3"
    unfolding eq bind_runs [where m = ?ask, OF inspected(1)] bind_runs [where m = "?actual state", OF recorded(1)]
    by (rule bind_runs [where m = "?chosen state", OF ctx(1)])
  show thesis
  proof (rule run_decided_calls [OF assms(1) ctx(3)])
    fix s4
    assume "op_mode opts \<notin> {ModePlan, ModeDiff, ModeAdopt}"
      "if fst ctx \<noteq> ModeDown \<and> env_networks env \<noteq> []
       then \<exists>snapshot. net_list (h_exchange H) s3 = (Inr snapshot, s4)
          \<and> validate_network_ownership (h_net H) env snapshot = Inr ()
       else s4 = s3"
      "committed H opts env digest (fst ctx) (snd ctx) (build_plan (h_plan H) (fst ctx) desired actual) s4
        (snd (?decided actual ctx s3)) (jtrace (?decided actual ctx) s3)"
    moreover from this(2) have "inspected H opts env s actual (fst ctx) (snd ctx) s4"
      using inspected(1) same chosen unfolding inspected_def by blast
    ultimately show thesis
      using that [of actual "fst ctx" "snd ctx" s4] final inspected(2) recorded(2) ctx(2) by simp
  qed
qed

text \<open>Resuming at a step of the command is running that step and the later ones; resuming at a step the command does
  not have runs nothing, and the run goes on to commit.\<close>

lemma mode_steps_distinct: "distinct (mode_steps mode)"
  by (simp add: mode_steps_def APPLY_STEPS_def DOWN_STEPS_def)

lemma steps_from_split:
  assumes "mode_steps mode = ended @ step # later"
  shows "steps_from (Some step) (mode_steps mode) = step # later"
proof -
  have "step \<notin> set ended" using mode_steps_distinct [of mode] by (auto simp: assms)
  then have "dropWhile (\<lambda>x. x \<noteq> step) (ended @ step # later) = step # later"
    by (induction ended) auto
  then show ?thesis by (simp add: steps_from_def assms)
qed

lemma resume_at_unknown_step:
  assumes "step \<notin> set (mode_steps mode)"
  shows "run_steps H R opts env pl (Some step) False (mode_steps mode) s = (Inr (), s)"
proof -
  have "steps_from (Some step) (mode_steps mode) = []"
    using assms by (auto simp: steps_from_def)
  then show ?thesis by (simp add: run_steps_from io_ok_def io_of_def)
qed

section \<open>A host for the witnesses\<close>

text \<open>It loads the sample environment, knows no recorded resource and accepts every call.\<close>

definition sample_exchange :: "unit exchange" where
  "sample_exchange request w =
     (Inr (JObj [(''result'',
        if json_get request ''method'' = JStr ''stack.begin'' then JObj [(''id'', JStr ''j1'')] else JObj [])]), w)"

definition sample_host :: "(unit, ipv4 \<times> nat) host" where
  "sample_host = \<lparr>h_exchange = sample_exchange, h_net = cidr_lib, h_files = (\<lambda>_. sample_fs),
     h_read = (\<lambda>path w. Inr ''...''), h_config = sample_cfg, h_manifests = (\<lambda>_. sample_lib), h_plan = sample_plan_lib,
     h_resources = (\<lambda>_. Inr []), h_resource_value = (\<lambda>r. JStr (res_name r)), h_inputs = (\<lambda>env w. Inr []),
     h_hash = (\<lambda>env resources. ''00''), h_holder = ''localhost:1'', h_lease = (\<lambda>w. None), h_terminal = (\<lambda>w. False),
     h_answer = (\<lambda>w. Inr []), h_adopt = (\<lambda>env desired actual. io_ok JNull),
     h_step = (\<lambda>op opts env pl. io_ok ())\<rparr>"

definition sample_options :: options where
  "sample_options = \<lparr>op_mode = ModeDown, op_config = ''demo'', op_force = True, op_resume = False, op_abort = False,
     op_purge = False\<rparr>"

lemma sample_host_quiet: "quiet_host sample_host"
  by (simp add: quiet_host_def sample_host_def emits_ok)

section \<open>Properties\<close>

text \<open>What a run of the steps leaves in the journal. The steps are those from the step the run resumes at. If it
  returns, every one of them has been marked as running and then as completed, in order; if it fails, all
  steps before the one that broke have, and that one has not been passed.\<close>

lemma run_steps_journal:
  assumes "quiet_host H"
  shows "case fst (run_steps H R opts env pl resume (resume = None) steps s) of
      Inr _ \<Rightarrow> jtrace (run_steps H R opts env pl resume (resume = None) steps) s
          = concat (map (step_trace H R) (steps_from resume steps))
    | Inl _ \<Rightarrow> \<exists>ended step later rest. steps_from resume steps = ended @ step # later
        \<and> jtrace (run_steps H R opts env pl resume (resume = None) steps) s
            = concat (map (step_trace H R) ended) @ rest
        \<and> broken_trace H R step rest"
  using run_steps_outcome [OF assms] unfolding steps_outcome_def .

lemma run_steps_journal_witness:
  "case fst (run_steps sample_host \<lparr>run_journal = ''j1'', run_stack = ''demo:demo''\<rparr> sample_options sample_env
      \<lparr>plan_actions = [], plan_desired = []\<rparr> (Some ''purge_ports'') False DOWN_STEPS fresh_session) of
      Inr _ \<Rightarrow> jtrace (run_steps sample_host \<lparr>run_journal = ''j1'', run_stack = ''demo:demo''\<rparr> sample_options sample_env
        \<lparr>plan_actions = [], plan_desired = []\<rparr> (Some ''purge_ports'') False DOWN_STEPS) fresh_session
          = concat (map (step_trace sample_host \<lparr>run_journal = ''j1'', run_stack = ''demo:demo''\<rparr>)
              [''purge_ports'', ''dns_cleanup'', ''release_lease''])
    | Inl _ \<Rightarrow> True"
  using run_steps_journal [OF sample_host_quiet, where R = "\<lparr>run_journal = ''j1'', run_stack = ''demo:demo''\<rparr>"
      and opts = sample_options and env = sample_env and pl = "\<lparr>plan_actions = [], plan_desired = []\<rparr>"
      and resume = "Some ''purge_ports''" and steps = DOWN_STEPS and s = fresh_session]
  by (simp add: steps_from_def DOWN_STEPS_def split: sum.splits)


text \<open>C6: a state is committed only after all the work. Whenever a run calls \<open>stack.finish\<close>, it went through these
  sessions, each the result of the step before: the supervisor answered what is recorded (and, when resuming, the command
  of the interrupted run), the networks were ours, \<open>stack.begin\<close> was accepted with the hash of the desired state, the
  lease was taken, breaking changes were forced or a terminal answered yes at that point, every step from the one the run
  resumes at (the one the accepted journal names; all of them in a fresh run) succeeded, and then, in the session in
  which \<open>stack.finish\<close> is called, the configuration read again still had the hash of the beginning and the lease had not
  failed. The journal is exactly: the beginning, those steps marked as running and as completed in the order of the
  command, and the commit of the desired resources, which is the last thing the run does. \<open>plan\<close>, \<open>diff\<close> and \<open>adopt\<close>
  never commit.\<close>

theorem finish_after_all_steps:
  assumes "quiet_host H" and "(''stack.finish'', params) \<in> set (new_calls (run H opts) s)"
  shows "\<exists>env desired digest actual mode purge s1.
      load_config H (op_config opts) (se_world s) = Inr env
    \<and> desired_state H env (se_world s) = Inr (desired, digest)
    \<and> \<not> op_abort opts \<and> op_mode opts \<notin> {ModePlan, ModeDiff, ModeAdopt}
    \<and> inspected H opts env s actual mode purge s1
    \<and> committed H opts env digest mode purge (build_plan (h_plan H) mode desired actual) s1
        (snd (run H opts s)) (jtrace (run H opts) s)"
proof -
  let ?abort = "\<lambda>env. io_bind (rpc (h_exchange H) ''stack.abort'' (abort_params H env)) (\<lambda>journal. io_ok (Aborted journal))"
  let ?inspect = "\<lambda>env state. run_inspect H opts env (fst state) (snd state)"
  let ?k = "\<lambda>env. if op_abort opts then ?abort env else io_bind (io_read (desired_state H env)) (?inspect env)"
  let ?load = "io_read (load_config H (op_config opts))"
  have inspect: "appends (?inspect env state)" for env state
    by (rule appends_run_inspect [OF assms(1)])
  have k: "appends (?k env)" for env
    by (simp add: appends_intros inspect)
  have eq: "run H opts = io_bind ?load ?k"
    by (simp only: run_def)
  obtain env s1 where loaded: "?load s = (Inr env, s1)"
      "jtrace (run H opts) s = jtrace (?k env) s1" "(''stack.finish'', params) \<in> set (new_calls (?k env) s1)"
    unfolding eq by (rule bind_after_quiet [OF emits_read k finish_is_journal assms(2) [unfolded eq]])
  have "emits (\<lambda>c. fst c = ''stack.abort'') (?abort env)"
    by (intro emits_bind_any emits_rpc emits_ok) simp
  then have "(''stack.finish'', params) \<notin> set (new_calls (?abort env) s1)"
    using emits_new_calls by fastforce
  with loaded(3) have not_abort: "\<not> op_abort opts" by auto
  with loaded(3) have call: "(''stack.finish'', params) \<in>
      set (new_calls (io_bind (io_read (desired_state H env)) (?inspect env)) s1)" by simp
  obtain state s2 where wanted: "io_read (desired_state H env) s1 = (Inr state, s2)"
      "jtrace (io_bind (io_read (desired_state H env)) (?inspect env)) s1 = jtrace (?inspect env state) s2"
      "(''stack.finish'', params) \<in> set (new_calls (?inspect env state) s2)"
    by (rule bind_after_quiet [OF emits_read inspect finish_is_journal call])
  have same: "s1 = s" "s2 = s" using loaded(1) wanted(1) by simp_all
  have final: "run H opts s = ?inspect env state s"
    unfolding eq bind_runs [where m = ?load, OF loaded(1)] using not_abort
      bind_runs [where m = "io_read (desired_state H env)", OF wanted(1)] by (simp add: same)
  show ?thesis
    by (rule run_inspect_calls [OF assms(1) wanted(3) [unfolded same]])
      (use loaded wanted(1,2) not_abort final in \<open>cases state; auto simp: same; blast\<close>)
qed

lemma sample_load: "load_config sample_host ''demo'' () = Inr sample_env"
proof -
  have "validate_references cidr_lib sample_fs sample_lib (Some ''demo'') sample_env = []"
    by (simp add: exec_simps Let_def word_le_nat_alt cong: emit_cong)
  moreover have "path_parent (config_path sample_fs ''demo'') = Some ''demo''"
    by (simp add: exec_simps config_path_def path_parent_def path_join_def)
  ultimately show ?thesis
    by (simp add: load_config_def validate_path_def sample_host_def validate_source_with_base_def sample_cfg_def)
qed

text \<open>A \<open>down\<close> on this host runs through and commits.\<close>

lemma sample_state:
  "desired_state sample_host sample_env () =
     Inr (append_input_resources sample_env [] (desired_resources sample_plan_lib sample_env), ''00'')"
  by (simp add: desired_state_def sample_host_def)

lemmas sample_host_simps =
  sample_host_def [THEN arg_cong [where f = h_exchange], simplified]
  sample_host_def [THEN arg_cong [where f = h_resources], simplified]
  sample_host_def [THEN arg_cong [where f = h_lease], simplified]
  sample_host_def [THEN arg_cong [where f = h_step], simplified]
  sample_host_def [THEN arg_cong [where f = h_terminal], simplified]

lemma sample_run_commits:
  "\<exists>params. (''stack.finish'', params) \<in> set (new_calls (run sample_host sample_options) fresh_session)"
  by (simp add: run_def run_inspect_def run_decided_def run_plan_def run_leased_def run_confirmed_def finish_run_def
      io_bind_def io_then_def io_of_def io_ok_def io_try_def io_unit_def rpc_def rpc_response_def rpc_request_def
      json_obj_def bm_of_list_def json_get_def json_as_str_def json_find_def sample_exchange_def sample_host_simps sample_load
      sample_state sample_options_def effective_options_def resume_step_def mode_steps_def DOWN_STEPS_def
      execute_step_def execute_marked_def run_step_def step_mark_def checkpoint_def lease_check_def heartbeat_start_def
      purge_dns_records_def purge_ports_def fresh_session_def new_calls_def Let_def)

lemma finish_after_all_steps_witness:
  "\<exists>pl s1. committed sample_host sample_options sample_env ''00'' ModeDown False pl s1
     (snd (run sample_host sample_options fresh_session)) (jtrace (run sample_host sample_options) fresh_session)"
proof -
  obtain params where "(''stack.finish'', params) \<in> set (new_calls (run sample_host sample_options) fresh_session)"
    using sample_run_commits by blast
  from finish_after_all_steps [OF sample_host_quiet this] obtain env desired digest actual mode purge s1 where
    run: "load_config sample_host (op_config sample_options) (se_world fresh_session) = Inr env"
      "desired_state sample_host env (se_world fresh_session) = Inr (desired, digest)"
      "inspected sample_host sample_options env fresh_session actual mode purge s1"
      "committed sample_host sample_options env digest mode purge (build_plan (h_plan sample_host) mode desired actual) s1
        (snd (run sample_host sample_options fresh_session)) (jtrace (run sample_host sample_options) fresh_session)" by blast
  have "env = sample_env" "digest = ''00''" "mode = ModeDown" "\<not> purge"
    using run(1-3) by (auto simp: inspected_def sample_options_def fresh_session_def sample_load sample_state)
  with run(4) show ?thesis by auto
qed

definition heartbeat_call :: "('w, 'n) host \<Rightarrow> run_id \<Rightarrow> call" where
  "heartbeat_call H R =
     (''stack.heartbeat'',
      json_obj [(''id'', JStr (run_journal R)), (''stack_id'', JStr (run_stack R)), (''holder'', JStr (h_holder H))])"

lemma rpc_calls: "se_calls (snd (rpc X method params s)) = se_calls s @ [(method, params)]"
  by (simp add: rpc_def Let_def split_beta)

lemma snd_unit: "snd (io_unit m s) = snd (m s)"
  by (simp add: io_unit_def io_bind_def io_ok_def io_of_def split: prod.split sum.split)

lemma heartbeat_calls: "se_calls (snd (heartbeat_start H R s)) = se_calls s @ [heartbeat_call H R]"
  unfolding heartbeat_start_def heartbeat_call_def snd_unit by (rule rpc_calls)

lemma confirm_breaking_cases:
  "(\<exists>e. confirm_breaking H w = Inl e) \<longleftrightarrow> h_terminal H w \<and> \<not> is_ok (h_answer H w)"
  by (auto simp: confirm_breaking_def map_err_def is_ok_iff split: sum.splits)

lemma declined_leased:
  assumes "list_ex act_breaking (plan_actions pl)" and "\<not> op_force opts" and "\<And>w. confirm_breaking H w \<noteq> Inr True"
  shows "run_leased H R opts env digest mode purge pl resume s =
    (case heartbeat_start H R s of
       (Inl e, s1) \<Rightarrow> (Inl e, s1)
     | (Inr _, s1) \<Rightarrow>
         (case confirm_breaking H (se_world s1) of
            Inl e \<Rightarrow> (Inl e, s1)
          | Inr _ \<Rightarrow> (Inl (invalid ''breaking changes require confirmation or --force''),
              snd (rpc (h_exchange H) ''stack.abort'' (abort_params H env) s1))))"
proof -
  have "\<not> confirmed" if "confirm_breaking H w = Inr confirmed" for w confirmed
    using that assms(3) by (cases confirmed) auto
  then show ?thesis
    using assms(1,2)
    by (auto simp: run_leased_def io_then_def io_bind_def io_try_def io_of_def split: prod.split sum.split)
qed

text \<open>C27: a plan with breaking changes that nobody forces or confirms changes nothing. The run fails, and what it has
  called is exactly: nothing when the order of the VMs fails; else \<open>stack.begin\<close>; then, if that was accepted with the
  id of a journal, one heartbeat; then, if that was accepted, \<open>stack.abort\<close>, which closes the journal that was begun.
  Only where there is a terminal whose answer cannot be read does it fail without the abort; where nobody can be asked
  (no terminal) it always aborts.\<close>

theorem unconfirmed_breaking_changes_nothing:
  assumes "list_ex act_breaking (plan_actions pl)" and "\<not> op_force opts"
    and "\<And>w. h_terminal H w \<Longrightarrow> confirm_breaking H w \<noteq> Inr True"
  shows "\<not> is_ok (fst (run_plan H opts env digest mode purge pl s))
    \<and> new_calls (run_plan H opts env digest mode purge pl) s =
        (if mode \<noteq> ModeDown \<and> \<not> is_ok (dependency_order (env_vms env)) then []
         else (''stack.begin'', begin_params H opts env digest) #
           (case rpc (h_exchange H) ''stack.begin'' (begin_params H opts env digest) s of
              (Inr journal, s1) \<Rightarrow>
                (case json_get journal ''id'' of
                   JStr journal_id \<Rightarrow>
                     let R = \<lparr>run_journal = journal_id, run_stack = stack_id env\<rparr> in
                     heartbeat_call H R #
                     (case heartbeat_start H R s1 of
                        (Inr _, s2) \<Rightarrow>
                          if h_terminal H (se_world s2) \<and> \<not> is_ok (h_answer H (se_world s2)) then []
                          else [(''stack.abort'', abort_params H env)]
                      | (Inl _, _) \<Rightarrow> [])
                 | _ \<Rightarrow> [])
            | (Inl _, _) \<Rightarrow> []))"
proof -
  have declined: "confirm_breaking H w \<noteq> Inr True" for w
    using assms(3) by (cases "h_terminal H w") (auto simp: confirm_breaking_def)
  note leased = declined_leased [OF assms(1,2) declined]
  let ?start = "rpc (h_exchange H) ''stack.begin'' (begin_params H opts env digest) s"
  obtain opened s1 where start: "?start = (opened, s1)" by fastforce
  have calls1: "se_calls s1 = se_calls s @ [(''stack.begin'', begin_params H opts env digest)]"
    using rpc_calls [of "h_exchange H" "''stack.begin''" "begin_params H opts env digest" s] start by simp
  show ?thesis
  proof (cases "mode \<noteq> ModeDown \<and> \<not> is_ok (dependency_order (env_vms env))")
    case True
    then show ?thesis
      by (cases "dependency_order (env_vms env)")
        (simp_all add: run_plan_def io_bind_def io_of_def map_err_def new_calls_def is_ok_def)
  next
    case False
    then have run: "run_plan H opts env digest mode purge pl s = (case ?start of
        (Inl e, s1) \<Rightarrow> (Inl e, s1)
      | (Inr journal, s1) \<Rightarrow> (case json_get journal ''id'' of
          JStr journal_id \<Rightarrow> run_leased H \<lparr>run_journal = journal_id, run_stack = stack_id env\<rparr> opts env digest mode purge pl
            (resume_step opts journal) s1
        | _ \<Rightarrow> (Inl \<lparr>fail_code = EXIT_SUPERVISOR, fail_message = ''invalid stack.begin response''\<rparr>, s1)))"
      by (auto simp: run_plan_def io_bind_def io_of_def map_err_def ok_or_def json_as_str_def is_ok_iff
          split: prod.split sum.split json.split)
    show ?thesis
    proof (cases "\<exists>journal journal_id. opened = Inr journal \<and> json_get journal ''id'' = JStr journal_id")
      case False
      with \<open>\<not> (mode \<noteq> ModeDown \<and> \<not> is_ok (dependency_order (env_vms env)))\<close> show ?thesis
        using run start calls1 by (auto simp: new_calls_def is_ok_def split: sum.splits json.splits)
    next
      case True
      then obtain journal journal_id where named: "opened = Inr journal" "json_get journal ''id'' = JStr journal_id" by blast
      let ?R = "\<lparr>run_journal = journal_id, run_stack = stack_id env\<rparr>"
      obtain beat s2 where beat: "heartbeat_start H ?R s1 = (beat, s2)" by fastforce
      have calls2: "se_calls s2 = se_calls s1 @ [heartbeat_call H ?R]"
        using heartbeat_calls [of H ?R s1] beat by simp
      have calls3: "se_calls (snd (rpc (h_exchange H) ''stack.abort'' (abort_params H env) s2))
          = se_calls s2 @ [(''stack.abort'', abort_params H env)]" by (rule rpc_calls)
      show ?thesis
        using run start named leased beat calls1 calls2 calls3 False confirm_breaking_cases [of H "se_world s2"]
        by (auto simp: new_calls_def is_ok_def Let_def split: sum.splits)
    qed
  qed
qed

lemma unconfirmed_breaking_changes_nothing_witness:
  "map fst (new_calls (run_plan sample_host (sample_options\<lparr>op_force := False\<rparr>) sample_env ''00'' ModeDown False
     \<lparr>plan_actions = [plan_absent (sample_res ''network'' ''old'' ''10.0.0.0/24'' ''active'')], plan_desired = []\<rparr>)
     fresh_session) = [''stack.begin'', ''stack.heartbeat'', ''stack.abort'']"
proof -
  let ?pl = "\<lparr>plan_actions = [plan_absent (sample_res ''network'' ''old'' ''10.0.0.0/24'' ''active'')], plan_desired = []\<rparr>"
  have breaking: "list_ex act_breaking (plan_actions ?pl)" and unforced: "\<not> op_force (sample_options\<lparr>op_force := False\<rparr>)"
    by (simp_all add: plan_absent_def action_for_def sample_res_def retained_kinds_def)
  have declined: "\<And>w. h_terminal sample_host w \<Longrightarrow> confirm_breaking sample_host w \<noteq> Inr True"
    by (simp add: sample_host_def)
  have "new_calls (run_plan sample_host (sample_options\<lparr>op_force := False\<rparr>) sample_env ''00'' ModeDown False ?pl) fresh_session
      = [(''stack.begin'', begin_params sample_host (sample_options\<lparr>op_force := False\<rparr>) sample_env ''00''),
         heartbeat_call sample_host \<lparr>run_journal = ''j1'', run_stack = stack_id sample_env\<rparr>,
         (''stack.abort'', abort_params sample_host sample_env)]"
    by (subst conjunct2 [OF unconfirmed_breaking_changes_nothing [OF breaking unforced declined]])
      (simp_all add: sample_host_simps sample_exchange_def rpc_def rpc_request_def
      rpc_response_def json_obj_def bm_of_list_def json_get_def json_find_def Let_def heartbeat_start_def
        io_unit_def io_bind_def io_ok_def io_of_def)
  then show ?thesis by (simp add: heartbeat_call_def)
qed

end
