(* ===== verification/Dns.thy ===== *)
theory Dns
  imports Plan
begin

text \<open>
  The DNS client of \<open>dns.rs\<close>: checking and normalising a queried name, building the query, and decoding
  the response with its compressed names; and the reverse zones of a CIDR.

  A packet is a list of bytes (\<open>8 word\<close>), \<open>u16\<close> and \<open>u32\<close> fields are words, big endian. Offsets are
  \<open>usize\<close>; a packet has at most 65535 bytes, so they do not wrap and are natural numbers. Slicing out of range
  is \<open>None\<close> in the code and a branch here. \<open>from_utf8\<close> is \<open>valid_utf8\<close>, \<open>Ipv6Addr\<close>'s \<open>Display\<close> is
  \<open>show_ipv6\<close>. The name decoder is a loop with jumps; its bound on jumps makes it terminate.

  The lemmas: names are decoded wherever they are encoded (\<open>decode_labels\<close>), decoding moves forward and
  stays in the packet (\<open>decode_loop_bounds\<close>).
\<close>

unbundle bit_operations_syntax

section \<open>Bytes\<close>

type_synonym u8 = "8 word"
type_synonym packet = "u8 list"

definition EXIT_DNS_QUERY :: nat where "EXIT_DNS_QUERY = 20"
definition DNS_HEADER_LENGTH :: nat where "DNS_HEADER_LENGTH = 12"

definition protocol_failure :: "string \<Rightarrow> string \<Rightarrow> failure" where
  "protocol_failure server message =
     \<lparr>fail_code = EXIT_DNS_QUERY, fail_message = ''invalid DNS response from '' @ server @ '': '' @ message\<rparr>"

definition str_bytes :: "string \<Rightarrow> packet" where
  "str_bytes s = map (\<lambda>c. of_nat (byte c)) s"

definition bytes_str :: "packet \<Rightarrow> string" where
  "bytes_str bs = map (\<lambda>b. char_of (unat b)) bs"

definition u16_bytes :: "u16 \<Rightarrow> packet" where
  "u16_bytes v = [of_nat (unat v div 256), of_nat (unat v mod 256)]"

definition append_u16 :: "packet \<Rightarrow> u16 \<Rightarrow> packet" where
  "append_u16 packet v = packet @ u16_bytes v"

definition read_u16 :: "packet \<Rightarrow> nat \<Rightarrow> u16 option" where
  "read_u16 packet offset =
     (if offset + 2 \<le> length packet
      then Some (of_nat (unat (packet ! offset) * 256 + unat (packet ! (offset + 1)))) else None)"

definition read_u32 :: "packet \<Rightarrow> nat \<Rightarrow> u32 option" where
  "read_u32 packet offset =
     (if offset + 4 \<le> length packet
      then Some (of_nat (((unat (packet ! offset) * 256 + unat (packet ! (offset + 1))) * 256
             + unat (packet ! (offset + 2))) * 256 + unat (packet ! (offset + 3)))) else None)"

text \<open>\<open>packet.get(start..end)\<close>\<close>

definition byte_range :: "packet \<Rightarrow> nat \<Rightarrow> nat \<Rightarrow> packet option" where
  "byte_range packet start count =
     (if start + count \<le> length packet then Some (take count (drop start packet)) else None)"

definition checked_advance :: "packet \<Rightarrow> nat \<Rightarrow> nat \<Rightarrow> string \<Rightarrow> (nat, failure) result" where
  "checked_advance packet offset count server =
     (if offset + count \<le> length packet then Inr (offset + count)
      else Inl (protocol_failure server ''truncated DNS response''))"

text \<open>\<open>std::str::from_utf8\<close> on the values of the bytes: no overlong form, no surrogate, nothing above U+10FFFF.\<close>

fun valid_utf8 :: "nat list \<Rightarrow> bool" where
  "valid_utf8 [] \<longleftrightarrow> True"
| "valid_utf8 (a # as) \<longleftrightarrow>
     (if a < 128 then valid_utf8 as
      else case as of
        [] \<Rightarrow> False
      | b # bs \<Rightarrow>
          if 194 \<le> a \<and> a \<le> 223 then b div 64 = 2 \<and> valid_utf8 bs
          else case bs of
            [] \<Rightarrow> False
          | c # cs \<Rightarrow>
              if 224 \<le> a \<and> a \<le> 239 then
                b div 64 = 2 \<and> c div 64 = 2 \<and> (a = 224 \<longrightarrow> 160 \<le> b) \<and> (a = 237 \<longrightarrow> b < 160) \<and> valid_utf8 cs
              else case cs of
                [] \<Rightarrow> False
              | d # ds \<Rightarrow>
                  240 \<le> a \<and> a \<le> 244 \<and> b div 64 = 2 \<and> c div 64 = 2 \<and> d div 64 = 2
                  \<and> (a = 240 \<longrightarrow> 144 \<le> b) \<and> (a = 244 \<longrightarrow> b < 144) \<and> valid_utf8 ds)"

section \<open>Queries\<close>

datatype query_type = QueryA | QueryAaaa | QueryPtr

definition query_code :: "query_type \<Rightarrow> u16" where
  "query_code q = (case q of QueryA \<Rightarrow> 1 | QueryAaaa \<Rightarrow> 28 | QueryPtr \<Rightarrow> 12)"

definition valid_query_label :: "string \<Rightarrow> bool" where
  "valid_query_label label \<longleftrightarrow>
     label \<noteq> [] \<and> length label \<le> 63
     \<and> list_all (\<lambda>c. is_ascii_alphanumeric c \<or> c = CHR ''-'' \<or> c = CHR ''_'') label"

definition validate_query_name :: "string \<Rightarrow> (string, failure) result" where
  "validate_query_name name =
     (let canonical = to_ascii_lowercase (trim_end_matches [CHR ''.''] name)
      in if canonical \<noteq> [] \<and> length canonical \<le> 253 \<and> list_all valid_query_label (split_on CHR ''.'' canonical)
         then Inr canonical
         else Inl \<lparr>fail_code = EXIT_INVALID,
           fail_message = ''DNS name must contain non-empty ASCII labels of at most 63 characters''\<rparr>)"

definition label_bytes :: "string \<Rightarrow> packet" where
  "label_bytes label = of_nat (length label) # str_bytes label"

definition build_query :: "u16 \<Rightarrow> string \<Rightarrow> query_type \<Rightarrow> packet" where
  "build_query transaction_id name query_type =
     (let packet = append_u16 (append_u16 (append_u16 (append_u16 (append_u16 (append_u16 [] transaction_id)
            0x0100) 1) 0) 0) 0;
          packet = packet @ concat (map label_bytes (split_on CHR ''.'' name)) @ [0]
      in append_u16 (append_u16 packet (query_code query_type)) 1)"

section \<open>Names\<close>

text \<open>The loop of \<open>decode_name\<close>: the cursor, the offset after the name as far as it is known, whether a pointer has
  been followed and how many, the labels so far.\<close>

function decode_loop ::
    "packet \<Rightarrow> nat \<Rightarrow> nat \<Rightarrow> bool \<Rightarrow> nat \<Rightarrow> string list \<Rightarrow> (string \<times> nat, failure) result" where
  "decode_loop packet cursor offset jumped jumps labels =
     (if length packet \<le> cursor then Inl (protocol_failure ''DNS response'' ''truncated name'')
      else
        let len = packet ! cursor
        in if len = 0 then Inr (join ''.'' labels, if jumped then offset else cursor + 1)
           else if len AND 0xC0 = 0xC0 then
             (if length packet \<le> cursor + 1 then Inl (protocol_failure ''DNS response'' ''truncated name pointer'')
              else if length packet < jumps + 1 then Inl (protocol_failure ''DNS response'' ''name pointer loop'')
              else decode_loop packet (push_bit 8 (unat (len AND 0x3F)) OR unat (packet ! (cursor + 1)))
                     (if jumped then offset else cursor + 2) True (jumps + 1) labels)
           else if len AND 0xC0 \<noteq> 0 \<or> 63 < len then Inl (protocol_failure ''DNS response'' ''invalid name label'')
           else
             (case byte_range packet (cursor + 1) (unat len) of
                None \<Rightarrow> Inl (protocol_failure ''DNS response'' ''invalid name label data'')
              | Some bytes \<Rightarrow>
                  if valid_utf8 (map unat bytes) then
                    (let cursor' = cursor + 1 + unat len
                     in decode_loop packet cursor' (if jumped then offset else cursor') jumped jumps
                          (labels @ [bytes_str bytes]))
                  else Inl (protocol_failure ''DNS response'' ''invalid name label data'')))"
  by pat_completeness auto
termination
proof (relation "measures [\<lambda>(packet, cursor, offset, jumped, jumps, labels). length packet - jumps,
    \<lambda>(packet, cursor, offset, jumped, jumps, labels). length packet - cursor]", goal_cases)
  case 1
  then show ?case by simp
next
  case (2 packet cursor offset jumped jumps labels len)
  then have "length packet - Suc jumps < length packet - jumps" by simp
  then show ?case by simp
next
  case (3 packet cursor offset jumped jumps labels len bytes cursor')
  then show ?case by (simp add: byte_range_def split: if_splits)
qed

declare decode_loop.simps [simp del]

definition decode_name :: "packet \<Rightarrow> nat \<Rightarrow> (string \<times> nat, failure) result" where
  "decode_name packet offset = decode_loop packet offset offset False 0 []"

section \<open>Record data\<close>

text \<open>\<open>{:x}\<close> and \<open>{:02x}\<close>\<close>

fun show_hex :: "nat \<Rightarrow> string" where
  "show_hex n = (if n < 16 then [hex_digit n] else show_hex (n div 16) @ [hex_digit (n mod 16)])"

declare show_hex.simps [simp del]

definition byte_hex :: "u8 \<Rightarrow> string" where
  "byte_hex b = [hex_digit (unat b div 16), hex_digit (unat b mod 16)]"

text \<open>The first longest run of zero segments, as start and length.\<close>

definition zero_span :: "nat list \<Rightarrow> nat \<times> nat" where
  "zero_span segments =
     fst (foldl (\<lambda>(longest, current) (i, segment).
         if segment = 0 then
           let current' = (if snd current = 0 then i else fst current, snd current + 1)
           in (if snd longest < snd current' then current' else longest, current')
         else (longest, (0, 0)))
       ((0, 0), (0, 0)) (enumerate 0 segments))"

definition segments_text :: "nat list \<Rightarrow> string" where
  "segments_text segments = join '':'' (map show_hex segments)"

definition show_ipv6 :: "packet \<Rightarrow> string" where
  "show_ipv6 octets =
     (let segments = map (\<lambda>i. unat (octets ! (2 * i)) * 256 + unat (octets ! (2 * i + 1))) [0..<8]
      in if take 6 segments = [0, 0, 0, 0, 0, 0xFFFF] then
           ''::ffff:'' @ join ''.'' (map (\<lambda>i. show_nat (unat (octets ! i))) [12..<16])
         else
           let (start, count) = zero_span segments
           in if 1 < count then segments_text (take start segments) @ ''::'' @ segments_text (drop (start + count) segments)
              else segments_text segments)"

text \<open>The data of a record whose data is not a name.\<close>

definition record_text :: "u16 \<Rightarrow> packet \<Rightarrow> string" where
  "record_text record_type bytes =
     (if record_type = 1 \<and> length bytes = 4 then join ''.'' (map (\<lambda>b. show_nat (unat b)) bytes)
      else if record_type = 28 \<and> length bytes = 16 then show_ipv6 bytes
      else concat (map byte_hex bytes))"

definition decode_record_data :: "packet \<Rightarrow> nat \<Rightarrow> nat \<Rightarrow> u16 \<Rightarrow> string \<Rightarrow> (string, failure) result" where
  "decode_record_data packet offset count record_type server =
     and_then (ok_or (protocol_failure server ''truncated answer data'') (byte_range packet offset count)) (\<lambda>bytes.
       if record_type \<in> {2, 5, 12} then and_then (decode_name packet offset) (\<lambda>(name, _). Inr name)
       else Inr (record_text record_type bytes))"

definition record_type_name :: "u16 \<Rightarrow> string" where
  "record_type_name t =
     (if t = 1 then ''A'' else if t = 2 then ''NS'' else if t = 5 then ''CNAME'' else if t = 12 then ''PTR''
      else if t = 28 then ''AAAA'' else ''TYPE'' @ show_word t)"

definition rcode_name :: "nat \<Rightarrow> string" where
  "rcode_name rcode =
     (if rcode = 0 then ''NOERROR'' else if rcode = 1 then ''FORMERR'' else if rcode = 2 then ''SERVFAIL''
      else if rcode = 3 then ''NXDOMAIN'' else if rcode = 4 then ''NOTIMP'' else if rcode = 5 then ''REFUSED''
      else ''UNKNOWN'')"

section \<open>Responses\<close>

record dns_answer =
  ans_name :: string
  ans_record_type :: string
  ans_class :: string
  ans_ttl :: u32
  ans_data :: string

record query_response =
  qr_name :: string
  qr_query_type :: query_type
  qr_server :: string
  qr_rcode :: u8
  qr_authoritative :: bool
  qr_truncated :: bool
  qr_answers :: "dns_answer list"

definition parse_answer :: "packet \<Rightarrow> string \<Rightarrow> nat \<Rightarrow> (dns_answer \<times> nat, failure) result" where
  "parse_answer packet server offset =
     and_then (decode_name packet offset) (\<lambda>(name, offset).
     and_then (ok_or (protocol_failure server ''truncated answer type'') (read_u16 packet offset)) (\<lambda>record_type.
     and_then (ok_or (protocol_failure server ''truncated answer class'') (read_u16 packet (offset + 2))) (\<lambda>class.
     and_then (ok_or (protocol_failure server ''truncated answer TTL'') (read_u32 packet (offset + 4))) (\<lambda>ttl.
     and_then (ok_or (protocol_failure server ''truncated answer length'') (read_u16 packet (offset + 8))) (\<lambda>data_length.
     and_then (checked_advance packet offset 10 server) (\<lambda>data_offset.
     and_then (checked_advance packet data_offset (unat data_length) server) (\<lambda>offset.
     and_then (decode_record_data packet data_offset (unat data_length) record_type server) (\<lambda>data.
       Inr (\<lparr>ans_name = name, ans_record_type = record_type_name record_type,
             ans_class = (if class = 1 then ''IN'' else show_word class), ans_ttl = ttl, ans_data = data\<rparr>,
            offset)))))))))"

fun parse_answers :: "packet \<Rightarrow> string \<Rightarrow> nat \<Rightarrow> nat \<Rightarrow> (dns_answer list, failure) result" where
  "parse_answers packet server 0 offset = Inr []"
| "parse_answers packet server (Suc count) offset =
     and_then (parse_answer packet server offset) (\<lambda>(answer, offset).
     and_then (parse_answers packet server count offset) (\<lambda>answers. Inr (answer # answers)))"

definition parse_response ::
    "packet \<Rightarrow> u16 \<Rightarrow> string \<Rightarrow> query_type \<Rightarrow> string \<Rightarrow> (query_response, failure) result" where
  "parse_response packet transaction_id query_name query_type server =
     (if length packet < DNS_HEADER_LENGTH then
        Inl (protocol_failure server ''response is shorter than DNS header'')
      else if read_u16 packet 0 \<noteq> Some transaction_id then
        Inl (protocol_failure server ''response transaction ID does not match'')
      else
        let flags = the (read_u16 packet 2)
        in if flags AND 0x8000 = 0 then Inl (protocol_failure server ''packet is not a DNS response'')
        else if unat (the (read_u16 packet 4)) \<noteq> 1 then
          Inl (protocol_failure server ''response must contain exactly one question'')
        else
          and_then (decode_name packet DNS_HEADER_LENGTH) (\<lambda>(response_name, offset).
          and_then (ok_or (protocol_failure server ''truncated response question type'') (read_u16 packet offset))
            (\<lambda>response_type.
          and_then (ok_or (protocol_failure server ''truncated response question class'') (read_u16 packet (offset + 2)))
            (\<lambda>response_class.
          and_then (checked_advance packet offset 4 server) (\<lambda>offset.
            if to_ascii_lowercase response_name \<noteq> query_name \<or> response_type \<noteq> query_code query_type
               \<or> response_class \<noteq> 1 then
              Inl (protocol_failure server ''response question does not match query'')
            else
              and_then (parse_answers packet server (unat (the (read_u16 packet 6))) offset) (\<lambda>answers.
                Inr \<lparr>qr_name = query_name, qr_query_type = query_type, qr_server = server,
                     qr_rcode = ucast (flags AND 0xF), qr_authoritative = flags AND 0x400 \<noteq> 0,
                     qr_truncated = flags AND 0x200 \<noteq> 0, qr_answers = answers\<rparr>))))))"

section \<open>Reverse zones\<close>

definition cidr_failure :: "string \<Rightarrow> failure" where
  "cidr_failure cidr =
     \<lparr>fail_code = EXIT_INVALID, fail_message = ''invalid IPv4 CIDR '' @ cidr @ ''; prefix must be /8 through /30''\<rparr>"

text \<open>The network and the prefix of a CIDR text; an octet may have leading zeros.\<close>

definition parse_zone_cidr :: "string \<Rightarrow> (u32 \<times> nat, failure) result" where
  "parse_zone_cidr cidr =
     and_then (ok_or (cidr_failure cidr) (split_once CHR ''/'' cidr)) (\<lambda>(address, text).
     and_then (ok_or (cidr_failure cidr) (parse_uint 4294967296 text)) (\<lambda>bits.
       if \<not> (8 \<le> bits \<and> bits \<le> 30) then Inl (cidr_failure cidr)
       else
         (case map (parse_uint 256) (split_on CHR ''.'' address) of
            [Some a, Some b, Some c, Some d] \<Rightarrow>
              (let network = ip_of_octets a b c d
               in if network AND push_bit (32 - bits) (- 1) \<noteq> network then
                    Inl \<lparr>fail_code = EXIT_INVALID, fail_message = ''CIDR must use its network address: '' @ cidr\<rparr>
                  else Inr (network, bits))
          | _ \<Rightarrow> Inl (cidr_failure cidr))))"

definition zone_octets :: "nat \<Rightarrow> nat" where
  "zone_octets bits = min ((bits + 7) div 8) 3"

definition zone_name :: "nat \<Rightarrow> u32 \<Rightarrow> string" where
  "zone_name octets address =
     join ''.'' (map show_nat (rev (map (\<lambda>k. octet k address) [0..<octets]))) @ ''.in-addr.arpa''"

definition zones_of :: "u32 \<Rightarrow> nat \<Rightarrow> string list" where
  "zones_of network bits =
     (let zone_bits = zone_octets bits * 8;
          count = (if zone_bits \<le> bits then 1 else 2 ^ (zone_bits - bits));
          stride = push_bit (32 - zone_bits) 1
      in map (\<lambda>index. zone_name (zone_octets bits) (network + of_nat index * stride)) [0..<count])"

definition reverse_zones_for_cidr :: "string \<Rightarrow> (string list, failure) result" where
  "reverse_zones_for_cidr cidr =
     and_then (parse_zone_cidr cidr) (\<lambda>(network, bits). Inr (zones_of network bits))"

section \<open>Decoding stays in the packet\<close>

text \<open>Fields of a packet that starts with a known prefix.\<close>

lemma unat_u8_less: "unat (b :: u8) < 256"
  using unsigned_less [where ?'a = nat, of b] by simp

lemma unat_of_nat_u8: "n < 256 \<Longrightarrow> unat (of_nat n :: u8) = n"
  by (simp add: unsigned_of_nat take_bit_nat_eq_self)

lemma unat_u16_less: "unat (v :: u16) < 65536"
  using unsigned_less [where ?'a = nat, of v] by simp

lemma length_u16_bytes [simp]: "length (u16_bytes v) = 2"
  by (simp add: u16_bytes_def)

lemma read_u16_at [simp]:
  assumes "length pre = offset"
  shows "read_u16 (pre @ u16_bytes v @ post) offset = Some v"
proof -
  have "unat v div 256 < 256" using unat_u16_less [of v] by simp
  then have "unat (of_nat (unat v div 256) :: u8) * 256 + unat (of_nat (unat v mod 256) :: u8) = unat v"
    by (simp add: unat_of_nat_u8)
  then show ?thesis
    using assms by (simp add: read_u16_def u16_bytes_def nth_append)
qed

text \<open>The name decoder returns an offset behind the name it started at, inside the packet.\<close>

lemma decode_loop_bounds:
  assumes "decode_loop packet cursor offset jumped jumps labels = Inr (name, offset')"
    and "jumped \<Longrightarrow> first < offset \<and> offset \<le> length packet" and "\<not> jumped \<Longrightarrow> first \<le> cursor"
  shows "first < offset' \<and> offset' \<le> length packet"
  using assms
proof (induction packet cursor offset jumped jumps labels rule: decode_loop.induct)
  case (1 packet cursor offset jumped jumps labels)
  let ?len = "packet ! cursor"
  have inside: "cursor < length packet"
    using "1.prems"(1) by (subst (asm) decode_loop.simps) (auto split: if_splits)
  show ?case
  proof (cases "?len = 0")
    case True
    then show ?thesis
      using "1.prems" inside by (subst (asm) decode_loop.simps) (cases jumped; simp add: Let_def)
  next
    case label: False
    show ?thesis
    proof (cases "?len AND 0xC0 = 0xC0")
      case True
      have pointer: "\<not> length packet \<le> cursor + 1" "\<not> length packet < jumps + 1"
        "decode_loop packet (push_bit 8 (unat (?len AND 0x3F)) OR unat (packet ! (cursor + 1)))
          (if jumped then offset else cursor + 2) True (jumps + 1) labels = Inr (name, offset')"
        using "1.prems"(1) inside label True
        by (subst (asm) decode_loop.simps; simp add: Let_def split: if_splits)+
      show ?thesis
        by (rule "1.IH"(1) [OF _ refl label True pointer])
          (use inside "1.prems"(2,3) pointer(1) in \<open>auto split: if_splits\<close>)
    next
      case False
      obtain bytes where bytes: "byte_range packet (cursor + 1) (unat ?len) = Some bytes" "valid_utf8 (map unat bytes)"
        "\<not> (?len AND 0xC0 \<noteq> 0 \<or> 63 < ?len)"
        "decode_loop packet (cursor + 1 + unat ?len) (if jumped then offset else cursor + 1 + unat ?len) jumped jumps
          (labels @ [bytes_str bytes]) = Inr (name, offset')"
        using "1.prems"(1) inside label False
        by (subst (asm) decode_loop.simps) (auto simp: Let_def split: if_splits option.splits)
      show ?thesis
        by (rule "1.IH"(2) [OF _ refl label False bytes(3,1,2) refl bytes(4)])
          (use inside "1.prems"(2,3) in \<open>auto split: if_splits\<close>)
    qed
  qed
qed

lemma decode_name_bounds:
  assumes "decode_name packet offset = Inr (name, offset')"
  shows "offset < offset' \<and> offset' \<le> length packet"
  by (rule decode_loop_bounds [OF assms [unfolded decode_name_def]]) simp_all

section \<open>Decoding what was encoded\<close>

definition plain_label :: "string \<Rightarrow> bool" where
  "plain_label l \<longleftrightarrow> l \<noteq> [] \<and> length l \<le> 63 \<and> list_all (\<lambda>c. byte c < 128) l"

definition name_bytes :: "string list \<Rightarrow> packet" where
  "name_bytes labels = concat (map label_bytes labels) @ [0]"

lemma name_bytes_not_Nil [simp]: "name_bytes labels \<noteq> []"
  by (simp add: name_bytes_def)

lemma small_length_byte:
  assumes "0 < n" and "n \<le> 63"
  shows "unat (of_nat n :: u8) = n" and "(of_nat n :: u8) \<noteq> 0" and "(of_nat n :: u8) AND 0xC0 = 0"
    and "\<not> 63 < (of_nat n :: u8)"
proof -
  show unat: "unat (of_nat n :: u8) = n" using assms(2) by (simp add: unat_of_nat_u8)
  show "(of_nat n :: u8) \<noteq> 0" using unat assms(1) by (metis neq0_conv unsigned_0)
  have "take_bit 6 (of_nat n :: u8) = of_nat n"
    using assms(2) by (simp add: word_unat_eq_iff unsigned_take_bit_eq unat take_bit_nat_eq_self)
  then have "(of_nat n :: u8) = of_nat n AND mask 6" by (simp only: take_bit_eq_mask)
  then have "(of_nat n :: u8) AND 0xC0 = of_nat n AND (mask 6 AND 0xC0)" by (simp only: and.assoc [symmetric])
  also have "(mask 6 AND 0xC0 :: u8) = 0" by (simp add: mask_eq_exp_minus_1)
  finally show "(of_nat n :: u8) AND 0xC0 = 0" by simp
  show "\<not> 63 < (of_nat n :: u8)" using assms(2) unat by (simp add: word_less_nat_alt)
qed

lemma byte_less: "byte c < 256"
proof -
  have "byte c = byte c mod 256" by (metis char_of_char of_char_of)
  then show ?thesis by simp
qed

lemma bytes_str_bytes [simp]: "bytes_str (str_bytes s) = s"
proof -
  have "char_of (unat (of_nat (byte c) :: u8)) = c" for c
    by (simp add: unat_of_nat_u8 byte_less)
  then show ?thesis by (simp add: bytes_str_def str_bytes_def comp_def)
qed

lemma unat_str_bytes: "map unat (str_bytes s) = map byte s"
  by (simp add: str_bytes_def unat_of_nat_u8 byte_less)

lemma ascii_valid_utf8: "list_all (\<lambda>n. n < 128) ns \<Longrightarrow> valid_utf8 ns"
  by (induction ns) auto

lemma length_str_bytes [simp]: "length (str_bytes s) = length s"
  by (simp add: str_bytes_def)

lemma decode_labels:
  assumes "list_all plain_label labels"
  shows "decode_loop (pre @ name_bytes labels @ post) (length pre) offset jumped jumps acc =
    Inr (join ''.'' (acc @ labels), if jumped then offset else length pre + length (name_bytes labels))"
  using assms
proof (induction labels arbitrary: pre offset acc)
  case Nil
  show ?case
    by (subst decode_loop.simps) (simp add: name_bytes_def nth_append Let_def)
next
  case (Cons label labels)
  let ?packet = "pre @ name_bytes (label # labels) @ post"
  have plain: "0 < length label" "length label \<le> 63" "list_all (\<lambda>c. byte c < 128) label"
    using Cons.prems by (simp_all add: plain_label_def)
  note byte = small_length_byte [OF plain(1,2)]
  have split: "?packet = (pre @ label_bytes label) @ name_bytes labels @ post"
    by (simp add: name_bytes_def)
  have at: "?packet ! length pre = of_nat (length label)"
    by (simp add: name_bytes_def label_bytes_def nth_append)
  have long: "length pre + 1 + length label \<le> length ?packet" "length pre < length ?packet"
    by (simp_all add: name_bytes_def label_bytes_def)
  have byte_range: "byte_range ?packet (length pre + 1) (length label) = Some (str_bytes label)"
    using long(1) by (simp add: byte_range_def name_bytes_def label_bytes_def)
  have utf8: "valid_utf8 (map unat (str_bytes label))"
    unfolding unat_str_bytes using plain(3) by (intro ascii_valid_utf8) (simp add: list_all_iff)
  have next_: "length pre + 1 + length label = length (pre @ label_bytes label)"
    by (simp add: label_bytes_def)
  have "decode_loop ?packet (length pre) offset jumped jumps acc =
      decode_loop ?packet (length (pre @ label_bytes label))
        (if jumped then offset else length (pre @ label_bytes label)) jumped jumps (acc @ [label])"
    using long(2) at byte byte_range utf8 unfolding next_ [symmetric]
    by (subst decode_loop.simps) (simp add: Let_def)
  also have "\<dots> = Inr (join ''.'' ((acc @ [label]) @ labels),
      if jumped then (if jumped then offset else length (pre @ label_bytes label))
      else length (pre @ label_bytes label) + length (name_bytes labels))"
    unfolding split using Cons.prems by (intro Cons.IH) simp
  finally show ?case by (simp add: name_bytes_def add.assoc)
qed

lemma query_labels_plain:
  assumes "list_all valid_query_label labels"
  shows "list_all plain_label labels"
proof -
  have "byte c < 128" if "is_ascii_alphanumeric c \<or> c = CHR ''-'' \<or> c = CHR ''_''" for c
    using that by (auto simp: char_class_defs)
  then show ?thesis
    using assms by (auto simp: list_all_iff valid_query_label_def plain_label_def)
qed

lemma validate_query_name_Inr:
  assumes "validate_query_name raw = Inr name"
  shows "list_all plain_label (split_on CHR ''.'' name)" and "to_ascii_lowercase name = name"
  using assms by (auto simp: validate_query_name_def Let_def query_labels_plain split: if_splits)

text \<open>A name at its place in a packet, and a pointer to it.\<close>

lemma decode_name_at:
  assumes "list_all plain_label (split_on CHR ''.'' name)"
  shows "decode_name (pre @ name_bytes (split_on CHR ''.'' name) @ post) (length pre) =
    Inr (name, length pre + length (name_bytes (split_on CHR ''.'' name)))"
  unfolding decode_name_def decode_labels [OF assms] by simp

section \<open>A server that answers\<close>

text \<open>The response RFC 1035 prescribes: the header, the question, then records whose name is a pointer to the question.\<close>

record dns_record =
  rr_type :: u16
  rr_class :: u16
  rr_ttl :: u32
  rr_data :: packet

definition u32_bytes :: "u32 \<Rightarrow> packet" where
  "u32_bytes v =
     [of_nat (unat v div 16777216), of_nat (unat v div 65536 mod 256), of_nat (unat v div 256 mod 256), of_nat (unat v mod 256)]"

definition encode_record :: "dns_record \<Rightarrow> packet" where
  "encode_record rr =
     [0xC0, 0x0C] @ u16_bytes (rr_type rr) @ u16_bytes (rr_class rr) @ u32_bytes (rr_ttl rr)
     @ u16_bytes (of_nat (length (rr_data rr))) @ rr_data rr"

definition encode_response :: "u16 \<Rightarrow> u16 \<Rightarrow> string \<Rightarrow> query_type \<Rightarrow> dns_record list \<Rightarrow> packet" where
  "encode_response transaction_id flags name query_type rrs =
     u16_bytes transaction_id @ u16_bytes flags @ u16_bytes 1 @ u16_bytes (of_nat (length rrs)) @ u16_bytes 0 @ u16_bytes 0
     @ name_bytes (split_on CHR ''.'' name) @ u16_bytes (query_code query_type) @ u16_bytes 1
     @ concat (map encode_record rrs)"

definition answer_of :: "string \<Rightarrow> dns_record \<Rightarrow> dns_answer" where
  "answer_of name rr =
     \<lparr>ans_name = name, ans_record_type = record_type_name (rr_type rr),
      ans_class = (if rr_class rr = 1 then ''IN'' else show_word (rr_class rr)), ans_ttl = rr_ttl rr,
      ans_data = record_text (rr_type rr) (rr_data rr)\<rparr>"

definition plain_record :: "dns_record \<Rightarrow> bool" where
  "plain_record rr \<longleftrightarrow> length (rr_data rr) < 65536 \<and> rr_type rr \<notin> {2, 5, 12}"

lemma length_u32_bytes [simp]: "length (u32_bytes v) = 4"
  by (simp add: u32_bytes_def)

lemma read_u32_at [simp]:
  assumes "length pre = offset"
  shows "read_u32 (pre @ u32_bytes v @ post) offset = Some v"
proof -
  let ?n = "unat v"
  have "?n < 4294967296" by (rule unat_u32_less)
  then have "?n div 16777216 < 256" by simp
  then have bytes: "unat (of_nat (?n div 16777216) :: u8) = ?n div 16777216"
    "unat (of_nat (?n div 65536 mod 256) :: u8) = ?n div 65536 mod 256"
    "unat (of_nat (?n div 256 mod 256) :: u8) = ?n div 256 mod 256" "unat (of_nat (?n mod 256) :: u8) = ?n mod 256"
    by (simp_all add: unat_of_nat_u8)
  have four: "(pre @ [a, b, c, d] @ post) ! offset = a" "(pre @ [a, b, c, d] @ post) ! (offset + 1) = b"
    "(pre @ [a, b, c, d] @ post) ! (offset + 2) = c" "(pre @ [a, b, c, d] @ post) ! (offset + 3) = d"
    "offset + 4 \<le> length (pre @ [a, b, c, d] @ post)" for a b c d
    using assms by (simp_all add: nth_append)
  show ?thesis
    unfolding read_u32_def u32_bytes_def four(1-4) bytes nat_of_octets using four(5) by simp
qed

lemma unat_of_nat_u16: "n < 65536 \<Longrightarrow> unat (of_nat n :: u16) = n"
  by (simp add: unsigned_of_nat take_bit_nat_eq_self)

lemma decode_pointer:
  assumes "list_all plain_label labels" and "length header = 12"
    and "offset + 1 < length packet" and "packet ! offset = 0xC0" and "packet ! (offset + 1) = 0x0C"
    and "packet = header @ name_bytes labels @ rest"
  shows "decode_name packet offset = Inr (join ''.'' labels, offset + 2)"
proof -
  have "decode_name packet offset = decode_loop packet 12 (offset + 2) True 1 []"
  proof -
    have "packet \<noteq> []" using assms(3) by auto
    then show ?thesis
      unfolding decode_name_def using assms(3,4,5) by (subst decode_loop.simps) (simp add: Let_def)
  qed
  also have "\<dots> = Inr (join ''.'' labels, offset + 2)"
    unfolding assms(6) assms(2) [symmetric] decode_labels [OF assms(1)] by simp
  finally show ?thesis .
qed

lemma length_encode_record [simp]: "length (encode_record rr) = 12 + length (rr_data rr)"
  by (simp add: encode_record_def)

lemma parse_answer_at:
  assumes "list_all plain_label labels" and "length header = 12" and "plain_record rr"
    and "packet = pre @ encode_record rr @ post" and "pre = header @ name_bytes labels @ middle"
  shows "parse_answer packet server (length pre) =
    Inr (answer_of (join ''.'' labels) rr, length pre + length (encode_record rr))"
proof -
  let ?size = "of_nat (length (rr_data rr)) :: u16"
  have size: "unat ?size = length (rr_data rr)"
    using assms(3) by (simp add: plain_record_def unat_of_nat_u16)
  let ?p = "pre @ [0xC0, 0x0C]"
  let ?t = "u16_bytes (rr_type rr)" and ?c = "u16_bytes (rr_class rr)" and ?l = "u32_bytes (rr_ttl rr)"
  have packet: "packet = ?p @ ?t @ ?c @ ?l @ u16_bytes ?size @ rr_data rr @ post"
    by (simp add: assms(4) encode_record_def)
  have name: "decode_name packet (length pre) = Inr (join ''.'' labels, length pre + 2)"
  proof (rule decode_pointer [OF assms(1,2)])
    show "packet = header @ name_bytes labels @ middle @ encode_record rr @ post"
      by (simp add: assms(4,5))
  qed (simp_all add: packet nth_append)
  have fields: "read_u16 packet (length pre + 2) = Some (rr_type rr)"
    "read_u16 packet (length pre + 2 + 2) = Some (rr_class rr)"
    "read_u32 packet (length pre + 2 + 4) = Some (rr_ttl rr)"
    "read_u16 packet (length pre + 2 + 8) = Some ?size"
    unfolding packet
    using read_u16_at [of ?p "length pre + 2" "rr_type rr"] read_u16_at [of "?p @ ?t" "length pre + 2 + 2" "rr_class rr"]
      read_u32_at [of "?p @ ?t @ ?c" "length pre + 2 + 4" "rr_ttl rr"]
      read_u16_at [of "?p @ ?t @ ?c @ ?l" "length pre + 2 + 8" ?size]
    by simp_all
  have long: "length packet = length pre + 12 + length (rr_data rr) + length post"
    by (simp add: packet)
  have "byte_range packet (length pre + 12) (length (rr_data rr)) = Some (rr_data rr)"
    using long by (simp add: byte_range_def packet)
  then have data: "decode_record_data packet (length pre + 12) (length (rr_data rr)) (rr_type rr) server =
      Inr (record_text (rr_type rr) (rr_data rr))"
    using assms(3) by (simp add: decode_record_data_def plain_record_def)
  have advance: "checked_advance packet (length pre + 2) 10 server = Inr (length pre + 12)"
    "checked_advance packet (length pre + 12) (length (rr_data rr)) server = Inr (length pre + 12 + length (rr_data rr))"
    using long by (simp_all add: checked_advance_def)
  show ?thesis
    by (simp only: parse_answer_def name and_then_simps prod.case fields ok_or_simps size advance data answer_of_def
        length_encode_record) (simp only: add.assoc)
qed

lemma parse_answers_at:
  assumes "list_all plain_label labels" and "length header = 12" and "list_all plain_record rrs"
    and "packet = pre @ concat (map encode_record rrs)" and "pre = header @ name_bytes labels @ middle"
  shows "parse_answers packet server (length rrs) (length pre) = Inr (map (answer_of (join ''.'' labels)) rrs)"
  using assms(3-5)
proof (induction rrs arbitrary: pre middle)
  case Nil
  then show ?case by simp
next
  case (Cons rr rrs)
  have first: "parse_answer packet server (length pre) =
      Inr (answer_of (join ''.'' labels) rr, length pre + length (encode_record rr))"
    using Cons.prems by (intro parse_answer_at [OF assms(1,2), where post = "concat (map encode_record rrs)"]) simp_all
  have "parse_answers packet server (length rrs) (length (pre @ encode_record rr)) =
      Inr (map (answer_of (join ''.'' labels)) rrs)"
    using Cons.prems by (intro Cons.IH [where middle = "middle @ encode_record rr"]) simp_all
  with first show ?case by (simp del: length_encode_record)
qed

section \<open>What an accepted answer occupies\<close>

lemma checked_advance_Inr [simp]:
  "checked_advance packet offset count server = Inr end' \<longleftrightarrow> end' = offset + count \<and> offset + count \<le> length packet"
  by (auto simp: checked_advance_def)

text \<open>The answers of a packet, laid out one behind the other from an offset to an end: each has its name, type, class,
  time to live and data length where its header has them, the data of that length lies in the packet, and the answer says
  what its data says.  The data of a record whose data is a name is the name that starts there.\<close>

inductive answers_at :: "packet \<Rightarrow> nat \<Rightarrow> dns_answer list \<Rightarrow> nat \<Rightarrow> bool" for packet :: packet where
  no_answer: "answers_at packet offset [] offset"
| an_answer:
    "decode_name packet offset = Inr (ans_name a, start) \<Longrightarrow>
     read_u16 packet start = Some record_type \<Longrightarrow> ans_record_type a = record_type_name record_type \<Longrightarrow>
     read_u16 packet (start + 2) = Some class \<Longrightarrow> ans_class a = (if class = 1 then ''IN'' else show_word class) \<Longrightarrow>
     read_u32 packet (start + 4) = Some (ans_ttl a) \<Longrightarrow>
     read_u16 packet (start + 8) = Some data_length \<Longrightarrow> start + 10 + unat data_length \<le> length packet \<Longrightarrow>
     (if record_type \<in> {2, 5, 12} then \<exists>after. decode_name packet (start + 10) = Inr (ans_data a, after)
      else ans_data a = record_text record_type (take (unat data_length) (drop (start + 10) packet))) \<Longrightarrow>
     answers_at packet (start + 10 + unat data_length) as end_offset \<Longrightarrow>
     answers_at packet offset (a # as) end_offset"

lemma parse_answer_Inr:
  assumes "parse_answer packet server offset = Inr (a, offset')" and "answers_at packet offset' as end_offset"
  shows "answers_at packet offset (a # as) end_offset"
proof -
  from assms(1) obtain start record_type record_class data_length where fields:
      "decode_name packet offset = Inr (ans_name a, start)" "read_u16 packet start = Some record_type"
      "read_u16 packet (start + 2) = Some record_class" "read_u32 packet (start + 4) = Some (ans_ttl a)"
      "read_u16 packet (start + 8) = Some data_length" "start + 10 + unat data_length \<le> length packet"
      "decode_record_data packet (start + 10) (unat data_length) record_type server = Inr (ans_data a)"
      "ans_record_type a = record_type_name record_type" "ans_class a = (if record_class = 1 then ''IN'' else show_word record_class)"
      "offset' = start + 10 + unat data_length"
    unfolding parse_answer_def by auto
  have "if record_type \<in> {2, 5, 12} then \<exists>after. decode_name packet (start + 10) = Inr (ans_data a, after)
      else ans_data a = record_text record_type (take (unat data_length) (drop (start + 10) packet))"
    using fields(6,7) by (auto simp: decode_record_data_def byte_range_def split: if_splits)
  from an_answer [OF fields(1,2,8,3,9,4,5,6) this] assms(2) show ?thesis unfolding fields(10) .
qed

lemma parse_answers_Inr:
  "parse_answers packet server count offset = Inr answers \<Longrightarrow>
     length answers = count \<and> (\<exists>end_offset. answers_at packet offset answers end_offset)"
proof (induction count arbitrary: offset answers)
  case (Suc count)
  then obtain a offset' as where "parse_answer packet server offset = Inr (a, offset')"
    "parse_answers packet server count offset' = Inr as" "answers = a # as" by auto
  with Suc.IH parse_answer_Inr show ?case by fastforce
qed (auto intro: no_answer)

lemma answers_at_bounds:
  "answers_at packet offset answers end_offset \<Longrightarrow> offset \<le> length packet \<Longrightarrow>
     offset + 11 * length answers \<le> end_offset \<and> end_offset \<le> length packet"
proof (induction rule: answers_at.induct)
  case (an_answer offset a start)
  then show ?case using decode_name_bounds [OF an_answer(1)] by simp
qed simp

lemma response_built:
  assumes "validate_query_name raw = Inr name" and "flags AND 0x8000 \<noteq> 0" and "length rrs < 65536"
    and "list_all plain_record rrs"
  shows "parse_response (encode_response transaction_id flags name query_type rrs) transaction_id name query_type server =
    Inr \<lparr>qr_name = name, qr_query_type = query_type, qr_server = server, qr_rcode = ucast (flags AND 0xF),
      qr_authoritative = flags AND 0x400 \<noteq> 0, qr_truncated = flags AND 0x200 \<noteq> 0,
      qr_answers = map (answer_of name) rrs\<rparr>"
proof -
  let ?packet = "encode_response transaction_id flags name query_type rrs"
  let ?labels = "split_on CHR ''.'' name"
  let ?n = "of_nat (length rrs) :: u16"
  let ?id = "u16_bytes transaction_id" and ?f = "u16_bytes flags"
  let ?header = "?id @ ?f @ u16_bytes 1 @ u16_bytes ?n @ u16_bytes 0 @ u16_bytes 0"
  let ?question = "u16_bytes (query_code query_type) @ u16_bytes 1"
  note labels = validate_query_name_Inr(1) [OF assms(1)]
  have n: "unat ?n = length rrs" using assms(3) by (rule unat_of_nat_u16)
  have header: "length ?header = 12" by simp
  have packet: "?packet = ?header @ name_bytes ?labels @ ?question @ concat (map encode_record rrs)"
    by (simp add: encode_response_def)
  have long: "length ?packet = 16 + length (name_bytes ?labels) + length (concat (map encode_record rrs))"
    by (simp add: packet)
  have fields: "read_u16 ?packet 0 = Some transaction_id" "read_u16 ?packet 2 = Some flags"
    "read_u16 ?packet 4 = Some 1" "read_u16 ?packet 6 = Some ?n"
    using read_u16_at [of "[]" 0 transaction_id] read_u16_at [of ?id 2 flags] read_u16_at [of "?id @ ?f" 4 1]
      read_u16_at [of "?id @ ?f @ u16_bytes 1" 6 ?n]
    by (simp_all add: packet)
  let ?at = "12 + length (name_bytes ?labels)"
  have name: "decode_name ?packet DNS_HEADER_LENGTH = Inr (name, ?at)"
    using decode_name_at [OF labels, of ?header] header unfolding packet DNS_HEADER_LENGTH_def by simp
  have question: "read_u16 ?packet ?at = Some (query_code query_type)" "read_u16 ?packet (?at + 2) = Some 1"
    using read_u16_at [of "?header @ name_bytes ?labels" ?at "query_code query_type"]
      read_u16_at [of "?header @ name_bytes ?labels @ u16_bytes (query_code query_type)" "?at + 2" 1]
    by (simp_all add: packet)
  have advance: "checked_advance ?packet ?at 4 server = Inr (?at + 4)"
    using long by (simp add: checked_advance_def)
  have "length (?header @ name_bytes ?labels @ ?question) = ?at + 4" by simp
  then have answers: "parse_answers ?packet server (length rrs) (?at + 4) = Inr (map (answer_of name) rrs)"
    using parse_answers_at [OF labels header assms(4), of ?packet "?header @ name_bytes ?labels @ ?question" ?question server]
    by (simp add: packet)
  have "\<not> length ?packet < DNS_HEADER_LENGTH" using long by (simp add: DNS_HEADER_LENGTH_def)
  then show ?thesis
    using assms(2) validate_query_name_Inr(2) [OF assms(1)]
    by (simp only: parse_response_def fields option.sel if_False if_True Let_def name and_then_simps prod.case question
        ok_or_simps advance n answers unsigned_1 simp_thms)
qed

section \<open>Zones and prefixes\<close>

text \<open>A zone of one, two or three octets is the prefix of that many bytes.\<close>

lemma octets_prefix:
  fixes a b :: u32
  assumes "n \<in> {1, 2, 3}"
  shows "map (\<lambda>k. octet k a) [0..<n] = map (\<lambda>k. octet k b) [0..<n] \<longleftrightarrow>
    unat a div 2 ^ (32 - n * 8) = unat b div 2 ^ (32 - n * 8)"
proof -
  have top: "unat w div 16777216 mod 256 = unat w div 16777216" for w :: u32
    using unat_u32_less [of w] by simp
  have block: "n div d = k div d \<longleftrightarrow> n div (d * 256) = k div (d * 256) \<and> n div d mod 256 = k div d mod 256"
    for n k d :: nat
    by (metis div_mult2_eq div_mult_mod_eq)
  note eq2 = block [of "unat a" 65536 "unat b", simplified]
    and eq3 = block [of "unat a" 256 "unat b", simplified]
  consider "n = 1" | "n = 2" | "n = 3" using assms by auto
  then show ?thesis
    by cases (auto simp: octet_def top eq2 eq3 upt_rec)
qed

lemma zone_name_eq:
  assumes "n \<in> {1, 2, 3}"
  shows "zone_name n a = zone_name n b \<longleftrightarrow> unat a div 2 ^ (32 - n * 8) = unat b div 2 ^ (32 - n * 8)"
proof -
  let ?parts = "\<lambda>w :: u32. map show_nat (rev (map (\<lambda>k. octet k w) [0..<n]))"
  have split: "split_on CHR ''.'' (join ''.'' (?parts w)) = ?parts w" for w
    using assms by (intro split_on_join) (auto simp: is_ascii_digit_def dest!: in_show_nat_digit)
  have inj: "map show_nat xs = map show_nat ys \<longleftrightarrow> xs = ys" for xs ys
    by (intro inj_map_eq_map inj_onI) (simp add: show_nat_inj)
  have "zone_name n a = zone_name n b \<longleftrightarrow> ?parts a = ?parts b"
    unfolding zone_name_def append_same_eq by (metis split)
  then show ?thesis unfolding inj rev_is_rev_conv octets_prefix [OF assms] .
qed

lemma aligned_network:
  fixes network :: u32
  assumes "network AND push_bit m (- 1) = network"
  shows "unat network mod 2 ^ m = 0"
proof -
  have "push_bit m (- 1 :: u32) = NOT (mask m)" by (simp add: push_bit_minus_one)
  then have "network AND NOT (mask m) = network" using assms by simp
  then have "take_bit m network = (network AND NOT (mask m)) AND mask m" by (simp only: take_bit_eq_mask)
  also have "\<dots> = 0" by (simp add: and.assoc)
  finally have "take_bit m (unat network) = 0"
    by (metis unsigned_take_bit_eq unsigned_0)
  then show ?thesis by (simp only: take_bit_eq_mod)
qed

text \<open>The zones of a network: the zone of an address is one of them when the address is in the network.\<close>

lemma div_eq_block: "k div (d :: nat) = n \<longleftrightarrow> n * d \<le> k \<and> k < (n + 1) * d" if "0 < d"
  using that by (metis Suc_eq_plus1 div_nat_eqI div_times_less_eq_dividend dividend_less_div_times mult.commute mult_Suc)

lemma zone_octets_cases:
  assumes "8 \<le> bits" "bits \<le> 30"
  shows "zone_octets bits \<in> {1, 2, 3}"
    and "bits \<le> 24 \<Longrightarrow> bits \<le> zone_octets bits * 8"
    and "24 < bits \<Longrightarrow> zone_octets bits = 3"
  using assms by (auto simp: zone_octets_def min_def; presburger)+

lemma stride_u32: "m < 32 \<Longrightarrow> unat (push_bit m 1 :: u32) = 2 ^ m"
  by (simp only: unsigned_push_bit_eq unsigned_1) (simp add: push_bit_eq_mult take_bit_nat_eq_self)

lemma aligned_room: "N mod d = 0 \<Longrightarrow> N < d * e \<Longrightarrow> N + d \<le> d * (e :: nat)"
  by (metis add.commute le_add_same_cancel1 less_eq_div_iff_mult_less_eq linorder_not_less mod_0_imp_dvd
      mult.commute mult_Suc_right mult_le_mono2 Suc_leI dvd_mult_div_cancel mult_less_cancel1)

lemma zone_address:
  fixes network :: u32
  assumes "8 \<le> bits" "bits \<le> 24" "unat network mod 2 ^ (32 - bits) = 0"
    and "index < 2 ^ (zone_octets bits * 8 - bits)"
  shows "unat (network + of_nat index * push_bit (32 - zone_octets bits * 8) 1) =
    unat network + index * 2 ^ (32 - zone_octets bits * 8)"
proof -
  define m where "m = 32 - zone_octets bits * 8"
  have m: "m < 32" "32 - bits = (zone_octets bits * 8 - bits) + m"
    using zone_octets_cases [of bits] assms(1,2) by (auto simp: m_def)
  have "index * 2 ^ m < 2 ^ (32 - bits)" using assms(4) m by (simp add: power_add)
  moreover have "unat network + 2 ^ (32 - bits) \<le> 2 ^ (32 - bits) * 2 ^ bits"
    using assms unat_u32_less [of network] by (intro aligned_room) (simp_all flip: power_add)
  ultimately have room: "unat network + index * 2 ^ m < 2 ^ 32"
    using assms(1,2) by (simp flip: power_add)
  have "network + of_nat index * push_bit m 1 = of_nat (unat network + index * 2 ^ m)"
    by (simp add: push_bit_eq_mult)
  then have "unat (network + of_nat index * push_bit m 1) =
      unat (of_nat (unat network + index * 2 ^ m) :: u32)" by (rule arg_cong)
  also have "\<dots> = unat network + index * 2 ^ m"
    using room by (simp only: unsigned_of_nat) (simp add: take_bit_nat_eq_self)
  finally show ?thesis by (simp only: m_def)
qed

lemma zones_of_cover:
  assumes bits: "8 \<le> bits" "bits \<le> 24" and aligned: "unat network mod 2 ^ (32 - bits) = 0"
  shows "zone_name (zone_octets bits) ip \<in> set (zones_of network bits) \<longleftrightarrow>
      unat ip div 2 ^ (32 - bits) = unat network div 2 ^ (32 - bits)"
    and "distinct (zones_of network bits)"
proof -
  define m where "m = 32 - zone_octets bits * 8"
  define c :: nat where "c = 2 ^ (zone_octets bits * 8 - bits)"
  have m: "32 - bits = m + (zone_octets bits * 8 - bits)"
    using zone_octets_cases [of bits] bits by (auto simp: m_def)
  define address where "address index = network + of_nat index * push_bit m 1" for index
  have zones: "zones_of network bits = map (\<lambda>index. zone_name (zone_octets bits) (address index)) [0..<c]"
    using zone_octets_cases(2) [of bits] bits by (simp add: zones_of_def Let_def m_def c_def address_def)
  have same: "zone_name (zone_octets bits) a = zone_name (zone_octets bits) b \<longleftrightarrow> unat a div 2 ^ m = unat b div 2 ^ m"
    for a b
    unfolding m_def using zone_octets_cases(1) [of bits] bits by (intro zone_name_eq) simp
  have index: "unat (address k) div 2 ^ m = unat network div 2 ^ m + k" if "k < c" for k
    using zone_address [OF bits aligned] that
    by (simp only: c_def m_def address_def) simp
  have "2 ^ m * c dvd unat network" using aligned by (simp add: m power_add c_def mod_eq_0_iff_dvd)
  then obtain q where q: "unat network = 2 ^ m * c * q" by (elim dvdE)
  have "0 < c" by (simp add: c_def)
  then have block: "(\<exists>k<c. x = unat network div 2 ^ m + k) \<longleftrightarrow> x div c = q" for x
    by (auto simp: q mult.assoc intro: exI [of _ "x mod c"])
  have "zone_name (zone_octets bits) ip \<in> set (zones_of network bits) \<longleftrightarrow>
      (\<exists>k<c. unat ip div 2 ^ m = unat network div 2 ^ m + k)"
    by (auto simp: zones image_iff Bex_def same index)
  also have "\<dots> \<longleftrightarrow> unat ip div 2 ^ (32 - bits) = q"
    by (simp only: block m power_add div_mult2_eq c_def [symmetric])
  also have "q = unat network div 2 ^ (32 - bits)"
    using \<open>0 < c\<close> by (simp add: q m power_add c_def [symmetric])
  finally show "zone_name (zone_octets bits) ip \<in> set (zones_of network bits) \<longleftrightarrow>
      unat ip div 2 ^ (32 - bits) = unat network div 2 ^ (32 - bits)" .
  show "distinct (zones_of network bits)"
    by (auto simp: zones distinct_map inj_on_def same index)
qed

lemma zones_of_narrow:
  assumes bits: "24 < bits" "bits \<le> 30" and inside: "unat ip div 2 ^ (32 - bits) = unat network div 2 ^ (32 - bits)"
  shows "zones_of network bits = [zone_name (zone_octets bits) ip]"
proof -
  have octets: "zone_octets bits = 3" using bits zone_octets_cases(3) [of bits] by simp
  have "(2 :: nat) ^ 8 = 2 ^ (32 - bits) * 2 ^ (bits - 24)" using bits by (simp flip: power_add)
  then have "unat ip div 2 ^ 8 = unat network div 2 ^ 8" using inside by (simp only: div_mult2_eq)
  then show ?thesis
    using bits zone_name_eq [of 3 ip network] by (simp add: zones_of_def Let_def octets)
qed

lemma parse_zone_cidr_Inr:
  assumes "parse_zone_cidr cidr = Inr (network, bits)"
  shows "8 \<le> bits" "bits \<le> 30" "unat network mod 2 ^ (32 - bits) = 0"
  using assms aligned_network [of network "32 - bits"]
  by (auto simp: parse_zone_cidr_def Let_def split: prod.splits option.splits if_splits list.splits)

section \<open>Properties\<close>

text \<open>C35: a name survives its encoding. The question of the query built for a name that has passed the check is
  decoded to that name, and the decoder stops right before the type and the class.\<close>

theorem query_name_roundtrip:
  assumes "validate_query_name raw = Inr name"
  shows "decode_name (build_query transaction_id name query_type) DNS_HEADER_LENGTH =
      Inr (name, length (build_query transaction_id name query_type) - 4)"
proof -
  let ?labels = "split_on CHR ''.'' name"
  let ?header = "u16_bytes transaction_id @ u16_bytes 0x0100 @ u16_bytes 1 @ u16_bytes 0 @ u16_bytes 0 @ u16_bytes 0"
  have packet: "build_query transaction_id name query_type =
      ?header @ name_bytes ?labels @ u16_bytes (query_code query_type) @ u16_bytes 1"
    by (simp add: build_query_def append_u16_def name_bytes_def Let_def)
  have "length ?header = DNS_HEADER_LENGTH" by (simp add: DNS_HEADER_LENGTH_def)
  then show ?thesis
    using decode_name_at [OF validate_query_name_Inr(1) [OF assms], of ?header]
    by (simp add: packet DNS_HEADER_LENGTH_def)
qed

lemma query_name_roundtrip_witness:
  "decode_name (build_query 7 ''db.lan'' QueryA) DNS_HEADER_LENGTH = Inr (''db.lan'', 20)"
proof -
  have "validate_query_name ''db.lan.'' = Inr ''db.lan''"
    by (simp add: validate_query_name_def Let_def trim_end_matches_def to_ascii_lowercase_def ascii_lower_def
        valid_query_label_def char_class_defs)
  from query_name_roundtrip [OF this, of 7 QueryA] show ?thesis
    by (simp add: build_query_def append_u16_def label_bytes_def str_bytes_def u16_bytes_def Let_def)
qed

text \<open>C34: the answer to a query is understood. Whatever name was checked, the response a server builds for it by the
  book (the transaction and the question echoed, compressed record names, any records whose data is not itself a
  name, any flags with the response bit) parses to exactly those records, in order, with the response's code and
  flags.\<close>

theorem response_understood:
  assumes "validate_query_name raw = Inr name" and "flags AND 0x8000 \<noteq> 0" and "length rrs < 65536"
    and "list_all plain_record rrs"
  shows "parse_response (encode_response transaction_id flags name query_type rrs) transaction_id name query_type server =
    Inr \<lparr>qr_name = name, qr_query_type = query_type, qr_server = server, qr_rcode = ucast (flags AND 0xF),
      qr_authoritative = flags AND 0x400 \<noteq> 0, qr_truncated = flags AND 0x200 \<noteq> 0,
      qr_answers = map (answer_of name) rrs\<rparr>"
  by (rule response_built [OF assms])

lemma response_understood_witness:
  "parse_response (encode_response 7 0x8180 ''db.lan'' QueryA
      [\<lparr>rr_type = 1, rr_class = 1, rr_ttl = 60, rr_data = [10, 0, 0, 11]\<rparr>]) 7 ''db.lan'' QueryA ''127.0.0.1:15353'' =
    Inr \<lparr>qr_name = ''db.lan'', qr_query_type = QueryA, qr_server = ''127.0.0.1:15353'', qr_rcode = 0,
      qr_authoritative = False, qr_truncated = False,
      qr_answers = [\<lparr>ans_name = ''db.lan'', ans_record_type = ''A'', ans_class = ''IN'', ans_ttl = 60,
        ans_data = ''10.0.0.11''\<rparr>]\<rparr>"
proof -
  have "validate_query_name ''db.lan.'' = Inr ''db.lan''"
    by (simp add: validate_query_name_def Let_def trim_end_matches_def to_ascii_lowercase_def ascii_lower_def
        valid_query_label_def char_class_defs)
  from response_understood [OF this, of "0x8180" "[\<lparr>rr_type = 1, rr_class = 1, rr_ttl = 60, rr_data = [10, 0, 0, 11]\<rparr>]"
      7 QueryA "''127.0.0.1:15353''"] show ?thesis
    by (simp add: plain_record_def answer_of_def record_type_name_def record_text_def show_nat.simps digit_char_def char_of_def bit_0)
qed

text \<open>C33: nothing but an answer to the query is accepted. An accepted response carries the transaction of the query and
  the response bit, has exactly one question, whose name (up to case), type and class are those of the query, and
  as many answers as it announces.  The answers stand in the packet one behind the other from the end of the question:
  each has the name, type, class, time to live and data length of its header, its data of that length lies within the
  packet, and what it says is rendered from exactly these bytes or, for the types whose data is a name, is the name that
  starts there.\<close>

theorem accepted_response_sound:
  assumes "parse_response packet transaction_id name query_type server = Inr response"
  shows "read_u16 packet 0 = Some transaction_id
    \<and> (\<exists>flags. read_u16 packet 2 = Some flags \<and> flags AND 0x8000 \<noteq> 0 \<and> qr_rcode response = ucast (flags AND 0xF))
    \<and> read_u16 packet 4 = Some 1
    \<and> (\<exists>asked offset. decode_name packet 12 = Inr (asked, offset) \<and> to_ascii_lowercase asked = name
         \<and> read_u16 packet offset = Some (query_code query_type) \<and> read_u16 packet (offset + 2) = Some 1
         \<and> (\<exists>end_offset. answers_at packet (offset + 4) (qr_answers response) end_offset \<and> end_offset \<le> length packet))
    \<and> (\<exists>count. read_u16 packet 6 = Some count \<and> length (qr_answers response) = unat count
         \<and> 12 + 5 + 11 * unat count \<le> length packet)"
proof -
  have header: "12 \<le> length packet" and transaction: "read_u16 packet 0 = Some transaction_id"
    using assms by (auto simp: parse_response_def DNS_HEADER_LENGTH_def split: if_splits)
  obtain flags where flags: "read_u16 packet 2 = Some flags"
    using header by (simp add: read_u16_def)
  obtain questions where questions: "read_u16 packet 4 = Some questions"
    using header by (simp add: read_u16_def)
  obtain count where count: "read_u16 packet 6 = Some count"
    using header by (simp add: read_u16_def)
  have one: "questions = 1" if "unat questions = 1"
    using that by (simp add: word_unat_eq_iff)
  obtain asked offset answers where steps: "flags AND 0x8000 \<noteq> 0" "unat questions = 1"
      "decode_name packet 12 = Inr (asked, offset)" "read_u16 packet offset = Some (query_code query_type)"
      "read_u16 packet (offset + 2) = Some 1" "offset + 4 \<le> length packet" "to_ascii_lowercase asked = name"
      "parse_answers packet server (unat count) (offset + 4) = Inr answers"
      "qr_rcode response = ucast (flags AND 0xF)" "qr_answers response = answers"
    using assms unfolding parse_response_def Let_def flags questions count DNS_HEADER_LENGTH_def
    by (auto split: if_splits)
  have start: "12 < offset" using decode_name_bounds [OF steps(3)] by simp
  from parse_answers_Inr [OF steps(8)] obtain end_offset where
    answers: "length answers = unat count" "answers_at packet (offset + 4) answers end_offset" by blast
  from answers_at_bounds [OF answers(2) steps(6)] answers(1)
  have inside: "end_offset \<le> length packet" "offset + 4 + 11 * unat count \<le> end_offset" by simp_all
  with start have "12 + 5 + 11 * unat count \<le> length packet" by linarith
  with transaction flags questions count steps(1-5,7,9,10) one [OF steps(2)] answers inside(1) show ?thesis
    by (intro conjI) blast+
qed

lemma accepted_response_sound_witness:
  "\<exists>offset end_offset. answers_at (encode_response 7 0x8180 ''db.lan'' QueryA
        [\<lparr>rr_type = 1, rr_class = 1, rr_ttl = 60, rr_data = [10, 0, 0, 11]\<rparr>]) offset
      [\<lparr>ans_name = ''db.lan'', ans_record_type = ''A'', ans_class = ''IN'', ans_ttl = 60, ans_data = ''10.0.0.11''\<rparr>] end_offset"
proof -
  let ?rr = "\<lparr>rr_type = 1, rr_class = 1, rr_ttl = 60, rr_data = [10, 0, 0, 11]\<rparr>"
  have "validate_query_name ''db.lan.'' = Inr ''db.lan''"
    by (simp add: validate_query_name_def Let_def trim_end_matches_def to_ascii_lowercase_def ascii_lower_def
        valid_query_label_def char_class_defs)
  then obtain response where "parse_response (encode_response 7 0x8180 ''db.lan'' QueryA [?rr]) 7 ''db.lan'' QueryA ''s'' = Inr response"
      and answers: "qr_answers response = map (answer_of ''db.lan'') [?rr]"
    using response_built [of _ _ "0x8180" "[?rr]" 7 QueryA "''s''"] by (force simp: plain_record_def)
  from accepted_response_sound [OF this(1)] obtain offset end_offset where
    "answers_at (encode_response 7 0x8180 ''db.lan'' QueryA [?rr]) offset (qr_answers response) end_offset" by blast
  then show ?thesis unfolding answers
    by (auto simp: answer_of_def record_type_name_def record_text_def show_nat.simps digit_char_def char_of_def bit_0)
qed

text \<open>C36: the reverse zones of a network are distinct and cover it: the zone of every address of the network is
  among them, and up to a prefix of 24 bits, where zones can be as narrow as the network, no other zone is.\<close>

theorem reverse_zones_cover:
  assumes "reverse_zones_for_cidr cidr = Inr zones"
  shows "\<exists>network bits. parse_zone_cidr cidr = Inr (network, bits) \<and> distinct zones \<and>
    (\<forall>ip. (unat ip div 2 ^ (32 - bits) = unat network div 2 ^ (32 - bits) \<longrightarrow>
         zone_name (zone_octets bits) ip \<in> set zones) \<and>
      (bits \<le> 24 \<and> zone_name (zone_octets bits) ip \<in> set zones \<longrightarrow>
         unat ip div 2 ^ (32 - bits) = unat network div 2 ^ (32 - bits)))"
proof -
  obtain network bits where parsed: "parse_zone_cidr cidr = Inr (network, bits)" and zones: "zones = zones_of network bits"
    using assms by (auto simp: reverse_zones_for_cidr_def)
  note range = parse_zone_cidr_Inr [OF parsed]
  show ?thesis
  proof (cases "bits \<le> 24")
    case True
    then show ?thesis
      using parsed zones zones_of_cover [OF range(1) True range(3)] by blast
  next
    case False
    then have narrow: "24 < bits" by simp
    have "zones_of network bits = [zone_name (zone_octets bits) network]"
      by (rule zones_of_narrow [OF narrow range(2) refl])
    moreover have "zone_name (zone_octets bits) ip \<in> set zones"
      if "unat ip div 2 ^ (32 - bits) = unat network div 2 ^ (32 - bits)" for ip
      using zones_of_narrow [OF narrow range(2) that] by (simp only: zones list.set_intros(1))
    ultimately show ?thesis
      using parsed zones False by (metis distinct_singleton)
  qed
qed

theorem reverse_zones_cover_witness:
  "reverse_zones_for_cidr ''10.4.0.0/15'' = Inr [''4.10.in-addr.arpa'', ''5.10.in-addr.arpa''] \<and>
   distinct [''4.10.in-addr.arpa'', ''5.10.in-addr.arpa'']"
proof -
  have zones: "reverse_zones_for_cidr ''10.4.0.0/15'' = Inr [''4.10.in-addr.arpa'', ''5.10.in-addr.arpa'']"
  proof -
    have "parse_zone_cidr ''10.4.0.0/15'' = Inr (0xA040000, 15)"
      by (simp add: parse_zone_cidr_def exec_simps mask_eq_exp_minus_1)
    moreover have "zones_of 0xA040000 15 = [''4.10.in-addr.arpa'', ''5.10.in-addr.arpa'']"
      by (simp add: zones_of_def zone_octets_def zone_name_def octet_def upt_rec exec_simps)
    ultimately show ?thesis by (simp add: reverse_zones_for_cidr_def)
  qed
  show ?thesis using zones reverse_zones_cover [OF zones] by blast
qed

end
