(* ===== verification/ManagedFields.thy ===== *)
theory ManagedFields
  imports Rpc
begin

text \<open>
  Retiring the ownership of a \<open>kubectl create\<close> (\<open>kubernetes/managed_fields.rs\<close>). Kubernetes records for every
  field of an object which manager set it and how; \<open>migration\<close> turns the entries our manager has from
  creating an object (operation \<open>Update\<close>) into declarative ones (operation \<open>Apply\<close>): an optional bridge, an object
  to apply first, and a JSON patch of the recorded entries.

  A field set is a JSON object whose keys name fields (\<open>f:\<close>), list elements by key (\<open>k:\<close>) or value (\<open>v:\<close>), or the
  node itself (\<open>.\<close>), and whose leaves are empty objects. \<open>serde_json\<close> is the parameter \<open>json_lib\<close>: parsing a
  key's value and printing the inventory, whose length is bounded.

  What the definitions mean is shown in \<open>FieldSets\<close> (field sets are sets of paths) and \<open>Migration\<close> (the patch and
  the projections).
\<close>

section \<open>Field sets\<close>

record json_lib =
  jl_parse :: "string \<Rightarrow> (json, string) result"
  jl_text :: "json \<Rightarrow> string"

definition MANAGER :: string where "MANAGER = ''vzctl-kubernetes''"

definition ours :: "json \<Rightarrow> string \<Rightarrow> json \<Rightarrow> bool" where
  "ours entry operation version \<longleftrightarrow>
     json_get entry ''manager'' = JStr MANAGER \<and> json_get entry ''operation'' = JStr operation
     \<and> json_get entry ''apiVersion'' = version
     \<and> (case json_find entry ''subresource'' of None \<Rightarrow> True | Some v \<Rightarrow> v = JStr [])"

text \<open>\<open>v.as_object().map(Map::is_empty)\<close>\<close>

definition empty_object :: "json \<Rightarrow> bool option" where
  "empty_object v = (case v of JObj m \<Rightarrow> Some (m = []) | _ \<Rightarrow> None)"

fun merge_fields :: "json \<Rightarrow> json \<Rightarrow> (json, string) result"
  and merge_members :: "(string \<times> json) list \<Rightarrow> (string \<times> json) list \<Rightarrow> ((string \<times> json) list, string) result"
where
  "merge_fields target (JObj source) =
     (case target of
        JObj members \<Rightarrow> and_then (merge_members members source) (\<lambda>merged. Inr (JObj merged))
      | _ \<Rightarrow> Inl ''invalid managed field set'')"
| "merge_fields target _ = Inl ''invalid managed field set''"
| "merge_members target [] = Inr target"
| "merge_members target ((key, v) # source) =
     (case bm_get target key of
        Some current \<Rightarrow>
          if empty_object current \<noteq> empty_object v then
            Inl ''incompatible atomic/structured managed field ownership''
          else and_then (merge_fields current v) (\<lambda>merged. merge_members (bm_insert key merged target) source)
      | None \<Rightarrow> merge_members (bm_insert key v target) source)"

definition item_matches :: "(string \<times> json) list \<Rightarrow> json \<Rightarrow> bool" where
  "item_matches keys item \<longleftrightarrow> list_all (\<lambda>(k, v). json_find item k = Some v) keys"

definition current_field :: "json_lib \<Rightarrow> json \<Rightarrow> string \<Rightarrow> json option" where
  "current_field J current key =
     (if key = ''.'' then Some current
      else case strip_prefix key ''f:'' of
        Some name \<Rightarrow> json_find current name
      | None \<Rightarrow>
          (case current of
             JArr items \<Rightarrow>
               (let found =
                  (case strip_prefix key ''k:'' of
                     Some raw \<Rightarrow>
                       (case jl_parse J raw of
                          Inr (JObj keys) \<Rightarrow> if keys = [] then None else Some (filter (item_matches keys) items)
                        | _ \<Rightarrow> None)
                   | None \<Rightarrow>
                       (case strip_prefix key ''v:'' of
                          Some raw \<Rightarrow> (case jl_parse J raw of Inr v \<Rightarrow> Some (filter (\<lambda>item. item = v) items) | Inl _ \<Rightarrow> None)
                        | None \<Rightarrow> Some []))
                in case found of Some [item] \<Rightarrow> Some item | _ \<Rightarrow> None)
           | _ \<Rightarrow> None))"

definition element_key :: "string \<Rightarrow> bool" where
  "element_key key \<longleftrightarrow> starts_with key ''k:'' \<or> starts_with key ''v:''"

definition granular :: "bool \<Rightarrow> json \<Rightarrow> string list \<Rightarrow> bool" where
  "granular list_element current keys \<longleftrightarrow>
     \<not> list_element
     \<and> (case current of
          JObj _ \<Rightarrow> list_ex (\<lambda>key. starts_with key ''f:'') keys
        | JArr _ \<Rightarrow> list_ex element_key keys
        | _ \<Rightarrow> False)"

fun covers :: "json_lib \<Rightarrow> json \<Rightarrow> json \<Rightarrow> json \<Rightarrow> bool \<Rightarrow> bool"
  and covers_members :: "json_lib \<Rightarrow> (string \<times> json) list \<Rightarrow> (string \<times> json) list \<Rightarrow> json \<Rightarrow> bool \<Rightarrow> bool"
where
  "covers J cover (JObj fs) current list_element =
     (case cover of
        JObj covering \<Rightarrow>
          if fs = [] then covering = []
          else covers_members J covering fs current (granular list_element current (map fst fs))
      | _ \<Rightarrow> False)"
| "covers J cover _ current list_element = False"
| "covers_members J covering [] current container = True"
| "covers_members J covering ((key, v) # fs) current container =
     (((key = ''.'' \<and> v = JObj [] \<and> container)
       \<or> (case bm_get covering key of
            Some other \<Rightarrow>
              (case current_field J current key of
                 Some child \<Rightarrow> covers J other v child (element_key key)
               | None \<Rightarrow> False)
          | None \<Rightarrow> False))
      \<and> covers_members J covering fs current container)"

section \<open>Projection\<close>

text \<open>What a list key selects: the items that match, and the keys to write into the projection of an item.\<close>

definition list_selector :: "json_lib \<Rightarrow> string \<Rightarrow> ((json \<Rightarrow> bool) \<times> (string \<times> json) list option, string) result" where
  "list_selector J key =
     (case strip_prefix key ''k:'' of
        Some raw \<Rightarrow>
          (case jl_parse J raw of
             Inl _ \<Rightarrow> Inl ''invalid managed list key''
           | Inr selector \<Rightarrow>
               (case selector of
                  JObj keys \<Rightarrow>
                    if keys = [] then Inl ''invalid managed list key''
                    else if list_ex (\<lambda>v. is_object v \<or> (case v of JArr _ \<Rightarrow> True | JNull \<Rightarrow> True | _ \<Rightarrow> False)) (bm_values keys)
                    then Inl ''unsupported managed list key value''
                    else Inr (item_matches keys, Some keys)
                | _ \<Rightarrow> Inl ''invalid managed list key''))
      | None \<Rightarrow>
          (case strip_prefix key ''v:'' of
             Some raw \<Rightarrow>
               (case jl_parse J raw of
                  Inl _ \<Rightarrow> Inl ''invalid managed set value''
                | Inr v \<Rightarrow> Inr ((\<lambda>item. item = v), None))
           | None \<Rightarrow> Inl ''unsupported managed list field encoding''))"

definition insert_keys :: "(string \<times> json) list option \<Rightarrow> json \<Rightarrow> (json, string) result" where
  "insert_keys selector v =
     (case selector of
        None \<Rightarrow> Inr v
      | Some keys \<Rightarrow>
          (case v of
             JObj members \<Rightarrow> Inr (JObj (foldl (\<lambda>m (k, x). bm_insert k x m) members keys))
           | _ \<Rightarrow> Inl ''managed keyed list is not a map''))"

definition adjacent_equal :: "nat list \<Rightarrow> bool" where
  "adjacent_equal xs \<longleftrightarrow> list_ex (\<lambda>(a, b). a = b) (zip xs (tl xs))"

definition skipped :: "string \<Rightarrow> json \<Rightarrow> bool" where
  "skipped key child \<longleftrightarrow> key = ''.'' \<and> child = JObj []"

function project_fields :: "json_lib \<Rightarrow> json \<Rightarrow> json \<Rightarrow> nat \<Rightarrow> (json, string) result"
  and project_members :: "json_lib \<Rightarrow> (string \<times> json) list \<Rightarrow> (string \<times> json) list \<Rightarrow> nat
    \<Rightarrow> (string \<times> json) list \<Rightarrow> ((string \<times> json) list, string) result"
  and project_items :: "json_lib \<Rightarrow> json list \<Rightarrow> nat \<Rightarrow> (string \<times> json) list \<Rightarrow> nat \<Rightarrow> string list \<times> (nat \<times> json) list
    \<Rightarrow> (string list \<times> (nat \<times> json) list, string) result"
  and project_item :: "json_lib \<Rightarrow> json \<Rightarrow> nat \<Rightarrow> (string \<times> json) list \<Rightarrow> nat \<Rightarrow> string list \<times> (nat \<times> json) list
    \<Rightarrow> (string list \<times> (nat \<times> json) list, string) result"
where
  "project_fields J current fs depth =
     (if 64 < depth then Inl ''managed field projection exceeds depth limit''
      else case fs of
        JObj members \<Rightarrow>
          if members = [] then Inr current
          else (case current of
            JObj object \<Rightarrow> and_then (project_members J object members depth []) (\<lambda>result. Inr (JObj result))
          | JArr items \<Rightarrow>
              and_then (project_items J items 0 members depth ([], [])) (\<lambda>(selected, result).
                if length selected \<noteq> length (filter (\<lambda>key. key \<noteq> ''.'') (map fst members)) then
                  Inl ''managed list element missing from current object''
                else if adjacent_equal (map fst result) then Inl ''overlapping managed list element selectors''
                else Inr (JArr (map snd result)))
          | _ \<Rightarrow> Inl ''managed field structure does not match current object'')
      | _ \<Rightarrow> Inl ''invalid managed field set'')"
| "project_members J object [] depth result = Inr result"
| "project_members J object ((key, child) # fs) depth result =
     (if skipped key child then project_members J object fs depth result
      else and_then (ok_or ''unsupported managed map field'' (strip_prefix key ''f:'')) (\<lambda>name.
           and_then (ok_or ''managed field missing from current object'' (bm_get object name)) (\<lambda>v.
           and_then (project_fields J v child (depth + 1)) (\<lambda>projected.
             project_members J object fs depth (bm_insert name projected result)))))"
| "project_items J [] index fs depth st = Inr st"
| "project_items J (item # items) index fs depth st =
     and_then (project_item J item index fs depth st) (project_items J items (index + 1) fs depth)"
| "project_item J item index [] depth st = Inr st"
| "project_item J item index ((key, child) # fs) depth st =
     (if skipped key child then project_item J item index fs depth st
      else and_then (list_selector J key) (\<lambda>(matches, selector).
        if \<not> matches item then project_item J item index fs depth st
        else if key \<in> set (fst st) then Inl ''ambiguous managed list element''
        else and_then (project_fields J item child (depth + 1)) (\<lambda>projected.
             and_then (insert_keys selector projected) (\<lambda>v.
               project_item J item index fs depth (key # fst st, snd st @ [(index, v)])))))"
  by pat_completeness auto
termination
  by (relation "measures [\<lambda>x. case x of
        Inl (Inl (J, current, fs, depth)) \<Rightarrow> size fs
      | Inl (Inr (J, object, fs, depth, result)) \<Rightarrow> size_list (size_prod (\<lambda>_. 0) size) fs
      | Inr (Inl (J, items, index, fs, depth, st)) \<Rightarrow> size_list (size_prod (\<lambda>_. 0) size) fs
      | Inr (Inr (J, item, index, fs, depth, st)) \<Rightarrow> size_list (size_prod (\<lambda>_. 0) size) fs,
      \<lambda>x. case x of
        Inl _ \<Rightarrow> 0
      | Inr (Inl (J, items, index, fs, depth, st)) \<Rightarrow> Suc (length items)
      | Inr (Inr _) \<Rightarrow> 0]") simp_all

section \<open>Intent\<close>

text \<open>The part of the desired object a key names, and the list elements selected so far.\<close>

definition intent_list :: "json_lib \<Rightarrow> string \<Rightarrow> json \<Rightarrow> nat list \<Rightarrow> (json option \<times> nat list, string) result" where
  "intent_list J raw desired chosen =
     (case jl_parse J raw of
        Inl _ \<Rightarrow> Inl ''invalid intent list key''
      | Inr selector \<Rightarrow>
          (case selector of
             JObj keys \<Rightarrow>
               if keys = [] then Inl ''invalid intent list key''
               else (case desired of
                 JArr items \<Rightarrow>
                   (let found = filter (\<lambda>(_, item).
                        list_ex (\<lambda>(name, _). json_find item name \<noteq> None) keys
                        \<and> list_all (\<lambda>(name, v). json_find item name \<in> {None, Some v}) keys) (enumerate 0 items)
                    in if 1 < length found then Inl ''ambiguous desired list key''
                       else (case found of
                         [] \<Rightarrow> Inr (None, chosen)
                       | (index, item) # _ \<Rightarrow>
                           if index \<in> set chosen then Inl ''ambiguous desired list key''
                           else Inr (Some item, index # chosen)))
               | _ \<Rightarrow> Inl ''invalid desired list'')
           | _ \<Rightarrow> Inl ''invalid intent list key''))"

definition intent_selected :: "json_lib \<Rightarrow> string \<Rightarrow> json \<Rightarrow> nat list \<Rightarrow> (json option \<times> nat list, string) result" where
  "intent_selected J key desired chosen =
     (if key = ''.'' then Inr (Some desired, chosen)
      else case strip_prefix key ''f:'' of
        Some name \<Rightarrow> Inr (json_find desired name, chosen)
      | None \<Rightarrow>
          (case strip_prefix key ''k:'' of
             Some raw \<Rightarrow> intent_list J raw desired chosen
           | None \<Rightarrow>
               (case strip_prefix key ''v:'' of
                  Some raw \<Rightarrow>
                    (case jl_parse J raw of
                       Inl _ \<Rightarrow> Inl ''invalid intent set value''
                     | Inr v \<Rightarrow>
                         (case desired of
                            JArr items \<Rightarrow> Inr (find (\<lambda>item. item = v) items, chosen)
                          | _ \<Rightarrow> Inl ''invalid desired set''))
                | None \<Rightarrow> Inl ''unsupported managed intent encoding'')))"

text \<open>The key fields of a list element go with the element.\<close>

fun insert_key_fields :: "string list \<Rightarrow> (string \<times> json) list \<Rightarrow> json \<Rightarrow> (json, string) result" where
  "insert_key_fields [] child v = Inr v"
| "insert_key_fields (name # names) child v =
     (case bm_get child (''f:'' @ name) of
        None \<Rightarrow> insert_key_fields names child v
      | Some key_field \<Rightarrow>
          (case v of
             JObj members \<Rightarrow> insert_key_fields names child (JObj (bm_insert (''f:'' @ name) key_field members))
           | _ \<Rightarrow> Inl ''invalid intent list fields''))"

definition add_key_fields :: "json_lib \<Rightarrow> string \<Rightarrow> (string \<times> json) list \<Rightarrow> json \<Rightarrow> (json, string) result" where
  "add_key_fields J key child v =
     (case strip_prefix key ''k:'' of
        None \<Rightarrow> Inr v
      | Some raw \<Rightarrow>
          (case jl_parse J raw of
             Inr (JObj keys) \<Rightarrow> insert_key_fields (map fst keys) child v
           | _ \<Rightarrow> Inl ''invalid intent list key''))"

function intended :: "json_lib \<Rightarrow> json \<Rightarrow> json \<Rightarrow> nat \<Rightarrow> (json, string) result"
  and intended_members :: "json_lib \<Rightarrow> (string \<times> json) list \<Rightarrow> json \<Rightarrow> nat \<Rightarrow> nat list \<Rightarrow> (string \<times> json) list
    \<Rightarrow> ((string \<times> json) list, string) result"
  and intended_child :: "json_lib \<Rightarrow> json \<Rightarrow> string \<Rightarrow> json \<Rightarrow> nat \<Rightarrow> (json, string) result"
where
  "intended J fieldset desired depth =
     (if 64 < depth then Inl ''managed intent exceeds depth limit''
      else case fieldset of
        JObj fs \<Rightarrow> and_then (intended_members J fs desired depth [] []) (\<lambda>result. Inr (JObj result))
      | _ \<Rightarrow> Inl ''invalid managed intent fields'')"
| "intended_members J [] desired depth chosen result = Inr result"
| "intended_members J ((key, child) # fs) desired depth chosen result =
     and_then (intent_selected J key desired chosen) (\<lambda>(selected, chosen).
       case selected of
         None \<Rightarrow> intended_members J fs desired depth chosen result
       | Some part \<Rightarrow>
           and_then (intended_child J child key part depth) (\<lambda>v.
             intended_members J fs desired depth chosen
               (if child = JObj [] \<or> empty_object v = Some False then bm_insert key v result else result)))"
| "intended_child J child key part depth =
     (case child of
        JObj members \<Rightarrow>
          and_then (if members = [] then Inr (JObj []) else intended J child part (depth + 1)) (add_key_fields J key members)
      | _ \<Rightarrow> Inl ''invalid managed intent child'')"
  by pat_completeness auto
termination
  by (relation "measures [\<lambda>x. case x of
        Inl (J, fieldset, desired, depth) \<Rightarrow> size fieldset
      | Inr (Inl (J, fs, desired, depth, chosen, result)) \<Rightarrow> size_list (size_prod (\<lambda>_. 0) size) fs
      | Inr (Inr (J, child, key, part, depth)) \<Rightarrow> size child,
      \<lambda>x. case x of Inl _ \<Rightarrow> 0 | Inr (Inl _) \<Rightarrow> 0 | Inr (Inr _) \<Rightarrow> 1]") simp_all

section \<open>Intersection and difference\<close>

fun field_intersection :: "json \<Rightarrow> json \<Rightarrow> (json, string) result"
  and intersection_members :: "(string \<times> json) list \<Rightarrow> (string \<times> json) list \<Rightarrow> (string \<times> json) list
    \<Rightarrow> ((string \<times> json) list, string) result"
where
  "field_intersection (JObj left) right =
     (case right of
        JObj others \<Rightarrow> and_then (intersection_members left others []) (\<lambda>result. Inr (JObj result))
      | _ \<Rightarrow> Inl ''invalid field intersection'')"
| "field_intersection _ right = Inl ''invalid field intersection''"
| "intersection_members [] others result = Inr result"
| "intersection_members ((key, child) # left) others result =
     (case bm_get others key of
        None \<Rightarrow> intersection_members left others result
      | Some other \<Rightarrow>
          and_then (ok_or ''invalid field intersection child'' (empty_object child)) (\<lambda>is_empty.
          and_then (ok_or ''invalid field intersection child'' (empty_object other)) (\<lambda>other_empty.
            if is_empty \<noteq> other_empty then Inl ''incompatible atomic/structured field intersection''
            else and_then (field_intersection child other) (\<lambda>v.
              intersection_members left others
                (if is_empty \<or> empty_object v = Some False then bm_insert key v result else result)))))"

fun field_difference :: "json \<Rightarrow> json \<Rightarrow> (json, string) result"
  and difference_members :: "(string \<times> json) list \<Rightarrow> (string \<times> json) list \<Rightarrow> ((string \<times> json) list, string) result"
where
  "field_difference fieldset (JObj removed) =
     (case fieldset of
        JObj members \<Rightarrow> and_then (difference_members members removed) (\<lambda>result. Inr (JObj result))
      | _ \<Rightarrow> Inl ''invalid field difference'')"
| "field_difference fieldset _ = Inl ''invalid field difference''"
| "difference_members result [] = Inr result"
| "difference_members result ((key, child) # removed) =
     (case bm_get result key of
        None \<Rightarrow> difference_members result removed
      | Some current \<Rightarrow>
          and_then (ok_or ''invalid field difference child'' (empty_object child)) (\<lambda>is_empty.
          and_then (ok_or ''invalid field difference child'' (empty_object current)) (\<lambda>current_empty.
            if is_empty \<noteq> current_empty then Inl ''incompatible atomic/structured field difference''
            else and_then (field_difference current child) (\<lambda>v.
              difference_members (if v = JObj [] then bm_remove key result else bm_insert key v result) removed))))"

section \<open>The migration\<close>

record migration_plan =
  mig_bridge :: "json option"
  mig_patch :: json
  mig_retained :: json

definition meta :: "json \<Rightarrow> string \<Rightarrow> json" where
  "meta v field = json_get (json_get v ''metadata'') field"

definition nonempty_text :: "json \<Rightarrow> string option" where
  "nonempty_text v = (case v of JStr s \<Rightarrow> if s = [] then None else Some s | _ \<Rightarrow> None)"

text \<open>The fields our manager has by creation and by application.\<close>

fun own_fields :: "json \<Rightarrow> json list \<Rightarrow> json \<times> json \<Rightarrow> (json \<times> json, string) result" where
  "own_fields version [] st = Inr st"
| "own_fields version (entry # entries) (updated, applied) =
     (if ours entry ''Update'' version \<or> ours entry ''Apply'' version then
        if json_get entry ''fieldsType'' \<noteq> JStr ''FieldsV1'' \<or> \<not> is_object (json_get entry ''fieldsV1'') then
          Inl ''unsupported own managed field format''
        else if json_get entry ''operation'' = JStr ''Update'' then
          and_then (merge_fields updated (json_get entry ''fieldsV1'')) (\<lambda>merged. own_fields version entries (merged, applied))
        else and_then (merge_fields applied (json_get entry ''fieldsV1'')) (\<lambda>merged. own_fields version entries (updated, merged))
      else own_fields version entries (updated, applied))"

definition set_or_panic :: "json option \<Rightarrow> (json, string) result" where
  "set_or_panic = ok_or ''panic: cannot index''"

definition bridge_identity :: "json \<Rightarrow> string \<Rightarrow> string \<Rightarrow> json \<Rightarrow> (json, string) result" where
  "bridge_identity current uid rv v =
     and_then (set_or_panic (json_set v ''apiVersion'' (json_get current ''apiVersion''))) (\<lambda>v.
     and_then (set_or_panic (json_set v ''kind'' (json_get current ''kind''))) (\<lambda>v.
     and_then (set_or_panic (set_metadata v ''name'' (meta current ''name''))) (\<lambda>v.
     and_then (case json_find (json_get current ''metadata'') ''namespace'' of
         Some namespace \<Rightarrow> set_or_panic (set_metadata v ''namespace'' namespace)
       | None \<Rightarrow> Inr v) (\<lambda>v.
     and_then (set_or_panic (set_metadata v ''uid'' (JStr uid))) (\<lambda>v.
       set_or_panic (set_metadata v ''resourceVersion'' (JStr rv)))))))"

definition migration_bridge ::
    "json_lib \<Rightarrow> json \<Rightarrow> json \<Rightarrow> json \<Rightarrow> string \<Rightarrow> string \<Rightarrow> (json option, string) result" where
  "migration_bridge J current applied transferred uid rv =
     (if covers J applied transferred current False then Inr None
      else and_then (merge_fields applied transferred) (\<lambda>applied.
           and_then (project_fields J current applied 0) (\<lambda>v.
           and_then (bridge_identity current uid rv v) (\<lambda>v. Inr (Some v)))))"

definition test_op :: "string \<Rightarrow> json \<Rightarrow> json" where
  "test_op path v = json_obj [(''op'', JStr ''test''), (''path'', JStr path), (''value'', v)]"

definition entry_path :: "nat \<Rightarrow> string" where
  "entry_path index = ''/metadata/managedFields/'' @ show_nat index"

definition remove_op :: "nat \<Rightarrow> json" where
  "remove_op index = json_obj [(''op'', JStr ''remove''), (''path'', JStr (entry_path index))]"

definition replace_op :: "nat \<Rightarrow> json \<Rightarrow> json" where
  "replace_op index v =
     json_obj [(''op'', JStr ''replace''), (''path'', JStr (entry_path index @ ''/fieldsV1'')), (''value'', v)]"

definition remaining_fields :: "json \<Rightarrow> json \<Rightarrow> (json, string) result" where
  "remaining_fields transferred entry =
     and_then (field_intersection (json_get entry ''fieldsV1'') transferred) (field_difference (json_get entry ''fieldsV1''))"

text \<open>The own \<open>Update\<close> entries are retired from the last to the first, so the indexes of the earlier ones stay.\<close>

fun retire :: "json \<Rightarrow> (nat \<times> json) list \<Rightarrow> json list \<Rightarrow> json list \<Rightarrow> (json list \<times> json list, string) result" where
  "retire transferred [] patch retained = Inr (patch, retained)"
| "retire transferred ((index, entry) # updates) patch retained =
     and_then (remaining_fields transferred entry) (\<lambda>remaining.
       if remaining = JObj [] then
         retire transferred updates (patch @ [remove_op index]) (remove_at index retained)
       else if remaining \<noteq> json_get entry ''fieldsV1'' then
         and_then (set_or_panic (json_set (retained ! index) ''fieldsV1'' remaining)) (\<lambda>replaced.
           retire transferred updates (patch @ [replace_op index remaining]) (retained[index := replaced]))
       else retire transferred updates patch retained)"

definition migration :: "json_lib \<Rightarrow> json \<Rightarrow> json \<Rightarrow> (migration_plan option, string) result" where
  "migration J current desired =
     (case json_find (json_get current ''metadata'') ''managedFields'' of
        None \<Rightarrow> Inr None
      | Some (JArr entries) \<Rightarrow>
          if 128 < length entries \<or> 128 * 1024 < length (jl_text J (JArr entries)) then
            Inl ''managedFields inventory exceeds migration limit''
          else
            (let version = json_get current ''apiVersion'';
                 updates = filter (\<lambda>(_, entry). ours entry ''Update'' version) (enumerate 0 entries)
             in if updates = [] then Inr None
                else
                  and_then (own_fields version entries (JObj [], JObj [])) (\<lambda>(updated, applied).
                  and_then (intended J updated desired 0) (\<lambda>intent.
                  and_then (field_intersection updated applied) (\<lambda>shared.
                  and_then (merge_fields intent shared) (\<lambda>transferred.
                    if transferred = JObj [] then Inr None
                    else
                      and_then (ok_or ''field migration requires UID'' (nonempty_text (meta current ''uid''))) (\<lambda>uid.
                      and_then (ok_or ''field migration requires resourceVersion''
                        (nonempty_text (meta current ''resourceVersion''))) (\<lambda>rv.
                      and_then (migration_bridge J current applied transferred uid rv) (\<lambda>bridge.
                      and_then (retire transferred (rev updates)
                          [test_op ''/metadata/uid'' (JStr uid), test_op ''/metadata/resourceVersion'' (JStr rv),
                           test_op ''/metadata/managedFields'' (JArr entries)] entries) (\<lambda>(patch, retained).
                        Inr (Some \<lparr>mig_bridge = bridge, mig_patch = JArr patch, mig_retained = JArr retained\<rparr>))))))))))
      | Some _ \<Rightarrow> Inl ''invalid managedFields inventory'')"

text \<open>\<open>result["metadata"]\<close> as a place: null becomes an object, a missing member null, and any other value panics.\<close>

definition comparable_values :: "json \<Rightarrow> (json, string) result" where
  "comparable_values v =
     (case v of
        JObj members \<Rightarrow>
          Inr (JObj (bm_insert ''metadata''
            (case bm_get members ''metadata'' of
               Some (JObj m) \<Rightarrow> JObj (bm_remove ''managedFields'' (bm_remove ''resourceVersion'' m))
             | Some other \<Rightarrow> other
             | None \<Rightarrow> JNull) members))
      | JNull \<Rightarrow> Inr (JObj [(''metadata'', JNull)])
      | _ \<Rightarrow> Inl ''panic: cannot index'')"

definition same_values :: "json \<Rightarrow> json \<Rightarrow> (bool, string) result" where
  "same_values before after =
     and_then (comparable_values before) (\<lambda>a. and_then (comparable_values after) (\<lambda>b. Inr (a = b)))"

section \<open>Leaves\<close>

text \<open>The fields a set names: the paths to its empty objects.\<close>

fun field_leaves :: "json \<Rightarrow> string list list"
  and member_leaves :: "(string \<times> json) list \<Rightarrow> string list list"
where
  "field_leaves (JObj members) = member_leaves members"
| "field_leaves _ = []"
| "member_leaves [] = []"
| "member_leaves ((key, child) # members) =
     (if child = JObj [] then [[key]] else map (Cons key) (field_leaves child)) @ member_leaves members"

definition below :: "json \<Rightarrow> string list set" where
  "below child = (if child = JObj [] then {[]} else set (field_leaves child))"

lemma member_leaves_Nil [simp]: "[] \<notin> set (member_leaves members)"
  by (induction members) (auto split: if_splits)

lemma member_leaves_Cons:
  "distinct (map fst members) \<Longrightarrow>
    key # path \<in> set (member_leaves members) \<longleftrightarrow> (\<exists>child. bm_get members key = Some child \<and> path \<in> below child)"
proof (induction members)
  case (Cons member members)
  have "key \<notin> fst ` set members \<Longrightarrow> bm_get members key = None" by (simp add: map_of_eq_None_iff)
  then show ?case using Cons by (cases member) (auto simp: below_def)
qed simp

end
