(* ===== verification/FieldSets.thy ===== *)
theory FieldSets
  imports ManagedFields
begin

text \<open>
  The fields a set names are the paths to its leaves (\<open>field_leaves\<close>). On well-formed sets, merging is union,
  \<open>field_intersection\<close> is intersection and \<open>field_difference\<close> is difference of leaves, and the result
  is well-formed; each fails when one set ends where the other goes on.
\<close>

section \<open>Sets of leaves\<close>

lemma json_wf_get: "json_wf (JObj members) \<Longrightarrow> bm_get members key = Some child \<Longrightarrow> json_wf child"
  by (force dest: map_of_SomeD)

lemma json_wf_insert: "json_wf (JObj members) \<Longrightarrow> json_wf child \<Longrightarrow> json_wf (JObj (bm_insert key child members))"
proof -
  assume wf: "json_wf (JObj members)" "json_wf child"
  have "set (bm_insert key child members) \<subseteq> insert (key, child) (set members)"
    by (induction members) auto
  then show ?thesis using wf by fastforce
qed

lemma json_wf_remove: "json_wf (JObj members) \<Longrightarrow> json_wf (JObj (bm_remove key members))"
  by (simp add: bm_wf_remove) (auto simp: bm_remove_def)

text \<open>Membership of a path, as a set: what the three operations compute.\<close>

definition leaf_set :: "(string \<times> json) list \<Rightarrow> string list set" where
  "leaf_set members = set (member_leaves members)"

lemma leaf_set_Nil [simp]: "leaf_set [] = {}"
  by (simp add: leaf_set_def)

lemma leaf_set_insert:
  assumes "bm_wf members"
  shows "leaf_set (bm_insert key child members) =
    {path \<in> leaf_set members. hd path \<noteq> key} \<union> Cons key ` below child"
proof -
  have "path \<in> leaf_set (bm_insert key child members) \<longleftrightarrow>
      path \<in> leaf_set members \<and> hd path \<noteq> key \<or> path \<in> Cons key ` below child" for path
  proof (cases path)
    case Nil
    then show ?thesis by (auto simp: leaf_set_def)
  next
    case (Cons k q)
    then show ?thesis
      using assms by (auto simp: leaf_set_def member_leaves_Cons bm_wf_distinct bm_get_insert simp del: map_map)
  qed
  then show ?thesis by blast
qed

lemma leaf_set_remove:
  assumes "bm_wf members"
  shows "leaf_set (bm_remove key members) = {path \<in> leaf_set members. hd path \<noteq> key}"
proof -
  have "path \<in> leaf_set (bm_remove key members) \<longleftrightarrow> path \<in> leaf_set members \<and> hd path \<noteq> key" for path
  proof (cases path)
    case Nil
    then show ?thesis by (auto simp: leaf_set_def)
  next
    case (Cons k q)
    then show ?thesis
      using assms by (auto simp: leaf_set_def member_leaves_Cons bm_wf_distinct bm_get_remove simp del: map_map)
  qed
  then show ?thesis by blast
qed

lemma leaf_set_Cons:
  assumes "bm_wf ((key, child) # members)"
  shows "leaf_set ((key, child) # members) = leaf_set members \<union> Cons key ` below child"
    and "path \<in> leaf_set members \<Longrightarrow> hd path \<noteq> key"
proof -
  show "leaf_set ((key, child) # members) = leaf_set members \<union> Cons key ` below child"
    by (auto simp: leaf_set_def below_def)
  have "bm_get members key = None" using bm_wf_distinct [OF assms] by (simp add: map_of_eq_None_iff)
  moreover have "distinct (map fst members)" using bm_wf_distinct [OF assms] by simp
  ultimately show "path \<in> leaf_set members \<Longrightarrow> hd path \<noteq> key"
    by (cases path) (auto simp: leaf_set_def member_leaves_Cons)
qed

lemma leaf_set_get:
  assumes "bm_wf members" "bm_get members key = Some child"
  shows "{path \<in> leaf_set members. hd path = key} = Cons key ` below child"
proof -
  have "path \<in> leaf_set members \<and> hd path = key \<longleftrightarrow> path \<in> Cons key ` below child" for path
    using assms
    by (cases path)
      (auto simp: leaf_set_def member_leaves_Cons bm_wf_distinct simp del: map_of_eq_Some_iff Some_eq_map_of_iff)
  then show ?thesis by blast
qed

lemma leaf_set_missing:
  assumes "bm_wf members" "bm_get members key = None"
  shows "path \<in> leaf_set members \<Longrightarrow> hd path \<noteq> key"
  using assms by (cases path) (auto simp: leaf_set_def member_leaves_Cons bm_wf_distinct)


section \<open>Merging is union\<close>

lemma empty_object_simps [simp]:
  "empty_object (JObj m) = Some (m = [])" "empty_object v = Some True \<longleftrightarrow> v = JObj []"
  "empty_object v = Some False \<longleftrightarrow> (\<exists>m. v = JObj m \<and> m \<noteq> [])"
  by (auto simp: empty_object_def split: json.splits)

lemma bm_insert_nonempty [simp]: "bm_insert key child members \<noteq> []"
  by (cases members) auto

lemma merge_members_nonempty: "merge_members target source = Inr merged \<Longrightarrow> target \<noteq> [] \<Longrightarrow> merged \<noteq> []"
  by (induction source arbitrary: target) (force split: option.splits if_splits)+

lemma merge_leaves:
  "merge_fields target source = Inr merged \<Longrightarrow> json_wf target \<Longrightarrow> json_wf source \<Longrightarrow>
    json_wf merged \<and> (\<exists>t s m. target = JObj t \<and> source = JObj s \<and> merged = JObj m \<and> (t \<noteq> [] \<longrightarrow> m \<noteq> [])
      \<and> (t = [] \<and> s = [] \<longrightarrow> m = []) \<and> leaf_set m = leaf_set t \<union> leaf_set s)"
  "merge_members t s = Inr m \<Longrightarrow> json_wf (JObj t) \<Longrightarrow> json_wf (JObj s) \<Longrightarrow>
    json_wf (JObj m) \<and> (t \<noteq> [] \<longrightarrow> m \<noteq> []) \<and> (t = [] \<and> s = [] \<longrightarrow> m = []) \<and> leaf_set m = leaf_set t \<union> leaf_set s"
proof (induction target source and t s arbitrary: merged and m rule: merge_fields_merge_members.induct)
  case (1 target source)
  then show ?case by (cases target) auto
next
  case (4 target key v source)
  have wf: "json_wf v" "json_wf (JObj source)" "bm_wf ((key, v) # source)" "bm_wf target"
    using "4.prems" by (auto simp: bm_wf_def)
  show ?case
  proof (cases "bm_get target key")
    case None
    have "json_wf (JObj (bm_insert key v target))" using "4.prems" wf by (intro json_wf_insert)
    then have "json_wf (JObj m) \<and> m \<noteq> [] \<and> leaf_set m = leaf_set (bm_insert key v target) \<union> leaf_set source"
      using "4.IH"(1) [OF None] "4.prems" wf None by auto
    moreover have "{path \<in> leaf_set target. hd path \<noteq> key} = leaf_set target"
      using leaf_set_missing [OF wf(4) None] by auto
    ultimately show ?thesis
      by (simp add: leaf_set_insert [OF wf(4)] leaf_set_Cons [OF wf(3)] Un_ac)
  next
    case (Some current)
    obtain merged where merged: "empty_object current = empty_object v" "merge_fields current v = Inr merged"
        "merge_members (bm_insert key merged target) source = Inr m"
      using "4.prems"(1) Some by (auto split: if_splits)
    have current: "json_wf current" using json_wf_get [OF "4.prems"(2) Some] .
    have sub: "json_wf merged" "below merged = below current \<union> below v"
      using "4.IH"(2) [OF Some _ merged(2) current wf(1)] merged(1) by (auto simp: below_def leaf_set_def)
    have "json_wf (JObj (bm_insert key merged target))" using "4.prems" sub by (intro json_wf_insert)
    then have "json_wf (JObj m) \<and> m \<noteq> [] \<and> leaf_set m = leaf_set (bm_insert key merged target) \<union> leaf_set source"
      using "4.IH"(3) [OF Some _ merged(3)] merged(1) wf by auto
    moreover have "leaf_set (bm_insert key merged target) = leaf_set target \<union> Cons key ` below v"
      using leaf_set_get [OF wf(4) Some] unfolding leaf_set_insert [OF wf(4)] sub(2) image_Un by blast
    ultimately show ?thesis
      by (simp add: leaf_set_Cons [OF wf(3)] Un_ac)
  qed
qed auto


section \<open>Intersection and difference of leaves\<close>

lemma below_obj: "m \<noteq> [] \<Longrightarrow> below (JObj m) = leaf_set m" "below (JObj []) = {[]}"
  by (simp_all add: below_def leaf_set_def)

lemma intersection_leaves:
  "field_intersection a b = Inr c \<Longrightarrow> json_wf a \<Longrightarrow> json_wf b \<Longrightarrow>
    json_wf c \<and> (\<exists>l r m. a = JObj l \<and> b = JObj r \<and> c = JObj m \<and> (l = [] \<longrightarrow> m = [])
      \<and> leaf_set m = leaf_set l \<inter> leaf_set r)"
  "intersection_members l r result = Inr m \<Longrightarrow> json_wf (JObj l) \<Longrightarrow> json_wf (JObj r) \<Longrightarrow> json_wf (JObj result) \<Longrightarrow>
    set (map fst l) \<inter> set (map fst result) = {} \<Longrightarrow>
    json_wf (JObj m) \<and> (l = [] \<longrightarrow> m = result) \<and> leaf_set m = leaf_set result \<union> leaf_set l \<inter> leaf_set r"
proof (induction a b and l r result arbitrary: c and m rule: field_intersection_intersection_members.induct)
  case (1 left right)
  then show ?case by (cases right) (auto simp: bm_wf_def)
next
  case (4 key child left others result)
  have wf: "json_wf child" "json_wf (JObj left)" "bm_wf ((key, child) # left)" "bm_wf others" "bm_wf result"
    using "4.prems" by (auto simp: bm_wf_def)
  have fresh: "key \<notin> set (map fst left)" "key \<notin> set (map fst result)"
      "set (map fst left) \<inter> set (map fst result) = {}"
    using bm_wf_distinct [OF wf(3)] "4.prems"(5) by auto
  show ?case
  proof (cases "bm_get others key")
    case None
    have "Cons key ` below child \<inter> leaf_set others = {}"
      using leaf_set_missing [OF wf(4) None] by fastforce
    moreover have "intersection_members left others result = Inr m" using "4.prems"(1) None by simp
    then have "json_wf (JObj m) \<and> leaf_set m = leaf_set result \<union> leaf_set left \<inter> leaf_set others"
      using "4.IH"(1) [OF None _ wf(2) "4.prems"(3,4) fresh(3)] by blast
    ultimately show ?thesis unfolding leaf_set_Cons(1) [OF wf(3)] by blast
  next
    case (Some other)
    obtain e v where v: "empty_object child = Some e" "empty_object other = Some e" "field_intersection child other = Inr v"
        "intersection_members left others (if e \<or> empty_object v = Some False then bm_insert key v result else result) = Inr m"
      using "4.prems"(1) Some by (auto split: if_splits)
    have other: "json_wf other" using json_wf_get [OF "4.prems"(3) Some] .
    note IH = "4.IH"(2) [OF Some _ v(3) wf(1) other]
    obtain x y z where objs: "child = JObj x" "other = JObj y" "v = JObj z" "x = [] \<longrightarrow> z = []"
        "leaf_set z = leaf_set x \<inter> leaf_set y" "json_wf v"
      using IH by auto
    let ?next = "if e \<or> empty_object v = Some False then bm_insert key v result else result"
    have "leaf_set result = {path \<in> leaf_set result. hd path \<noteq> key}"
      using leaf_set_missing [OF wf(5), of key] fresh(2) by (auto simp: map_of_eq_None_iff)
    then have step: "leaf_set ?next = leaf_set result \<union> Cons key ` (below child \<inter> below other)"
      using v(1,2) objs leaf_set_insert [OF wf(5), of key v] by (cases "z = []"; cases "x = []"; cases "y = []") (auto simp: below_obj)
    have "json_wf (JObj ?next)"
      using json_wf_insert [OF "4.prems"(4) objs(6)] "4.prems"(4) by (simp del: json_wf.simps)
    moreover have "set (map fst left) \<inter> set (map fst ?next) = {}"
      using fresh by (auto simp del: set_map simp: keys_bm_insert)
    ultimately have rest: "json_wf (JObj m) \<and> leaf_set m = leaf_set ?next \<union> leaf_set left \<inter> leaf_set others"
      using "4.IH"(3) [OF Some _ v(4) wf(2) "4.prems"(3)] by blast
    have "Cons key ` below child \<inter> leaf_set others = Cons key ` (below child \<inter> below other)"
    proof -
      have "Cons key ` below child \<inter> leaf_set others = Cons key ` below child \<inter> Cons key ` below other"
        unfolding leaf_set_get [OF wf(4) Some, symmetric] by auto
      then show ?thesis by blast
    qed
    then show ?thesis
      using rest step leaf_set_Cons(1) [OF wf(3)] by auto
  qed
qed auto

lemma difference_leaves:
  "field_difference a b = Inr c \<Longrightarrow> json_wf a \<Longrightarrow> json_wf b \<Longrightarrow>
    json_wf c \<and> (\<exists>l r m. a = JObj l \<and> b = JObj r \<and> c = JObj m \<and> (l = [] \<longrightarrow> m = [])
      \<and> leaf_set m = leaf_set l - leaf_set r)"
  "difference_members l r = Inr m \<Longrightarrow> json_wf (JObj l) \<Longrightarrow> json_wf (JObj r) \<Longrightarrow>
    json_wf (JObj m) \<and> (l = [] \<longrightarrow> m = []) \<and> leaf_set m = leaf_set l - leaf_set r"
proof (induction a b and l r arbitrary: c and m rule: field_difference_difference_members.induct)
  case (1 fieldset removed)
  then show ?case by (cases fieldset) auto
next
  case (4 result key child removed)
  have wf: "json_wf child" "json_wf (JObj removed)" "bm_wf ((key, child) # removed)" "bm_wf result"
    using "4.prems" by (auto simp: bm_wf_def)
  show ?case
  proof (cases "bm_get result key")
    case None
    have "Cons key ` below child \<inter> leaf_set result = {}"
      using leaf_set_missing [OF wf(4) None] by fastforce
    moreover have "difference_members result removed = Inr m" using "4.prems"(1) None by simp
    then have "json_wf (JObj m) \<and> (result = [] \<longrightarrow> m = []) \<and> leaf_set m = leaf_set result - leaf_set removed"
      using "4.IH"(1) [OF None _ "4.prems"(2) wf(2)] by blast
    ultimately show ?thesis unfolding leaf_set_Cons(1) [OF wf(3)] by blast
  next
    case (Some current)
    obtain e v where v: "empty_object child = Some e" "empty_object current = Some e" "field_difference current child = Inr v"
        "difference_members (if v = JObj [] then bm_remove key result else bm_insert key v result) removed = Inr m"
      using "4.prems"(1) Some by (auto split: if_splits)
    have current: "json_wf current" using json_wf_get [OF "4.prems"(2) Some] .
    note IH = "4.IH"(2) [OF Some _ v(3) current wf(1)]
    obtain x y z where objs: "current = JObj x" "child = JObj y" "v = JObj z" "x = [] \<longrightarrow> z = []"
        "leaf_set z = leaf_set x - leaf_set y" "json_wf v"
      using IH by auto
    let ?next = "if v = JObj [] then bm_remove key result else bm_insert key v result"
    define keep where "keep = {path \<in> leaf_set result. hd path \<noteq> key}"
    have "leaf_set result = keep \<union> {path \<in> leaf_set result. hd path = key}" by (auto simp: keep_def)
    then have result: "leaf_set result = keep \<union> Cons key ` below current"
      by (simp only: leaf_set_get [OF wf(4) Some])
    have "below current - below child = (if z = [] then {} else below v)"
      using v(1,2) objs by (cases "x = []"; cases "y = []") (auto simp: below_obj)
    then have "leaf_set ?next = keep \<union> Cons key ` (below current - below child)"
      using objs(3) leaf_set_insert [OF wf(4), of key v] leaf_set_remove [OF wf(4), of key]
      by (cases "z = []") (simp_all only: keep_def if_True if_False refl json.inject image_empty Un_empty_right)
    moreover have "keep \<inter> Cons key ` X = {}" for X by (auto simp: keep_def)
    ultimately have step: "leaf_set ?next = leaf_set result - Cons key ` below child"
      unfolding result by blast
    have "json_wf (JObj ?next)"
      using json_wf_insert [OF "4.prems"(2) objs(6)] json_wf_remove [OF "4.prems"(2)] by (simp del: json_wf.simps)
    then have "json_wf (JObj m) \<and> (?next = [] \<longrightarrow> m = []) \<and> leaf_set m = leaf_set ?next - leaf_set removed"
      using "4.IH"(3) [OF Some _ v(4)] wf by blast
    then show ?thesis
      using step Some leaf_set_Cons(1) [OF wf(3)] by auto
  qed
qed auto

end
