(* ===== verification/Migration.thy ===== *)
theory Migration
  imports FieldSets
begin

text \<open>
  What a migration of managed fields does (\<open>ManagedFields\<close>). The JSON patch is given its meaning (\<open>run_patch\<close>,
  after RFC 6902), and retiring entries from the last to the first is shown to be that patch and to
  treat every entry by itself. \<open>part_of\<close> says that a value asserts nothing but what another has;
  projections have it.
\<close>

section \<open>JSON patches\<close>

text \<open>What a JSON patch does to a document (RFC 6902): the operations the program uses, at paths without escapes.\<close>

definition json_child :: "json \<Rightarrow> string \<Rightarrow> json option" where
  "json_child doc token =
     (case doc of
        JObj members \<Rightarrow> bm_get members token
      | JArr items \<Rightarrow>
          (case parse_uint 18446744073709551616 token of
             Some i \<Rightarrow> if i < length items then Some (items ! i) else None
           | None \<Rightarrow> None)
      | _ \<Rightarrow> None)"

definition put_child :: "json \<Rightarrow> string \<Rightarrow> json \<Rightarrow> json" where
  "put_child doc token v =
     (case doc of
        JObj members \<Rightarrow> JObj (bm_insert token v members)
      | JArr items \<Rightarrow> (case parse_uint 18446744073709551616 token of Some i \<Rightarrow> JArr (items[i := v]) | None \<Rightarrow> doc)
      | _ \<Rightarrow> doc)"

definition drop_child :: "json \<Rightarrow> string \<Rightarrow> json" where
  "drop_child doc token =
     (case doc of
        JObj members \<Rightarrow> JObj (bm_remove token members)
      | JArr items \<Rightarrow> (case parse_uint 18446744073709551616 token of Some i \<Rightarrow> JArr (remove_at i items) | None \<Rightarrow> doc)
      | _ \<Rightarrow> doc)"

fun json_at :: "string list \<Rightarrow> json \<Rightarrow> json option" where
  "json_at [] doc = Some doc"
| "json_at (t # ts) doc = (case json_child doc t of Some c \<Rightarrow> json_at ts c | None \<Rightarrow> None)"

fun json_update :: "(json \<Rightarrow> string \<Rightarrow> json) \<Rightarrow> string list \<Rightarrow> json \<Rightarrow> json option" where
  "json_update change [] doc = None"
| "json_update change [t] doc = (case json_child doc t of Some c \<Rightarrow> Some (change doc t) | None \<Rightarrow> None)"
| "json_update change (t # ts) doc =
     (case json_child doc t of
        Some c \<Rightarrow> (case json_update change ts c of Some c' \<Rightarrow> Some (put_child doc t c') | None \<Rightarrow> None)
      | None \<Rightarrow> None)"

definition add_child :: "json \<Rightarrow> json \<Rightarrow> string \<Rightarrow> json option" where
  "add_child v doc token =
     (case doc of
        JObj members \<Rightarrow> Some (JObj (bm_insert token v members))
      | JArr items \<Rightarrow>
          if token = ''-'' then Some (JArr (items @ [v]))
          else (case parse_uint 18446744073709551616 token of
            Some i \<Rightarrow> if i \<le> length items then Some (JArr (take i items @ v # drop i items)) else None
          | None \<Rightarrow> None)
      | _ \<Rightarrow> None)"

fun json_add :: "json \<Rightarrow> string list \<Rightarrow> json \<Rightarrow> json option" where
  "json_add v [] doc = Some v"
| "json_add v [t] doc = add_child v doc t"
| "json_add v (t # ts) doc =
     (case json_child doc t of
        Some c \<Rightarrow> (case json_add v ts c of Some c' \<Rightarrow> Some (put_child doc t c') | None \<Rightarrow> None)
      | None \<Rightarrow> None)"

definition patch_step :: "json \<Rightarrow> json \<Rightarrow> json option" where
  "patch_step step doc =
     (case json_get step ''path'' of
        JStr path \<Rightarrow>
          (let tokens = tl (split_on CHR ''/'' path); v = json_get step ''value''
           in if json_get step ''op'' = JStr ''test'' then (if json_at tokens doc = Some v then Some doc else None)
              else if json_get step ''op'' = JStr ''remove'' then json_update drop_child tokens doc
              else if json_get step ''op'' = JStr ''replace'' then json_update (\<lambda>d t. put_child d t v) tokens doc
              else if json_get step ''op'' = JStr ''add'' then json_add v tokens doc
              else None)
      | _ \<Rightarrow> None)"

fun run_patch :: "json list \<Rightarrow> json \<Rightarrow> json option" where
  "run_patch [] doc = Some doc"
| "run_patch (step # steps) doc = (case patch_step step doc of Some doc' \<Rightarrow> run_patch steps doc' | None \<Rightarrow> None)"

lemma run_patch_append:
  "run_patch (xs @ ys) doc = (case run_patch xs doc of Some doc' \<Rightarrow> run_patch ys doc' | None \<Rightarrow> None)"
  by (induction xs arbitrary: doc) (auto split: option.splits)

lemma index_token:
  assumes "i < 18446744073709551616"
  shows "parse_uint 18446744073709551616 (show_nat i) = Some i"
  using assms by simp

lemma entry_tokens:
  "split_on CHR ''/'' (entry_path index) = [[], ''metadata'', ''managedFields'', show_nat index]"
  "split_on CHR ''/'' (entry_path index @ ''/fieldsV1'') = [[], ''metadata'', ''managedFields'', show_nat index, ''fieldsV1'']"
proof -
  have digits: "CHR ''/'' \<notin> set (show_nat index)"
    by (auto simp: is_ascii_digit_def dest!: in_show_nat_digit)
  have "entry_path index = join ''/'' [[], ''metadata'', ''managedFields'', show_nat index]"
    by (simp add: entry_path_def)
  then show "split_on CHR ''/'' (entry_path index) = [[], ''metadata'', ''managedFields'', show_nat index]"
    using digits by (simp only:) (intro split_on_join, auto)
  have "entry_path index @ ''/fieldsV1'' = join ''/'' [[], ''metadata'', ''managedFields'', show_nat index, ''fieldsV1'']"
    by (simp add: entry_path_def)
  then show "split_on CHR ''/'' (entry_path index @ ''/fieldsV1'') =
      [[], ''metadata'', ''managedFields'', show_nat index, ''fieldsV1'']"
    using digits by (simp only:) (intro split_on_join, auto)
qed

text \<open>A document with another inventory of managed fields.\<close>

definition with_entries :: "(string \<times> json) list \<Rightarrow> (string \<times> json) list \<Rightarrow> json list \<Rightarrow> json" where
  "with_entries members m entries =
     JObj (bm_insert ''metadata'' (JObj (bm_insert ''managedFields'' (JArr entries) m)) members)"

lemma json_obj_get [simp]: "json_get (json_obj members) k = (case map_of (rev members) k of Some v \<Rightarrow> v | None \<Rightarrow> JNull)"
  by (simp add: json_obj_def json_get_def bm_get_of_list split: option.splits)

lemma bm_insert_again [simp]: "bm_insert k w (bm_insert k v m) = bm_insert k w m"
  by (induction m) auto

lemma remove_step:
  assumes "index < length entries" "index < 18446744073709551616"
  shows "patch_step (remove_op index) (with_entries members m entries) = Some (with_entries members m (remove_at index entries))"
  using assms
  by (simp add: patch_step_def remove_op_def entry_tokens with_entries_def json_child_def bm_get_insert put_child_def
      drop_child_def)

lemma replace_step:
  assumes "index < length entries" "index < 18446744073709551616"
    and "entries ! index = JObj e" "bm_get e ''fieldsV1'' \<noteq> None"
  shows "patch_step (replace_op index v) (with_entries members m entries) =
    Some (with_entries members m (entries[index := JObj (bm_insert ''fieldsV1'' v e)]))"
  using assms
  by (auto simp add: patch_step_def replace_op_def entry_tokens with_entries_def json_child_def bm_get_insert put_child_def)

section \<open>Retiring entries\<close>

text \<open>What becomes of one entry, by itself.\<close>

definition retired_entry :: "json \<Rightarrow> (json \<Rightarrow> bool) \<Rightarrow> json \<Rightarrow> json list" where
  "retired_entry transferred own entry =
     (if own entry then
        (case remaining_fields transferred entry of
           Inr remaining \<Rightarrow>
             if remaining = JObj [] then [] else [the (json_set entry ''fieldsV1'' remaining)]
         | Inl _ \<Rightarrow> [entry])
      else [entry])"

definition field_entry :: "json \<Rightarrow> bool" where
  "field_entry entry \<longleftrightarrow> (\<exists>m. entry = JObj m \<and> bm_wf m \<and> bm_get m ''fieldsV1'' \<noteq> None)"

lemma json_set_same:
  assumes "field_entry entry"
  shows "json_set entry ''fieldsV1'' (json_get entry ''fieldsV1'') = Some entry"
  using assms bm.update_same by (fastforce simp: field_entry_def json_set_def json_get_def)

lemma remove_at_append: "remove_at (length xs) (xs @ y # ys) = xs @ ys"
  by (simp add: remove_at_def)

lemma retire_run:
  assumes "retire transferred (rev (filter (\<lambda>(_, e). own e) (enumerate 0 xs))) patch (xs @ rest) = Inr (patch', retained)"
    and "\<forall>e \<in> set xs. own e \<longrightarrow> field_entry e" and "length (xs @ rest) < 18446744073709551616"
  shows "\<exists>steps. patch' = patch @ steps \<and> retained = concat (map (retired_entry transferred own) xs) @ rest
    \<and> run_patch steps (with_entries members m (xs @ rest)) = Some (with_entries members m retained)
    \<and> (\<forall>e \<in> set xs. own e \<longrightarrow> is_ok (remaining_fields transferred e))"
  using assms
proof (induction xs arbitrary: patch rest rule: rev_induct)
  case Nil
  then show ?case by simp
next
  case (snoc y ys)
  let ?todo = "rev (filter (\<lambda>(_, e). own e) (enumerate 0 ys))"
  have short: "length ys < 18446744073709551616" "\<forall>e \<in> set ys. own e \<longrightarrow> field_entry e"
    using snoc.prems(2,3) by auto
  show ?case
  proof (cases "own y")
    case False
    have "retire transferred ?todo patch (ys @ y # rest) = Inr (patch', retained)"
      using snoc.prems(1) False by (simp add: enumerate_append_eq)
    from snoc.IH [OF this short(2)] show ?thesis
      using snoc.prems(3) False by (auto simp: retired_entry_def)
  next
    case True
    have entry: "field_entry y" using snoc.prems(2) True by simp
    then obtain e where e: "y = JObj e" "bm_get e ''fieldsV1'' \<noteq> None" by (auto simp: field_entry_def)
    let ?rest = "retired_entry transferred own y @ rest"
    obtain remaining where remaining: "remaining_fields transferred y = Inr remaining"
      using snoc.prems(1) True by (auto simp: enumerate_append_eq)
    obtain steps where steps: "run_patch steps (with_entries members m (ys @ y # rest)) = Some (with_entries members m (ys @ ?rest))"
        "retire transferred ?todo (patch @ steps) (ys @ ?rest) = Inr (patch', retained)"
    proof (cases "remaining = JObj []")
      case True
      then have "retire transferred ?todo (patch @ [remove_op (length ys)]) (ys @ ?rest) = Inr (patch', retained)"
        using snoc.prems(1) \<open>own y\<close> remaining
        by (simp add: enumerate_append_eq retired_entry_def remove_at_append)
      moreover have "run_patch [remove_op (length ys)] (with_entries members m (ys @ y # rest)) =
          Some (with_entries members m (ys @ ?rest))"
        using True remaining \<open>own y\<close> remove_step [of "length ys" "ys @ y # rest" members m] short(1)
        by (simp add: retired_entry_def remove_at_append)
      ultimately show ?thesis using that by blast
    next
      case changed: False
      show ?thesis
      proof (cases "remaining = json_get y ''fieldsV1''")
        case True
        then have "?rest = y # rest"
          using json_set_same [OF entry] changed remaining \<open>own y\<close> by (simp add: retired_entry_def)
        moreover have "retire transferred ?todo patch (ys @ y # rest) = Inr (patch', retained)"
          using snoc.prems(1) \<open>own y\<close> remaining changed True by (simp add: enumerate_append_eq)
        ultimately show ?thesis using that [of "[]"] by simp
      next
        case False
        have set: "json_set y ''fieldsV1'' remaining = Some (JObj (bm_insert ''fieldsV1'' remaining e))"
          by (simp add: e json_set_def)
        then have rest: "ys @ ?rest = (ys @ y # rest)[length ys := JObj (bm_insert ''fieldsV1'' remaining e)]"
          using changed remaining \<open>own y\<close> by (simp add: retired_entry_def)
        have "retire transferred ?todo (patch @ [replace_op (length ys) remaining]) (ys @ ?rest) = Inr (patch', retained)"
          using snoc.prems(1) \<open>own y\<close> remaining changed False set
          unfolding rest by (simp add: enumerate_append_eq set_or_panic_def ok_or_def)
        moreover have "run_patch [replace_op (length ys) remaining] (with_entries members m (ys @ y # rest)) =
            Some (with_entries members m (ys @ ?rest))"
          using replace_step [of "length ys" "ys @ y # rest" e remaining members m] short(1) e
          unfolding rest by simp
        ultimately show ?thesis using that by blast
      qed
    qed
    have "length (retired_entry transferred own y) \<le> 1" by (simp add: retired_entry_def split: sum.split)
    then have "length (ys @ ?rest) < 18446744073709551616" using snoc.prems(3) by simp
    from snoc.IH [OF steps(2) short(2) this] obtain more where
      more: "patch' = (patch @ steps) @ more" "retained = concat (map (retired_entry transferred own) ys) @ ?rest"
        "run_patch more (with_entries members m (ys @ ?rest)) = Some (with_entries members m retained)"
        "\<forall>e \<in> set ys. own e \<longrightarrow> is_ok (remaining_fields transferred e)"
      by blast
    then show ?thesis
      using steps(1) remaining by (intro exI [of _ "steps @ more"]) (simp add: run_patch_append is_ok_def)
  qed
qed

section \<open>What is transferred\<close>

lemma insert_key_fields_leaves:
  assumes "insert_key_fields names child (JObj m) = Inr v" and "json_wf (JObj child)" and "json_wf (JObj m)"
    and "leaf_set m \<subseteq> leaf_set child"
  shows "\<exists>m'. v = JObj m' \<and> json_wf v \<and> leaf_set m' \<subseteq> leaf_set child \<and> (child = [] \<longrightarrow> m' = m)"
  using assms
proof (induction names arbitrary: m)
  case (Cons name names)
  show ?case
  proof (cases "bm_get child (''f:'' @ name)")
    case None
    then show ?thesis using Cons.IH [OF _ Cons.prems(2-4)] Cons.prems(1) by simp
  next
    case (Some field)
    have "json_wf (JObj (bm_insert (''f:'' @ name) field m))"
      using json_wf_insert [OF Cons.prems(3) json_wf_get [OF Cons.prems(2) Some]] .
    moreover have "leaf_set (bm_insert (''f:'' @ name) field m) \<subseteq> leaf_set child"
      using Cons.prems(2-4) leaf_set_get [OF _ Some] leaf_set_insert [of m "''f:'' @ name" field] by auto
    ultimately show ?thesis
      using Cons.IH Cons.prems(1,2) Some by fastforce
  qed
qed auto

lemma add_key_fields_leaves:
  assumes "add_key_fields J key child (JObj m) = Inr v" and "json_wf (JObj child)" and "json_wf (JObj m)"
    and "leaf_set m \<subseteq> leaf_set child"
  shows "\<exists>m'. v = JObj m' \<and> json_wf v \<and> leaf_set m' \<subseteq> leaf_set child \<and> (child = [] \<longrightarrow> m' = m)"
  using insert_key_fields_leaves [OF _ assms(2-4)] assms
  by (auto simp: add_key_fields_def split: option.splits sum.splits json.splits)

lemma intended_leaves:
  "intended J fieldset desired depth = Inr v \<Longrightarrow> json_wf fieldset \<Longrightarrow>
    json_wf v \<and> (\<exists>l m. fieldset = JObj l \<and> v = JObj m \<and> leaf_set m \<subseteq> leaf_set l)"
  "intended_members J fs desired depth chosen result = Inr m \<Longrightarrow> json_wf (JObj fs) \<Longrightarrow> json_wf (JObj result) \<Longrightarrow>
    json_wf (JObj m) \<and> leaf_set m \<subseteq> leaf_set result \<union> leaf_set fs"
  "intended_child J child key part depth = Inr w \<Longrightarrow> json_wf child \<Longrightarrow>
    json_wf w \<and> (child = JObj [] \<or> empty_object w = Some False \<longrightarrow> below w \<subseteq> below child)"
proof (induction J fieldset desired depth and J fs desired depth chosen result and J child key part depth
    arbitrary: v and m and w rule: intended_intended_members_intended_child.induct)
  case (1 J fieldset desired depth)
  then show ?case by (cases fieldset) (auto split: if_splits)
next
  case (2 J desired depth chosen result)
  then show ?case by simp
next
  case (3 J key child fs desired depth chosen result)
  have wf: "json_wf child" "json_wf (JObj fs)" "bm_wf ((key, child) # fs)" "bm_wf result"
    using "3.prems" by (auto simp: bm_wf_def)
  obtain selected chosen' where selected: "intent_selected J key desired chosen = Inr (selected, chosen')"
    using "3.prems"(1) by auto
  show ?case
  proof (cases selected)
    case None
    then have "intended_members J fs desired depth chosen' result = Inr m" using "3.prems"(1) selected by simp
    then show ?thesis
      using "3.IH"(1) [OF None _ wf(2) "3.prems"(3)] leaf_set_Cons(1) [OF wf(3)] by auto
  next
    case (Some part)
    obtain w where w: "intended_child J child key part depth = Inr w"
        "intended_members J fs desired depth chosen'
          (if child = JObj [] \<or> empty_object w = Some False then bm_insert key w result else result) = Inr m"
      using "3.prems"(1) selected Some by auto
    let ?next = "if child = JObj [] \<or> empty_object w = Some False then bm_insert key w result else result"
    have sub: "json_wf w" "child = JObj [] \<or> empty_object w = Some False \<longrightarrow> below w \<subseteq> below child"
      using "3.IH"(2) [OF Some w(1) wf(1)] by auto
    have "json_wf (JObj ?next)"
      using json_wf_insert [OF "3.prems"(3) sub(1)] "3.prems"(3) by (simp del: json_wf.simps)
    then have "json_wf (JObj m) \<and> leaf_set m \<subseteq> leaf_set ?next \<union> leaf_set fs"
      using "3.IH"(3) [OF Some w(2) wf(2)] by blast
    moreover have "leaf_set ?next \<subseteq> leaf_set result \<union> Cons key ` below child"
      using sub(2) leaf_set_insert [OF wf(4)] by auto
    ultimately show ?thesis using leaf_set_Cons(1) [OF wf(3)] by blast
  qed
next
  case (4 J child key part depth)
  then obtain l where child: "child = JObj l" by (cases child) auto
  obtain v where v: "(if l = [] then Inr (JObj []) else intended J child part (depth + 1)) = Inr v"
      "add_key_fields J key l v = Inr w"
    using "4.prems"(1) child by auto
  have "\<exists>m. v = JObj m \<and> json_wf (JObj m) \<and> leaf_set m \<subseteq> leaf_set l \<and> (l = [] \<longrightarrow> m = [])"
    using v(1) "4.IH" [OF child] "4.prems"(2) child by (auto split: if_splits simp del: intended.simps)
  then obtain m where m: "v = JObj m" "json_wf (JObj m)" "leaf_set m \<subseteq> leaf_set l" "l = [] \<longrightarrow> m = []" by blast
  then show ?case
    using add_key_fields_leaves [OF v(2) [unfolded m(1)] _ m(2,3)] "4.prems"(2) child
    by (cases "l = []") (auto simp: below_obj)
qed

definition entry_leaves :: "json \<Rightarrow> string list set" where
  "entry_leaves entry = set (field_leaves (json_get entry ''fieldsV1''))"

definition own_leaves :: "string \<Rightarrow> json \<Rightarrow> json list \<Rightarrow> string list set" where
  "own_leaves operation version entries = \<Union> (entry_leaves ` {e \<in> set entries. ours e operation version})"

lemma json_wf_find: "json_wf v \<Longrightarrow> json_find v k = Some x \<Longrightarrow> json_wf x"
  using json_wf_get by (cases v) (simp_all add: json_find_def del: json_wf.simps)

lemma json_get_find: "json_get v k = (case json_find v k of Some x \<Rightarrow> x | None \<Rightarrow> JNull)"
  by (simp add: json_get_def json_find_def split: json.split)

lemma json_wf_member: "json_wf v \<Longrightarrow> json_wf (json_get v k)"
  using json_wf_find by (auto simp: json_get_find split: option.split)

lemma own_fields_leaves:
  assumes "own_fields version entries (JObj u, JObj a) = Inr (updated, applied)"
    and "\<forall>e \<in> set entries. json_wf e" and "json_wf (JObj u)" and "json_wf (JObj a)"
  shows "\<exists>u' a'. updated = JObj u' \<and> applied = JObj a' \<and> json_wf updated \<and> json_wf applied
    \<and> leaf_set u' = leaf_set u \<union> own_leaves ''Update'' version entries
    \<and> leaf_set a' = leaf_set a \<union> own_leaves ''Apply'' version entries
    \<and> (\<forall>e \<in> set entries. ours e ''Update'' version \<longrightarrow> is_object (json_get e ''fieldsV1''))"
  using assms
proof (induction entries arbitrary: u a)
  case Nil
  then show ?case by (auto simp: own_leaves_def)
next
  case (Cons e entries)
  have wf: "json_wf (json_get e ''fieldsV1'')" "\<forall>e \<in> set entries. json_wf e"
    using Cons.prems(2) json_wf_member by auto
  have split: "own_leaves operation version (e # entries) =
      (if ours e operation version then entry_leaves e else {}) \<union> own_leaves operation version entries" for operation
    by (auto simp: own_leaves_def)
  consider (update) "ours e ''Update'' version" "\<not> ours e ''Apply'' version"
    | (applied) "\<not> ours e ''Update'' version" "ours e ''Apply'' version"
    | (foreign) "\<not> ours e ''Update'' version" "\<not> ours e ''Apply'' version"
    by (auto simp: ours_def)
  then show ?case
  proof cases
    case update
    then obtain merged where merged: "merge_fields (JObj u) (json_get e ''fieldsV1'') = Inr merged"
        "own_fields version entries (merged, JObj a) = Inr (updated, applied)" "is_object (json_get e ''fieldsV1'')"
      using Cons.prems(1) by (auto simp: ours_def split: if_splits)
    from merge_leaves(1) [OF merged(1) Cons.prems(3) wf(1)] obtain m where
      m: "merged = JObj m" "json_wf (JObj m)" "leaf_set m = leaf_set u \<union> entry_leaves e"
      by (auto simp: entry_leaves_def leaf_set_def)
    from Cons.IH [OF merged(2) [unfolded m(1)] wf(2) m(2) Cons.prems(4)] update merged(3) show ?thesis
      by (simp add: split m(3) Un_assoc)
  next
    case applied
    then obtain merged where merged: "merge_fields (JObj a) (json_get e ''fieldsV1'') = Inr merged"
        "own_fields version entries (JObj u, merged) = Inr (updated, applied)"
      using Cons.prems(1) by (auto simp: ours_def split: if_splits)
    from merge_leaves(1) [OF merged(1) Cons.prems(4) wf(1)] obtain m where
      m: "merged = JObj m" "json_wf (JObj m)" "leaf_set m = leaf_set a \<union> entry_leaves e"
      by (auto simp: entry_leaves_def leaf_set_def)
    from Cons.IH [OF merged(2) [unfolded m(1)] wf(2) Cons.prems(3) m(2)] applied show ?thesis
      by (simp add: split m(3) Un_assoc)
  next
    case foreign
    then show ?thesis
      using Cons.IH [OF _ wf(2) Cons.prems(3,4)] Cons.prems(1) by (simp add: split)
  qed
qed

text \<open>One entry: what is retired from it are exactly the transferred leaves.\<close>

lemma retired_entry_leaves:
  assumes "own e" and "json_wf e" and "is_object (json_get e ''fieldsV1'')" and "json_wf transferred"
    and "is_ok (remaining_fields transferred e)"
  shows "retired_entry transferred own e = [] \<and> entry_leaves e \<subseteq> set (field_leaves transferred)
    \<or> (\<exists>e'. retired_entry transferred own e = [e'] \<and> entry_leaves e' = entry_leaves e - set (field_leaves transferred)
        \<and> (\<forall>k. k \<noteq> ''fieldsV1'' \<longrightarrow> json_get e' k = json_get e k))"
proof -
  let ?f = "json_get e ''fieldsV1''"
  obtain common remaining where
    ops: "field_intersection ?f transferred = Inr common" "field_difference ?f common = Inr remaining"
      "remaining_fields transferred e = Inr remaining"
    using assms(5) by (auto simp: remaining_fields_def is_ok_iff)
  have wf: "json_wf ?f" using json_wf_member [OF assms(2)] .
  from intersection_leaves(1) [OF ops(1) wf assms(4)] have common: "json_wf common"
      "set (field_leaves common) = entry_leaves e \<inter> set (field_leaves transferred)"
    by (auto simp: entry_leaves_def leaf_set_def)
  from difference_leaves(1) [OF ops(2) wf common(1)] have remaining:
      "set (field_leaves remaining) = entry_leaves e - set (field_leaves common)" "is_object remaining"
    by (auto simp: entry_leaves_def leaf_set_def is_object_def)
  have leaves: "set (field_leaves remaining) = entry_leaves e - set (field_leaves transferred)"
    using remaining(1) common(2) by blast
  obtain m where m: "e = JObj m" using assms(3) by (cases e) (auto simp: json_get_def is_object_def)
  show ?thesis
  proof (cases "remaining = JObj []")
    case True
    then show ?thesis using leaves ops(3) assms(1) by (auto simp: retired_entry_def)
  next
    case False
    have set: "json_set e ''fieldsV1'' remaining = Some (JObj (bm_insert ''fieldsV1'' remaining m))"
      by (simp add: m json_set_def)
    then have "retired_entry transferred own e = [JObj (bm_insert ''fieldsV1'' remaining m)]"
      using ops(3) assms(1) False by (simp add: retired_entry_def)
    then show ?thesis
      using leaves json_get_set [OF set] by (simp add: entry_leaves_def)
  qed
qed

lemma own_entry_field:
  assumes "json_wf e" and "is_object (json_get e ''fieldsV1'')"
  shows "field_entry e"
  using assms by (cases e) (auto simp: field_entry_def json_get_def is_object_def split: option.splits)

text \<open>What a migration has computed.\<close>

lemma migration_steps:
  assumes "json_wf current" and "migration J current desired = Inr (Some plan)"
  obtains entries transferred uid rv patch retained where
    "json_find (json_get current ''metadata'') ''managedFields'' = Some (JArr entries)"
    "meta current ''uid'' = JStr uid" "uid \<noteq> []" "meta current ''resourceVersion'' = JStr rv" "rv \<noteq> []"
    "json_wf transferred"
    "set (field_leaves transferred) \<subseteq> own_leaves ''Update'' (json_get current ''apiVersion'') entries"
    "own_leaves ''Update'' (json_get current ''apiVersion'') entries \<inter> own_leaves ''Apply'' (json_get current ''apiVersion'') entries
      \<subseteq> set (field_leaves transferred)"
    "\<forall>e \<in> set entries. json_wf e \<and>
      (ours e ''Update'' (json_get current ''apiVersion'') \<longrightarrow> is_object (json_get e ''fieldsV1''))"
    "\<forall>e \<in> set entries. ours e ''Update'' (json_get current ''apiVersion'') \<longrightarrow> field_entry e"
    "length (entries @ []) < 18446744073709551616"
    "retire transferred (rev (filter (\<lambda>(_, e). ours e ''Update'' (json_get current ''apiVersion'')) (enumerate 0 entries)))
      [test_op ''/metadata/uid'' (JStr uid), test_op ''/metadata/resourceVersion'' (JStr rv),
       test_op ''/metadata/managedFields'' (JArr entries)] (entries @ []) = Inr (patch, retained)"
    "mig_patch plan = JArr patch" "mig_retained plan = JArr retained"
proof -
  let ?version = "json_get current ''apiVersion''"
  obtain entries updated applied intent shared transferred uid rv bridge patch retained where
    entries: "json_find (json_get current ''metadata'') ''managedFields'' = Some (JArr entries)" "length entries \<le> 128"
    and own: "own_fields ?version entries (JObj [], JObj []) = Inr (updated, applied)"
    and intent: "intended J updated desired 0 = Inr intent"
    and shared: "field_intersection updated applied = Inr shared"
    and transferred: "merge_fields intent shared = Inr transferred"
    and identity: "nonempty_text (meta current ''uid'') = Some uid" "nonempty_text (meta current ''resourceVersion'') = Some rv"
    and retired: "retire transferred (rev (filter (\<lambda>(_, e). ours e ''Update'' ?version) (enumerate 0 entries)))
      [test_op ''/metadata/uid'' (JStr uid), test_op ''/metadata/resourceVersion'' (JStr rv),
       test_op ''/metadata/managedFields'' (JArr entries)] (entries @ []) = Inr (patch, retained)"
    and plan: "mig_patch plan = JArr patch" "mig_retained plan = JArr retained"
    using assms(2)
    by (auto simp: migration_def Let_def ok_or_def split: option.splits json.splits if_splits simp del: intended.simps)
  have "json_wf (JArr entries)"
    using json_wf_find [OF json_wf_member [OF assms(1)] entries(1)] .
  then have wf: "\<forall>e \<in> set entries. json_wf e" by simp
  from own_fields_leaves [OF own wf] obtain u a where fs: "updated = JObj u" "applied = JObj a" "json_wf updated" "json_wf applied"
      "leaf_set u = own_leaves ''Update'' ?version entries" "leaf_set a = own_leaves ''Apply'' ?version entries"
      "\<forall>e \<in> set entries. ours e ''Update'' ?version \<longrightarrow> is_object (json_get e ''fieldsV1'')"
    by auto
  have leaves: "set (field_leaves (JObj m)) = leaf_set m" for m by (simp add: leaf_set_def)
  have intent': "json_wf intent" "set (field_leaves intent) \<subseteq> own_leaves ''Update'' ?version entries"
    using intended_leaves(1) [OF intent fs(3)] fs(1,5) leaves by auto
  have shared': "json_wf shared" "set (field_leaves shared) = own_leaves ''Update'' ?version entries \<inter> own_leaves ''Apply'' ?version entries"
    using intersection_leaves(1) [OF shared fs(3,4)] fs leaves by auto
  have transferred': "json_wf transferred" "set (field_leaves transferred) = set (field_leaves intent) \<union> set (field_leaves shared)"
    using merge_leaves(1) [OF transferred intent'(1) shared'(1)] leaves by auto
  show thesis
    using that [OF entries(1) _ _ _ _ transferred'(1) _ _ _ _ _ retired] entries(2) own_entry_field identity plan intent'(2) shared'(2)
      transferred'(2) fs(7) wf
    by (auto simp: nonempty_text_def split: json.splits if_splits)
qed

section \<open>Parts of an object\<close>

text \<open>A value that says nothing else than another: the same value, some of its members, some of its items in
  their order.\<close>

inductive part_of :: "json \<Rightarrow> json \<Rightarrow> bool" where
  same: "part_of v v"
| members: "(\<And>k v. bm_get a k = Some v \<Longrightarrow> part_of v (json_get (JObj b) k)) \<Longrightarrow> part_of (JObj a) (JObj b)"
| items: "list_emb part_of a b \<Longrightarrow> part_of (JArr a) (JArr b)"
monos list_emb_mono

lemma part_of_get: "part_of (JObj a) (JObj b) \<Longrightarrow> bm_get a k = Some v \<Longrightarrow> part_of v (json_get (JObj b) k)"
  by (erule part_of.cases) (auto simp: json_get_def intro: part_of.same)

lemma part_of_insert:
  assumes "part_of (JObj a) (JObj b)" and "part_of v (json_get (JObj b) k)"
  shows "part_of (JObj (bm_insert k v a)) (JObj b)"
  using part_of_get [OF assms(1)] assms(2) by (intro part_of.members) (auto simp: bm_get_insert split: if_splits)

lemma part_of_empty: "part_of (JObj []) (JObj b)"
  by (intro part_of.members) simp

lemma part_of_obj: "part_of (JObj a) v \<Longrightarrow> \<exists>b. v = JObj b"
  by (erule part_of.cases) auto

lemma list_emb_indexed:
  assumes "sorted_wrt (<) (map fst new)"
    and "\<forall>(i, v) \<in> set new. index \<le> i \<and> i < index + length items \<and> P v (items ! (i - index))"
  shows "list_emb P (map snd new) items"
  using assms
proof (induction items arbitrary: index new)
  case Nil
  then show ?case by (cases new) auto
next
  case (Cons x xs)
  show ?case
  proof (cases "new \<noteq> [] \<and> fst (hd new) = index")
    case True
    then obtain v rest where new: "new = (index, v) # rest" by (cases new) auto
    have "list_emb P (map snd rest) xs"
      using Cons.prems by (intro Cons.IH [of _ "Suc index"]) (fastforce simp: new nth_Cons')+
    then show ?thesis using Cons.prems(2) by (simp add: new list_emb_Cons2)
  next
    case False
    have "\<forall>(i, v) \<in> set new. Suc index \<le> i"
      using False Cons.prems by (cases new) fastforce+
    then have "list_emb P (map snd new) xs"
      using Cons.prems by (intro Cons.IH [of _ "Suc index"]) (fastforce simp: nth_Cons')+
    then show ?thesis by (rule list_emb_Cons)
  qed
qed

lemma insert_keys_part:
  assumes "insert_keys (Some keys) v = Inr w" and "item_matches keys item" and "part_of v item"
  shows "part_of w item"
proof -
  obtain m where m: "v = JObj m" "w = JObj (foldl (\<lambda>m (k, x). bm_insert k x m) m keys)"
    using assms(1) by (auto simp: insert_keys_def split: json.splits)
  obtain b where b: "item = JObj b" using part_of_obj assms(3) m(1) by blast
  have "part_of (JObj (foldl (\<lambda>m (k, x). bm_insert k x m) m keys)) (JObj b)" if "part_of (JObj m) (JObj b)"
    using that assms(2)
  proof (induction keys arbitrary: m)
    case (Cons entry keys)
    obtain k x where entry: "entry = (k, x)" by (cases entry)
    have "json_get (JObj b) k = x" using Cons.prems(2) by (simp add: entry b item_matches_def json_get_find)
    then have "part_of (JObj (bm_insert k x m)) (JObj b)" using Cons.prems(1) by (intro part_of_insert) (auto intro: part_of.same)
    then show ?case using Cons by (simp add: entry item_matches_def)
  qed simp
  then show ?thesis using m b assms(3) by simp
qed

lemma list_selector_part:
  assumes "list_selector J key = Inr (matches, selector)" and "matches item" and "part_of v item"
    and "insert_keys selector v = Inr w"
  shows "part_of w item"
  using assms insert_keys_part
  by (auto simp: list_selector_def insert_keys_def [of None] split: option.splits sum.splits json.splits if_splits)

lemma adjacent_strict: "sorted xs \<Longrightarrow> \<not> adjacent_equal xs \<Longrightarrow> sorted_wrt (<) xs"
proof (induction xs)
  case (Cons x xs)
  then show ?case
    by (cases xs) (auto simp: adjacent_equal_def order_le_less)
qed simp

lemma project_part:
  "project_fields J current fieldset depth = Inr v \<Longrightarrow> part_of v current"
  "project_members J obj fs depth result = Inr r \<Longrightarrow> part_of (JObj result) (JObj obj) \<Longrightarrow> part_of (JObj r) (JObj obj)"
  "project_items J items index fs depth st = Inr st' \<Longrightarrow>
    \<exists>new. snd st' = snd st @ new \<and> sorted (map fst new)
      \<and> (\<forall>(i, w) \<in> set new. index \<le> i \<and> i < index + length items \<and> part_of w (items ! (i - index)))"
  "project_item J item index fs depth st = Inr st' \<Longrightarrow>
    \<exists>new. snd st' = snd st @ new \<and> (\<forall>(i, w) \<in> set new. i = index \<and> part_of w item)"
proof (induction J current fieldset depth and J obj fs depth result and J items index fs depth st and J item index fs depth st
    arbitrary: v and r and st' and st' rule: project_fields_project_members_project_items_project_item.induct)
  case (1 J current fieldset depth)
  then obtain fs where fs: "\<not> 64 < depth" "fieldset = JObj fs" by (cases fieldset) (auto split: if_splits)
  show ?case
  proof (cases "fs = []")
    case True
    then show ?thesis using "1.prems" fs by (auto intro: part_of.same)
  next
    case False
    show ?thesis
    proof (cases current)
      case (JObj obj)
      then obtain r where "project_members J obj fs depth [] = Inr r" "v = JObj r"
        using "1.prems" fs False by auto
      then show ?thesis
        using "1.IH"(2) [OF fs False JObj] part_of_empty JObj by blast
    next
      case (JArr items)
      then obtain selected new where new: "project_items J items 0 fs depth ([], []) = Inr (selected, new)"
          "\<not> adjacent_equal (map fst new)" "v = JArr (map snd new)"
        using "1.prems" fs False by (auto split: if_splits)
      from "1.IH"(1) [OF fs False JArr new(1)] have "sorted (map fst new)"
          "\<forall>(i, w) \<in> set new. 0 \<le> i \<and> i < 0 + length items \<and> part_of w (items ! (i - 0))"
        by auto
      then have "list_emb part_of (map snd new) items"
        using list_emb_indexed [OF adjacent_strict [OF _ new(2)], of 0 items part_of] by simp
      then show ?thesis using new(3) JArr by (auto intro: part_of.items)
    qed (use "1.prems" fs False in auto)
  qed
next
  case (2 J obj depth result)
  then show ?case by simp
next
  case (3 J obj key child fs depth result)
  show ?case
  proof (cases "skipped key child")
    case True
    then show ?thesis using "3.IH"(1) "3.prems" by simp
  next
    case False
    then obtain name x projected where step: "strip_prefix key ''f:'' = Some name" "bm_get obj name = Some x"
        "project_fields J x child (depth + 1) = Inr projected"
        "project_members J obj fs depth (bm_insert name projected result) = Inr r"
      using "3.prems"(1) by (auto simp: ok_or_def split: option.splits)
    have "part_of projected (json_get (JObj obj) name)"
      using "3.IH"(2) [OF False step(3)] step(2) by (simp add: json_get_def)
    then show ?thesis
      using "3.IH"(3) [OF False step(4)] part_of_insert [OF "3.prems"(2)] by blast
  qed
next
  case (4 J index fs depth st)
  then show ?case by (auto intro: exI [of _ "[]"])
next
  case (5 J item items index fs depth st)
  then obtain mid where mid: "project_item J item index fs depth st = Inr mid"
      "project_items J items (index + 1) fs depth mid = Inr st'"
    by auto
  from "5.IH"(1) [OF mid(1)] "5.IH"(2) [OF mid(2)] obtain new more where
    new: "snd mid = snd st @ new" "\<forall>(i, w) \<in> set new. i = index \<and> part_of w item"
    and more: "snd st' = snd mid @ more" "sorted (map fst more)"
      "\<forall>(i, w) \<in> set more. index + 1 \<le> i \<and> i < index + 1 + length items \<and> part_of w (items ! (i - (index + 1)))"
    by auto
  have same: "map fst new = replicate (length new) index"
    using new(2) by (induction new) auto
  have "sorted (map fst (new @ more))"
    using more(2,3) by (fastforce simp: sorted_append same)
  moreover have "\<forall>(i, w) \<in> set (new @ more). index \<le> i \<and> i < index + length (item # items) \<and> part_of w ((item # items) ! (i - index))"
    using new(2) more(3) by (fastforce simp: nth_Cons')
  ultimately show ?case using new(1) more(1) by (intro exI [of _ "new @ more"]) simp
next
  case (6 J item index depth st)
  then show ?case by auto
next
  case (7 J item index key child fs depth st)
  show ?case
  proof (cases "skipped key child")
    case True
    then show ?thesis using "7.IH"(1) "7.prems" by simp
  next
    case False
    then obtain matches selector where selector: "list_selector J key = Inr (matches, selector)"
      using "7.prems" by auto
    show ?thesis
    proof (cases "matches item")
      case skip: False
      then show ?thesis using "7.IH"(2) [OF False] "7.prems" False selector by simp
    next
      case True
      then obtain projected w where step: "project_fields J item child (depth + 1) = Inr projected"
          "insert_keys selector projected = Inr w" "key \<notin> set (fst st)"
          "project_item J item index fs depth (key # fst st, snd st @ [(index, w)]) = Inr st'"
        using "7.prems" False selector by (auto split: if_splits)
      have "part_of projected item"
        using "7.IH"(3) [OF False _ step(3,1), of matches] True by blast
      then have w: "part_of w item"
        by (rule list_selector_part [of J key, OF selector True _ step(2)])
      obtain new where
        "snd st' = (snd st @ [(index, w)]) @ new" "\<forall>(i, w) \<in> set new. i = index \<and> part_of w item"
        using "7.IH"(4) [OF False _ step(3,4), of matches] True by auto
      then show ?thesis using w by (intro exI [of _ "(index, w) # new"]) auto
    qed
  qed
qed

lemma test_tokens:
  "split_on CHR ''/'' ''/metadata/uid'' = [[], ''metadata'', ''uid'']"
  "split_on CHR ''/'' ''/metadata/resourceVersion'' = [[], ''metadata'', ''resourceVersion'']"
  "split_on CHR ''/'' ''/metadata/managedFields'' = [[], ''metadata'', ''managedFields'']"
  by (simp_all add: exec_simps)

lemma no_index:
  "parse_uint b ''metadata'' = None" "parse_uint b ''uid'' = None" "parse_uint b ''resourceVersion'' = None"
  "parse_uint b ''managedFields'' = None"
  by (simp_all add: exec_simps)

lemma json_at_meta:
  "json_at [''metadata'', field] doc = Some v \<Longrightarrow> parse_uint 18446744073709551616 field = None \<Longrightarrow> meta doc field = v"
  by (cases doc; cases "json_get doc ''metadata''")
    (auto simp: json_child_def meta_def json_get_def no_index split: option.splits json.splits)

lemma test_step:
  assumes "split_on CHR ''/'' path = [[], ''metadata'', field]"
  shows "patch_step (test_op path v) doc = (if json_at [''metadata'', field] doc = Some v then Some doc else None)"
  using assms by (simp add: patch_step_def test_op_def)

lemma json_find_at:
  "json_find (json_get doc ''metadata'') field = Some v \<Longrightarrow> is_object doc \<Longrightarrow> json_at [''metadata'', field] doc = Some v"
  by (auto simp: json_find_def json_get_def json_child_def is_object_def split: json.splits option.splits)

lemma run_tests:
  "run_patch (test_op ''/metadata/uid'' a # test_op ''/metadata/resourceVersion'' b # test_op ''/metadata/managedFields'' c # steps) doc =
    (if json_at [''metadata'', ''uid''] doc = Some a \<and> json_at [''metadata'', ''resourceVersion''] doc = Some b
        \<and> json_at [''metadata'', ''managedFields''] doc = Some c
     then run_patch steps doc else None)"
  by (simp del: json_at.simps add: test_step [OF test_tokens(1)] test_step [OF test_tokens(2)] test_step [OF test_tokens(3)])

lemma migration_patch:
  assumes "json_wf current" and "migration J current desired = Inr (Some plan)"
  obtains steps entries uid rv where "mig_patch plan = JArr steps"
    "json_find (json_get current ''metadata'') ''managedFields'' = Some (JArr entries)"
    "run_patch steps current = set_metadata current ''managedFields'' (mig_retained plan)"
    "set_metadata current ''managedFields'' (mig_retained plan) \<noteq> None"
    "\<And>doc. run_patch steps doc \<noteq> None \<Longrightarrow> meta doc ''uid'' = meta current ''uid''
      \<and> meta doc ''resourceVersion'' = meta current ''resourceVersion'' \<and> meta doc ''managedFields'' = JArr entries"
    "meta current ''uid'' = JStr uid" "meta current ''resourceVersion'' = JStr rv"
proof -
  let ?v = "json_get current ''apiVersion''" and ?own = "\<lambda>e. ours e ''Update'' (json_get current ''apiVersion'')"
  obtain entries transferred uid rv patch retained where
    entries: "json_find (json_get current ''metadata'') ''managedFields'' = Some (JArr entries)"
    and identity: "meta current ''uid'' = JStr uid" "uid \<noteq> []" "meta current ''resourceVersion'' = JStr rv" "rv \<noteq> []"
    and "json_wf transferred" "set (field_leaves transferred) \<subseteq> own_leaves ''Update'' ?v entries"
      "own_leaves ''Update'' ?v entries \<inter> own_leaves ''Apply'' ?v entries \<subseteq> set (field_leaves transferred)"
    and wf: "\<forall>e \<in> set entries. json_wf e \<and> (?own e \<longrightarrow> is_object (json_get e ''fieldsV1''))" "\<forall>e \<in> set entries. ?own e \<longrightarrow> field_entry e"
      "length (entries @ []) < 18446744073709551616"
    and retired: "retire transferred (rev (filter (\<lambda>(_, e). ?own e) (enumerate 0 entries)))
      [test_op ''/metadata/uid'' (JStr uid), test_op ''/metadata/resourceVersion'' (JStr rv),
       test_op ''/metadata/managedFields'' (JArr entries)] (entries @ []) = Inr (patch, retained)"
    and plan: "mig_patch plan = JArr patch" "mig_retained plan = JArr retained"
    by (rule migration_steps [OF assms])
  obtain members m where doc: "current = JObj members" "bm_get members ''metadata'' = Some (JObj m)"
      "bm_get m ''managedFields'' = Some (JArr entries)"
    using entries by (auto simp: json_find_def json_get_def split: json.splits option.splits)
  have wfs: "bm_wf members" "bm_wf m"
    using assms(1) json_wf_get [OF _ doc(2)] doc(1) by auto
  have same: "with_entries members m entries = current"
    using bm.update_same [OF wfs(1) doc(2)] bm.update_same [OF wfs(2) doc(3)] by (simp add: with_entries_def doc(1))
  have put: "set_metadata current ''managedFields'' (JArr es) = Some (with_entries members m es)" for es
    by (simp add: set_metadata_def json_set_def json_get_def doc with_entries_def)
  obtain steps where steps: "patch = [test_op ''/metadata/uid'' (JStr uid), test_op ''/metadata/resourceVersion'' (JStr rv),
       test_op ''/metadata/managedFields'' (JArr entries)] @ steps"
      "run_patch steps current = Some (with_entries members m retained)"
    using retire_run [OF retired wf(2,3), of members m]
    unfolding append_Nil2 same by blast
  have find: "json_find (json_get current ''metadata'') field = Some (JStr v)" if "meta current field = JStr v" for field v
    using that by (auto simp: meta_def json_get_find split: option.splits)
  have "is_object current" by (simp add: doc(1) is_object_def)
  then have "run_patch patch current = run_patch steps current"
    using json_find_at find identity entries by (simp only: steps(1) append.simps run_tests) (simp del: json_at.simps)
  then have ran: "run_patch patch current = Some (with_entries members m retained)" using steps(2) by simp
  have locked: "meta doc ''uid'' = JStr uid \<and> meta doc ''resourceVersion'' = JStr rv \<and> meta doc ''managedFields'' = JArr entries"
    if "run_patch patch doc \<noteq> None" for doc
    using that json_at_meta [OF _ no_index(2)] json_at_meta [OF _ no_index(3)] json_at_meta [OF _ no_index(4)]
    unfolding steps(1) append.simps run_tests by (simp del: json_at.simps split: if_splits)
  show thesis
  proof (rule that [of patch entries uid rv])
    show "mig_patch plan = JArr patch" by (rule plan(1))
    show "run_patch patch current = set_metadata current ''managedFields'' (mig_retained plan)"
      "set_metadata current ''managedFields'' (mig_retained plan) \<noteq> None"
      using ran plan(2) put by simp_all
  qed (use locked identity entries in auto)
qed

text \<open>C21: the JSON patch of a migration does to the object it was computed from what the migration says: it replaces
  the recorded managers by \<open>retained\<close> and nothing else; and it does nothing to an object that has another identity,
  another version or other recorded managers.\<close>

theorem migration_patch_refines:
  assumes "json_wf current" and "migration J current desired = Inr (Some plan)"
  shows "\<exists>steps. mig_patch plan = JArr steps
    \<and> run_patch steps current = set_metadata current ''managedFields'' (mig_retained plan)
    \<and> set_metadata current ''managedFields'' (mig_retained plan) \<noteq> None
    \<and> (\<forall>doc. run_patch steps doc \<noteq> None \<longrightarrow> meta doc ''uid'' = meta current ''uid''
        \<and> meta doc ''resourceVersion'' = meta current ''resourceVersion''
        \<and> meta doc ''managedFields'' = meta current ''managedFields'')"
proof (rule migration_patch [OF assms], goal_cases)
  case (1 steps entries uid rv)
  have "meta current ''managedFields'' = JArr entries"
    using 1(2) by (simp add: meta_def json_get_find [of _ "''managedFields''"])
  with 1(1,3-5) show ?case by (intro exI [of _ steps] conjI) (blast | simp only:)+
qed

text \<open>C22: a migration only takes fields away from the entries our manager has from creating the object. Every other
  entry is retained as it is; an own entry loses exactly the moved fields, and goes when none is left. Only fields
  recorded by the creation are moved, among them all that have been applied before.\<close>

theorem migration_moves_only_own:
  assumes "json_wf current" and "migration J current desired = Inr (Some plan)"
  shows "\<exists>entries pieces moved version. version = json_get current ''apiVersion'' \<and>
    meta current ''managedFields'' = JArr entries \<and> mig_retained plan = JArr (concat pieces)
    \<and> moved \<subseteq> own_leaves ''Update'' version entries
    \<and> own_leaves ''Update'' version entries \<inter> own_leaves ''Apply'' version entries \<subseteq> moved
    \<and> list_all2 (\<lambda>e piece.
        if ours e ''Update'' version then
          piece = [] \<and> entry_leaves e \<subseteq> moved
          \<or> (\<exists>e'. piece = [e'] \<and> entry_leaves e' = entry_leaves e - moved
              \<and> (\<forall>k. k \<noteq> ''fieldsV1'' \<longrightarrow> json_get e' k = json_get e k))
        else piece = [e]) entries pieces"
proof -
  let ?v = "json_get current ''apiVersion''" and ?own = "\<lambda>e. ours e ''Update'' (json_get current ''apiVersion'')"
  obtain entries transferred uid rv patch retained where
    entries: "json_find (json_get current ''metadata'') ''managedFields'' = Some (JArr entries)"
    and "meta current ''uid'' = JStr uid" "uid \<noteq> []" "meta current ''resourceVersion'' = JStr rv" "rv \<noteq> []"
    and moved: "json_wf transferred" "set (field_leaves transferred) \<subseteq> own_leaves ''Update'' ?v entries"
      "own_leaves ''Update'' ?v entries \<inter> own_leaves ''Apply'' ?v entries \<subseteq> set (field_leaves transferred)"
    and wf: "\<forall>e \<in> set entries. json_wf e \<and> (?own e \<longrightarrow> is_object (json_get e ''fieldsV1''))" "\<forall>e \<in> set entries. ?own e \<longrightarrow> field_entry e"
      "length (entries @ []) < 18446744073709551616"
    and retired: "retire transferred (rev (filter (\<lambda>(_, e). ?own e) (enumerate 0 entries)))
      [test_op ''/metadata/uid'' (JStr uid), test_op ''/metadata/resourceVersion'' (JStr rv),
       test_op ''/metadata/managedFields'' (JArr entries)] (entries @ []) = Inr (patch, retained)"
    and plan: "mig_patch plan = JArr patch" "mig_retained plan = JArr retained"
    by (rule migration_steps [OF assms])
  have kept: "retained = concat (map (retired_entry transferred ?own) entries)"
      "\<forall>e \<in> set entries. ?own e \<longrightarrow> is_ok (remaining_fields transferred e)"
    using retire_run [OF retired wf(2,3)] unfolding append_Nil2 by blast+
  have "list_all2 (\<lambda>e piece.
        if ?own e then
          piece = [] \<and> entry_leaves e \<subseteq> set (field_leaves transferred)
          \<or> (\<exists>e'. piece = [e'] \<and> entry_leaves e' = entry_leaves e - set (field_leaves transferred)
              \<and> (\<forall>k. k \<noteq> ''fieldsV1'' \<longrightarrow> json_get e' k = json_get e k))
        else piece = [e]) entries (map (retired_entry transferred ?own) entries)"
    unfolding list_all2_map2
  proof (rule list.rel_refl_strong)
    fix e
    assume "e \<in> set entries"
    then show "if ?own e then
          retired_entry transferred ?own e = [] \<and> entry_leaves e \<subseteq> set (field_leaves transferred)
          \<or> (\<exists>e'. retired_entry transferred ?own e = [e'] \<and> entry_leaves e' = entry_leaves e - set (field_leaves transferred)
              \<and> (\<forall>k. k \<noteq> ''fieldsV1'' \<longrightarrow> json_get e' k = json_get e k))
        else retired_entry transferred ?own e = [e]"
      using retired_entry_leaves [of ?own e transferred] wf(1) kept(2) moved(1) by (simp add: retired_entry_def)
  qed
  then show ?thesis
    using entries moved plan(2) kept(1)
    by (intro exI [of _ entries] exI [of _ "map (retired_entry transferred ?own) entries"]
        exI [of _ "set (field_leaves transferred)"] exI [of _ ?v])
      (simp add: meta_def json_get_find [of _ "''managedFields''"])
qed

lemma part_of_set:
  assumes "v = JNull \<or> part_of v (JObj b)" and "json_set v k x = Some w" and "part_of x (json_get (JObj b) k)"
  shows "part_of w (JObj b)"
proof (cases v)
  case (JObj a)
  then show ?thesis using assms part_of_insert by (auto simp: json_set_def)
next
  case JNull
  then have "w = JObj (bm_insert k x [])" using assms(2) by (simp add: json_set_def)
  then show ?thesis using part_of_insert [OF part_of_empty assms(3)] by simp
qed (use assms(2) in \<open>auto simp: json_set_def\<close>)

lemma part_of_member:
  assumes "part_of v (JObj b)"
  shows "json_get v k = JNull \<or> part_of (json_get v k) (json_get (JObj b) k)"
proof (cases v)
  case (JObj a)
  then show ?thesis using part_of_get [of a b k] assms by (auto simp: json_get_def [of "JObj a"] split: option.split)
qed (simp_all add: json_get_def)

lemma part_of_set_metadata:
  assumes "part_of v (JObj b)" and "set_metadata v field x = Some w" and "is_object (json_get (JObj b) ''metadata'')"
    and "part_of x (meta (JObj b) field)"
  shows "part_of w (JObj b)"
proof -
  obtain m where m: "json_get (JObj b) ''metadata'' = JObj m"
    using assms(3) by (cases "json_get (JObj b) ''metadata''") (auto simp: is_object_def)
  obtain u where u: "json_set (json_get v ''metadata'') field x = Some u" "json_set v ''metadata'' u = Some w"
    using assms(2) by (auto simp: set_metadata_def split: option.splits)
  have "part_of u (JObj m)"
    using part_of_set [OF _ u(1), of m] part_of_member [OF assms(1), of "''metadata''"] assms(4) by (simp add: m meta_def)
  then show ?thesis using part_of_set [OF _ u(2), of b] assms(1) by (simp add: m)
qed

lemma set_or_panic_Inr [simp]: "set_or_panic r = Inr v \<longleftrightarrow> r = Some v"
  by (auto simp: set_or_panic_def ok_or_def split: option.splits)

lemma bridge_identity_part:
  assumes "bridge_identity current uid rv v = Inr w" and "part_of v current" and "is_object (json_get current ''metadata'')"
    and "meta current ''uid'' = JStr uid" and "meta current ''resourceVersion'' = JStr rv"
  shows "part_of w current \<and> meta w ''uid'' = JStr uid \<and> meta w ''resourceVersion'' = JStr rv"
proof -
  obtain b where b: "current = JObj b" using assms(3) by (cases current) (auto simp: json_get_def is_object_def)
  obtain v1 v2 v3 v4 v5 where steps: "json_set v ''apiVersion'' (json_get current ''apiVersion'') = Some v1"
      "json_set v1 ''kind'' (json_get current ''kind'') = Some v2" "set_metadata v2 ''name'' (meta current ''name'') = Some v3"
      "(case json_find (json_get current ''metadata'') ''namespace'' of
         Some namespace \<Rightarrow> set_or_panic (set_metadata v3 ''namespace'' namespace) | None \<Rightarrow> Inr v3) = Inr v4"
      "set_metadata v4 ''uid'' (JStr uid) = Some v5" "set_metadata v5 ''resourceVersion'' (JStr rv) = Some w"
    using assms(1) by (auto simp: bridge_identity_def)
  note object = assms(3) [unfolded b]
  have "part_of v1 (JObj b)" using part_of_set [OF _ steps(1)] assms(2) by (simp add: b part_of.same)
  then have "part_of v2 (JObj b)" using part_of_set [OF _ steps(2)] by (simp add: b part_of.same)
  then have "part_of v3 (JObj b)" using part_of_set_metadata [OF _ steps(3) object] by (simp add: b part_of.same)
  then have "part_of v4 (JObj b)"
    using steps(4) part_of_set_metadata [of v3 b "''namespace''" _ v4, OF _ _ object]
    by (auto simp: b meta_def json_get_find [of _ "''namespace''"] intro: part_of.same split: option.splits)
  then have "part_of v5 (JObj b)"
    using part_of_set_metadata [OF _ steps(5) object] assms(4) by (simp add: b part_of.same)
  then have "part_of w (JObj b)"
    using part_of_set_metadata [OF _ steps(6) object] assms(5) by (simp add: b part_of.same)
  then show ?thesis
    using set_metadata_get(1) [OF steps(6)] set_metadata_get(1) [OF steps(5)] by (simp add: b meta_def)
qed

text \<open>The bridge, the object that is applied before any ownership is retired, asserts nothing but what the object
  has: each of its values is the current one, in the current order, and it carries the identity and the version it
  was computed from.\<close>

lemma bridge_asserts_current_values:
  assumes "migration J current desired = Inr (Some plan)" and "mig_bridge plan = Some bridge"
  shows "part_of bridge current \<and> meta bridge ''uid'' = meta current ''uid''
    \<and> meta bridge ''resourceVersion'' = meta current ''resourceVersion''"
proof -
  obtain applied transferred uid rv where
    entries: "json_find (json_get current ''metadata'') ''managedFields'' \<noteq> None"
    and identity: "nonempty_text (meta current ''uid'') = Some uid" "nonempty_text (meta current ''resourceVersion'') = Some rv"
    and bridge: "migration_bridge J current applied transferred uid rv = Inr (Some bridge)"
    using assms
    by (auto simp: migration_def Let_def ok_or_def split: option.splits json.splits if_splits simp del: intended.simps)
  obtain fields v where v: "project_fields J current fields 0 = Inr v" "bridge_identity current uid rv v = Inr bridge"
    using bridge by (auto simp: migration_bridge_def split: if_splits simp del: project_fields.simps)
  have "meta current ''uid'' = JStr uid" "meta current ''resourceVersion'' = JStr rv"
    using identity by (auto simp: nonempty_text_def split: json.splits if_splits)
  moreover have "is_object (json_get current ''metadata'')"
    using entries by (auto simp: json_find_def is_object_def split: json.splits)
  ultimately show ?thesis using bridge_identity_part [OF v(2) project_part(1) [OF v(1)]] by simp
qed

section \<open>A migration\<close>

definition plain_json :: json_lib where
  "plain_json = \<lparr>jl_parse = (\<lambda>s. Inr (JStr s)), jl_text = (\<lambda>_. [])\<rparr>"

definition field_entry_of :: "string \<Rightarrow> string \<Rightarrow> json" where
  "field_entry_of manager field =
     JObj [(''apiVersion'', JStr ''v1''), (''fieldsType'', JStr ''FieldsV1''),
       (''fieldsV1'', JObj [(''f:data'', JObj [(field, JObj [])])]),
       (''manager'', JStr manager), (''operation'', JStr ''Update'')]"

definition created_object :: json where
  "created_object =
     JObj [(''apiVersion'', JStr ''v1''), (''data'', JObj [(''a'', JStr ''1''), (''b'', JStr ''2'')]),
       (''kind'', JStr ''ConfigMap''),
       (''metadata'', JObj
         [(''managedFields'', JArr [field_entry_of MANAGER ''f:a'', field_entry_of ''kubectl'' ''f:b'']),
          (''name'', JStr ''settings''), (''resourceVersion'', JStr ''7''), (''uid'', JStr ''u1'')])]"

definition wanted_object :: json where
  "wanted_object = JObj [(''data'', JObj [(''a'', JStr ''5'')])]"

definition created_migration :: migration_plan where
  "created_migration =
     \<lparr>mig_bridge = Some (JObj [(''apiVersion'', JStr ''v1''), (''data'', JObj [(''a'', JStr ''1'')]), (''kind'', JStr ''ConfigMap''),
        (''metadata'', JObj [(''name'', JStr ''settings''), (''resourceVersion'', JStr ''7''), (''uid'', JStr ''u1'')])]),
      mig_patch = JArr [test_op ''/metadata/uid'' (JStr ''u1''), test_op ''/metadata/resourceVersion'' (JStr ''7''),
        test_op ''/metadata/managedFields'' (JArr [field_entry_of MANAGER ''f:a'', field_entry_of ''kubectl'' ''f:b'']),
        remove_op 0],
      mig_retained = JArr [field_entry_of ''kubectl'' ''f:b'']\<rparr>"

lemma created_object_wf: "json_wf created_object"
  by (simp add: created_object_def field_entry_of_def bm_wf_def exec_simps)

lemma created_migration: "migration plain_json created_object wanted_object = Inr (Some created_migration)"
  by (simp add: migration_def created_object_def field_entry_of_def created_migration_def wanted_object_def plain_json_def
      json_find_def json_get_def ours_def MANAGER_def intent_selected_def strip_prefix_def starts_with_def add_key_fields_def
      is_object_def meta_def nonempty_text_def migration_bridge_def granular_def skipped_def bridge_identity_def set_or_panic_def
      json_set_def set_metadata_def remaining_fields_def remove_at_def ok_or_def element_key_def current_field_def bm_remove_def Let_def)

lemma migration_patch_refines_witness:
  "\<exists>steps. mig_patch created_migration = JArr steps
    \<and> run_patch steps created_object = set_metadata created_object ''managedFields'' (mig_retained created_migration)"
  using migration_patch_refines [OF created_object_wf created_migration] by blast

lemma migration_moves_only_own_witness:
  "\<exists>pieces. [field_entry_of ''kubectl'' ''f:b''] = concat pieces \<and> length pieces = 2"
proof -
  from migration_moves_only_own [OF created_object_wf created_migration] obtain pieces where
    "[field_entry_of ''kubectl'' ''f:b''] = concat pieces"
    "length [field_entry_of MANAGER ''f:a'', field_entry_of ''kubectl'' ''f:b''] = length pieces"
    by (auto simp: created_migration_def created_object_def meta_def json_get_def dest!: list_all2_lengthD)
  moreover from this(2) have "length pieces = 2" by simp
  ultimately show ?thesis by blast
qed

lemma bridge_asserts_current_values_witness:
  "part_of (the (mig_bridge created_migration)) created_object"
  using bridge_asserts_current_values [OF created_migration, of "the (mig_bridge created_migration)"]
  by (simp add: created_migration_def)

end
