(* ===== verification/Kubectl.thy ===== *)
theory Kubectl
  imports Migration
begin

text \<open>
  Operations that call \<open>kubectl\<close>, as \<open>kubernetes/controller.rs\<close> and \<open>kubernetes/resolver.rs\<close> take it: a closure
  of the arguments, the standard input and the seconds, which answers with the output or an error. It is a
  parameter that may do anything to the world. An operation is a function of the session: the world and the log of
  the calls with their replies, the newest first.

  The locale \<open>call_policy\<close> is what the theorems about logs need: a set of admissible logs that harmless calls
  never leave. Its rules prove of an operation, step by step, that it keeps the policy and what its result says
  about the log (\<open>valid\<close>). \<open>keeps\<close> is about the world instead: what no call of the operation breaks.
\<close>

section \<open>Sessions\<close>

record event =
  ev_args :: "string list"
  ev_input :: string
  ev_reply :: "(string, string) result"

record 'w kube_session =
  ks_world :: 'w
  ks_log :: "event list"

type_synonym 'w kubectl = "string list \<Rightarrow> string \<Rightarrow> nat \<Rightarrow> 'w \<Rightarrow> (string, string) result \<times> 'w"

type_synonym ('w, 'a) kube = "'w kube_session \<Rightarrow> ('a, string) result \<times> 'w kube_session"

definition kb_of :: "('a, string) result \<Rightarrow> ('w, 'a) kube" where
  "kb_of r = (\<lambda>s. (r, s))"

definition kb_bind :: "('w, 'a) kube \<Rightarrow> ('a \<Rightarrow> ('w, 'b) kube) \<Rightarrow> ('w, 'b) kube" where
  "kb_bind m k = (\<lambda>s. case m s of (Inl e, s') \<Rightarrow> (Inl e, s') | (Inr x, s') \<Rightarrow> k x s')"

text \<open>A call whose error is looked at instead of being returned.\<close>

definition kb_try :: "('w, 'a) kube \<Rightarrow> ('w, ('a, string) result) kube" where
  "kb_try m = (\<lambda>s. case m s of (r, s') \<Rightarrow> (Inr r, s'))"

definition kb_call :: "'w kubectl \<Rightarrow> string list \<Rightarrow> string \<Rightarrow> nat \<Rightarrow> ('w, string) kube" where
  "kb_call K args input seconds s =
     (let (reply, w) = K args input seconds (ks_world s)
      in (reply, \<lparr>ks_world = w, ks_log = \<lparr>ev_args = args, ev_input = input, ev_reply = reply\<rparr> # ks_log s\<rparr>))"

definition new_session :: "'w \<Rightarrow> 'w kube_session" where
  "new_session w = \<lparr>ks_world = w, ks_log = []\<rparr>"

lemma kb_of_bind [simp]:
  "kb_bind (kb_of (Inr x)) k = k x" "kb_bind (kb_of (Inl e)) k = kb_of (Inl e)"
  by (simp_all add: kb_bind_def kb_of_def)

fun kb_each :: "('a \<Rightarrow> ('w, unit) kube) \<Rightarrow> 'a list \<Rightarrow> ('w, unit) kube" where
  "kb_each f [] = kb_of (Inr ())"
| "kb_each f (x # xs) = kb_bind (f x) (\<lambda>_. kb_each f xs)"

lemma kb_bind_assoc: "kb_bind (kb_bind m k) h = kb_bind m (\<lambda>x. kb_bind (k x) h)"
  by (auto simp: kb_bind_def fun_eq_iff split: prod.split sum.split)

lemma kb_bind_unit: "kb_bind m (\<lambda>_. kb_of (Inr ())) = m" for m :: "('w, unit) kube"
  by (auto simp: kb_bind_def kb_of_def fun_eq_iff split: prod.split sum.split)

section \<open>What calls keep of the world\<close>

named_theorems keeps_intros \<open>rules for what an operation keeps of the world\<close>

definition keeps :: "('w \<Rightarrow> bool) \<Rightarrow> ('w, 'a) kube \<Rightarrow> bool" where
  "keeps I m \<longleftrightarrow> (\<forall>s. I (ks_world s) \<longrightarrow> I (ks_world (snd (m s))))"

definition kept_by :: "'w kubectl \<Rightarrow> ('w \<Rightarrow> bool) \<Rightarrow> bool" where
  "kept_by K I \<longleftrightarrow> (\<forall>args input seconds w. I w \<longrightarrow> I (snd (K args input seconds w)))"

lemma keeps_of [keeps_intros]: "keeps I (kb_of r)"
  by (simp add: keeps_def kb_of_def)

lemma keeps_bind [keeps_intros]: "keeps I m \<Longrightarrow> (\<And>x. keeps I (k x)) \<Longrightarrow> keeps I (kb_bind m k)"
  by (fastforce simp: keeps_def kb_bind_def split: prod.split sum.split)

lemma keeps_try [keeps_intros]: "keeps I m \<Longrightarrow> keeps I (kb_try m)"
  by (auto simp: keeps_def kb_try_def split: prod.split)

lemma keeps_call [keeps_intros]: "kept_by K I \<Longrightarrow> keeps I (kb_call K args input seconds)"
  by (simp add: keeps_def kept_by_def kb_call_def split_beta)

lemma keeps_if [keeps_intros]: "keeps I m \<Longrightarrow> keeps I n \<Longrightarrow> keeps I (if b then m else n)"
  by simp

lemma keeps_option [keeps_intros]: "keeps I m \<Longrightarrow> (\<And>x. keeps I (k x)) \<Longrightarrow> keeps I (case v of None \<Rightarrow> m | Some x \<Rightarrow> k x)"
  by (cases v) simp_all

lemma keeps_pair [keeps_intros]: "(\<And>a b. keeps I (k a b)) \<Longrightarrow> keeps I (case p of (a, b) \<Rightarrow> k a b)"
  by (cases p) simp

lemma keeps_sum [keeps_intros]:
  "(\<And>e. keeps I (h e)) \<Longrightarrow> (\<And>x. keeps I (k x)) \<Longrightarrow> keeps I (case v of Inl e \<Rightarrow> h e | Inr x \<Rightarrow> k x)"
  by (cases v) simp_all

lemma keeps_each [keeps_intros]: "(\<And>x. keeps I (f x)) \<Longrightarrow> keeps I (kb_each f xs)"
  by (induction xs) (auto intro: keeps_of keeps_bind)

section \<open>What operations do to the log\<close>

named_theorems extends_intros \<open>operations only add to the log\<close>

definition extends :: "('w, 'a) kube \<Rightarrow> bool" where
  "extends m \<longleftrightarrow> (\<forall>s. \<exists>es. ks_log (snd (m s)) = es @ ks_log s)"

text \<open>Facts about a log that later calls do not undo, and operations that only return when a fact holds.\<close>

definition lasting :: "(event list \<Rightarrow> bool) \<Rightarrow> bool" where
  "lasting Q \<longleftrightarrow> (\<forall>es log. Q log \<longrightarrow> Q (es @ log))"

definition establishes :: "('w, 'a) kube \<Rightarrow> (event list \<Rightarrow> bool) \<Rightarrow> bool" where
  "establishes m Q \<longleftrightarrow> (\<forall>s x. fst (m s) = Inr x \<longrightarrow> Q (ks_log (snd (m s))))"

lemma extends_of [extends_intros]: "extends (kb_of r)"
  by (simp add: extends_def kb_of_def)

lemma extends_bind [extends_intros]:
  assumes "extends m" and "\<And>x. extends (k x)"
  shows "extends (kb_bind m k)"
  unfolding extends_def
proof
  fix s
  obtain r s' where run: "m s = (r, s')" by fastforce
  obtain es where es: "ks_log s' = es @ ks_log s" using assms(1) run unfolding extends_def by (metis snd_conv)
  show "\<exists>es. ks_log (snd (kb_bind m k s)) = es @ ks_log s"
  proof (cases r)
    case (Inl e)
    with run es show ?thesis by (simp add: kb_bind_def)
  next
    case (Inr x)
    obtain ds where "ks_log (snd (k x s')) = ds @ ks_log s'" using assms(2) unfolding extends_def by blast
    with Inr run es show ?thesis by (simp add: kb_bind_def)
  qed
qed

lemma extends_try [extends_intros]: "extends m \<Longrightarrow> extends (kb_try m)"
  by (simp add: extends_def kb_try_def split_beta)

lemma extends_call [extends_intros]: "extends (kb_call K args input seconds)"
  by (simp add: extends_def kb_call_def split_beta)

lemma extends_if [extends_intros]: "extends m \<Longrightarrow> extends n \<Longrightarrow> extends (if b then m else n)"
  by simp

lemma extends_option [extends_intros]:
  "extends m \<Longrightarrow> (\<And>x. extends (k x)) \<Longrightarrow> extends (case v of None \<Rightarrow> m | Some x \<Rightarrow> k x)"
  by (cases v) simp_all

lemma extends_sum [extends_intros]:
  "(\<And>e. extends (h e)) \<Longrightarrow> (\<And>x. extends (k x)) \<Longrightarrow> extends (case v of Inl e \<Rightarrow> h e | Inr x \<Rightarrow> k x)"
  by (cases v) simp_all

lemma extends_pair [extends_intros]: "(\<And>a b. extends (k a b)) \<Longrightarrow> extends (case p of (a, b) \<Rightarrow> k a b)"
  by (cases p) simp

lemma extends_each [extends_intros]: "(\<And>x. extends (f x)) \<Longrightarrow> extends (kb_each f xs)"
  by (induction xs) (auto intro: extends_of extends_bind)

lemma establishes_weaken: "establishes m Q \<Longrightarrow> (\<And>log. Q log \<Longrightarrow> R log) \<Longrightarrow> establishes m R"
  by (auto simp: establishes_def)

lemma establishes_first:
  assumes "establishes m Q" and "lasting Q" and "\<And>x. extends (k x)"
  shows "establishes (kb_bind m k) Q"
  unfolding establishes_def
proof (intro allI impI)
  fix s y assume ok: "fst (kb_bind m k s) = Inr y"
  obtain r s' where run: "m s = (r, s')" by fastforce
  obtain x where r: "r = Inr x" using ok run by (cases r) (auto simp: kb_bind_def)
  have "Q (ks_log s')" using assms(1) run r unfolding establishes_def by (metis fst_conv snd_conv)
  moreover obtain es where "ks_log (snd (k x s')) = es @ ks_log s'" using assms(3) unfolding extends_def by blast
  ultimately show "Q (ks_log (snd (kb_bind m k s)))" using assms(2) run r by (simp add: kb_bind_def lasting_def)
qed

lemma establishes_second:
  assumes "\<And>x. establishes (k x) Q"
  shows "establishes (kb_bind m k) Q"
  using assms by (fastforce simp: establishes_def kb_bind_def split: prod.splits sum.splits)

lemma establishes_error: "establishes (kb_of (Inl e)) Q"
  by (simp add: establishes_def kb_of_def)

lemma establishes_if: "(b \<Longrightarrow> establishes m Q) \<Longrightarrow> (\<not> b \<Longrightarrow> establishes n Q) \<Longrightarrow> establishes (if b then m else n) Q"
  by simp

lemma establishes_each:
  assumes "x \<in> set xs" and "establishes (f x) Q" and "lasting Q" and "\<And>y. extends (f y)"
  shows "establishes (kb_each f xs) Q"
  using assms(1)
proof (induction xs)
  case (Cons y ys)
  show ?case
  proof (cases "x = y")
    case True
    then show ?thesis
      using assms(2-4) by (simp add: establishes_first extends_each)
  next
    case False
    then show ?thesis using Cons by (simp add: establishes_second)
  qed
qed simp

section \<open>Policies\<close>

text \<open>The calls that only read or wait.\<close>

definition reading :: "event \<Rightarrow> bool" where
  "reading e \<longleftrightarrow> ev_args e \<noteq> [] \<and> hd (ev_args e) \<in> {''get'', ''wait'', ''rollout''}"

lemma reading_event [simp]:
  "reading \<lparr>ev_args = args, ev_input = input, ev_reply = reply\<rparr> \<longleftrightarrow>
    args \<noteq> [] \<and> hd args \<in> {''get'', ''wait'', ''rollout''}"
  by (simp add: reading_def)

locale call_policy =
  fixes allowed :: "event list \<Rightarrow> bool" and harmless :: "event \<Rightarrow> bool"
  assumes allowed_read: "allowed log \<Longrightarrow> harmless e \<Longrightarrow> allowed (e # log)"
begin

text \<open>From an admissible log with \<open>P\<close>, the operation ends in an admissible log, with \<open>Q\<close> when it returns.\<close>

definition valid :: "(event list \<Rightarrow> bool) \<Rightarrow> ('w, 'a) kube \<Rightarrow> ('a \<Rightarrow> event list \<Rightarrow> bool) \<Rightarrow> bool" where
  "valid P m Q \<longleftrightarrow>
     (\<forall>s. allowed (ks_log s) \<and> P (ks_log s) \<longrightarrow> allowed (ks_log (snd (m s)))
       \<and> (\<forall>x. fst (m s) = Inr x \<longrightarrow> Q x (ks_log (snd (m s)))))"

lemma valid_of: "(\<And>x log. r = Inr x \<Longrightarrow> P log \<Longrightarrow> Q x log) \<Longrightarrow> valid P (kb_of r) Q"
  by (auto simp: valid_def kb_of_def)

lemma valid_bind: "valid P m Q \<Longrightarrow> (\<And>x. valid (Q x) (k x) R) \<Longrightarrow> valid P (kb_bind m k) R"
  by (fastforce simp: valid_def kb_bind_def split: prod.split sum.split)

lemma valid_weaken:
  "valid P m Q \<Longrightarrow> (\<And>log. P' log \<Longrightarrow> P log) \<Longrightarrow> (\<And>x log. Q x log \<Longrightarrow> Q' x log) \<Longrightarrow> valid P' m Q'"
  by (auto simp: valid_def)

lemma valid_call:
  assumes "\<And>log reply. allowed log \<Longrightarrow> P log \<Longrightarrow> allowed (\<lparr>ev_args = args, ev_input = input, ev_reply = reply\<rparr> # log)"
  shows "valid P (kb_call K args input seconds)
    (\<lambda>raw log. \<exists>before. P before \<and> log = \<lparr>ev_args = args, ev_input = input, ev_reply = Inr raw\<rparr> # before)"
  using assms by (auto simp: valid_def kb_call_def split: prod.split)

lemma valid_read:
  assumes "\<And>reply. harmless \<lparr>ev_args = args, ev_input = input, ev_reply = reply\<rparr>"
  shows "valid P (kb_call K args input seconds)
    (\<lambda>raw log. \<exists>before. P before \<and> log = \<lparr>ev_args = args, ev_input = input, ev_reply = Inr raw\<rparr> # before)"
  using assms by (intro valid_call allowed_read)

lemma valid_try_call:
  assumes "\<And>log reply. allowed log \<Longrightarrow> P log \<Longrightarrow> allowed (\<lparr>ev_args = args, ev_input = input, ev_reply = reply\<rparr> # log)"
  shows "valid P (kb_try (kb_call K args input seconds))
    (\<lambda>reply log. \<exists>before. P before \<and> log = \<lparr>ev_args = args, ev_input = input, ev_reply = reply\<rparr> # before)"
  using assms by (auto simp: valid_def kb_call_def kb_try_def split: prod.split)

lemma valid_if: "(b \<Longrightarrow> valid P m Q) \<Longrightarrow> (\<not> b \<Longrightarrow> valid P n Q) \<Longrightarrow> valid P (if b then m else n) Q"
  by simp

lemma valid_pre: "(\<And>log. P log \<Longrightarrow> b) \<Longrightarrow> (b \<Longrightarrow> valid P m Q) \<Longrightarrow> valid P m Q"
  by (auto simp: valid_def)

lemma valid_run:
  assumes "valid P m Q" and "allowed []" and "P []"
  shows "allowed (ks_log (snd (m (new_session w))))"
    and "fst (m (new_session w)) = Inr x \<Longrightarrow> Q x (ks_log (snd (m (new_session w))))"
  using assms by (auto simp: valid_def new_session_def)

end

end
