(* ===== verification/KubeApply.thy ===== *)
theory KubeApply
  imports Kubectl
begin

text \<open>
  Applying an object that is owned by a cluster of the project (\<open>apply_owned_object\<close> and what it calls in
  \<open>kubernetes/controller.rs\<close>): read the object, create it when it is absent, refuse it when somebody
  else owns it, retire our ownership by creation (\<open>migrate_create_ownership\<close>), apply it at the version that was
  read, and start over at most twice when the version has changed.

  The log of calls is checked against a policy (\<open>guarded\<close>): every change is bound to an object that has been read,
  was owned, and has the identity the operation began with. Indexing into an object that is not one panics in the
  code; those places are errors of the model.
\<close>

section \<open>Inventories\<close>

definition get_args :: "string \<Rightarrow> string list" where
  "get_args namespace =
     [''get'', ''--ignore-not-found'', ''--show-managed-fields=true'', ''-f'', ''-'', ''-o'', ''json'', ''--namespace'', namespace]"

definition create_args :: "string \<Rightarrow> string list" where
  "create_args namespace =
     [''create'', ''--field-manager=vzctl-kubernetes'', ''--show-managed-fields=true'', ''-f'', ''-'', ''-o'', ''json'',
      ''--namespace'', namespace]"

definition apply_args :: "string \<Rightarrow> string list" where
  "apply_args namespace =
     [''apply'', ''--server-side'', ''--field-manager=vzctl-kubernetes'', ''-f'', ''-'', ''--namespace'', namespace]"

definition patch_args :: "string \<Rightarrow> string \<Rightarrow> string list" where
  "patch_args patch namespace =
     [''patch'', ''--type=json'', ''--field-manager=vzctl-kubernetes-migration'', ''-f'', ''-'', ''--patch'', patch,
      ''--namespace'', namespace]"

definition validate_inventory_identity :: "json \<Rightarrow> json \<Rightarrow> string \<Rightarrow> (unit, string) result" where
  "validate_inventory_identity actual desired namespace =
     (if json_get actual ''apiVersion'' \<noteq> json_get desired ''apiVersion''
         \<or> json_get actual ''kind'' \<noteq> json_get desired ''kind''
         \<or> meta actual ''name'' \<noteq> meta desired ''name'' then
        Inl ''Kubernetes inventory resource identity does not match the requested object''
      else case json_find (json_get actual ''metadata'') ''namespace'' of
        Some v \<Rightarrow>
          if json_as_str v \<noteq> Some namespace then
            Inl ''Kubernetes inventory namespace does not match the requested object''
          else Inr ()
      | None \<Rightarrow>
          if json_find (json_get desired ''metadata'') ''namespace'' \<noteq> None then
            Inl ''Kubernetes inventory omitted the requested namespace''
          else Inr ())"

definition read_inventory :: "json_lib \<Rightarrow> string \<Rightarrow> json \<Rightarrow> string \<Rightarrow> (json option, string) result" where
  "read_inventory J raw desired namespace =
     (if trim raw = [] then Inr None
      else
        and_then (map_err (\<lambda>e. ''invalid resource inventory: '' @ e) (jl_parse J raw)) (\<lambda>actual.
        and_then
          (if json_get actual ''kind'' = JStr ''List'' then
             if json_get actual ''apiVersion'' \<noteq> JStr ''v1'' then Inl ''invalid Kubernetes inventory List version''
             else (case json_get actual ''items'' of
               JArr [] \<Rightarrow> Inr None
             | JArr [item] \<Rightarrow> Inr (Some item)
             | JArr _ \<Rightarrow> Inl ''ambiguous Kubernetes inventory: expected one resource''
             | _ \<Rightarrow> Inl ''invalid Kubernetes inventory List items'')
           else Inr (Some actual)) (\<lambda>found.
        case found of
          None \<Rightarrow> Inr None
        | Some actual \<Rightarrow>
            and_then (validate_inventory_identity actual desired namespace) (\<lambda>_. Inr (Some actual)))))"

definition resource_version_conflict :: "string \<Rightarrow> bool" where
  "resource_version_conflict error \<longleftrightarrow>
     contains_str error ''Operation cannot be fulfilled on ''
     \<and> contains_str error
         ''the object has been modified; please apply your changes to the latest version and try again''"

section \<open>Migrating the ownership\<close>

definition read_object ::
    "'w kubectl \<Rightarrow> json_lib \<Rightarrow> string \<Rightarrow> string \<Rightarrow> json \<Rightarrow> string \<Rightarrow> string \<Rightarrow> ('w, json) kube" where
  "read_object K J project cluster desired namespace uid =
     kb_bind (kb_call K (get_args namespace) (jl_text J desired) 30) (\<lambda>raw.
     kb_bind (kb_of (read_inventory J raw desired namespace)) (\<lambda>found.
     kb_bind (kb_of (ok_or ''ownership conflict: resource disappeared during field migration'' found)) (\<lambda>actual.
     kb_bind (kb_of (check_existing actual project cluster)) (\<lambda>_.
       if meta actual ''uid'' \<noteq> JStr uid \<or> nonempty_text (meta actual ''resourceVersion'') = None then
         kb_of (Inl ''ownership conflict: resource identity changed during field migration'')
       else kb_of (Inr actual)))))"

text \<open>The bridge: apply the current values under our manager, and compute the migration again.\<close>

definition apply_bridge ::
    "'w kubectl \<Rightarrow> json_lib \<Rightarrow> string \<Rightarrow> string \<Rightarrow> json \<Rightarrow> json \<Rightarrow> string \<Rightarrow> string \<Rightarrow> migration_plan
     \<Rightarrow> ('w, json \<times> migration_plan) kube" where
  "apply_bridge K J project cluster desired existing namespace uid plan =
     (case mig_bridge plan of
        None \<Rightarrow> kb_of (Inr (existing, plan))
      | Some bridge \<Rightarrow>
          kb_bind (kb_call K (apply_args namespace) (jl_text J bridge) 30) (\<lambda>_.
          kb_bind (read_object K J project cluster desired namespace uid) (\<lambda>actual.
          kb_bind (kb_of (same_values existing actual)) (\<lambda>same.
            if \<not> same then kb_of (Inl ''resource values changed during field ownership bridge'')
            else
              kb_bind (kb_of (migration J actual desired)) (\<lambda>again.
              kb_bind (kb_of (ok_or ''field ownership bridge unexpectedly removed Create ownership'' again)) (\<lambda>again.
                if mig_bridge again \<noteq> None then
                  kb_of (Inl ''field ownership bridge did not establish complete Apply ownership'')
                else kb_of (Inr (actual, again))))))))"

definition retire_ownership ::
    "'w kubectl \<Rightarrow> json_lib \<Rightarrow> string \<Rightarrow> string \<Rightarrow> json \<Rightarrow> string \<Rightarrow> string \<Rightarrow> json \<times> migration_plan \<Rightarrow> ('w, json) kube" where
  "retire_ownership K J project cluster desired namespace uid step =
     (let (existing, plan) = step
      in if (case mig_retained plan of JArr entries \<Rightarrow> entries = [] | _ \<Rightarrow> True) then
           kb_of (Inl ''field ownership migration refuses an empty managedFields reset'')
         else
           kb_bind (kb_call K (patch_args (jl_text J (mig_patch plan)) namespace) (jl_text J desired) 30) (\<lambda>_.
           kb_bind (read_object K J project cluster desired namespace uid) (\<lambda>actual.
           kb_bind (kb_of (if meta actual ''managedFields'' \<noteq> mig_retained plan then Inr False
               else same_values existing actual)) (\<lambda>preserved.
             if \<not> preserved then
               kb_of (Inl ''field ownership migration did not preserve resource and foreign managers'')
             else kb_of (Inr actual)))))"

definition migrate_create_ownership ::
    "'w kubectl \<Rightarrow> json_lib \<Rightarrow> string \<Rightarrow> string \<Rightarrow> json \<Rightarrow> json \<Rightarrow> string \<Rightarrow> string \<Rightarrow> ('w, json) kube" where
  "migrate_create_ownership K J project cluster desired existing namespace uid =
     kb_bind (kb_of (migration J existing desired)) (\<lambda>found.
       case found of
         None \<Rightarrow> kb_of (Inr existing)
       | Some plan \<Rightarrow>
           kb_bind (apply_bridge K J project cluster desired existing namespace uid plan)
             (retire_ownership K J project cluster desired namespace uid))"

section \<open>Applying\<close>

text \<open>The object at the version that was read.\<close>

definition at_version :: "json \<Rightarrow> string \<Rightarrow> string \<Rightarrow> (json, string) result" where
  "at_version v uid version =
     and_then (set_or_panic (set_metadata v ''uid'' (JStr uid))) (\<lambda>v.
       set_or_panic (set_metadata v ''resourceVersion'' (JStr version)))"

definition check_replaced :: "json \<Rightarrow> string \<Rightarrow> (unit, string) result" where
  "check_replaced existing uid =
     (if meta existing ''uid'' \<noteq> JStr uid then
        Inl ''ownership conflict: Kubernetes resource was replaced during apply''
      else Inr ())"

text \<open>The attempts that are left; a conflict of the version is retried while there is one more.\<close>

fun apply_attempts ::
    "'w kubectl \<Rightarrow> json_lib \<Rightarrow> string \<Rightarrow> string \<Rightarrow> json \<Rightarrow> string \<Rightarrow> string \<Rightarrow> nat \<Rightarrow> json \<Rightarrow> ('w, unit) kube" where
  "apply_attempts K J project cluster v namespace uid 0 existing = kb_of (Inr ())"
| "apply_attempts K J project cluster v namespace uid (Suc rest) existing =
     kb_bind (kb_of (check_existing existing project cluster)) (\<lambda>_.
     kb_bind (kb_of (check_replaced existing uid)) (\<lambda>_.
     kb_bind (migrate_create_ownership K J project cluster v existing namespace uid) (\<lambda>existing.
     kb_bind (kb_of (ok_or ''Kubernetes inventory omitted resourceVersion; refusing an unguarded update''
       (nonempty_text (meta existing ''resourceVersion'')))) (\<lambda>version.
     kb_bind (kb_of (at_version v uid version)) (\<lambda>desired.
     kb_bind (kb_try (kb_call K (apply_args namespace) (jl_text J desired) 30)) (\<lambda>reply.
       case reply of
         Inr _ \<Rightarrow> kb_of (Inr ())
       | Inl error \<Rightarrow>
           if resource_version_conflict error \<and> 0 < rest then
             kb_bind (kb_call K (get_args namespace) (jl_text J v) 30) (\<lambda>latest.
             kb_bind (kb_of (read_inventory J latest v namespace)) (\<lambda>found.
             kb_bind (kb_of (ok_or ''ownership conflict: Kubernetes resource disappeared during apply'' found)) (\<lambda>existing.
             kb_bind (kb_of (check_existing existing project cluster)) (\<lambda>_.
             kb_bind (kb_of (check_replaced existing uid)) (\<lambda>_.
               if meta existing ''resourceVersion'' = JStr version then kb_of (Inl error)
               else apply_attempts K J project cluster v namespace uid rest existing)))))
           else kb_of (Inl error)))))))"

definition wait_established :: "'w kubectl \<Rightarrow> json \<Rightarrow> ('w, unit) kube" where
  "wait_established K v =
     (if json_get v ''kind'' = JStr ''CustomResourceDefinition'' then
        kb_bind (kb_of (ok_or ''CRD requires name'' (json_as_str (meta v ''name'')))) (\<lambda>name.
        kb_bind (kb_call K [''wait'', ''--for=condition=Established'', ''customresourcedefinition/'' @ name, ''--timeout=60s''] [] 70)
          (\<lambda>_. kb_of (Inr ())))
      else kb_of (Inr ()))"

definition apply_namespace :: "cluster_config \<Rightarrow> json \<Rightarrow> string" where
  "apply_namespace config v =
     (case json_as_str (meta v ''namespace'') of Some namespace \<Rightarrow> namespace | None \<Rightarrow> cl_default_namespace config)"

text \<open>The object as it is, created when it is absent.\<close>

definition existing_or_created :: "'w kubectl \<Rightarrow> json_lib \<Rightarrow> json \<Rightarrow> string \<Rightarrow> ('w, json) kube" where
  "existing_or_created K J v namespace =
     kb_bind (kb_call K (get_args namespace) (jl_text J v) 30) (\<lambda>raw.
     kb_bind (kb_of (read_inventory J raw v namespace)) (\<lambda>found.
       case found of
         Some existing \<Rightarrow> kb_of (Inr existing)
       | None \<Rightarrow>
           kb_bind (kb_call K (create_args namespace) (jl_text J v) 30) (\<lambda>raw.
           kb_bind (kb_of (map_err (\<lambda>e. ''invalid created resource: '' @ e) (jl_parse J raw))) (\<lambda>created.
           kb_bind (kb_of (validate_inventory_identity created v namespace)) (\<lambda>_. kb_of (Inr created))))))"

definition apply_owned_object ::
    "'w kubectl \<Rightarrow> json_lib \<Rightarrow> string \<Rightarrow> string \<Rightarrow> cluster_config \<Rightarrow> json \<Rightarrow> ('w, unit) kube" where
  "apply_owned_object K J project cluster config v =
     (let namespace = apply_namespace config v
      in kb_bind (existing_or_created K J v namespace) (\<lambda>existing.
         kb_bind (kb_of (check_existing existing project cluster)) (\<lambda>_.
         kb_bind (kb_of (ok_or ''Kubernetes inventory omitted UID; refusing an unguarded update''
           (nonempty_text (meta existing ''uid'')))) (\<lambda>uid.
         kb_bind (apply_attempts K J project cluster v namespace uid 3 existing) (\<lambda>_.
           wait_established K v)))))"

section \<open>The policy\<close>

text \<open>An object that a call has returned: an inventory that was read, or the object just created.\<close>

definition seen :: "json_lib \<Rightarrow> json \<Rightarrow> string \<Rightarrow> event list \<Rightarrow> json \<Rightarrow> bool" where
  "seen J v namespace log existing \<longleftrightarrow>
     (\<exists>e \<in> set log. \<exists>raw. ev_reply e = Inr raw
       \<and> (ev_args e = get_args namespace \<and> read_inventory J raw v namespace = Inr (Some existing)
          \<or> ev_args e = create_args namespace \<and> jl_parse J raw = Inr existing))"

definition held ::
    "json_lib \<Rightarrow> string \<Rightarrow> string \<Rightarrow> json \<Rightarrow> string \<Rightarrow> string \<Rightarrow> event list \<Rightarrow> json \<Rightarrow> bool" where
  "held J project cluster v namespace uid log existing \<longleftrightarrow>
     seen J v namespace log existing \<and> check_existing existing project cluster = Inr ()
     \<and> meta existing ''uid'' = JStr uid"

text \<open>The declared object, with the identity and the version it is bound to.\<close>

definition declares :: "json \<Rightarrow> string \<Rightarrow> string \<Rightarrow> json \<Rightarrow> bool" where
  "declares v uid version desired \<longleftrightarrow>
     meta desired ''uid'' = JStr uid \<and> meta desired ''resourceVersion'' = JStr version
     \<and> (\<forall>field. field \<notin> {''uid'', ''resourceVersion''} \<longrightarrow> meta desired field = meta v field)
     \<and> (\<forall>key. key \<noteq> ''metadata'' \<longrightarrow> json_get desired key = json_get v key)"

lemma at_version_declares: "at_version v uid version = Inr desired \<Longrightarrow> declares v uid version desired"
  by (auto simp: at_version_def declares_def meta_def set_metadata_get)

text \<open>The object applied at a version, the bridge of a migration, the patch of a migration.\<close>

definition change_of :: "json_lib \<Rightarrow> json \<Rightarrow> string \<Rightarrow> string \<Rightarrow> json \<Rightarrow> event \<Rightarrow> bool" where
  "change_of J v namespace uid existing e \<longleftrightarrow>
     ev_args e = apply_args namespace
       \<and> (\<exists>version desired. meta existing ''resourceVersion'' = JStr version \<and> version \<noteq> []
            \<and> declares v uid version desired \<and> ev_input e = jl_text J desired)
     \<or> (\<exists>plan. migration J existing v = Inr (Some plan)
          \<and> (ev_args e = apply_args namespace \<and> (\<exists>bridge. mig_bridge plan = Some bridge \<and> ev_input e = jl_text J bridge)
             \<or> ev_args e = patch_args (jl_text J (mig_patch plan)) namespace))"

definition permitted ::
    "json_lib \<Rightarrow> string \<Rightarrow> string \<Rightarrow> json \<Rightarrow> string \<Rightarrow> string \<Rightarrow> event list \<Rightarrow> event \<Rightarrow> bool" where
  "permitted J project cluster v namespace uid log e \<longleftrightarrow>
     ev_args e = create_args namespace \<and> ev_input e = jl_text J v
       \<and> (\<exists>raw. map ev_args log = [get_args namespace] \<and> map ev_reply log = [Inr raw]
            \<and> read_inventory J raw v namespace = Inr None)
     \<or> (\<exists>existing. held J project cluster v namespace uid log existing \<and> change_of J v namespace uid existing e)"

fun guarded ::
    "json_lib \<Rightarrow> string \<Rightarrow> string \<Rightarrow> json \<Rightarrow> string \<Rightarrow> string \<Rightarrow> event list \<Rightarrow> bool" where
  "guarded J project cluster v namespace uid [] \<longleftrightarrow> True"
| "guarded J project cluster v namespace uid (e # log) \<longleftrightarrow>
     guarded J project cluster v namespace uid log
     \<and> (reading e \<or> permitted J project cluster v namespace uid log e)"

interpretation apply_log: call_policy "guarded J project cluster v namespace uid" reading
  for J project cluster v namespace uid
  by unfold_locales simp

lemma held_Cons: "held J project cluster v namespace uid log existing \<Longrightarrow> held J project cluster v namespace uid (e # log) existing"
  by (auto simp: held_def seen_def)

lemma args_heads [simp]:
  "get_args namespace \<noteq> []" "hd (get_args namespace) = ''get''" "apply_args namespace \<noteq> get_args namespace"
  by (simp_all add: get_args_def apply_args_def)

section \<open>Every change is guarded\<close>

definition applied :: "json_lib \<Rightarrow> json \<Rightarrow> string \<Rightarrow> string \<Rightarrow> event list \<Rightarrow> bool" where
  "applied J v namespace uid log \<longleftrightarrow>
     (\<exists>e \<in> set log. ev_args e = apply_args namespace \<and> is_ok (ev_reply e)
       \<and> (\<exists>version desired. declares v uid version desired \<and> ev_input e = jl_text J desired))"

lemma valid_get:
  "apply_log.valid J project cluster v namespace uid P (kb_call K (get_args namespace) (jl_text J v) 30)
    (\<lambda>raw log. \<forall>existing. read_inventory J raw v namespace = Inr (Some existing) \<longrightarrow> seen J v namespace log existing)"
  by (rule apply_log.valid_weaken [OF apply_log.valid_read]) (auto simp: seen_def)

lemma valid_read_object:
  "apply_log.valid J project cluster v namespace uid P (read_object K J project cluster v namespace uid)
    (\<lambda>actual log. held J project cluster v namespace uid log actual)"
  unfolding read_object_def
  by (intro apply_log.valid_bind [OF valid_get] apply_log.valid_bind [OF apply_log.valid_of,
        where Q = "\<lambda>found log. \<forall>existing. found = Some existing \<longrightarrow> seen J v namespace log existing"]
      apply_log.valid_bind [OF apply_log.valid_of, where Q = "\<lambda>actual log. seen J v namespace log actual"]
      apply_log.valid_bind [OF apply_log.valid_of, where Q = "\<lambda>_ log. seen J v namespace log x
        \<and> check_existing x project cluster = Inr ()" for x]
      apply_log.valid_if apply_log.valid_of)
    (auto simp: held_def)

lemma guarded_change:
  "guarded J project cluster v namespace uid log \<Longrightarrow> held J project cluster v namespace uid log existing \<Longrightarrow>
    change_of J v namespace uid existing e \<Longrightarrow> guarded J project cluster v namespace uid (e # log)"
  by (auto simp: permitted_def)

lemma valid_change:
  assumes "\<And>reply. change_of J v namespace uid existing \<lparr>ev_args = args, ev_input = input, ev_reply = reply\<rparr>"
  shows "apply_log.valid J project cluster v namespace uid (\<lambda>log. held J project cluster v namespace uid log existing)
    (kb_call K args input seconds) (\<lambda>_ _. True)"
  by (rule apply_log.valid_weaken [OF apply_log.valid_call
        [where P = "\<lambda>log. held J project cluster v namespace uid log existing"]])
    (rule guarded_change [OF _ _ assms], assumption+, simp_all)

lemma valid_apply_bridge:
  assumes "migration J existing v = Inr (Some plan)"
  shows "apply_log.valid J project cluster v namespace uid (\<lambda>log. held J project cluster v namespace uid log existing)
    (apply_bridge K J project cluster v existing namespace uid plan)
    (\<lambda>step log. held J project cluster v namespace uid log (fst step) \<and> migration J (fst step) v = Inr (Some (snd step)))"
proof (cases "mig_bridge plan")
  case None
  then show ?thesis by (simp add: apply_bridge_def) (rule apply_log.valid_of, use assms in auto)
next
  case (Some bridge)
  have call: "apply_log.valid J project cluster v namespace uid (\<lambda>log. held J project cluster v namespace uid log existing)
      (kb_call K (apply_args namespace) (jl_text J bridge) 30) (\<lambda>_ _. True)"
    using assms Some by (intro valid_change) (auto simp: change_of_def)
  show ?thesis
    unfolding apply_bridge_def Some option.case
    by (intro apply_log.valid_bind [OF call] apply_log.valid_bind [OF valid_read_object]
        apply_log.valid_bind [OF apply_log.valid_of, where Q = "\<lambda>_ log. held J project cluster v namespace uid log x" for x]
        apply_log.valid_bind [OF apply_log.valid_of, where Q = "\<lambda>again log. held J project cluster v namespace uid log x
          \<and> (\<forall>plan. again = Some plan \<longrightarrow> migration J x v = Inr (Some plan))" for x]
        apply_log.valid_bind [OF apply_log.valid_of, where Q = "\<lambda>again log. held J project cluster v namespace uid log x
          \<and> migration J x v = Inr (Some again)" for x]
        apply_log.valid_if apply_log.valid_of)
      (auto split: if_splits)
qed

lemma valid_retire_ownership:
  assumes "migration J (fst step) v = Inr (Some (snd step))"
  shows "apply_log.valid J project cluster v namespace uid (\<lambda>log. held J project cluster v namespace uid log (fst step))
    (retire_ownership K J project cluster v namespace uid step)
    (\<lambda>actual log. held J project cluster v namespace uid log actual)"
proof -
  obtain existing plan where step: "step = (existing, plan)" by (cases step)
  have call: "apply_log.valid J project cluster v namespace uid (\<lambda>log. held J project cluster v namespace uid log existing)
      (kb_call K (patch_args (jl_text J (mig_patch plan)) namespace) (jl_text J v) 30) (\<lambda>_ _. True)"
    using assms step by (intro valid_change) (auto simp: change_of_def)
  show ?thesis
    unfolding retire_ownership_def Let_def step prod.case fst_conv
    by (intro apply_log.valid_if apply_log.valid_bind [OF call] apply_log.valid_bind [OF valid_read_object]
        apply_log.valid_bind [OF apply_log.valid_of, where Q = "\<lambda>_ log. held J project cluster v namespace uid log x" for x]
        apply_log.valid_of)
      (auto split: if_splits)
qed

lemma valid_migrate:
  "apply_log.valid J project cluster v namespace uid (\<lambda>log. held J project cluster v namespace uid log existing)
    (migrate_create_ownership K J project cluster v existing namespace uid)
    (\<lambda>actual log. held J project cluster v namespace uid log actual)"
  unfolding migrate_create_ownership_def
proof (rule apply_log.valid_bind [where Q = "\<lambda>found log. held J project cluster v namespace uid log existing
    \<and> migration J existing v = Inr found"], goal_cases)
  case 1
  show ?case by (rule apply_log.valid_of) simp
next
  case (2 found)
  show ?case
  proof (cases found)
    case None
    then show ?thesis by (simp, intro apply_log.valid_of) simp
  next
    case (Some plan)
    have retire: "apply_log.valid J project cluster v namespace uid
        (\<lambda>log. held J project cluster v namespace uid log (fst step) \<and> migration J (fst step) v = Inr (Some (snd step)))
        (retire_ownership K J project cluster v namespace uid step)
        (\<lambda>actual log. held J project cluster v namespace uid log actual)" for step
      by (rule apply_log.valid_pre [where b = "migration J (fst step) v = Inr (Some (snd step))"], simp,
          rule apply_log.valid_weaken [OF valid_retire_ownership], simp_all)
    have bridge: "apply_log.valid J project cluster v namespace uid
        (\<lambda>log. held J project cluster v namespace uid log existing \<and> migration J existing v = Inr (Some plan))
        (apply_bridge K J project cluster v existing namespace uid plan)
        (\<lambda>step log. held J project cluster v namespace uid log (fst step) \<and> migration J (fst step) v = Inr (Some (snd step)))"
      by (rule apply_log.valid_pre [where b = "migration J existing v = Inr (Some plan)"], simp,
          rule apply_log.valid_weaken [OF valid_apply_bridge], simp_all)
    show ?thesis
      unfolding Some option.case by (rule apply_log.valid_bind [OF bridge retire])
  qed
qed

lemma nonempty_text_Some [simp]: "nonempty_text v = Some s \<longleftrightarrow> v = JStr s \<and> s \<noteq> []"
  by (auto simp: nonempty_text_def split: json.split)

lemma nonempty_text_JStr [simp]: "nonempty_text (JStr s) = (if s = [] then None else Some s)"
  by (simp add: nonempty_text_def)

lemma valid_check_existing:
  "apply_log.valid J project cluster v namespace uid (\<lambda>log. seen J v namespace log x)
    (kb_of (check_existing x project cluster))
    (\<lambda>_ log. seen J v namespace log x \<and> check_existing x project cluster = Inr ())"
  by (rule apply_log.valid_of) simp

lemma valid_check_replaced:
  "apply_log.valid J project cluster v namespace uid
    (\<lambda>log. seen J v namespace log x \<and> check_existing x project cluster = Inr ())
    (kb_of (check_replaced x uid)) (\<lambda>_ log. held J project cluster v namespace uid log x)"
  by (rule apply_log.valid_of) (simp add: held_def check_replaced_def split: if_splits)

lemma valid_apply_call:
  "apply_log.valid J project cluster v namespace uid
    (\<lambda>log. held J project cluster v namespace uid log existing
      \<and> meta existing ''resourceVersion'' = JStr version \<and> version \<noteq> [] \<and> at_version v uid version = Inr desired)
    (kb_try (kb_call K (apply_args namespace) (jl_text J desired) 30))
    (\<lambda>reply log. is_ok reply \<longrightarrow> applied J v namespace uid log)"
  by (rule apply_log.valid_weaken [OF apply_log.valid_try_call
        [where P = "\<lambda>log. held J project cluster v namespace uid log existing
           \<and> meta existing ''resourceVersion'' = JStr version \<and> version \<noteq> [] \<and> at_version v uid version = Inr desired"]])
    (auto simp: applied_def change_of_def simp del: guarded.simps intro!: guarded_change dest: at_version_declares, (blast dest: at_version_declares)+)

lemma valid_apply_attempts:
  "apply_log.valid J project cluster v namespace uid (\<lambda>log. held J project cluster v namespace uid log existing)
    (apply_attempts K J project cluster v namespace uid n existing)
    (\<lambda>_ log. n = 0 \<or> applied J v namespace uid log)"
proof (induction n arbitrary: existing)
  case 0
  then show ?case by (simp, intro apply_log.valid_of) simp
next
  case (Suc n)
  let ?held = "\<lambda>x log. held J project cluster v namespace uid log x"
  have again: "apply_log.valid J project cluster v namespace uid (?held x)
      (apply_attempts K J project cluster v namespace uid n x) (\<lambda>_ log. Suc n = 0 \<or> applied J v namespace uid log)"
    if "0 < n" for x
    using that by (intro apply_log.valid_weaken [OF Suc.IH]) auto
  have after: "apply_log.valid J project cluster v namespace uid (\<lambda>log. is_ok reply \<longrightarrow> applied J v namespace uid log)
      (case reply of
         Inr _ \<Rightarrow> kb_of (Inr ())
       | Inl error \<Rightarrow>
           if resource_version_conflict error \<and> 0 < n then
             kb_bind (kb_call K (get_args namespace) (jl_text J v) 30) (\<lambda>latest.
             kb_bind (kb_of (read_inventory J latest v namespace)) (\<lambda>found.
             kb_bind (kb_of (ok_or ''ownership conflict: Kubernetes resource disappeared during apply'' found)) (\<lambda>existing.
             kb_bind (kb_of (check_existing existing project cluster)) (\<lambda>_.
             kb_bind (kb_of (check_replaced existing uid)) (\<lambda>_.
               if meta existing ''resourceVersion'' = JStr version then kb_of (Inl error)
               else apply_attempts K J project cluster v namespace uid n existing)))))
           else kb_of (Inl error))
      (\<lambda>_ log. Suc n = 0 \<or> applied J v namespace uid log)" for reply version
  proof (cases reply)
    case (Inr answer)
    then show ?thesis by (simp, intro apply_log.valid_of) simp
  next
    case (Inl error)
    show ?thesis
      unfolding Inl sum.case
      by (intro apply_log.valid_if apply_log.valid_bind [OF valid_get]
          apply_log.valid_bind [OF apply_log.valid_of, where Q = "\<lambda>found log. \<forall>existing. found = Some existing
            \<longrightarrow> seen J v namespace log existing"]
          apply_log.valid_bind [OF apply_log.valid_of, where Q = "\<lambda>actual log. seen J v namespace log actual"]
          apply_log.valid_bind [OF valid_check_existing] apply_log.valid_bind [OF valid_check_replaced]
          apply_log.valid_of again)
        (auto simp: held_def check_replaced_def split: if_splits)
  qed
  show ?case
    unfolding apply_attempts.simps
    by (intro apply_log.valid_bind [OF apply_log.valid_of, where Q = "\<lambda>_. ?held existing"]
        apply_log.valid_bind [OF valid_migrate]
        apply_log.valid_bind [OF apply_log.valid_of, where Q = "\<lambda>version log. ?held x log
          \<and> meta x ''resourceVersion'' = JStr version \<and> version \<noteq> []" for x]
        apply_log.valid_bind [OF apply_log.valid_of, where Q = "\<lambda>desired log. ?held x log
          \<and> meta x ''resourceVersion'' = JStr version \<and> version \<noteq> [] \<and> at_version v uid version = Inr desired" for x version]
        apply_log.valid_bind [OF valid_apply_call] after) auto
qed

lemma valid_wait_established:
  "apply_log.valid J project cluster v namespace uid (\<lambda>log. applied J v namespace uid log) (wait_established K v)
    (\<lambda>_ log. applied J v namespace uid log)"
proof -
  have call: "apply_log.valid J project cluster v namespace uid (\<lambda>log. applied J v namespace uid log)
      (kb_call K (''wait'' # args) [] 70) (\<lambda>_ log. applied J v namespace uid log)" for args
    by (rule apply_log.valid_weaken [OF apply_log.valid_read [where P = "applied J v namespace uid"]]) (auto simp: applied_def)
  show ?thesis
    unfolding wait_established_def
    by (intro apply_log.valid_if apply_log.valid_bind [OF call] apply_log.valid_of
        apply_log.valid_bind [OF apply_log.valid_of, where Q = "\<lambda>_ log. applied J v namespace uid log"])
qed

lemma valid_existing_or_created:
  "apply_log.valid J project cluster v namespace uid (\<lambda>log. log = []) (existing_or_created K J v namespace)
    (\<lambda>existing log. seen J v namespace log existing)"
proof -
  let ?got = "\<lambda>raw log. map ev_args log = [get_args namespace] \<and> map ev_reply log = [Inr raw]"
  have get: "apply_log.valid J project cluster v namespace uid (\<lambda>log. log = [])
      (kb_call K (get_args namespace) (jl_text J v) 30) ?got"
    by (rule apply_log.valid_weaken [OF apply_log.valid_read [where P = "\<lambda>log. log = []"]]) auto
  have create: "apply_log.valid J project cluster v namespace uid
      (\<lambda>log. \<exists>raw. ?got raw log \<and> read_inventory J raw v namespace = Inr None)
      (kb_call K (create_args namespace) (jl_text J v) 30)
      (\<lambda>raw log. \<forall>created. jl_parse J raw = Inr created \<longrightarrow> seen J v namespace log created)"
    by (rule apply_log.valid_weaken [OF apply_log.valid_call
        [where P = "\<lambda>log. \<exists>raw. ?got raw log \<and> read_inventory J raw v namespace = Inr None"]])
      (auto simp: permitted_def seen_def)
  have found: "apply_log.valid J project cluster v namespace uid
      (\<lambda>log. (\<forall>existing. found = Some existing \<longrightarrow> seen J v namespace log existing)
        \<and> (found = None \<longrightarrow> (\<exists>raw. ?got raw log \<and> read_inventory J raw v namespace = Inr None)))
      (case found of
         Some existing \<Rightarrow> kb_of (Inr existing)
       | None \<Rightarrow>
           kb_bind (kb_call K (create_args namespace) (jl_text J v) 30) (\<lambda>raw.
           kb_bind (kb_of (map_err (\<lambda>e. ''invalid created resource: '' @ e) (jl_parse J raw))) (\<lambda>created.
           kb_bind (kb_of (validate_inventory_identity created v namespace)) (\<lambda>_. kb_of (Inr created)))))
      (\<lambda>existing log. seen J v namespace log existing)" for found
  proof (cases found)
    case None
    show ?thesis
      unfolding None option.case
      by (rule apply_log.valid_weaken, rule apply_log.valid_bind [OF create],
          (intro apply_log.valid_bind [OF apply_log.valid_of, where Q = "\<lambda>created log. seen J v namespace log created"]
            apply_log.valid_bind [OF apply_log.valid_of, where Q = "\<lambda>_ log. seen J v namespace log x" for x]
            apply_log.valid_of))
        (auto simp: map_err_def split: sum.splits)
  next
    case (Some existing)
    then show ?thesis by (simp, intro apply_log.valid_of) simp
  qed
  show ?thesis
    unfolding existing_or_created_def
    by (intro apply_log.valid_bind [OF get] apply_log.valid_bind [OF apply_log.valid_of found])
      (auto simp: seen_def)
qed

lemma valid_apply:
  "apply_log.valid J project cluster v namespace uid (\<lambda>log. held J project cluster v namespace uid log existing)
    (kb_bind (apply_attempts K J project cluster v namespace uid 3 existing) (\<lambda>_. wait_established K v))
    (\<lambda>_ log. applied J v namespace uid log)"
  by (rule apply_log.valid_bind [OF apply_log.valid_weaken [OF valid_apply_attempts] valid_wait_established]) auto

text \<open>The first phase fixes the identity; every policy allows it.\<close>

lemma apply_run:
  "\<exists>uid. guarded J project cluster v (apply_namespace config v) uid
      (ks_log (snd (apply_owned_object K J project cluster config v (new_session w))))
    \<and> (fst (apply_owned_object K J project cluster config v (new_session w)) = Inr () \<longrightarrow>
      applied J v (apply_namespace config v) uid
        (ks_log (snd (apply_owned_object K J project cluster config v (new_session w)))))"
proof -
  let ?ns = "apply_namespace config v"
  obtain r s where first: "existing_or_created K J v ?ns (new_session w) = (r, s)" by fastforce
  have start: "guarded J project cluster v ?ns uid (ks_log s)" "r = Inr existing \<Longrightarrow> seen J v ?ns (ks_log s) existing"
    for uid existing
    using apply_log.valid_run [OF valid_existing_or_created [of J project cluster v ?ns uid K], of w] first by auto
  show ?thesis
  proof (cases "\<exists>existing uid. r = Inr existing \<and> check_existing existing project cluster = Inr () \<and> meta existing ''uid'' = JStr uid \<and> uid \<noteq> []")
    case True
    then obtain existing uid where found: "r = Inr existing" "check_existing existing project cluster = Inr ()"
        "nonempty_text (meta existing ''uid'') = Some uid" "meta existing ''uid'' = JStr uid"
      by auto
    have held: "held J project cluster v ?ns uid (ks_log s) existing"
      using start(2) [OF found(1)] found by (simp add: held_def)
    have run: "apply_owned_object K J project cluster config v (new_session w) =
        kb_bind (apply_attempts K J project cluster v ?ns uid 3 existing) (\<lambda>_. wait_established K v) s"
      using first found(1-3) by (simp add: apply_owned_object_def kb_of_def kb_bind_def Let_def)
    show ?thesis
      unfolding run using valid_apply [unfolded apply_log.valid_def] start(1) held by (intro exI [of _ uid]) blast
  next
    case False
    have "snd (apply_owned_object K J project cluster config v (new_session w)) = s
      \<and> fst (apply_owned_object K J project cluster config v (new_session w)) \<noteq> Inr ()"
    proof (cases r)
      case (Inr existing)
      then show ?thesis
        using first False
        by (cases "check_existing existing project cluster"; cases "nonempty_text (meta existing ''uid'')")
          (auto simp: apply_owned_object_def kb_bind_def kb_of_def ok_or_def Let_def)
    qed (simp add: apply_owned_object_def kb_bind_def first Let_def)
    then show ?thesis using start(1) by simp
  qed
qed

section \<open>A cluster to apply to\<close>

definition sample_settings :: json where
  "sample_settings =
     JObj [(''apiVersion'', JStr ''v1''), (''kind'', JStr ''ConfigMap''),
       (''metadata'', JObj
         [(''labels'', JObj [(CLUSTER, JStr ''main''), (MANAGED, JStr ''vzctl''), (PROJECT, JStr ''demo'')]),
          (''name'', JStr ''settings''), (''namespace'', JStr ''apps'')])]"

definition stored_settings :: "string \<Rightarrow> json" where
  "stored_settings project =
     JObj [(''apiVersion'', JStr ''v1''), (''kind'', JStr ''ConfigMap''),
       (''metadata'', JObj
         [(''labels'', JObj [(CLUSTER, JStr ''main''), (MANAGED, JStr ''vzctl''), (PROJECT, JStr project)]),
          (''name'', JStr ''settings''), (''namespace'', JStr ''apps''), (''resourceVersion'', JStr ''7''),
          (''uid'', JStr ''u1'')])]"

definition stored_json :: "string \<Rightarrow> json_lib" where
  "stored_json project = \<lparr>jl_parse = (\<lambda>_. Inr (stored_settings project)), jl_text = (\<lambda>_. ''{}'')\<rparr>"

definition sample_cluster_config :: cluster_config where
  "sample_cluster_config =
     \<lparr>cl_version = ''v1.30.0+k3s1'', cl_sha256 = [], cl_server = ''web'', cl_agents = [], cl_network = ''lan'', cl_pod_cidr = [],
      cl_service_cidr = [], cl_manifests = [], cl_default_namespace = ''apps''\<rparr>"

definition answering :: "unit kubectl" where
  "answering args input seconds w = (Inr ''{}'', w)"

section \<open>Properties\<close>

text \<open>C20: whatever the cluster answers, an object is only changed while it is known to be ours. The operation has one
  identity for all its changes; each of them is the creation of an object the preceding read did not find, or
  is made on the grounds of an object that a call has returned, that carries the ownership labels of
  the cluster and has that identity: it applies the declared object, bound to this identity and the version read, or it is
  the bridge or the patch of the migration of that object. Nothing is forced.\<close>

theorem apply_changes_only_own_objects:
  "\<exists>uid. guarded J project cluster v (apply_namespace config v) uid
    (ks_log (snd (apply_owned_object K J project cluster config v (new_session w))))"
  using apply_run [of J project cluster v config K w] by blast

text \<open>When the operation succeeds, the declared object has been applied, with an identity and a version, and
  the cluster has accepted it.\<close>

lemma successful_apply_was_accepted:
  assumes "fst (apply_owned_object K J project cluster config v (new_session w)) = Inr ()"
  shows "\<exists>uid. applied J v (apply_namespace config v) uid
    (ks_log (snd (apply_owned_object K J project cluster config v (new_session w))))"
  using apply_run [of J project cluster v config K w] assms by blast

text \<open>An object of somebody else is left alone: when the first read finds an object without our ownership
  labels, the operation fails with that conflict after this one call.\<close>

lemma foreign_object_is_left_alone:
  assumes "fst (K (get_args (apply_namespace config v)) (jl_text J v) 30 w) = Inr raw"
    and "read_inventory J raw v (apply_namespace config v) = Inr (Some existing)"
    and "check_existing existing project cluster = Inl conflict"
  shows "fst (apply_owned_object K J project cluster config v (new_session w)) = Inl conflict
    \<and> map ev_args (ks_log (snd (apply_owned_object K J project cluster config v (new_session w))))
        = [get_args (apply_namespace config v)]"
  using assms
  by (simp add: apply_owned_object_def existing_or_created_def kb_bind_def kb_of_def kb_call_def new_session_def split_beta Let_def)

lemma sample_inventory:
  "read_inventory (stored_json project) ''{}'' sample_settings ''apps'' = Inr (Some (stored_settings project))"
  by (simp add: read_inventory_def stored_json_def stored_settings_def sample_settings_def validate_inventory_identity_def
      meta_def json_find_def exec_simps)

lemma sample_namespace: "apply_namespace sample_cluster_config sample_settings = ''apps''"
  by (simp add: apply_namespace_def sample_settings_def meta_def exec_simps)

lemma successful_apply_was_accepted_witness:
  "\<exists>uid. applied (stored_json ''demo'') sample_settings ''apps'' uid
    (ks_log (snd (apply_owned_object answering (stored_json ''demo'') ''demo'' ''main'' sample_cluster_config sample_settings
      (new_session ()))))"
proof -
  have owned: "check_existing (stored_settings ''demo'') ''demo'' ''main'' = Inr ()"
    by (simp add: stored_settings_def exec_simps)
  have "fst (apply_owned_object answering (stored_json ''demo'') ''demo'' ''main'' sample_cluster_config sample_settings
      (new_session ())) = Inr ()"
  proof -
    have call: "kb_bind (kb_call answering args input seconds) k s = k ''{}'' \<lparr>ks_world = ks_world s,
        ks_log = \<lparr>ev_args = args, ev_input = input, ev_reply = Inr ''{}''\<rparr> # ks_log s\<rparr>"
      "kb_bind (kb_try (kb_call answering args input seconds)) q s = q (Inr ''{}'') \<lparr>ks_world = ks_world s,
        ks_log = \<lparr>ev_args = args, ev_input = input, ev_reply = Inr ''{}''\<rparr> # ks_log s\<rparr>"
      for args input seconds and k :: "string \<Rightarrow> (unit, 'b) kube" and q :: "(string, string) result \<Rightarrow> (unit, 'b) kube" and s
      by (simp_all add: kb_bind_def kb_call_def answering_def kb_try_def)
    have stored: "meta (stored_settings ''demo'') ''uid'' = JStr ''u1''"
        "meta (stored_settings ''demo'') ''resourceVersion'' = JStr ''7''"
        "migration (stored_json ''demo'') (stored_settings ''demo'') sample_settings = Inr None"
        "json_get sample_settings ''kind'' \<noteq> JStr ''CustomResourceDefinition''"
      by (simp_all add: stored_settings_def meta_def migration_def json_find_def sample_settings_def exec_simps)
    obtain desired where desired: "at_version sample_settings ''u1'' ''7'' = Inr desired"
      by (simp add: at_version_def sample_settings_def exec_simps)
    show ?thesis
      using owned sample_inventory [of "''demo''"] stored desired
      by (simp add: apply_owned_object_def existing_or_created_def Let_def sample_namespace numeral_3_eq_3 check_replaced_def
          migrate_create_ownership_def wait_established_def kb_bind_assoc call) (simp add: kb_of_def)
  qed
  then show ?thesis using successful_apply_was_accepted [of answering] by (fastforce simp: sample_namespace)
qed

lemma foreign_object_is_left_alone_witness:
  "\<exists>conflict. fst (apply_owned_object answering (stored_json ''other'') ''demo'' ''main'' sample_cluster_config sample_settings
    (new_session ())) = Inl conflict"
proof -
  have "check_existing (stored_settings ''other'') ''demo'' ''main'' =
      Inl ''ownership conflict: ConfigMap settings already exists outside this cluster controller''"
    by (simp add: stored_settings_def exec_simps)
  then show ?thesis
    using foreign_object_is_left_alone [of answering sample_cluster_config sample_settings "stored_json ''other''" "()" "''{}''"
        "stored_settings ''other''" "''demo''" "''main''"] sample_inventory
    by (auto simp: sample_namespace answering_def)
qed

end
