(* ===== verification/KubeResolver.thy ===== *)
theory KubeResolver
  imports KubeApply
begin

text \<open>
  The resolver of the nodes (\<open>kubernetes/resolver.rs\<close>): the address the kubelets ask, the file that names it,
  and \<open>rollout\<close>, which marks the CoreDNS deployment K3s has installed so that it starts again with the new
  resolver. The deployment is not ours: it is touched only while the K3s addon that owns it is what it should be,
  by one patch that is bound to the identity and the version that were read.

  SHA-256 is the parameter \<open>sha\<close>, which yields hexadecimal digits.
\<close>

section \<open>The resolver of a cluster\<close>

definition is_link_local :: "ipv4 \<Rightarrow> bool" where
  "is_link_local ip \<longleftrightarrow> octet 0 ip = 169 \<and> octet 1 ip = 254"

definition is_multicast :: "ipv4 \<Rightarrow> bool" where
  "is_multicast ip \<longleftrightarrow> 224 \<le> octet 0 ip \<and> octet 0 ip \<le> 239"

definition not_unicast :: "ipv4 \<Rightarrow> bool" where
  "not_unicast dns \<longleftrightarrow>
     is_loopback dns \<or> is_link_local dns \<or> is_multicast dns \<or> octet 0 dns = 0 \<or> 240 \<le> octet 0 dns"

fun resolver_nodes :: "'n ipnet_lib \<Rightarrow> environment \<Rightarrow> cluster_config \<Rightarrow> 'n \<Rightarrow> string list \<Rightarrow> (unit, string) result" where
  "resolver_nodes L env cluster cidr [] = Inr ()"
| "resolver_nodes L env cluster cidr (vm # vms) =
     and_then (node_ip env cluster vm) (\<lambda>text.
     and_then (ok_or ''K3s resolver node address invalid'' (parse_ipv4 text)) (\<lambda>ip.
       if \<not> net_contains L cidr ip \<or> ip = net_network L cidr \<or> ip = net_broadcast L cidr then
         Inl ''K3s resolver node address outside selected network''
       else resolver_nodes L env cluster cidr vms))"

definition resolver_upstream ::
    "'n ipnet_lib \<Rightarrow> environment \<Rightarrow> cluster_config \<Rightarrow> (string option, string) result" where
  "resolver_upstream L env cluster =
     (if \<not> dns_enabled (sp_dns (env_spec env)) then Inr None
      else
        and_then (ok_or ''K3s resolver network missing'' (bm_get (env_networks env) (cl_network cluster))) (\<lambda>network.
        and_then (map_err (\<lambda>_. ''K3s resolver CIDR invalid'') (net_parse L (net_cidr network))) (\<lambda>cidr.
          if net_backend network \<noteq> Vmnet \<or> not_unicast (net_network L cidr) then
            Inl ''K3s resolver requires a unicast vmnet network''
          else
            and_then (resolver_nodes L env cluster cidr (cl_server cluster # cl_agents cluster)) (\<lambda>_.
              Inr (Some (show_ipv4 (net_network L cidr)))))))"

section \<open>The file and the marker\<close>

definition ANNOTATION :: string where "ANNOTATION = ''vzctl.dev/k3s-resolver''"

definition resolver_header :: "(string \<Rightarrow> string) \<Rightarrow> string \<Rightarrow> string \<Rightarrow> string" where
  "resolver_header sha project cluster = ''# vzctl K3s resolver v1 '' @ sha (project @ ''/'' @ cluster)"

definition resolver_contents :: "(string \<Rightarrow> string) \<Rightarrow> string \<Rightarrow> string \<Rightarrow> string \<Rightarrow> string" where
  "resolver_contents sha project cluster upstream =
     resolver_header sha project cluster @ [CHR 10] @ ''nameserver '' @ upstream @ [CHR 10]"

definition marker_prefix :: "(string \<Rightarrow> string) \<Rightarrow> string \<Rightarrow> string \<Rightarrow> string" where
  "marker_prefix sha project cluster = ''v1:'' @ sha (project @ ''/'' @ cluster) @ '':''"

definition resolver_marker :: "(string \<Rightarrow> string) \<Rightarrow> string \<Rightarrow> string \<Rightarrow> string option \<Rightarrow> string" where
  "resolver_marker sha project cluster upstream =
     ''v1:'' @ sha (project @ ''/'' @ cluster) @ '':''
       @ sha (case upstream of Some u \<Rightarrow> u | None \<Rightarrow> ''disabled'')"

text \<open>A marker that is there must be one of this cluster.\<close>

definition check_marker :: "(string \<Rightarrow> string) \<Rightarrow> string \<Rightarrow> string \<Rightarrow> json \<Rightarrow> (unit, string) result" where
  "check_marker sha project cluster old =
     and_then (ok_or ''K3s CoreDNS resolver marker invalid'' (json_as_str old)) (\<lambda>old.
       let prefix_text = marker_prefix sha project cluster
       in if \<not> starts_with old prefix_text \<or> length old \<noteq> length prefix_text + 64
             \<or> \<not> list_all is_hex_digit (drop (length prefix_text) old) then
            Inl ''K3s CoreDNS resolver marker ownership conflict''
          else Inr ())"

section \<open>The addon and its deployment\<close>

definition template_of :: "json \<Rightarrow> json" where
  "template_of deployment = json_get (json_get deployment ''spec'') ''template''"

definition template_annotations :: "json \<Rightarrow> json" where
  "template_annotations deployment = json_get (json_get (template_of deployment) ''metadata'') ''annotations''"

definition coredns_addon :: "json \<Rightarrow> bool" where
  "coredns_addon addon \<longleftrightarrow>
     json_get addon ''apiVersion'' = JStr ''k3s.cattle.io/v1'' \<and> json_get addon ''kind'' = JStr ''Addon''
     \<and> meta addon ''name'' = JStr ''coredns'' \<and> meta addon ''namespace'' = JStr ''kube-system''
     \<and> json_get (json_get addon ''spec'') ''source'' = JStr ''/var/lib/rancher/k3s/server/manifests/coredns.yaml''"

definition coredns_deployment :: "json \<Rightarrow> bool" where
  "coredns_deployment deployment \<longleftrightarrow>
     (let annotations = meta deployment ''annotations''; labels = meta deployment ''labels'';
          spec = json_get (template_of deployment) ''spec''
      in json_get deployment ''apiVersion'' = JStr ''apps/v1'' \<and> json_get deployment ''kind'' = JStr ''Deployment''
         \<and> meta deployment ''name'' = JStr ''coredns'' \<and> meta deployment ''namespace'' = JStr ''kube-system''
         \<and> json_get annotations ''objectset.rio.cattle.io/owner-gvk'' = JStr ''k3s.cattle.io/v1, Kind=Addon''
         \<and> json_get annotations ''objectset.rio.cattle.io/owner-name'' = JStr ''coredns''
         \<and> json_get annotations ''objectset.rio.cattle.io/owner-namespace'' = JStr ''kube-system''
         \<and> json_get labels ''k8s-app'' = JStr ''kube-dns'' \<and> json_get labels ''kubernetes.io/name'' = JStr ''CoreDNS''
         \<and> json_get spec ''dnsPolicy'' = JStr ''Default'' \<and> json_get spec ''serviceAccountName'' = JStr ''coredns''
         \<and> (case json_get spec ''containers'' of
               JArr [container] \<Rightarrow> json_get container ''name'' = JStr ''coredns'' | _ \<Rightarrow> False)
         \<and> json_find (json_get deployment ''metadata'') ''ownerReferences'' \<in> {None, Some (JArr [])})"

definition identity :: "json \<Rightarrow> json \<Rightarrow> (unit, string) result" where
  "identity addon deployment =
     (if \<not> coredns_addon addon \<or> \<not> coredns_deployment deployment then
        Inl ''K3s CoreDNS Addon ownership conflict''
      else if \<not> list_all (\<lambda>object. list_all (\<lambda>key. nonempty_text (meta object key) \<noteq> None)
                  [''uid'', ''resourceVersion'']) [addon, deployment] then
        Inl ''K3s CoreDNS identity missing''
      else Inr ())"

definition parse_inventory :: "json_lib \<Rightarrow> string \<Rightarrow> (json, string) result" where
  "parse_inventory J raw = map_err (\<lambda>_. ''K3s CoreDNS inventory invalid'') (jl_parse J raw)"

section \<open>The rollout\<close>

definition deployment_args :: "string list" where
  "deployment_args = [''get'', ''deployment'', ''coredns'', ''-n'', ''kube-system'', ''-o'', ''json'', ''--ignore-not-found'']"

definition addon_args :: "string list" where
  "addon_args = [''get'', ''addons.k3s.cattle.io'', ''coredns'', ''-n'', ''kube-system'', ''-o'', ''json'']"

definition created_args :: "string list" where
  "created_args = [''wait'', ''--for=create'', ''deployment/coredns'', ''-n'', ''kube-system'', ''--timeout=60s'']"

definition mark_args :: "string list" where
  "mark_args = [''patch'', ''deployment'', ''coredns'', ''-n'', ''kube-system'', ''--type=json'', ''--patch-file=/dev/stdin'']"

definition status_args :: "string list" where
  "status_args = [''rollout'', ''status'', ''deployment/coredns'', ''-n'', ''kube-system'', ''--timeout=120s'']"

definition marked_annotations :: "json \<Rightarrow> string \<Rightarrow> json" where
  "marked_annotations deployment wanted =
     JObj (bm_insert ANNOTATION (JStr wanted)
       (case template_annotations deployment of JObj members \<Rightarrow> members | _ \<Rightarrow> []))"

definition mark_patch :: "json \<Rightarrow> string \<Rightarrow> json list" where
  "mark_patch deployment wanted =
     [test_op ''/metadata/uid'' (meta deployment ''uid''),
      test_op ''/metadata/resourceVersion'' (meta deployment ''resourceVersion''),
      json_obj [(''op'', JStr ''add''), (''path'', JStr ''/spec/template/metadata/annotations''),
        (''value'', marked_annotations deployment wanted)]]"

text \<open>The deployment, waiting for it when there has to be one.\<close>

definition read_deployment :: "'w kubectl \<Rightarrow> bool \<Rightarrow> ('w, string option) kube" where
  "read_deployment K wanted =
     kb_bind (kb_call K deployment_args [] 30) (\<lambda>raw.
       if trim raw = [] then
         if \<not> wanted then kb_of (Inr None)
         else
           kb_bind (kb_call K created_args [] 70) (\<lambda>_.
           kb_bind (kb_call K deployment_args [] 30) (\<lambda>raw. kb_of (Inr (Some raw))))
       else kb_of (Inr (Some raw)))"

definition read_addon :: "'w kubectl \<Rightarrow> json_lib \<Rightarrow> ('w, json) kube" where
  "read_addon K J = kb_bind (kb_call K addon_args [] 30) (\<lambda>raw. kb_of (parse_inventory J raw))"

definition mark_deployment :: "'w kubectl \<Rightarrow> json_lib \<Rightarrow> json \<Rightarrow> json \<Rightarrow> string \<Rightarrow> ('w, unit) kube" where
  "mark_deployment K J addon deployment wanted =
     kb_bind (read_addon K J) (\<lambda>fresh.
       if meta fresh ''uid'' \<noteq> meta addon ''uid'' \<or> meta fresh ''resourceVersion'' \<noteq> meta addon ''resourceVersion'' then
         kb_of (Inl ''K3s CoreDNS Addon changed before rollout'')
       else
         kb_bind (kb_of (identity fresh deployment)) (\<lambda>_.
         kb_bind (kb_call K mark_args (jl_text J (JArr (mark_patch deployment wanted))) 30) (\<lambda>_. kb_of (Inr ()))))"

definition confirm_rollout :: "'w kubectl \<Rightarrow> json_lib \<Rightarrow> json \<Rightarrow> json \<Rightarrow> string \<Rightarrow> ('w, unit) kube" where
  "confirm_rollout K J addon deployment wanted =
     kb_bind (kb_call K status_args [] 130) (\<lambda>_.
     kb_bind (kb_call K deployment_args [] 30) (\<lambda>raw.
     kb_bind (kb_of (parse_inventory J raw)) (\<lambda>after.
     kb_bind (read_addon K J) (\<lambda>after_addon.
     kb_bind (kb_of (identity after_addon after)) (\<lambda>_.
       if meta after_addon ''uid'' \<noteq> meta addon ''uid'' \<or> meta after ''uid'' \<noteq> meta deployment ''uid''
          \<or> json_get (template_annotations after) ANNOTATION \<noteq> JStr wanted then
         kb_of (Inl ''K3s CoreDNS identity changed during rollout'')
       else kb_of (Inr ()))))))"

definition roll_deployment ::
    "'w kubectl \<Rightarrow> json_lib \<Rightarrow> json \<Rightarrow> json option \<Rightarrow> string \<Rightarrow> ('w, unit) kube" where
  "roll_deployment K J deployment old wanted =
     kb_bind (read_addon K J) (\<lambda>addon.
     kb_bind (kb_of (identity addon deployment)) (\<lambda>_.
     kb_bind (if old \<noteq> Some (JStr wanted) then mark_deployment K J addon deployment wanted else kb_of (Inr ())) (\<lambda>_.
       confirm_rollout K J addon deployment wanted)))"

definition rollout ::
    "'w kubectl \<Rightarrow> json_lib \<Rightarrow> (string \<Rightarrow> string) \<Rightarrow> string \<Rightarrow> string \<Rightarrow> string option \<Rightarrow> ('w, unit) kube" where
  "rollout K J sha project cluster upstream =
     kb_bind (read_deployment K (upstream \<noteq> None)) (\<lambda>found.
       case found of
         None \<Rightarrow> kb_of (Inr ())
       | Some raw \<Rightarrow>
           kb_bind (kb_of (parse_inventory J raw)) (\<lambda>deployment.
             let old = json_find (template_annotations deployment) ANNOTATION
             in if upstream = None \<and> old = None then kb_of (Inr ())
                else
                  kb_bind (kb_of (case old of None \<Rightarrow> Inr () | Some old \<Rightarrow> check_marker sha project cluster old)) (\<lambda>_.
                    roll_deployment K J deployment old (resolver_marker sha project cluster upstream))))"

section \<open>The policy\<close>

abbreviation got :: "string list \<Rightarrow> string \<Rightarrow> event" where
  "got args raw \<equiv> \<lparr>ev_args = args, ev_input = [], ev_reply = Inr raw\<rparr>"

text \<open>An object that was read.\<close>

definition read_as :: "json_lib \<Rightarrow> string list \<Rightarrow> event list \<Rightarrow> json \<Rightarrow> bool" where
  "read_as J args log v \<longleftrightarrow> (\<exists>raw. got args raw \<in> set log \<and> parse_inventory J raw = Inr v)"

text \<open>The marker of the deployment is missing or of this cluster.\<close>

definition own_marker :: "(string \<Rightarrow> string) \<Rightarrow> string \<Rightarrow> string \<Rightarrow> json \<Rightarrow> bool" where
  "own_marker sha project cluster deployment \<longleftrightarrow>
     (case json_find (template_annotations deployment) ANNOTATION of
        None \<Rightarrow> True | Some old \<Rightarrow> check_marker sha project cluster old = Inr ())"

definition marks ::
    "json_lib \<Rightarrow> (string \<Rightarrow> string) \<Rightarrow> string \<Rightarrow> string \<Rightarrow> string option \<Rightarrow> event list \<Rightarrow> event \<Rightarrow> bool" where
  "marks J sha project cluster upstream log e \<longleftrightarrow>
     ev_args e = mark_args
     \<and> (\<exists>addon deployment. read_as J addon_args log addon \<and> read_as J deployment_args log deployment
          \<and> identity addon deployment = Inr () \<and> own_marker sha project cluster deployment
          \<and> ev_input e = jl_text J (JArr (mark_patch deployment (resolver_marker sha project cluster upstream))))"

text \<open>All calls read, but for at most one patch, of a deployment that was read, under the addon that owns it.\<close>

fun fenced ::
    "json_lib \<Rightarrow> (string \<Rightarrow> string) \<Rightarrow> string \<Rightarrow> string \<Rightarrow> string option \<Rightarrow> event list \<Rightarrow> bool" where
  "fenced J sha project cluster upstream [] \<longleftrightarrow> True"
| "fenced J sha project cluster upstream (e # log) \<longleftrightarrow>
     fenced J sha project cluster upstream log
     \<and> (reading e \<or> list_all reading log \<and> marks J sha project cluster upstream log e)"

interpretation rollout_log: call_policy "fenced J sha project cluster upstream" reading
  for J sha project cluster upstream
  by unfold_locales simp

text \<open>What the newest two calls show when the rollout has been confirmed.\<close>

definition confirmed ::
    "json_lib \<Rightarrow> (string \<Rightarrow> string) \<Rightarrow> string \<Rightarrow> string \<Rightarrow> string option \<Rightarrow> event list \<Rightarrow> bool" where
  "confirmed J sha project cluster upstream log \<longleftrightarrow>
     (\<exists>raw raw' before addon after. log = got addon_args raw' # got deployment_args raw # before
        \<and> parse_inventory J raw = Inr after \<and> parse_inventory J raw' = Inr addon \<and> identity addon after = Inr ()
        \<and> json_get (template_annotations after) ANNOTATION = JStr (resolver_marker sha project cluster upstream))"

text \<open>What the only call shows when there is nothing to do.\<close>

definition unmarked :: "json_lib \<Rightarrow> event list \<Rightarrow> bool" where
  "unmarked J log \<longleftrightarrow>
     (\<exists>raw. log = [got deployment_args raw]
        \<and> (trim raw = []
           \<or> (\<exists>deployment. parse_inventory J raw = Inr deployment
                \<and> json_find (template_annotations deployment) ANNOTATION = None)))"

section \<open>The rollout follows the policy\<close>

lemma resolver_args [simp]:
  "deployment_args \<noteq> []" "hd deployment_args = ''get''" "addon_args \<noteq> []" "hd addon_args = ''get''"
  "created_args \<noteq> []" "hd created_args = ''wait''" "status_args \<noteq> []" "hd status_args = ''rollout''"
  by (simp_all add: deployment_args_def addon_args_def created_args_def status_args_def)

lemma reading_got [simp]: "reading (got deployment_args raw)" "reading (got addon_args raw)" "reading (got created_args raw)"
  by (simp_all add: reading_def)

definition inspected :: "json_lib \<Rightarrow> json \<Rightarrow> event list \<Rightarrow> bool" where
  "inspected J deployment log \<longleftrightarrow> list_all reading log \<and> read_as J deployment_args log deployment"

lemma read_as_Cons: "read_as J args log v \<Longrightarrow> read_as J args (e # log) v"
  by (auto simp: read_as_def)

lemma read_as_got: "parse_inventory J raw = Inr v \<Longrightarrow> read_as J args (got args raw # log) v"
  by (auto simp: read_as_def)

lemma valid_read_addon:
  "rollout_log.valid J sha project cluster upstream P (read_addon K J)
    (\<lambda>addon log. \<exists>raw before. log = got addon_args raw # before \<and> P before \<and> parse_inventory J raw = Inr addon)"
  unfolding read_addon_def
  by (rule rollout_log.valid_bind [OF rollout_log.valid_read]) (auto intro!: rollout_log.valid_of)

lemma valid_mark:
  assumes "own_marker sha project cluster deployment"
  shows "rollout_log.valid J sha project cluster upstream (inspected J deployment)
    (mark_deployment K J addon deployment (resolver_marker sha project cluster upstream)) (\<lambda>_ _. True)"
proof -
  let ?patch = "jl_text J (JArr (mark_patch deployment (resolver_marker sha project cluster upstream)))"
  have call: "rollout_log.valid J sha project cluster upstream
      (\<lambda>log. inspected J deployment log \<and> read_as J addon_args log fresh \<and> identity fresh deployment = Inr ())
      (kb_call K mark_args ?patch 30) (\<lambda>_ _. True)" for fresh
    by (rule rollout_log.valid_weaken [OF rollout_log.valid_call
          [where P = "\<lambda>log. inspected J deployment log \<and> read_as J addon_args log fresh \<and> identity fresh deployment = Inr ()"]])
      (use assms in \<open>auto simp: inspected_def marks_def\<close>)
  have addon: "rollout_log.valid J sha project cluster upstream (inspected J deployment) (read_addon K J)
      (\<lambda>fresh log. inspected J deployment log \<and> read_as J addon_args log fresh)"
    by (rule rollout_log.valid_weaken [OF valid_read_addon [where P = "inspected J deployment"]])
      (auto simp: inspected_def intro: read_as_Cons read_as_got)
  show ?thesis
    unfolding mark_deployment_def
    by (intro rollout_log.valid_bind [OF addon] rollout_log.valid_if rollout_log.valid_bind [OF rollout_log.valid_of,
          where Q = "\<lambda>_ log. inspected J deployment log \<and> read_as J addon_args log x \<and> identity x deployment = Inr ()" for x]
        rollout_log.valid_bind [OF call] rollout_log.valid_of) auto
qed

lemma valid_confirm:
  "rollout_log.valid J sha project cluster upstream (\<lambda>_. True)
    (confirm_rollout K J addon deployment (resolver_marker sha project cluster upstream))
    (\<lambda>_ log. confirmed J sha project cluster upstream log)"
proof -
  have get: "rollout_log.valid J sha project cluster upstream (\<lambda>_. True) (kb_call K deployment_args [] 30)
      (\<lambda>raw log. \<exists>before. log = got deployment_args raw # before)"
    by (rule rollout_log.valid_weaken [OF rollout_log.valid_read [where P = "\<lambda>_. True"]]) auto
  have status: "rollout_log.valid J sha project cluster upstream (\<lambda>_. True) (kb_call K status_args [] 130) (\<lambda>_ _. True)"
    by (rule rollout_log.valid_weaken [OF rollout_log.valid_read [where P = "\<lambda>_. True"]]) auto
  let ?both = "\<lambda>after addon log. \<exists>raw raw' before. log = got addon_args raw' # got deployment_args raw # before
    \<and> parse_inventory J raw = Inr after \<and> parse_inventory J raw' = Inr addon"
  have addon: "rollout_log.valid J sha project cluster upstream
      (\<lambda>log. \<exists>raw before. log = got deployment_args raw # before \<and> parse_inventory J raw = Inr after)
      (read_addon K J) (\<lambda>addon log. ?both after addon log)" for after
    by (rule rollout_log.valid_weaken [OF valid_read_addon
          [where P = "\<lambda>log. \<exists>raw before. log = got deployment_args raw # before \<and> parse_inventory J raw = Inr after"]]) auto
  have judge: "rollout_log.valid J sha project cluster upstream (\<lambda>log. ?both after found log)
      (kb_bind (kb_of (identity found after)) (\<lambda>_.
        if meta found ''uid'' \<noteq> meta addon ''uid'' \<or> meta after ''uid'' \<noteq> meta deployment ''uid''
          \<or> json_get (template_annotations after) ANNOTATION \<noteq> JStr (resolver_marker sha project cluster upstream) then
         kb_of (Inl ''K3s CoreDNS identity changed during rollout'')
       else kb_of (Inr ())))
      (\<lambda>_ log. confirmed J sha project cluster upstream log)" for after found
    by (rule rollout_log.valid_bind [OF rollout_log.valid_of
          [where Q = "\<lambda>_ log. ?both after found log \<and> identity found after = Inr ()"]], simp)
      (intro rollout_log.valid_if rollout_log.valid_of, auto simp: confirmed_def)
  show ?thesis
    unfolding confirm_rollout_def
    by (intro rollout_log.valid_bind [OF status] rollout_log.valid_bind [OF get]
        rollout_log.valid_bind [OF rollout_log.valid_of rollout_log.valid_bind [OF addon judge]]) auto
qed

lemma valid_roll:
  assumes "own_marker sha project cluster deployment"
  shows "rollout_log.valid J sha project cluster upstream (inspected J deployment)
    (roll_deployment K J deployment old (resolver_marker sha project cluster upstream))
    (\<lambda>_ log. confirmed J sha project cluster upstream log)"
proof -
  have addon: "rollout_log.valid J sha project cluster upstream (inspected J deployment) (read_addon K J)
      (\<lambda>_ log. inspected J deployment log)"
    by (rule rollout_log.valid_weaken [OF valid_read_addon [where P = "inspected J deployment"]]) (auto simp: inspected_def intro: read_as_Cons)
  show ?thesis
    unfolding roll_deployment_def
    by (intro rollout_log.valid_bind [OF addon] rollout_log.valid_bind [OF _ valid_confirm] rollout_log.valid_if
        rollout_log.valid_bind [OF rollout_log.valid_of, where Q = "\<lambda>_ log. inspected J deployment log"]
        valid_mark [OF assms] rollout_log.valid_of) auto
qed

lemma valid_read_deployment:
  "rollout_log.valid J sha project cluster upstream (\<lambda>log. log = []) (read_deployment K wanted)
    (\<lambda>found log. case found of
       None \<Rightarrow> \<not> wanted \<and> unmarked J log
     | Some raw \<Rightarrow> \<exists>before. log = got deployment_args raw # before \<and> list_all reading before \<and> (wanted \<or> before = []))"
proof -
  have get: "rollout_log.valid J sha project cluster upstream P (kb_call K deployment_args [] 30)
      (\<lambda>raw log. \<exists>before. P before \<and> log = got deployment_args raw # before)" for P
    by (rule rollout_log.valid_read) simp_all
  have wait: "rollout_log.valid J sha project cluster upstream (list_all reading)
      (kb_call K created_args [] 70) (\<lambda>_ log. list_all reading log)"
    by (rule rollout_log.valid_weaken [OF rollout_log.valid_read [where P = "list_all reading"]]) auto
  have again: "rollout_log.valid J sha project cluster upstream (list_all reading)
      (kb_bind (kb_call K created_args [] 70) (\<lambda>_.
        kb_bind (kb_call K deployment_args [] 30) (\<lambda>raw. kb_of (Inr (Some raw)))))
      (\<lambda>found log. \<exists>raw before. found = Some raw \<and> log = got deployment_args raw # before \<and> list_all reading before)"
    by (intro rollout_log.valid_bind [OF wait] rollout_log.valid_bind [OF get] rollout_log.valid_of) auto
  show ?thesis
    unfolding read_deployment_def
    by (intro rollout_log.valid_bind [OF get] rollout_log.valid_if rollout_log.valid_of
        rollout_log.valid_weaken [OF again])
      (auto simp: unmarked_def)
qed

lemma valid_rollout:
  "rollout_log.valid J sha project cluster upstream (\<lambda>log. log = []) (rollout K J sha project cluster upstream)
    (\<lambda>_ log. confirmed J sha project cluster upstream log \<or> upstream = None \<and> unmarked J log)"
  unfolding rollout_def
proof (rule rollout_log.valid_bind [OF valid_read_deployment], goal_cases)
  case (1 found)
  show ?case
  proof (cases found)
    case None
    then show ?thesis by (simp, intro rollout_log.valid_of) simp
  next
    case (Some raw)
    let ?read = "\<lambda>log. \<exists>before. log = got deployment_args raw # before \<and> list_all reading before
      \<and> (upstream \<noteq> None \<or> before = [])"
    have roll: "rollout_log.valid J sha project cluster upstream
        (\<lambda>log. ?read log \<and> parse_inventory J raw = Inr deployment)
        (let old = json_find (template_annotations deployment) ANNOTATION
             in if upstream = None \<and> old = None then kb_of (Inr ())
                else
                  kb_bind (kb_of (case old of None \<Rightarrow> Inr () | Some old \<Rightarrow> check_marker sha project cluster old)) (\<lambda>_.
                    roll_deployment K J deployment old (resolver_marker sha project cluster upstream)))
        (\<lambda>_ log. confirmed J sha project cluster upstream log \<or> upstream = None \<and> unmarked J log)" for deployment
    proof (cases "own_marker sha project cluster deployment")
      case True
      have roll: "rollout_log.valid J sha project cluster upstream (inspected J deployment)
          (roll_deployment K J deployment old (resolver_marker sha project cluster upstream))
          (\<lambda>_ log. confirmed J sha project cluster upstream log \<or> upstream = None \<and> unmarked J log)" for old
        by (rule rollout_log.valid_weaken [OF valid_roll [OF True]]) simp_all
      show ?thesis
        unfolding Let_def
        by (intro rollout_log.valid_if rollout_log.valid_bind [OF rollout_log.valid_of roll] rollout_log.valid_of)
          (auto simp: unmarked_def inspected_def read_as_got)
    next
      case False
      then obtain e old where old: "json_find (template_annotations deployment) ANNOTATION = Some old"
          "check_marker sha project cluster old = Inl e"
        by (auto simp: own_marker_def is_ok_iff split: option.splits) (metis old.unit.exhaust sum.exhaust)
      show ?thesis by (simp add: old Let_def) (rule rollout_log.valid_of, simp)
    qed
    show ?thesis
      unfolding Some option.case
      by (rule rollout_log.valid_bind [OF rollout_log.valid_of roll]) auto
  qed
qed

section \<open>What the patch does\<close>

lemma template_tokens:
  "split_on CHR ''/'' ''/spec/template/metadata/annotations'' = [[], ''spec'', ''template'', ''metadata'', ''annotations'']"
  by (simp add: exec_simps)

lemma json_add_member:
  assumes "parse_uint 18446744073709551616 t = None" and "t \<noteq> ''-''"
  shows "json_add v [t] doc = Some doc' \<longleftrightarrow> (\<exists>m. doc = JObj m \<and> doc' = JObj (bm_insert t v m))"
    and "json_add v (t # u # us) doc = Some doc' \<longleftrightarrow>
      (\<exists>m c c'. doc = JObj m \<and> bm_get m t = Some c \<and> json_add v (u # us) c = Some c' \<and> doc' = JObj (bm_insert t c' m))"
  using assms by (auto simp: add_child_def json_child_def put_child_def split: json.splits option.splits)

lemma template_names:
  "parse_uint 18446744073709551616 ''spec'' = None" "parse_uint 18446744073709551616 ''template'' = None"
  "parse_uint 18446744073709551616 ''metadata'' = None" "parse_uint 18446744073709551616 ''annotations'' = None"
  by (simp_all add: exec_simps)

lemma run_mark_patch:
  "run_patch (mark_patch deployment wanted) doc = Some doc' \<longleftrightarrow>
    json_at [''metadata'', ''uid''] doc = Some (meta deployment ''uid'')
    \<and> json_at [''metadata'', ''resourceVersion''] doc = Some (meta deployment ''resourceVersion'')
    \<and> json_add (marked_annotations deployment wanted) [''spec'', ''template'', ''metadata'', ''annotations''] doc = Some doc'"
proof -
  have add: "patch_step (json_obj [(''op'', JStr ''add''), (''path'', JStr ''/spec/template/metadata/annotations''),
      (''value'', v)]) doc = json_add v [''spec'', ''template'', ''metadata'', ''annotations''] doc" for v doc
    by (simp add: patch_step_def template_tokens del: json_add.simps)
  show ?thesis
    unfolding mark_patch_def
    by (simp del: json_at.simps json_add.simps add: add test_step [OF test_tokens(1)] test_step [OF test_tokens(2)])
      (auto simp del: json_at.simps json_add.simps split: option.splits)
qed

lemma marked_annotations_get:
  "json_get (marked_annotations deployment wanted) k =
    (if k = ANNOTATION then JStr wanted else json_get (template_annotations deployment) k)"
  by (cases "template_annotations deployment") (simp_all add: marked_annotations_def json_get_def bm_get_insert)

lemma annotations_added:
  assumes "json_add v [''spec'', ''template'', ''metadata'', ''annotations''] doc = Some marked"
  shows "template_annotations marked = v"
    and "k \<noteq> ''spec'' \<Longrightarrow> json_find marked k = json_find doc k"
    and "k \<noteq> ''template'' \<Longrightarrow> json_find (json_get marked ''spec'') k = json_find (json_get doc ''spec'') k"
    and "k \<noteq> ''metadata'' \<Longrightarrow> json_find (template_of marked) k = json_find (template_of doc) k"
    and "k \<noteq> ''annotations'' \<Longrightarrow>
      json_find (json_get (template_of marked) ''metadata'') k = json_find (json_get (template_of doc) ''metadata'') k"
proof -
  obtain m m1 m2 m3 where "doc = JObj m" "bm_get m ''spec'' = Some (JObj m1)" "bm_get m1 ''template'' = Some (JObj m2)"
      "bm_get m2 ''metadata'' = Some (JObj m3)"
      "marked = JObj (bm_insert ''spec'' (JObj (bm_insert ''template'' (JObj (bm_insert ''metadata''
        (JObj (bm_insert ''annotations'' v m3)) m2)) m1)) m)"
    using assms by (auto simp: json_add_member template_names simp del: json_add.simps)
  then show "template_annotations marked = v"
    "k \<noteq> ''spec'' \<Longrightarrow> json_find marked k = json_find doc k"
    "k \<noteq> ''template'' \<Longrightarrow> json_find (json_get marked ''spec'') k = json_find (json_get doc ''spec'') k"
    "k \<noteq> ''metadata'' \<Longrightarrow> json_find (template_of marked) k = json_find (template_of doc) k"
    "k \<noteq> ''annotations'' \<Longrightarrow>
      json_find (json_get (template_of marked) ''metadata'') k = json_find (json_get (template_of doc) ''metadata'') k"
    by (simp_all add: template_annotations_def template_of_def json_get_def json_find_def bm_get_insert)
qed

lemma json_get_object: "json_get v k \<noteq> JNull \<Longrightarrow> \<exists>m. v = JObj m \<and> bm_get m k = Some (json_get v k)"
  by (auto simp: json_get_def split: json.splits option.splits)

lemma mark_patch_succeeds:
  assumes "identity addon deployment = Inr ()" and "is_object (json_get (template_of deployment) ''metadata'')"
  shows "run_patch (mark_patch deployment wanted) deployment \<noteq> None"
proof -
  have ids: "meta deployment ''uid'' \<noteq> JNull" "meta deployment ''resourceVersion'' \<noteq> JNull"
    using assms(1) by (auto simp: identity_def nonempty_text_def split: if_splits json.splits)
  obtain m3 where m3: "json_get (template_of deployment) ''metadata'' = JObj m3"
    using assms(2) by (auto simp: is_object_def split: json.splits)
  then obtain m2 where m2: "template_of deployment = JObj m2" "bm_get m2 ''metadata'' = Some (JObj m3)"
    using json_get_object [of "template_of deployment" "''metadata''"] by auto
  then obtain m1 where m1: "json_get deployment ''spec'' = JObj m1" "bm_get m1 ''template'' = Some (JObj m2)"
    using json_get_object [of "json_get deployment ''spec''" "''template''"] by (auto simp: template_of_def)
  then obtain m where m: "deployment = JObj m" "bm_get m ''spec'' = Some (JObj m1)"
    using json_get_object [of deployment "''spec''"] by auto
  have at: "json_at [''metadata'', field] deployment = Some (meta deployment field)"
    if "meta deployment field \<noteq> JNull" for field
    using json_get_object [of "json_get deployment ''metadata''" field] that m(1)
    by (intro json_find_at) (auto simp: meta_def json_find_def is_object_def)
  have "json_add v [''spec'', ''template'', ''metadata'', ''annotations''] deployment \<noteq> None" for v
    using m m1 m2 by (auto simp: json_child_def add_child_def split: option.splits)
  then obtain marked where "json_add (marked_annotations deployment wanted)
      [''spec'', ''template'', ''metadata'', ''annotations''] deployment = Some marked"
    by blast
  with at ids have "run_patch (mark_patch deployment wanted) deployment = Some marked" unfolding run_mark_patch by blast
  then show ?thesis by simp
qed

section \<open>Accepted environments have a resolver\<close>

lemma node_ip_attachment:
  assumes "node_ip env cluster n = Inr address"
  shows "\<exists>vm att. bm_get (env_vms env) n = Some vm \<and> att \<in> set (vm_networks vm)
    \<and> att_name att = cl_network cluster \<and> att_ip att = address"
proof -
  obtain vm where vm: "bm_get (env_vms env) n = Some vm"
    using assms by (auto simp: node_ip_def)
  then obtain att where att: "filter (\<lambda>a. att_name a = cl_network cluster) (vm_networks vm) = [att]" "att_ip att = address"
    using assms by (auto simp: node_ip_def split: list.splits)
  have "set [att] = {a \<in> set (vm_networks vm). att_name a = cl_network cluster}"
    unfolding att(1) [symmetric] by simp
  then show ?thesis using vm att(2) by auto
qed

lemma accepted_node:
  assumes laws: "ipnet_laws L" and wf: "bm_wf (env_networks env)" and ok: "env_accepted L fs lib dir env"
    and network: "bm_get (env_networks env) (cl_network cluster) = Some network"
    and cidr: "net_parse L (net_cidr network) = Inr cidr" and "node_ok env cluster n"
  shows "\<exists>address ip. node_ip env cluster n = Inr address \<and> parse_ipv4 address = Some ip
    \<and> net_contains L cidr ip \<and> ip \<noteq> net_network L cidr \<and> ip \<noteq> net_broadcast L cidr"
proof -
  have "distinct (map att_name (vm_networks vm))" if "bm_get (env_vms env) n = Some vm" for vm
    using accepted_vm [OF ok map_of_SomeD [OF that]] by (simp add: vm_ok_def)
  then obtain address where address: "node_ip env cluster n = Inr address"
    using node_ip_ok [OF assms(6)] by blast
  then obtain vm att where att: "bm_get (env_vms env) n = Some vm" "att \<in> set (vm_networks vm)"
      "att_name att = cl_network cluster" "att_ip att = address"
    using node_ip_attachment by blast
  have "attachment_ok L env (cidr_table L env) att"
    using accepted_vm [OF ok map_of_SomeD [OF att(1)]] att(2) by (simp add: vm_ok_def)
  then obtain cidr' ip where ip: "bm_get (cidr_table L env) (cl_network cluster) = Some cidr'"
      "parse_ipv4 address = Some ip" "address_ok L env (cl_network cluster) cidr' ip"
    using att(3,4) by (auto simp: attachment_ok_def)
  have "cidr_of L network = Some cidr'"
    using ip(1) network unfolding cidr_table_network [OF wf] by auto
  then have "cidr' = cidr" using cidr by (simp add: cidr_of_def)
  with address_inside [OF laws ip(3)] have inside: "unat (net_network L cidr) + 2 \<le> unat ip" "ip < net_broadcast L cidr"
    by auto
  then have "net_network L cidr \<le> ip" "ip \<noteq> net_network L cidr" by (auto simp: word_le_nat_alt)
  with inside(2) address ip(2) laws show ?thesis by (auto simp: ipnet_contains)
qed

lemma resolver_nodes_accepted:
  assumes "\<forall>n \<in> set ns. \<exists>address ip. node_ip env cluster n = Inr address \<and> parse_ipv4 address = Some ip
    \<and> net_contains L cidr ip \<and> ip \<noteq> net_network L cidr \<and> ip \<noteq> net_broadcast L cidr"
  shows "resolver_nodes L env cluster cidr ns = Inr ()"
  using assms by (induction ns) auto

section \<open>A cluster with CoreDNS\<close>

definition sample_addon :: json where
  "sample_addon =
     json_obj [(''apiVersion'', JStr ''k3s.cattle.io/v1''), (''kind'', JStr ''Addon''),
       (''metadata'', json_obj [(''name'', JStr ''coredns''), (''namespace'', JStr ''kube-system''),
          (''uid'', JStr ''addon-1''), (''resourceVersion'', JStr ''1'')]),
       (''spec'', json_obj [(''source'', JStr ''/var/lib/rancher/k3s/server/manifests/coredns.yaml'')])]"

definition sample_deployment :: "(string \<times> json) list \<Rightarrow> json" where
  "sample_deployment annotations =
     json_obj [(''apiVersion'', JStr ''apps/v1''), (''kind'', JStr ''Deployment''),
       (''metadata'', json_obj [(''name'', JStr ''coredns''), (''namespace'', JStr ''kube-system''),
          (''uid'', JStr ''deployment-1''), (''resourceVersion'', JStr ''1''),
          (''labels'', json_obj [(''k8s-app'', JStr ''kube-dns''), (''kubernetes.io/name'', JStr ''CoreDNS'')]),
          (''annotations'', json_obj [(''objectset.rio.cattle.io/owner-gvk'', JStr ''k3s.cattle.io/v1, Kind=Addon''),
             (''objectset.rio.cattle.io/owner-name'', JStr ''coredns''),
             (''objectset.rio.cattle.io/owner-namespace'', JStr ''kube-system'')])]),
       (''spec'', json_obj [(''template'', json_obj
          [(''metadata'', json_obj [(''annotations'', json_obj annotations)]),
           (''spec'', json_obj [(''dnsPolicy'', JStr ''Default''), (''serviceAccountName'', JStr ''coredns''),
              (''containers'', JArr [json_obj [(''name'', JStr ''coredns'')]])])])])]"

definition sample_coredns :: json where
  "sample_coredns = sample_deployment [(''other'', JStr ''preserved'')]"

lemma sample_identity_of: "identity sample_addon (sample_deployment annotations) = Inr ()"
  by (simp add: identity_def coredns_addon_def coredns_deployment_def sample_addon_def sample_deployment_def template_of_def
      meta_def json_find_def nonempty_text_def json_obj_def exec_simps)

lemmas sample_identity = sample_identity_of [of "[(''other'', JStr ''preserved'')]", folded sample_coredns_def]

lemma sample_template: "template_annotations (sample_deployment annotations) = json_obj annotations"
  by (simp add: sample_deployment_def template_annotations_def template_of_def json_obj_def exec_simps)

text \<open>A cluster whose world says whether the deployment has been patched.\<close>

definition sample_sha :: "string \<Rightarrow> string" where
  "sample_sha text = replicate 64 CHR ''a''"

definition sample_mark :: string where
  "sample_mark = resolver_marker sample_sha ''demo'' ''main'' (Some ''10.0.0.0'')"

definition coredns_json :: json_lib where
  "coredns_json = \<lparr>jl_parse = (\<lambda>raw. if raw = ''addon'' then Inr sample_addon
      else if raw = ''marked'' then Inr (sample_deployment [(ANNOTATION, JStr sample_mark)]) else Inr sample_coredns),
    jl_text = (\<lambda>_. ''{}'')\<rparr>"

definition coredns_cluster :: "bool kubectl" where
  "coredns_cluster args input seconds patched =
     (if hd args = ''patch'' then (Inr ''{}'', True)
      else (Inr (if args = addon_args then ''addon'' else if patched then ''marked'' else ''plain''), patched))"

section \<open>Properties\<close>

text \<open>The resolver of an accepted environment: with DNS enabled a cluster always has one, the address of its
  network, unless that address is not a unicast address. None of the other errors occurs.\<close>

lemma validated_cluster_resolver:
  assumes "ipnet_laws L" and "bm_wf (env_networks env)" and "validate_references L fs lib dir env = []"
    and "e \<in> set (k8s_clusters (sp_kubernetes (env_spec env)))" and "dns_enabled (sp_dns (env_spec env))"
  shows "\<exists>network cidr. bm_get (env_networks env) (cl_network (snd e)) = Some network
    \<and> net_parse L (net_cidr network) = Inr cidr
    \<and> resolver_upstream L env (snd e) =
        (if not_unicast (net_network L cidr) then Inl ''K3s resolver requires a unicast vmnet network''
         else Inr (Some (show_ipv4 (net_network L cidr))))"
proof -
  note ok = accepted_of_silent [OF assms(2,3)]
  have cluster: "cluster_ok L lib dir env e"
    using ok assms(4) unfolding env_accepted_def clusters_ok_def Let_def by blast
  then obtain network where network: "bm_get (env_networks env) (cl_network (snd e)) = Some network"
      "net_backend network \<noteq> Docker"
    unfolding cluster_ok_def by blast
  have nodes: "\<forall>n \<in> set (cl_server (snd e) # cl_agents (snd e)). node_ok env (snd e) n"
    using cluster unfolding cluster_ok_def cluster_nodes_def by blast
  have "\<exists>cidr. net_parse L (net_cidr network) = Inr cidr"
  proof -
    obtain address where "node_ip env (snd e) (cl_server (snd e)) = Inr address"
      using node_ip_ok nodes accepted_vm [OF ok map_of_SomeD] by (metis list.set_intros(1) vm_ok_def snd_conv)
    then obtain vm att where att: "bm_get (env_vms env) (cl_server (snd e)) = Some vm" "att \<in> set (vm_networks vm)"
        "att_name att = cl_network (snd e)"
      using node_ip_attachment by blast
    have "attachment_ok L env (cidr_table L env) att"
      using accepted_vm [OF ok map_of_SomeD [OF att(1)]] att(2) by (simp add: vm_ok_def)
    then obtain cidr where "bm_get (cidr_table L env) (cl_network (snd e)) = Some cidr"
      using att(3) by (auto simp: attachment_ok_def)
    then have "cidr_of L network = Some cidr" using network(1) unfolding cidr_table_network [OF assms(2)] by auto
    then show ?thesis by (auto simp: cidr_of_def split: sum.splits)
  qed
  then obtain cidr where cidr: "net_parse L (net_cidr network) = Inr cidr" by blast
  have "resolver_nodes L env (snd e) cidr (cl_server (snd e) # cl_agents (snd e)) = Inr ()"
    using accepted_node [OF assms(1,2) ok network(1) cidr] nodes by (intro resolver_nodes_accepted) blast
  moreover have "net_backend network = Vmnet" using network(2) by (cases "net_backend network") auto
  ultimately show ?thesis
    using network(1) cidr assms(5)
    by (auto simp: resolver_upstream_def simp del: resolver_nodes.simps)
qed

lemma validated_cluster_resolver_witness: "resolver_upstream cidr_lib sample_kube_env sample_cluster = Inr (Some ''10.0.0.0'')"
proof -
  have "(''edge'', sample_cluster) \<in> set (k8s_clusters (sp_kubernetes (env_spec sample_kube_env)))"
      "dns_enabled (sp_dns (env_spec sample_kube_env))" "cl_network sample_cluster = ''lan''"
    by (simp add: sample_kube_env_def, simp add: exec_simps, simp add: sample_cluster_def)
  note validated_cluster_resolver [OF cidr_lib_laws sample_kube_wf sample_kube_validates this(1,2), unfolded snd_conv this(3)]
  then obtain network cidr where cidr: "bm_get (env_networks sample_kube_env) ''lan'' = Some network"
      "net_parse cidr_lib (net_cidr network) = Inr cidr"
      "resolver_upstream cidr_lib sample_kube_env sample_cluster =
        (if not_unicast (net_network cidr_lib cidr) then Inl ''K3s resolver requires a unicast vmnet network''
         else Inr (Some (show_ipv4 (net_network cidr_lib cidr))))"
    by blast
  have "net_cidr network = ''10.0.0.0/24''" using cidr(1) by (auto simp: sample_kube_env_def sample_simps)
  then have "cidr = (0x0a000000, 24)" using cidr(2) by (simp add: exec_simps)
  then have "net_network cidr_lib cidr = 0x0a000000" by (simp add: exec_simps)
  then show ?thesis
    unfolding cidr(3) by (simp add: not_unicast_def is_link_local_def is_multicast_def is_loopback_def octet_def show_ipv4_def exec_simps)
qed

text \<open>C26: whatever the cluster answers, a rollout changes at most one thing, once: it patches a deployment it has
  read, while the addon it has read is the one of K3s that owns it, the marker of the deployment is missing or of this
  cluster, and the patch is the one computed from that deployment. After the patch only reads follow.\<close>

theorem rollout_is_fenced:
  "fenced J sha project cluster upstream (ks_log (snd (rollout K J sha project cluster upstream (new_session w))))"
  by (rule rollout_log.valid_run(1) [OF valid_rollout]) simp_all

text \<open>A rollout that succeeds has seen its effect: the last two calls read the deployment with the marker of the
  resolver wanted and the addon that owns it; or no resolver is wanted, and the only call has shown that the deployment
  is absent or has no marker.\<close>

lemma rollout_success_is_confirmed:
  assumes "fst (rollout K J sha project cluster upstream (new_session w)) = Inr ()"
  shows "confirmed J sha project cluster upstream (ks_log (snd (rollout K J sha project cluster upstream (new_session w))))
    \<or> upstream = None \<and> unmarked J (ks_log (snd (rollout K J sha project cluster upstream (new_session w))))"
  using rollout_log.valid_run(2) [OF valid_rollout _ _ assms] by simp

lemma rollout_success_is_confirmed_witness:
  "confirmed coredns_json sample_sha ''demo'' ''main'' (Some ''10.0.0.0'')
    (ks_log (snd (rollout coredns_cluster coredns_json sample_sha ''demo'' ''main'' (Some ''10.0.0.0'') (new_session False))))"
proof -
  have heads: "hd mark_args = ''patch''" "deployment_args \<noteq> addon_args"
    by (simp_all add: mark_args_def deployment_args_def addon_args_def)
  have plain: "json_find (template_annotations sample_coredns) ANNOTATION = None" "trim ''plain'' \<noteq> []"
    by (simp_all add: sample_coredns_def sample_template ANNOTATION_def json_obj_def json_find_def exec_simps)
  have marked: "json_get (template_annotations (sample_deployment [(ANNOTATION, JStr sample_mark)])) ANNOTATION = JStr sample_mark"
      "meta (sample_deployment [(ANNOTATION, JStr sample_mark)]) ''uid'' = meta sample_coredns ''uid''"
    by (simp add: sample_template)
      (simp add: sample_coredns_def sample_deployment_def meta_def json_obj_def exec_simps)
  have "fst (rollout coredns_cluster coredns_json sample_sha ''demo'' ''main'' (Some ''10.0.0.0'') (new_session False)) = Inr ()"
    by (simp add: rollout_def read_deployment_def kb_bind_def kb_of_def kb_call_def coredns_cluster_def new_session_def heads
        parse_inventory_def coredns_json_def plain Let_def roll_deployment_def read_addon_def sample_identity sample_identity_of
        mark_deployment_def confirm_rollout_def marked sample_mark_def [symmetric])
  from rollout_success_is_confirmed [OF this] show ?thesis by simp
qed

text \<open>The patch of a rollout, applied after RFC 6902, sets the marker and nothing else: every other annotation of
  the pod template is that of the deployment that was read, everything outside these annotations stays, and a
  deployment of another identity or version is refused. Applied to the deployment itself it succeeds.\<close>

lemma mark_patch_refines:
  assumes "identity addon deployment = Inr ()" and "is_object (json_get (template_of deployment) ''metadata'')"
  shows "run_patch (mark_patch deployment wanted) deployment \<noteq> None
    \<and> (\<forall>doc marked. run_patch (mark_patch deployment wanted) doc = Some marked \<longrightarrow>
        meta doc ''uid'' = meta deployment ''uid'' \<and> meta doc ''resourceVersion'' = meta deployment ''resourceVersion''
        \<and> (\<forall>k. json_get (template_annotations marked) k =
              (if k = ANNOTATION then JStr wanted else json_get (template_annotations deployment) k))
        \<and> (\<forall>k. k \<noteq> ''spec'' \<longrightarrow> json_find marked k = json_find doc k)
        \<and> (\<forall>k. k \<noteq> ''template'' \<longrightarrow> json_find (json_get marked ''spec'') k = json_find (json_get doc ''spec'') k)
        \<and> (\<forall>k. k \<noteq> ''metadata'' \<longrightarrow> json_find (template_of marked) k = json_find (template_of doc) k)
        \<and> (\<forall>k. k \<noteq> ''annotations'' \<longrightarrow> json_find (json_get (template_of marked) ''metadata'') k =
              json_find (json_get (template_of doc) ''metadata'') k))"
proof (intro conjI allI impI mark_patch_succeeds [OF assms])
  fix doc marked assume "run_patch (mark_patch deployment wanted) doc = Some marked"
  note ran = this [unfolded run_mark_patch]
  show "meta doc ''uid'' = meta deployment ''uid''" "meta doc ''resourceVersion'' = meta deployment ''resourceVersion''"
    by (rule json_at_meta [OF conjunct1 [OF ran] no_index(2)],
        rule json_at_meta [OF conjunct1 [OF conjunct2 [OF ran]] no_index(3)])
  note effect = annotations_added [OF conjunct2 [OF conjunct2 [OF ran]]]
  show "json_get (template_annotations marked) k =
      (if k = ANNOTATION then JStr wanted else json_get (template_annotations deployment) k)" for k
    unfolding effect(1) by (rule marked_annotations_get)
  show "json_find marked k = json_find doc k" if "k \<noteq> ''spec''" for k using that by (rule effect(2))
  show "json_find (json_get marked ''spec'') k = json_find (json_get doc ''spec'') k" if "k \<noteq> ''template''" for k
    using that by (rule effect(3))
  show "json_find (template_of marked) k = json_find (template_of doc) k" if "k \<noteq> ''metadata''" for k
    using that by (rule effect(4))
  show "json_find (json_get (template_of marked) ''metadata'') k = json_find (json_get (template_of doc) ''metadata'') k"
    if "k \<noteq> ''annotations''" for k
    using that by (rule effect(5))
qed

lemma mark_patch_refines_witness:
  "\<exists>marked. run_patch (mark_patch sample_coredns ''m'') sample_coredns = Some marked
    \<and> json_get (template_annotations marked) ANNOTATION = JStr ''m''
    \<and> json_get (template_annotations marked) ''other'' = JStr ''preserved''"
proof -
  have other: "json_get (template_annotations sample_coredns) ''other'' = JStr ''preserved''" "''other'' \<noteq> ANNOTATION"
    by (simp_all add: sample_coredns_def sample_template ANNOTATION_def json_obj_def exec_simps)
  have "is_object (json_get (template_of sample_coredns) ''metadata'')"
    by (simp add: sample_coredns_def sample_deployment_def template_of_def json_obj_def exec_simps)
  from mark_patch_refines [OF sample_identity this, of "''m''"] other show ?thesis by auto
qed

end
