(* ===== verification/Shell.thy ===== *)
theory Shell
  imports Rpc
begin

text \<open>
  Words of shell commands: \<open>quote\<close> (\<open>kubernetes.rs\<close>), with which every value that is not a constant enters a script
  for a guest, and \<open>shell_quote\<close> and \<open>escape_applescript\<close> (\<open>reconciler/io.rs\<close>) of the command with which the program
  starts itself again with administrator privileges. \<open>sh_word\<close> is how a POSIX shell reads a word:
  characters outside quotes, a string in single quotes, or a backslash with the next character, up to a separator.
  It refuses what would be expanded and does not read double quotes; assignments, which only a name and
  \<open>=\<close> before the command make, are not told apart.  \<open>sh_words\<close> reads the words of a command.
\<close>

section \<open>Quoting\<close>

abbreviation apostrophe :: char where
  "apostrophe \<equiv> CHR 39"

abbreviation backslash :: char where
  "backslash \<equiv> CHR 92"

text \<open>\<open>str::replace\<close> of one character\<close>

definition replace_char :: "char \<Rightarrow> string \<Rightarrow> string \<Rightarrow> string" where
  "replace_char c t s = concat (map (\<lambda>d. if d = c then t else [d]) s)"

definition quote :: "string \<Rightarrow> string" where
  "quote s = [apostrophe] @ replace_char apostrophe [apostrophe, backslash, apostrophe, apostrophe] s @ [apostrophe]"

definition shell_plain :: "char \<Rightarrow> bool" where
  "shell_plain c \<longleftrightarrow> is_ascii_alphanumeric c \<or> c \<in> set ''/._-:@+=''"

definition shell_quote :: "string \<Rightarrow> string" where
  "shell_quote s =
     (if s = [] then [apostrophe, apostrophe]
      else if list_all shell_plain s then s
      else quote s)"

text \<open>The script with which \<open>run_self_elevated\<close> starts the program again with administrator privileges: the command
  line in a string literal of AppleScript\<close>

definition escape_applescript :: "string \<Rightarrow> string" where
  "escape_applescript s = replace_char (CHR 0x22) [backslash, CHR 0x22] (replace_char backslash [backslash, backslash] s)"

definition elevated_shell :: "string \<Rightarrow> string list \<Rightarrow> string" where
  "elevated_shell executable args = join '' '' (map shell_quote (executable # args))"

definition elevated_script :: "string \<Rightarrow> string list \<Rightarrow> string" where
  \<open>elevated_script executable args =
     ''do shell script "'' @ escape_applescript (elevated_shell executable args) @ ''" with administrator privileges''\<close>

section \<open>Reading a word\<close>

datatype quoting = Bare | Single

definition separates :: "char \<Rightarrow> bool" where
  "separates c \<longleftrightarrow> c \<in> set '' ;&|<>()'' \<or> c = CHR 9 \<or> c = CHR 10"

text \<open>Characters that mean something to a shell outside quotes: expansions, patterns, comments, quotes.\<close>

definition sh_special :: "char \<Rightarrow> bool" where
  "sh_special c \<longleftrightarrow> c \<in> set ''$*?[]#~{}!'' \<or> c \<in> {CHR 0x22, CHR 0x60, apostrophe, backslash} \<or> separates c"

definition prepend :: "char \<Rightarrow> (string \<times> string) option \<Rightarrow> (string \<times> string) option" where
  "prepend c r = map_option (\<lambda>(word, rest). (c # word, rest)) r"

fun sh_word :: "quoting \<Rightarrow> string \<Rightarrow> (string \<times> string) option" where
  "sh_word Bare [] = Some ([], [])"
| "sh_word Single [] = None"
| "sh_word Single (c # cs) = (if c = apostrophe then sh_word Bare cs else prepend c (sh_word Single cs))"
| "sh_word Bare (c # cs) =
     (if c = apostrophe then sh_word Single cs
      else if c = backslash then
        (case cs of [] \<Rightarrow> None | d # ds \<Rightarrow> if d = CHR 10 then None else prepend d (sh_word Bare ds))
      else if separates c then Some ([], c # cs)
      else if sh_special c then None
      else prepend c (sh_word Bare cs))"

definition ends_word :: "string \<Rightarrow> bool" where
  "ends_word rest \<longleftrightarrow> rest = [] \<or> separates (hd rest)"

lemma separators [simp]:
  "\<not> separates apostrophe" "\<not> separates backslash" "\<not> shell_plain apostrophe" "\<not> shell_plain backslash"
  by (simp_all add: separates_def shell_plain_def char_class_defs)

lemma plain_not_special: "shell_plain c \<Longrightarrow> \<not> sh_special c"
  by (auto simp: sh_special_def separates_def shell_plain_def char_class_defs)

lemma plain_not_separator: "shell_plain c \<Longrightarrow> \<not> separates c"
  using plain_not_special by (auto simp: sh_special_def)

lemma sh_word_end: "ends_word rest \<Longrightarrow> sh_word Bare rest = Some ([], rest)"
  by (cases rest) (auto simp: ends_word_def)

lemma sh_word_single:
  assumes "\<And>rest. sh_word Single (t @ rest) = prepend apostrophe (sh_word Single rest)" and "ends_word rest"
  shows "sh_word Single (replace_char apostrophe t s @ apostrophe # rest) = Some (s, rest)"
  by (induction s) (simp_all add: replace_char_def sh_word_end [OF assms(2)] assms(1) prepend_def)

lemma sh_word_plain: "list_all shell_plain s \<Longrightarrow> ends_word rest \<Longrightarrow> sh_word Bare (s @ rest) = Some (s, rest)"
proof (induction s)
  case (Cons c s)
  then show ?case
    by (cases "c = apostrophe \<or> c = backslash") (auto simp: prepend_def plain_not_separator plain_not_special)
qed (simp add: sh_word_end)

section \<open>Reading the words of a command\<close>

text \<open>A word begins at a character that is neither a blank nor an operator: at a separator and at the end of the script
  there is no word, not even an empty one.\<close>

definition begins_word :: "string \<Rightarrow> bool" where
  "begins_word s \<longleftrightarrow> \<not> ends_word s"

definition read_word :: "string \<Rightarrow> (string \<times> string) option" where
  "read_word s = (if begins_word s then sh_word Bare s else None)"

definition sh_blank :: "char \<Rightarrow> bool" where
  "sh_blank c \<longleftrightarrow> c = CHR '' '' \<or> c = CHR 9"

lemma sh_word_rest: "sh_word m s = Some (w, rest) \<Longrightarrow> length rest \<le> length s"
  by (induction m s arbitrary: w rule: sh_word.induct)
    (fastforce simp: prepend_def split: if_splits list.splits)+

lemma read_word_shorter: "read_word s = Some (w, rest) \<Longrightarrow> length rest < length s"
  by (cases s)
    (auto simp: read_word_def begins_word_def ends_word_def prepend_def split: if_splits list.splits dest!: sh_word_rest)

text \<open>The words of a simple command, up to the operator that ends it.\<close>

function sh_words :: "string \<Rightarrow> (string list \<times> string) option" where
  "sh_words s =
     (if s \<noteq> [] \<and> sh_blank (hd s) then sh_words (tl s)
      else if ends_word s then Some ([], s)
      else case read_word s of
        None \<Rightarrow> None
      | Some (w, rest) \<Rightarrow> map_option (\<lambda>(ws, rest'). (w # ws, rest')) (sh_words rest))"
  by pat_completeness auto
termination
  by (relation "measure length") (auto dest: read_word_shorter)

declare sh_words.simps [simp del]

definition ends_command :: "string \<Rightarrow> bool" where
  "ends_command rest \<longleftrightarrow> ends_word rest \<and> (rest = [] \<or> \<not> sh_blank (hd rest))"

lemma sh_words_end: "ends_command rest \<Longrightarrow> sh_words rest = Some ([], rest)"
  by (subst sh_words.simps) (auto simp: ends_command_def)

lemma sh_words_word:
  assumes "read_word s = Some (w, rest)"
  shows "sh_words s = map_option (\<lambda>(ws, rest'). (w # ws, rest')) (sh_words rest)"
proof -
  from assms have "\<not> ends_word s" by (simp add: read_word_def begins_word_def split: if_splits)
  then have "s \<noteq> [] \<and> \<not> sh_blank (hd s)" by (auto simp: ends_word_def separates_def sh_blank_def)
  with \<open>\<not> ends_word s\<close> assms show ?thesis by (subst sh_words.simps) simp
qed

lemma sh_words_quoted:
  assumes "\<And>s rest. ends_word rest \<Longrightarrow> read_word (q s @ rest) = Some (s, rest)" and "ends_command rest"
  shows "sh_words (join '' '' (map q args) @ rest) = Some (args, rest)"
proof (induction args)
  case (Cons arg args)
  have word_end: "ends_word rest" using assms(2) by (simp add: ends_command_def)
  show ?case
  proof (cases args)
    case Nil
    show ?thesis using sh_words_word [OF assms(1) [OF word_end, of arg]] sh_words_end [OF assms(2)] by (simp add: Nil)
  next
    case (Cons a as)
    have "ends_word ('' '' @ s)" for s by (simp add: ends_word_def separates_def)
    note word = sh_words_word [OF assms(1) [OF this, of arg]]
    have skip: "sh_words ('' '' @ s) = sh_words s" for s by (subst sh_words.simps) (simp add: sh_blank_def)
    have "join '' '' (map q (arg # args)) @ rest = q arg @ '' '' @ join '' '' (map q args) @ rest"
      by (simp add: Cons)
    then show ?thesis by (simp only: word skip Cons.IH) simp
  qed
qed (simp add: sh_words_end [OF assms(2)])

lemma quote_read: "ends_word rest \<Longrightarrow> read_word (quote s @ rest) = Some (s, rest)"
  using sh_word_single [of "[apostrophe, backslash, apostrophe, apostrophe]" rest s]
  by (simp add: read_word_def begins_word_def ends_word_def quote_def prepend_def)

lemma shell_quote_read: "ends_word rest \<Longrightarrow> read_word (shell_quote s @ rest) = Some (s, rest)"
proof -
  assume rest: "ends_word rest"
  consider "s = []" | "s \<noteq> []" "list_all shell_plain s" | "s \<noteq> []" "\<not> list_all shell_plain s" by blast
  then show ?thesis
  proof cases
    case 1
    then show ?thesis using quote_read [OF rest, of "[]"] by (simp add: shell_quote_def quote_def replace_char_def)
  next
    case 2
    then have "begins_word (s @ rest)"
      by (cases s) (simp_all add: begins_word_def ends_word_def plain_not_separator)
    with 2 sh_word_plain [OF _ rest, of s] show ?thesis by (simp add: shell_quote_def read_word_def)
  next
    case 3
    then show ?thesis using quote_read [OF rest, of s] by (simp add: shell_quote_def)
  qed
qed

section \<open>Reading a string literal of AppleScript\<close>

text \<open>Up to the closing quotation mark, where a backslash stands before the character it escapes; a letter after a
  backslash would be a control character and is refused.\<close>

fun applescript_string :: "string \<Rightarrow> (string \<times> string) option" where
  "applescript_string [] = None"
| "applescript_string (c # cs) =
     (if c = CHR 0x22 then Some ([], cs)
      else if c = backslash then
        (case cs of [] \<Rightarrow> None | d # ds \<Rightarrow> if d \<in> {backslash, CHR 0x22} then prepend d (applescript_string ds) else None)
      else prepend c (applescript_string cs))"

definition shell_script_of :: "string \<Rightarrow> (string \<times> string) option" where
  \<open>shell_script_of s = (case strip_prefix s ''do shell script "'' of None \<Rightarrow> None | Some r \<Rightarrow> applescript_string r)\<close>

lemma escape_applescript_Cons:
  "escape_applescript (c # s) =
     (if c \<in> {backslash, CHR 0x22} then [backslash, c] else [c]) @ escape_applescript s"
  by (simp add: escape_applescript_def replace_char_def)

lemma escape_applescript_read: "applescript_string (escape_applescript s @ CHR 0x22 # rest) = Some (s, rest)"
proof (induction s)
  case Nil
  show ?case by (simp add: escape_applescript_def replace_char_def)
next
  case (Cons c s)
  then show ?case by (simp add: escape_applescript_Cons prepend_def)
qed

lemma elevated_script_read:
  "shell_script_of (elevated_script executable args) =
     Some (elevated_shell executable args, '' with administrator privileges'')"
  using escape_applescript_read [of "elevated_shell executable args" "'' with administrator privileges''"]
  by (simp add: shell_script_of_def elevated_script_def strip_prefix_def starts_with_def)

section \<open>Properties\<close>

text \<open>C25: a quoted value is one word of a script, whatever bytes it has, the empty value included: a word begins where
  it stands, a shell reads it back exactly, and what follows it is not touched.  So the words of a command that is put
  together from quoted arguments are these arguments, as many and in their order; and the command that is run with
  administrator privileges has as its words the executable and the arguments it was given, after AppleScript has read
  it out of its string literal.\<close>

theorem quoted_word_is_read_back:
  assumes "ends_word rest" and "ends_command tail"
  shows "read_word (quote s @ rest) = Some (s, rest) \<and> read_word (shell_quote s @ rest) = Some (s, rest) \<and>
    sh_words (join '' '' (map quote args) @ tail) = Some (args, tail) \<and>
    sh_words (join '' '' (map shell_quote args) @ tail) = Some (args, tail) \<and>
    (\<exists>script. shell_script_of (elevated_script executable args) = Some (script, '' with administrator privileges'') \<and>
      sh_words script = Some (executable # args, []))"
proof -
  have "ends_command []" by (simp add: ends_command_def ends_word_def)
  from sh_words_quoted [OF shell_quote_read this, of "executable # args"]
  have "sh_words (elevated_shell executable args) = Some (executable # args, [])"
    by (simp only: elevated_shell_def append_Nil2)
  with quote_read [OF assms(1)] shell_quote_read [OF assms(1)] sh_words_quoted [OF quote_read assms(2)]
    sh_words_quoted [OF shell_quote_read assms(2)] elevated_script_read
  show ?thesis by blast
qed

lemma quoted_word_is_read_back_witness:
  "read_word (quote ''a; rm -rf $HOME'' @ ''; true'') = Some (''a; rm -rf $HOME'', ''; true'') \<and>
   sh_words (join '' '' (map shell_quote [''printf'', [], ''$(id)'']) @ ''; true'') = Some ([''printf'', [], ''$(id)''], ''; true'')"
  using quoted_word_is_read_back [of "''; true''" "''; true''" "''a; rm -rf $HOME''" "[''printf'', [], ''$(id)'']" "''vzctl''"]
  by (simp add: ends_word_def ends_command_def separates_def sh_blank_def)

end
