(* ===== verification/Guest.thy ===== *)
theory Guest
  imports KubeResolver Shell
begin

text \<open>
  Commands in a guest: the supervisor's answer to a VM operation (\<open>vm/rpc.rs\<close>), and \<open>Guest\<close> of
  \<open>kubernetes/controller.rs\<close>, which runs a command, a shell script or \<open>kubectl\<close> in a VM of the project.

  The socket and base64 are parameters. A command in a guest is a call like one of \<open>kubectl\<close>: its arguments are
  the VM and the command. \<open>via_guest\<close> runs an operation whose calls of \<open>kubectl\<close> are commands in a guest.
\<close>

section \<open>The supervisor\<close>

record 'w guest_lib =
  gl_exchange :: "nat \<Rightarrow> json \<Rightarrow> 'w \<Rightarrow> (json, string) result \<times> 'w"
  gl_base64 :: "string \<Rightarrow> string"

definition EXIT_NETWORK :: nat where "EXIT_NETWORK = 17"
definition EXIT_GUEST :: nat where "EXIT_GUEST = 18"
definition EXIT_VM_OP :: nat where "EXIT_VM_OP = 24"

definition guest_method :: "string \<Rightarrow> bool" where
  "guest_method method \<longleftrightarrow> method = ''vm.exec'' \<or> starts_with method ''vm.agent.''"

definition vm_failure :: "string \<Rightarrow> json \<Rightarrow> failure" where
  "vm_failure method error =
     (let message = (case json_as_str (json_get error ''message'') of Some m \<Rightarrow> m | None \<Rightarrow> ''VM operation failed'')
      in \<lparr>fail_code =
            (if json_get error ''code'' = JNum ''-32602'' then EXIT_INVALID
             else if starts_with method ''net.'' then EXIT_NETWORK
             else if guest_method method then EXIT_GUEST else EXIT_VM_OP),
          fail_message =
            (if message = ''Method not found'' \<and> guest_method method then
               ''helper does not support '' @ method
                 @ ''; restart the VM (`vzctl vm stop <id> && vzctl vm start <id>`) after upgrading vz-helper''
             else message)\<rparr>)"

definition vm_response :: "string \<Rightarrow> json \<Rightarrow> (json, failure) result" where
  "vm_response method response =
     (case json_find response ''error'' of
        Some error \<Rightarrow> Inl (vm_failure method error)
      | None \<Rightarrow> ok_or \<lparr>fail_code = EXIT_SUPERVISOR, fail_message = ''supervisor response has no result''\<rparr>
                 (json_find response ''result''))"

definition vm_rpc :: "'w guest_lib \<Rightarrow> string \<Rightarrow> json \<Rightarrow> nat \<Rightarrow> 'w \<Rightarrow> (json, failure) result \<times> 'w" where
  "vm_rpc G method params timeout w =
     (let (reply, w') = gl_exchange G timeout (rpc_request method params) w
      in (case reply of
            Inl e \<Rightarrow> Inl \<lparr>fail_code = EXIT_SUPERVISOR, fail_message = e\<rparr>
          | Inr response \<Rightarrow> vm_response method response, w'))"

section \<open>Running a command\<close>

definition exec_params :: "'w guest_lib \<Rightarrow> string \<Rightarrow> string \<Rightarrow> string list \<Rightarrow> string \<Rightarrow> nat \<Rightarrow> json" where
  "exec_params G project vm cmd input seconds =
     json_obj [(''vm_id'', JStr (project @ ''/'' @ vm)), (''cmd'', JArr (map JStr cmd)),
       (''stdin_b64'', JStr (gl_base64 G input)), (''timeout_ms'', JNum (show_nat (seconds * 1000)))]"

definition exec_result :: "string \<Rightarrow> (json, failure) result \<Rightarrow> (string, string) result" where
  "exec_result vm reply =
     (case reply of
        Inl failure \<Rightarrow> Inl (''K3s node '' @ vm @ '': '' @ fail_message failure)
      | Inr answer \<Rightarrow>
          if json_get answer ''truncated'' = JBool True then Inl (''K3s node '' @ vm @ '': guest response truncated'')
          else if json_get answer ''exit'' \<noteq> JNum ''0'' then
            Inl (''K3s node '' @ vm @ '': ''
              @ trim (case json_as_str (json_get answer ''stderr'') of Some e \<Rightarrow> e | None \<Rightarrow> ''guest command failed''))
          else Inr (case json_as_str (json_get answer ''stdout'') of Some out \<Rightarrow> out | None \<Rightarrow> []))"

text \<open>The call: the VM and its command.\<close>

fun run_in_guest :: "'w guest_lib \<Rightarrow> string \<Rightarrow> 'w kubectl" where
  "run_in_guest G project [] input seconds w = (Inl [], w)"
| "run_in_guest G project (vm # cmd) input seconds w =
     (let (reply, w') = vm_rpc G ''vm.exec'' (exec_params G project vm cmd input seconds) (seconds + 10) w
      in (exec_result vm reply, w'))"

definition guest_exec ::
    "'w guest_lib \<Rightarrow> environment \<Rightarrow> string \<Rightarrow> string list \<Rightarrow> string \<Rightarrow> nat \<Rightarrow> ('w, string) kube" where
  "guest_exec G env vm cmd input seconds =
     (if 256 * 1024 < length input then kb_of (Inl ''guest input exceeds 256 KiB'')
      else kb_call (run_in_guest G (sp_project (env_spec env))) (vm # cmd) input seconds)"

definition script_command :: "string \<Rightarrow> string list" where
  "script_command script = [''sudo'', ''-n'', ''/bin/sh'', ''-eu'', ''-c'', script]"

definition guest_shell ::
    "'w guest_lib \<Rightarrow> environment \<Rightarrow> string \<Rightarrow> string \<Rightarrow> string \<Rightarrow> nat \<Rightarrow> ('w, string) kube" where
  "guest_shell G env vm script input seconds = guest_exec G env vm (script_command script) input seconds"

definition kubectl_command :: "cluster_config \<Rightarrow> string \<Rightarrow> string list \<Rightarrow> nat \<Rightarrow> string list" where
  "kubectl_command cluster ip args seconds =
     [''sudo'', ''-n'', ''/usr/local/bin/k3s'', ''kubectl'', ''--kubeconfig=/etc/rancher/k3s/k3s.yaml'',
      ''--server=https://'' @ ip @ '':6443'', ''--namespace='' @ cl_default_namespace cluster,
      ''--request-timeout='' @ show_nat (min seconds 30) @ ''s''] @ args"

definition guest_kubectl ::
    "'w guest_lib \<Rightarrow> environment \<Rightarrow> cluster_config \<Rightarrow> string list \<Rightarrow> string \<Rightarrow> nat \<Rightarrow> ('w, string) kube" where
  "guest_kubectl G env cluster args input seconds =
     kb_bind (kb_of (node_ip env cluster (cl_server cluster))) (\<lambda>ip.
       guest_exec G env (cl_server cluster) (kubectl_command cluster ip args seconds) input seconds)"

text \<open>An operation over \<open>kubectl\<close> whose calls are made in a guest: its world is the session of the guests.\<close>

definition via_guest :: "('w kube_session, 'a) kube \<Rightarrow> ('w, 'a) kube" where
  "via_guest m s = (let (r, s') = m (new_session s) in (r, ks_world s'))"

section \<open>What operations keep of the world\<close>

lemma keeps_migrate:
  assumes "kept_by K I"
  shows "keeps I (migrate_create_ownership K J project cluster v existing namespace uid)"
  unfolding migrate_create_ownership_def apply_bridge_def retire_ownership_def read_object_def Let_def
  by (intro keeps_intros assms)

lemma keeps_attempts:
  assumes "kept_by K I"
  shows "keeps I (apply_attempts K J project cluster v namespace uid n existing)"
proof (induction n arbitrary: existing)
  case 0
  then show ?case by (simp add: keeps_of)
next
  case (Suc n)
  show ?case
    unfolding apply_attempts.simps
    by (intro keeps_intros keeps_migrate [OF assms] assms Suc.IH)
qed

lemma keeps_apply:
  assumes "kept_by K I"
  shows "keeps I (apply_owned_object K J project cluster config v)"
  unfolding apply_owned_object_def existing_or_created_def wait_established_def Let_def
  by (intro keeps_intros keeps_attempts assms)

lemma keeps_rollout:
  assumes "kept_by K I"
  shows "keeps I (rollout K J sha project cluster upstream)"
  unfolding rollout_def read_deployment_def roll_deployment_def mark_deployment_def confirm_rollout_def read_addon_def Let_def
  by (intro keeps_intros assms)

end
