(* ===== verification/KubeNodes.thy ===== *)
theory KubeNodes
  imports Guest
begin

text \<open>
  The nodes of a cluster (\<open>kubernetes/controller.rs\<close>): \<open>ensure\<close> checks every node of every cluster, installs
  K3s on the server and the agents of one cluster after the other, waits until each is ready, and applies what the
  cluster needs. \<open>file_guard\<close> is from \<open>kubernetes/resolver.rs\<close>.

  Scripts are texts, put together as in the code. YAML printing, the token file, private files and the clock are
  parameters; the resource definitions of \<open>controllers/kubernetes_claims.rs\<close> are an argument. Waiting for a node has
  fuel for 91 attempts, which is what its deadline allows (\<open>wait_loop_deadline\<close>).
\<close>

section \<open>Parameters\<close>

text \<open>The token file: just created, with the random bytes for it, or the first 65 bytes of the one that is there.\<close>

datatype token_file = Created string | Existing string

record 'w node_lib =
  nl_guest :: "'w guest_lib"
  nl_json :: json_lib
  nl_manifests :: manifest_lib
  nl_yaml :: "json \<Rightarrow> (string, string) result"
  nl_token_file :: "string \<Rightarrow> 'w \<Rightarrow> (token_file, string) result \<times> 'w"
  nl_write_private :: "string \<Rightarrow> string \<Rightarrow> 'w \<Rightarrow> (unit, string) result \<times> 'w"
  nl_clock :: "'w clock"

definition kb_host :: "('w \<Rightarrow> ('a, string) result \<times> 'w) \<Rightarrow> ('w, 'a) kube" where
  "kb_host f s = (let (r, w) = f (ks_world s) in (r, s\<lparr>ks_world := w\<rparr>))"

abbreviation nl_sha :: "'w node_lib \<Rightarrow> string \<Rightarrow> string" where
  "nl_sha N \<equiv> ml_sha256 (nl_manifests N)"

section \<open>Paths and scripts\<close>

definition PATH :: string where "PATH = ''/etc/rancher/k3s/vzctl-resolv.conf''"
definition UNIT :: string where "UNIT = ''vzctl-k3s.service''"
definition OWNER :: string where "OWNER = ''/var/lib/vzctl/kubernetes/owner.json''"
definition CONFIG :: string where "CONFIG = ''/etc/rancher/k3s/config.yaml''"
definition TOKEN :: string where "TOKEN = ''/etc/rancher/k3s/vzctl-token''"

abbreviation unit_path :: string where
  "unit_path \<equiv> ''/etc/systemd/system/'' @ UNIT"

abbreviation in_quotes :: "string \<Rightarrow> string" where
  "in_quotes s \<equiv> [apostrophe] @ s @ [apostrophe]"

definition file_guard :: "(string \<Rightarrow> string) \<Rightarrow> string \<Rightarrow> string \<Rightarrow> string \<Rightarrow> string" where
  \<open>file_guard sha path project cluster =
     (let p = quote path; h = quote (resolver_header sha project cluster);
          refuse = ''echo '' @ in_quotes ''K3s resolver ownership conflict'' @ '' >&2; exit 1; ''
      in ''if test -L '' @ p @ ''; then '' @ refuse @ ''fi; if test -e '' @ p @ ''; then test -f '' @ p
         @ '' && test "$(head -n 1 '' @ p @ '')" = '' @ h @ '' || { '' @ refuse @ ''}; fi; '')\<close>

definition systemd_check :: string where
  \<open>systemd_check =
     ''test "$(cat /proc/1/comm)" = systemd || { echo '' @ in_quotes ''K3s requires systemd PID 1''
     @ '' >&2; exit 1; }; test "$(uname -m)" = aarch64 || { echo '' @ in_quotes ''K3s requires ARM64''
     @ '' >&2; exit 1; }; command -v curl >/dev/null; command -v sha256sum >/dev/null; command -v ip >/dev/null; command -v systemctl >/dev/null''\<close>

definition owner_script :: string where
  "owner_script =
     ''if test -f '' @ OWNER @ ''; then cat '' @ OWNER @ ''; elif test -e '' @ CONFIG
     @ '' || test -e /usr/local/bin/k3s || test -e '' @ unit_path
     @ '' || test -e /etc/systemd/system/k3s.service || test -e /etc/systemd/system/k3s-agent.service''
     @ '' || test -e /var/lib/rancher/k3s; then echo ''
     @ in_quotes ''K3s ownership conflict: existing unmanaged installation'' @ '' >&2; exit 1; fi''"

definition interface_script :: "string \<Rightarrow> string" where
  \<open>interface_script ip =
     ''ip -o -4 address show | awk -v wanted='' @ quote ip @ '' ''
     @ quote ''{ split($4,a,"/"); if(a[1]==wanted){print $2;exit} }''\<close>

abbreviation script_line :: "string \<Rightarrow> string" where
  "script_line s \<equiv> s @ [CHR 10]"

definition install_script :: "cluster_config \<Rightarrow> string" where
  \<open>install_script cluster =
     (let digest = quote (to_ascii_lowercase (cl_sha256 cluster));
          url = quote (''https://github.com/k3s-io/k3s/releases/download/'' @ cl_version cluster @ ''/k3s-arm64'')
      in script_line (''wanted='' @ digest)
         @ script_line (''if test -x /usr/local/bin/k3s && test "$(sha256sum /usr/local/bin/k3s | cut -d''
             @ in_quotes '' '' @ '' -f1)" = "$wanted"; then exit 0; fi'')
         @ script_line ''mkdir -p /usr/local/bin''
         @ script_line ''tmp=$(mktemp /usr/local/bin/.vzctl-k3s.XXXXXX)''
         @ script_line (''trap '' @ in_quotes ''rm -f "$tmp"'' @ '' EXIT'')
         @ script_line (''curl --fail --location --proto '' @ in_quotes ''=https'' @ '' --proto-redir '' @ in_quotes ''=https''
             @ '' --retry 2 --retry-max-time 300 --connect-timeout 15 --max-time 240 --silent --show-error '' @ url @ '' -o "$tmp"'')
         @ script_line ''echo "$wanted  $tmp" | sha256sum -c - >/dev/null''
         @ script_line ''chmod 0755 "$tmp"''
         @ script_line ''mv "$tmp" /usr/local/bin/k3s''
         @ script_line ''echo changed'')\<close>

definition systemd_unit :: "bool \<Rightarrow> string" where
  "systemd_unit server =
     concat (map script_line
       [''[Unit]'', ''Description=vzctl managed K3s'', ''Wants=network-online.target'', ''After=network-online.target'', [],
        ''[Service]'', ''Type=notify'', ''User=root'', ''KillMode=process'', ''Delegate=yes'', ''LimitNOFILE=1048576'',
        ''LimitNPROC=infinity'', ''LimitCORE=infinity'', ''TasksMax=infinity'', ''TimeoutStartSec=180'', ''Restart=always'',
        ''RestartSec=5'', ''ExecStartPre=-/sbin/modprobe br_netfilter'', ''ExecStartPre=-/sbin/modprobe overlay'',
        ''ExecStart=/usr/local/bin/k3s '' @ (if server then ''server'' else ''agent'') @ '' --config '' @ CONFIG, [],
        ''[Install]'', ''WantedBy=multi-user.target''])"

section \<open>Files in a guest\<close>

definition guarded_guest_file ::
    "'w guest_lib \<Rightarrow> environment \<Rightarrow> string \<Rightarrow> string \<Rightarrow> string \<Rightarrow> string \<Rightarrow> ('w, bool) kube" where
  \<open>guarded_guest_file G env vm path guard v =
     kb_bind (kb_of (ok_or ''invalid guest path'' (path_parent path))) (\<lambda>directory.
     let script = ''umask 077; '' @ guard @ ''mkdir -p '' @ quote directory @ ''; tmp=$(mktemp ''
           @ quote (path @ ''.vzctl.XXXXXX'') @ ''); trap '' @ in_quotes ''rm -f "$tmp"''
           @ '' EXIT; cat > "$tmp"; chmod 0600 "$tmp"; if ! cmp -s "$tmp" '' @ quote path @ ''; then mv "$tmp" '' @ quote path
           @ ''; echo changed; fi; chmod 0600 '' @ quote path
     in kb_bind (guest_shell G env vm script v 30) (\<lambda>out. kb_of (Inr (trim out = ''changed''))))\<close>

definition guest_file :: "'w guest_lib \<Rightarrow> environment \<Rightarrow> string \<Rightarrow> string \<Rightarrow> string \<Rightarrow> ('w, bool) kube" where
  "guest_file G env vm path v = guarded_guest_file G env vm path [] v"

section \<open>Ownership and readiness of a node\<close>

definition node_owner :: "environment \<Rightarrow> string \<Rightarrow> cluster_config \<Rightarrow> string \<Rightarrow> json" where
  "node_owner env name cluster vm =
     json_obj [(''managed_by'', JStr ''vzctl''), (''project'', JStr (sp_project (env_spec env))), (''cluster'', JStr name),
       (''server'', JStr (cl_server cluster)), (''node'', JStr vm), (''network'', JStr (cl_network cluster)),
       (''pod_cidr'', JStr (cl_pod_cidr cluster)), (''service_cidr'', JStr (cl_service_cidr cluster))]"

definition node_owned :: "json_lib \<Rightarrow> environment \<Rightarrow> string \<Rightarrow> cluster_config \<Rightarrow> string \<Rightarrow> string \<Rightarrow> (unit, string) result" where
  "node_owned J env name cluster vm actual =
     (if trim actual = [] then Inr ()
      else
        and_then (map_err (\<lambda>_. ''invalid K3s ownership marker'') (jl_parse J actual)) (\<lambda>existing.
          if existing \<noteq> node_owner env name cluster vm then
            Inl (''K3s node '' @ vm
              @ '': ownership or immutable cluster topology changed; explicit migration required'')
          else Inr ()))"

definition check_node_owner ::
    "'w guest_lib \<Rightarrow> json_lib \<Rightarrow> environment \<Rightarrow> string \<Rightarrow> cluster_config \<Rightarrow> string \<Rightarrow> ('w, unit) kube" where
  "check_node_owner G J env name cluster vm =
     kb_bind (guest_shell G env vm owner_script [] 15) (\<lambda>actual. kb_of (node_owned J env name cluster vm actual))"

definition node_ready :: "json \<Rightarrow> string \<Rightarrow> bool" where
  "node_ready node version \<longleftrightarrow>
     json_get (json_get (json_get node ''status'') ''nodeInfo'') ''kubeletVersion'' = JStr version
     \<and> (case json_get (json_get node ''status'') ''conditions'' of
          JArr conditions \<Rightarrow>
            list_ex (\<lambda>c. json_get c ''type'' = JStr ''Ready'' \<and> json_get c ''status'' = JStr ''True'') conditions
        | _ \<Rightarrow> False)"

definition readiness :: "json_lib \<Rightarrow> cluster_config \<Rightarrow> string \<Rightarrow> (unit, string) result" where
  "readiness J cluster raw =
     and_then (map_err (\<lambda>_. ''invalid node readiness inventory'') (jl_parse J raw)) (\<lambda>node.
       if node_ready node (cl_version cluster) then Inr ()
       else Inl (''node is not Ready at pinned version '' @ cl_version cluster))"

definition ready_attempt ::
    "'w guest_lib \<Rightarrow> json_lib \<Rightarrow> environment \<Rightarrow> cluster_config \<Rightarrow> string \<Rightarrow> ('w, unit) kube" where
  "ready_attempt G J env cluster vm =
     kb_bind (guest_kubectl G env cluster
       [''wait'', ''--for=condition=Ready'', ''node/'' @ vm, ''--timeout=10s''] [] 15) (\<lambda>_.
     kb_bind (guest_kubectl G env cluster [''get'', ''node'', vm, ''-o'', ''json''] [] 15) (\<lambda>raw.
       kb_of (readiness J cluster raw)))"

fun wait_loop :: "'w clock \<Rightarrow> nat \<Rightarrow> string \<Rightarrow> ('w, unit) kube \<Rightarrow> nat \<Rightarrow> ('w, unit) kube" where
  "wait_loop C deadline vm attempt 0 = kb_of (Inl ''out of fuel'')"
| "wait_loop C deadline vm attempt (Suc fuel) =
     kb_bind (kb_try attempt) (\<lambda>reply.
       case reply of
         Inr _ \<Rightarrow> kb_of (Inr ())
       | Inl error \<Rightarrow>
           (\<lambda>s. if deadline \<le> ck_now C (ks_world s) then
                  (Inl (''K3s node '' @ vm @ '': readiness deadline exceeded: '' @ error), s)
                else wait_loop C deadline vm attempt fuel (s\<lparr>ks_world := ck_sleep C 2 (ks_world s)\<rparr>)))"

definition wait_ready ::
    "'w clock \<Rightarrow> 'w guest_lib \<Rightarrow> json_lib \<Rightarrow> environment \<Rightarrow> cluster_config \<Rightarrow> string \<Rightarrow> ('w, unit) kube" where
  "wait_ready C G J env cluster vm =
     (\<lambda>s. wait_loop C (ck_now C (ks_world s) + 180) vm (ready_attempt G J env cluster vm) 91 s)"

section \<open>Installing a node\<close>

text \<open>\<open>u32 + 10\<close> wraps in a release build.\<close>

definition cluster_dns :: "'n ipnet_lib \<Rightarrow> cluster_config \<Rightarrow> (string, string) result" where
  "cluster_dns L cluster =
     and_then (net_parse L (cl_service_cidr cluster)) (\<lambda>services. Inr (show_ipv4 (net_network L services + 10)))"

definition node_config ::
    "'n ipnet_lib \<Rightarrow> environment \<Rightarrow> cluster_config \<Rightarrow> string \<Rightarrow> string \<Rightarrow> (json, string) result" where
  "node_config L env cluster vm interface =
     and_then (node_ip env cluster vm) (\<lambda>ip.
     and_then (node_ip env cluster (cl_server cluster)) (\<lambda>server_ip.
     and_then (resolver_upstream L env cluster) (\<lambda>upstream.
       let shared = [(''token-file'', JStr TOKEN), (''node-name'', JStr vm), (''node-ip'', JStr ip),
             (''flannel-iface'', JStr interface),
             (''node-label'', JArr [JStr (''vzctl.dev/project='' @ sp_project (env_spec env))])]
             @ (case upstream of Some _ \<Rightarrow> [(''resolv-conf'', JStr PATH)] | None \<Rightarrow> [])
       in if vm = cl_server cluster then
            and_then (cluster_dns L cluster) (\<lambda>dns.
              Inr (json_obj (shared @
                [(''bind-address'', JStr server_ip), (''advertise-address'', JStr server_ip),
                 (''tls-san'', JArr [JStr server_ip]), (''cluster-cidr'', JStr (cl_pod_cidr cluster)),
                 (''service-cidr'', JStr (cl_service_cidr cluster)), (''cluster-dns'', JStr dns),
                 (''disable'', JArr [JStr ''traefik'', JStr ''servicelb'']), (''write-kubeconfig-mode'', JStr ''0600'')])))
          else Inr (json_obj (shared @ [(''server'', JStr (''https://'' @ server_ip @ '':6443''))])))))"

definition usable_interface :: "string \<Rightarrow> bool" where
  "usable_interface interface \<longleftrightarrow>
     interface \<noteq> [] \<and> list_all (\<lambda>c. is_ascii_alphanumeric c \<or> c \<in> set ''._-'') interface"

definition restart_script :: "bool \<Rightarrow> string" where
  "restart_script changed =
     (if changed then
        ''systemctl daemon-reload; systemctl enable vzctl-k3s.service >/dev/null; systemctl restart vzctl-k3s.service''
      else ''systemctl enable --now vzctl-k3s.service >/dev/null'')"

text \<open>The files of a node; the answer is whether one of them, or the program, has changed.\<close>

definition write_node_files ::
    "'w node_lib \<Rightarrow> 'n ipnet_lib \<Rightarrow> environment \<Rightarrow> string \<Rightarrow> cluster_config \<Rightarrow> string \<Rightarrow> string \<Rightarrow> string \<Rightarrow> string option
     \<Rightarrow> ('w, bool) kube" where
  "write_node_files N L env name cluster vm token interface upstream =
     (let G = nl_guest N; project = sp_project (env_spec env)
      in kb_bind (guest_file G env vm OWNER (jl_text (nl_json N) (node_owner env name cluster vm))) (\<lambda>_.
         kb_bind (guest_shell G env vm (install_script cluster) [] 360) (\<lambda>installed.
         kb_bind (guest_file G env vm TOKEN token) (\<lambda>token_changed.
         kb_bind (case upstream of
             None \<Rightarrow> kb_of (Inr False)
           | Some address \<Rightarrow> guarded_guest_file G env vm PATH (file_guard (nl_sha N) PATH project name)
                 (resolver_contents (nl_sha N) project name address)) (\<lambda>resolver_changed.
         kb_bind (kb_of (node_config L env cluster vm interface)) (\<lambda>config.
         kb_bind (kb_of (nl_yaml N config)) (\<lambda>yaml.
         kb_bind (guest_file G env vm CONFIG yaml) (\<lambda>config_changed.
         kb_bind (guest_file G env vm unit_path (systemd_unit (vm = cl_server cluster))) (\<lambda>unit_changed.
           kb_of (Inr (trim installed = ''changed'' \<or> token_changed \<or> resolver_changed \<or> config_changed \<or> unit_changed)))))))))))"

definition install_node ::
    "'w node_lib \<Rightarrow> 'n ipnet_lib \<Rightarrow> environment \<Rightarrow> string \<Rightarrow> cluster_config \<Rightarrow> string \<Rightarrow> string \<Rightarrow> ('w, unit) kube" where
  "install_node N L env name cluster vm token =
     (let G = nl_guest N; guard = file_guard (nl_sha N) PATH (sp_project (env_spec env)) name
      in kb_bind (kb_of (resolver_upstream L env cluster)) (\<lambda>upstream.
         kb_bind (guest_shell G env vm guard [] 15) (\<lambda>_.
         kb_bind (kb_of (node_ip env cluster vm)) (\<lambda>ip.
         kb_bind (guest_shell G env vm (interface_script ip) [] 15) (\<lambda>out.
           if \<not> usable_interface (trim out) then
             kb_of (Inl (''K3s node '' @ vm @ '': configured IP '' @ ip @ '' has no usable guest interface''))
           else
             kb_bind (write_node_files N L env name cluster vm token (trim out) upstream) (\<lambda>changed.
             kb_bind (guest_shell G env vm (restart_script changed) [] 200) (\<lambda>_.
               if upstream = None then
                 kb_bind (guest_shell G env vm (guard @ ''rm -f -- '' @ quote PATH) [] 15) (\<lambda>_. kb_of (Inr ()))
               else kb_of (Inr ()))))))))"

section \<open>The cluster\<close>

definition cluster_directory :: "string \<Rightarrow> string \<Rightarrow> string \<Rightarrow> string" where
  "cluster_directory state project cluster =
     path_join (path_join (path_join (path_join state ''projects'') project) ''kubernetes'') cluster"

definition hex_text :: "string \<Rightarrow> string" where
  "hex_text bytes = concat (map (\<lambda>b. [hex_digit (byte b div 16), hex_digit (byte b mod 16)]) bytes)"

definition ensure_token :: "'w node_lib \<Rightarrow> string \<Rightarrow> ('w, string) kube" where
  "ensure_token N directory =
     kb_bind (kb_host (nl_token_file N (path_join directory ''server-token''))) (\<lambda>file.
       case file of
         Created bytes \<Rightarrow> kb_of (Inr (hex_text bytes))
       | Existing token \<Rightarrow>
           if length token \<noteq> 64 \<or> \<not> list_all is_hex_digit token then
             kb_of (Inl ''invalid saved K3s token; refusing to rotate cluster credentials implicitly'')
           else kb_of (Inr token))"

definition apply_object ::
    "'w node_lib \<Rightarrow> environment \<Rightarrow> string \<Rightarrow> cluster_config \<Rightarrow> json \<Rightarrow> ('w, unit) kube" where
  "apply_object N env name cluster v =
     via_guest (apply_owned_object (guest_kubectl (nl_guest N) env cluster) (nl_json N) (sp_project (env_spec env)) name cluster v)"

text \<open>An object with our labels, applied.\<close>

definition apply_as_owned ::
    "'w node_lib \<Rightarrow> environment \<Rightarrow> string \<Rightarrow> cluster_config \<Rightarrow> json \<Rightarrow> ('w, unit) kube" where
  "apply_as_owned N env name cluster v =
     kb_bind (kb_of (owned (nl_manifests N) v (sp_project (env_spec env)) name)) (apply_object N env name cluster)"

definition ensure_namespace :: "'w node_lib \<Rightarrow> environment \<Rightarrow> string \<Rightarrow> cluster_config \<Rightarrow> ('w, unit) kube" where
  "ensure_namespace N env name cluster =
     kb_bind (guest_kubectl (nl_guest N) env cluster
       [''get'', ''namespace'', cl_default_namespace cluster, ''--ignore-not-found'', ''-o'', ''name''] [] 30) (\<lambda>out.
       if trim out = [] then
         apply_as_owned N env name cluster
           (json_obj [(''apiVersion'', JStr ''v1''), (''kind'', JStr ''Namespace''),
              (''metadata'', json_obj [(''name'', JStr (cl_default_namespace cluster))])])
       else kb_of (Inr ()))"

fun apply_manifests ::
    "'w node_lib \<Rightarrow> environment \<Rightarrow> string \<Rightarrow> string \<Rightarrow> cluster_config \<Rightarrow> string list \<Rightarrow> nat \<Rightarrow> ('w, nat) kube" where
  "apply_manifests N env base name cluster [] n = kb_of (Inr n)"
| "apply_manifests N env base name cluster (path # paths) n =
     kb_bind (kb_of (read_manifest (nl_manifests N) (path_join base path))) (\<lambda>objects.
     kb_bind (kb_each (apply_as_owned N env name cluster) objects) (\<lambda>_.
       apply_manifests N env base name cluster paths (n + length objects)))"

definition install_agents ::
    "'w node_lib \<Rightarrow> 'n ipnet_lib \<Rightarrow> environment \<Rightarrow> string \<Rightarrow> cluster_config \<Rightarrow> string \<Rightarrow> ('w, unit) kube" where
  "install_agents N L env name cluster token =
     kb_each (\<lambda>vm. kb_bind (install_node N L env name cluster vm token) (\<lambda>_.
       wait_ready (nl_clock N) (nl_guest N) (nl_json N) env cluster vm)) (cl_agents cluster)"

text \<open>The server, the token that binds agents to it, the agents.\<close>

definition install_cluster ::
    "'w node_lib \<Rightarrow> 'n ipnet_lib \<Rightarrow> environment \<Rightarrow> string \<Rightarrow> string \<Rightarrow> cluster_config \<Rightarrow> ('w, unit) kube" where
  "install_cluster N L env directory name cluster =
     kb_bind (ensure_token N directory) (\<lambda>token.
     kb_bind (install_node N L env name cluster (cl_server cluster) token) (\<lambda>_.
     kb_bind (wait_ready (nl_clock N) (nl_guest N) (nl_json N) env cluster (cl_server cluster)) (\<lambda>_.
     kb_bind (guest_shell (nl_guest N) env (cl_server cluster) ''cat /var/lib/rancher/k3s/server/token'' [] 15) (\<lambda>secure.
       if \<not> starts_with (trim secure) ''K10'' then
         kb_of (Inl (''K3s cluster '' @ name @ '': server did not produce a CA-bound join token''))
       else
         kb_bind (kb_host (nl_write_private N (path_join directory ''agent-token'') (trim secure))) (\<lambda>_.
           install_agents N L env name cluster (trim secure))))))"

text \<open>What the cluster runs: the resolver, the resource definitions, the namespace, the manifests.\<close>

definition populate_cluster ::
    "'w node_lib \<Rightarrow> 'n ipnet_lib \<Rightarrow> environment \<Rightarrow> json list \<Rightarrow> string \<Rightarrow> string \<Rightarrow> string \<Rightarrow> cluster_config \<Rightarrow> ('w, unit) kube" where
  "populate_cluster N L env definitions base directory name cluster =
     kb_bind (kb_of (resolver_upstream L env cluster)) (\<lambda>upstream.
     kb_bind (via_guest (rollout (guest_kubectl (nl_guest N) env cluster) (nl_json N) (nl_sha N)
         (sp_project (env_spec env)) name upstream)) (\<lambda>_.
     kb_bind (kb_each (apply_as_owned N env name cluster) definitions) (\<lambda>_.
     kb_bind (ensure_namespace N env name cluster) (\<lambda>_.
     kb_bind (apply_manifests N env base name cluster (cl_manifests cluster) 0) (\<lambda>n.
       kb_host (nl_write_private N (path_join directory ''last-apply.json'')
         (jl_text (nl_json N) (json_obj [(''version'', JStr (cl_version cluster)),
            (''resources'', JNum (show_nat n)), (''status'', JStr ''ready'')]))))))))"

section \<open>ensure\<close>

definition preflight_node ::
    "'w node_lib \<Rightarrow> environment \<Rightarrow> string \<Rightarrow> cluster_config \<Rightarrow> string \<Rightarrow> ('w, unit) kube" where
  "preflight_node N env name cluster vm =
     kb_bind (guest_shell (nl_guest N) env vm (file_guard (nl_sha N) PATH (sp_project (env_spec env)) name) [] 15) (\<lambda>_.
     kb_bind (guest_shell (nl_guest N) env vm systemd_check [] 15) (\<lambda>_.
       check_node_owner (nl_guest N) (nl_json N) env name cluster vm))"

definition preflight_manifest :: "manifest_lib \<Rightarrow> string \<Rightarrow> string \<Rightarrow> string \<Rightarrow> ('w, unit) kube" where
  "preflight_manifest lib project name path =
     kb_bind (kb_of (read_manifest lib path)) (\<lambda>objects.
       kb_each (\<lambda>v. kb_bind (kb_of (owned lib v project name)) (\<lambda>_. kb_of (Inr ()))) objects)"

definition preflight_cluster ::
    "'w node_lib \<Rightarrow> 'n ipnet_lib \<Rightarrow> environment \<Rightarrow> string \<Rightarrow> string \<times> cluster_config \<Rightarrow> ('w, unit) kube" where
  "preflight_cluster N L env base e =
     (let (name, cluster) = e
      in kb_bind (kb_of (resolver_upstream L env cluster)) (\<lambda>_.
         kb_bind (kb_each (preflight_node N env name cluster) (cl_server cluster # cl_agents cluster)) (\<lambda>_.
           kb_each (\<lambda>path. preflight_manifest (nl_manifests N) (sp_project (env_spec env)) name (path_join base path))
             (cl_manifests cluster))))"

definition reconcile_cluster ::
    "'w node_lib \<Rightarrow> 'n ipnet_lib \<Rightarrow> environment \<Rightarrow> json list \<Rightarrow> string \<Rightarrow> string \<Rightarrow> string \<times> cluster_config \<Rightarrow> ('w, unit) kube" where
  "reconcile_cluster N L env definitions base state e =
     (let (name, cluster) = e; directory = cluster_directory state (sp_project (env_spec env)) name
      in kb_bind (install_cluster N L env directory name cluster) (\<lambda>_.
         populate_cluster N L env definitions base directory name cluster))"

definition ensure_clusters ::
    "'w node_lib \<Rightarrow> 'n ipnet_lib \<Rightarrow> environment \<Rightarrow> json list \<Rightarrow> string \<Rightarrow> string \<Rightarrow> ('w, unit) kube" where
  "ensure_clusters N L env definitions base state =
     (let clusters = k8s_clusters (sp_kubernetes (env_spec env))
      in kb_bind (kb_each (preflight_cluster N L env base) clusters) (\<lambda>_.
         kb_each (reconcile_cluster N L env definitions base state) clusters))"

end
