(* ===== verification/KubeEnsure.thy ===== *)
theory KubeEnsure
  imports KubeNodes
begin

text \<open>
  What \<open>ensure\<close> guarantees (\<open>KubeNodes\<close>). Its log is kept in stages: as long as not every node of every
  cluster has passed its checks, the only commands are those checks, which read. Installation begins afterwards, and
  \<open>ensure\<close> returns only when every node has been seen ready at the pinned version.
\<close>

section \<open>The checks\<close>

definition all_clusters :: "environment \<Rightarrow> (string \<times> cluster_config) list" where
  "all_clusters env = k8s_clusters (sp_kubernetes (env_spec env))"

definition check_scripts :: "'w node_lib \<Rightarrow> environment \<Rightarrow> string \<Rightarrow> string list" where
  "check_scripts N env name =
     [file_guard (nl_sha N) PATH (sp_project (env_spec env)) name, systemd_check, owner_script]"

definition is_check :: "'w node_lib \<Rightarrow> environment \<Rightarrow> event \<Rightarrow> bool" where
  "is_check N env e \<longleftrightarrow>
     ev_input e = []
     \<and> (\<exists>(name, cluster) \<in> set (all_clusters env). \<exists>vm \<in> set (cluster_nodes cluster).
          \<exists>script \<in> set (check_scripts N env name). ev_args e = vm # script_command script)"

definition node_checked :: "'w node_lib \<Rightarrow> environment \<Rightarrow> string \<Rightarrow> cluster_config \<Rightarrow> string \<Rightarrow> event list \<Rightarrow> bool" where
  "node_checked N env name cluster vm log \<longleftrightarrow>
     (\<forall>script \<in> set (check_scripts N env name).
        \<exists>e \<in> set log. ev_args e = vm # script_command script \<and> is_ok (ev_reply e))
     \<and> (\<exists>e \<in> set log. \<exists>raw. ev_args e = vm # script_command owner_script \<and> ev_reply e = Inr raw
          \<and> node_owned (nl_json N) env name cluster vm raw = Inr ())"

definition all_checked :: "'w node_lib \<Rightarrow> environment \<Rightarrow> event list \<Rightarrow> bool" where
  "all_checked N env log \<longleftrightarrow>
     (\<forall>(name, cluster) \<in> set (all_clusters env). \<forall>vm \<in> set (cluster_nodes cluster). node_checked N env name cluster vm log)"

fun staged :: "'w node_lib \<Rightarrow> environment \<Rightarrow> event list \<Rightarrow> bool" where
  "staged N env [] \<longleftrightarrow> True"
| "staged N env (e # log) \<longleftrightarrow> staged N env log \<and> (is_check N env e \<or> all_checked N env log)"

interpretation ensure_log: call_policy "staged N env" "is_check N env"
  for N env
  by unfold_locales simp

lemma lasting_node_checked: "lasting (node_checked N env name cluster vm)"
  by (fastforce simp: lasting_def node_checked_def)

lemma lasting_all_checked: "lasting (all_checked N env)"
  using lasting_node_checked unfolding lasting_def all_checked_def by fast

lemma staged_append: "staged N env log \<Longrightarrow> all_checked N env log \<Longrightarrow> staged N env (es @ log)"
  by (induction es) (use lasting_all_checked in \<open>auto simp: lasting_def\<close>)

section \<open>Operations add to the log\<close>

lemma extends_exec [extends_intros]: "extends (guest_exec G env vm cmd input seconds)"
  unfolding guest_exec_def by (intro extends_intros)

lemma extends_shell [extends_intros]: "extends (guest_shell G env vm script input seconds)"
  unfolding guest_shell_def by (intro extends_intros)

lemma extends_kubectl [extends_intros]: "extends (guest_kubectl G env cluster args input seconds)"
  unfolding guest_kubectl_def by (intro extends_intros)

lemma extends_host [extends_intros]: "extends (kb_host f)"
  by (simp add: extends_def kb_host_def split_beta)

text \<open>An operation over \<open>kubectl\<close> adds to the log of the guests what its calls add.\<close>

lemma extends_via_guest:
  assumes "\<And>I. kept_by (guest_kubectl G env cluster) I \<Longrightarrow> keeps I m"
  shows "extends (via_guest m)"
  unfolding extends_def
proof
  fix s :: "'a kube_session"
  have "kept_by (guest_kubectl G env cluster) (\<lambda>t. \<exists>es. ks_log t = es @ ks_log s)"
    unfolding kept_by_def
  proof (intro allI impI)
    fix args input seconds and t :: "'a kube_session"
    assume "\<exists>es. ks_log t = es @ ks_log s"
    moreover obtain ds where "ks_log (snd (guest_kubectl G env cluster args input seconds t)) = ds @ ks_log t"
      using extends_kubectl unfolding extends_def by blast
    ultimately show "\<exists>es. ks_log (snd (guest_kubectl G env cluster args input seconds t)) = es @ ks_log s" by auto
  qed
  from assms [OF this] show "\<exists>es. ks_log (snd (via_guest m s)) = es @ ks_log s"
    by (simp add: keeps_def via_guest_def new_session_def split_beta)
qed

lemma extends_apply_object [extends_intros]: "extends (apply_object N env name cluster v)"
  unfolding apply_object_def by (rule extends_via_guest) (rule keeps_apply)

lemma extends_rollout [extends_intros]:
  "extends (via_guest (rollout (guest_kubectl G env cluster) J sha project name upstream))"
  by (rule extends_via_guest) (rule keeps_rollout)

lemma extends_delayed:
  assumes "extends m"
  shows "extends (\<lambda>s. if c s then (r, s) else m (s\<lparr>ks_world := g s\<rparr>))"
  unfolding extends_def
proof
  fix s
  obtain es where "ks_log (snd (m (s\<lparr>ks_world := g s\<rparr>))) = es @ ks_log s"
    using assms [unfolded extends_def, rule_format, of "s\<lparr>ks_world := g s\<rparr>"] by auto
  then show "\<exists>es. ks_log (snd (if c s then (r, s) else m (s\<lparr>ks_world := g s\<rparr>))) = es @ ks_log s" by simp
qed

lemma extends_wait_loop [extends_intros]: "extends attempt \<Longrightarrow> extends (wait_loop C deadline vm attempt fuel)"
proof (induction fuel)
  case 0
  then show ?case by (simp add: extends_of)
next
  case (Suc fuel)
  note extends_delayed [OF Suc.IH [OF Suc.prems]]
  then show ?case by (simp only: wait_loop.simps) (intro extends_intros Suc.prems)
qed

lemma extends_wait_ready [extends_intros]: "extends (wait_ready C G J env cluster vm)"
proof -
  have "extends (wait_loop C deadline vm (ready_attempt G J env cluster vm) 91)" for deadline
    unfolding ready_attempt_def by (intro extends_intros)
  then show ?thesis unfolding extends_def wait_ready_def by blast
qed

lemma extends_file [extends_intros]: "extends (guarded_guest_file G env vm path guard v)" "extends (guest_file G env vm path v)"
  unfolding guest_file_def guarded_guest_file_def Let_def by (intro extends_intros)+

lemma extends_install_node [extends_intros]: "extends (install_node N L env name cluster vm token)"
  unfolding install_node_def write_node_files_def Let_def by (intro extends_intros)

lemma extends_token [extends_intros]: "extends (ensure_token N directory)"
  unfolding ensure_token_def by (intro extends_intros) (auto split: token_file.split intro!: extends_intros)

lemma extends_apply_manifests [extends_intros]: "extends (apply_manifests N env base name cluster paths n)"
  by (induction paths arbitrary: n) (auto simp: apply_as_owned_def intro!: extends_intros)

lemma extends_reconcile [extends_intros]: "extends (reconcile_cluster N L env definitions base state e)"
  unfolding reconcile_cluster_def install_cluster_def populate_cluster_def install_agents_def ensure_namespace_def
    apply_as_owned_def Let_def
  by (intro extends_intros)

lemma extends_preflight [extends_intros]: "extends (preflight_cluster N L env base e)" "extends (preflight_node N env name cluster vm)"
  unfolding preflight_cluster_def preflight_node_def preflight_manifest_def check_node_owner_def Let_def
  by (intro extends_intros)+

section \<open>The checks come first\<close>

lemma valid_extends:
  fixes m :: "('v, 'a) kube"
  assumes "extends m"
  shows "call_policy.valid (staged N env) (all_checked N env) m (\<lambda>_ _. True)"
  unfolding ensure_log.valid_def
proof (intro allI impI conjI TrueI)
  fix s :: "'v kube_session" assume "staged N env (ks_log s) \<and> all_checked N env (ks_log s)"
  moreover obtain es where "ks_log (snd (m s)) = es @ ks_log s" using assms unfolding extends_def by blast
  ultimately show "staged N env (ks_log (snd (m s)))" by (simp add: staged_append)
qed

lemma valid_check:
  assumes "e \<in> set (all_clusters env)" and "vm \<in> set (cluster_nodes (snd e))" and "script \<in> set (check_scripts N env (fst e))"
  shows "call_policy.valid (staged N env) (\<lambda>_. True) (guest_shell G env vm script [] 15) (\<lambda>_ _. True)"
proof -
  have "call_policy.valid (staged N env) (\<lambda>_. True) (kb_call K (vm # script_command script) [] 15) (\<lambda>_ _. True)" for K :: "'b kubectl"
    by (rule ensure_log.valid_weaken [OF ensure_log.valid_read [where P = "\<lambda>_. True"]])
      (use assms in \<open>force simp: is_check_def\<close>)+
  then show ?thesis by (simp add: guest_shell_def guest_exec_def)
qed

lemma check_script_members:
  "file_guard (nl_sha N) PATH (sp_project (env_spec env)) name \<in> set (check_scripts N env name)"
  "systemd_check \<in> set (check_scripts N env name)" "owner_script \<in> set (check_scripts N env name)"
  by (simp_all add: check_scripts_def)

lemma valid_preflight_node:
  assumes "(name, cluster) \<in> set (all_clusters env)" and "vm \<in> set (cluster_nodes cluster)"
  shows "call_policy.valid (staged N env) (\<lambda>_. True) (preflight_node N env name cluster vm) (\<lambda>_ _. True)"
proof -
  note check = valid_check [of "(name, cluster)" env vm _ N, simplified, OF assms]
  show ?thesis
    unfolding preflight_node_def check_node_owner_def
    by (intro ensure_log.valid_bind [OF check] ensure_log.valid_of check_script_members) simp
qed

lemma valid_each_true:
  "(\<And>x. x \<in> set xs \<Longrightarrow> call_policy.valid (staged N env) (\<lambda>_. True) (f x) (\<lambda>_ _. True)) \<Longrightarrow>
    call_policy.valid (staged N env) (\<lambda>_. True) (kb_each f xs) (\<lambda>_ _. True)"
  by (induction xs) (auto intro: ensure_log.valid_of ensure_log.valid_bind)

lemma valid_preflight_cluster:
  assumes "e \<in> set (all_clusters env)"
  shows "call_policy.valid (staged N env) (\<lambda>_. True) (preflight_cluster N L env base e) (\<lambda>_ _. True)"
proof -
  have manifest: "call_policy.valid (staged N env) (\<lambda>_. True) (preflight_manifest lib project name path) (\<lambda>_ _. True)"
    for lib project name path
    unfolding preflight_manifest_def
    by (rule ensure_log.valid_bind [OF ensure_log.valid_of [where Q = "\<lambda>_ _. True"]], simp, rule valid_each_true,
        rule ensure_log.valid_bind [OF ensure_log.valid_of [where Q = "\<lambda>_ _. True"]], simp, rule ensure_log.valid_of, simp)
  show ?thesis
    unfolding preflight_cluster_def
    using assms
    by (auto simp: cluster_nodes_def simp del: kb_each.simps
        intro!: ensure_log.valid_bind [OF ensure_log.valid_of] ensure_log.valid_bind [OF valid_each_true] valid_each_true
          valid_preflight_node manifest split: prod.split)
qed

lemma establishes_call:
  "establishes (guest_shell G env vm script [] seconds)
    (\<lambda>log. \<exists>e \<in> set log. ev_args e = vm # script_command script \<and> is_ok (ev_reply e))"
  by (auto simp: establishes_def guest_shell_def guest_exec_def kb_call_def is_ok_def split_beta)

lemma lasting_event: "lasting (\<lambda>log. \<exists>e \<in> set log. P e)"
  by (auto simp: lasting_def)

lemma establishes_owner:
  "establishes (check_node_owner G J env name cluster vm)
    (\<lambda>log. \<exists>e \<in> set log. \<exists>raw. ev_args e = vm # script_command owner_script \<and> ev_reply e = Inr raw
      \<and> node_owned J env name cluster vm raw = Inr ())"
  by (auto simp: establishes_def check_node_owner_def guest_shell_def guest_exec_def kb_bind_def kb_of_def kb_call_def split_beta
      split: sum.splits)

lemma establishes_node: "establishes (preflight_node N env name cluster vm) (node_checked N env name cluster vm)"
proof -
  have owner: "extends (check_node_owner G J env name cluster vm)" for G J
    unfolding check_node_owner_def by (intro extends_intros)
  have owner_ran: "establishes (check_node_owner G J env name cluster vm)
      (\<lambda>log. \<exists>e \<in> set log. ev_args e = vm # script_command owner_script \<and> is_ok (ev_reply e))" for G J
    by (rule establishes_weaken [OF establishes_owner]) (auto simp: is_ok_def)
  have guard: "establishes (preflight_node N env name cluster vm) (\<lambda>log. \<exists>e \<in> set log.
      ev_args e = vm # script_command (file_guard (nl_sha N) PATH (sp_project (env_spec env)) name) \<and> is_ok (ev_reply e))"
    unfolding preflight_node_def by (rule establishes_first [OF establishes_call lasting_event]) (intro extends_intros owner)
  have systemd: "establishes (preflight_node N env name cluster vm) (\<lambda>log. \<exists>e \<in> set log.
      ev_args e = vm # script_command systemd_check \<and> is_ok (ev_reply e))"
    unfolding preflight_node_def
    by (rule establishes_second, rule establishes_first [OF establishes_call lasting_event]) (rule owner)
  have read: "establishes (preflight_node N env name cluster vm) (\<lambda>log. \<exists>e \<in> set log.
      ev_args e = vm # script_command owner_script \<and> is_ok (ev_reply e))"
    unfolding preflight_node_def by (intro establishes_second owner_ran)
  have owned: "establishes (preflight_node N env name cluster vm) (\<lambda>log. \<exists>e \<in> set log. \<exists>raw.
      ev_args e = vm # script_command owner_script \<and> ev_reply e = Inr raw
      \<and> node_owned (nl_json N) env name cluster vm raw = Inr ())"
    unfolding preflight_node_def by (intro establishes_second establishes_owner)
  show ?thesis
    using guard systemd read owned unfolding establishes_def node_checked_def check_scripts_def by auto
qed

lemma establishes_all_checked:
  "establishes (kb_each (preflight_cluster N L env base) (all_clusters env)) (all_checked N env)"
proof -
  have "establishes (kb_each (preflight_cluster N L env base) (all_clusters env)) (node_checked N env name cluster vm)"
    if "(name, cluster) \<in> set (all_clusters env)" "vm \<in> set (cluster_nodes cluster)" for name cluster vm
  proof (rule establishes_each [OF that(1) _ lasting_node_checked])
    have nodes: "establishes (kb_each (preflight_node N env name cluster) (cl_server cluster # cl_agents cluster))
        (node_checked N env name cluster vm)"
      using that(2) unfolding cluster_nodes_def
      by (intro establishes_each [OF _ establishes_node lasting_node_checked] extends_intros)
    show "establishes (preflight_cluster N L env base (name, cluster)) (node_checked N env name cluster vm)"
      unfolding preflight_cluster_def prod.case preflight_manifest_def Let_def
      by (intro establishes_second establishes_first [OF nodes lasting_node_checked] extends_intros)
  qed (intro extends_intros)
  then show ?thesis unfolding establishes_def all_checked_def by blast
qed

lemma valid_ensure:
  "call_policy.valid (staged N env) (\<lambda>_. True) (ensure_clusters N L env definitions base state) (\<lambda>_ _. True)"
proof -
  have "call_policy.valid (staged N env) (\<lambda>_. True) (kb_each (preflight_cluster N L env base) (all_clusters env)) (\<lambda>_ _. True)"
    by (intro valid_each_true valid_preflight_cluster)
  then have first: "call_policy.valid (staged N env) (\<lambda>_. True) (kb_each (preflight_cluster N L env base) (all_clusters env))
      (\<lambda>_. all_checked N env)"
    using establishes_all_checked unfolding ensure_log.valid_def establishes_def by blast
  show ?thesis
    unfolding ensure_clusters_def Let_def all_clusters_def [symmetric]
    by (rule ensure_log.valid_bind [OF first valid_extends]) (intro extends_intros)
qed

section \<open>Ready nodes\<close>

definition ready_seen :: "'w node_lib \<Rightarrow> environment \<Rightarrow> cluster_config \<Rightarrow> string \<Rightarrow> event list \<Rightarrow> bool" where
  "ready_seen N env cluster vm log \<longleftrightarrow>
     (\<exists>e \<in> set log. \<exists>ip raw node. node_ip env cluster (cl_server cluster) = Inr ip
        \<and> ev_args e = cl_server cluster # kubectl_command cluster ip [''get'', ''node'', vm, ''-o'', ''json''] 15
        \<and> ev_reply e = Inr raw \<and> jl_parse (nl_json N) raw = Inr node \<and> node_ready node (cl_version cluster))"

lemma lasting_ready: "lasting (ready_seen N env cluster vm)"
  unfolding ready_seen_def by (rule lasting_event)

lemma establishes_attempt:
  "establishes (ready_attempt (nl_guest N) (nl_json N) env cluster vm) (ready_seen N env cluster vm)"
  unfolding ready_attempt_def
  by (rule establishes_second)
    (auto simp: establishes_def guest_kubectl_def guest_exec_def kb_bind_def kb_of_def kb_call_def split_beta ready_seen_def
      readiness_def split: sum.splits if_splits)

lemma establishes_wait_loop:
  "establishes attempt Q \<Longrightarrow> lasting Q \<Longrightarrow> establishes (wait_loop C deadline vm attempt fuel) Q"
proof (induction fuel)
  case 0
  then show ?case by (simp add: establishes_def kb_of_def)
next
  case (Suc fuel)
  note again = Suc.IH [OF Suc.prems, unfolded establishes_def, rule_format]
  show ?case
    unfolding establishes_def
  proof (intro allI impI)
    fix s x assume ok: "fst (wait_loop C deadline vm attempt (Suc fuel) s) = Inr x"
    obtain r t where run: "attempt s = (r, t)" by fastforce
    show "Q (ks_log (snd (wait_loop C deadline vm attempt (Suc fuel) s)))"
    proof (cases r)
      case (Inr y)
      then have "Q (ks_log t)" using Suc.prems(1) run unfolding establishes_def by (metis fst_conv snd_conv)
      then show ?thesis using run Inr by (simp add: kb_bind_def kb_try_def kb_of_def)
    next
      case (Inl e)
      then show ?thesis using run ok again by (auto simp: kb_bind_def kb_try_def split: if_splits)
    qed
  qed
qed

lemma establishes_wait:
  "establishes (wait_ready C (nl_guest N) (nl_json N) env cluster vm) (ready_seen N env cluster vm)"
  using establishes_wait_loop [OF establishes_attempt lasting_ready]
  unfolding establishes_def wait_ready_def by blast

lemma establishes_cluster:
  assumes "vm \<in> set (cluster_nodes cluster)"
  shows "establishes (reconcile_cluster N L env definitions base state (name, cluster)) (ready_seen N env cluster vm)"
proof -
  have agents: "establishes (install_agents N L env name cluster token) (ready_seen N env cluster vm)"
    if "vm \<in> set (cl_agents cluster)" for token
    unfolding install_agents_def
    by (rule establishes_each [OF that _ lasting_ready])
      (auto intro!: establishes_second establishes_wait extends_intros)
  have "establishes (install_cluster N L env directory name cluster) (ready_seen N env cluster vm)" for directory
  proof (cases "vm = cl_server cluster")
    case True
    show ?thesis
      unfolding install_cluster_def True install_agents_def
      by (intro establishes_second establishes_first [OF establishes_wait lasting_ready] extends_intros)
  next
    case False
    then have "vm \<in> set (cl_agents cluster)" using assms by (simp add: cluster_nodes_def)
    from agents [OF this] show ?thesis
      unfolding install_cluster_def
      by (intro establishes_second establishes_if establishes_error)
  qed
  then show ?thesis
    unfolding reconcile_cluster_def prod.case Let_def populate_cluster_def ensure_namespace_def apply_as_owned_def
    by (intro establishes_first [OF _ lasting_ready] extends_intros)
qed

lemma establishes_ensure:
  assumes "(name, cluster) \<in> set (all_clusters env)" and "vm \<in> set (cluster_nodes cluster)"
  shows "establishes (ensure_clusters N L env definitions base state) (node_checked N env name cluster vm)"
    and "establishes (ensure_clusters N L env definitions base state) (ready_seen N env cluster vm)"
proof -
  have "establishes (kb_each (preflight_cluster N L env base) (all_clusters env)) (node_checked N env name cluster vm)"
    by (rule establishes_weaken [OF establishes_all_checked]) (use assms in \<open>auto simp: all_checked_def\<close>)
  then show "establishes (ensure_clusters N L env definitions base state) (node_checked N env name cluster vm)"
    unfolding ensure_clusters_def Let_def all_clusters_def [symmetric]
    by (rule establishes_first [OF _ lasting_node_checked]) (intro extends_intros)
  show "establishes (ensure_clusters N L env definitions base state) (ready_seen N env cluster vm)"
    unfolding ensure_clusters_def Let_def all_clusters_def [symmetric]
    by (rule establishes_second, rule establishes_each [OF assms(1)], rule establishes_cluster [OF assms(2)],
        rule lasting_ready, intro extends_intros)
qed

section \<open>Waiting ends\<close>

text \<open>The fuel is enough: at the pace of two seconds the deadline is reached before it runs out.\<close>

lemma wait_loop_deadline:
  assumes "clock_laws C" and "\<And>s. ck_now C (ks_world s) \<le> ck_now C (ks_world (snd (attempt s)))"
    and "deadline \<le> ck_now C (ks_world s) + 2 * fuel"
  shows "wait_loop C deadline vm attempt (Suc fuel + more_fuel) s = wait_loop C deadline vm attempt (Suc fuel) s"
  using assms(3)
proof (induction fuel arbitrary: s)
  case 0
  obtain r t where run: "attempt s = (r, t)" by fastforce
  have "deadline \<le> ck_now C (ks_world t)" using 0 assms(2) [of s] run by simp
  then show ?case using run by (cases r) (simp_all add: kb_bind_def kb_try_def kb_of_def)
next
  case (Suc fuel)
  obtain r t where run: "attempt s = (r, t)" by fastforce
  have "ck_now C (ks_world t) + 2 \<le> ck_now C (ck_sleep C 2 (ks_world t))"
    using assms(1) unfolding clock_laws_def by blast
  then have "deadline \<le> ck_now C (ks_world (t\<lparr>ks_world := ck_sleep C 2 (ks_world t)\<rparr>)) + 2 * fuel"
    using Suc.prems assms(2) [of s] run by simp
  from Suc.IH [OF this] show ?case
    using run by (cases r) (simp_all add: kb_bind_def kb_try_def kb_of_def)
qed

section \<open>A cluster that answers\<close>

definition returns :: "('w, 'a) kube \<Rightarrow> 'a \<Rightarrow> bool" where
  "returns m x \<longleftrightarrow> (\<forall>s. fst (m s) = Inr x)"

named_theorems returns_intros \<open>operations that return\<close>

lemma returns_of [returns_intros]: "returns (kb_of (Inr x)) x"
  by (simp add: returns_def kb_of_def)

lemma returns_bind [returns_intros]: "returns m x \<Longrightarrow> returns (k x) y \<Longrightarrow> returns (kb_bind m k) y"
  by (auto simp: returns_def kb_bind_def split: prod.split sum.split) (metis fst_conv sum.inject(2) old.sum.distinct(1))+

lemma returns_call [returns_intros]: "(\<And>w. fst (K args input seconds w) = Inr x) \<Longrightarrow> returns (kb_call K args input seconds) x"
  by (simp add: returns_def kb_call_def split_beta)

lemma returns_host [returns_intros]: "(\<And>w. fst (f w) = Inr x) \<Longrightarrow> returns (kb_host f) x"
  by (simp add: returns_def kb_host_def split_beta)

lemma returns_via [returns_intros]: "returns m x \<Longrightarrow> returns (via_guest m) x"
  by (simp add: returns_def via_guest_def split_beta)

lemma returns_wait [returns_intros]:
  "returns (ready_attempt G J env cluster vm) () \<Longrightarrow> returns (wait_ready C G J env cluster vm) ()"
  by (auto simp: returns_def wait_ready_def numeral_eq_Suc kb_bind_def kb_try_def kb_of_def split_beta)

definition answering_guest :: "unit guest_lib" where
  "answering_guest =
     \<lparr>gl_exchange = (\<lambda>timeout request w.
        (Inr (json_obj [(''result'', json_obj [(''exit'', JNum ''0''),
           (''stdout'', JStr (if JStr owner_script \<in> set (json_items (json_get (json_get request ''params'') ''cmd''))
              then [] else ''K10''))])]), w)),
      gl_base64 = (\<lambda>s. s)\<rparr>"

definition ready_node :: json where
  "ready_node =
     json_obj [(''status'', json_obj
       [(''nodeInfo'', json_obj [(''kubeletVersion'', JStr ''v1.30.0+k3s1'')]),
        (''conditions'', JArr [json_obj [(''type'', JStr ''Ready''), (''status'', JStr ''True'')]])])]"

definition sample_nodes :: "unit node_lib" where
  "sample_nodes =
     \<lparr>nl_guest = answering_guest, nl_json = \<lparr>jl_parse = (\<lambda>_. Inr ready_node), jl_text = (\<lambda>_. ''{}'')\<rparr>,
      nl_manifests = sample_lib, nl_yaml = (\<lambda>_. Inr ''{}''),
      nl_token_file = (\<lambda>_ w. (Inr (Existing (replicate 64 CHR ''a'')), w)),
      nl_write_private = (\<lambda>_ _ w. (Inr (), w)), nl_clock = \<lparr>ck_now = (\<lambda>_. 0), ck_sleep = (\<lambda>_ w. w)\<rparr>\<rparr>"

definition node_cluster :: cluster_config where
  "node_cluster = sample_cluster\<lparr>cl_manifests := []\<rparr>"

definition node_env :: environment where
  "node_env = sample_env\<lparr>env_spec := (env_spec sample_env)\<lparr>
     sp_dns := (sp_dns (env_spec sample_env))\<lparr>dns_enabled := False\<rparr>,
     sp_kubernetes := \<lparr>k8s_clusters = [(''edge'', node_cluster)]\<rparr>\<rparr>\<rparr>"

lemma answering_run:
  "fst (run_in_guest answering_guest project (vm # cmd) input seconds w) =
    Inr (if owner_script \<in> set cmd then [] else ''K10'')"
proof -
  have "JStr owner_script \<in> set (map JStr cmd) \<longleftrightarrow> owner_script \<in> set cmd" by auto
  then show ?thesis
    by (simp add: vm_rpc_def answering_guest_def rpc_request_def exec_params_def json_items_def vm_response_def
        json_find_def json_obj_def exec_result_def exec_simps split_beta)
qed

lemma node_scripts:
  "owner_script \<noteq> file_guard sha path project cluster" "owner_script \<noteq> systemd_check" "owner_script \<noteq> interface_script ip"
  "owner_script \<noteq> install_script cl" "owner_script \<noteq> restart_script b"
  "owner_script \<noteq> ''cat /var/lib/rancher/k3s/server/token''" "owner_script \<noteq> ''umask 077; '' @ t"
  "owner_script \<noteq> file_guard sha path project cluster @ t"
  by (simp_all add: owner_script_def file_guard_def systemd_check_def interface_script_def install_script_def restart_script_def Let_def)

lemma returns_shell [returns_intros]:
  "length input \<le> 262144 \<Longrightarrow> returns (guest_shell answering_guest env vm script input seconds)
    (if script = owner_script then [] else ''K10'')"
proof -
  have "owner_script \<in> set (script_command script) \<longleftrightarrow> script = owner_script"
    by (auto simp: script_command_def owner_script_def)
  then show "length input \<le> 262144 \<Longrightarrow> ?thesis"
    by (auto simp: guest_shell_def guest_exec_def answering_run simp del: run_in_guest.simps intro!: returns_call)
qed

lemma node_cluster_server: "node_ip node_env node_cluster (cl_server node_cluster) = Inr ''10.0.0.11''"
  by (simp add: node_env_def node_cluster_def exec_simps)

lemma returns_kubectl [returns_intros]:
  assumes "length input \<le> 262144" and "owner_script \<notin> set args"
  shows "returns (guest_kubectl answering_guest node_env node_cluster args input seconds) ''K10''"
proof -
  have "owner_script \<notin> set (kubectl_command node_cluster ip args seconds)" for ip
    using assms(2) by (simp add: kubectl_command_def) (simp add: owner_script_def)
  then show ?thesis
    using assms(1) answering_run
    by (simp add: guest_kubectl_def node_cluster_server guest_exec_def del: run_in_guest.simps) (intro returns_call, simp)
qed

lemma returns_kubectl_call:
  "length input \<le> 262144 \<Longrightarrow> owner_script \<notin> set args \<Longrightarrow>
    returns (kb_call (guest_kubectl answering_guest node_env node_cluster) args input seconds) ''K10''"
  using returns_kubectl [of input args] by (intro returns_call) (simp add: returns_def)

lemma node_facts:
  "resolver_upstream L node_env cluster = Inr None" "nl_guest sample_nodes = answering_guest"
  "node_ready ready_node (cl_version node_cluster)" "trim ''K10'' = ''K10''" "usable_interface ''K10''"
  "starts_with ''K10'' ''K10''"
  by (simp_all add: resolver_upstream_def node_env_def exec_simps sample_nodes_def node_ready_def ready_node_def json_obj_def
      node_cluster_def usable_interface_def char_class_defs)

lemma node_parse: "jl_parse (nl_json sample_nodes) raw = Inr ready_node" "jl_text (nl_json sample_nodes) v = ''{}''"
  "nl_yaml sample_nodes v = Inr ''{}''"
  by (simp_all add: sample_nodes_def)

lemma returns_attempt:
  "vm \<noteq> owner_script \<Longrightarrow> returns (ready_attempt answering_guest (nl_json sample_nodes) node_env node_cluster vm) ()"
  unfolding ready_attempt_def
  by (rule returns_bind [OF returns_kubectl], simp, simp, simp add: owner_script_def,
      rule returns_bind [OF returns_kubectl], simp, simp, simp add: owner_script_def)
    (simp add: readiness_def node_parse node_facts returns_of)

lemma returns_file:
  assumes "length v \<le> 262144" and "path_parent path = Some dir" and "guard = [] \<or> guard = file_guard sha PATH project name"
  shows "returns (guarded_guest_file answering_guest env vm path guard v) False"
proof -
  have "owner_script \<noteq> ''umask 077; '' @ t" for t by (rule node_scripts)
  then show ?thesis
    unfolding guarded_guest_file_def assms(2) ok_or_simps kb_of_bind Let_def
    by (intro returns_bind [OF returns_shell [OF assms(1)]]) (simp add: returns_of node_facts)
qed

lemma node_paths:
  "path_parent OWNER = Some ''/var/lib/vzctl/kubernetes''" "path_parent TOKEN = Some ''/etc/rancher/k3s''"
  "path_parent CONFIG = Some ''/etc/rancher/k3s''" "path_parent unit_path = Some ''/etc/systemd/system''"
  by (simp_all add: OWNER_def TOKEN_def CONFIG_def UNIT_def exec_simps)

lemma node_ips: "vm \<in> {''db'', ''web''} \<Longrightarrow> \<exists>ip. node_ip node_env node_cluster vm = Inr ip"
  by (auto simp: node_env_def node_cluster_def exec_simps)

lemma returns_install:
  assumes "vm \<in> {''db'', ''web''}" and "length token \<le> 262144"
  shows "returns (install_node sample_nodes cidr_lib node_env name node_cluster vm token) ()"
proof -
  obtain ip where ip: "node_ip node_env node_cluster vm = Inr ip" using node_ips [OF assms(1)] by blast
  have "\<exists>config. node_config cidr_lib node_env node_cluster vm interface = Inr config" for interface
    by (simp add: node_config_def ip node_cluster_server node_facts Let_def cluster_dns_def)
      (simp add: node_cluster_def exec_simps)
  then obtain config where config: "node_config cidr_lib node_env node_cluster vm ''K10'' = Inr config" by blast
  have files: "returns (write_node_files sample_nodes cidr_lib node_env name node_cluster vm token ''K10'' None) False"
    unfolding write_node_files_def Let_def node_facts option.case guest_file_def config node_parse kb_of_bind
    by (rule returns_bind [OF returns_file [OF _ node_paths(1)]], simp, simp,
        rule returns_bind [OF returns_shell], simp,
        rule returns_bind [OF returns_file [OF assms(2) node_paths(2)]], simp,
        rule returns_bind [OF returns_file [OF _ node_paths(3)]], simp, simp,
        rule returns_bind [OF returns_file [OF _ node_paths(4)]], simp add: systemd_unit_def CONFIG_def, simp,
        simp add: returns_of node_facts node_scripts [symmetric])
  show ?thesis
    unfolding install_node_def Let_def node_facts ip kb_of_bind
    by (rule returns_bind [OF returns_shell], simp, rule returns_bind [OF returns_shell], simp,
        simp add: node_scripts [symmetric] node_facts,
        rule returns_bind [OF files], rule returns_bind [OF returns_shell], simp,
        rule returns_bind [OF returns_shell], simp, rule returns_of)
qed

lemma node_names: "cl_server node_cluster = ''db''" "cl_agents node_cluster = [''web'']" "cl_manifests node_cluster = []"
    "''db'' \<noteq> owner_script" "''web'' \<noteq> owner_script" "all_clusters node_env = [(''edge'', node_cluster)]"
  by (simp_all add: node_cluster_def sample_cluster_def owner_script_def all_clusters_def node_env_def)

lemma returns_wait_node:
  "vm \<noteq> owner_script \<Longrightarrow> returns (wait_ready C answering_guest (nl_json sample_nodes) node_env node_cluster vm) ()"
  by (rule returns_wait [OF returns_attempt])

lemma returns_token: "returns (ensure_token sample_nodes directory) (replicate 64 CHR ''a'')"
  unfolding ensure_token_def
  by (rule returns_bind [OF returns_host [where x = "Existing (replicate 64 CHR ''a'')"]], simp add: sample_nodes_def)
    (simp add: returns_of is_hex_digit_def list_all_iff)

lemma returns_install_cluster: "returns (install_cluster sample_nodes cidr_lib node_env directory name node_cluster) ()"
  unfolding install_cluster_def install_agents_def node_names node_facts
  by (rule returns_bind [OF returns_token], rule returns_bind [OF returns_install], simp, simp,
      rule returns_bind [OF returns_wait_node], rule node_names, rule returns_bind [OF returns_shell], simp,
      simp add: node_scripts [symmetric] node_facts,
      rule returns_bind [OF returns_host [where x = "()"]], simp add: sample_nodes_def,
      rule returns_bind [OF returns_bind [OF returns_install]], simp, simp,
      rule returns_wait_node, rule node_names, rule returns_of)

lemma returns_rollout:
  "returns (via_guest (rollout (guest_kubectl answering_guest node_env node_cluster) (nl_json sample_nodes) sha project name None)) ()"
proof (rule returns_via)
  have args: "owner_script \<notin> set deployment_args" by (simp add: deployment_args_def owner_script_def)
  have marker: "json_find (template_annotations ready_node) ANNOTATION = None"
    by (simp add: template_annotations_def template_of_def ready_node_def json_obj_def json_find_def exec_simps)
  show "returns (rollout (guest_kubectl answering_guest node_env node_cluster) (nl_json sample_nodes) sha project name None) ()"
    unfolding rollout_def read_deployment_def kb_bind_assoc
    by (rule returns_bind [OF returns_kubectl_call], simp, rule args)
      (simp add: node_facts parse_inventory_def node_parse marker returns_of)
qed

lemma returns_populate: "returns (populate_cluster sample_nodes cidr_lib node_env [] base directory name node_cluster) ()"
  unfolding populate_cluster_def ensure_namespace_def node_facts kb_of_bind node_names apply_manifests.simps kb_each.simps
  by (rule returns_bind [OF returns_rollout], rule returns_bind [OF returns_bind [OF returns_kubectl]], simp,
      simp add: owner_script_def node_cluster_def sample_cluster_def, simp add: node_facts,
      rule returns_of, rule returns_host, simp add: sample_nodes_def)

lemma returns_preflight_node: "returns (preflight_node sample_nodes node_env name node_cluster vm) ()"
  unfolding preflight_node_def check_node_owner_def node_facts
  by (rule returns_bind [OF returns_shell], simp, rule returns_bind [OF returns_shell], simp,
      rule returns_bind [OF returns_shell], simp, simp add: node_owned_def returns_of trim_Nil)

lemma returns_ensure: "returns (ensure_clusters sample_nodes cidr_lib node_env [] base state) ()"
  unfolding ensure_clusters_def Let_def all_clusters_def [symmetric] node_names kb_each.simps
    preflight_cluster_def reconcile_cluster_def prod.case node_facts kb_of_bind
  by (rule returns_preflight_node returns_install_cluster returns_populate returns_of returns_bind)+

section \<open>Properties\<close>

text \<open>C23: nothing is installed before every check has passed. Whatever the guests answer, as long as not every node of
  every cluster has passed its checks (no foreign resolver file, systemd on ARM64, no K3s but our own with this
  topology), all commands are such checks.\<close>

theorem ensure_checks_first:
  "staged N env (ks_log (snd (ensure_clusters N L env definitions base state (new_session w))))"
  by (rule ensure_log.valid_run(1) [OF valid_ensure]) simp_all

text \<open>C24: when \<open>ensure\<close> returns, every node of every cluster has passed its checks and has been seen ready at the
  pinned version.\<close>

theorem ensured_nodes_are_ready:
  assumes "fst (ensure_clusters N L env definitions base state (new_session w)) = Inr ()"
    and "(name, cluster) \<in> set (k8s_clusters (sp_kubernetes (env_spec env)))" and "vm \<in> set (cluster_nodes cluster)"
  shows "node_checked N env name cluster vm (ks_log (snd (ensure_clusters N L env definitions base state (new_session w))))
    \<and> ready_seen N env cluster vm (ks_log (snd (ensure_clusters N L env definitions base state (new_session w))))"
  using establishes_ensure [of name cluster env vm N L definitions base state] assms
  unfolding establishes_def all_clusters_def by blast

lemma ensured_nodes_are_ready_witness:
  "ready_seen sample_nodes node_env node_cluster ''web''
    (ks_log (snd (ensure_clusters sample_nodes cidr_lib node_env [] ''.'' ''state'' (new_session ()))))"
proof -
  have run: "fst (ensure_clusters sample_nodes cidr_lib node_env [] ''.'' ''state'' (new_session ())) = Inr ()"
    using returns_ensure unfolding returns_def by blast
  have "(''edge'', node_cluster) \<in> set (k8s_clusters (sp_kubernetes (env_spec node_env)))" "''web'' \<in> set (cluster_nodes node_cluster)"
    by (simp add: node_env_def, simp add: cluster_nodes_def node_names)
  from ensured_nodes_are_ready [OF run this] show ?thesis by (rule conjunct2)
qed

text \<open>The address the server is told to give the cluster's DNS is free for it: in an accepted environment it is ten
  above the network address of the service range, inside the range and below its broadcast address.\<close>

lemma cluster_dns_in_service_range:
  assumes "ipnet_sized L" and "kubernetes_validate L lib dir env = []"
    and "(name, cluster) \<in> set (k8s_clusters (sp_kubernetes (env_spec env)))"
  shows "\<exists>services dns. net_parse L (cl_service_cidr cluster) = Inr services \<and> cluster_dns L cluster = Inr (show_ipv4 dns)
    \<and> unat dns = unat (net_network L services) + 10 \<and> dns < net_broadcast L services"
proof -
  have "cluster_ok L lib dir env (name, cluster)"
    using assms(2) [unfolded kubernetes_validate_Nil] assms(3) unfolding clusters_ok_def Let_def by blast
  then obtain services where services: "net_parse L (cl_service_cidr cluster) = Inr services" "range_ok L 28 services"
    unfolding cluster_ok_def by auto
  let ?len = "net_prefix_len L services"
  have len: "?len \<le> 28" using services(2) by (simp add: range_ok_def)
  then have "(2::nat) ^ 4 \<le> 2 ^ (32 - ?len)" by (intro power_increasing) auto
  moreover have last: "unat (net_broadcast L services) = unat (net_network L services) + (2 ^ (32 - ?len) - 1)"
    using assms(1) len by (simp add: ipnet_sized_def)
  ultimately have room: "unat (net_network L services) + 10 < unat (net_broadcast L services)" by simp
  have "unat (net_broadcast L services) < 2 ^ 32" using unsigned_less [of "net_broadcast L services", where ?'a = nat] by simp
  with room have "unat (net_network L services + 10) = unat (net_network L services) + 10"
    by (subst unat_add_lem [THEN iffD1]) simp_all
  with services(1) room show ?thesis
    by (intro exI [of _ services] exI [of _ "net_network L services + 10"])
      (simp add: cluster_dns_def word_less_nat_alt)
qed

lemma cluster_dns_in_service_range_witness: "cluster_dns cidr_lib sample_cluster = Inr ''10.43.0.10''"
proof -
  obtain services dns where dns: "net_parse cidr_lib (cl_service_cidr sample_cluster) = Inr services"
      "cluster_dns cidr_lib sample_cluster = Inr (show_ipv4 dns)"
      "unat dns = unat (net_network cidr_lib services) + 10"
    using cluster_dns_in_service_range [OF cidr_lib_sized sample_kube_silent, of "''edge''" sample_cluster]
    by (auto simp: sample_kube_env_def)
  have "services = (0x0a2b0000, 16)" using dns(1) by (simp add: exec_simps)
  then have "unat dns = unat (0x0a2b000a :: ipv4)" using dns(3) by (simp add: exec_simps)
  then have "dns = 0x0a2b000a" by (simp only: word_unat_eq_iff)
  then show ?thesis using dns(2) by (simp add: exec_simps)
qed

end
