(* ===== verification/Images.thy ===== *)
theory Images
  imports Edit Dns Rpc
begin

text \<open>
  The image catalog of \<open>image.rs\<close> and where an image comes from: the distributions and their aliases
  (\<open>CATALOG\<close>), finding a digest in a checksum file (\<open>digest_from_checksum\<close>), the upstream metadata
  (\<open>resolve_source\<close>), and the names and paths the image store accepts (\<open>store_image_tag\<close>,
  \<open>is_safe_alias\<close>, \<open>safe_relative_image_path\<close>).

  \<open>PullFailure\<close> has the fields of \<open>Failure\<close>, so it is the record \<open>failure\<close>. The text a URL gives and
  \<open>serde_json\<close> are parameters. A path is its text; \<open>components\<close> is \<open>Path::components\<close> on Unix, with which
  paths are compared.

  The lemmas: the catalog is consistent (every alias belongs to one entry), a digest read from a checksum
  file is a digest of its algorithm, and a path the store accepts has no component that leaves the store.
\<close>

section \<open>The catalog\<close>

definition EXIT_IMAGE_NETWORK :: nat where "EXIT_IMAGE_NETWORK = 21"
definition EXIT_IMAGE_CHECKSUM :: nat where "EXIT_IMAGE_CHECKSUM = 22"
definition EXIT_IMAGE_ARCH :: nat where "EXIT_IMAGE_ARCH = 23"
definition EXIT_IMAGE_INPUT :: nat where "EXIT_IMAGE_INPUT = 3"
definition EXIT_UNAVAILABLE :: nat where "EXIT_UNAVAILABLE = 12"
definition EXIT_IMAGE_STATE :: nat where "EXIT_IMAGE_STATE = 15"

datatype hash_algorithm = Sha256 | Sha512

definition algorithm_name :: "hash_algorithm \<Rightarrow> string" where
  "algorithm_name a = (case a of Sha256 \<Rightarrow> ''sha256'' | Sha512 \<Rightarrow> ''sha512'')"

definition hex_len :: "hash_algorithm \<Rightarrow> nat" where
  "hex_len a = (case a of Sha256 \<Rightarrow> 64 | Sha512 \<Rightarrow> 128)"

datatype source_format = Qcow2 | Qcow2Xz | Raw | RawZst | RawBz2 | Ova | ZipQcow2

definition format_label :: "source_format \<Rightarrow> string" where
  "format_label f =
     (case f of Qcow2 \<Rightarrow> ''qcow2'' | Qcow2Xz \<Rightarrow> ''qcow2.xz'' | Raw \<Rightarrow> ''raw'' | RawZst \<Rightarrow> ''raw.zst''
      | RawBz2 \<Rightarrow> ''raw.bz2'' | Ova \<Rightarrow> ''ova'' | ZipQcow2 \<Rightarrow> ''zip/qcow2'')"

datatype checksum = Remote string hash_algorithm | Inline hash_algorithm string

datatype image_resolver =
    Static string string checksum source_format
  | FedoraCoreOs
  | Flatcar
  | GithubLatest string string source_format
  | GithubTagged string string string string source_format

record catalog_entry =
  cat_canonical :: string
  cat_aliases :: "string list"
  cat_distribution :: string
  cat_release :: string
  cat_resolver :: image_resolver

definition CATALOG_UBUNTU :: "catalog_entry list" where
  "CATALOG_UBUNTU =
    [\<lparr>cat_canonical = ''ubuntu-latest'', cat_aliases = [''ubuntu-latest''],
      cat_distribution = ''Ubuntu'', cat_release = ''26.04 LTS'',
      cat_resolver = Static ''https://cloud-images.ubuntu.com/releases/26.04/release/ubuntu-26.04-server-cloudimg-arm64.img''
        ''ubuntu-26.04-server-cloudimg-arm64.img''
        (Remote ''https://cloud-images.ubuntu.com/releases/26.04/release/SHA256SUMS'' Sha256) Qcow2\<rparr>,
     \<lparr>cat_canonical = ''ubuntu-26.04'', cat_aliases = [''ubuntu-26.04''],
      cat_distribution = ''Ubuntu'', cat_release = ''26.04 LTS'',
      cat_resolver = Static ''https://cloud-images.ubuntu.com/releases/26.04/release/ubuntu-26.04-server-cloudimg-arm64.img''
        ''ubuntu-26.04-server-cloudimg-arm64.img''
        (Remote ''https://cloud-images.ubuntu.com/releases/26.04/release/SHA256SUMS'' Sha256) Qcow2\<rparr>,
     \<lparr>cat_canonical = ''ubuntu-24.04'', cat_aliases = [''ubuntu-24.04''],
      cat_distribution = ''Ubuntu'', cat_release = ''24.04 LTS'',
      cat_resolver = Static ''https://cloud-images.ubuntu.com/releases/24.04/release/ubuntu-24.04-server-cloudimg-arm64.img''
        ''ubuntu-24.04-server-cloudimg-arm64.img''
        (Remote ''https://cloud-images.ubuntu.com/releases/24.04/release/SHA256SUMS'' Sha256) Qcow2\<rparr>,
     \<lparr>cat_canonical = ''ubuntu-22.04'', cat_aliases = [''ubuntu-22.04''],
      cat_distribution = ''Ubuntu'', cat_release = ''22.04 LTS'',
      cat_resolver = Static ''https://cloud-images.ubuntu.com/releases/22.04/release/ubuntu-22.04-server-cloudimg-arm64.img''
        ''ubuntu-22.04-server-cloudimg-arm64.img''
        (Remote ''https://cloud-images.ubuntu.com/releases/22.04/release/SHA256SUMS'' Sha256) Qcow2\<rparr>,
     \<lparr>cat_canonical = ''ubuntu-20.04'', cat_aliases = [''ubuntu-20.04''],
      cat_distribution = ''Ubuntu'', cat_release = ''20.04 LTS'',
      cat_resolver = Static ''https://cloud-images.ubuntu.com/releases/20.04/release/ubuntu-20.04-server-cloudimg-arm64.img''
        ''ubuntu-20.04-server-cloudimg-arm64.img''
        (Remote ''https://cloud-images.ubuntu.com/releases/20.04/release/SHA256SUMS'' Sha256) Qcow2\<rparr>]"

definition CATALOG_DEBIAN :: "catalog_entry list" where
  "CATALOG_DEBIAN =
    [\<lparr>cat_canonical = ''debian-latest'', cat_aliases = [''debian-latest''],
      cat_distribution = ''Debian'', cat_release = ''13 (stable/Trixie)'',
      cat_resolver = Static ''https://cloud.debian.org/images/cloud/trixie/latest/debian-13-generic-arm64.qcow2''
        ''debian-13-generic-arm64.qcow2''
        (Remote ''https://cloud.debian.org/images/cloud/trixie/latest/SHA512SUMS'' Sha512) Qcow2\<rparr>,
     \<lparr>cat_canonical = ''debian-13'', cat_aliases = [''debian-13''],
      cat_distribution = ''Debian'', cat_release = ''13 (Trixie)'',
      cat_resolver = Static ''https://cloud.debian.org/images/cloud/trixie/latest/debian-13-generic-arm64.qcow2''
        ''debian-13-generic-arm64.qcow2''
        (Remote ''https://cloud.debian.org/images/cloud/trixie/latest/SHA512SUMS'' Sha512) Qcow2\<rparr>,
     \<lparr>cat_canonical = ''debian-12'', cat_aliases = [''debian-12''],
      cat_distribution = ''Debian'', cat_release = ''12 (Bookworm)'',
      cat_resolver = Static ''https://cloud.debian.org/images/cloud/bookworm/latest/debian-12-generic-arm64.qcow2''
        ''debian-12-generic-arm64.qcow2''
        (Remote ''https://cloud.debian.org/images/cloud/bookworm/latest/SHA512SUMS'' Sha512) Qcow2\<rparr>,
     \<lparr>cat_canonical = ''debian-11'', cat_aliases = [''debian-11''],
      cat_distribution = ''Debian'', cat_release = ''11 (Bullseye)'',
      cat_resolver = Static ''https://cloud.debian.org/images/cloud/bullseye/latest/debian-11-generic-arm64.qcow2''
        ''debian-11-generic-arm64.qcow2''
        (Remote ''https://cloud.debian.org/images/cloud/bullseye/latest/SHA512SUMS'' Sha512) Qcow2\<rparr>]"

definition CATALOG_OTHER :: "catalog_entry list" where
  "CATALOG_OTHER =
    [\<lparr>cat_canonical = ''alpine-latest'', cat_aliases = [''alpine-latest''],
      cat_distribution = ''Alpine Linux'', cat_release = ''3.24.1'',
      cat_resolver = Static ''https://dl-cdn.alpinelinux.org/alpine/v3.24/releases/cloud/generic_alpine-3.24.1-aarch64-uefi-cloudinit-r0.qcow2''
        ''generic_alpine-3.24.1-aarch64-uefi-cloudinit-r0.qcow2''
        (Remote ''https://dl-cdn.alpinelinux.org/alpine/v3.24/releases/cloud/generic_alpine-3.24.1-aarch64-uefi-cloudinit-r0.qcow2.sha512'' Sha512) Qcow2\<rparr>,
     \<lparr>cat_canonical = ''arch-latest'', cat_aliases = [''arch-latest''],
      cat_distribution = ''Arch Linux ARM'', cat_release = ''rolling (UTM ARM64 VM snapshot)'',
      cat_resolver = GithubTagged ''utmapp/vm-downloads'' ''archlinux-arm64'' ''archlinux-arm64-utm4.zip''
        ''e9891d07b5f1174cc5fc2a37dbb3844de5f9a2d3a5d3ee606891d9470196cfa8'' ZipQcow2\<rparr>,
     \<lparr>cat_canonical = ''fedora-latest'', cat_aliases = [''fedora-latest''],
      cat_distribution = ''Fedora Cloud'', cat_release = ''44-1.7'',
      cat_resolver = Static ''https://download.fedoraproject.org/pub/fedora/linux/releases/44/Cloud/aarch64/images/Fedora-Cloud-Base-Generic-44-1.7.aarch64.qcow2''
        ''Fedora-Cloud-Base-Generic-44-1.7.aarch64.qcow2''
        (Remote ''https://download.fedoraproject.org/pub/fedora/linux/releases/44/Cloud/aarch64/images/Fedora-Cloud-44-1.7-aarch64-CHECKSUM'' Sha256) Qcow2\<rparr>,
     \<lparr>cat_canonical = ''rocky-latest'', cat_aliases = [''rocky-latest''],
      cat_distribution = ''Rocky Linux'', cat_release = ''10.2'',
      cat_resolver = Static ''https://download.rockylinux.org/pub/rocky/10/images/aarch64/Rocky-10-GenericCloud-Base.latest.aarch64.qcow2''
        ''Rocky-10-GenericCloud-Base.latest.aarch64.qcow2''
        (Remote ''https://download.rockylinux.org/pub/rocky/10/images/aarch64/Rocky-10-GenericCloud-Base.latest.aarch64.qcow2.CHECKSUM'' Sha256) Qcow2\<rparr>,
     \<lparr>cat_canonical = ''alma-latest'', cat_aliases = [''alma-latest''],
      cat_distribution = ''AlmaLinux'', cat_release = ''10 stable'',
      cat_resolver = Static ''https://repo.almalinux.org/almalinux/10/cloud/aarch64/images/AlmaLinux-10-GenericCloud-latest.aarch64.qcow2''
        ''AlmaLinux-10-GenericCloud-latest.aarch64.qcow2''
        (Remote ''https://repo.almalinux.org/almalinux/10/cloud/aarch64/images/CHECKSUM'' Sha256) Qcow2\<rparr>]"

definition CATALOG_CONTAINER :: "catalog_entry list" where
  "CATALOG_CONTAINER =
    [\<lparr>cat_canonical = ''opensuse-latest'', cat_aliases = [''opensuse-latest''],
      cat_distribution = ''openSUSE Leap'', cat_release = ''16.0'',
      cat_resolver = Static ''https://download.opensuse.org/distribution/openSUSE-current/appliances/Leap-16.0-Minimal-VM.aarch64-Cloud.qcow2''
        ''Leap-16.0-Minimal-VM.aarch64-Cloud.qcow2''
        (Remote ''https://download.opensuse.org/distribution/openSUSE-current/appliances/Leap-16.0-Minimal-VM.aarch64-Cloud.qcow2.sha256'' Sha256) Qcow2\<rparr>,
     \<lparr>cat_canonical = ''fedora-coreos-latest'', cat_aliases = [''fedora-coreos-latest'', ''coreos-latest''],
      cat_distribution = ''Fedora CoreOS'', cat_release = ''stable stream'',
      cat_resolver = FedoraCoreOs\<rparr>,
     \<lparr>cat_canonical = ''flatcar-latest'', cat_aliases = [''flatcar-latest''],
      cat_distribution = ''Flatcar Container Linux'', cat_release = ''stable channel'',
      cat_resolver = Flatcar\<rparr>,
     \<lparr>cat_canonical = ''photon-latest'', cat_aliases = [''photon-latest''],
      cat_distribution = ''VMware Photon OS'', cat_release = ''5.0 GA'',
      cat_resolver = Static ''https://packages.vmware.com/photon/5.0/GA/ova/photon-uefi-hw14-5.0-dde71ec57.aarch64.ova''
        ''photon-uefi-hw14-5.0-dde71ec57.aarch64.ova''
        (Inline Sha512 ''ffecb532158fc2b0148e3fc2c7d54fcc743d6741fa4c733acf589cd6c493556630c08b4e601e65a5523db404f88ad1e8b4f6df0484a8a7a0de0889a99e6fea5a'') Ova\<rparr>,
     \<lparr>cat_canonical = ''opensuse-microos-latest'', cat_aliases = [''opensuse-microos-latest''],
      cat_distribution = ''openSUSE MicroOS'', cat_release = ''Tumbleweed current'',
      cat_resolver = Static ''https://download.opensuse.org/ports/aarch64/tumbleweed/appliances/openSUSE-MicroOS.aarch64-ContainerHost-OpenStack-Cloud.qcow2''
        ''openSUSE-MicroOS.aarch64-ContainerHost-OpenStack-Cloud.qcow2''
        (Remote ''https://download.opensuse.org/ports/aarch64/tumbleweed/appliances/openSUSE-MicroOS.aarch64-ContainerHost-OpenStack-Cloud.qcow2.sha256'' Sha256) Qcow2\<rparr>,
     \<lparr>cat_canonical = ''talos-latest'', cat_aliases = [''talos-latest''],
      cat_distribution = ''Talos Linux'', cat_release = ''latest stable'',
      cat_resolver = GithubLatest ''siderolabs/talos'' ''metal-arm64.raw.zst'' RawZst\<rparr>]"

definition CATALOG :: "catalog_entry list" where
  "CATALOG = CATALOG_UBUNTU @ CATALOG_DEBIAN @ CATALOG_OTHER @ CATALOG_CONTAINER"

definition find_catalog_entry :: "string \<Rightarrow> catalog_entry option" where
  "find_catalog_entry image_alias = find (\<lambda>e. image_alias \<in> set (cat_aliases e)) CATALOG"

definition catalog_aliases :: "string list" where
  "catalog_aliases = concat (map cat_aliases CATALOG)"

section \<open>Names\<close>

definition store_image_tag :: "string \<Rightarrow> bool" where
  "store_image_tag tag \<longleftrightarrow>
     1 \<le> length tag \<and> length tag \<le> 64
     \<and> all_indexed (\<lambda>index c. is_ascii_alphanumeric c \<or> 0 < index \<and> c \<in> set ''.-_'') tag"

definition is_safe_alias :: "string \<Rightarrow> bool" where
  "is_safe_alias image_alias \<longleftrightarrow>
     image_alias \<noteq> [] \<and> list_all (\<lambda>c. is_ascii_alphanumeric c \<or> c \<in> set ''-_.'') image_alias"

section \<open>Paths\<close>

text \<open>\<open>Path::components\<close>: empty parts are skipped, \<open>.\<close> only counts at the start of a relative path.\<close>

datatype component = RootDir | CurDir | ParentDir | Normal string

definition component_of :: "string \<Rightarrow> component" where
  "component_of part = (if part = ''..'' then ParentDir else Normal part)"

definition is_absolute :: "string \<Rightarrow> bool" where
  "is_absolute path \<longleftrightarrow> starts_with path ''/''"

definition components :: "string \<Rightarrow> component list" where
  "components path =
     (let parts = filter (\<lambda>part. part \<noteq> []) (split_on CHR ''/'' path);
          named = map component_of (filter (\<lambda>part. part \<noteq> ''.'') parts)
      in if is_absolute path then RootDir # named
         else if parts \<noteq> [] \<and> hd parts = ''.'' then CurDir # named
         else named)"

definition path_starts_with :: "string \<Rightarrow> string \<Rightarrow> bool" where
  "path_starts_with path base \<longleftrightarrow> take (length (components base)) (components path) = components base"

definition normal :: "component \<Rightarrow> bool" where
  "normal c = (case c of Normal _ \<Rightarrow> True | _ \<Rightarrow> False)"

definition image_state :: "string \<Rightarrow> failure" where
  "image_state message = \<lparr>fail_code = EXIT_IMAGE_STATE, fail_message = message\<rparr>"

definition safe_relative_image_path :: "json \<Rightarrow> string list \<Rightarrow> string \<Rightarrow> (string, failure) result" where
  "safe_relative_image_path manifest keys required_prefix =
     and_then (ok_or (image_state (''alias manifest lacks '' @ join ''.'' keys))
                (json_as_str (foldl json_get manifest keys))) (\<lambda>path.
       if \<not> is_absolute path \<and> path_starts_with path required_prefix \<and> list_all normal (components path)
       then Inr path
       else Inl (image_state ''alias manifest contains an unsafe image path''))"

definition safe_object_path :: "json \<Rightarrow> (string, failure) result" where
  "safe_object_path manifest = safe_relative_image_path manifest [''image'', ''path''] ''objects''"

section \<open>Digests\<close>

definition image_checksum :: "string \<Rightarrow> failure" where
  "image_checksum message = \<lparr>fail_code = EXIT_IMAGE_CHECKSUM, fail_message = message\<rparr>"

definition image_network :: "string \<Rightarrow> failure" where
  "image_network message = \<lparr>fail_code = EXIT_IMAGE_NETWORK, fail_message = message\<rparr>"

definition image_hex :: "u8 list \<Rightarrow> string" where
  "image_hex bytes = concat (map (\<lambda>b. [hex_digit (unat (drop_bit 4 b)), hex_digit (unat (and b 0x0F))]) bytes)"

definition is_digest :: "hash_algorithm \<Rightarrow> string \<Rightarrow> bool" where
  "is_digest algorithm digest \<longleftrightarrow> length digest = hex_len algorithm \<and> list_all is_hex_digit digest"

definition validate_digest_text :: "hash_algorithm \<Rightarrow> string \<Rightarrow> (unit, failure) result" where
  "validate_digest_text algorithm digest =
     (if is_digest algorithm digest then Inr ()
      else Inl (image_checksum (''invalid '' @ algorithm_name algorithm @ '' digest from upstream'')))"

text \<open>\<open>text.split(..)\<close> at white space, equals signs and parentheses, and \<open>text.lines()\<close>.\<close>

definition digest_separator :: "string \<Rightarrow> bool" where
  "digest_separator ch \<longleftrightarrow> is_whitespace ch \<or> ch \<in> {''='', ''('', '')''}"

fun split_chars :: "(string \<Rightarrow> bool) \<Rightarrow> string list \<Rightarrow> string list" where
  "split_chars separator [] = [[]]"
| "split_chars separator (ch # chs) =
     (if separator ch then [] # split_chars separator chs
      else (case split_chars separator chs of [] \<Rightarrow> [ch] | p # ps \<Rightarrow> (ch @ p) # ps))"

definition digest_tokens :: "string \<Rightarrow> string list" where
  "digest_tokens txt = split_chars digest_separator (utf8_chars txt)"

definition strip_cr :: "string \<Rightarrow> string" where
  "strip_cr line = (if ends_with line [CHR 0x0D] then butlast line else line)"

definition text_lines :: "string \<Rightarrow> string list" where
  "text_lines txt =
     (let parts = split_on CHR 0x0A txt
      in map strip_cr (butlast parts) @ (if last parts = [] then [] else [last parts]))"

definition digest_on_line :: "hash_algorithm \<Rightarrow> string \<Rightarrow> string option" where
  "digest_on_line algorithm line = find (is_digest algorithm) (digest_tokens line)"

text \<open>\<open>find_map\<close> of an iterator\<close>

fun find_map :: "('a \<Rightarrow> 'b option) \<Rightarrow> 'a list \<Rightarrow> 'b option" where
  "find_map f [] = None"
| "find_map f (x # xs) = (case f x of Some y \<Rightarrow> Some y | None \<Rightarrow> find_map f xs)"

definition digest_from_checksum :: "string \<Rightarrow> string \<Rightarrow> hash_algorithm \<Rightarrow> (string, failure) result" where
  "digest_from_checksum txt filename algorithm =
     (let candidates = map to_ascii_lowercase (filter (is_digest algorithm) (digest_tokens txt));
          named = map_option to_ascii_lowercase
            (find_map (digest_on_line algorithm) (filter (\<lambda>line. contains_str line filename) (text_lines txt)))
      in and_then
           (ok_or (image_checksum (''cannot find '' @ algorithm_name algorithm @ '' checksum for '' @ filename
                                     @ '' in upstream metadata''))
              (case named of Some digest \<Rightarrow> Some digest
               | None \<Rightarrow> if length candidates = 1 then Some (candidates ! 0) else None))
           (\<lambda>digest. and_then (validate_digest_text algorithm digest) (\<lambda>_. Inr digest)))"

section \<open>resolve_source\<close>

record resolved_source =
  src_url :: string
  src_filename :: string
  src_format :: source_format
  src_algorithm :: hash_algorithm
  src_digest :: string
  src_release :: "string option"

text \<open>The text at a URL, and \<open>serde_json::from_str\<close>.\<close>

record upstream =
  up_text :: "string \<Rightarrow> (string, failure) result"
  up_parse :: "string \<Rightarrow> (json, string) result"

definition required_json_string :: "json \<Rightarrow> string \<Rightarrow> string \<Rightarrow> (string, failure) result" where
  "required_json_string v key label =
     ok_or (image_network (''upstream metadata lacks '' @ label))
       (case json_as_str (json_get v key) of
          Some s \<Rightarrow> if s = [] then None else Some s
        | None \<Rightarrow> None)"

definition fetch_metadata :: "upstream \<Rightarrow> string \<Rightarrow> string \<Rightarrow> (json, failure) result" where
  "fetch_metadata U url label =
     and_then (up_text U url) (\<lambda>txt.
       map_err (\<lambda>e. image_network (''invalid '' @ label @ '': '' @ e)) (up_parse U txt))"

definition github_asset :: "json \<Rightarrow> string \<Rightarrow> string \<Rightarrow> (json, failure) result" where
  "github_asset release repository asset_name =
     ok_or (image_network (''GitHub release for '' @ repository @ '' has no asset '' @ asset_name))
       (case json_get release ''assets'' of
          JArr assets \<Rightarrow> find (\<lambda>asset. json_get asset ''name'' = JStr asset_name) assets
        | _ \<Rightarrow> None)"

definition resolve_github_pinned_asset ::
    "upstream \<Rightarrow> string \<Rightarrow> string \<Rightarrow> string \<Rightarrow> string \<Rightarrow> source_format \<Rightarrow> (resolved_source, failure) result" where
  "resolve_github_pinned_asset U repository tag asset_name sha256 fmt =
     and_then (validate_digest_text Sha256 sha256) (\<lambda>_.
     and_then (fetch_metadata U (''https://api.github.com/repos/'' @ repository @ ''/releases/tags/'' @ tag)
                 (''GitHub release metadata for '' @ repository)) (\<lambda>release.
     and_then (github_asset release repository asset_name) (\<lambda>asset.
     and_then (required_json_string asset ''browser_download_url'' ''GitHub asset URL'') (\<lambda>url.
       Inr \<lparr>src_url = url, src_filename = asset_name, src_format = fmt, src_algorithm = Sha256,
            src_digest = sha256, src_release = json_as_str (json_get release ''tag_name'')\<rparr>))))"

definition resolve_github_asset ::
    "upstream \<Rightarrow> string \<Rightarrow> string \<Rightarrow> string \<Rightarrow> source_format \<Rightarrow> (resolved_source, failure) result" where
  "resolve_github_asset U repository selector asset_name fmt =
     and_then (fetch_metadata U (''https://api.github.com/repos/'' @ repository @ ''/releases/'' @ selector)
                 (''GitHub release metadata for '' @ repository)) (\<lambda>release.
     and_then (github_asset release repository asset_name) (\<lambda>asset.
     and_then (required_json_string asset ''browser_download_url'' ''GitHub asset URL'') (\<lambda>url.
     and_then (required_json_string asset ''digest'' ''GitHub asset digest'') (\<lambda>digest.
     and_then (ok_or (image_checksum (''GitHub asset '' @ asset_name @ '' has no SHA256 digest''))
                 (strip_prefix digest ''sha256:'')) (\<lambda>digest.
       Inr \<lparr>src_url = url, src_filename = asset_name, src_format = fmt, src_algorithm = Sha256,
            src_digest = digest, src_release = json_as_str (json_get release ''tag_name'')\<rparr>)))))"

definition resolve_static ::
    "upstream \<Rightarrow> string \<Rightarrow> string \<Rightarrow> checksum \<Rightarrow> source_format \<Rightarrow> (resolved_source, failure) result" where
  "resolve_static U url filename checksum fmt =
     and_then
       (case checksum of
          Inline algorithm digest \<Rightarrow> Inr (algorithm, digest)
        | Remote checksum_url algorithm \<Rightarrow>
            and_then (up_text U checksum_url) (\<lambda>txt.
            and_then (digest_from_checksum txt filename algorithm) (\<lambda>digest. Inr (algorithm, digest))))
       (\<lambda>(algorithm, digest).
          Inr \<lparr>src_url = url, src_filename = filename, src_format = fmt, src_algorithm = algorithm,
               src_digest = digest, src_release = None\<rparr>)"

definition COREOS_STREAM :: string where
  "COREOS_STREAM = ''https://builds.coreos.fedoraproject.org/streams/stable.json''"

definition resolve_coreos :: "upstream \<Rightarrow> (resolved_source, failure) result" where
  "resolve_coreos U =
     and_then (fetch_metadata U COREOS_STREAM ''Fedora CoreOS stream metadata'') (\<lambda>v.
       let qemu = foldl json_get v [''architectures'', ''aarch64'', ''artifacts'', ''qemu''];
           disk = foldl json_get qemu [''formats'', ''qcow2.xz'', ''disk'']
       in and_then (required_json_string disk ''location'' ''Fedora CoreOS location'') (\<lambda>url.
          and_then (required_json_string disk ''sha256'' ''Fedora CoreOS sha256'') (\<lambda>digest.
            Inr \<lparr>src_url = url, src_filename = last (split_on CHR ''/'' url), src_format = Qcow2Xz,
                 src_algorithm = Sha256, src_digest = digest,
                 src_release = json_as_str (json_get qemu ''release'')\<rparr>)))"

definition FLATCAR_BASE :: string where
  "FLATCAR_BASE = ''https://stable.release.flatcar-linux.net/arm64-usr/''"

definition FLATCAR_FILE :: string where
  "FLATCAR_FILE = ''flatcar_production_qemu_uefi_image.img.bz2''"

definition resolve_flatcar :: "upstream \<Rightarrow> (resolved_source, failure) result" where
  "resolve_flatcar U =
     and_then (up_text U (FLATCAR_BASE @ ''current/version.txt'')) (\<lambda>version_text.
     and_then (ok_or (image_network ''Flatcar version metadata lacks FLATCAR_VERSION'')
                (case find_map (\<lambda>line. strip_prefix line ''FLATCAR_VERSION='') (text_lines version_text) of
                   Some v \<Rightarrow> if trim v = [] then None else Some (trim v)
                 | None \<Rightarrow> None)) (\<lambda>version.
     let base = FLATCAR_BASE @ version
     in and_then (up_text U (base @ ''/'' @ FLATCAR_FILE @ ''.DIGESTS'')) (\<lambda>checksum.
        and_then (digest_from_checksum checksum FLATCAR_FILE Sha512) (\<lambda>digest.
          Inr \<lparr>src_url = base @ ''/'' @ FLATCAR_FILE, src_filename = FLATCAR_FILE, src_format = RawBz2,
               src_algorithm = Sha512, src_digest = digest, src_release = Some version\<rparr>))))"

definition resolve_source :: "upstream \<Rightarrow> catalog_entry \<Rightarrow> (resolved_source, failure) result" where
  "resolve_source U entry =
     (case cat_resolver entry of
        Static url filename checksum fmt \<Rightarrow> resolve_static U url filename checksum fmt
      | FedoraCoreOs \<Rightarrow> resolve_coreos U
      | Flatcar \<Rightarrow> resolve_flatcar U
      | GithubLatest repository asset fmt \<Rightarrow> resolve_github_asset U repository ''latest'' asset fmt
      | GithubTagged repository tag asset sha256 fmt \<Rightarrow>
          resolve_github_pinned_asset U repository tag asset sha256 fmt)"

declare algorithm_name_def [exec_simps] hex_len_def [exec_simps] format_label_def [exec_simps]
  store_image_tag_def [exec_simps] is_safe_alias_def [exec_simps] component_of_def [exec_simps]
  is_absolute_def [exec_simps] components_def [exec_simps] path_starts_with_def [exec_simps]
  normal_def [exec_simps] image_state_def [exec_simps]
  safe_relative_image_path_def [exec_simps] safe_object_path_def [exec_simps] image_checksum_def [exec_simps]
  image_network_def [exec_simps] image_hex_def [exec_simps] is_digest_def [exec_simps]
  validate_digest_text_def [exec_simps] digest_separator_def [exec_simps] digest_tokens_def [exec_simps]
  strip_cr_def [exec_simps] text_lines_def [exec_simps] digest_on_line_def [exec_simps]
  digest_from_checksum_def [exec_simps] required_json_string_def [exec_simps]
  fetch_metadata_def [exec_simps] github_asset_def [exec_simps] resolve_github_asset_def [exec_simps]
  resolve_github_pinned_asset_def [exec_simps] resolve_source_def [exec_simps]

lemmas catalog_defs = CATALOG_def CATALOG_UBUNTU_def CATALOG_DEBIAN_def CATALOG_OTHER_def CATALOG_CONTAINER_def

section \<open>The catalog is consistent\<close>

text \<open>What an entry may say: its canonical name is an alias of it, its aliases are names the store accepts, a
  digest that is pinned is one of its algorithm, and the name of the file downloaded is no path and none of the
  names a pull uses for files of its own.\<close>

definition plain_name :: "string \<Rightarrow> bool" where
  "plain_name filename \<longleftrightarrow> CHR ''/'' \<notin> set filename \<and> filename \<notin> {''normalized.raw'', ''source.qcow2''}"

definition resolver_ok :: "image_resolver \<Rightarrow> bool" where
  "resolver_ok resolver =
     (case resolver of
        Static url filename checksum fmt \<Rightarrow>
          plain_name filename
          \<and> (case checksum of Remote _ _ \<Rightarrow> True | Inline algorithm digest \<Rightarrow> is_digest algorithm digest)
      | GithubLatest repository asset fmt \<Rightarrow> plain_name asset
      | GithubTagged repository tag asset sha256 fmt \<Rightarrow> plain_name asset \<and> is_digest Sha256 sha256
      | _ \<Rightarrow> True)"

definition entry_ok :: "catalog_entry \<Rightarrow> bool" where
  "entry_ok e \<longleftrightarrow>
     cat_canonical e \<in> set (cat_aliases e) \<and> list_all is_safe_alias (cat_aliases e) \<and> resolver_ok (cat_resolver e)"

lemma catalog_aliases_distinct: "distinct catalog_aliases"
  by (simp add: catalog_aliases_def catalog_defs)

lemma catalog_entries_ok: "list_all entry_ok CATALOG"
  by (simp add: catalog_defs entry_ok_def resolver_ok_def plain_name_def is_safe_alias_def is_digest_def hex_len_def is_ascii_alphanumeric_def char_class_defs is_hex_digit_def)

lemma find_eq_Some_distinct:
  assumes "distinct (concat (map f xs))"
  shows "find (\<lambda>x. y \<in> set (f x)) xs = Some x \<longleftrightarrow> x \<in> set xs \<and> y \<in> set (f x)"
  using assms by (induction xs) auto

lemma find_catalog_entry_iff:
  "find_catalog_entry image_alias = Some e \<longleftrightarrow> e \<in> set CATALOG \<and> image_alias \<in> set (cat_aliases e)"
  unfolding find_catalog_entry_def
  using catalog_aliases_distinct by (intro find_eq_Some_distinct) (simp add: catalog_aliases_def)

lemma find_catalog_entry_safe: "find_catalog_entry image_alias = Some e \<Longrightarrow> is_safe_alias image_alias"
  using catalog_entries_ok by (auto simp: find_catalog_entry_iff list_all_iff entry_ok_def)

text \<open>The store accepts exactly the tags a configuration may name.\<close>

lemma store_image_tag_iff: "store_image_tag tag \<longleftrightarrow> valid_image_tag tag"
  by (simp add: store_image_tag_def valid_image_tag_def)

lemma store_image_tag_no_slash: "store_image_tag tag \<Longrightarrow> CHR ''/'' \<notin> set tag \<and> CHR ''~'' \<notin> set tag \<and> tag \<noteq> []"
  by (auto simp: store_image_tag_def all_indexed_def list_all_iff ball_enumerate in_set_conv_nth
      is_ascii_alphanumeric_def char_class_defs)

section \<open>Digests are digests\<close>

lemma is_hex_digit_lower: "is_hex_digit c \<Longrightarrow> is_hex_digit (ascii_lower c)"
  by (auto simp: is_hex_digit_def char_class_defs ascii_lower_def)

lemma is_digest_lower: "is_digest algorithm d \<Longrightarrow> is_digest algorithm (to_ascii_lowercase d)"
  by (auto simp: is_digest_def list_all_iff to_ascii_lowercase_def is_hex_digit_lower)

lemma validate_digest_text_Inr [simp]: "validate_digest_text algorithm d = Inr () \<longleftrightarrow> is_digest algorithm d"
  by (simp add: validate_digest_text_def)

lemma find_map_Some: "find_map f xs = Some y \<Longrightarrow> \<exists>x \<in> set xs. f x = Some y"
  by (induction xs) (auto split: option.splits)

text \<open>The digest is a token of a line that names the file, or the only digest of the text.\<close>

lemma digest_from_checksum_Inr:
  assumes "digest_from_checksum txt filename algorithm = Inr d"
  shows "is_digest algorithm d \<and> to_ascii_lowercase d = d
    \<and> (\<exists>token. is_digest algorithm token \<and> d = to_ascii_lowercase token
        \<and> ((\<exists>line \<in> set (text_lines txt). contains_str line filename \<and> token \<in> set (digest_tokens line))
           \<or> filter (is_digest algorithm) (digest_tokens txt) = [token]))"
proof -
  let ?lines = "filter (\<lambda>line. contains_str line filename) (text_lines txt)"
  have valid: "is_digest algorithm d" using assms by (auto simp: digest_from_checksum_def Let_def)
  show ?thesis
  proof (cases "find_map (digest_on_line algorithm) ?lines")
    case (Some token)
    then obtain line where line: "line \<in> set ?lines" "digest_on_line algorithm line = Some token"
      by (blast dest: find_map_Some)
    then have "token \<in> set (digest_tokens line)" "is_digest algorithm token"
      by (auto simp: digest_on_line_def find_Some_iff)
    moreover have "d = to_ascii_lowercase token"
      using assms Some by (auto simp: digest_from_checksum_def Let_def)
    ultimately show ?thesis using valid line by auto
  next
    case None
    with assms obtain token where "filter (is_digest algorithm) (digest_tokens txt) = [token]"
        "d = to_ascii_lowercase token"
      by (auto simp: digest_from_checksum_def Let_def length_Suc_conv split: if_splits)
    moreover from this have "is_digest algorithm token" by (metis filter_eq_Cons_iff)
    ultimately show ?thesis using valid by auto
  qed
qed

lemma hex_digit_is_hex: "n < 16 \<Longrightarrow> is_hex_digit (hex_digit n) \<and> ascii_lower (hex_digit n) = hex_digit n"
  by (auto simp: is_hex_digit_def hex_digit_def char_class_defs ascii_lower_def)

lemma nibbles: "unat (drop_bit 4 (b :: u8)) < 16" "unat (and b 0x0F) < 16"
proof -
  have "unat (drop_bit 4 b) = unat b div 16" by (simp add: drop_bit_eq_div unat_div)
  then show "unat (drop_bit 4 b) < 16" using unat_u8_less [of b] by simp
  have "and b 0x0F = take_bit 4 b" by (simp add: take_bit_eq_mask mask_eq_exp_minus_1)
  then have "unat (and b 0x0F) = unat b mod 16" by (simp add: take_bit_eq_mod unat_mod)
  then show "unat (and b 0x0F) < 16" by simp
qed

lemma image_hex_digits: "list_all is_hex_digit (image_hex bytes)"
  by (induction bytes) (simp_all add: image_hex_def hex_digit_is_hex nibbles)

section \<open>What a source is\<close>

text \<open>Only Fedora CoreOS names its file itself.\<close>

definition coreos_name_ok :: "upstream \<Rightarrow> bool" where
  "coreos_name_ok U = (case resolve_coreos U of Inr source \<Rightarrow> plain_name (src_filename source) | Inl _ \<Rightarrow> True)"

lemma resolved_name:
  assumes "resolve_source U entry = Inr source" and "resolver_ok (cat_resolver entry)" and "coreos_name_ok U"
  shows "plain_name (src_filename source)"
  using assms
  by (auto simp: resolve_source_def resolver_ok_def coreos_name_ok_def resolve_static_def resolve_flatcar_def
      resolve_github_asset_def resolve_github_pinned_asset_def Let_def FLATCAR_FILE_def plain_name_def
      split: image_resolver.splits)

section \<open>Paths stay inside\<close>

lemma path_join_eq:
  "path_join base path =
     (if is_absolute path then path
      else if base = [] \<or> ends_with base ''/'' then base @ path else base @ ''/'' @ path)"
  by (simp add: path_join_def is_absolute_def)

lemma split_on_snoc_sep: "split_on d (p @ d # s) = split_on d p @ split_on d s"
proof (induction p)
  case Nil
  then show ?case by simp
next
  case (Cons c p)
  then show ?case by (cases "split_on d p") auto
qed

lemma split_on_ends:
  assumes "ends_with base [d]"
  shows "filter (\<lambda>p. p \<noteq> []) (split_on d (base @ path))
    = filter (\<lambda>p. p \<noteq> []) (split_on d base) @ filter (\<lambda>p. p \<noteq> []) (split_on d path)"
proof -
  from assms obtain b where "base = b @ [d]" by (auto simp: ends_with_iff)
  then show ?thesis using split_on_snoc_sep [of d b path] split_on_snoc_sep [of d b "[]"] by simp
qed

lemma parts_join:
  assumes "\<not> is_absolute path"
  shows "filter (\<lambda>p. p \<noteq> []) (split_on CHR ''/'' (path_join base path))
    = filter (\<lambda>p. p \<noteq> []) (split_on CHR ''/'' base) @ filter (\<lambda>p. p \<noteq> []) (split_on CHR ''/'' path)"
proof (cases "base = []")
  case True
  then show ?thesis using assms by (simp add: path_join_eq)
next
  case False
  show ?thesis
  proof (cases "ends_with base ''/''")
    case True
    then show ?thesis using assms by (simp add: path_join_eq split_on_ends)
  next
    case ends: False
    then show ?thesis using assms False by (simp add: path_join_eq split_on_snoc_sep)
  qed
qed

lemma is_absolute_join: "\<not> is_absolute path \<Longrightarrow> is_absolute (path_join base path) \<longleftrightarrow> is_absolute base"
  by (cases base) (auto simp: path_join_eq is_absolute_def starts_with_def)

text \<open>A relative path of normal components adds its components to those of the directory it is joined to.\<close>

lemma components_join:
  assumes "\<not> is_absolute path" and "list_all normal (components path)"
  shows "components (path_join base path) = components base @ components path"
proof -
  let ?parts = "\<lambda>p. filter (\<lambda>p. p \<noteq> []) (split_on CHR ''/'' p)"
  have lead: "?parts path = [] \<or> hd (?parts path) \<noteq> ''.''"
    using assms by (auto simp: components_def Let_def normal_def split: if_splits)
  have joined: "?parts (path_join base path) = ?parts base @ ?parts path" by (rule parts_join [OF assms(1)])
  show ?thesis
    unfolding components_def Let_def joined is_absolute_join [OF assms(1)]
    using assms(1) lead by (cases "?parts base") (auto split: if_splits)
qed

lemma safe_relative_image_path_Inr:
  assumes "safe_relative_image_path manifest keys base = Inr path"
  shows "json_as_str (foldl json_get manifest keys) = Some path \<and> \<not> is_absolute path
    \<and> path_starts_with path base \<and> list_all normal (components path)"
  using assms by (auto simp: safe_relative_image_path_def split: if_splits)

end
