(* ===== verification/ImageStore.thy ===== *)
theory ImageStore
  imports Images
begin

text \<open>
  The image store of \<open>image.rs\<close>: a directory with the content-addressed raw images (\<open>objects\<close>), the sealed and
  baked images of tags, and a manifest per alias (\<open>aliases/<alias>.json\<close>). Reading it (\<open>read_alias_manifest\<close>,
  the \<open>resolve_alias\<close> functions, \<open>list\<close>) and filling it (\<open>pull_with\<close>).

  The store is a \<open>disk\<close>, a map from paths to contents. \<open>image_lib\<close> holds what is not the program's: the
  upstream and \<open>serde_json\<close>, the digests, the programs that unpack and convert, the names in a directory, and
  which file operations fail (\<open>im_fault\<close>): a failing operation reports an error and may leave the file it writes
  with any content. The theorems hold for all of them. Extracted archives are trees (\<open>dir_entry\<close>) beside the
  disk. File permissions and progress output are left out.
\<close>

section \<open>Files\<close>

datatype file_op =
    OpCreateDir string
  | OpRead string
  | OpWrite string
  | OpRename string string
  | OpRemove string
  | OpCopy string string
  | OpPermissions string nat
  | OpListing string

datatype dir_entry = FileEntry string string | DirEntry string "dir_entry list"

record image_lib =
  im_up :: upstream
  im_pretty :: "json \<Rightarrow> (string, string) result"
  im_hash :: "hash_algorithm \<Rightarrow> string \<Rightarrow> u8 list"
  im_pid :: nat
  im_nonce :: nat
  im_arch :: string
  im_fault :: "file_op \<Rightarrow> (string \<times> string option) option"
  im_listing :: "string \<Rightarrow> string list option"
  im_download :: "string \<Rightarrow> string \<Rightarrow> failure option \<times> string option"
  im_qemu :: "string option"
  im_run :: "string list \<Rightarrow> string option \<Rightarrow> (string \<times> bool, string) result"
  im_extract :: "string list \<Rightarrow> string option \<Rightarrow> (dir_entry list \<times> bool, string) result"

text \<open>What can be read: \<open>is_file\<close> and the outcome of reading the file.\<close>

type_synonym files = "string \<Rightarrow> (string, string) result option"

definition view :: "image_lib \<Rightarrow> disk \<Rightarrow> files" where
  "view I d path =
     map_option (\<lambda>c. case im_fault I (OpRead path) of None \<Rightarrow> Inr c | Some (e, _) \<Rightarrow> Inl e) (d path)"

definition is_file :: "files \<Rightarrow> string \<Rightarrow> bool" where
  "is_file files path \<longleftrightarrow> files path \<noteq> None"

definition read_file :: "files \<Rightarrow> string \<Rightarrow> (string, string) result" where
  "read_file files path = (case files path of None \<Rightarrow> Inl ''No such file or directory (os error 2)'' | Some r \<Rightarrow> r)"

definition state_error :: "string \<Rightarrow> failure" where
  "state_error e = image_state (''image store: '' @ e)"

definition hash_hex :: "image_lib \<Rightarrow> hash_algorithm \<Rightarrow> string \<Rightarrow> string" where
  "hash_hex I algorithm content = image_hex (im_hash I algorithm content)"

definition hash_file :: "image_lib \<Rightarrow> files \<Rightarrow> string \<Rightarrow> hash_algorithm \<Rightarrow> (string, failure) result" where
  "hash_file I files path algorithm =
     map_err state_error (and_then (read_file files path) (\<lambda>content. Inr (hash_hex I algorithm content)))"

text \<open>\<open>serde_json::Value::pointer\<close>\<close>

definition pointer_token :: "string \<Rightarrow> string" where
  "pointer_token token = replace_str ''~0'' ''~'' (replace_str ''~1'' ''/'' token)"

definition pointer_index :: "string \<Rightarrow> nat option" where
  "pointer_index token =
     (if starts_with token ''+'' \<or> starts_with token ''0'' \<and> length token \<noteq> 1 then None
      else parse_uint (2 ^ 64) token)"

definition pointer_step :: "json option \<Rightarrow> string \<Rightarrow> json option" where
  "pointer_step v token =
     (case v of
        Some (JObj m) \<Rightarrow> bm_get m token
      | Some (JArr xs) \<Rightarrow> (case pointer_index token of Some i \<Rightarrow> if i < length xs then Some (xs ! i) else None | None \<Rightarrow> None)
      | _ \<Rightarrow> None)"

definition json_pointer :: "json \<Rightarrow> string \<Rightarrow> json option" where
  "json_pointer v pointer =
     (if pointer = [] then Some v
      else if \<not> starts_with pointer ''/'' then None
      else foldl pointer_step (Some v) (map pointer_token (tl (split_on CHR ''/'' pointer))))"

definition pointer_str :: "json \<Rightarrow> string \<Rightarrow> string option" where
  "pointer_str v pointer = (case json_pointer v pointer of Some x \<Rightarrow> json_as_str x | None \<Rightarrow> None)"

text \<open>\<open>entry.get(key) == Some(&Value::Bool(true))\<close>\<close>

definition flagged :: "json \<Rightarrow> string \<Rightarrow> bool" where
  "flagged entry key \<longleftrightarrow> json_find entry key = Some (JBool True)"

section \<open>Reading manifests\<close>

definition ALIAS_VERSION :: string where "ALIAS_VERSION = ''vzctl.dev/image-alias/v1''"
definition DEFAULT_IMAGE_TAG :: string where "DEFAULT_IMAGE_TAG = ''v1''"

definition manifest_file :: "string \<Rightarrow> string \<Rightarrow> string" where
  "manifest_file dir image_alias = path_join (path_join dir ''aliases'') (image_alias @ ''.json'')"

definition read_alias_manifest :: "image_lib \<Rightarrow> files \<Rightarrow> string \<Rightarrow> string \<Rightarrow> (json option, string) result" where
  "read_alias_manifest I files dir image_alias =
     (let path = manifest_file dir image_alias
      in if \<not> is_safe_alias image_alias then Inr None
         else if \<not> is_file files path then Inr None
         else and_then (map_err (\<lambda>e. ''cannot read '' @ path @ '': '' @ e) (read_file files path)) (\<lambda>bytes.
              and_then (map_err (\<lambda>e. ''invalid alias manifest '' @ path @ '': '' @ e) (up_parse (im_up I) bytes)) (\<lambda>manifest.
                if json_get manifest ''apiVersion'' \<noteq> JStr ALIAS_VERSION
                then Inl (''unsupported alias manifest '' @ path) else Inr (Some manifest))))"

definition message_of :: "('a, failure) result \<Rightarrow> ('a, string) result" where
  "message_of r = map_err fail_message r"

definition resolve_alias_pulled :: "image_lib \<Rightarrow> files \<Rightarrow> string \<Rightarrow> string \<Rightarrow> (string option, string) result" where
  "resolve_alias_pulled I files dir image_alias =
     and_then (read_alias_manifest I files dir image_alias) (\<lambda>found.
       case found of
         None \<Rightarrow> Inr None
       | Some manifest \<Rightarrow>
           and_then (message_of (safe_object_path manifest)) (\<lambda>relative.
             let path = path_join dir relative
             in if is_file files path then Inr (Some path)
                else Inl (''alias '' @ image_alias @ '' references missing image '' @ path)))"

definition resolve_alias :: "image_lib \<Rightarrow> files \<Rightarrow> string \<Rightarrow> string \<Rightarrow> (string option, string) result" where
  "resolve_alias I files dir image_alias = resolve_alias_pulled I files dir image_alias"

definition tag_entry :: "json \<Rightarrow> string \<Rightarrow> json option" where
  "tag_entry manifest tag = json_pointer manifest (''/tags/'' @ tag)"

definition sealed_path :: "json \<Rightarrow> (string, failure) result" where
  "sealed_path entry = safe_relative_image_path entry [''sealed_image'', ''path''] ''sealed''"

definition baked_path :: "json \<Rightarrow> (string, failure) result" where
  "baked_path entry = safe_relative_image_path entry [''baked_image'', ''path''] ''baked''"

definition present :: "files \<Rightarrow> string \<Rightarrow> string \<Rightarrow> string \<Rightarrow> (string option, string) result" where
  "present files dir relative missing =
     (let path = path_join dir relative
      in if is_file files path then Inr (Some path) else Inl (missing @ path))"

definition resolve_alias_tag ::
    "image_lib \<Rightarrow> files \<Rightarrow> string \<Rightarrow> string \<Rightarrow> string \<Rightarrow> (string option, string) result" where
  "resolve_alias_tag I files dir image_alias tag =
     (if \<not> store_image_tag tag then Inl (''invalid image tag '' @ tag)
      else and_then (read_alias_manifest I files dir image_alias) (\<lambda>found.
        case (case found of None \<Rightarrow> None | Some manifest \<Rightarrow> tag_entry manifest tag) of
          None \<Rightarrow> Inr None
        | Some entry \<Rightarrow>
            if flagged entry ''sealed'' then
              and_then (message_of (sealed_path entry)) (\<lambda>relative.
                present files dir relative
                  (''alias '' @ image_alias @ '' tag '' @ tag @ '' references missing sealed image ''))
            else if flagged entry ''baked'' then
              and_then (message_of (baked_path entry)) (\<lambda>relative.
                present files dir relative
                  (''alias '' @ image_alias @ '' tag '' @ tag @ '' references missing baked image ''))
            else Inr None))"

definition tagged_seal_ready ::
    "image_lib \<Rightarrow> files \<Rightarrow> string \<Rightarrow> string \<Rightarrow> string \<Rightarrow> (bool, string) result" where
  "tagged_seal_ready I files dir image_alias tag =
     (if \<not> store_image_tag tag then Inl (''invalid image tag '' @ tag)
      else and_then (read_alias_manifest I files dir image_alias) (\<lambda>found.
        case (case found of None \<Rightarrow> None | Some manifest \<Rightarrow> tag_entry manifest tag) of
          None \<Rightarrow> Inr False
        | Some entry \<Rightarrow>
            if \<not> flagged entry ''sealed'' then Inr False
            else and_then (message_of (sealed_path entry)) (\<lambda>relative.
              Inr (is_file files (path_join dir relative)
                \<and> (case json_as_str (json_get (json_get entry ''sealed_image'') ''marker'') of
                     Some marker \<Rightarrow> is_file files marker | None \<Rightarrow> False)))))"

fun first_ready ::
    "image_lib \<Rightarrow> files \<Rightarrow> string \<Rightarrow> string \<Rightarrow> string list \<Rightarrow> (string option, string) result" where
  "first_ready I files dir image_alias [] = Inr None"
| "first_ready I files dir image_alias (tag # tags) =
     (if tag = DEFAULT_IMAGE_TAG then first_ready I files dir image_alias tags
      else and_then (tagged_seal_ready I files dir image_alias tag) (\<lambda>ready.
        if ready then resolve_alias_tag I files dir image_alias tag
        else first_ready I files dir image_alias tags))"

definition resolve_alias_for_vm :: "image_lib \<Rightarrow> files \<Rightarrow> string \<Rightarrow> string \<Rightarrow> (string option, string) result" where
  "resolve_alias_for_vm I files dir image_alias =
     and_then (tagged_seal_ready I files dir image_alias DEFAULT_IMAGE_TAG) (\<lambda>ready.
       if ready then resolve_alias_tag I files dir image_alias DEFAULT_IMAGE_TAG
       else and_then (read_alias_manifest I files dir image_alias) (\<lambda>found.
         case found of
           None \<Rightarrow> Inr None
         | Some manifest \<Rightarrow>
             (case json_find manifest ''tags'' of
                Some (JObj tags) \<Rightarrow> first_ready I files dir image_alias (sort (bm_keys tags))
              | _ \<Rightarrow> Inr None)))"

definition existing_tag_sealed_digest ::
    "image_lib \<Rightarrow> files \<Rightarrow> string \<Rightarrow> string \<Rightarrow> string \<Rightarrow> (string option, string) result" where
  "existing_tag_sealed_digest I files dir image_alias tag =
     and_then (read_alias_manifest I files dir image_alias) (\<lambda>found.
       Inr (case found of
              None \<Rightarrow> None
            | Some manifest \<Rightarrow> pointer_str manifest (''/tags/'' @ tag @ ''/sealed_image/sha256'')))"

section \<open>Listing\<close>

record list_image_tag =
  lt_tag :: string
  lt_path :: string
  lt_sha256 :: string
  lt_format :: string
  lt_baked :: bool
  lt_sealed :: bool
  lt_agent_version :: "string option"

record list_image =
  li_alias :: string
  li_canonical_alias :: string
  li_aliases :: "string list"
  li_distribution :: string
  li_release :: string
  li_architecture :: string
  li_path :: string
  li_sha256 :: string
  li_format :: string
  li_baked :: bool
  li_sealed :: bool
  li_agent_version :: "string option"
  li_tags :: "list_image_tag list"

definition str_or :: "string \<Rightarrow> json \<Rightarrow> string" where
  "str_or otherwise v = (case json_as_str v of Some s \<Rightarrow> s | None \<Rightarrow> otherwise)"

definition list_tag :: "string \<Rightarrow> string \<times> json \<Rightarrow> (list_image_tag option, failure) result" where
  "list_tag dir e =
     (let (tag, entry) = e;
          sealed = flagged entry ''sealed''; baked = flagged entry ''baked'';
          image = json_get entry (if sealed then ''sealed_image'' else ''baked_image'');
          agent = (case pointer_str entry ''/baked_image/agent_version'' of
                     Some v \<Rightarrow> Some v | None \<Rightarrow> json_as_str (json_get image ''agent_version''))
      in if \<not> store_image_tag tag \<or> \<not> sealed \<and> \<not> baked then Inr None
         else and_then (if sealed then sealed_path entry else baked_path entry) (\<lambda>relative.
              and_then (ok_or (image_state (''alias manifest tag lacks ''
                                 @ (if sealed then ''sealed_image.sha256'' else ''baked_image.sha256'')))
                         (json_as_str (json_get image ''sha256''))) (\<lambda>sha256.
                Inr (Some \<lparr>lt_tag = tag, lt_path = path_join dir relative, lt_sha256 = sha256,
                  lt_format = str_or ''raw'' (json_get image ''format''), lt_baked = baked \<or> sealed,
                  lt_sealed = sealed, lt_agent_version = agent\<rparr>))))"

fun list_tags :: "string \<Rightarrow> (string \<times> json) list \<Rightarrow> (list_image_tag list, failure) result" where
  "list_tags dir [] = Inr []"
| "list_tags dir (e # es) =
     and_then (list_tag dir e) (\<lambda>t. and_then (list_tags dir es) (\<lambda>ts.
       Inr (case t of None \<Rightarrow> ts | Some t \<Rightarrow> t # ts)))"

definition list_tags_from_manifest :: "string \<Rightarrow> json \<Rightarrow> (list_image_tag list, failure) result" where
  "list_tags_from_manifest dir manifest =
     (case json_find manifest ''tags'' of
        Some (JObj tags) \<Rightarrow> and_then (list_tags dir tags) (\<lambda>ts. Inr (sort_key lt_tag ts))
      | _ \<Rightarrow> Inr [])"

definition preferred_tag :: "list_image_tag list \<Rightarrow> list_image_tag option" where
  "preferred_tag tags = (case find lt_sealed tags of Some t \<Rightarrow> Some t | None \<Rightarrow> find lt_baked tags)"

definition list_image_from_manifest ::
    "image_lib \<Rightarrow> files \<Rightarrow> string \<Rightarrow> string \<Rightarrow> string \<Rightarrow> (list_image, failure) result" where
  "list_image_from_manifest I files dir image_alias path =
     and_then (map_err state_error (read_file files path)) (\<lambda>bytes.
     and_then (map_err (\<lambda>e. image_state (''invalid alias manifest '' @ path @ '': '' @ e))
                (up_parse (im_up I) bytes)) (\<lambda>manifest.
     if json_get manifest ''apiVersion'' \<noteq> JStr ALIAS_VERSION
     then Inl (image_state (''unsupported alias manifest '' @ path))
     else and_then (list_tags_from_manifest dir manifest) (\<lambda>tags.
          and_then (safe_object_path manifest) (\<lambda>object_relative.
          and_then (ok_or (image_state ''alias manifest lacks image.sha256'')
                     (json_as_str (json_get (json_get manifest ''image'') ''sha256''))) (\<lambda>object_sha.
            let object = \<lparr>lt_tag = [], lt_path = path_join dir object_relative, lt_sha256 = object_sha,
                  lt_format = str_or ''raw'' (json_get (json_get manifest ''image'') ''format''),
                  lt_baked = False, lt_sealed = False, lt_agent_version = None\<rparr>;
                shown = (case preferred_tag tags of Some t \<Rightarrow> t | None \<Rightarrow> object)
            in Inr \<lparr>li_alias = image_alias,
                 li_canonical_alias = str_or image_alias (json_get manifest ''canonical_alias''),
                 li_aliases = List.map_filter json_as_str (json_items (json_get manifest ''aliases'')),
                 li_distribution = str_or [] (json_get manifest ''distribution''),
                 li_release = str_or [] (json_get manifest ''release''),
                 li_architecture = str_or ''arm64'' (json_get manifest ''architecture''),
                 li_path = lt_path shown, li_sha256 = lt_sha256 shown, li_format = lt_format shown,
                 li_baked = lt_baked shown, li_sealed = lt_sealed shown,
                 li_agent_version = lt_agent_version shown, li_tags = tags\<rparr>)))))"

text \<open>\<open>Path::extension\<close> and \<open>Path::file_stem\<close> of an entry of a directory.\<close>

definition path_extension :: "string \<Rightarrow> string option" where
  "path_extension name =
     (case rsplit_once CHR ''.'' name of Some (stem, ext) \<Rightarrow> if stem = [] then None else Some ext | None \<Rightarrow> None)"

fun list_entries :: "image_lib \<Rightarrow> files \<Rightarrow> string \<Rightarrow> string list \<Rightarrow> (list_image list, failure) result" where
  "list_entries I files dir [] = Inr []"
| "list_entries I files dir (name # names) =
     (let path = path_join (path_join dir ''aliases'') name
      in if path_extension name \<noteq> Some ''json'' then list_entries I files dir names
         else and_then (if is_safe_alias (file_stem name) then Inr (file_stem name)
                        else Inl (image_state (''invalid alias manifest name '' @ path))) (\<lambda>image_alias.
              and_then (list_image_from_manifest I files dir image_alias path) (\<lambda>image.
              and_then (list_entries I files dir names) (\<lambda>images. Inr (image # images)))))"

definition image_list :: "image_lib \<Rightarrow> files \<Rightarrow> string \<Rightarrow> (list_image list, failure) result" where
  "image_list I files dir =
     (let directory = path_join dir ''aliases''
      in case im_listing I directory of
           None \<Rightarrow> Inr []
         | Some names \<Rightarrow>
             (case im_fault I (OpListing directory) of
                Some (e, _) \<Rightarrow> Inl (state_error e)
              | None \<Rightarrow> list_entries I files dir (sort names)))"

section \<open>Operations on the disk\<close>

type_synonym ('a, 'e) filed = "disk \<Rightarrow> ('a, 'e) result \<times> disk"

definition fd_of :: "('a, 'e) result \<Rightarrow> ('a, 'e) filed" where
  "fd_of r = (\<lambda>d. (r, d))"

definition fd_bind :: "('a, 'e) filed \<Rightarrow> ('a \<Rightarrow> ('b, 'e) filed) \<Rightarrow> ('b, 'e) filed" where
  "fd_bind m k = (\<lambda>d. case m d of (Inl e, d') \<Rightarrow> (Inl e, d') | (Inr x, d') \<Rightarrow> k x d')"

definition fd_err :: "('e \<Rightarrow> 'f) \<Rightarrow> ('a, 'e) filed \<Rightarrow> ('a, 'f) filed" where
  "fd_err f m = (\<lambda>d. case m d of (r, d') \<Rightarrow> (map_err f r, d'))"

definition fd_view :: "image_lib \<Rightarrow> (files \<Rightarrow> ('a, 'e) result) \<Rightarrow> ('a, 'e) filed" where
  "fd_view I f = (\<lambda>d. (f (view I d), d))"

fun fd_each :: "('a \<Rightarrow> (unit, 'e) filed) \<Rightarrow> 'a list \<Rightarrow> (unit, 'e) filed" where
  "fd_each f [] = fd_of (Inr ())"
| "fd_each f (x # xs) = fd_bind (f x) (\<lambda>_. fd_each f xs)"

text \<open>An operation that can fail: with its error, and perhaps with some content left in the file it writes.\<close>

definition fd_op :: "image_lib \<Rightarrow> file_op \<Rightarrow> string \<Rightarrow> (disk \<Rightarrow> disk) \<Rightarrow> (unit, string) filed" where
  "fd_op I operation path effect d =
     (case im_fault I operation of
        None \<Rightarrow> (Inr (), effect d)
      | Some (e, None) \<Rightarrow> (Inl e, d)
      | Some (e, Some left_over) \<Rightarrow> (Inl e, d(path := Some left_over)))"

definition create_dir :: "image_lib \<Rightarrow> string \<Rightarrow> (unit, string) filed" where
  "create_dir I path d =
     (case im_fault I (OpCreateDir path) of None \<Rightarrow> (Inr (), d) | Some (e, _) \<Rightarrow> (Inl e, d))"

definition write_file :: "image_lib \<Rightarrow> string \<Rightarrow> string \<Rightarrow> (unit, string) filed" where
  "write_file I path content = fd_op I (OpWrite path) path (\<lambda>d. d(path := Some content))"

definition rename_file :: "image_lib \<Rightarrow> string \<Rightarrow> string \<Rightarrow> (unit, string) filed" where
  "rename_file I source target d =
     (case im_fault I (OpRename source target) of
        Some (e, _) \<Rightarrow> (Inl e, d)
      | None \<Rightarrow>
          (case d source of
             None \<Rightarrow> (Inl ''No such file or directory (os error 2)'', d)
           | Some content \<Rightarrow> (Inr (), d(source := None, target := Some content))))"

definition remove_file :: "image_lib \<Rightarrow> string \<Rightarrow> (unit, string) filed" where
  "remove_file I path d =
     (case im_fault I (OpRemove path) of
        Some (e, _) \<Rightarrow> (Inl e, d)
      | None \<Rightarrow>
          (if d path = None then (Inl ''No such file or directory (os error 2)'', d)
           else (Inr (), d(path := None))))"

definition copy_file :: "image_lib \<Rightarrow> string \<Rightarrow> string \<Rightarrow> (unit, string) filed" where
  "copy_file I source target d =
     (case d source of
        None \<Rightarrow> (Inl ''No such file or directory (os error 2)'', d)
      | Some content \<Rightarrow> fd_op I (OpCopy source target) target (\<lambda>d. d(target := Some content)) d)"

definition under :: "string \<Rightarrow> string \<Rightarrow> bool" where
  "under dir path \<longleftrightarrow> starts_with path (dir @ ''/'')"

definition remove_dir_all :: "image_lib \<Rightarrow> string \<Rightarrow> disk \<Rightarrow> disk" where
  "remove_dir_all I dir d =
     (if im_fault I (OpRemove dir) = None then (\<lambda>path. if under dir path then None else d path) else d)"

definition json_temporary :: "image_lib \<Rightarrow> string \<Rightarrow> string" where
  "json_temporary I path = with_extension path (''json.tmp-'' @ show_nat (im_pid I))"

definition write_json_atomic :: "image_lib \<Rightarrow> string \<Rightarrow> json \<Rightarrow> (unit, failure) filed" where
  "write_json_atomic I path v =
     (let temporary = json_temporary I path
      in fd_bind (fd_of (map_err (\<lambda>e. image_state (''cannot serialize image alias: '' @ e)) (im_pretty I v))) (\<lambda>bytes.
         fd_bind (fd_err state_error (write_file I temporary (bytes @ [CHR 0x0A]))) (\<lambda>_.
           fd_err state_error (rename_file I temporary path))))"

section \<open>Unpacking and converting\<close>

definition unavailable :: "string \<Rightarrow> failure" where
  "unavailable message = \<lparr>fail_code = EXIT_UNAVAILABLE, fail_message = message\<rparr>"

text \<open>The outcome of a program: it could not be started, or it ran and was successful or not.\<close>

definition run_checked :: "string \<Rightarrow> ('a \<times> bool, string) result \<Rightarrow> ('a, failure) result" where
  "run_checked program outcome =
     (case outcome of
        Inl e \<Rightarrow> Inl (unavailable (program @ '' is required for image normalization: '' @ e))
      | Inr (output, ok) \<Rightarrow>
          if ok then Inr output else Inl (image_state (program @ '' failed while normalizing the image'')))"

definition fd_output :: "string \<Rightarrow> string \<Rightarrow> (string \<times> bool, string) result \<Rightarrow> (unit, failure) filed" where
  "fd_output program target outcome d =
     (map_err id (and_then (run_checked program outcome) (\<lambda>_. Inr ())),
      case outcome of Inl _ \<Rightarrow> d | Inr (output, _) \<Rightarrow> d(target := Some output))"

text \<open>\<open>File::create\<close> empties the target before the program reads its source.\<close>

definition decode_image :: "image_lib \<Rightarrow> string \<Rightarrow> string \<Rightarrow> string \<Rightarrow> (unit, failure) filed" where
  "decode_image I program source target =
     fd_bind (fd_err state_error (write_file I target [])) (\<lambda>_.
       (\<lambda>d. fd_output program target (im_run I [program, ''-dc'', source] (d source)) d))"

definition qemu_convert :: "image_lib \<Rightarrow> string \<Rightarrow> string option \<Rightarrow> string \<Rightarrow> (unit, failure) filed" where
  "qemu_convert I source content target =
     (case im_qemu I of
        None \<Rightarrow> fd_of (Inl (unavailable (''qemu-img is required for image normalization; run make vendor-qemu-img (or set VZCTL_QEMU_IMG)'')))
      | Some qemu \<Rightarrow>
          fd_output ''qemu-img'' target (im_run I [qemu, ''convert'', ''-O'', ''raw'', source, target] content))"

text \<open>\<open>find_file_with_extension\<close>: directories still to visit on a stack, the last one first.\<close>

fun scan_dir :: "string \<Rightarrow> string \<Rightarrow> dir_entry list \<Rightarrow> (string \<times> dir_entry list) list
    \<Rightarrow> (string \<times> string) option \<times> (string \<times> dir_entry list) list" where
  "scan_dir extension path [] stack = (None, stack)"
| "scan_dir extension path (DirEntry name entries # es) stack =
     scan_dir extension path es ((path_join path name, entries) # stack)"
| "scan_dir extension path (FileEntry name content # es) stack =
     (if (case path_extension name of Some e \<Rightarrow> eq_ignore_ascii_case e extension | None \<Rightarrow> False)
      then (Some (path_join path name, content), stack)
      else scan_dir extension path es stack)"

fun entry_weight :: "dir_entry \<Rightarrow> nat" where
  "entry_weight (FileEntry name content) = 0"
| "entry_weight (DirEntry name entries) = Suc (sum_list (map entry_weight entries))"

definition stack_weight :: "(string \<times> dir_entry list) list \<Rightarrow> nat" where
  "stack_weight stack = sum_list (map (\<lambda>(path, entries). Suc (sum_list (map entry_weight entries))) stack)"

lemma stack_weight_simps [simp]:
  "stack_weight [] = 0"
  "stack_weight ((path, entries) # stack) = Suc (sum_list (map entry_weight entries)) + stack_weight stack"
  by (simp_all add: stack_weight_def)

lemma scan_dir_weight:
  "scan_dir extension path es stack = (None, stack') \<Longrightarrow>
     stack_weight stack' = sum_list (map entry_weight es) + stack_weight stack"
  by (induction extension path es stack arbitrary: stack' rule: scan_dir.induct) (auto split: if_splits)

function find_file_from ::
    "image_lib \<Rightarrow> string \<Rightarrow> (string \<times> dir_entry list) list \<Rightarrow> ((string \<times> string) option, failure) result" where
  "find_file_from I extension [] = Inr None"
| "find_file_from I extension ((path, entries) # stack) =
     (case im_fault I (OpListing path) of
        Some (e, _) \<Rightarrow> Inl (state_error e)
      | None \<Rightarrow>
          (case scan_dir extension path entries stack of
             (Some found, _) \<Rightarrow> Inr (Some found)
           | (None, stack') \<Rightarrow> find_file_from I extension stack'))"
  by pat_completeness auto
termination
  by (relation "measure (\<lambda>(I, extension, stack). stack_weight stack)") (auto dest: scan_dir_weight [OF sym])

definition find_file_with_extension ::
    "image_lib \<Rightarrow> string \<Rightarrow> dir_entry list \<Rightarrow> string \<Rightarrow> ((string \<times> string) option, failure) result" where
  "find_file_with_extension I directory entries extension = find_file_from I extension [(directory, entries)]"

text \<open>An archive is unpacked in a directory of its own and the disk image in it converted.\<close>

definition convert_unpacked :: "image_lib \<Rightarrow> string list \<Rightarrow> string \<Rightarrow> string \<Rightarrow> string \<Rightarrow> string \<Rightarrow> string
    \<Rightarrow> (unit, failure) filed" where
  "convert_unpacked I arguments extracted source extension missing target =
     fd_bind (fd_err state_error (create_dir I extracted)) (\<lambda>_.
     fd_bind (\<lambda>d. (run_checked (hd arguments) (im_extract I arguments (d source)), d)) (\<lambda>entries.
     fd_bind (fd_of (find_file_with_extension I extracted entries extension)) (\<lambda>found.
       case found of
         None \<Rightarrow> fd_of (Inl (image_state missing))
       | Some (path, content) \<Rightarrow> qemu_convert I path (Some content) target)))"

definition normalize_image :: "image_lib \<Rightarrow> string \<Rightarrow> source_format \<Rightarrow> string \<Rightarrow> string \<Rightarrow> (unit, failure) filed" where
  "normalize_image I source fmt target work =
     (case fmt of
        Raw \<Rightarrow> fd_err state_error (copy_file I source target)
      | Qcow2 \<Rightarrow> (\<lambda>d. qemu_convert I source (d source) target d)
      | RawZst \<Rightarrow> decode_image I ''zstd'' source target
      | RawBz2 \<Rightarrow> decode_image I ''bzip2'' source target
      | Qcow2Xz \<Rightarrow>
          (let unpacked = path_join work ''source.qcow2''
           in fd_bind (decode_image I ''xz'' source unpacked) (\<lambda>_.
                (\<lambda>d. qemu_convert I unpacked (d unpacked) target d)))
      | Ova \<Rightarrow>
          (let extracted = path_join work ''ova''
           in convert_unpacked I [''tar'', ''-xf'', source, ''-C'', extracted] extracted source ''vmdk''
                ''Photon OVA contains no VMDK disk'' target)
      | ZipQcow2 \<Rightarrow>
          (let extracted = path_join work ''zip''
           in convert_unpacked I [''unzip'', ''-q'', source, ''-d'', extracted] extracted source ''qcow2''
                ''Arch VM archive contains no qcow2 disk'' target))"

section \<open>Pulling an image\<close>

record pull_result =
  pr_requested_alias :: string
  pr_canonical_alias :: string
  pr_distribution :: string
  pr_release :: string
  pr_source_url :: string
  pr_source_format :: string
  pr_source_algorithm :: string
  pr_source_digest :: string
  pr_normalized_digest :: string
  pr_image_path :: string
  pr_manifest_path :: string
  pr_unchanged :: bool
  pr_sealed :: bool
  pr_aliases :: "string list"

definition pull_report :: "string \<Rightarrow> string \<Rightarrow> catalog_entry \<Rightarrow> resolved_source \<Rightarrow> string \<Rightarrow> string \<Rightarrow> string \<Rightarrow> bool
    \<Rightarrow> bool \<Rightarrow> pull_result" where
  "pull_report dir image_alias entry source release digest image_path unchanged sealed =
     \<lparr>pr_requested_alias = image_alias, pr_canonical_alias = cat_canonical entry,
      pr_distribution = cat_distribution entry, pr_release = release, pr_source_url = src_url source,
      pr_source_format = format_label (src_format source),
      pr_source_algorithm = algorithm_name (src_algorithm source), pr_source_digest = src_digest source,
      pr_normalized_digest = digest, pr_image_path = image_path,
      pr_manifest_path = manifest_file dir image_alias, pr_unchanged = unchanged, pr_sealed = sealed,
      pr_aliases = cat_aliases entry\<rparr>"

definition unchanged_result ::
    "image_lib \<Rightarrow> files \<Rightarrow> string \<Rightarrow> catalog_entry \<Rightarrow> resolved_source \<Rightarrow> string \<Rightarrow> (pull_result option, failure) result" where
  "unchanged_result I files image_alias entry source dir =
     (let path = manifest_file dir image_alias
      in if \<not> is_file files path then Inr None
         else and_then (map_err state_error (read_file files path)) (\<lambda>bytes.
              and_then (map_err (\<lambda>e. image_state (''invalid alias manifest '' @ path @ '': '' @ e))
                         (up_parse (im_up I) bytes)) (\<lambda>manifest.
              if json_get manifest ''apiVersion'' \<noteq> JStr ALIAS_VERSION
                 \<or> json_get (json_get manifest ''source'') ''digest'' \<noteq> JStr (src_digest source)
                 \<or> json_get (json_get manifest ''source'') ''algorithm'' \<noteq> JStr (algorithm_name (src_algorithm source))
              then Inr None
              else and_then (safe_object_path manifest) (\<lambda>relative.
                let object_path = path_join dir relative
                in if \<not> is_file files object_path then Inr None
                   else and_then (ok_or (image_state ''alias manifest lacks image.sha256'')
                                   (json_as_str (json_get (json_get manifest ''image'') ''sha256''))) (\<lambda>object_digest.
                        and_then (hash_file I files object_path Sha256) (\<lambda>actual.
                          if actual \<noteq> object_digest
                          then Inl (image_checksum (''local image checksum mismatch: '' @ object_path))
                          else let sealed =
                                 (case json_find manifest ''tags'' of
                                    Some (JObj tags) \<Rightarrow> list_ex (\<lambda>entry. flagged entry ''sealed'') (bm_values tags)
                                  | _ \<Rightarrow> False)
                                 \<or> json_get manifest ''sealed'' = JBool True
                               in Inr (Some (pull_report dir image_alias entry source
                                    (str_or (cat_release entry) (json_get manifest ''release'')) object_digest
                                    object_path True sealed))))))))"

definition alias_manifest :: "catalog_entry \<Rightarrow> resolved_source \<Rightarrow> string \<Rightarrow> string \<Rightarrow> string \<Rightarrow> json" where
  "alias_manifest entry source normalized_digest relative_object release =
     json_obj
       [(''apiVersion'', JStr ALIAS_VERSION),
        (''canonical_alias'', JStr (cat_canonical entry)),
        (''aliases'', JArr (map JStr (cat_aliases entry))),
        (''distribution'', JStr (cat_distribution entry)),
        (''release'', JStr release),
        (''architecture'', JStr ''arm64''),
        (''sealed'', JBool False),
        (''tags'', json_obj []),
        (''source'', json_obj
           [(''url'', JStr (src_url source)), (''filename'', JStr (src_filename source)),
            (''format'', JStr (format_label (src_format source))),
            (''algorithm'', JStr (algorithm_name (src_algorithm source))),
            (''digest'', JStr (src_digest source))]),
        (''image'', json_obj
           [(''path'', JStr relative_object), (''format'', JStr ''raw''), (''sha256'', JStr normalized_digest)])]"

definition relative_object :: "string \<Rightarrow> string" where
  "relative_object digest = ''objects/'' @ digest @ ''.raw''"

definition release_of :: "catalog_entry \<Rightarrow> resolved_source \<Rightarrow> string" where
  "release_of entry source = (case src_release source of Some release \<Rightarrow> release | None \<Rightarrow> cat_release entry)"

definition download_image :: "image_lib \<Rightarrow> string \<Rightarrow> string \<Rightarrow> (unit, failure) filed" where
  "download_image I url target d =
     (let (failed, content) = im_download I url target
      in (case failed of None \<Rightarrow> Inr () | Some e \<Rightarrow> Inl e,
          case content of None \<Rightarrow> d | Some c \<Rightarrow> d(target := Some c)))"

definition verify_digest :: "image_lib \<Rightarrow> resolved_source \<Rightarrow> string \<Rightarrow> (unit, failure) filed" where
  "verify_digest I source downloaded =
     fd_bind (fd_view I (\<lambda>files. hash_file I files downloaded (src_algorithm source))) (\<lambda>actual.
       if actual \<noteq> to_ascii_lowercase (src_digest source)
       then fd_of (Inl (image_checksum
              (algorithm_name (src_algorithm source) @ '' mismatch for '' @ src_filename source @ '': expected ''
                @ src_digest source @ '', got '' @ actual)))
       else fd_of (Inr ()))"

definition store_object :: "image_lib \<Rightarrow> string \<Rightarrow> string \<Rightarrow> (unit, failure) filed" where
  "store_object I normalized image_path d =
     fd_err state_error (if d image_path \<noteq> None then remove_file I normalized
                         else rename_file I normalized image_path) d"

definition pull_operation ::
    "image_lib \<Rightarrow> string \<Rightarrow> string \<Rightarrow> catalog_entry \<Rightarrow> resolved_source \<Rightarrow> string \<Rightarrow> (pull_result, failure) filed" where
  "pull_operation I dir image_alias entry source work =
     (let downloaded = path_join work (src_filename source);
          normalized = path_join work ''normalized.raw''
      in fd_bind (download_image I (src_url source) downloaded) (\<lambda>_.
         fd_bind (verify_digest I source downloaded) (\<lambda>_.
         fd_bind (normalize_image I downloaded (src_format source) normalized work) (\<lambda>_.
         fd_bind (fd_view I (\<lambda>files. hash_file I files normalized Sha256)) (\<lambda>digest.
           let image_path = path_join dir (relative_object digest);
               release = release_of entry source;
               manifest = alias_manifest entry source digest (relative_object digest) release
           in fd_bind (store_object I normalized image_path) (\<lambda>_.
              fd_bind (fd_each (\<lambda>a. write_json_atomic I (manifest_file dir a) manifest) (cat_aliases entry)) (\<lambda>_.
                fd_of (Inr (pull_report dir image_alias entry source release digest image_path False False)))))))))"

definition work_dir :: "image_lib \<Rightarrow> string \<Rightarrow> string" where
  "work_dir I dir =
     path_join (path_join dir ''.tmp'') (''pull-'' @ show_nat (im_pid I) @ ''-'' @ show_nat (im_nonce I))"

definition pull_downloaded ::
    "image_lib \<Rightarrow> string \<Rightarrow> string \<Rightarrow> catalog_entry \<Rightarrow> resolved_source \<Rightarrow> (pull_result, failure) filed" where
  "pull_downloaded I dir image_alias entry source =
     fd_bind (fd_err state_error (create_dir I (work_dir I dir))) (\<lambda>_.
       (\<lambda>d. case pull_operation I dir image_alias entry source (work_dir I dir) d of
              (r, d') \<Rightarrow> (r, remove_dir_all I (work_dir I dir) d')))"

definition pull_with :: "image_lib \<Rightarrow> string \<Rightarrow> string \<Rightarrow> bool \<Rightarrow> (pull_result, failure) filed" where
  "pull_with I dir image_alias enforce_host_arch =
     (if enforce_host_arch \<and> im_arch I \<noteq> ''aarch64'' then
        fd_of (Inl \<lparr>fail_code = EXIT_IMAGE_ARCH,
                    fail_message = ''image pull supports ARM64 hosts only; detected '' @ im_arch I\<rparr>)
      else fd_bind (fd_of (ok_or
             \<lparr>fail_code = EXIT_IMAGE_INPUT,
              fail_message = ''unknown image alias '' @ image_alias @ ''; supported aliases: ''
                @ join '', '' catalog_aliases\<rparr> (find_catalog_entry image_alias))) (\<lambda>entry.
           fd_bind (fd_of (resolve_source (im_up I) entry)) (\<lambda>source.
           fd_bind (fd_of (validate_digest_text (src_algorithm source) (src_digest source))) (\<lambda>_.
           fd_bind (fd_each (\<lambda>name. fd_err state_error (create_dir I (path_join dir name)))
                      [''objects'', ''aliases'', ''.tmp'']) (\<lambda>_.
           fd_bind (fd_view I (\<lambda>files. unchanged_result I files image_alias entry source dir)) (\<lambda>found.
             case found of
               Some result \<Rightarrow> fd_of (Inr result)
             | None \<Rightarrow> pull_downloaded I dir image_alias entry source))))))"

section \<open>Paths of the store\<close>

text \<open>A directory with the slash that joins a relative path to it.\<close>

definition base_dir :: "string \<Rightarrow> string" where
  "base_dir dir = (if dir = [] \<or> ends_with dir ''/'' then dir else dir @ ''/'')"

lemma join_base: "\<not> is_absolute path \<Longrightarrow> path_join dir path = base_dir dir @ path"
  by (simp add: path_join_eq base_dir_def)

lemma join_inj: "\<not> is_absolute p \<Longrightarrow> \<not> is_absolute q \<Longrightarrow> path_join dir p = path_join dir q \<longleftrightarrow> p = q"
  by (simp add: join_base)

lemma is_absolute_simps [simp]:
  "is_absolute (c # s) \<longleftrightarrow> c = CHR ''/''" "\<not> is_absolute []"
  by (simp_all add: is_absolute_def starts_with_def)

lemma join_plain_dir:
  assumes "dir \<noteq> []" and "last dir \<noteq> CHR ''/''" and "\<not> is_absolute path"
  shows "path_join dir path = dir @ ''/'' @ path"
proof -
  have "\<not> ends_with dir ''/''" using assms(2) by (auto simp: ends_with_iff)
  with assms show ?thesis by (simp add: path_join_eq)
qed

lemma safe_alias_no_slash: "is_safe_alias a \<Longrightarrow> CHR ''/'' \<notin> set a \<and> a \<noteq> []"
  by (auto simp: is_safe_alias_def list_all_iff is_ascii_alphanumeric_def char_class_defs)

lemma safe_alias_relative: "is_safe_alias a \<Longrightarrow> \<not> is_absolute (a @ s)"
  using safe_alias_no_slash [of a] by (cases a) auto

lemma join_sub: "x \<noteq> [] \<Longrightarrow> last x \<noteq> CHR ''/'' \<Longrightarrow> \<not> is_absolute x \<Longrightarrow> \<not> is_absolute y \<Longrightarrow>
    path_join (path_join dir x) y = base_dir dir @ x @ ''/'' @ y"
proof -
  assume x: "x \<noteq> []" "last x \<noteq> CHR ''/''" "\<not> is_absolute x" and y: "\<not> is_absolute y"
  have "base_dir dir @ x \<noteq> []" "last (base_dir dir @ x) \<noteq> CHR ''/''" using x by simp_all
  from join_plain_dir [OF this y] x show ?thesis by (simp add: join_base)
qed

lemma manifest_file_eq: "is_safe_alias a \<Longrightarrow> manifest_file dir a = base_dir dir @ ''aliases/'' @ a @ ''.json''"
  by (simp add: manifest_file_def join_sub safe_alias_relative)

lemma rsplit_once_last: "c \<notin> set q \<Longrightarrow> rsplit_once c (p @ c # q) = Some (p, q)"
proof -
  assume "c \<notin> set q"
  then have "split_once c (rev q @ c # rev p) = Some (rev q, rev p)" by (simp add: split_once_Some)
  then show ?thesis by (simp add: rsplit_once_def)
qed

lemma with_extension_file:
  assumes "CHR ''/'' \<notin> set name" and "name \<noteq> []" and "CHR ''.'' \<notin> set ext"
    and that: "CHR ''/'' \<notin> set ext" "ext \<noteq> []"
  shows "with_extension (p @ ''/'' @ name @ ''.'' @ ext) new = p @ ''/'' @ name @ ''.'' @ new"
proof -
  have split: "split_file_name (p @ ''/'' @ name @ ''.'' @ ext) = (p @ ''/'', name @ ''.'' @ ext)"
    using assms that rsplit_once_last [of "CHR ''/''" "name @ ''.'' @ ext" p]
    by (simp add: split_file_name_def)
  have long: "length (name @ ''.'' @ ext) > 2"
    using assms(2) that(2) by (cases name; cases ext) auto
  have "file_stem (name @ ''.'' @ ext) = name"
    using assms rsplit_once_last [of "CHR ''.''" ext name] by (simp add: file_stem_def)
  moreover have "has_file_name (p @ ''/'' @ name @ ''.'' @ ext)"
    unfolding has_file_name_def split using long by (auto dest: arg_cong [where f = length])
  ultimately show ?thesis unfolding with_extension_def split Let_def by simp
qed

lemma json_temporary_eq:
  assumes "is_safe_alias a"
  shows "json_temporary I (manifest_file dir a)
    = base_dir dir @ ''aliases/'' @ a @ ''.json.tmp-'' @ show_nat (im_pid I)"
proof -
  have "with_extension ((base_dir dir @ ''aliases'') @ ''/'' @ a @ ''.'' @ ''json'') (''json.tmp-'' @ show_nat (im_pid I))
    = (base_dir dir @ ''aliases'') @ ''/'' @ a @ ''.'' @ ''json.tmp-'' @ show_nat (im_pid I)"
    by (rule with_extension_file) (use safe_alias_no_slash [OF assms] in auto)
  then show ?thesis by (simp add: json_temporary_def manifest_file_eq [OF assms])
qed

definition object_file :: "string \<Rightarrow> string \<Rightarrow> string" where
  "object_file dir digest = path_join dir (relative_object digest)"

lemma object_file_eq: "object_file dir digest = base_dir dir @ ''objects/'' @ digest @ ''.raw''"
  by (simp add: object_file_def relative_object_def join_base)

lemma work_dir_eq:
  "work_dir I dir = base_dir dir @ ''.tmp/pull-'' @ show_nat (im_pid I) @ ''-'' @ show_nat (im_nonce I)"
  by (simp add: work_dir_def join_sub)

lemma show_nat_no_slash: "CHR ''/'' \<notin> set (show_nat n)"
  using show_nat_digits [of n] by (auto simp: list_all_iff char_class_defs)

lemma work_dir_last: "work_dir I dir \<noteq> [] \<and> last (work_dir I dir) \<noteq> CHR ''/''"
proof -
  have "last (work_dir I dir) = last (show_nat (im_nonce I))" by (simp add: work_dir_eq)
  moreover have "last (show_nat (im_nonce I)) \<in> set (show_nat (im_nonce I))" by simp
  ultimately have "last (work_dir I dir) \<noteq> CHR ''/''" using show_nat_no_slash [of "im_nonce I"] by metis
  then show ?thesis by (simp add: work_dir_eq)
qed

lemma work_file: "\<not> is_absolute name \<Longrightarrow> path_join (work_dir I dir) name = work_dir I dir @ ''/'' @ name"
  using work_dir_last [of I dir] by (simp add: join_plain_dir)

lemma under_work: "\<not> is_absolute name \<Longrightarrow> under (work_dir I dir) (path_join (work_dir I dir) name)"
  by (simp add: under_def starts_with_iff work_file)

lemma plain_relative: "CHR ''/'' \<notin> set name \<Longrightarrow> \<not> is_absolute name"
  by (cases name) auto

section \<open>What an operation changes\<close>

text \<open>\<open>scratch\<close> are the files of a pull in progress: its work directory and the temporary files of manifests.\<close>

definition scratch :: "image_lib \<Rightarrow> string \<Rightarrow> string \<Rightarrow> bool" where
  "scratch I dir path \<longleftrightarrow>
     under (work_dir I dir) path \<or> (\<exists>a. is_safe_alias a \<and> path = json_temporary I (manifest_file dir a))"

lemma scratch_work: "\<not> is_absolute name \<Longrightarrow> scratch I dir (path_join (work_dir I dir) name)"
  by (simp add: scratch_def under_work)

lemma object_not_scratch: "\<not> scratch I dir (object_file dir digest)"
  by (auto simp: scratch_def under_def starts_with_iff object_file_eq work_dir_eq json_temporary_eq)

lemma object_not_manifest: "is_safe_alias a \<Longrightarrow> object_file dir digest \<noteq> manifest_file dir a"
  by (simp add: object_file_eq manifest_file_eq)

lemma object_file_inj [simp]: "object_file dir x = object_file dir y \<longleftrightarrow> x = y"
  by (simp add: object_file_eq)

lemma manifest_not_scratch: "is_safe_alias a \<Longrightarrow> \<not> scratch I dir (manifest_file dir a)"
proof -
  assume a: "is_safe_alias a"
  have "\<not> under (work_dir I dir) (manifest_file dir a)"
    by (auto simp: under_def starts_with_iff manifest_file_eq [OF a] work_dir_eq)
  moreover have "manifest_file dir a \<noteq> json_temporary I (manifest_file dir b)" if b: "is_safe_alias b" for b
  proof
    assume "manifest_file dir a = json_temporary I (manifest_file dir b)"
    then have eq: "a @ ''.json'' = b @ ''.json.tmp-'' @ show_nat (im_pid I)"
      by (simp add: manifest_file_eq [OF a] json_temporary_eq [OF b])
    have "last (a @ ''.json'') = CHR ''n''" by simp
    with eq have "last (show_nat (im_pid I)) = CHR ''n''" by simp
    moreover have "is_ascii_digit (last (show_nat (im_pid I)))"
      using show_nat_digits [of "im_pid I"] by (simp add: list_all_iff)
    ultimately show False by (simp add: char_class_defs)
  qed
  ultimately show ?thesis by (auto simp: scratch_def)
qed

section \<open>What a pull publishes\<close>

text \<open>What the bytes of a download are normalised to, as a value: the abstract \<open>normalize\<close>.\<close>

definition program_output :: "('a \<times> bool, string) result \<Rightarrow> 'a option" where
  "program_output outcome = (case outcome of Inr (output, True) \<Rightarrow> Some output | _ \<Rightarrow> None)"

definition converted :: "image_lib \<Rightarrow> string \<Rightarrow> string \<Rightarrow> string \<Rightarrow> string option" where
  "converted I source target content =
     (case im_qemu I of
        None \<Rightarrow> None
      | Some qemu \<Rightarrow> program_output (im_run I [qemu, ''convert'', ''-O'', ''raw'', source, target] (Some content)))"

definition decoded :: "image_lib \<Rightarrow> string \<Rightarrow> string \<Rightarrow> string \<Rightarrow> string option" where
  "decoded I program source content = program_output (im_run I [program, ''-dc'', source] (Some content))"

definition unpacked_image :: "image_lib \<Rightarrow> string list \<Rightarrow> string \<Rightarrow> string \<Rightarrow> string \<Rightarrow> string \<Rightarrow> string option" where
  "unpacked_image I arguments extracted extension target content =
     (case program_output (im_extract I arguments (Some content)) of
        None \<Rightarrow> None
      | Some entries \<Rightarrow>
          (case find_file_with_extension I extracted entries extension of
             Inr (Some (path, disk_image)) \<Rightarrow> converted I path target disk_image
           | _ \<Rightarrow> None))"

definition image_of :: "image_lib \<Rightarrow> string \<Rightarrow> source_format \<Rightarrow> string \<Rightarrow> string \<Rightarrow> string \<Rightarrow> string option" where
  "image_of I source fmt target work content =
     (let unpacked = path_join work ''source.qcow2''; ova = path_join work ''ova''; zip_dir = path_join work ''zip''
      in case fmt of
        Raw \<Rightarrow> Some content
      | Qcow2 \<Rightarrow> converted I source target content
      | RawZst \<Rightarrow> decoded I ''zstd'' source content
      | RawBz2 \<Rightarrow> decoded I ''bzip2'' source content
      | Qcow2Xz \<Rightarrow> Option.bind (decoded I ''xz'' source content) (converted I unpacked target)
      | Ova \<Rightarrow> unpacked_image I [''tar'', ''-xf'', source, ''-C'', ova] ova ''vmdk'' target content
      | ZipQcow2 \<Rightarrow> unpacked_image I [''unzip'', ''-q'', source, ''-d'', zip_dir] zip_dir ''qcow2'' target content)"

text \<open>A run that keeps every file outside a set as it was.\<close>

definition only :: "(string \<Rightarrow> bool) \<Rightarrow> disk \<Rightarrow> disk \<Rightarrow> bool" where
  "only S d d' \<longleftrightarrow> (\<forall>p. \<not> S p \<longrightarrow> d' p = d p)"

lemma only_refl [simp]: "only S d d"
  by (simp add: only_def)

lemma only_upd [simp]: "S p \<Longrightarrow> only S d (d(p := v))"
  by (simp add: only_def)

lemma only_trans [trans]: "only S d d' \<Longrightarrow> only S d' d'' \<Longrightarrow> only S d d''"
  by (simp add: only_def)

lemma only_mono: "only S d d' \<Longrightarrow> (\<And>p. S p \<Longrightarrow> T p) \<Longrightarrow> only T d d'"
  by (auto simp: only_def)

text \<open>Elimination rules for a run that returns.\<close>

lemma fd_bind_Inr:
  assumes "fd_bind m k d = (Inr y, d'')"
  obtains x d' where "m d = (Inr x, d')" and "k x d' = (Inr y, d'')"
  using assms by (auto simp: fd_bind_def split: prod.splits sum.splits)

lemma fd_bind_result:
  assumes "fd_bind m k d = (r, d'')"
  obtains (error) e where "m d = (Inl e, d'')" and "r = Inl e"
    | (ok) x d' where "m d = (Inr x, d')" and "k x d' = (r, d'')"
  using assms by (auto simp: fd_bind_def split: prod.splits sum.splits)

lemma fd_bind_of: "fd_bind (fd_of (Inr x)) k = k x" "fd_bind (fd_of (Inl e)) k = fd_of (Inl e)"
  by (simp_all add: fd_bind_def fd_of_def)

lemma fd_bind_ok: "m d = (Inr x, d') \<Longrightarrow> fd_bind m k d = k x d'"
  by (simp add: fd_bind_def)

lemma fd_bind_fail: "m d = (Inl e, d') \<Longrightarrow> fd_bind m k d = (Inl e, d')"
  by (simp add: fd_bind_def)

lemma fd_bind_view: "fd_bind (fd_view I f) k d = (case f (view I d) of Inl e \<Rightarrow> (Inl e, d) | Inr x \<Rightarrow> k x d)"
  by (simp add: fd_bind_def fd_view_def split: sum.split)

lemma fd_of_run [simp]: "fd_of r d = (r, d)"
  by (simp add: fd_of_def)

lemma fd_err_run [simp]: "fd_err f m d = (map_err f (fst (m d)), snd (m d))"
  by (simp add: fd_err_def split_beta)

lemma fd_view_run [simp]: "fd_view I f d = (f (view I d), d)"
  by (simp add: fd_view_def)

lemma fd_op_only: "S path \<Longrightarrow> (\<And>d. only S d (effect d)) \<Longrightarrow> only S d (snd (fd_op I operation path effect d))"
  by (auto simp: fd_op_def split: option.splits)

lemma fd_op_Inr: "fst (fd_op I operation path effect d) = Inr () \<Longrightarrow> snd (fd_op I operation path effect d) = effect d"
  by (auto simp: fd_op_def split: option.splits)

lemma write_file_only: "S path \<Longrightarrow> only S d (snd (write_file I path content d))"
  by (simp add: write_file_def fd_op_only)

lemma write_file_Inr: "fst (write_file I path content d) = Inr () \<Longrightarrow> snd (write_file I path content d) = d(path := Some content)"
  unfolding write_file_def by (rule fd_op_Inr)

lemma copy_file_only: "S target \<Longrightarrow> only S d (snd (copy_file I source target d))"
  by (auto simp: copy_file_def fd_op_only split: option.splits)

lemma copy_file_Inr:
  "fst (copy_file I source target d) = Inr () \<Longrightarrow>
     \<exists>c. d source = Some c \<and> snd (copy_file I source target d) = d(target := Some c)"
  by (auto simp: copy_file_def dest: fd_op_Inr split: option.splits)

lemma create_dir_snd [simp]: "snd (create_dir I path d) = d"
  by (auto simp: create_dir_def split: option.splits)

lemma fd_output_only: "S target \<Longrightarrow> only S d (snd (fd_output program target outcome d))"
  by (auto simp: fd_output_def split: sum.splits)

lemma fd_output_Inr:
  "fst (fd_output program target outcome d) = Inr () \<Longrightarrow>
     \<exists>output. program_output outcome = Some output \<and> snd (fd_output program target outcome d) = d(target := Some output)"
  by (auto simp: fd_output_def run_checked_def program_output_def split: sum.splits if_splits)

lemma run_checked_Inr: "run_checked program outcome = Inr x \<Longrightarrow> program_output outcome = Some x"
  by (auto simp: run_checked_def program_output_def split: sum.splits if_splits)

section \<open>normalize computes image_of\<close>

lemma qemu_convert_only: "S target \<Longrightarrow> only S d (snd (qemu_convert I source content target d))"
  by (auto simp: qemu_convert_def fd_output_only split: option.splits)

lemma qemu_convert_Inr:
  "fst (qemu_convert I source (Some content) target d) = Inr () \<Longrightarrow>
     \<exists>output. converted I source target content = Some output
       \<and> snd (qemu_convert I source (Some content) target d) = d(target := Some output)"
  by (auto simp: qemu_convert_def converted_def dest: fd_output_Inr split: option.splits)

lemma decode_image_only: "S target \<Longrightarrow> only S d (snd (decode_image I program source target d))"
proof -
  assume S: "S target"
  let ?d = "snd (write_file I target [] d)"
  have "only S d ?d" using S by (rule write_file_only)
  moreover have "only S ?d (snd (fd_output program target (im_run I [program, ''-dc'', source] (?d source)) ?d))"
    using S by (rule fd_output_only)
  ultimately show ?thesis
    by (auto simp: decode_image_def fd_bind_def intro: only_trans split: sum.splits prod.splits)
qed

lemma decode_image_Inr:
  assumes "fst (decode_image I program source target d) = Inr ()" and "source \<noteq> target"
    and "d source = Some content"
  shows "\<exists>output. decoded I program source content = Some output
    \<and> snd (decode_image I program source target d) = d(target := Some output)"
proof -
  have "write_file I target [] d = (Inr (), d(target := Some []))"
    using assms(1) write_file_Inr [of I target "[]" d]
    by (cases "write_file I target [] d") (auto simp: decode_image_def fd_bind_def split: sum.splits)
  with assms show ?thesis
    by (auto simp: decode_image_def fd_bind_def decoded_def dest: fd_output_Inr)
qed

lemma convert_unpacked_only:
  "S target \<Longrightarrow> only S d (snd (convert_unpacked I arguments extracted source extension missing target d))"
  by (auto simp: convert_unpacked_def fd_bind_def qemu_convert_only split: sum.splits prod.splits option.splits)

lemma convert_unpacked_Inr:
  assumes "fst (convert_unpacked I arguments extracted source extension missing target d) = Inr ()"
    and "d source = Some content"
  shows "\<exists>output. unpacked_image I arguments extracted extension target content = Some output
    \<and> snd (convert_unpacked I arguments extracted source extension missing target d) = d(target := Some output)"
proof -
  obtain u d1 where step: "fd_err state_error (create_dir I extracted) d = (Inr u, d1)"
      and rest: "fst (fd_bind (\<lambda>d. (run_checked (hd arguments) (im_extract I arguments (d source)), d)) (\<lambda>entries.
        fd_bind (fd_of (find_file_with_extension I extracted entries extension)) (\<lambda>found.
          case found of None \<Rightarrow> fd_of (Inl (image_state missing))
          | Some (path, content) \<Rightarrow> qemu_convert I path (Some content) target)) d1) = Inr ()"
    using assms(1) unfolding convert_unpacked_def
    by (auto simp: fd_bind_def split: prod.splits sum.splits)
  then have d1: "d1 = d" by simp
  from rest obtain entries where entries: "run_checked (hd arguments) (im_extract I arguments (d source)) = Inr entries"
    by (auto simp: fd_bind_def d1 split: prod.splits sum.splits)
  with rest obtain path disk_image where found:
      "find_file_with_extension I extracted entries extension = Inr (Some (path, disk_image))"
      "fst (qemu_convert I path (Some disk_image) target d) = Inr ()"
    by (auto simp: fd_bind_def d1 split: prod.splits sum.splits option.splits)
  from entries have entries_read: "program_output (im_extract I arguments (Some content)) = Some entries"
    using assms(2) by (auto dest: run_checked_Inr)
  have run: "snd (convert_unpacked I arguments extracted source extension missing target d)
      = snd (qemu_convert I path (Some disk_image) target d)"
    using step entries found(1) by (simp add: convert_unpacked_def fd_bind_def d1)
  from qemu_convert_Inr [OF found(2)] entries_read found(1) run show ?thesis
    by (auto simp: unpacked_image_def)
qed

text \<open>\<open>normalize\<close> writes in the work directory only, and what it writes is the abstract image of the download,
  unless the name of the download is one of its own files.\<close>

lemma normalize_image_only:
  assumes "S target" and "S (path_join work ''source.qcow2'')"
  shows "only S d (snd (normalize_image I source fmt target work d))"
proof (cases fmt)
  case Qcow2Xz
  let ?unpacked = "path_join work ''source.qcow2''"
  let ?d = "snd (decode_image I ''xz'' source ?unpacked d)"
  have "only S d ?d" using assms(2) by (rule decode_image_only)
  moreover have "only S ?d (snd (qemu_convert I ?unpacked (?d ?unpacked) target ?d))"
    using assms(1) by (rule qemu_convert_only)
  ultimately show ?thesis
    using Qcow2Xz by (auto simp: normalize_image_def fd_bind_def Let_def intro: only_trans split: sum.splits prod.splits)
qed (use assms in \<open>simp_all add: normalize_image_def Let_def copy_file_only qemu_convert_only decode_image_only
    convert_unpacked_only\<close>)

lemma normalize_image_Inr:
  assumes ok: "fst (normalize_image I source fmt target work d) = Inr ()" and content: "d source = Some content"
    and names: "source \<noteq> target" "source \<noteq> path_join work ''source.qcow2''"
  shows "\<exists>output. image_of I source fmt target work content = Some output
    \<and> snd (normalize_image I source fmt target work d) target = Some output"
proof (cases fmt)
  case Raw
  then show ?thesis
    using ok content copy_file_Inr [of I source target d]
    by (cases "fst (copy_file I source target d)") (auto simp: normalize_image_def image_of_def)
next
  case Qcow2
  then show ?thesis
    using ok content qemu_convert_Inr [of I source content target d] by (auto simp: normalize_image_def image_of_def)
next
  case Qcow2Xz
  let ?unpacked = "path_join work ''source.qcow2''"
  from ok Qcow2Xz obtain d1 where d1: "decode_image I ''xz'' source ?unpacked d = (Inr (), d1)"
      and convert: "fst (qemu_convert I ?unpacked (d1 ?unpacked) target d1) = Inr ()"
    by (auto simp: normalize_image_def fd_bind_def Let_def split: prod.splits sum.splits)
  from decode_image_Inr [of I "''xz''" source ?unpacked d content] d1 content names(2) obtain unxz where
    unpacked: "decoded I ''xz'' source content = Some unxz" "d1 = d(?unpacked := Some unxz)" by auto
  then have there: "d1 ?unpacked = Some unxz" by simp
  with convert have "fst (qemu_convert I ?unpacked (Some unxz) target d1) = Inr ()" by metis
  from qemu_convert_Inr [OF this] there unpacked(1) d1 Qcow2Xz show ?thesis
    by (auto simp: normalize_image_def image_of_def fd_bind_def Let_def)
next
  case RawZst
  then show ?thesis
    using ok content names decode_image_Inr [of I "''zstd''" source target d content]
    by (auto simp: normalize_image_def image_of_def)
next
  case RawBz2
  then show ?thesis
    using ok content names decode_image_Inr [of I "''bzip2''" source target d content]
    by (auto simp: normalize_image_def image_of_def)
next
  case Ova
  then show ?thesis
    using ok content by (auto simp: normalize_image_def image_of_def Let_def dest!: convert_unpacked_Inr)
next
  case ZipQcow2
  then show ?thesis
    using ok content by (auto simp: normalize_image_def image_of_def Let_def dest!: convert_unpacked_Inr)
qed

section \<open>A logic of runs\<close>

text \<open>\<open>fd_valid P m Q E\<close>: from a disk with \<open>P\<close>, \<open>m\<close> returns a value with \<open>Q\<close> or fails with \<open>E\<close>.\<close>

definition fd_valid :: "(disk \<Rightarrow> bool) \<Rightarrow> ('a, 'e) filed \<Rightarrow> ('a \<Rightarrow> disk \<Rightarrow> bool) \<Rightarrow> (disk \<Rightarrow> bool) \<Rightarrow> bool" where
  "fd_valid P m Q E \<longleftrightarrow> (\<forall>d. P d \<longrightarrow> (case m d of (Inr x, d') \<Rightarrow> Q x d' | (Inl e, d') \<Rightarrow> E d'))"

lemma fd_validI:
  "(\<And>d x. P d \<Longrightarrow> fst (m d) = Inr x \<Longrightarrow> Q x (snd (m d))) \<Longrightarrow> (\<And>d e. P d \<Longrightarrow> fst (m d) = Inl e \<Longrightarrow> E (snd (m d))) \<Longrightarrow>
     fd_valid P m Q E"
  by (fastforce simp: fd_valid_def split: prod.split sum.split)

lemma fd_valid_Inr: "fd_valid P m Q E \<Longrightarrow> P d \<Longrightarrow> m d = (Inr x, d') \<Longrightarrow> Q x d'"
  by (auto simp: fd_valid_def)

lemma fd_valid_Inl: "fd_valid P m Q E \<Longrightarrow> P d \<Longrightarrow> m d = (Inl e, d') \<Longrightarrow> E d'"
  by (auto simp: fd_valid_def)

lemma fd_valid_bind: "fd_valid P m Q E \<Longrightarrow> (\<And>x. fd_valid (Q x) (k x) R E) \<Longrightarrow> fd_valid P (fd_bind m k) R E"
  by (fastforce simp: fd_valid_def fd_bind_def split: prod.splits sum.splits)

lemma fd_valid_of: "(\<And>d x. P d \<Longrightarrow> r = Inr x \<Longrightarrow> Q x d) \<Longrightarrow> (\<And>d. P d \<Longrightarrow> E d) \<Longrightarrow> fd_valid P (fd_of r) Q E"
  by (auto simp: fd_valid_def split: sum.split)

lemma fd_valid_err [simp]: "fd_valid P (fd_err f m) Q E \<longleftrightarrow> fd_valid P m Q E"
  by (simp add: fd_valid_def split_beta map_err_def split: sum.split prod.split)

lemma fd_valid_view:
  "(\<And>d x. P d \<Longrightarrow> f (view I d) = Inr x \<Longrightarrow> Q x d) \<Longrightarrow> (\<And>d. P d \<Longrightarrow> E d) \<Longrightarrow> fd_valid P (fd_view I f) Q E"
  by (auto simp: fd_valid_def split: sum.split)

lemma fd_valid_weaken:
  "fd_valid P m Q E \<Longrightarrow> (\<And>d. P' d \<Longrightarrow> P d) \<Longrightarrow> (\<And>x d. Q x d \<Longrightarrow> Q' x d) \<Longrightarrow> (\<And>d. E d \<Longrightarrow> E' d) \<Longrightarrow> fd_valid P' m Q' E'"
  by (fastforce simp: fd_valid_def split: prod.splits sum.splits)

lemma fd_valid_pre: "(\<And>d. P d \<Longrightarrow> b) \<Longrightarrow> (b \<Longrightarrow> fd_valid P m Q E) \<Longrightarrow> fd_valid P m Q E"
  by (auto simp: fd_valid_def)


lemma fd_valid_each:
  assumes "\<And>pre x post. xs = pre @ x # post \<Longrightarrow> fd_valid (P pre) (f x) (\<lambda>_. P (pre @ [x])) E"
    and "\<And>d pre. P pre d \<Longrightarrow> E d"
  shows "fd_valid (P []) (fd_each f xs) (\<lambda>_. P xs) E"
proof -
  have all: "ys = pre @ rest \<Longrightarrow> ys = xs \<Longrightarrow> fd_valid (P pre) (fd_each f rest) (\<lambda>_. P ys) E" for ys pre rest
  proof (induction rest arbitrary: pre)
    case Nil
    then show ?case using assms(2) by (auto simp: fd_valid_def)
  next
    case (Cons x rest)
    from Cons.prems have "xs = pre @ x # rest" by simp
    then have step: "fd_valid (P pre) (f x) (\<lambda>_. P (pre @ [x])) E" by (rule assms(1))
    have rest: "fd_valid (P (pre @ [x])) (fd_each f rest) (\<lambda>_. P ys) E"
      by (rule Cons.IH) (use Cons.prems in simp_all)
    show ?case using step rest by (auto intro: fd_valid_bind)
  qed
  show ?thesis by (rule all [of xs "[]" xs]) simp_all
qed

text \<open>A step whose changes lie in a set that the condition does not look at.\<close>

lemma fd_valid_only:
  assumes "\<And>d. only S d (snd (m d))" and "\<And>d d'. P d \<Longrightarrow> only S d d' \<Longrightarrow> Q d'"
  shows "fd_valid P m (\<lambda>_. Q) Q"
  using assms by (intro fd_validI) blast+

section \<open>A pull changes only what it may\<close>

definition downloaded_file :: "image_lib \<Rightarrow> string \<Rightarrow> resolved_source \<Rightarrow> string" where
  "downloaded_file I dir source = path_join (work_dir I dir) (src_filename source)"

definition normalized_file :: "image_lib \<Rightarrow> string \<Rightarrow> string" where
  "normalized_file I dir = path_join (work_dir I dir) ''normalized.raw''"

definition verified :: "image_lib \<Rightarrow> resolved_source \<Rightarrow> string \<Rightarrow> bool" where
  "verified I source bytes \<longleftrightarrow> hash_hex I (src_algorithm source) bytes = to_ascii_lowercase (src_digest source)"

text \<open>The normalised form of bytes that have the digest of the source.\<close>

definition genuine :: "image_lib \<Rightarrow> string \<Rightarrow> resolved_source \<Rightarrow> string \<Rightarrow> bool" where
  "genuine I dir source content \<longleftrightarrow>
     (\<exists>bytes. verified I source bytes
        \<and> image_of I (downloaded_file I dir source) (src_format source) (normalized_file I dir) (work_dir I dir) bytes
          = Some content)"

definition pulled_manifest :: "catalog_entry \<Rightarrow> resolved_source \<Rightarrow> string \<Rightarrow> json" where
  "pulled_manifest entry source digest =
     alias_manifest entry source digest (relative_object digest) (release_of entry source)"

definition manifest_text :: "image_lib \<Rightarrow> catalog_entry \<Rightarrow> resolved_source \<Rightarrow> string \<Rightarrow> string \<Rightarrow> bool" where
  "manifest_text I entry source digest content \<longleftrightarrow>
     (\<exists>t. im_pretty I (pulled_manifest entry source digest) = Inr t \<and> content = t @ [CHR 0x0A])"

text \<open>A file that was not there and is now the object of a genuine image, or the manifest of an alias for one.\<close>

definition published ::
    "image_lib \<Rightarrow> string \<Rightarrow> catalog_entry \<Rightarrow> resolved_source \<Rightarrow> string \<Rightarrow> string option \<Rightarrow> string option \<Rightarrow> bool" where
  "published I dir entry source path before after \<longleftrightarrow>
     (\<exists>content. genuine I dir source content
        \<and> (path = object_file dir (hash_hex I Sha256 content) \<and> before = None \<and> after = Some content
           \<or> (\<exists>a t. a \<in> set (cat_aliases entry) \<and> path = manifest_file dir a
                \<and> manifest_text I entry source (hash_hex I Sha256 content) t \<and> after = Some t)))"

definition pull_change ::
    "image_lib \<Rightarrow> string \<Rightarrow> catalog_entry \<Rightarrow> resolved_source \<Rightarrow> disk \<Rightarrow> disk \<Rightarrow> bool" where
  "pull_change I dir entry source d d' \<longleftrightarrow>
     (\<forall>path. d' path = d path \<or> scratch I dir path \<or> published I dir entry source path (d path) (d' path))"

lemma pull_change_refl [simp]: "pull_change I dir entry source d d"
  by (simp add: pull_change_def)

lemma pull_change_trans:
  assumes "pull_change I dir entry source d1 d2" and "pull_change I dir entry source d2 d3"
  shows "pull_change I dir entry source d1 d3"
  unfolding pull_change_def
proof
  fix p
  from assms have a: "d2 p = d1 p \<or> scratch I dir p \<or> published I dir entry source p (d1 p) (d2 p)"
    and b: "d3 p = d2 p \<or> scratch I dir p \<or> published I dir entry source p (d2 p) (d3 p)"
    by (auto simp: pull_change_def)
  show "d3 p = d1 p \<or> scratch I dir p \<or> published I dir entry source p (d1 p) (d3 p)"
  proof (cases "published I dir entry source p (d1 p) (d2 p) \<and> published I dir entry source p (d2 p) (d3 p)")
    case True
    then show ?thesis by (force simp: published_def)
  next
    case False
    with a b show ?thesis by metis
  qed
qed

lemma pull_change_scratch: "only (scratch I dir) d d' \<Longrightarrow> pull_change I dir entry source d d'"
  by (auto simp: pull_change_def only_def)

lemma pull_change_only:
  "pull_change I dir entry source d0 d \<Longrightarrow> only (scratch I dir) d d' \<Longrightarrow> pull_change I dir entry source d0 d'"
  by (blast intro: pull_change_trans pull_change_scratch)

lemma download_image_only: "S target \<Longrightarrow> only S d (snd (download_image I url target d))"
  by (auto simp: download_image_def split: prod.split option.split)

lemma hash_view_Inr:
  "hash_file I (view I d) path algorithm = Inr digest \<Longrightarrow> \<exists>content. d path = Some content \<and> digest = hash_hex I algorithm content"
  by (auto simp: hash_file_def read_file_def view_def split: option.splits)

lemma verify_digest_snd [simp]: "snd (verify_digest I source downloaded d) = d"
  by (auto simp: verify_digest_def fd_bind_def split: sum.split prod.split)

lemma verify_digest_Inr:
  "fst (verify_digest I source downloaded d) = Inr () \<Longrightarrow> \<exists>bytes. d downloaded = Some bytes \<and> verified I source bytes"
  by (auto simp: verify_digest_def fd_bind_def verified_def dest!: hash_view_Inr split: sum.splits if_splits)

text \<open>The names a pull uses in its work directory do not collide.\<close>

lemma plain_files:
  assumes "plain_name (src_filename source)"
  shows "scratch I dir (downloaded_file I dir source)" "scratch I dir (normalized_file I dir)"
    "scratch I dir (path_join (work_dir I dir) ''source.qcow2'')"
    "downloaded_file I dir source \<noteq> normalized_file I dir"
    "downloaded_file I dir source \<noteq> path_join (work_dir I dir) ''source.qcow2''"
proof -
  have relative: "\<not> is_absolute (src_filename source)" using assms by (simp add: plain_name_def plain_relative)
  show "scratch I dir (downloaded_file I dir source)" "scratch I dir (normalized_file I dir)"
    "scratch I dir (path_join (work_dir I dir) ''source.qcow2'')"
    using relative unfolding downloaded_file_def normalized_file_def by (auto intro!: scratch_work)
  show "downloaded_file I dir source \<noteq> normalized_file I dir"
    "downloaded_file I dir source \<noteq> path_join (work_dir I dir) ''source.qcow2''"
    using relative assms by (auto simp: downloaded_file_def normalized_file_def plain_name_def work_file)
qed

lemma normalize_step:
  assumes "plain_name (src_filename source)"
  shows "fd_valid (\<lambda>d. pull_change I dir entry source d0 d
      \<and> (\<exists>bytes. d (downloaded_file I dir source) = Some bytes \<and> verified I source bytes))
    (normalize_image I (downloaded_file I dir source) (src_format source) (normalized_file I dir) (work_dir I dir))
    (\<lambda>_ d. pull_change I dir entry source d0 d
      \<and> (\<exists>content. d (normalized_file I dir) = Some content \<and> genuine I dir source content))
    (pull_change I dir entry source d0)"
proof (intro fd_validI)
  let ?run = "\<lambda>d. normalize_image I (downloaded_file I dir source) (src_format source) (normalized_file I dir) (work_dir I dir) d"
  have only: "only (scratch I dir) d (snd (?run d))" for d
    using assms by (intro normalize_image_only plain_files)
  fix d
  assume before: "pull_change I dir entry source d0 d
      \<and> (\<exists>bytes. d (downloaded_file I dir source) = Some bytes \<and> verified I source bytes)"
  then show change: "pull_change I dir entry source d0 (snd (?run d))" using only pull_change_only by blast
  fix x
  assume "fst (?run d) = Inr x"
  moreover from before obtain bytes where bytes: "d (downloaded_file I dir source) = Some bytes" "verified I source bytes"
    by blast
  ultimately obtain content where "image_of I (downloaded_file I dir source) (src_format source)
      (normalized_file I dir) (work_dir I dir) bytes = Some content"
      "snd (?run d) (normalized_file I dir) = Some content"
    using normalize_image_Inr [of I "downloaded_file I dir source" "src_format source" "normalized_file I dir"
        "work_dir I dir" d bytes, OF _ bytes(1) plain_files(4,5) [OF assms]] by (metis old.unit.exhaust)
  with bytes(2) change show "pull_change I dir entry source d0 (snd (?run d))
      \<and> (\<exists>content. snd (?run d) (normalized_file I dir) = Some content \<and> genuine I dir source content)"
    by (auto simp: genuine_def)
qed

text \<open>The object of a digest: its own content if it was there, or the image just normalised.\<close>

definition object_there :: "image_lib \<Rightarrow> string \<Rightarrow> resolved_source \<Rightarrow> string \<Rightarrow> disk \<Rightarrow> disk \<Rightarrow> bool" where
  "object_there I dir source digest d0 d \<longleftrightarrow>
     (\<exists>content. genuine I dir source content \<and> digest = hash_hex I Sha256 content
        \<and> (d0 (object_file dir digest) = None \<and> d (object_file dir digest) = Some content
           \<or> d0 (object_file dir digest) \<noteq> None \<and> d (object_file dir digest) = d0 (object_file dir digest)))"

lemma pull_change_object:
  "pull_change I dir entry source d0 d \<Longrightarrow>
     d (object_file dir digest) = d0 (object_file dir digest)
     \<or> d0 (object_file dir digest) = None \<and> (\<exists>content. genuine I dir source content
          \<and> digest = hash_hex I Sha256 content \<and> d (object_file dir digest) = Some content)
     \<or> (\<exists>a \<in> set (cat_aliases entry). object_file dir digest = manifest_file dir a)"
  using object_not_scratch [of I dir digest] unfolding pull_change_def published_def
  by (metis object_file_inj)

lemma remove_file_only: "S path \<Longrightarrow> only S d (snd (remove_file I path d))"
  by (auto simp: remove_file_def split: option.splits)

lemma store_step:
  assumes plain: "plain_name (src_filename source)" and safe: "\<forall>a \<in> set (cat_aliases entry). is_safe_alias a"
  shows "fd_valid (\<lambda>d. pull_change I dir entry source d0 d
      \<and> (\<exists>content. d (normalized_file I dir) = Some content \<and> genuine I dir source content
           \<and> digest = hash_hex I Sha256 content))
    (store_object I (normalized_file I dir) (object_file dir digest))
    (\<lambda>_ d. pull_change I dir entry source d0 d \<and> object_there I dir source digest d0 d)
    (pull_change I dir entry source d0)"
proof (intro fd_validI)
  let ?object = "object_file dir digest"
  let ?run = "\<lambda>d. store_object I (normalized_file I dir) ?object d"
  fix d
  assume before: "pull_change I dir entry source d0 d
      \<and> (\<exists>content. d (normalized_file I dir) = Some content \<and> genuine I dir source content
           \<and> digest = hash_hex I Sha256 content)"
  then obtain content where content: "d (normalized_file I dir) = Some content" "genuine I dir source content"
      "digest = hash_hex I Sha256 content" by blast
  have scratch: "scratch I dir (normalized_file I dir)" using plain by (rule plain_files)
  have change: "pull_change I dir entry source d (snd (?run d))"
  proof (cases "d ?object = None")
    case True
    have "only (scratch I dir) d (d(normalized_file I dir := None))" using scratch by simp
    moreover have "published I dir entry source ?object (d ?object) (Some content)"
      using content True by (auto simp: published_def)
    ultimately have "pull_change I dir entry source d (d(normalized_file I dir := None, ?object := Some content))"
      by (auto simp: pull_change_def only_def)
    then show ?thesis
      using True content by (auto simp: store_object_def rename_file_def split: option.splits)
  next
    case False
    then show ?thesis using scratch by (auto simp: store_object_def intro: pull_change_scratch remove_file_only)
  qed
  with before show after: "pull_change I dir entry source d0 (snd (?run d))" by (blast intro: pull_change_trans)
  fix x
  assume ok: "fst (?run d) = Inr x"
  have from_d: "snd (?run d) ?object = (case d ?object of None \<Rightarrow> Some content | Some c \<Rightarrow> Some c)"
  proof (cases "d ?object")
    case None
    then show ?thesis
      using ok content by (auto simp: store_object_def rename_file_def split: option.splits)
  next
    case (Some c)
    have "only (scratch I dir) d (snd (?run d))"
      using Some scratch by (simp add: store_object_def remove_file_only)
    then show ?thesis using Some object_not_scratch [of I dir digest] by (simp add: only_def)
  qed
  have same: "d ?object = d0 ?object \<or> d0 ?object = None \<and> (\<exists>c. genuine I dir source c
      \<and> digest = hash_hex I Sha256 c \<and> d ?object = Some c)"
    using pull_change_object [of I dir entry source d0 d digest] before safe object_not_manifest by metis
  have "object_there I dir source digest d0 (snd (?run d))"
  proof (cases "d ?object")
    case None
    with same from_d content show ?thesis by (auto simp: object_there_def)
  next
    case (Some c)
    with same from_d content show ?thesis by (fastforce simp: object_there_def)
  qed
  with after show "pull_change I dir entry source d0 (snd (?run d)) \<and> object_there I dir source digest d0 (snd (?run d))"
    by blast
qed

lemma write_json_atomic_Inl:
  assumes "fst (write_json_atomic I path v d) = Inl e"
  shows "only (\<lambda>p. p = json_temporary I path) d (snd (write_json_atomic I path v d))"
proof -
  let ?t = "json_temporary I path"
  have "only (\<lambda>p. p = ?t) d (snd (write_file I ?t content d))" for content by (rule write_file_only) simp
  with assms show ?thesis
    by (auto simp: write_json_atomic_def fd_bind_def rename_file_def Let_def only_def
        split: sum.splits prod.splits option.splits)
qed

lemma write_json_atomic_Inr:
  assumes "fst (write_json_atomic I path v d) = Inr ()" and "path \<noteq> json_temporary I path"
  obtains t where "im_pretty I v = Inr t"
    and "snd (write_json_atomic I path v d) = d(json_temporary I path := None, path := Some (t @ [CHR 0x0A]))"
proof -
  let ?t = "json_temporary I path"
  from assms(1) obtain body where body: "im_pretty I v = Inr body"
    by (auto simp: write_json_atomic_def fd_bind_def map_err_def Let_def split: sum.splits prod.splits)
  with assms(1) have "fst (write_file I ?t (body @ [CHR 0x0A]) d) = Inr ()"
    by (auto simp: write_json_atomic_def fd_bind_def Let_def map_err_def split: sum.splits)
  then have "write_file I ?t (body @ [CHR 0x0A]) d = (Inr (), d(?t := Some (body @ [CHR 0x0A])))"
    using write_file_Inr by (metis prod.collapse)
  with body assms have "snd (write_json_atomic I path v d) = d(?t := None, path := Some (body @ [CHR 0x0A]))"
    by (auto simp: write_json_atomic_def fd_bind_def Let_def rename_file_def split: option.splits)
  with body show ?thesis by (rule that)
qed

definition manifests_written ::
    "image_lib \<Rightarrow> string \<Rightarrow> catalog_entry \<Rightarrow> resolved_source \<Rightarrow> string \<Rightarrow> string list \<Rightarrow> disk \<Rightarrow> bool" where
  "manifests_written I dir entry source digest image_aliases d \<longleftrightarrow>
     (\<forall>a \<in> set image_aliases. \<exists>t. manifest_text I entry source digest t \<and> d (manifest_file dir a) = Some t)"

definition delivered ::
    "image_lib \<Rightarrow> string \<Rightarrow> catalog_entry \<Rightarrow> resolved_source \<Rightarrow> string \<Rightarrow> disk \<Rightarrow> string list \<Rightarrow> disk \<Rightarrow> bool" where
  "delivered I dir entry source digest d0 image_aliases d \<longleftrightarrow>
     pull_change I dir entry source d0 d \<and> object_there I dir source digest d0 d
     \<and> manifests_written I dir entry source digest image_aliases d"

lemma manifest_temporary_scratch: "is_safe_alias a \<Longrightarrow> scratch I dir (json_temporary I (manifest_file dir a))"
  by (auto simp: scratch_def)

lemma delivered_scratch:
  assumes "delivered I dir entry source digest d0 image_aliases d" and "only (scratch I dir) d d'"
    and "\<forall>a \<in> set image_aliases. is_safe_alias a"
  shows "delivered I dir entry source digest d0 image_aliases d'"
proof -
  have "d' (object_file dir digest) = d (object_file dir digest)"
    using assms(2) object_not_scratch by (simp add: only_def)
  moreover have "d' (manifest_file dir a) = d (manifest_file dir a)" if "a \<in> set image_aliases" for a
    using assms(2,3) manifest_not_scratch that by (simp add: only_def)
  ultimately show ?thesis
    using assms(1,2) by (auto simp: delivered_def object_there_def manifests_written_def intro: pull_change_only)
qed

lemma manifest_step:
  assumes a: "a \<in> set (cat_aliases entry)" and safe: "\<forall>a \<in> set (cat_aliases entry). is_safe_alias a"
    and pre: "set pre \<subseteq> set (cat_aliases entry)"
  shows "fd_valid (delivered I dir entry source digest d0 pre)
    (write_json_atomic I (manifest_file dir a) (pulled_manifest entry source digest))
    (\<lambda>_. delivered I dir entry source digest d0 (pre @ [a])) (pull_change I dir entry source d0)"
proof (intro fd_validI)
  let ?file = "manifest_file dir a" and ?v = "pulled_manifest entry source digest"
  let ?run = "\<lambda>d. write_json_atomic I ?file ?v d"
  have safe_a: "is_safe_alias a" using a safe by blast
  have temporary: "scratch I dir (json_temporary I ?file)" using safe_a by (rule manifest_temporary_scratch)
  then have apart: "?file \<noteq> json_temporary I ?file" using manifest_not_scratch [OF safe_a] by metis
  fix d
  assume before: "delivered I dir entry source digest d0 pre d"
  {
    fix e assume "fst (?run d) = Inl e"
    then have "only (scratch I dir) d (snd (?run d))"
      using temporary by (blast intro: only_mono dest: write_json_atomic_Inl)
    with before show "pull_change I dir entry source d0 (snd (?run d))"
      by (auto simp: delivered_def intro: pull_change_only)
  next
    fix x assume "fst (?run d) = Inr x"
    then obtain t where t: "im_pretty I ?v = Inr t"
        "snd (?run d) = d(json_temporary I ?file := None, ?file := Some (t @ [CHR 0x0A]))"
      using write_json_atomic_Inr [OF _ apart] by (metis old.unit.exhaust)
    let ?d = "d(json_temporary I ?file := None)"
    have cleared: "delivered I dir entry source digest d0 pre ?d"
      using before temporary pre safe by (intro delivered_scratch [OF before]) auto
    have is_text: "manifest_text I entry source digest (t @ [CHR 0x0A])" using t(1) by (auto simp: manifest_text_def)
    from cleared obtain content where "genuine I dir source content" "digest = hash_hex I Sha256 content"
      by (auto simp: delivered_def object_there_def)
    then have "published I dir entry source ?file (?d ?file) (Some (t @ [CHR 0x0A]))"
      using a is_text by (auto simp: published_def)
    then have "pull_change I dir entry source ?d (snd (?run d))" by (auto simp: pull_change_def t(2))
    with cleared have "pull_change I dir entry source d0 (snd (?run d))"
      by (auto simp: delivered_def intro: pull_change_trans)
    moreover have "object_there I dir source digest d0 (snd (?run d))"
      using cleared object_not_manifest [OF safe_a, of dir digest] by (auto simp: delivered_def object_there_def t(2))
    moreover have "manifests_written I dir entry source digest (pre @ [a]) (snd (?run d))"
      using cleared is_text by (auto simp: delivered_def manifests_written_def t(2))
    ultimately show "delivered I dir entry source digest d0 (pre @ [a]) (snd (?run d))" by (simp add: delivered_def)
  }
qed

lemma pull_operation_valid:
  assumes plain: "plain_name (src_filename source)" and safe: "\<forall>a \<in> set (cat_aliases entry). is_safe_alias a"
  shows "fd_valid (\<lambda>d. d = d0) (pull_operation I dir image_alias entry source (work_dir I dir))
    (\<lambda>result d. \<exists>digest. delivered I dir entry source digest d0 (cat_aliases entry) d
       \<and> result = pull_report dir image_alias entry source (release_of entry source) digest (object_file dir digest)
                    False False)
    (pull_change I dir entry source d0)"
  unfolding pull_operation_def Let_def
  unfolding downloaded_file_def [symmetric] normalized_file_def [symmetric] object_file_def [symmetric]
    pulled_manifest_def [symmetric]
proof (rule fd_valid_bind [OF _ fd_valid_bind [OF _ fd_valid_bind [OF normalize_step [OF plain] fd_valid_bind
    [OF _ fd_valid_bind [OF store_step [OF plain safe] fd_valid_bind]]]]])
  show "fd_valid (\<lambda>d. d = d0) (download_image I (src_url source) (downloaded_file I dir source))
      (\<lambda>_. pull_change I dir entry source d0) (pull_change I dir entry source d0)"
    using plain_files(1) [OF plain, of I dir]
    by (intro fd_valid_only [of "scratch I dir"]) (auto intro: download_image_only pull_change_scratch)
  show "fd_valid (pull_change I dir entry source d0) (verify_digest I source (downloaded_file I dir source))
      (\<lambda>_ d. pull_change I dir entry source d0 d
        \<and> (\<exists>bytes. d (downloaded_file I dir source) = Some bytes \<and> verified I source bytes))
      (pull_change I dir entry source d0)"
    by (intro fd_validI) (auto dest: verify_digest_Inr)
  show "fd_valid (\<lambda>d. pull_change I dir entry source d0 d
        \<and> (\<exists>content. d (normalized_file I dir) = Some content \<and> genuine I dir source content))
      (fd_view I (\<lambda>files. hash_file I files (normalized_file I dir) Sha256))
      (\<lambda>digest d. pull_change I dir entry source d0 d
        \<and> (\<exists>content. d (normalized_file I dir) = Some content \<and> genuine I dir source content
             \<and> digest = hash_hex I Sha256 content))
      (pull_change I dir entry source d0)"
    by (intro fd_valid_view) (auto dest!: hash_view_Inr)
  fix digest
  have each: "fd_valid (delivered I dir entry source digest d0 [])
      (fd_each (\<lambda>a. write_json_atomic I (manifest_file dir a) (pulled_manifest entry source digest)) (cat_aliases entry))
      (\<lambda>_. delivered I dir entry source digest d0 (cat_aliases entry)) (pull_change I dir entry source d0)"
  proof (rule fd_valid_each)
    fix pre a post
    assume "cat_aliases entry = pre @ a # post"
    then show "fd_valid (delivered I dir entry source digest d0 pre)
        (write_json_atomic I (manifest_file dir a) (pulled_manifest entry source digest))
        (\<lambda>_. delivered I dir entry source digest d0 (pre @ [a])) (pull_change I dir entry source d0)"
      by (intro manifest_step safe) auto
  qed (simp add: delivered_def)
  show "fd_valid (\<lambda>d. pull_change I dir entry source d0 d \<and> object_there I dir source digest d0 d)
      (fd_each (\<lambda>a. write_json_atomic I (manifest_file dir a) (pulled_manifest entry source digest)) (cat_aliases entry))
      (\<lambda>_. delivered I dir entry source digest d0 (cat_aliases entry)) (pull_change I dir entry source d0)"
    by (rule fd_valid_weaken [OF each]) (auto simp: delivered_def manifests_written_def)
  show "fd_valid (delivered I dir entry source digest d0 (cat_aliases entry))
      (fd_of (Inr (pull_report dir image_alias entry source (release_of entry source) digest (object_file dir digest)
        False False)))
      (\<lambda>result d. \<exists>digest. delivered I dir entry source digest d0 (cat_aliases entry) d
       \<and> result = pull_report dir image_alias entry source (release_of entry source) digest (object_file dir digest)
                    False False)
      (pull_change I dir entry source d0)"
    by (rule fd_valid_of) (auto simp: delivered_def)
qed

section \<open>pull_with\<close>

lemma catalog_entry_facts:
  assumes "find_catalog_entry image_alias = Some entry"
  shows "\<forall>a \<in> set (cat_aliases entry). is_safe_alias a" "image_alias \<in> set (cat_aliases entry)"
    "is_safe_alias image_alias" "resolver_ok (cat_resolver entry)"
  using assms catalog_entries_ok by (auto simp: find_catalog_entry_iff list_all_iff entry_ok_def)

lemma fd_each_reads:
  assumes "\<And>x. \<exists>r. \<forall>d. f x d = (r, d)"
  shows "\<exists>r. \<forall>d. fd_each f xs d = (r, d)"
proof (induction xs)
  case Nil
  then show ?case by simp
next
  case (Cons x xs)
  then obtain rest where rest: "\<forall>d. fd_each f xs d = (rest, d)" by blast
  obtain one where one: "\<forall>d. f x d = (one, d)" using assms by blast
  from one rest show ?case by (cases one) (simp_all add: fd_bind_def)
qed

lemma create_dirs_run:
  "\<exists>r. \<forall>d. fd_each (\<lambda>name. fd_err state_error (create_dir I (path_join dir name))) names d = (r, d)"
proof (rule fd_each_reads)
  fix name
  show "\<exists>r. \<forall>d. fd_err state_error (create_dir I (path_join dir name)) d = (r, d)"
    by (cases "im_fault I (OpCreateDir (path_join dir name))") (auto simp: create_dir_def)
qed

text \<open>A run of \<open>pull_with\<close>: it fails before it changes anything, it finds the image unchanged, or it downloads.\<close>

lemma pull_with_cases:
  assumes "pull_with I dir image_alias enforce d = (r, d')"
  obtains (rejected) e where "r = Inl e" and "d' = d"
    | (unchanged) entry source result where "find_catalog_entry image_alias = Some entry"
        and "resolve_source (im_up I) entry = Inr source"
        and "unchanged_result I (view I d) image_alias entry source dir = Inr (Some result)"
        and "r = Inr result" and "d' = d"
    | (downloaded) entry source where "find_catalog_entry image_alias = Some entry"
        and "resolve_source (im_up I) entry = Inr source" and "is_digest (src_algorithm source) (src_digest source)"
        and "pull_downloaded I dir image_alias entry source d = (r, d')"
proof (cases "enforce \<and> im_arch I \<noteq> ''aarch64''")
  case True
  then show ?thesis using assms rejected by (auto simp: pull_with_def)
next
  case False
  note run = assms [unfolded pull_with_def if_not_P [OF False]]
  show ?thesis
  proof (cases "find_catalog_entry image_alias")
    case None
    then show ?thesis using run rejected by (auto simp: fd_bind_def)
  next
    case (Some entry)
    note entry = Some
    show ?thesis
    proof (cases "resolve_source (im_up I) entry")
      case (Inl e)
      then show ?thesis using run entry rejected by (auto simp: fd_bind_def)
    next
      case (Inr source)
      note source = Inr
      let ?make = "fd_each (\<lambda>name. fd_err state_error (create_dir I (path_join dir name)))
          [''objects'', ''aliases'', ''.tmp'']"
      obtain dirs where dirs: "?make d = (dirs, d)" using create_dirs_run by blast
      show ?thesis
      proof (cases "is_digest (src_algorithm source) (src_digest source)")
        case False
        then show ?thesis using run entry source rejected by (auto simp: fd_bind_def validate_digest_text_def)
      next
        case True
        then have digest: "validate_digest_text (src_algorithm source) (src_digest source) = Inr ()" by simp
        show ?thesis
        proof (cases dirs)
          case (Inl e)
          note failed = fd_bind_fail [where m = ?make and d = d, OF dirs [unfolded Inl]]
          from run have "(Inl e, d) = (r, d')"
            by (simp only: fd_bind_of entry source digest ok_or_simps failed)
          then show ?thesis by (intro rejected [of e]) simp_all
        next
          case (Inr u)
          note made = fd_bind_ok [where m = ?make and d = d, OF dirs [unfolded Inr]]
          from run have run':
            "(case unchanged_result I (view I d) image_alias entry source dir of
                Inl e \<Rightarrow> (Inl e, d)
              | Inr found \<Rightarrow> (case found of Some result \<Rightarrow> fd_of (Inr result)
                                | None \<Rightarrow> pull_downloaded I dir image_alias entry source) d) = (r, d')"
            by (simp only: fd_bind_of entry source digest ok_or_simps made fd_bind_view)
          show ?thesis
          proof (cases "unchanged_result I (view I d) image_alias entry source dir")
            case (Inl e)
            with run' show ?thesis by (intro rejected [of e]) simp_all
          next
            case (Inr found)
            show ?thesis
            proof (cases found)
              case None
              with run' Inr have "pull_downloaded I dir image_alias entry source d = (r, d')" by simp
              then show ?thesis by (rule downloaded [OF entry source True])
            next
              case (Some result)
              with run' Inr have "r = Inr result" "d' = d" by simp_all
              with Inr Some show ?thesis by (intro unchanged [OF entry source, of result]) simp_all
            qed
          qed
        qed
      qed
    qed
  qed
qed

lemma remove_dir_all_only: "only (scratch I dir) d (remove_dir_all I (work_dir I dir) d)"
  by (auto simp: only_def remove_dir_all_def scratch_def)

lemma pull_downloaded_change:
  assumes run: "pull_downloaded I dir image_alias entry source d = (r, d')"
    and plain: "plain_name (src_filename source)" and safe: "\<forall>a \<in> set (cat_aliases entry). is_safe_alias a"
  shows "pull_change I dir entry source d d'
    \<and> (\<forall>result. r = Inr result \<longrightarrow> (\<exists>digest. delivered I dir entry source digest d (cat_aliases entry) d'
        \<and> result = pull_report dir image_alias entry source (release_of entry source) digest (object_file dir digest)
                     False False))"
proof (cases "fst (create_dir I (work_dir I dir) d)")
  case (Inl e)
  then show ?thesis using run by (auto simp: pull_downloaded_def fd_bind_def)
next
  case (Inr u)
  obtain d1 where d1: "pull_operation I dir image_alias entry source (work_dir I dir) d = (r, d1)"
      "d' = remove_dir_all I (work_dir I dir) d1"
    using run Inr by (auto simp: pull_downloaded_def fd_bind_def split: prod.splits)
  have cleaned: "only (scratch I dir) d1 d'" unfolding d1(2) by (rule remove_dir_all_only)
  note valid = pull_operation_valid [OF plain safe, of d I dir image_alias]
  show ?thesis
  proof (cases r)
    case (Inl e)
    from fd_valid_Inl [OF valid refl d1(1) [unfolded Inl]] cleaned show ?thesis
      using Inl by (auto intro: pull_change_only)
  next
    case (Inr result)
    from fd_valid_Inr [OF valid refl d1(1) [unfolded Inr]] obtain digest where
      digest: "delivered I dir entry source digest d (cat_aliases entry) d1"
        "result = pull_report dir image_alias entry source (release_of entry source) digest (object_file dir digest)
          False False" by blast
    from delivered_scratch [OF digest(1) cleaned safe] digest(2) Inr show ?thesis
      by (auto simp: delivered_def)
  qed
qed

lemma pull_changes_plain:
  assumes "pull_with I dir image_alias enforce d = (r, d')"
    and "\<And>entry source. find_catalog_entry image_alias = Some entry \<Longrightarrow> resolve_source (im_up I) entry = Inr source \<Longrightarrow>
      plain_name (src_filename source)"
  shows "d' = d \<or> (\<exists>entry source. find_catalog_entry image_alias = Some entry
    \<and> resolve_source (im_up I) entry = Inr source \<and> is_digest (src_algorithm source) (src_digest source)
    \<and> pull_change I dir entry source d d')"
  using assms(1)
proof (cases rule: pull_with_cases)
  case (downloaded entry source)
  have "pull_change I dir entry source d d'"
    using pull_downloaded_change [OF downloaded(4)] catalog_entry_facts [OF downloaded(1)]
      assms(2) [OF downloaded(1,2)] by blast
  with downloaded show ?thesis by blast
qed auto

lemma pull_changes:
  assumes "pull_with I dir image_alias enforce d = (r, d')" and "coreos_name_ok (im_up I)"
  shows "d' = d \<or> (\<exists>entry source. find_catalog_entry image_alias = Some entry
    \<and> resolve_source (im_up I) entry = Inr source \<and> is_digest (src_algorithm source) (src_digest source)
    \<and> pull_change I dir entry source d d')"
  using assms(1)
  by (rule pull_changes_plain) (use catalog_entry_facts resolved_name [OF _ _ assms(2)] in blast)

text \<open>The name a download has: only Fedora CoreOS names its file itself, by the last segment of an address, so all that
  has to be known of it is that it is not a name a pull uses for files of its own.\<close>

lemma catalog_source_name:
  assumes "find_catalog_entry image_alias = Some entry" and "resolve_source U entry = Inr source"
    and "cat_resolver entry = FedoraCoreOs \<longrightarrow> src_filename source \<notin> {''normalized.raw'', ''source.qcow2''}"
  shows "plain_name (src_filename source)"
proof (cases "cat_resolver entry = FedoraCoreOs")
  case True
  with assms(2) have "\<exists>url. src_filename source = last (split_on CHR ''/'' url)"
    by (auto simp: resolve_source_def resolve_coreos_def Let_def)
  then have "CHR ''/'' \<notin> set (src_filename source)" using split_on_parts by (metis last_in_set split_on_not_Nil)
  with assms(3) True show ?thesis by (simp add: plain_name_def)
next
  case False
  with assms(2) catalog_entry_facts [OF assms(1)] show ?thesis
    by (auto simp: resolve_source_def resolver_ok_def resolve_static_def resolve_flatcar_def
        resolve_github_asset_def resolve_github_pinned_asset_def Let_def FLATCAR_FILE_def plain_name_def
        split: image_resolver.splits)
qed

text \<open>Every object of the store is named after its content.\<close>

definition objects_ok :: "image_lib \<Rightarrow> string \<Rightarrow> disk \<Rightarrow> bool" where
  "objects_ok I dir d \<longleftrightarrow>
     (\<forall>digest content. d (object_file dir digest) = Some content \<longrightarrow> hash_hex I Sha256 content = digest)"

lemma pull_change_objects:
  assumes "pull_change I dir entry source d d'" and "\<forall>a \<in> set (cat_aliases entry). is_safe_alias a"
  shows "d' (object_file dir digest) = d (object_file dir digest)
    \<or> d (object_file dir digest) = None \<and> (\<exists>content. d' (object_file dir digest) = Some content
        \<and> hash_hex I Sha256 content = digest)"
  using pull_change_object [OF assms(1), of digest] object_not_manifest assms(2) by metis

lemma pull_change_objects_ok:
  "pull_change I dir entry source d d' \<Longrightarrow> \<forall>a \<in> set (cat_aliases entry). is_safe_alias a \<Longrightarrow>
     objects_ok I dir d \<Longrightarrow> objects_ok I dir d'"
proof -
  assume change: "pull_change I dir entry source d d'" and safe: "\<forall>a \<in> set (cat_aliases entry). is_safe_alias a"
    and ok: "objects_ok I dir d"
  show "objects_ok I dir d'"
    unfolding objects_ok_def
  proof (intro allI impI)
    fix digest content
    assume "d' (object_file dir digest) = Some content"
    with pull_change_objects [OF change safe, of digest] ok show "hash_hex I Sha256 content = digest"
      by (auto simp: objects_ok_def)
  qed
qed

section \<open>Reading a manifest back\<close>

definition reads_back :: "image_lib \<Rightarrow> json \<Rightarrow> bool" where
  "reads_back I v =
     (case im_pretty I v of Inr t \<Rightarrow> up_parse (im_up I) (t @ [CHR 0x0A]) = Inr v | Inl _ \<Rightarrow> True)"

definition readable :: "image_lib \<Rightarrow> bool" where
  "readable I \<longleftrightarrow> (\<forall>path. im_fault I (OpRead path) = None)"

lemma view_readable: "readable I \<Longrightarrow> view I d path = map_option Inr (d path)"
  by (simp add: view_def readable_def)

lemma map_of_bm_of_list: "map_of (bm_of_list members) k = map_of (rev members) k"
proof -
  have "map_of (foldl (\<lambda>m e. bm_insert (fst e) (snd e) m) m0 members) k
      = (case map_of (rev members) k of Some v \<Rightarrow> Some v | None \<Rightarrow> map_of m0 k)" for m0
    by (induction members arbitrary: m0) (auto simp: bm_get_insert map_add_def split: option.splits)
  then show ?thesis by (simp add: bm_of_list_def split: option.splits)
qed

lemma json_get_obj: "json_get (json_obj members) k = (case map_of (rev members) k of Some x \<Rightarrow> x | None \<Rightarrow> JNull)"
  by (simp add: json_get_def json_obj_def map_of_bm_of_list)

lemma pulled_manifest_get:
  "json_get (pulled_manifest entry source digest) ''apiVersion'' = JStr ALIAS_VERSION"
  "json_get (json_get (pulled_manifest entry source digest) ''image'') ''path'' = JStr (relative_object digest)"
  "json_get (json_get (pulled_manifest entry source digest) ''image'') ''sha256'' = JStr digest"
  "json_get (json_get (pulled_manifest entry source digest) ''source'') ''digest'' = JStr (src_digest source)"
  "json_get (json_get (pulled_manifest entry source digest) ''source'') ''algorithm''
     = JStr (algorithm_name (src_algorithm source))"
  by (simp_all add: pulled_manifest_def alias_manifest_def json_get_obj)

lemma hex_no_slash: "list_all is_hex_digit digest \<Longrightarrow> CHR ''/'' \<notin> set digest"
  by (auto simp: list_all_iff is_hex_digit_def char_class_defs)

lemma relative_object_components:
  assumes "list_all is_hex_digit digest"
  shows "components (relative_object digest) = [Normal ''objects'', Normal (digest @ ''.raw'')]"
proof -
  have "CHR ''/'' \<notin> set (digest @ ''.raw'')" using hex_no_slash [OF assms] by simp
  then have "split_on CHR ''/'' (''objects'' @ CHR ''/'' # digest @ ''.raw'') = [''objects'', digest @ ''.raw'']"
    using split_on_append [of "CHR ''/''" "''objects''" "digest @ ''.raw''"] split_on_no_sep [of "CHR ''/''" "digest @ ''.raw''"]
    by simp
  moreover have "digest @ ''.raw'' \<noteq> ''..''" "digest @ ''.raw'' \<noteq> ''.''"
    by (auto dest!: arg_cong [where f = length])
  ultimately show ?thesis by (simp add: components_def relative_object_def component_of_def)
qed

lemma pulled_manifest_object:
  assumes "list_all is_hex_digit digest"
  shows "safe_object_path (pulled_manifest entry source digest) = Inr (relative_object digest)"
proof -
  have "\<not> is_absolute (relative_object digest)" by (simp add: relative_object_def)
  moreover have "components ''objects'' = [Normal ''objects'']"
    by (simp add: components_def component_of_def)
  ultimately show ?thesis
    using relative_object_components [OF assms]
    by (simp add: safe_object_path_def safe_relative_image_path_def pulled_manifest_get json_as_str_def
        path_starts_with_def normal_def)
qed

section \<open>Properties of a pull\<close>

lemma pull_with_unchanged:
  assumes first: "pull_with I dir image_alias enforce d = (Inr r, d1)"
    and entry: "find_catalog_entry image_alias = Some entry"
    and source: "resolve_source (im_up I) entry = Inr source"
    and found: "unchanged_result I (view I d2) image_alias entry source dir = Inr (Some result)"
  shows "pull_with I dir image_alias enforce d2 = (Inr result, d2)"
proof -
  let ?make = "fd_each (\<lambda>name. fd_err state_error (create_dir I (path_join dir name)))
      [''objects'', ''aliases'', ''.tmp'']"
  have arch: "\<not> (enforce \<and> im_arch I \<noteq> ''aarch64'')" using first by (auto simp: pull_with_def split: if_splits)
  note run = first [unfolded pull_with_def if_not_P [OF arch]]
  have "is_digest (src_algorithm source) (src_digest source)"
    by (rule ccontr) (use run entry source in \<open>simp add: fd_bind_def validate_digest_text_def del: fd_each.simps\<close>)
  then have digest: "validate_digest_text (src_algorithm source) (src_digest source) = Inr ()" by simp
  obtain dirs where dirs: "?make d = (dirs, d)" for d using create_dirs_run by metis
  show ?thesis
  proof (cases dirs)
    case (Inl e)
    note failed = fd_bind_fail [where m = ?make and d = d, OF dirs [unfolded Inl]]
    from run have "(Inl e, d) = (Inr r, d1)" by (simp only: fd_bind_of entry source digest ok_or_simps failed)
    then show ?thesis by simp
  next
    case (Inr u)
    note made = fd_bind_ok [where m = ?make and d = d2, OF dirs [unfolded Inr]]
    show ?thesis
      unfolding pull_with_def if_not_P [OF arch]
      by (simp only: fd_bind_of entry source digest ok_or_simps made fd_bind_view found sum.case option.case fd_of_run)
  qed
qed

lemma unchanged_result_Inr:
  assumes "unchanged_result I files image_alias entry source dir = Inr (Some result)"
  obtains bytes manifest relative where "files (manifest_file dir image_alias) = Some (Inr bytes)"
    and "up_parse (im_up I) bytes = Inr manifest" and "json_get manifest ''apiVersion'' = JStr ALIAS_VERSION"
    and "safe_object_path manifest = Inr relative" and "is_file files (path_join dir relative)"
    and "hash_file I files (path_join dir relative) Sha256 = Inr (pr_normalized_digest result)"
    and "pr_image_path result = path_join dir relative" and "pr_unchanged result"
  using assms by (auto simp: unchanged_result_def Let_def pull_report_def read_file_def is_file_def
      split: if_splits option.splits)

lemma resolve_pulled:
  assumes "is_safe_alias image_alias" and "files (manifest_file dir image_alias) = Some (Inr bytes)"
    and "up_parse (im_up I) bytes = Inr manifest" and "json_get manifest ''apiVersion'' = JStr ALIAS_VERSION"
    and "safe_object_path manifest = Inr relative" and "is_file files (path_join dir relative)"
  shows "resolve_alias_pulled I files dir image_alias = Inr (Some (path_join dir relative))"
  using assms by (simp add: resolve_alias_pulled_def read_alias_manifest_def Let_def is_file_def read_file_def message_of_def)

lemma hash_hex_digits: "list_all is_hex_digit (hash_hex I algorithm content)"
  by (simp add: hash_hex_def image_hex_digits)

text \<open>What holds after a pull that downloaded: the manifest is read back, and the object has the digest it names.\<close>

lemma delivered_reads:
  assumes delivered: "delivered I dir entry source digest d (cat_aliases entry) d'"
    and alias_of: "image_alias \<in> set (cat_aliases entry)" and objects: "objects_ok I dir d"
    and again: "reads_back I (pulled_manifest entry source digest)" and reads: "readable I"
  shows "\<exists>t content. view I d' (manifest_file dir image_alias) = Some (Inr t)
    \<and> up_parse (im_up I) t = Inr (pulled_manifest entry source digest)
    \<and> d' (object_file dir digest) = Some content \<and> hash_hex I Sha256 content = digest
    \<and> list_all is_hex_digit digest"
proof -
  from delivered alias_of obtain t where t: "manifest_text I entry source digest t"
      "d' (manifest_file dir image_alias) = Some t"
    by (auto simp: delivered_def manifests_written_def)
  from t(1) again have "up_parse (im_up I) t = Inr (pulled_manifest entry source digest)"
    by (auto simp: manifest_text_def reads_back_def)
  moreover from delivered objects obtain content where "d' (object_file dir digest) = Some content"
      "hash_hex I Sha256 content = digest"
    by (auto simp: delivered_def object_there_def objects_ok_def)
  moreover from this have "list_all is_hex_digit digest" using hash_hex_digits by blast
  ultimately show ?thesis using t(2) reads by (auto simp: view_readable)
qed

lemma unchanged_after_delivery:
  assumes "view I d' (manifest_file dir image_alias) = Some (Inr t)"
    and "up_parse (im_up I) t = Inr (pulled_manifest entry source digest)"
    and "d' (object_file dir digest) = Some content" and "hash_hex I Sha256 content = digest"
    and "list_all is_hex_digit digest" and "readable I"
  shows "unchanged_result I (view I d') image_alias entry source dir
    = Inr (Some (pull_report dir image_alias entry source (release_of entry source) digest (object_file dir digest)
        True False))"
proof -
  let ?v = "pulled_manifest entry source digest"
  have others: "json_get ?v ''sealed'' = JBool False" "json_get ?v ''release'' = JStr (release_of entry source)"
    by (simp_all add: pulled_manifest_def alias_manifest_def json_get_obj)
  have tags: "json_find ?v ''tags'' = Some (JObj [])"
    by (simp add: pulled_manifest_def alias_manifest_def json_find_def json_obj_def map_of_bm_of_list bm_of_list_def)
  have object: "view I d' (object_file dir digest) = Some (Inr content)" using assms(3,6) by (simp add: view_readable)
  then have "hash_file I (view I d') (object_file dir digest) Sha256 = Inr digest"
    using assms(4) by (simp add: hash_file_def read_file_def)
  then show ?thesis
    using assms(1,2) others tags object pulled_manifest_object [OF assms(5), of entry source]
    by (simp add: unchanged_result_def Let_def is_file_def read_file_def pulled_manifest_get object_file_def [symmetric]
        json_as_str_def str_or_def)
qed

lemma pull_succeeded:
  assumes run: "pull_with I dir image_alias enforce d = (Inr result, d')" and coreos: "coreos_name_ok (im_up I)"
    and entry: "find_catalog_entry image_alias = Some entry"
    and source: "resolve_source (im_up I) entry = Inr source" and objects: "objects_ok I dir d"
    and again: "reads_back I (pulled_manifest entry source (pr_normalized_digest result))" and reads: "readable I"
  shows "resolve_alias_pulled I (view I d') dir image_alias = Inr (Some (pr_image_path result))
    \<and> (\<exists>content. d' (pr_image_path result) = Some content \<and> hash_hex I Sha256 content = pr_normalized_digest result)
    \<and> pull_with I dir image_alias enforce d' = (Inr (result\<lparr>pr_unchanged := True\<rparr>), d')"
  using run
proof (cases rule: pull_with_cases)
  case (rejected e)
  then show ?thesis by simp
next
  case (unchanged entry' source' result')
  have same: "result' = result" "d' = d" using unchanged(4,5) by simp_all
  have alias_ok: "is_safe_alias image_alias" using entry by (rule catalog_entry_facts)
  from unchanged(3) obtain bytes manifest relative where 
    stored: "view I d (manifest_file dir image_alias) = Some (Inr bytes)" "up_parse (im_up I) bytes = Inr manifest"
      "json_get manifest ''apiVersion'' = JStr ALIAS_VERSION" "safe_object_path manifest = Inr relative"
      "is_file (view I d) (path_join dir relative)"
    and digest: "hash_file I (view I d) (path_join dir relative) Sha256 = Inr (pr_normalized_digest result')"
    and image_path: "pr_image_path result' = path_join dir relative" "pr_unchanged result'"
    by (rule unchanged_result_Inr)
  have "resolve_alias_pulled I (view I d) dir image_alias = Inr (Some (path_join dir relative))"
    using alias_ok stored by (rule resolve_pulled)
  moreover have "result\<lparr>pr_unchanged := True\<rparr> = result" using image_path(2) same by simp
  ultimately show ?thesis using run hash_view_Inr [OF digest] image_path(1) same by simp metis
next
  case (downloaded entry' source')
  then have [simp]: "entry' = entry" "source' = source" using entry source by simp_all
  note facts = catalog_entry_facts [OF entry]
  obtain digest where digest: "delivered I dir entry source digest d (cat_aliases entry) d'"
      "result = pull_report dir image_alias entry source (release_of entry source) digest (object_file dir digest)
        False False"
    using pull_downloaded_change [OF downloaded(4)] facts resolved_name [OF source facts(4) coreos] by auto
  have report: "pr_normalized_digest result = digest" "pr_image_path result = object_file dir digest"
      "result\<lparr>pr_unchanged := True\<rparr> = pull_report dir image_alias entry source (release_of entry source) digest
        (object_file dir digest) True False"
    by (simp_all add: digest(2) pull_report_def)
  from delivered_reads [OF digest(1) facts(2) objects _ reads] again report(1) obtain t content where
    there: "view I d' (manifest_file dir image_alias) = Some (Inr t)"
      "up_parse (im_up I) t = Inr (pulled_manifest entry source digest)"
      "d' (object_file dir digest) = Some content" "hash_hex I Sha256 content = digest" "list_all is_hex_digit digest"
    by auto
  have "is_file (view I d') (path_join dir (relative_object digest))"
    using there(3) reads by (simp add: is_file_def view_readable object_file_def)
  then have "resolve_alias_pulled I (view I d') dir image_alias = Inr (Some (object_file dir digest))"
    unfolding object_file_def
    by (rule resolve_pulled [where files = "view I d'" and dir = dir and image_alias = image_alias,
        OF facts(3) there(1,2) pulled_manifest_get(1) pulled_manifest_object [OF there(5)]])
  moreover have "pull_with I dir image_alias enforce d' = (Inr (result\<lparr>pr_unchanged := True\<rparr>), d')"
    unfolding report(3)
    by (rule pull_with_unchanged [OF run entry source unchanged_after_delivery [OF there reads]])
  ultimately show ?thesis using there(3,4) report(1,2) by simp
qed

section \<open>Lookups stay in the store\<close>

definition located :: "files \<Rightarrow> string \<Rightarrow> string set \<Rightarrow> string \<Rightarrow> bool" where
  "located files dir roots path \<longleftrightarrow>
     is_file files path
     \<and> (\<exists>root \<in> roots. \<exists>names. components path = components dir @ Normal root # map Normal names)"

lemma normal_names: "list_all normal cs \<Longrightarrow> \<exists>names. cs = map Normal names"
proof (induction cs)
  case Nil
  then show ?case by simp
next
  case (Cons c cs)
  then obtain names where "cs = map Normal names" by auto
  moreover from Cons.prems obtain name where "c = Normal name" by (auto simp: normal_def split: component.splits)
  ultimately have "c # cs = map Normal (name # names)" by simp
  then show ?case by (rule exI)
qed

lemma safe_path_located:
  assumes "safe_relative_image_path v keys root = Inr relative" and "components root = [Normal root]"
    and "is_file files (path_join dir relative)"
  shows "located files dir {root} (path_join dir relative)"
proof -
  from safe_relative_image_path_Inr [OF assms(1)] have relative: "\<not> is_absolute relative"
      "take 1 (components relative) = [Normal root]" "list_all normal (components relative)"
    using assms(2) by (auto simp: path_starts_with_def)
  then obtain rest where rest: "components relative = Normal root # rest"
    by (cases "components relative") auto
  with relative(3) obtain names where "rest = map Normal names" using normal_names [of rest] by auto
  with rest components_join [OF relative(1,3), of dir] assms(3) show ?thesis by (auto simp: located_def)
qed

lemma store_prefixes:
  "components ''objects'' = [Normal ''objects'']" "components ''sealed'' = [Normal ''sealed'']"
  "components ''baked'' = [Normal ''baked'']"
  by (simp_all add: components_def component_of_def)

lemma located_mono: "located files dir A path \<Longrightarrow> A \<subseteq> B \<Longrightarrow> located files dir B path"
  by (auto simp: located_def)

lemma resolve_pulled_located:
  "resolve_alias_pulled I files dir image_alias = Inr (Some path) \<Longrightarrow> located files dir {''objects''} path"
  by (auto simp: resolve_alias_pulled_def message_of_def safe_object_path_def Let_def split: option.splits if_splits
      intro: safe_path_located store_prefixes)

lemma resolve_tag_located:
  "resolve_alias_tag I files dir image_alias tag = Inr (Some path) \<Longrightarrow> located files dir {''sealed'', ''baked''} path"
  by (auto simp: resolve_alias_tag_def message_of_def sealed_path_def baked_path_def present_def Let_def
      split: option.splits if_splits intro!: located_mono [OF safe_path_located] store_prefixes)

lemma first_ready_Some:
  "first_ready I files dir image_alias tags = Inr (Some path) \<Longrightarrow>
     \<exists>tag \<in> set tags. tagged_seal_ready I files dir image_alias tag = Inr True
       \<and> resolve_alias_tag I files dir image_alias tag = Inr (Some path)"
  by (induction tags) (auto split: if_splits)

text \<open>A ready tag resolves to the sealed image its own entry names, and the seal marker it names is there.\<close>

lemma ready_tag_sealed:
  assumes "tagged_seal_ready I files dir image_alias tag = Inr True"
    and "resolve_alias_tag I files dir image_alias tag = Inr (Some path)"
  shows "located files dir {''sealed''} path
    \<and> (\<exists>manifest entry relative marker. read_alias_manifest I files dir image_alias = Inr (Some manifest)
        \<and> tag_entry manifest tag = Some entry \<and> flagged entry ''sealed''
        \<and> json_get (json_get entry ''sealed_image'') ''path'' = JStr relative \<and> path = path_join dir relative
        \<and> json_get (json_get entry ''sealed_image'') ''marker'' = JStr marker \<and> is_file files marker)"
proof -
  from assms obtain manifest entry relative marker where
    found: "read_alias_manifest I files dir image_alias = Inr (Some manifest)" "tag_entry manifest tag = Some entry"
      "flagged entry ''sealed''" "sealed_path entry = Inr relative" "is_file files (path_join dir relative)"
      "path = path_join dir relative"
      "json_get (json_get entry ''sealed_image'') ''marker'' = JStr marker" "is_file files marker"
    by (auto simp: tagged_seal_ready_def resolve_alias_tag_def message_of_def present_def Let_def json_as_str_def
        split: option.splits if_splits json.splits)
  from safe_path_located [OF found(4) [unfolded sealed_path_def] store_prefixes(2) found(5)]
  have "located files dir {''sealed''} path" unfolding found(6) .
  moreover from found(4) have "json_get (json_get entry ''sealed_image'') ''path'' = JStr relative"
    by (auto simp: sealed_path_def safe_relative_image_path_def ok_or_def json_as_str_def
        split: option.splits if_splits json.splits)
  ultimately show ?thesis using found by blast
qed

lemma resolve_for_vm_Some:
  assumes "resolve_alias_for_vm I files dir image_alias = Inr (Some path)"
  shows "\<exists>tag. tagged_seal_ready I files dir image_alias tag = Inr True
    \<and> resolve_alias_tag I files dir image_alias tag = Inr (Some path)
    \<and> (tagged_seal_ready I files dir image_alias DEFAULT_IMAGE_TAG = Inr True \<longrightarrow> tag = DEFAULT_IMAGE_TAG)"
proof (cases "tagged_seal_ready I files dir image_alias DEFAULT_IMAGE_TAG = Inr True")
  case True
  with assms show ?thesis by (auto simp: resolve_alias_for_vm_def)
next
  case False
  with assms obtain found where "read_alias_manifest I files dir image_alias = Inr found"
      "(case found of None \<Rightarrow> Inr None
        | Some manifest \<Rightarrow>
            (case json_find manifest ''tags'' of
               Some (JObj tags) \<Rightarrow> first_ready I files dir image_alias (sort (bm_keys tags))
             | _ \<Rightarrow> Inr None)) = Inr (Some path)"
    by (auto simp: resolve_alias_for_vm_def simp del: sum.case split: if_splits)
  then obtain tags where "first_ready I files dir image_alias tags = Inr (Some path)"
    by (auto split: option.splits json.splits)
  with False show ?thesis by (blast dest: first_ready_Some)
qed

section \<open>Finding a file in an archive\<close>

text \<open>The files of a tree that have the extension.\<close>

fun tree_named :: "string \<Rightarrow> string \<Rightarrow> dir_entry \<Rightarrow> (string \<times> string) list" where
  "tree_named extension path (FileEntry name content) =
     (if (case path_extension name of Some e \<Rightarrow> eq_ignore_ascii_case e extension | None \<Rightarrow> False)
      then [(path_join path name, content)] else [])"
| "tree_named extension path (DirEntry name entries) =
     concat (map (tree_named extension (path_join path name)) entries)"

definition stack_named :: "string \<Rightarrow> (string \<times> dir_entry list) list \<Rightarrow> (string \<times> string) set" where
  "stack_named extension stack = (\<Union>(path, entries) \<in> set stack. \<Union>e \<in> set entries. set (tree_named extension path e))"

lemma stack_named_Cons [simp]:
  "stack_named extension ((path, entries) # stack)
     = (\<Union>e \<in> set entries. set (tree_named extension path e)) \<union> stack_named extension stack"
  "stack_named extension [] = {}"
  by (simp_all add: stack_named_def)

lemma scan_dir_named:
  "(case scan_dir extension path es stack of
      (Some found, _) \<Rightarrow> found \<in> (\<Union>e \<in> set es. set (tree_named extension path e))
    | (None, stack') \<Rightarrow> stack_named extension stack'
        = (\<Union>e \<in> set es. set (tree_named extension path e)) \<union> stack_named extension stack)"
  by (induction extension path es stack rule: scan_dir.induct) (auto split: option.splits prod.splits)

lemma find_file_from_named:
  assumes "find_file_from I extension stack = Inr result"
  shows "(\<forall>found. result = Some found \<longrightarrow> found \<in> stack_named extension stack)
    \<and> (result = None \<longrightarrow> stack_named extension stack = {})"
  using assms
proof (induction I extension stack rule: find_file_from.induct)
  case (1 I extension)
  then show ?case by simp
next
  case (2 I extension path entries stack)
  note named = scan_dir_named [of extension path entries stack]
  show ?case
  proof (cases "im_fault I (OpListing path)")
    case (Some fault)
    with "2.prems" show ?thesis by (cases fault) simp
  next
    case None
    obtain found stack' where scan: "scan_dir extension path entries stack = (found, stack')" by fastforce
    show ?thesis
    proof (cases found)
      case (Some x)
      with None scan named "2.prems" show ?thesis by auto
    next
      case none: None
      with None scan "2.prems" have "find_file_from I extension stack' = Inr result" by simp
      from "2.IH" [OF None scan [symmetric, unfolded none] refl this] show ?thesis using named none scan by auto
    qed
  qed
qed

lemma find_file_with_extension_iff:
  assumes "find_file_with_extension I directory entries extension = Inr result"
  shows "(result = None \<longleftrightarrow> concat (map (tree_named extension directory) entries) = [])
    \<and> (\<forall>found. result = Some found \<longrightarrow> found \<in> set (concat (map (tree_named extension directory) entries)))"
  using find_file_from_named [OF assms [unfolded find_file_with_extension_def]]
  by (cases result) (force simp: stack_named_def)+

end
