(* ===== verification/ImageTags.thy ===== *)
theory ImageTags
  imports ImageStore
begin

text \<open>
  Baking and sealing the images of the store (\<open>image.rs\<close>): the working copy a tag is made from
  (\<open>prepare_alias_for_bake\<close>, \<open>prepare_alias_for_seal\<close>), the tags the manifests record (\<open>mark_aliases_baked\<close>,
  \<open>mark_aliases_sealed\<close>), and which images a reconciler run has to make (\<open>ensure_images_from_cache\<close> of
  \<open>reconciler/vm.rs\<close>).

  Assigning into a manifest where it is not an object panics in the code and is an error here. The names in the
  directory of the manifests are \<open>im_listing\<close>. \<open>OpPermissions\<close> counts the four permission calls of a copy.

  The lemmas: what marking changes of a manifest, that a marked tag is the one lookups find, that pulled objects
  are never changed, and that each operation writes only the files it names.
\<close>

section \<open>The copy a tag is made from\<close>

definition canonical_of :: "json \<Rightarrow> (string, string) result" where
  "canonical_of manifest =
     ok_or ''alias manifest has invalid canonical_alias''
       (case json_as_str (json_get manifest ''canonical_alias'') of
          Some c \<Rightarrow> if is_safe_alias c then Some c else None
        | None \<Rightarrow> None)"

definition permissions :: "image_lib \<Rightarrow> string \<Rightarrow> nat \<Rightarrow> (unit, string) filed" where
  "permissions I path call d =
     (case im_fault I (OpPermissions path call) of
        None \<Rightarrow> (Inr (), d)
      | Some (e, _) \<Rightarrow>
          (Inl ((if even call then ''cannot inspect '' @ path else ''cannot make '' @ path @ '' writable'') @ '': '' @ e), d))"

definition tag_file :: "string \<Rightarrow> string \<Rightarrow> string \<Rightarrow> string" where
  "tag_file kind canonical tag = kind @ ''/'' @ canonical @ ''@'' @ tag @ ''.raw''"

definition materialize ::
    "image_lib \<Rightarrow> string \<Rightarrow> string \<Rightarrow> string \<Rightarrow> string \<Rightarrow> string \<Rightarrow> string \<Rightarrow> (string, string) filed" where
  "materialize I dir kind canonical tag source failed =
     (let directory = path_join dir kind;
          destination = path_join directory (canonical @ ''@'' @ tag @ ''.raw'')
      in fd_bind (fd_err (\<lambda>e. ''cannot create '' @ directory @ '': '' @ e) (create_dir I directory)) (\<lambda>_.
         fd_bind (\<lambda>d. if d destination \<noteq> None
                      then fd_bind (permissions I destination 0) (\<lambda>_. permissions I destination 1) d
                      else (Inr (), d)) (\<lambda>_.
         fd_bind (fd_err (\<lambda>e. failed @ '': '' @ e) (copy_file I source destination)) (\<lambda>_.
         fd_bind (permissions I destination 2) (\<lambda>_.
         fd_bind (permissions I destination 3) (\<lambda>_.
           fd_of (Inr destination)))))))"

definition present_source :: "image_lib \<Rightarrow> string \<Rightarrow> string \<Rightarrow> (unit, string) filed" where
  "present_source I image_alias source =
     fd_view I (\<lambda>files. if is_file files source then Inr ()
                        else Inl (''alias '' @ image_alias @ '' references missing image '' @ source))"

definition seal_source :: "json \<Rightarrow> string \<Rightarrow> (string, string) result" where
  "seal_source manifest tag =
     message_of (case tag_entry manifest tag of
                   Some entry \<Rightarrow> if flagged entry ''baked'' then baked_path entry else safe_object_path manifest
                 | None \<Rightarrow> safe_object_path manifest)"

definition tag_sealed :: "json \<Rightarrow> string \<Rightarrow> bool" where
  "tag_sealed manifest tag = (case tag_entry manifest tag of Some entry \<Rightarrow> flagged entry ''sealed'' | None \<Rightarrow> False)"

definition prepare_alias_for_seal ::
    "image_lib \<Rightarrow> string \<Rightarrow> string \<Rightarrow> string \<Rightarrow> bool \<Rightarrow> (string option, string) filed" where
  "prepare_alias_for_seal I dir image_alias tag force =
     (if \<not> store_image_tag tag then fd_of (Inl (''invalid image tag '' @ tag))
      else fd_bind (fd_view I (\<lambda>files. read_alias_manifest I files dir image_alias)) (\<lambda>found.
        case found of
          None \<Rightarrow> fd_of (Inr None)
        | Some manifest \<Rightarrow>
            if tag_sealed manifest tag \<and> \<not> force
            then fd_view I (\<lambda>files. resolve_alias_tag I files dir image_alias tag)
            else fd_bind (fd_of (seal_source manifest tag)) (\<lambda>relative.
              let source = path_join dir relative;
                  destination = path_join dir (tag_file ''sealed'' (str_or [] (json_get manifest ''canonical_alias'')) tag)
              in fd_bind (present_source I image_alias source) (\<lambda>_.
                 fd_bind (fd_of (canonical_of manifest)) (\<lambda>canonical.
                 fd_bind (materialize I dir ''sealed'' canonical tag source
                            (''cannot materialize alias '' @ image_alias @ '' tag '' @ tag @ '' from '' @ source
                               @ '' to '' @ destination)) (\<lambda>path.
                   fd_of (Inr (Some path))))))))"

definition recorded_version :: "json \<Rightarrow> string" where
  "recorded_version entry = (case pointer_str entry ''/baked_image/agent_version'' of Some v \<Rightarrow> v | None \<Rightarrow> [])"

definition prepare_alias_for_bake ::
    "image_lib \<Rightarrow> string \<Rightarrow> string \<Rightarrow> string \<Rightarrow> string \<Rightarrow> bool \<Rightarrow> (string \<times> json \<times> string, string) filed" where
  "prepare_alias_for_bake I dir image_alias tag agent_version force =
     (if \<not> is_safe_alias image_alias then fd_of (Inl (''invalid image alias '' @ image_alias))
      else if \<not> store_image_tag tag then fd_of (Inl (''invalid image tag '' @ tag))
      else fd_bind (fd_view I (\<lambda>files. read_alias_manifest I files dir image_alias)) (\<lambda>found.
        case found of
          None \<Rightarrow> fd_of (Inl (''alias '' @ image_alias @ '' not found; run `vzctl image pull '' @ image_alias @ ''` first''))
        | Some manifest \<Rightarrow>
            let recorded = (case tag_entry manifest tag of Some entry \<Rightarrow> recorded_version entry | None \<Rightarrow> [])
            in if tag_sealed manifest tag \<and> \<not> force \<and> recorded = agent_version
               then fd_of (Inl (''alias '' @ image_alias @ '' tag '' @ tag @ '' is already sealed with guest toolkit ''
                      @ recorded @ ''; rebake with --force or bump guest-agent/VERSION''))
               else fd_bind (fd_of (canonical_of manifest)) (\<lambda>canonical.
                    fd_bind (fd_of (message_of (safe_object_path manifest))) (\<lambda>relative.
                    let source = path_join dir relative
                    in fd_bind (present_source I image_alias source) (\<lambda>_.
                       fd_bind (materialize I dir ''baked'' canonical tag source
                                  (''cannot materialize bake target for '' @ image_alias @ ''@'' @ tag)) (\<lambda>path.
                         fd_of (Inr (path, manifest, manifest_file dir image_alias))))))))"

record bake_result =
  br_requested_alias :: string
  br_canonical_alias :: string
  br_tag :: string
  br_image_path :: string
  br_agent_version :: string
  br_unchanged :: bool

definition already_baked ::
    "image_lib \<Rightarrow> files \<Rightarrow> string \<Rightarrow> string \<Rightarrow> string \<Rightarrow> string \<Rightarrow> (bake_result option, string) result" where
  "already_baked I files dir image_alias tag agent_version =
     (if \<not> is_safe_alias image_alias \<or> \<not> store_image_tag tag then Inr None
      else and_then (read_alias_manifest I files dir image_alias) (\<lambda>found.
        case found of
          None \<Rightarrow> Inr None
        | Some manifest \<Rightarrow>
            (case tag_entry manifest tag of
               None \<Rightarrow> Inr None
             | Some entry \<Rightarrow>
                 if \<not> flagged entry ''baked'' \<and> \<not> flagged entry ''sealed'' then Inr None
                 else if recorded_version entry \<noteq> agent_version then Inr None
                 else and_then (message_of (if flagged entry ''sealed'' then sealed_path entry else baked_path entry))
                   (\<lambda>relative.
                     let path = path_join dir relative
                     in if \<not> is_file files path then Inr None
                        else Inr (Some \<lparr>br_requested_alias = image_alias,
                               br_canonical_alias = str_or image_alias (json_get manifest ''canonical_alias''),
                               br_tag = tag, br_image_path = path, br_agent_version = agent_version,
                               br_unchanged = True\<rparr>)))))"

section \<open>Marking the manifests\<close>

definition component_text :: "component \<Rightarrow> string" where
  "component_text c = (case c of RootDir \<Rightarrow> [] | CurDir \<Rightarrow> ''.'' | ParentDir \<Rightarrow> ''..'' | Normal name \<Rightarrow> name)"

text \<open>\<open>Path::strip_prefix\<close>: the components that are left, joined by single separators (the standard library keeps the
  separators as they were written; the paths the store strips have single ones).\<close>

definition path_strip_prefix :: "string \<Rightarrow> string \<Rightarrow> string option" where
  "path_strip_prefix path base =
     (if path_starts_with path base
      then Some (join ''/'' (map component_text (drop (length (components base)) (components path))))
      else None)"

definition set_member :: "json \<Rightarrow> string \<Rightarrow> json \<Rightarrow> (json, string) result" where
  "set_member v k x = ok_or ''panic: cannot index'' (json_set v k x)"

definition with_tags :: "json \<Rightarrow> (json, string) result" where
  "with_tags manifest =
     (if is_object (json_get manifest ''tags'') then Inr manifest else set_member manifest ''tags'' (json_obj []))"

definition tags_of :: "json \<Rightarrow> (string \<times> json) list" where
  "tags_of manifest = (case json_find manifest ''tags'' of Some (JObj tags) \<Rightarrow> tags | _ \<Rightarrow> [])"

definition any_sealed :: "json \<Rightarrow> bool" where
  "any_sealed manifest = list_ex (\<lambda>entry. flagged entry ''sealed'') (bm_values (tags_of manifest))"

definition remove_member :: "json \<Rightarrow> string \<Rightarrow> json" where
  "remove_member v k = (case v of JObj m \<Rightarrow> JObj (bm_remove k m) | _ \<Rightarrow> v)"

definition baked_image :: "string \<Rightarrow> string \<Rightarrow> string \<Rightarrow> json" where
  "baked_image relative digest agent_version =
     json_obj [(''path'', JStr relative), (''format'', JStr ''raw''), (''sha256'', JStr digest),
               (''agent_version'', JStr agent_version)]"

definition mark_baked :: "string \<Rightarrow> string \<Rightarrow> string \<Rightarrow> string \<Rightarrow> json \<Rightarrow> (json, string) result" where
  "mark_baked tag relative digest agent_version manifest =
     (let image = baked_image relative digest agent_version
      in and_then (with_tags manifest) (\<lambda>m.
         and_then (set_member (json_get m ''tags'') tag (json_obj [(''baked'', JBool True), (''baked_image'', image)])) (\<lambda>tags.
         and_then (set_member m ''tags'' tags) (\<lambda>m.
         and_then (set_member m ''baked'' (JBool True)) (\<lambda>m.
         and_then (set_member m ''baked_image'' image) (\<lambda>m.
         and_then (set_member m ''sealed'' (JBool (any_sealed m))) (\<lambda>m.
           Inr (if any_sealed m then m else remove_member m ''sealed_image''))))))))"

definition sealed_image :: "string \<Rightarrow> string \<Rightarrow> string \<Rightarrow> json" where
  "sealed_image relative digest marker =
     json_obj [(''path'', JStr relative), (''format'', JStr ''raw''), (''sha256'', JStr digest),
               (''marker'', JStr marker)]"

definition mark_sealed :: "string \<Rightarrow> string \<Rightarrow> string \<Rightarrow> string \<Rightarrow> json \<Rightarrow> (json, string) result" where
  "mark_sealed tag relative digest marker manifest =
     (let image = sealed_image relative digest marker
      in and_then (with_tags manifest) (\<lambda>m.
         and_then (set_member (case json_find (json_get m ''tags'') tag of Some entry \<Rightarrow> entry | None \<Rightarrow> json_obj [])
                    ''sealed'' (JBool True)) (\<lambda>entry.
         and_then (set_member entry ''baked'' (JBool True)) (\<lambda>entry.
         and_then (set_member entry ''sealed_image'' image) (\<lambda>entry.
         and_then (set_member (json_get m ''tags'') tag entry) (\<lambda>tags.
         and_then (set_member m ''tags'' tags) (\<lambda>m.
         and_then (set_member m ''sealed'' (JBool True)) (\<lambda>m.
           set_member m ''sealed_image'' image))))))))"

text \<open>The manifest of an entry of the directory, if it is one of the image with the given file.\<close>

definition marked_manifest ::
    "image_lib \<Rightarrow> files \<Rightarrow> string \<Rightarrow> string \<Rightarrow> string \<Rightarrow> string \<Rightarrow> (json option, string) result" where
  "marked_manifest I files path kind tag expected =
     and_then (map_err (\<lambda>e. ''cannot read '' @ path @ '': '' @ e) (read_file files path)) (\<lambda>bytes.
     and_then (map_err (\<lambda>e. ''invalid alias manifest '' @ path @ '': '' @ e) (up_parse (im_up I) bytes)) (\<lambda>manifest.
       Inr (if json_get manifest ''apiVersion'' \<noteq> JStr ALIAS_VERSION then None
            else (case canonical_of manifest of
                    Inl _ \<Rightarrow> None
                  | Inr canonical \<Rightarrow> if tag_file kind canonical tag \<noteq> expected then None else Some manifest))))"

definition mark_entry ::
    "image_lib \<Rightarrow> string \<Rightarrow> string \<Rightarrow> string \<Rightarrow> string \<Rightarrow> (json \<Rightarrow> (json, string) filed) \<Rightarrow> string \<Rightarrow> (unit, string) filed" where
  "mark_entry I directory kind tag expected update name =
     (let path = path_join directory name
      in case im_fault I (OpListing path) of
           Some (e, _) \<Rightarrow> fd_of (Inl (''cannot read alias entry: '' @ e))
         | None \<Rightarrow>
             if path_extension name \<noteq> Some ''json'' then fd_of (Inr ())
             else fd_bind (fd_view I (\<lambda>files. marked_manifest I files path kind tag expected)) (\<lambda>found.
               case found of
                 None \<Rightarrow> fd_of (Inr ())
               | Some manifest \<Rightarrow>
                   fd_bind (update manifest) (\<lambda>m. fd_err fail_message (write_json_atomic I path m))))"

definition mark_entries ::
    "image_lib \<Rightarrow> string \<Rightarrow> string \<Rightarrow> string \<Rightarrow> string \<Rightarrow> (json \<Rightarrow> (json, string) filed) \<Rightarrow> string list \<Rightarrow> (unit, string) filed" where
  "mark_entries I directory kind tag expected update names =
     (case im_fault I (OpListing directory) of
        Some (e, _) \<Rightarrow> fd_of (Inl (''cannot read '' @ directory @ '': '' @ e))
      | None \<Rightarrow> fd_each (mark_entry I directory kind tag expected update) names)"

definition outside :: "string \<Rightarrow> string \<Rightarrow> string \<Rightarrow> string" where
  "outside kind path dir = kind @ '' image '' @ path @ '' is outside '' @ dir"

text \<open>The seal marker of a tag that is baked again is removed, whether or not that succeeds. The code looks it up after
  it has replaced \<open>tags\<close> that are no object.\<close>

definition retagged :: "json \<Rightarrow> json" where
  "retagged manifest = (case with_tags manifest of Inr m \<Rightarrow> m | Inl _ \<Rightarrow> manifest)"

definition drop_marker :: "image_lib \<Rightarrow> string \<Rightarrow> string \<Rightarrow> json \<Rightarrow> disk \<Rightarrow> disk" where
  "drop_marker I dir tag manifest d =
     (case tag_entry (retagged manifest) tag of
        Some previous \<Rightarrow>
          if flagged previous ''sealed'' then
            (case pointer_str previous ''/sealed_image/marker'' of
               Some marker \<Rightarrow> snd (remove_file I (path_join dir marker) d)
             | None \<Rightarrow> d)
          else d
      | None \<Rightarrow> d)"

definition mark_aliases_baked ::
    "image_lib \<Rightarrow> string \<Rightarrow> string \<Rightarrow> string \<Rightarrow> string \<Rightarrow> (unit, string) filed" where
  "mark_aliases_baked I dir baked tag agent_version =
     (let directory = path_join dir ''aliases''
      in if \<not> store_image_tag tag then fd_of (Inl (''invalid image tag '' @ tag))
         else case im_listing I directory of
           None \<Rightarrow> fd_of (Inr ())
         | Some names \<Rightarrow>
             fd_bind (fd_of (ok_or (outside ''baked'' baked dir) (path_strip_prefix baked dir))) (\<lambda>relative.
             fd_bind (fd_view I (\<lambda>files. message_of (hash_file I files baked Sha256))) (\<lambda>digest.
               mark_entries I directory ''baked'' tag relative
                 (\<lambda>manifest d. (mark_baked tag relative digest agent_version manifest, drop_marker I dir tag manifest d))
                 names)))"

definition mark_aliases_sealed ::
    "image_lib \<Rightarrow> string \<Rightarrow> string \<Rightarrow> string \<Rightarrow> string \<Rightarrow> string option \<Rightarrow> (unit, string) filed" where
  "mark_aliases_sealed I dir sealed marker tag digest =
     (let directory = path_join dir ''aliases''
      in if \<not> store_image_tag tag then fd_of (Inl (''invalid image tag '' @ tag))
         else case im_listing I directory of
           None \<Rightarrow> fd_of (Inr ())
         | Some names \<Rightarrow>
             fd_bind (fd_of (ok_or (outside ''sealed'' sealed dir) (path_strip_prefix sealed dir))) (\<lambda>relative.
             fd_bind (case digest of
                        Some value \<Rightarrow> fd_of (Inr value)
                      | None \<Rightarrow> fd_view I (\<lambda>files. message_of (hash_file I files sealed Sha256))) (\<lambda>digest.
               mark_entries I directory ''sealed'' tag relative
                 (\<lambda>manifest. fd_of (mark_sealed tag relative digest marker manifest)) names)))"

section \<open>Which images have to be made\<close>

type_synonym self_command = "string list \<Rightarrow> (unit, failure) filed"

definition step_failure :: "string \<Rightarrow> failure" where
  "step_failure message = \<lparr>fail_code = EXIT_STEP, fail_message = message\<rparr>"

definition ensure_image :: "image_lib \<Rightarrow> self_command \<Rightarrow> string \<Rightarrow> image_config \<Rightarrow> (unit, failure) filed" where
  "ensure_image I run dir config =
     fd_bind (fd_err step_failure (fd_view I (\<lambda>files. tagged_seal_ready I files dir (img_from config) (img_tag config)))) (\<lambda>ready.
       if ready then fd_of (Inr ())
       else fd_bind (fd_err step_failure (fd_view I (\<lambda>files. resolve_alias_pulled I files dir (img_from config)))) (\<lambda>existing.
            fd_bind (if existing = None then run [''image'', ''pull'', img_from config, ''--format'', ''json'']
                     else fd_of (Inr ())) (\<lambda>_.
            fd_bind (run [''image'', ''bake'', img_from config, ''--tag'', img_tag config, ''--format'', ''json'']) (\<lambda>_.
              run [''image'', ''seal'', img_from config, ''--tag'', img_tag config, ''--format'', ''json'']))))"

definition ensure_images_from_cache ::
    "image_lib \<Rightarrow> self_command \<Rightarrow> string \<Rightarrow> (string, image_config) bmap \<Rightarrow> (unit, failure) filed" where
  "ensure_images_from_cache I run dir images = fd_each (ensure_image I run dir) (bm_values images)"

section \<open>Members\<close>

lemma json_find_set: "json_set v k x = Some w \<Longrightarrow> json_find w k' = (if k' = k then Some x else json_find v k')"
  by (auto simp: json_set_def json_find_def bm_get_insert split: json.splits)

lemma json_find_get: "json_get v k = (case json_find v k of Some x \<Rightarrow> x | None \<Rightarrow> JNull)"
  by (auto simp: json_get_def json_find_def split: json.splits)

lemma set_member_Inr:
  assumes "set_member v k x = Inr w"
  shows "json_find w k' = (if k' = k then Some x else json_find v k')"
    and "json_get w k' = (if k' = k then x else json_get v k')" and "is_object w"
proof -
  from assms have set: "json_set v k x = Some w" by (simp add: set_member_def)
  show find: "json_find w k' = (if k' = k then Some x else json_find v k')" using set by (rule json_find_set)
  show "json_get w k' = (if k' = k then x else json_get v k')" by (simp add: json_find_get find)
  show "is_object w" using set by (auto simp: json_set_def is_object_def split: json.splits)
qed

lemma with_tags_Inr:
  assumes "with_tags manifest = Inr m"
  shows "\<exists>tags. json_find m ''tags'' = Some (JObj tags) \<and> bm_get tags = bm_get (tags_of manifest)"
    and "k \<noteq> ''tags'' \<Longrightarrow> json_find m k = json_find manifest k"
proof -
  have cases: "is_object (json_get manifest ''tags'') \<longleftrightarrow> (\<exists>tags. json_find manifest ''tags'' = Some (JObj tags))"
    by (auto simp: json_find_get is_object_def split: option.splits json.splits)
  show "\<exists>tags. json_find m ''tags'' = Some (JObj tags) \<and> bm_get tags = bm_get (tags_of manifest)"
  proof (cases "is_object (json_get manifest ''tags'')")
    case True
    then show ?thesis using assms cases by (auto simp: with_tags_def tags_of_def)
  next
    case False
    then have "set_member manifest ''tags'' (json_obj []) = Inr m" using assms by (simp add: with_tags_def)
    then have "json_find m ''tags'' = Some (JObj [])"
      by (simp add: set_member_Inr(1) json_obj_def bm_of_list_def)
    moreover have "tags_of manifest = []"
      using False cases by (auto simp: tags_of_def split: option.splits json.splits)
    ultimately show ?thesis by simp
  qed
  show "k \<noteq> ''tags'' \<Longrightarrow> json_find m k = json_find manifest k"
    using assms by (auto simp: with_tags_def set_member_Inr(1) split: if_splits)
qed

lemma set_member_tags:
  assumes "set_member (json_get m ''tags'') tag entry = Inr tags'" and "json_find m ''tags'' = Some (JObj tags)"
  shows "tags' = JObj (bm_insert tag entry tags)"
  using assms by (auto simp: set_member_def json_find_get json_set_def)

section \<open>Pointers to tags\<close>

lemma replace_str_absent: "c \<notin> set s \<Longrightarrow> replace_str (c # p) r s = s"
  by (induction "c # p" r s rule: replace_str.induct) (auto simp: starts_with_def)

lemma pointer_token_plain: "CHR ''~'' \<notin> set token \<Longrightarrow> pointer_token token = token"
  by (simp add: pointer_token_def replace_str_absent)

lemma tag_entry_obj:
  assumes "store_image_tag tag" and "json_find manifest ''tags'' = Some (JObj tags)"
  shows "tag_entry manifest tag = bm_get tags tag"
proof -
  have tag: "CHR ''/'' \<notin> set tag" "CHR ''~'' \<notin> set tag" using store_image_tag_no_slash [OF assms(1)] by simp_all
  have parts: "split_on CHR ''/'' ([] @ CHR ''/'' # ''tags'' @ CHR ''/'' # tag) = [[], ''tags'', tag]"
    using tag(1) by (subst split_on_append, simp, subst split_on_append) (simp_all add: split_on_no_sep)
  from assms(2) obtain members where "manifest = JObj members" "bm_get members ''tags'' = Some (JObj tags)"
    by (auto simp: json_find_def split: json.splits)
  then show ?thesis
    using parts tag(2) by (simp add: tag_entry_def json_pointer_def starts_with_def pointer_token_plain pointer_step_def)
qed

section \<open>What marking changes\<close>

text \<open>A sealed tag has the sealed image, keeps what it recorded of the bake, and nothing else of the manifest
  changes but the flat mirrors.\<close>

lemma mark_sealed_Inr:
  assumes "mark_sealed tag relative digest marker manifest = Inr m"
  shows "\<exists>tags entry. json_find m ''tags'' = Some (JObj tags) \<and> bm_get tags tag = Some entry
      \<and> flagged entry ''sealed'' \<and> flagged entry ''baked''
      \<and> json_get entry ''sealed_image'' = sealed_image relative digest marker
      \<and> (\<forall>k. k \<notin> {''sealed'', ''baked'', ''sealed_image''} \<longrightarrow>
           json_get entry k = (case bm_get (tags_of manifest) tag of Some old \<Rightarrow> json_get old k | None \<Rightarrow> JNull))
      \<and> (\<forall>t. t \<noteq> tag \<longrightarrow> bm_get tags t = bm_get (tags_of manifest) t)"
    and "k \<notin> {''tags'', ''sealed'', ''sealed_image''} \<Longrightarrow> json_find m k = json_find manifest k"
proof -
  from assms obtain m1 e1 e2 entry tags2 m2 m3 where
    steps: "with_tags manifest = Inr m1"
      "set_member (case json_find (json_get m1 ''tags'') tag of Some entry \<Rightarrow> entry | None \<Rightarrow> json_obj [])
         ''sealed'' (JBool True) = Inr e1"
      "set_member e1 ''baked'' (JBool True) = Inr e2"
      "set_member e2 ''sealed_image'' (sealed_image relative digest marker) = Inr entry"
      "set_member (json_get m1 ''tags'') tag entry = Inr tags2"
      "set_member m1 ''tags'' tags2 = Inr m2"
      "set_member m2 ''sealed'' (JBool True) = Inr m3"
      "set_member m3 ''sealed_image'' (sealed_image relative digest marker) = Inr m"
    by (auto simp: mark_sealed_def Let_def)
  from with_tags_Inr(1) [OF steps(1)] obtain tags1 where tags1: "json_find m1 ''tags'' = Some (JObj tags1)"
      "bm_get tags1 = bm_get (tags_of manifest)" by blast
  note finds = set_member_Inr(1) [OF steps(2)] set_member_Inr(1) [OF steps(3)] set_member_Inr(1) [OF steps(4)]
    set_member_Inr(1) [OF steps(6)] set_member_Inr(1) [OF steps(7)] set_member_Inr(1) [OF steps(8)]
  note gets = set_member_Inr(2) [OF steps(2)] set_member_Inr(2) [OF steps(3)] set_member_Inr(2) [OF steps(4)]
  have tags2: "tags2 = JObj (bm_insert tag entry tags1)" using steps(5) tags1(1) by (rule set_member_tags)
  have old: "json_find (json_get m1 ''tags'') tag = bm_get (tags_of manifest) tag"
    using tags1 by (simp add: json_find_get json_find_def [of "JObj tags1"])
  have "json_find m ''tags'' = Some (JObj (bm_insert tag entry tags1))" by (simp add: finds tags2)
  moreover have "bm_get (bm_insert tag entry tags1) tag = Some entry" by (simp add: bm_get_insert)
  moreover have "flagged entry ''sealed''" "flagged entry ''baked''" by (simp_all add: flagged_def finds)
  moreover have "json_get entry ''sealed_image'' = sealed_image relative digest marker" by (simp add: gets)
  moreover have "\<forall>k. k \<notin> {''sealed'', ''baked'', ''sealed_image''} \<longrightarrow>
      json_get entry k = (case bm_get (tags_of manifest) tag of Some old \<Rightarrow> json_get old k | None \<Rightarrow> JNull)"
    by (simp add: gets old json_get_obj split: option.split)
  moreover have "\<forall>t. t \<noteq> tag \<longrightarrow> bm_get (bm_insert tag entry tags1) t = bm_get (tags_of manifest) t"
    by (simp add: bm_get_insert tags1(2))
  ultimately show "\<exists>tags entry. json_find m ''tags'' = Some (JObj tags) \<and> bm_get tags tag = Some entry
      \<and> flagged entry ''sealed'' \<and> flagged entry ''baked''
      \<and> json_get entry ''sealed_image'' = sealed_image relative digest marker
      \<and> (\<forall>k. k \<notin> {''sealed'', ''baked'', ''sealed_image''} \<longrightarrow>
           json_get entry k = (case bm_get (tags_of manifest) tag of Some old \<Rightarrow> json_get old k | None \<Rightarrow> JNull))
      \<and> (\<forall>t. t \<noteq> tag \<longrightarrow> bm_get tags t = bm_get (tags_of manifest) t)"
    by blast
  show "k \<notin> {''tags'', ''sealed'', ''sealed_image''} \<Longrightarrow> json_find m k = json_find manifest k"
    by (simp add: finds with_tags_Inr(2) [OF steps(1)])
qed

text \<open>A tag baked again is no longer sealed, other tags stay as they are.\<close>

lemma mark_baked_Inr:
  assumes "mark_baked tag relative digest agent_version manifest = Inr m"
  shows "\<exists>tags. json_find m ''tags'' = Some (JObj tags)
      \<and> bm_get tags tag = Some (json_obj [(''baked'', JBool True), (''baked_image'', baked_image relative digest agent_version)])
      \<and> (\<forall>t. t \<noteq> tag \<longrightarrow> bm_get tags t = bm_get (tags_of manifest) t)"
    and "k \<notin> {''tags'', ''baked'', ''baked_image'', ''sealed'', ''sealed_image''} \<Longrightarrow> json_find m k = json_find manifest k"
proof -
  let ?entry = "json_obj [(''baked'', JBool True), (''baked_image'', baked_image relative digest agent_version)]"
  from assms obtain m1 tags2 m2 m3 m4 m5 where
    steps: "with_tags manifest = Inr m1" "set_member (json_get m1 ''tags'') tag ?entry = Inr tags2"
      "set_member m1 ''tags'' tags2 = Inr m2" "set_member m2 ''baked'' (JBool True) = Inr m3"
      "set_member m3 ''baked_image'' (baked_image relative digest agent_version) = Inr m4"
      "set_member m4 ''sealed'' (JBool (any_sealed m4)) = Inr m5"
    and m: "m = (if any_sealed m5 then m5 else remove_member m5 ''sealed_image'')"
    by (auto simp: mark_baked_def Let_def)
  from with_tags_Inr(1) [OF steps(1)] obtain tags1 where tags1: "json_find m1 ''tags'' = Some (JObj tags1)"
      "bm_get tags1 = bm_get (tags_of manifest)" by blast
  note finds = set_member_Inr(1) [OF steps(3)] set_member_Inr(1) [OF steps(4)] set_member_Inr(1) [OF steps(5)]
    set_member_Inr(1) [OF steps(6)]
  have tags2: "tags2 = JObj (bm_insert tag ?entry tags1)" using steps(2) tags1(1) by (rule set_member_tags)
  have removed: "json_find m k' = json_find m5 k'" if "k' \<noteq> ''sealed_image''" for k'
    using that by (auto simp: m remove_member_def json_find_def bm_get_remove split: json.split)
  have "json_find m ''tags'' = Some (JObj (bm_insert tag ?entry tags1))" by (simp add: removed finds tags2)
  then show "\<exists>tags. json_find m ''tags'' = Some (JObj tags) \<and> bm_get tags tag = Some ?entry
      \<and> (\<forall>t. t \<noteq> tag \<longrightarrow> bm_get tags t = bm_get (tags_of manifest) t)"
    by (auto simp: bm_get_insert tags1(2))
  show "k \<notin> {''tags'', ''baked'', ''baked_image'', ''sealed'', ''sealed_image''} \<Longrightarrow> json_find m k = json_find manifest k"
    by (simp add: removed finds with_tags_Inr(2) [OF steps(1)])
qed

section \<open>Files of the loop over the manifests\<close>

definition entry_file :: "string \<Rightarrow> string \<Rightarrow> string" where
  "entry_file dir name = path_join (path_join dir ''aliases'') name"

text \<open>The names in a directory are distinct and have no slash.\<close>

definition listing_ok :: "image_lib \<Rightarrow> string \<Rightarrow> bool" where
  "listing_ok I dir =
     (case im_listing I (path_join dir ''aliases'') of
        None \<Rightarrow> True
      | Some names \<Rightarrow> distinct names \<and> list_all (\<lambda>name. name \<noteq> [] \<and> CHR ''/'' \<notin> set name) names)"

lemma entry_file_eq: "CHR ''/'' \<notin> set name \<Longrightarrow> entry_file dir name = base_dir dir @ ''aliases/'' @ name"
  by (simp add: entry_file_def join_sub plain_relative)

lemma entry_file_alias: "entry_file dir (image_alias @ ''.json'') = manifest_file dir image_alias"
  by (simp add: entry_file_def manifest_file_def)

lemma json_entry:
  assumes "path_extension name = Some ''json''"
  obtains stem where "stem \<noteq> []" and "name = stem @ ''.json''"
proof -
  from assms obtain stem where stem: "rsplit_once CHR ''.'' name = Some (stem, ''json'')" "stem \<noteq> []"
    by (auto simp: path_extension_def split: option.splits prod.splits if_splits)
  then obtain a b where "split_once CHR ''.'' (rev name) = Some (a, b)" "stem = rev b" "''json'' = rev a"
    by (auto simp: rsplit_once_def)
  then have "rev name = rev ''json'' @ CHR ''.'' # rev stem" by (simp add: split_once_Some)
  then have "name = stem @ ''.json''" by (metis (no_types, lifting) append_Cons append_Nil append_assoc rev.simps(2) rev_append rev_rev_ident)
  with stem(2) show ?thesis by (rule that)
qed

lemma entry_temporary:
  assumes "path_extension name = Some ''json''" and "CHR ''/'' \<notin> set name"
  shows "json_temporary I (entry_file dir name) = entry_file dir name @ ''.tmp-'' @ show_nat (im_pid I)"
proof -
  from assms(1) obtain stem where stem: "stem \<noteq> []" "name = stem @ ''.json''" by (rule json_entry)
  have "with_extension ((base_dir dir @ ''aliases'') @ ''/'' @ stem @ ''.'' @ ''json'') (''json.tmp-'' @ show_nat (im_pid I))
    = (base_dir dir @ ''aliases'') @ ''/'' @ stem @ ''.'' @ ''json.tmp-'' @ show_nat (im_pid I)"
    by (rule with_extension_file) (use assms(2) stem in auto)
  then show ?thesis using assms(2) by (simp add: json_temporary_def entry_file_eq stem(2))
qed

lemma entry_not_temporary:
  assumes "path_extension x = Some ''json''" and "path_extension y = Some ''json''"
    and "CHR ''/'' \<notin> set x" and "CHR ''/'' \<notin> set y"
  shows "entry_file dir x \<noteq> json_temporary I (entry_file dir y)"
proof
  assume eq: "entry_file dir x = json_temporary I (entry_file dir y)"
  from assms(1) obtain stem where "x = stem @ ''.json''" by (rule json_entry)
  then have "last (entry_file dir x) = CHR ''n''" using assms(3) by (simp add: entry_file_eq)
  moreover have "last (json_temporary I (entry_file dir y)) = last (show_nat (im_pid I))"
    using assms by (simp add: entry_temporary)
  moreover have "is_ascii_digit (last (show_nat (im_pid I)))"
    using show_nat_digits [of "im_pid I"] by (simp add: list_all_iff)
  ultimately show False using eq by (simp add: char_class_defs)
qed

text \<open>What marking an entry writes: the manifest of the entry and its temporary file.\<close>

definition entry_writes :: "image_lib \<Rightarrow> string \<Rightarrow> string \<Rightarrow> string \<Rightarrow> bool" where
  "entry_writes I dir name path \<longleftrightarrow>
     path_extension name = Some ''json''
     \<and> (path = entry_file dir name \<or> path = json_temporary I (entry_file dir name))"

lemma write_json_atomic_only:
  "only (\<lambda>p. p = path \<or> p = json_temporary I path) d (snd (write_json_atomic I path v d))"
proof -
  have "only (\<lambda>p. p = path \<or> p = json_temporary I path) d (snd (write_file I (json_temporary I path) content d))" for content
    by (rule write_file_only) simp
  then show ?thesis
    by (auto simp: write_json_atomic_def fd_bind_def rename_file_def Let_def only_def
        split: sum.splits prod.splits option.splits)
qed

lemma mark_entry_run:
  obtains (skipped) r where "mark_entry I (path_join dir ''aliases'') kind tag expected update name d = (r, d)"
      and "r = Inr () \<Longrightarrow> path_extension name = Some ''json'' \<Longrightarrow>
         marked_manifest I (view I d) (entry_file dir name) kind tag expected = Inr None"
    | (marked) manifest where "path_extension name = Some ''json''"
      and "marked_manifest I (view I d) (entry_file dir name) kind tag expected = Inr (Some manifest)"
      and "mark_entry I (path_join dir ''aliases'') kind tag expected update name d
        = fd_bind (update manifest) (\<lambda>m. fd_err fail_message (write_json_atomic I (entry_file dir name) m)) d"
proof (cases "im_fault I (OpListing (entry_file dir name))")
  case (Some fault)
  then show ?thesis
    by (intro skipped [of "fst (mark_entry I (path_join dir ''aliases'') kind tag expected update name d)"])
       (auto simp: mark_entry_def Let_def entry_file_def [symmetric] split: prod.splits)
next
  case None
  note no_fault = None
  show ?thesis
  proof (cases "path_extension name = Some ''json''")
    case False
    with None show ?thesis
      by (intro skipped [of "Inr ()"]) (auto simp: mark_entry_def Let_def entry_file_def [symmetric])
  next
    case True
    show ?thesis
    proof (cases "marked_manifest I (view I d) (entry_file dir name) kind tag expected")
      case (Inl e)
      with None True show ?thesis
        by (intro skipped [of "Inl e"]) (auto simp: mark_entry_def Let_def entry_file_def [symmetric] fd_bind_view)
    next
      case (Inr found)
      show ?thesis
      proof (cases found)
        case None
        with no_fault True Inr show ?thesis
          by (intro skipped [of "Inr ()"]) (auto simp: mark_entry_def Let_def entry_file_def [symmetric] fd_bind_view)
      next
        case (Some manifest)
        with no_fault True Inr show ?thesis
          by (intro marked [of manifest]) (auto simp: mark_entry_def Let_def entry_file_def [symmetric] fd_bind_view)
      qed
    qed
  qed
qed

lemma mark_entry_sealed_only:
  "only (entry_writes I dir name) d
     (snd (mark_entry I (path_join dir ''aliases'') kind tag expected (\<lambda>manifest. fd_of (update manifest)) name d))"
proof (cases rule: mark_entry_run [of I dir kind tag expected "\<lambda>manifest. fd_of (update manifest)" name d])
  case (skipped r)
  then show ?thesis by simp
next
  case (marked manifest)
  show ?thesis
  proof (cases "update manifest")
    case (Inl e)
    then show ?thesis by (simp add: marked(3) fd_bind_of)
  next
    case (Inr m)
    have "only (entry_writes I dir name) d (snd (write_json_atomic I (entry_file dir name) m d))"
      by (rule only_mono [OF write_json_atomic_only]) (auto simp: entry_writes_def marked(1))
    then show ?thesis by (simp add: marked(3) fd_bind_of Inr)
  qed
qed

lemma fd_each_only:
  assumes "\<And>x d. x \<in> set xs \<Longrightarrow> only (S x) d (snd (f x d))"
  shows "only (\<lambda>p. \<exists>x \<in> set xs. S x p) d (snd (fd_each f xs d))"
  using assms
proof (induction xs arbitrary: d)
  case Nil
  then show ?case by simp
next
  case (Cons x xs)
  obtain r d1 where run: "f x d = (r, d1)" by fastforce
  have first: "only (\<lambda>p. \<exists>y \<in> set (x # xs). S y p) d d1"
    using Cons.prems [of x d] run by (auto intro: only_mono)
  have "only (\<lambda>p. \<exists>y \<in> set xs. S y p) d1 (snd (fd_each f xs d1))"
    by (rule Cons.IH) (use Cons.prems in auto)
  then have "only (\<lambda>p. \<exists>y \<in> set (x # xs). S y p) d1 (snd (fd_each f xs d1))" by (auto intro: only_mono)
  with first run show ?case by (cases r) (auto simp: fd_bind_def intro: only_trans)
qed

lemma fd_each_middle:
  assumes "fd_each f (pre @ x # post) d = (Inr (), d')"
  obtains d1 d2 where "fd_each f pre d = (Inr (), d1)" and "f x d1 = (Inr (), d2)" and "fd_each f post d2 = (Inr (), d')"
  using assms
proof (induction pre arbitrary: d thesis)
  case Nil
  then show ?case by (auto elim!: fd_bind_Inr)
next
  case (Cons y pre)
  from Cons.prems(2) obtain u d0 where y: "f y d = (Inr u, d0)" "fd_each f (pre @ x # post) d0 = (Inr (), d')"
    by (auto elim!: fd_bind_Inr)
  from Cons.IH [OF _ y(2)] obtain d1 d2 where "fd_each f pre d0 = (Inr (), d1)" "f x d1 = (Inr (), d2)"
      "fd_each f post d2 = (Inr (), d')" by blast
  with y(1) show ?case by (intro Cons.prems(1) [of d1 d2]) (auto simp: fd_bind_def)
qed

section \<open>A sealed tag is found\<close>

lemma marked_manifest_cong:
  "files path = files' path \<Longrightarrow> marked_manifest I files path kind tag expected = marked_manifest I files' path kind tag expected"
  by (simp add: marked_manifest_def read_file_def)

lemma listing_names:
  "listing_ok I dir \<Longrightarrow> im_listing I (path_join dir ''aliases'') = Some names \<Longrightarrow>
     distinct names \<and> (\<forall>name \<in> set names. CHR ''/'' \<notin> set name)"
  by (auto simp: listing_ok_def list_all_iff)

lemma entry_kept:
  assumes "only (\<lambda>p. \<exists>x \<in> set xs. entry_writes I dir x p) d d'" and "name \<notin> set xs"
    and "\<forall>x \<in> set (name # xs). CHR ''/'' \<notin> set x" and "path_extension name = Some ''json''"
  shows "d' (entry_file dir name) = d (entry_file dir name)"
proof -
  have "\<not> entry_writes I dir x (entry_file dir name)" if "x \<in> set xs" for x
  proof
    assume writes: "entry_writes I dir x (entry_file dir name)"
    have "name \<noteq> x" using assms(2) that by blast
    then have "entry_file dir name \<noteq> entry_file dir x" using assms(3) that by (simp add: entry_file_eq)
    moreover have "entry_file dir name \<noteq> json_temporary I (entry_file dir x)"
      using writes assms(3,4) that by (intro entry_not_temporary) (auto simp: entry_writes_def)
    ultimately show False using writes by (simp add: entry_writes_def)
  qed
  with assms(1) show ?thesis by (auto simp: only_def)
qed

text \<open>The digest that is recorded: the given one or that of the sealed image.\<close>

definition sealed_digest :: "image_lib \<Rightarrow> disk \<Rightarrow> string \<Rightarrow> string option \<Rightarrow> string" where
  "sealed_digest I d sealed digest =
     (case digest of Some value \<Rightarrow> value
      | None \<Rightarrow> (case d sealed of Some content \<Rightarrow> hash_hex I Sha256 content | None \<Rightarrow> []))"

lemma mark_aliases_sealed_Inr:
  assumes "mark_aliases_sealed I dir sealed marker tag digest d = (Inr (), d')"
    and "im_listing I (path_join dir ''aliases'') = Some names" and "path_strip_prefix sealed dir = Some relative"
  shows "store_image_tag tag
    \<and> fd_each (mark_entry I (path_join dir ''aliases'') ''sealed'' tag relative
        (\<lambda>manifest. fd_of (mark_sealed tag relative (sealed_digest I d sealed digest) marker manifest))) names d = (Inr (), d')"
proof -
  from assms(1,2) have tag: "store_image_tag tag" by (auto simp: mark_aliases_sealed_def Let_def split: if_splits)
  have "fd_bind (case digest of
          Some value \<Rightarrow> fd_of (Inr value)
        | None \<Rightarrow> fd_view I (\<lambda>files. message_of (hash_file I files sealed Sha256))) (\<lambda>digest.
      mark_entries I (path_join dir ''aliases'') ''sealed'' tag relative
        (\<lambda>manifest. fd_of (mark_sealed tag relative digest marker manifest)) names) d = (Inr (), d')"
    using assms tag by (simp add: mark_aliases_sealed_def Let_def fd_bind_of)
  then obtain recorded d1 where digest: "(case digest of
          Some value \<Rightarrow> fd_of (Inr value)
        | None \<Rightarrow> fd_view I (\<lambda>files. message_of (hash_file I files sealed Sha256))) d = (Inr recorded, d1)"
      and run: "mark_entries I (path_join dir ''aliases'') ''sealed'' tag relative
        (\<lambda>manifest. fd_of (mark_sealed tag relative recorded marker manifest)) names d1 = (Inr (), d')"
    by (rule fd_bind_Inr)
  from digest have "d1 = d" "recorded = sealed_digest I d sealed digest"
    by (auto simp: sealed_digest_def message_of_def dest!: hash_view_Inr split: option.splits)
  with run tag show ?thesis by (auto simp: mark_entries_def split: option.splits)
qed

lemma sealed_manifest_written:
  assumes run: "mark_aliases_sealed I dir sealed marker tag digest d = (Inr (), d')"
    and names: "im_listing I (path_join dir ''aliases'') = Some names" "listing_ok I dir" "name \<in> set names"
    and relative: "path_strip_prefix sealed dir = Some relative"
    and json: "path_extension name = Some ''json''"
    and manifest: "marked_manifest I (view I d) (entry_file dir name) ''sealed'' tag relative = Inr (Some manifest)"
  shows "\<exists>m t. mark_sealed tag relative (sealed_digest I d sealed digest) marker manifest = Inr m
    \<and> im_pretty I m = Inr t \<and> d' (entry_file dir name) = Some (t @ [CHR 0x0A])"
proof -
  let ?update = "mark_sealed tag relative (sealed_digest I d sealed digest) marker"
  let ?f = "mark_entry I (path_join dir ''aliases'') ''sealed'' tag relative (\<lambda>manifest. fd_of (?update manifest))"
  from mark_aliases_sealed_Inr [OF run names(1) relative] have loop: "fd_each ?f names d = (Inr (), d')" by simp
  from listing_names [OF names(2,1)] have plain: "distinct names" "\<forall>x \<in> set names. CHR ''/'' \<notin> set x" by simp_all
  from names(3) obtain pre post where split: "names = pre @ name # post" by (auto dest: split_list)
  have apart: "name \<notin> set pre" "name \<notin> set post" using plain(1) split by auto
  from fd_each_middle [OF loop [unfolded split]] obtain d1 d2 where steps: "fd_each ?f pre d = (Inr (), d1)"
      "?f name d1 = (Inr (), d2)" "fd_each ?f post d2 = (Inr (), d')" by blast
  have each: "only (\<lambda>p. \<exists>x \<in> set xs. entry_writes I dir x p) d0 (snd (fd_each ?f xs d0))" for xs d0
    by (rule fd_each_only) (rule mark_entry_sealed_only)
  have before: "d1 (entry_file dir name) = d (entry_file dir name)"
    using each [of pre d] steps(1) apart plain(2) split json by (intro entry_kept [of pre I dir]) auto
  have after: "d' (entry_file dir name) = d2 (entry_file dir name)"
    using each [of post d2] steps(3) apart plain(2) split json by (intro entry_kept [of post I dir]) auto
  have same: "marked_manifest I (view I d1) (entry_file dir name) ''sealed'' tag relative = Inr (Some manifest)"
    using manifest before marked_manifest_cong [of "view I d1" "entry_file dir name" "view I d"] by (simp add: view_def)
  show ?thesis
  proof (cases rule: mark_entry_run [of I dir "''sealed''" tag relative "\<lambda>manifest. fd_of (?update manifest)" name d1])
    case (skipped r)
    with steps(2) same json show ?thesis by simp
  next
    case (marked manifest')
    with same have [simp]: "manifest' = manifest" by simp
    from steps(2) marked(3) have "fd_bind (fd_of (?update manifest))
        (\<lambda>m. fd_err fail_message (write_json_atomic I (entry_file dir name) m)) d1 = (Inr (), d2)" by simp
    then obtain m d0 where m: "fd_of (?update manifest) d1 = (Inr m, d0)"
        "fd_err fail_message (write_json_atomic I (entry_file dir name) m) d0 = (Inr (), d2)" by (rule fd_bind_Inr)
    then have m': "?update manifest = Inr m" "d0 = d1" "fst (write_json_atomic I (entry_file dir name) m d1) = Inr ()"
        "d2 = snd (write_json_atomic I (entry_file dir name) m d1)" by (auto simp: map_err_def split: sum.splits)
    have "CHR ''/'' \<notin> set name" using plain(2) names(3) by blast
    then have "entry_file dir name \<noteq> json_temporary I (entry_file dir name)" using json by (intro entry_not_temporary)
    from write_json_atomic_Inr [OF m'(3) this] obtain t where "im_pretty I m = Inr t"
        "d2 (entry_file dir name) = Some (t @ [CHR 0x0A])" by (metis m'(4) fun_upd_same)
    with m'(1) after show ?thesis by auto
  qed
qed

lemma tag_file_components:
  assumes "is_safe_alias canonical" and "store_image_tag tag" and "kind \<in> {''sealed'', ''baked''}"
  shows "components (tag_file kind canonical tag) = [Normal kind, Normal (canonical @ ''@'' @ tag @ ''.raw'')]"
    and "\<not> is_absolute (tag_file kind canonical tag)"
proof -
  let ?name = "canonical @ ''@'' @ tag @ ''.raw''"
  have plain: "CHR ''/'' \<notin> set ?name"
    using safe_alias_no_slash [OF assms(1)] store_image_tag_no_slash [OF assms(2)] by simp
  have "CHR ''/'' \<notin> set kind" using assms(3) by auto
  then have parts: "split_on CHR ''/'' (kind @ CHR ''/'' # ?name) = [kind, ?name]"
    using plain split_on_append [of "CHR ''/''" kind ?name] split_on_no_sep [of "CHR ''/''" ?name] by simp
  have "?name \<noteq> ''..''" "?name \<noteq> ''.''" "?name \<noteq> []"
    by (auto dest!: arg_cong [where f = length])
  moreover show "\<not> is_absolute (tag_file kind canonical tag)" using assms(3) by (auto simp: tag_file_def)
  ultimately show "components (tag_file kind canonical tag) = [Normal kind, Normal ?name]"
    using assms(3) parts by (auto simp: components_def tag_file_def component_of_def)
qed

lemma tag_file_relative:
  assumes "is_safe_alias canonical" and "store_image_tag tag" and "kind \<in> {''sealed'', ''baked''}"
  shows "path_strip_prefix (path_join dir (tag_file kind canonical tag)) dir = Some (tag_file kind canonical tag)"
proof -
  note names = tag_file_components [OF assms]
  have "components (path_join dir (tag_file kind canonical tag)) = components dir @ components (tag_file kind canonical tag)"
    by (rule components_join) (simp_all add: names normal_def)
  then show ?thesis
    by (simp add: path_strip_prefix_def path_starts_with_def names component_text_def) (simp add: tag_file_def)
qed

lemma sealed_entry_path:
  assumes "json_get entry ''sealed_image'' = sealed_image (tag_file ''sealed'' canonical tag) digest marker"
    and "is_safe_alias canonical" and "store_image_tag tag"
  shows "sealed_path entry = Inr (tag_file ''sealed'' canonical tag)"
    and "json_get (json_get entry ''sealed_image'') ''marker'' = JStr marker"
  using tag_file_components [OF assms(2,3), of "''sealed''"] store_prefixes(2)
  by (simp_all add: assms(1) sealed_image_def sealed_path_def safe_relative_image_path_def json_get_obj json_as_str_def
      path_starts_with_def normal_def)

lemma sealed_tag_ready:
  assumes run: "mark_aliases_sealed I dir (path_join dir (tag_file ''sealed'' canonical tag)) marker tag digest d = (Inr (), d')"
    and names: "im_listing I (path_join dir ''aliases'') = Some names" "listing_ok I dir"
      "image_alias @ ''.json'' \<in> set names"
    and safe: "is_safe_alias image_alias" "is_safe_alias canonical" and reads: "readable I"
    and manifest: "read_alias_manifest I (view I d) dir image_alias = Inr (Some manifest)"
      "json_get manifest ''canonical_alias'' = JStr canonical"
    and again: "\<And>m. mark_sealed tag (tag_file ''sealed'' canonical tag)
        (sealed_digest I d (path_join dir (tag_file ''sealed'' canonical tag)) digest) marker manifest = Inr m \<Longrightarrow> reads_back I m"
    and there: "d' (path_join dir (tag_file ''sealed'' canonical tag)) \<noteq> None" "d' marker \<noteq> None"
  shows "tagged_seal_ready I (view I d') dir image_alias tag = Inr True
    \<and> resolve_alias_tag I (view I d') dir image_alias tag = Inr (Some (path_join dir (tag_file ''sealed'' canonical tag)))"
proof -
  let ?relative = "tag_file ''sealed'' canonical tag"
  have tag: "store_image_tag tag"
    using run names(1) by (auto simp: mark_aliases_sealed_def Let_def split: if_splits)
  note relative = tag_file_relative [OF safe(2) tag, of "''sealed''" dir]
  have ext: "path_extension (image_alias @ ''.json'') = Some ''json''"
    using safe_alias_no_slash [OF safe(1)] rsplit_once_last [of "CHR ''.''" "''json''" image_alias]
    by (simp add: path_extension_def)
  from manifest have "marked_manifest I (view I d) (entry_file dir (image_alias @ ''.json'')) ''sealed'' tag ?relative
      = Inr (Some manifest)"
    using safe by (auto simp: read_alias_manifest_def marked_manifest_def entry_file_alias Let_def canonical_of_def
        json_as_str_def split: if_splits)
  from sealed_manifest_written [OF run names(1,2,3) _ ext this] relative obtain m t where
    m: "mark_sealed tag ?relative (sealed_digest I d (path_join dir ?relative) digest) marker manifest = Inr m"
      "im_pretty I m = Inr t" "d' (manifest_file dir image_alias) = Some (t @ [CHR 0x0A])"
    by (auto simp: entry_file_alias)
  from again [OF m(1)] m(2) have parsed: "up_parse (im_up I) (t @ [CHR 0x0A]) = Inr m" by (simp add: reads_back_def)
  have "json_get m ''apiVersion'' = JStr ALIAS_VERSION"
    using mark_sealed_Inr(2) [OF m(1), of "''apiVersion''"] manifest(1)
    by (auto simp: json_find_get read_alias_manifest_def Let_def split: if_splits)
  then have read: "read_alias_manifest I (view I d') dir image_alias = Inr (Some m)"
    using m(3) parsed safe(1) reads by (simp add: read_alias_manifest_def Let_def is_file_def read_file_def view_readable)
  from mark_sealed_Inr(1) [OF m(1)] obtain tags entry where
    entry: "json_find m ''tags'' = Some (JObj tags)" "bm_get tags tag = Some entry" "flagged entry ''sealed''"
      "json_get entry ''sealed_image''
         = sealed_image ?relative (sealed_digest I d (path_join dir ?relative) digest) marker"
    by (elim exE conjE) (rule that)
  have found: "tag_entry m tag = Some entry" using tag_entry_obj [OF tag entry(1)] entry(2) by simp
  note path = sealed_entry_path [OF entry(4) safe(2) tag]
  have files: "is_file (view I d') (path_join dir ?relative)" "is_file (view I d') marker"
    using there reads by (auto simp: is_file_def view_readable)
  show ?thesis
    using tag read found entry(3) path files
    by (simp add: tagged_seal_ready_def resolve_alias_tag_def message_of_def present_def Let_def json_as_str_def)
qed

section \<open>Pulled objects are never changed\<close>

lemma permissions_snd [simp]: "snd (permissions I path call d) = d"
  by (auto simp: permissions_def split: option.split)


lemma only_of [simp]: "only S d (snd (fd_of r d))"
  by simp

lemma only_view [simp]: "only S d (snd (fd_view I f d))"
  by simp



definition keeps_objects :: "string \<Rightarrow> disk \<Rightarrow> disk \<Rightarrow> bool" where
  "keeps_objects dir d d' \<longleftrightarrow> (\<forall>digest. d' (object_file dir digest) = d (object_file dir digest))"


lemma keeps_objects_refl [simp]: "keeps_objects dir d d"
  by (simp add: keeps_objects_def)








text \<open>The marker a tag records is not a pulled object: what \<open>mark_aliases_sealed\<close> records are markers.\<close>

definition recorded_marker :: "json \<Rightarrow> string \<Rightarrow> string option" where
  "recorded_marker manifest tag =
     (case tag_entry (retagged manifest) tag of Some previous \<Rightarrow> pointer_str previous ''/sealed_image/marker'' | None \<Rightarrow> None)"

definition markers_ok :: "image_lib \<Rightarrow> string \<Rightarrow> string \<Rightarrow> disk \<Rightarrow> bool" where
  "markers_ok I dir tag d \<longleftrightarrow>
     (\<forall>path bytes manifest marker digest. d path = Some bytes \<longrightarrow> up_parse (im_up I) bytes = Inr manifest \<longrightarrow>
        recorded_marker manifest tag = Some marker \<longrightarrow> path_join dir marker \<noteq> object_file dir digest)"







section \<open>The store as a state machine\<close>

text \<open>One command on the store: a pull, the copy of a bake or a seal, or the marking of the manifests after it. Each
  runs with its own upstream, programs and file errors; only the digests are the same for all.\<close>

inductive store_step :: "image_lib \<Rightarrow> string \<Rightarrow> disk \<Rightarrow> disk \<Rightarrow> bool" for I :: image_lib and dir :: string where
  pulled: "im_hash J = im_hash I \<Longrightarrow> coreos_name_ok (im_up J) \<Longrightarrow>
     store_step I dir d (snd (pull_with J dir image_alias enforce d))"
| bake_prepared: "store_step I dir d (snd (prepare_alias_for_bake J dir image_alias tag agent_version force d))"
| baked: "listing_ok J dir \<Longrightarrow> markers_ok J dir tag d \<Longrightarrow>
     store_step I dir d (snd (mark_aliases_baked J dir path tag agent_version d))"
| seal_prepared: "store_step I dir d (snd (prepare_alias_for_seal J dir image_alias tag force d))"
| sealed: "listing_ok J dir \<Longrightarrow>
     store_step I dir d (snd (mark_aliases_sealed J dir path marker tag digest d))"




section \<open>Sample store\<close>

definition sample_metadata :: json where
  "sample_metadata =
     JObj [(''assets'', JArr [JObj [(''browser_download_url'', JStr ''https://u''),
        (''digest'', JStr (''sha256:'' @ replicate 64 CHR ''0'')), (''name'', JStr ''metal-arm64.raw.zst'')]]),
       (''tag_name'', JStr ''v1'')]"

definition sample_entry :: catalog_entry where
  "sample_entry = \<lparr>cat_canonical = ''talos-latest'', cat_aliases = [''talos-latest''],
      cat_distribution = ''Talos Linux'', cat_release = ''latest stable'',
      cat_resolver = GithubLatest ''siderolabs/talos'' ''metal-arm64.raw.zst'' RawZst\<rparr>"

definition sample_source :: resolved_source where
  "sample_source = \<lparr>src_url = ''https://u'', src_filename = ''metal-arm64.raw.zst'', src_format = RawZst,
     src_algorithm = Sha256, src_digest = replicate 64 CHR ''0'', src_release = Some ''v1''\<rparr>"

definition sample_digest :: string where
  "sample_digest = replicate 64 CHR ''0''"

definition sample_images :: image_lib where
  "sample_images =
     \<lparr>im_up = \<lparr>up_text = (\<lambda>_. Inr ''meta''),
        up_parse = (\<lambda>s. if s = ''meta'' then Inr sample_metadata
                        else Inr (pulled_manifest sample_entry sample_source sample_digest))\<rparr>,
      im_pretty = (\<lambda>_. Inr ''{}''), im_hash = (\<lambda>_ _. replicate 32 0), im_pid = 1, im_nonce = 2,
      im_arch = ''aarch64'', im_fault = (\<lambda>_. None), im_listing = (\<lambda>_. Some [''talos-latest.json'']),
      im_download = (\<lambda>_ _. (None, Some ''packed'')), im_qemu = None, im_run = (\<lambda>_ _. Inr (''disk'', True)),
      im_extract = (\<lambda>_ _. Inl ''no'')\<rparr>"

lemma sample_readable: "readable sample_images"
  by (simp add: readable_def sample_images_def)

lemma sample_hash: "hash_hex sample_images algorithm content = sample_digest"
proof -
  have "hex_digit 0 = CHR ''0''" by code_simp
  moreover have "concat (replicate n [c, c]) = replicate (2 * n) c" for n and c :: char by (induction n) simp_all
  ultimately show ?thesis
    by (simp add: hash_hex_def sample_images_def image_hex_def sample_digest_def)
qed

lemma sample_catalog: "find_catalog_entry ''talos-latest'' = Some sample_entry"
  by (simp add: find_catalog_entry_iff sample_entry_def catalog_defs)

lemma sample_resolved: "resolve_source (im_up sample_images) sample_entry = Inr sample_source"
  by (simp add: resolve_source_def sample_entry_def sample_images_def resolve_github_asset_def fetch_metadata_def
      github_asset_def sample_metadata_def json_get_def required_json_string_def json_as_str_def strip_prefix_def
      starts_with_def sample_source_def)

lemma sample_coreos: "coreos_name_ok (im_up sample_images)"
  by (simp add: coreos_name_ok_def resolve_coreos_def fetch_metadata_def sample_images_def sample_metadata_def
      json_get_def required_json_string_def json_as_str_def Let_def)

lemma sample_digest_valid: "is_digest Sha256 sample_digest"
  by (simp add: is_digest_def sample_digest_def hex_len_def list_all_iff is_hex_digit_def char_class_defs)

lemma sample_parse: "up_parse (im_up sample_images) s
    = (if s = ''meta'' then Inr sample_metadata else Inr (pulled_manifest sample_entry sample_source sample_digest))"
  by (simp add: sample_images_def)

lemma sample_reads_back: "reads_back sample_images (pulled_manifest sample_entry sample_source sample_digest)"
  by (simp add: reads_back_def sample_images_def)

lemma sample_fields:
  "im_fault sample_images operation = None" "im_arch sample_images = ''aarch64''"
  "im_pretty sample_images v = Inr ''{}''" "im_download sample_images url target = (None, Some ''packed'')"
  "im_run sample_images arguments input = Inr (''disk'', True)" "im_pid sample_images = 1" "im_nonce sample_images = 2"
  "im_listing sample_images directory = Some [''talos-latest.json'']"
  by (simp_all add: sample_images_def)

lemma sample_pull:
  "\<exists>d'. pull_with sample_images ''/i'' ''talos-latest'' True (\<lambda>_. None)
     = (Inr (pull_report ''/i'' ''talos-latest'' sample_entry sample_source ''v1'' sample_digest
         (object_file ''/i'' sample_digest) False False), d')
     \<and> d' (object_file ''/i'' sample_digest) = Some ''disk''"
proof -
  note ops = fd_bind_def write_file_def fd_op_def rename_file_def create_dir_def sample_fields
  let ?work = "work_dir sample_images ''/i''"
  have valid: "validate_digest_text (src_algorithm sample_source) (src_digest sample_source) = Inr ()"
    using sample_digest_valid by (simp add: sample_source_def sample_digest_def)
  have dirs: "fd_each (\<lambda>name. fd_err state_error (create_dir sample_images (path_join ''/i'' name)))
      [''objects'', ''aliases'', ''.tmp''] d = (Inr (), d)" for d
    by (simp add: fd_bind_def create_dir_def sample_fields)
  have fresh: "unchanged_result sample_images (view sample_images (\<lambda>_. None)) ''talos-latest'' sample_entry sample_source ''/i''
      = Inr None"
    by (simp add: unchanged_result_def is_file_def view_def)
  have start: "pull_with sample_images ''/i'' ''talos-latest'' True (\<lambda>_. None)
      = pull_downloaded sample_images ''/i'' ''talos-latest'' sample_entry sample_source (\<lambda>_. None)"
    unfolding pull_with_def
    by (simp add: fd_bind_of sample_catalog sample_resolved valid sample_fields fd_bind_ok [where m = "fd_each _ _", OF dirs]
        fd_bind_view fresh del: fd_each.simps)
  have work: "?work = ''/i/.tmp/pull-1-2''"
    by (simp add: work_dir_def path_join_eq ends_with_def sample_fields show_nat.simps digit_char_def) code_simp
  have files: "path_join ''/i/.tmp/pull-1-2'' ''metal-arm64.raw.zst'' = ''/i/.tmp/pull-1-2/metal-arm64.raw.zst''"
      "path_join ''/i/.tmp/pull-1-2'' ''normalized.raw'' = ''/i/.tmp/pull-1-2/normalized.raw''"
      "manifest_file ''/i'' ''talos-latest'' = ''/i/aliases/talos-latest.json''"
      "path_join ''/i'' (relative_object digest) = ''/i/objects/'' @ digest @ ''.raw''"
      "object_file ''/i'' digest = ''/i/objects/'' @ digest @ ''.raw''" for digest
    by (simp_all add: path_join_eq ends_with_def manifest_file_def relative_object_def object_file_def)
  have temporary: "json_temporary sample_images ''/i/aliases/talos-latest.json'' = ''/i/aliases/talos-latest.json.tmp-1''"
  proof -
    have "with_extension (''/i/aliases'' @ ''/'' @ ''talos-latest'' @ ''.'' @ ''json'') (''json.tmp-'' @ show_nat 1)
        = ''/i/aliases'' @ ''/'' @ ''talos-latest'' @ ''.'' @ ''json.tmp-'' @ show_nat 1"
      by (rule with_extension_file) simp_all
    moreover have "show_nat 1 = ''1''" by (simp add: show_nat.simps digit_char_def) code_simp
    ultimately show ?thesis by (simp add: json_temporary_def sample_fields)
  qed
  have lower: "to_ascii_lowercase (src_digest sample_source) = sample_digest"
    by (simp add: sample_source_def sample_digest_def to_ascii_lowercase_def ascii_lower_def char_class_defs)
  have entry: "cat_aliases sample_entry = [''talos-latest'']" by (simp add: sample_entry_def)
  have release: "release_of sample_entry sample_source = ''v1''" by (simp add: release_of_def sample_source_def)
  have source: "src_filename sample_source = ''metal-arm64.raw.zst''" "src_format sample_source = RawZst"
      "src_url sample_source = ''https://u''"
    by (simp_all add: sample_source_def)
  have hashed: "hash_file sample_images (view sample_images d) path algorithm
      = (case d path of None \<Rightarrow> Inl (state_error ''No such file or directory (os error 2)'') | Some _ \<Rightarrow> Inr sample_digest)"
    for d path algorithm
    by (simp add: hash_file_def read_file_def view_def sample_fields sample_hash split: option.split)
  show ?thesis
    unfolding start pull_downloaded_def pull_operation_def Let_def work
    by (simp add: ops files entry release source hashed temporary lower download_image_def verify_digest_def fd_of_run
        normalize_image_def decode_image_def fd_output_def run_checked_def store_object_def write_json_atomic_def
        remove_dir_all_def under_def starts_with_def)
qed
section \<open>Properties of the store\<close>

text \<open>C7: whatever the programs and the disk do, and whatever the network answers, a pull only changes files outside its
  work directory and its temporary files to publish an image: every object that appears is the normalised form of a
  download with the digest its source promises, is named after its own digest and was not there before, and every
  manifest that is written names such an object.  One answer of the network is excluded, for the aliases of Fedora
  CoreOS alone: the file name in its stream metadata must be neither \<open>normalized.raw\<close> nor \<open>source.qcow2\<close>.  A pull uses
  these names for files of its own in the work directory, next to the download, and the code does not check the name.\<close>

theorem pull_publishes_verified:
  assumes "\<forall>entry source. find_catalog_entry image_alias = Some entry \<and> cat_resolver entry = FedoraCoreOs
      \<and> resolve_source (im_up I) entry = Inr source \<longrightarrow> src_filename source \<notin> {''normalized.raw'', ''source.qcow2''}"
    and "pull_with I dir image_alias enforce d = (r, d')"
    and "d' path \<noteq> d path" and "\<not> scratch I dir path"
  shows "\<exists>entry source. find_catalog_entry image_alias = Some entry \<and> resolve_source (im_up I) entry = Inr source
    \<and> is_digest (src_algorithm source) (src_digest source)
    \<and> published I dir entry source path (d path) (d' path)"
proof -
  from assms(2) have "d' = d \<or> (\<exists>entry source. find_catalog_entry image_alias = Some entry
      \<and> resolve_source (im_up I) entry = Inr source \<and> is_digest (src_algorithm source) (src_digest source)
      \<and> pull_change I dir entry source d d')"
  proof (rule pull_changes_plain)
    fix entry source
    assume "find_catalog_entry image_alias = Some entry" "resolve_source (im_up I) entry = Inr source"
    with assms(1) show "plain_name (src_filename source)" by (intro catalog_source_name) blast+
  qed
  with assms(3) obtain entry source where
    "find_catalog_entry image_alias = Some entry" "resolve_source (im_up I) entry = Inr source"
    "is_digest (src_algorithm source) (src_digest source)" "pull_change I dir entry source d d'" by auto
  with assms(3,4) show ?thesis unfolding pull_change_def by blast
qed

theorem pull_publishes_verified_witness:
  "\<exists>d' entry source. d' = snd (pull_with sample_images ''/i'' ''talos-latest'' True (\<lambda>_. None))
    \<and> find_catalog_entry ''talos-latest'' = Some entry
    \<and> published sample_images ''/i'' entry source (object_file ''/i'' sample_digest) None (Some ''disk'')"
proof -
  from sample_pull obtain r d' where run: "pull_with sample_images ''/i'' ''talos-latest'' True (\<lambda>_. None) = (r, d')"
      "d' (object_file ''/i'' sample_digest) = Some ''disk''" by blast
  then have "d' (object_file ''/i'' sample_digest) \<noteq> None" by simp
  note changed = this
  have "\<forall>entry source. find_catalog_entry ''talos-latest'' = Some entry \<and> cat_resolver entry = FedoraCoreOs
      \<and> resolve_source (im_up sample_images) entry = Inr source \<longrightarrow> src_filename source \<notin> {''normalized.raw'', ''source.qcow2''}"
    using sample_catalog by (simp add: sample_entry_def)
  from pull_publishes_verified [OF this run(1) changed object_not_scratch] run show ?thesis by auto
qed

text \<open>C8: after a successful pull of a store whose objects are named after their contents, the alias resolves to an
  object whose content has the digest that was reported, and pulling again with the same upstream downloads nothing
  and changes nothing.\<close>

theorem pulled_image_is_there:
  assumes "pull_with I dir image_alias enforce d = (Inr result, d')" and "coreos_name_ok (im_up I)"
    and "find_catalog_entry image_alias = Some entry" and "resolve_source (im_up I) entry = Inr source"
    and "objects_ok I dir d" and "reads_back I (pulled_manifest entry source (pr_normalized_digest result))"
    and "readable I"
  shows "resolve_alias_pulled I (view I d') dir image_alias = Inr (Some (pr_image_path result))
    \<and> (\<exists>content. d' (pr_image_path result) = Some content \<and> hash_hex I Sha256 content = pr_normalized_digest result)
    \<and> pull_with I dir image_alias enforce d' = (Inr (result\<lparr>pr_unchanged := True\<rparr>), d')"
  using assms by (rule pull_succeeded)

theorem pulled_image_is_there_witness:
  "\<exists>d'. d' = snd (pull_with sample_images ''/i'' ''talos-latest'' True (\<lambda>_. None))
    \<and> resolve_alias_pulled sample_images (view sample_images d') ''/i'' ''talos-latest''
      = Inr (Some (object_file ''/i'' sample_digest))
    \<and> snd (pull_with sample_images ''/i'' ''talos-latest'' True d') = d'"
proof -
  let ?result = "pull_report ''/i'' ''talos-latest'' sample_entry sample_source ''v1'' sample_digest
      (object_file ''/i'' sample_digest) False False"
  from sample_pull obtain d' where run: "pull_with sample_images ''/i'' ''talos-latest'' True (\<lambda>_. None) = (Inr ?result, d')"
    by blast
  have "reads_back sample_images (pulled_manifest sample_entry sample_source (pr_normalized_digest ?result))"
    using sample_reads_back by (simp add: pull_report_def)
  from pulled_image_is_there [OF run sample_coreos sample_catalog sample_resolved _ this sample_readable] run
  show ?thesis by (auto simp: objects_ok_def pull_report_def)
qed



text \<open>C10: every path a lookup returns is a file under \<open>objects\<close>, \<open>sealed\<close> or \<open>baked\<close> of the store, whatever a
  manifest contains: its components are those of the store followed by plain names.\<close>

theorem resolved_images_are_inside:
  assumes "resolve_alias_pulled I files dir image_alias = Inr (Some path)
    \<or> resolve_alias_tag I files dir image_alias tag = Inr (Some path)
    \<or> resolve_alias_for_vm I files dir image_alias = Inr (Some path)"
  shows "located files dir {''objects'', ''sealed'', ''baked''} path"
proof -
  consider "resolve_alias_pulled I files dir image_alias = Inr (Some path)"
    | t where "resolve_alias_tag I files dir image_alias t = Inr (Some path)"
    using assms resolve_for_vm_Some by blast
  then show ?thesis
    by cases (auto dest!: resolve_pulled_located resolve_tag_located elim: located_mono)
qed

theorem resolved_images_are_inside_witness:
  "\<exists>d'. located (view sample_images d') ''/i'' {''objects'', ''sealed'', ''baked''} (object_file ''/i'' sample_digest)"
proof -
  let ?result = "pull_report ''/i'' ''talos-latest'' sample_entry sample_source ''v1'' sample_digest
      (object_file ''/i'' sample_digest) False False"
  from sample_pull obtain d' where run: "pull_with sample_images ''/i'' ''talos-latest'' True (\<lambda>_. None) = (Inr ?result, d')"
    by blast
  have "reads_back sample_images (pulled_manifest sample_entry sample_source (pr_normalized_digest ?result))"
    using sample_reads_back by (simp add: pull_report_def)
  from pull_succeeded [OF run sample_coreos sample_catalog sample_resolved _ this sample_readable]
  have "resolve_alias_pulled sample_images (view sample_images d') ''/i'' ''talos-latest''
      = Inr (Some (object_file ''/i'' sample_digest))"
    by (auto simp: objects_ok_def pull_report_def)
  then show ?thesis by (intro exI [of _ d'] resolved_images_are_inside [of sample_images _ _ "''talos-latest''"]) simp
qed

section \<open>A sealed tag\<close>

definition sample_pulled :: json where
  "sample_pulled = pulled_manifest sample_entry sample_source sample_digest"

definition sample_marked :: json where
  "sample_marked =
     (case mark_sealed ''v1'' (tag_file ''sealed'' ''talos-latest'' ''v1'') ''d'' ''/i/m'' sample_pulled of
        Inr m \<Rightarrow> m | Inl _ \<Rightarrow> JNull)"

definition sample_sealing :: image_lib where
  "sample_sealing = sample_images
     \<lparr>im_up := \<lparr>up_text = (\<lambda>_. Inr ''meta''),
        up_parse = (\<lambda>s. Inr (if s = ''old'' then sample_pulled else sample_marked))\<rparr>\<rparr>"

definition sample_disk :: disk where
  "sample_disk = (\<lambda>_. None)(manifest_file ''/i'' ''talos-latest'' := Some ''old'',
     path_join ''/i'' (tag_file ''sealed'' ''talos-latest'' ''v1'') := Some ''disk'', ''/i/m'' := Some ''marker'')"

lemma sample_sealing_fields:
  "im_fault sample_sealing operation = None" "im_pretty sample_sealing v = Inr ''{}''" "im_pid sample_sealing = 1"
  "im_listing sample_sealing directory = Some [''talos-latest.json'']"
  "up_parse (im_up sample_sealing) s = Inr (if s = ''old'' then sample_pulled else sample_marked)"
  by (simp_all add: sample_sealing_def sample_images_def)

lemma sample_marks:
  "mark_sealed ''v1'' (tag_file ''sealed'' ''talos-latest'' ''v1'') ''d'' ''/i/m'' sample_pulled = Inr sample_marked"
proof -
  have "\<exists>m. mark_sealed ''v1'' relative ''d'' ''/i/m'' sample_pulled = Inr m" for relative
    by (simp add: mark_sealed_def with_tags_def sample_pulled_def pulled_manifest_def alias_manifest_def json_obj_def
        bm_of_list_def json_get_def is_object_def set_member_def json_set_def json_find_def Let_def)
  from this [of "tag_file ''sealed'' ''talos-latest'' ''v1''"] show ?thesis by (auto simp: sample_marked_def)
qed

lemma sample_plain:
  "is_safe_alias ''talos-latest''" "store_image_tag ''v1''" "listing_ok sample_sealing ''/i''"
  by (simp_all add: is_safe_alias_def store_image_tag_def all_indexed_def is_ascii_alphanumeric_def char_class_defs
      listing_ok_def sample_sealing_fields)

lemma sample_old: "json_get sample_pulled ''apiVersion'' = JStr ALIAS_VERSION"
    "json_get sample_pulled ''canonical_alias'' = JStr ''talos-latest''"
  by (simp_all add: sample_pulled_def pulled_manifest_def alias_manifest_def json_get_obj sample_entry_def)

lemma sample_paths:
  "manifest_file ''/i'' ''talos-latest'' = ''/i/aliases/talos-latest.json''"
  "path_join ''/i'' (tag_file ''sealed'' ''talos-latest'' ''v1'') = ''/i/sealed/talos-latest@v1.raw''"
  "path_join (path_join ''/i'' ''aliases'') ''talos-latest.json'' = ''/i/aliases/talos-latest.json''"
  by (simp_all add: path_join_eq ends_with_def manifest_file_def tag_file_def)

lemma sample_temporary: "json_temporary sample_sealing ''/i/aliases/talos-latest.json'' = ''/i/aliases/talos-latest.json.tmp-1''"
proof -
  have "with_extension (''/i/aliases'' @ ''/'' @ ''talos-latest'' @ ''.'' @ ''json'') (''json.tmp-'' @ show_nat 1)
      = ''/i/aliases'' @ ''/'' @ ''talos-latest'' @ ''.'' @ ''json.tmp-'' @ show_nat 1"
    by (rule with_extension_file) simp_all
  moreover have "show_nat 1 = ''1''" by (simp add: show_nat.simps digit_char_def) code_simp
  ultimately show ?thesis by (simp add: json_temporary_def sample_sealing_fields)
qed

lemma sample_seal_run:
  "mark_aliases_sealed sample_sealing ''/i'' (path_join ''/i'' (tag_file ''sealed'' ''talos-latest'' ''v1'')) ''/i/m'' ''v1''
     (Some ''d'') sample_disk = (Inr (), sample_disk(''/i/aliases/talos-latest.json.tmp-1'' := None,
       ''/i/aliases/talos-latest.json'' := Some (''{}'' @ [CHR 0x0A])))"
proof -
  let ?relative = "tag_file ''sealed'' ''talos-latest'' ''v1''"
  note relative = tag_file_relative [OF sample_plain(1,2), of "''sealed''" "''/i''"]
  have stored: "sample_disk ''/i/aliases/talos-latest.json'' = Some ''old''"
    by (simp add: sample_disk_def sample_paths)
  have found: "marked_manifest sample_sealing (view sample_sealing sample_disk) ''/i/aliases/talos-latest.json'' ''sealed''
      ''v1'' ?relative = Inr (Some sample_pulled)"
    by (simp add: marked_manifest_def read_file_def view_def stored sample_sealing_fields sample_old canonical_of_def
        json_as_str_def sample_plain)
  have ext: "path_extension ''talos-latest.json'' = Some ''json''" by code_simp
  have written: "write_json_atomic sample_sealing ''/i/aliases/talos-latest.json'' sample_marked sample_disk
      = (Inr (), sample_disk(''/i/aliases/talos-latest.json.tmp-1'' := None,
          ''/i/aliases/talos-latest.json'' := Some (''{}'' @ [CHR 0x0A])))"
    by (simp add: write_json_atomic_def sample_temporary fd_bind_def write_file_def fd_op_def rename_file_def
        sample_sealing_fields)
  have entry: "mark_entry sample_sealing (path_join ''/i'' ''aliases'') ''sealed'' ''v1'' ?relative
      (\<lambda>manifest. fd_of (mark_sealed ''v1'' ?relative ''d'' ''/i/m'' manifest)) ''talos-latest.json'' sample_disk
    = (Inr (), sample_disk(''/i/aliases/talos-latest.json.tmp-1'' := None,
          ''/i/aliases/talos-latest.json'' := Some (''{}'' @ [CHR 0x0A])))"
    by (simp add: mark_entry_def Let_def sample_paths sample_sealing_fields ext fd_bind_view found sample_marks fd_bind_of
        written)
  have loop: "fd_each (mark_entry sample_sealing (path_join ''/i'' ''aliases'') ''sealed'' ''v1'' ?relative
      (\<lambda>manifest. fd_of (mark_sealed ''v1'' ?relative ''d'' ''/i/m'' manifest))) [''talos-latest.json''] sample_disk
    = (Inr (), sample_disk(''/i/aliases/talos-latest.json.tmp-1'' := None,
          ''/i/aliases/talos-latest.json'' := Some (''{}'' @ [CHR 0x0A])))"
    by (simp only: fd_each.simps fd_bind_def entry prod.case sum.case fd_of_run)
  show ?thesis
    using relative loop
    by (simp add: mark_aliases_sealed_def Let_def sample_plain sample_sealing_fields fd_bind_of mark_entries_def
        del: fd_each.simps)
qed

text \<open>C11: after an image has been marked as sealed, every alias of it whose manifest is listed has the tag ready and
  resolves it to the sealed image, as long as the image and its seal marker are there.\<close>

theorem sealed_tag_is_used:
  assumes "mark_aliases_sealed I dir (path_join dir (tag_file ''sealed'' canonical tag)) marker tag digest d = (Inr (), d')"
    and "im_listing I (path_join dir ''aliases'') = Some names" and "listing_ok I dir"
    and "image_alias @ ''.json'' \<in> set names" and "is_safe_alias image_alias" and "is_safe_alias canonical"
    and "readable I" and "read_alias_manifest I (view I d) dir image_alias = Inr (Some manifest)"
    and "json_get manifest ''canonical_alias'' = JStr canonical"
    and "\<And>m. mark_sealed tag (tag_file ''sealed'' canonical tag)
        (sealed_digest I d (path_join dir (tag_file ''sealed'' canonical tag)) digest) marker manifest = Inr m \<Longrightarrow> reads_back I m"
    and "d' (path_join dir (tag_file ''sealed'' canonical tag)) \<noteq> None" and "d' marker \<noteq> None"
  shows "tagged_seal_ready I (view I d') dir image_alias tag = Inr True
    \<and> resolve_alias_tag I (view I d') dir image_alias tag = Inr (Some (path_join dir (tag_file ''sealed'' canonical tag)))"
  using assms by (rule sealed_tag_ready)

theorem sealed_tag_is_used_witness:
  "\<exists>d'. d' = snd (mark_aliases_sealed sample_sealing ''/i''
        (path_join ''/i'' (tag_file ''sealed'' ''talos-latest'' ''v1'')) ''/i/m'' ''v1'' (Some ''d'') sample_disk)
    \<and> tagged_seal_ready sample_sealing (view sample_sealing d') ''/i'' ''talos-latest'' ''v1'' = Inr True"
proof -
  have reads: "readable sample_sealing" by (simp add: readable_def sample_sealing_fields)
  have read: "read_alias_manifest sample_sealing (view sample_sealing sample_disk) ''/i'' ''talos-latest'' = Inr (Some sample_pulled)"
    by (simp add: read_alias_manifest_def Let_def sample_plain is_file_def read_file_def view_def sample_disk_def
        sample_sealing_fields sample_old sample_paths)
  have again: "reads_back sample_sealing m"
    if "mark_sealed ''v1'' (tag_file ''sealed'' ''talos-latest'' ''v1'')
        (sealed_digest sample_sealing sample_disk (path_join ''/i'' (tag_file ''sealed'' ''talos-latest'' ''v1'')) (Some ''d''))
        ''/i/m'' sample_pulled = Inr m" for m
    using that sample_marks by (simp add: sealed_digest_def reads_back_def sample_sealing_fields)
  have listed: "im_listing sample_sealing (path_join ''/i'' ''aliases'') = Some [''talos-latest.json'']"
    by (simp add: sample_sealing_fields)
  have named: "''talos-latest'' @ ''.json'' \<in> set [''talos-latest.json'']" by simp
  note ready = sealed_tag_is_used [OF sample_seal_run listed sample_plain(3) named sample_plain(1,1) reads read sample_old(2) again]
  show ?thesis
    unfolding sample_seal_run snd_conv
    using ready by (auto simp: sample_paths sample_disk_def)
qed

text \<open>C12: the image a VM is created from is a sealed one of its alias: its path is under \<open>sealed\<close> and is the one that
  the entry of a tag in the manifest names as its sealed image; that entry is marked as sealed and the seal marker it
  names is a file.  The tag is the default one whenever that is ready.\<close>

theorem vm_image_is_sealed:
  assumes "resolve_alias_for_vm I files dir image_alias = Inr (Some path)"
  shows "located files dir {''sealed''} path
    \<and> (\<exists>tag manifest entry relative marker. read_alias_manifest I files dir image_alias = Inr (Some manifest)
        \<and> tag_entry manifest tag = Some entry \<and> flagged entry ''sealed''
        \<and> json_get (json_get entry ''sealed_image'') ''path'' = JStr relative \<and> path = path_join dir relative
        \<and> json_get (json_get entry ''sealed_image'') ''marker'' = JStr marker \<and> is_file files marker
        \<and> (tagged_seal_ready I files dir image_alias DEFAULT_IMAGE_TAG = Inr True \<longrightarrow> tag = DEFAULT_IMAGE_TAG))"
  using resolve_for_vm_Some [OF assms] ready_tag_sealed by blast

theorem vm_image_is_sealed_witness:
  "\<exists>files. located files ''/i'' {''sealed''} (path_join ''/i'' (tag_file ''sealed'' ''talos-latest'' ''v1''))"
proof -
  let ?d = "snd (mark_aliases_sealed sample_sealing ''/i'' (path_join ''/i'' (tag_file ''sealed'' ''talos-latest'' ''v1''))
      ''/i/m'' ''v1'' (Some ''d'') sample_disk)"
  have disk: "?d (manifest_file ''/i'' ''talos-latest'') = Some (''{}'' @ [CHR 0x0A])" "?d ''/i/m'' = Some ''marker''"
      "?d (path_join ''/i'' (tag_file ''sealed'' ''talos-latest'' ''v1'')) = Some ''disk''"
    unfolding sample_seal_run snd_conv by (simp_all add: sample_paths sample_disk_def)
  have "json_get sample_marked ''apiVersion'' = JStr ALIAS_VERSION"
    using mark_sealed_Inr(2) [OF sample_marks, of "''apiVersion''"] sample_old(1) by (simp add: json_find_get)
  then have read: "read_alias_manifest sample_sealing (view sample_sealing ?d) ''/i'' ''talos-latest'' = Inr (Some sample_marked)"
    using disk(1) sample_plain(1)
    by (simp add: read_alias_manifest_def Let_def is_file_def read_file_def view_def sample_sealing_fields)
  from mark_sealed_Inr(1) [OF sample_marks] obtain tags entry where
    entry: "json_find sample_marked ''tags'' = Some (JObj tags)" "bm_get tags ''v1'' = Some entry" "flagged entry ''sealed''"
      "json_get entry ''sealed_image'' = sealed_image (tag_file ''sealed'' ''talos-latest'' ''v1'') ''d'' ''/i/m''"
    by (elim exE conjE) (rule that)
  note path = sealed_entry_path [OF entry(4) sample_plain(1,2)]
  have found: "tag_entry sample_marked ''v1'' = Some entry"
    using tag_entry_obj [OF sample_plain(2) entry(1)] entry(2) by simp
  have "resolve_alias_for_vm sample_sealing (view sample_sealing ?d) ''/i'' ''talos-latest''
      = Inr (Some (path_join ''/i'' (tag_file ''sealed'' ''talos-latest'' ''v1'')))"
    using read found entry(3) path sample_plain(2) disk(2,3)
    by (simp add: resolve_alias_for_vm_def DEFAULT_IMAGE_TAG_def tagged_seal_ready_def resolve_alias_tag_def message_of_def
        present_def Let_def json_as_str_def is_file_def view_def sample_sealing_fields)
  from vm_image_is_sealed [OF this] show ?thesis by blast
qed

section \<open>What baking leaves behind\<close>

text \<open>A tag that is recorded as sealed with the current toolkit, but whose image is gone, is not ready and not baked, and
  cannot be baked without \<open>--force\<close>: a reconciler run, which bakes without it, cannot repair the store.\<close>

lemma missing_seal_is_not_repaired:
  assumes "is_safe_alias image_alias" and "store_image_tag tag"
    and "read_alias_manifest I (view I d) dir image_alias = Inr (Some manifest)"
    and "tag_entry manifest tag = Some entry" and "flagged entry ''sealed''" and "recorded_version entry = agent_version"
    and "sealed_path entry = Inr relative" and "d (path_join dir relative) = None"
  shows "tagged_seal_ready I (view I d) dir image_alias tag = Inr False
    \<and> already_baked I (view I d) dir image_alias tag agent_version = Inr None
    \<and> (\<exists>e. fst (prepare_alias_for_bake I dir image_alias tag agent_version False d) = Inl e)"
  using assms
  by (simp add: tagged_seal_ready_def already_baked_def prepare_alias_for_bake_def message_of_def is_file_def view_def
      tag_sealed_def fd_bind_view Let_def)

text \<open>A tag baked again while another tag is sealed leaves the flat mirror \<open>sealed_image\<close> on its old sealed image.\<close>

lemma stale_sealed_mirror:
  assumes "json_find manifest ''tags'' = Some (JObj tags)" and "bm_get tags other = Some entry" and "other \<noteq> tag"
    and "flagged entry ''sealed''" and "mark_baked tag relative digest agent_version manifest = Inr m"
  shows "json_find m ''sealed_image'' = json_find manifest ''sealed_image''"
proof -
  let ?entry = "json_obj [(''baked'', JBool True), (''baked_image'', baked_image relative digest agent_version)]"
  from assms(1) have m1: "with_tags manifest = Inr manifest"
    by (simp add: with_tags_def json_find_get is_object_def)
  with assms(5) obtain tags2 m2 m3 m4 m5 where
    steps: "set_member (json_get manifest ''tags'') tag ?entry = Inr tags2"
      "set_member manifest ''tags'' tags2 = Inr m2" "set_member m2 ''baked'' (JBool True) = Inr m3"
      "set_member m3 ''baked_image'' (baked_image relative digest agent_version) = Inr m4"
      "set_member m4 ''sealed'' (JBool (any_sealed m4)) = Inr m5"
    and m: "m = (if any_sealed m5 then m5 else remove_member m5 ''sealed_image'')"
    by (auto simp: mark_baked_def Let_def)
  note finds = set_member_Inr(1) [OF steps(2)] set_member_Inr(1) [OF steps(3)] set_member_Inr(1) [OF steps(4)]
    set_member_Inr(1) [OF steps(5)]
  have "tags2 = JObj (bm_insert tag ?entry tags)" using steps(1) assms(1) by (rule set_member_tags)
  then have tags: "tags_of m5 = bm_insert tag ?entry tags" by (simp add: tags_of_def finds)
  have "bm_get (bm_insert tag ?entry tags) other = Some entry" using assms(2,3) by (simp add: bm_get_insert)
  then have "entry \<in> set (bm_values (tags_of m5))" unfolding tags by (force dest: map_of_SomeD)
  then have "any_sealed m5" using assms(4) by (auto simp: any_sealed_def list_ex_iff)
  then show ?thesis by (simp add: m finds)
qed

end
