(* ===== verification/Oidc.thy ===== *)
theory Oidc
  imports ImageStore Shell
begin

text \<open>
  The identity provider \<open>vzctl-oidc-simple\<close> (\<open>src/crates/vzctl-oidc-simple/src/\<close>: \<open>server.rs\<close>, the arguments of
  \<open>main.rs\<close>): authorization codes with PKCE, sessions in a cookie, and a page on which a developer picks a user.

  A handler is a function of what the HTTP library hands it (the query or form, the cookie and the authorization
  header), of the readings of the clock and the random identifiers it uses (\<open>moment\<close>), and of the store. It returns
  the response and the store; no response means that the handler panicked. The store is locked at most once in a
  request, so a request is one step of the store. SHA-256, base64 and the signature are the parameter \<open>oidc_lib\<close>, and
  so is the test of header values in \<open>Redirect::temporary\<close>. \<open>OidcFlow\<close> has the traces of a server and what holds of
  them.
\<close>

section \<open>Configuration and state\<close>

record oidc_client =
  oc_id :: string
  oc_secret :: string
  oc_redirect_uris :: "string list"

record oidc_user =
  ou_username :: string
  ou_email :: string
  ou_claims :: "(string \<times> json) list"

record oidc_provider =
  op_issuer :: string
  op_listen :: string
  op_clients :: "oidc_client list"
  op_users :: "oidc_user list"

definition SESSION_COOKIE :: string where "SESSION_COOKIE = ''vzctl_oidc_simple''"
definition CODE_TTL_SECS :: u64 where "CODE_TTL_SECS = 300"
definition TOKEN_TTL_SECS :: u64 where "TOKEN_TTL_SECS = 3600"
definition SESSION_TTL_SECS :: u64 where "SESSION_TTL_SECS = 86400 * 7"

record oidc_session =
  se_username :: string
  se_expires_at :: u64

record auth_code =
  ac_username :: string
  ac_client_id :: string
  ac_redirect_uri :: string
  ac_code_challenge :: "string option"
  ac_code_challenge_method :: "string option"
  ac_nonce :: "string option"
  ac_scope :: string
  ac_expires_at :: u64

record token_record =
  tr_username :: string
  tr_client_id :: string
  tr_scope :: string
  tr_expires_at :: u64

text \<open>\<open>Store\<close>: its hash maps are maps.\<close>

record oidc_store =
  st_sessions :: "string \<Rightarrow> oidc_session option"
  st_codes :: "string \<Rightarrow> auth_code option"
  st_access_tokens :: "string \<Rightarrow> token_record option"

definition empty_store :: oidc_store where
  "empty_store = \<lparr>st_sessions = \<lambda>_. None, st_codes = \<lambda>_. None, st_access_tokens = \<lambda>_. None\<rparr>"

text \<open>\<open>AppState\<close> without its store and its signing key, which only the signature uses.\<close>

record app_state =
  as_config :: oidc_provider
  as_jwks :: json
  as_kid :: string

record authorize_query =
  aq_response_type :: "string option"
  aq_client_id :: "string option"
  aq_redirect_uri :: "string option"
  aq_scope :: "string option"
  aq_state :: "string option"
  aq_nonce :: "string option"
  aq_code_challenge :: "string option"
  aq_code_challenge_method :: "string option"

record login_form =
  lf_username :: string
  lf_client_id :: string
  lf_redirect_uri :: string
  lf_scope :: string
  lf_state :: "string option"
  lf_nonce :: "string option"
  lf_code_challenge :: "string option"
  lf_code_challenge_method :: "string option"

record token_form =
  tf_grant_type :: "string option"
  tf_code :: "string option"
  tf_redirect_uri :: "string option"
  tf_client_id :: "string option"
  tf_client_secret :: "string option"
  tf_code_verifier :: "string option"

record end_session_query =
  eq_post_logout_redirect_uri :: "string option"
  eq_client_id :: "string option"
  eq_state :: "string option"

section \<open>Library, clock and responses\<close>

text \<open>\<open>ol_decode\<close> is base64 decoding to a UTF-8 text; \<open>ol_sign\<close> signs the claims of a token under a key identifier;
  \<open>ol_header\<close> says whether a text is a header value.\<close>

record oidc_lib =
  ol_sha256 :: "string \<Rightarrow> u8 list"
  ol_base64url :: "u8 list \<Rightarrow> string"
  ol_decode :: "string \<Rightarrow> string option"
  ol_sign :: "string \<Rightarrow> (string \<times> json) list \<Rightarrow> (string, string) result"
  ol_header :: "string \<Rightarrow> bool"

text \<open>The readings of \<open>now()\<close> and the values of \<open>Uuid::new_v4()\<close>, in the order in which a handler asks for them.\<close>

record moment =
  mo_now :: "nat \<Rightarrow> u64"
  mo_id :: "nat \<Rightarrow> string"

datatype body = TextBody string | HtmlBody string | JsonBody json | EmptyBody

record response =
  rs_status :: nat
  rs_location :: "string option"
  rs_set_cookie :: "string option"
  rs_body :: body

definition answer :: "nat \<Rightarrow> body \<Rightarrow> response option" where
  "answer status body = Some \<lparr>rs_status = status, rs_location = None, rs_set_cookie = None, rs_body = body\<rparr>"

definition bad_request :: "string \<Rightarrow> response option" where
  "bad_request message = answer 400 (TextBody message)"

text \<open>\<open>Redirect::temporary\<close> panics when its argument is not a header value.\<close>

definition redirect_temporary :: "oidc_lib \<Rightarrow> string \<Rightarrow> response option" where
  "redirect_temporary L uri =
     (if ol_header L uri
      then Some \<lparr>rs_status = 307, rs_location = Some uri, rs_set_cookie = None, rs_body = EmptyBody\<rparr> else None)"

definition json_error :: "nat \<Rightarrow> string \<Rightarrow> response option" where
  "json_error status error = answer status (JsonBody (json_obj [(''error'', JStr error)]))"

definition json_u64 :: "u64 \<Rightarrow> json" where
  "json_u64 n = JNum (show_word n)"

section \<open>Arguments and configuration file\<close>

datatype main_action = PrintVersion | PrintUsage | ArgumentError string | ServeConfig string

fun main_arguments :: "string option \<Rightarrow> string list \<Rightarrow> main_action" where
  "main_arguments path [] = (case path of Some p \<Rightarrow> ServeConfig p
     | None \<Rightarrow> ArgumentError ''usage: vzctl-oidc-simple --config <path.json>'')"
| "main_arguments path (arg # rest) =
     (if arg = ''--version'' then PrintVersion
      else if arg = ''--config'' \<or> arg = ''-c'' then
        (case rest of [] \<Rightarrow> ArgumentError ''vzctl-oidc-simple: --config requires a path''
         | p # others \<Rightarrow> main_arguments (Some p) others)
      else if arg = ''--help'' \<or> arg = ''-h'' then PrintUsage
      else ArgumentError (''vzctl-oidc-simple: unknown argument '' @ arg))"

definition load_provider ::
    "(string \<Rightarrow> (string, string) result) \<Rightarrow> (string \<Rightarrow> (oidc_provider, string) result) \<Rightarrow> string
      \<Rightarrow> (oidc_provider, string) result" where
  "load_provider read parse path =
     and_then (map_err (\<lambda>e. ''read '' @ path @ '': '' @ e) (read path)) (\<lambda>raw.
     and_then (map_err (\<lambda>e. ''parse '' @ path @ '': '' @ e) (parse raw)) (\<lambda>cfg.
       if op_issuer cfg = [] then Inl ''issuer must not be empty''
       else if op_users cfg = [] then Inl ''users must not be empty''
       else if op_listen cfg = [] then Inl ''listen must not be empty''
       else Inr cfg))"

section \<open>Lookups and cookies\<close>

definition user_sub :: "oidc_lib \<Rightarrow> string \<Rightarrow> string" where
  "user_sub L username = image_hex (ol_sha256 L (''vzctl-oidc-simple:'' @ username))"

definition find_user :: "oidc_provider \<Rightarrow> string \<Rightarrow> oidc_user option" where
  "find_user config username = find (\<lambda>u. ou_username u = username) (op_users config)"

definition find_client :: "oidc_provider \<Rightarrow> string \<Rightarrow> oidc_client option" where
  "find_client config client_id = find (\<lambda>c. oc_id c = client_id) (op_clients config)"

definition parse_cookie :: "string option \<Rightarrow> string \<Rightarrow> string option" where
  "parse_cookie cookie name =
     (case cookie of None \<Rightarrow> None
      | Some cookie \<Rightarrow> find_map (\<lambda>part. strip_prefix (trim part) (name @ ''='')) (split_on (CHR '';'') cookie))"

definition set_session_cookie :: "string \<Rightarrow> string" where
  "set_session_cookie sid =
     SESSION_COOKIE @ ''='' @ sid @ ''; Path=/; HttpOnly; SameSite=Lax; Max-Age='' @ show_word SESSION_TTL_SECS"

definition clear_session_cookie :: string where
  "clear_session_cookie = SESSION_COOKIE @ ''=; Path=/; HttpOnly; SameSite=Lax; Max-Age=0''"

definition with_cookie :: "string \<Rightarrow> response option \<Rightarrow> response option" where
  "with_cookie value response = map_option (\<lambda>r. r\<lparr>rs_set_cookie := Some value\<rparr>) response"

definition nonempty :: "string option \<Rightarrow> string option" where
  "nonempty s = (case s of Some [] \<Rightarrow> None | _ \<Rightarrow> s)"

definition or_empty :: "string option \<Rightarrow> string" where
  "or_empty s = (case s of Some v \<Rightarrow> v | None \<Rightarrow> [])"

section \<open>Pages\<close>

definition html_escape :: "string \<Rightarrow> string" where
  \<open>html_escape s =
     replace_char (CHR 0x22) ''&quot;'' (replace_char (CHR ''>'') ''&gt;'' (replace_char (CHR ''<'') ''&lt;''
       (replace_char (CHR ''&'') ''&amp;'' s)))\<close>

definition page_of :: "string list \<Rightarrow> string" where
  "page_of ls = join [CHR 0x0A] ls"

definition page_head :: "string list" where
  \<open>page_head =
     [''<!DOCTYPE html>'',
      ''<html lang="en">'',
      ''<head>'',
      ''  <meta charset="utf-8"/>'',
      ''  <meta name="viewport" content="width=device-width, initial-scale=1"/>'',
      ''  <title>vzctl oidc-simple</title>'',
      ''  <style>'',
      ''    :root { color-scheme: light dark; font-family: ui-sans-serif, system-ui, sans-serif; }'',
      ''    body { margin: 0; min-height: 100vh; display: grid; place-items: center;'',
      ''      background: radial-gradient(circle at top, #1e293b, #0f172a); color: #e2e8f0; }'',
      ''    main { width: min(28rem, 92vw); background: #111827; border: 1px solid #334155;'',
      ''      border-radius: 12px; padding: 1.5rem; box-shadow: 0 20px 50px rgba(0,0,0,.35); }'',
      ''    h1 { margin: 0 0 .25rem; font-size: 1.25rem; }'',
      ''    p { margin: 0 0 1rem; color: #94a3b8; font-size: .9rem; }'']\<close>

definition root_user :: "oidc_user \<Rightarrow> string" where
  \<open>root_user user =
     ''<li><strong>'' @ html_escape (ou_username user) @ ''</strong> <span>'' @ html_escape (ou_email user)
     @ ''</span></li>''\<close>

definition root_lines :: "string \<Rightarrow> string \<Rightarrow> string list" where
  \<open>root_lines issuer users =
     [''    a { color: #38bdf8; }'',
      ''    ul { margin: 0 0 1rem; padding-left: 1.1rem; color: #cbd5e1; }'',
      ''    li { margin: .35rem 0; }'',
      ''    li span { color: #94a3b8; font-size: .85rem; }'',
      ''    code { font-size: .8rem; color: #93c5fd; word-break: break-all; }'',
      ''    .badge { display: inline-block; font-size: .7rem; letter-spacing: .04em; text-transform: uppercase;'',
      ''      color: #fbbf24; border: 1px solid #92400e; border-radius: 999px; padding: .1rem .5rem; margin-bottom: .75rem; }'',
      ''  </style>'',
      ''</head>'',
      ''<body>'',
      ''  <main>'',
      ''    <div class="badge">dev only</div>'',
      ''    <h1>oidc-simple</h1>'',
      ''    <p>Dev IdP is up. Login starts from your app via <code>/authorize</code> (Auth Code + PKCE).</p>'',
      ''    <p>Issuer: <code>'' @ issuer @ ''</code></p>'',
      ''    <p><a href="/.well-known/openid-configuration">OpenID discovery</a></p>'',
      ''    <p>Configured users:</p>'',
      ''    <ul>'' @ users @ ''</ul>'',
      ''  </main>'',
      ''</body>'',
      ''</html>'']\<close>

definition root_html :: "oidc_provider \<Rightarrow> string" where
  "root_html config =
     page_of (page_head @ root_lines (html_escape (trim_end_matches [CHR ''/''] (op_issuer config)))
       (concat (map root_user (op_users config))))"

definition picker_button :: "oidc_user \<Rightarrow> string" where
  \<open>picker_button user =
     page_of
       [''<button type="submit" name="username" value="'' @ html_escape (ou_username user) @ ''" class="user">'',
        ''  <strong>'' @ html_escape (ou_username user) @ ''</strong>'',
        ''  <span>'' @ html_escape (ou_email user) @ ''</span>'',
        ''</button>'']\<close>

definition hidden_input :: "string \<Rightarrow> string \<Rightarrow> string" where
  \<open>hidden_input name v = ''      <input type="hidden" name="'' @ name @ ''" value="'' @ html_escape v @ ''"/>''\<close>

definition picker_style :: "string list" where
  \<open>picker_style =
     [''    form { display: grid; gap: .6rem; }'',
      ''    .user { display: flex; flex-direction: column; align-items: flex-start; gap: .15rem;'',
      ''      width: 100%; text-align: left; cursor: pointer; border: 1px solid #475569;'',
      ''      background: #0f172a; color: inherit; border-radius: 8px; padding: .75rem .9rem; }'',
      ''    .user:hover { border-color: #38bdf8; background: #172554; }'',
      ''    .user strong { font-size: 1rem; }'',
      ''    .user span { color: #94a3b8; font-size: .85rem; }'',
      ''    .badge { display: inline-block; font-size: .7rem; letter-spacing: .04em; text-transform: uppercase;'',
      ''      color: #fbbf24; border: 1px solid #92400e; border-radius: 999px; padding: .1rem .5rem; margin-bottom: .75rem; }'',
      ''  </style>'',
      ''</head>'',
      ''<body>'',
      ''  <main>'',
      ''    <div class="badge">dev only</div>'',
      ''    <h1>Pick a user</h1>'',
      ''    <p>oidc-simple '' @ [CHR 0xE2, CHR 0x80, CHR 0x94] @ '' no passwords. Click to sign in.</p>'',
      ''    <form method="post" action="/login">'']\<close>

definition picker_end :: "string list" where
  "picker_end = [''    </form>'', ''  </main>'', ''</body>'', ''</html>'']"

definition picker_html :: "oidc_provider \<Rightarrow> authorize_query \<Rightarrow> string" where
  \<open>picker_html config q =
     page_of (page_head @ picker_style
       @ [hidden_input ''client_id'' (or_empty (aq_client_id q)),
          hidden_input ''redirect_uri'' (or_empty (aq_redirect_uri q)),
          hidden_input ''scope'' (case aq_scope q of Some scope \<Rightarrow> scope | None \<Rightarrow> ''openid profile email''),
          hidden_input ''state'' (or_empty (aq_state q)),
          hidden_input ''nonce'' (or_empty (aq_nonce q)),
          hidden_input ''code_challenge'' (or_empty (aq_code_challenge q)),
          hidden_input ''code_challenge_method'' (or_empty (aq_code_challenge_method q)),
          ''      '' @ concat (map picker_button (op_users config))] @ picker_end)\<close>

definition discovery :: "app_state \<Rightarrow> json" where
  "discovery A =
     (let issuer = trim_end_matches [CHR ''/''] (op_issuer (as_config A));
          strings = (\<lambda>xs. JArr (map JStr xs))
      in json_obj
        [(''issuer'', JStr issuer),
         (''authorization_endpoint'', JStr (issuer @ ''/authorize'')),
         (''token_endpoint'', JStr (issuer @ ''/token'')),
         (''userinfo_endpoint'', JStr (issuer @ ''/userinfo'')),
         (''jwks_uri'', JStr (issuer @ ''/jwks'')),
         (''end_session_endpoint'', JStr (issuer @ ''/end_session'')),
         (''response_types_supported'', strings [''code'']),
         (''subject_types_supported'', strings [''public'']),
         (''id_token_signing_alg_values_supported'', strings [''RS256'']),
         (''scopes_supported'', strings [''openid'', ''profile'', ''email'']),
         (''token_endpoint_auth_methods_supported'', strings [''client_secret_post'', ''client_secret_basic'', ''none'']),
         (''code_challenge_methods_supported'', strings [''S256'', ''plain'']),
         (''claims_supported'', strings [''sub'', ''iss'', ''aud'', ''exp'', ''iat'', ''preferred_username'', ''email'',
            ''email_verified''])])"

section \<open>Codes and redirects\<close>

definition DEFAULT_SCOPE :: string where "DEFAULT_SCOPE = ''openid profile email''"

text \<open>\<open>issue_code\<close>: the code it draws and the store with it.\<close>

definition issue_code ::
    "string \<Rightarrow> u64 \<Rightarrow> string \<Rightarrow> string \<Rightarrow> string \<Rightarrow> authorize_query \<Rightarrow> oidc_store \<Rightarrow> oidc_store" where
  "issue_code code now username client_id redirect_uri q s =
     s\<lparr>st_codes := (st_codes s)(code \<mapsto>
         \<lparr>ac_username = username, ac_client_id = client_id, ac_redirect_uri = redirect_uri,
          ac_code_challenge = aq_code_challenge q, ac_code_challenge_method = aq_code_challenge_method q,
          ac_nonce = aq_nonce q, ac_scope = (case aq_scope q of Some scope \<Rightarrow> scope | None \<Rightarrow> DEFAULT_SCOPE),
          ac_expires_at = now + CODE_TTL_SECS\<rparr>)\<rparr>"

definition url_unreserved :: "char \<Rightarrow> bool" where
  "url_unreserved c \<longleftrightarrow> is_ascii_alphanumeric c \<or> c \<in> set ''-_.~''"

definition upper_hex :: "nat \<Rightarrow> char" where
  "upper_hex n = (if n < 10 then char_of (48 + n) else char_of (55 + n))"

definition urlencoding_encode :: "string \<Rightarrow> string" where
  "urlencoding_encode s =
     concat (map (\<lambda>c. if url_unreserved c then [c]
                      else [CHR ''%'', upper_hex (byte c div 16), upper_hex (byte c mod 16)]) s)"

definition build_redirect :: "string \<Rightarrow> string \<Rightarrow> string option \<Rightarrow> string" where
  "build_redirect redirect_uri code state =
     redirect_uri @ (if CHR ''?'' \<in> set redirect_uri then ''&'' else ''?'') @ ''code='' @ urlencoding_encode code
     @ (case state of Some st \<Rightarrow> if st \<noteq> [] then ''&state='' @ urlencoding_encode st else [] | None \<Rightarrow> [])"

section \<open>Authorization and login\<close>

definition authorize ::
    "oidc_lib \<Rightarrow> app_state \<Rightarrow> moment \<Rightarrow> string option \<Rightarrow> authorize_query \<Rightarrow> oidc_store \<Rightarrow> response option \<times> oidc_store" where
  "authorize L A m cookie q s =
     (if aq_response_type q \<noteq> Some ''code'' then (bad_request ''response_type must be code'', s)
      else case aq_client_id q of None \<Rightarrow> (bad_request ''client_id required'', s) | Some client_id \<Rightarrow>
      case aq_redirect_uri q of None \<Rightarrow> (bad_request ''redirect_uri required'', s) | Some redirect_uri \<Rightarrow>
      case find_client (as_config A) client_id of None \<Rightarrow> (bad_request ''unknown client_id'', s) | Some client \<Rightarrow>
      if redirect_uri \<notin> set (oc_redirect_uris client) then (bad_request ''redirect_uri not registered'', s)
      else let picker = answer 200 (HtmlBody (picker_html (as_config A) q))
      in case parse_cookie cookie SESSION_COOKIE of None \<Rightarrow> (picker, s) | Some sid \<Rightarrow>
         case st_sessions s sid of None \<Rightarrow> (picker, s) | Some session \<Rightarrow>
         if mo_now m 0 < se_expires_at session \<and> find_user (as_config A) (se_username session) \<noteq> None
         then (redirect_temporary L (build_redirect redirect_uri (mo_id m 0) (aq_state q)),
               issue_code (mo_id m 0) (mo_now m 1) (se_username session) client_id redirect_uri q s)
         else (picker, s\<lparr>st_sessions := (st_sessions s)(sid := None)\<rparr>))"

definition login_query :: "login_form \<Rightarrow> authorize_query" where
  "login_query form =
     \<lparr>aq_response_type = Some ''code'', aq_client_id = Some (lf_client_id form),
      aq_redirect_uri = Some (lf_redirect_uri form), aq_scope = Some (lf_scope form), aq_state = nonempty (lf_state form),
      aq_nonce = nonempty (lf_nonce form), aq_code_challenge = nonempty (lf_code_challenge form),
      aq_code_challenge_method = nonempty (lf_code_challenge_method form)\<rparr>"

definition login ::
    "oidc_lib \<Rightarrow> app_state \<Rightarrow> moment \<Rightarrow> login_form \<Rightarrow> oidc_store \<Rightarrow> response option \<times> oidc_store" where
  "login L A m form s =
     (case find_client (as_config A) (lf_client_id form) of None \<Rightarrow> (bad_request ''unknown client_id'', s) | Some client \<Rightarrow>
      if lf_redirect_uri form \<notin> set (oc_redirect_uris client) then (bad_request ''redirect_uri not registered'', s)
      else if find_user (as_config A) (lf_username form) = None then (bad_request ''unknown user'', s)
      else let sid = mo_id m 0; code = mo_id m 1;
               s1 = s\<lparr>st_sessions := (st_sessions s)(sid \<mapsto>
                      \<lparr>se_username = lf_username form, se_expires_at = mo_now m 0 + SESSION_TTL_SECS\<rparr>)\<rparr>;
               s2 = issue_code code (mo_now m 1) (lf_username form) (lf_client_id form) (lf_redirect_uri form)
                      (login_query form) s1
           in (with_cookie (set_session_cookie sid)
                 (redirect_temporary L (build_redirect (lf_redirect_uri form) code (lf_state form))), s2))"

section \<open>Tokens\<close>

definition decode_basic_auth :: "oidc_lib \<Rightarrow> string option \<Rightarrow> (string \<times> string) option" where
  "decode_basic_auth L authorization =
     Option.bind authorization (\<lambda>v. Option.bind (strip_prefix v ''Basic '') (\<lambda>encoded.
       Option.bind (ol_decode L encoded) (split_once (CHR '':''))))"

definition verify_pkce :: "oidc_lib \<Rightarrow> auth_code \<Rightarrow> string option \<Rightarrow> (unit, string) result" where
  "verify_pkce L code verifier =
     (case ac_code_challenge code of None \<Rightarrow> Inr () | Some challenge \<Rightarrow>
      case verifier of None \<Rightarrow> Inl ''code_verifier required'' | Some verifier \<Rightarrow>
      let wanted = (case ac_code_challenge_method code of Some m \<Rightarrow> m | None \<Rightarrow> ''plain'')
      in if wanted = ''S256'' then
           (if ol_base64url L (ol_sha256 L verifier) = challenge then Inr () else Inl ''invalid code_verifier'')
         else if wanted = ''plain'' then (if verifier = challenge then Inr () else Inl ''invalid code_verifier'')
         else Inl ''unsupported code_challenge_method'')"

text \<open>The client a token request names: the form before the header. Its secret is not compared, as the source says.\<close>

definition token_client :: "oidc_lib \<Rightarrow> string option \<Rightarrow> token_form \<Rightarrow> string option" where
  "token_client L authorization form =
     (case tf_client_id form of Some client_id \<Rightarrow> Some client_id
      | None \<Rightarrow> map_option fst (decode_basic_auth L authorization))"

definition id_token_claims :: "oidc_lib \<Rightarrow> app_state \<Rightarrow> oidc_user \<Rightarrow> string \<Rightarrow> string option \<Rightarrow> u64 \<Rightarrow> (string \<times> json) list" where
  "id_token_claims L A user client_id nonce iat =
     [(''iss'', JStr (trim_end_matches [CHR ''/''] (op_issuer (as_config A)))),
      (''sub'', JStr (user_sub L (ou_username user))), (''aud'', JStr client_id),
      (''exp'', json_u64 (iat + TOKEN_TTL_SECS)), (''iat'', json_u64 iat)]
     @ (case nonce of Some n \<Rightarrow> [(''nonce'', JStr n)] | None \<Rightarrow> [])
     @ [(''preferred_username'', JStr (ou_username user)), (''email'', JStr (ou_email user)),
        (''email_verified'', JBool True)] @ ou_claims user"

definition token_response :: "string \<Rightarrow> string \<Rightarrow> string \<Rightarrow> response option" where
  "token_response access_token id_token scope =
     answer 200 (JsonBody (json_obj
       [(''access_token'', JStr access_token), (''token_type'', JStr ''Bearer''), (''expires_in'', json_u64 TOKEN_TTL_SECS),
        (''id_token'', JStr id_token), (''scope'', JStr scope)]))"

text \<open>The checks of a code that has been taken out of the store.\<close>

definition check_code :: "oidc_lib \<Rightarrow> app_state \<Rightarrow> u64 \<Rightarrow> string \<Rightarrow> token_form \<Rightarrow> auth_code \<Rightarrow> (oidc_user, string) result" where
  "check_code L A now client_id form code =
     (if ac_expires_at code < now then Inl ''invalid_grant''
      else if ac_client_id code \<noteq> client_id then Inl ''invalid_grant''
      else if (case tf_redirect_uri form of Some uri \<Rightarrow> uri \<noteq> ac_redirect_uri code | None \<Rightarrow> False) then Inl ''invalid_grant''
      else and_then (verify_pkce L code (tf_code_verifier form)) (\<lambda>_.
        ok_or ''invalid_grant'' (find_user (as_config A) (ac_username code))))"

definition token ::
    "oidc_lib \<Rightarrow> app_state \<Rightarrow> moment \<Rightarrow> string option \<Rightarrow> token_form \<Rightarrow> oidc_store \<Rightarrow> response option \<times> oidc_store" where
  "token L A m authorization form s =
     (if tf_grant_type form \<noteq> Some ''authorization_code'' then (json_error 400 ''unsupported_grant_type'', s)
      else case tf_code form of None \<Rightarrow> (json_error 400 ''invalid_request'', s) | Some code_value \<Rightarrow>
      case token_client L authorization form of None \<Rightarrow> (json_error 401 ''invalid_client'', s) | Some client_id \<Rightarrow>
      case find_client (as_config A) client_id of None \<Rightarrow> (json_error 401 ''invalid_client'', s) | Some client \<Rightarrow>
      case st_codes s code_value of None \<Rightarrow> (json_error 400 ''invalid_grant'', s) | Some code \<Rightarrow>
      let s1 = s\<lparr>st_codes := (st_codes s)(code_value := None)\<rparr>
      in case check_code L A (mo_now m 0) client_id form code of Inl e \<Rightarrow> (json_error 400 e, s1) | Inr user \<Rightarrow>
         let access_token = mo_id m 0;
             s2 = s1\<lparr>st_access_tokens := (st_access_tokens s1)(access_token \<mapsto>
                    \<lparr>tr_username = ou_username user, tr_client_id = client_id, tr_scope = ac_scope code,
                     tr_expires_at = mo_now m 1 + TOKEN_TTL_SECS\<rparr>)\<rparr>
         in ((case ol_sign L (as_kid A) (id_token_claims L A user client_id (ac_nonce code) (mo_now m 2)) of
                Inl e \<Rightarrow> answer 500 (TextBody (''sign id_token: '' @ e))
              | Inr id_token \<Rightarrow> token_response access_token id_token (ac_scope code)), s2))"

section \<open>User information and logout\<close>

definition userinfo_body :: "oidc_lib \<Rightarrow> oidc_user \<Rightarrow> json" where
  "userinfo_body L user =
     json_obj ([(''sub'', JStr (user_sub L (ou_username user))), (''preferred_username'', JStr (ou_username user)),
       (''email'', JStr (ou_email user)), (''email_verified'', JBool True)] @ ou_claims user)"

definition userinfo :: "oidc_lib \<Rightarrow> app_state \<Rightarrow> moment \<Rightarrow> string option \<Rightarrow> oidc_store \<Rightarrow> response option" where
  "userinfo L A m authorization s =
     (case Option.bind authorization (\<lambda>v. strip_prefix v ''Bearer '') of None \<Rightarrow> json_error 401 ''invalid_token'' | Some t \<Rightarrow>
      case st_access_tokens s t of None \<Rightarrow> json_error 401 ''invalid_token'' | Some record \<Rightarrow>
      if tr_expires_at record < mo_now m 0 then json_error 401 ''invalid_token''
      else case find_user (as_config A) (tr_username record) of None \<Rightarrow> json_error 401 ''invalid_token''
           | Some user \<Rightarrow> answer 200 (JsonBody (userinfo_body L user)))"

definition logout_target :: "end_session_query \<Rightarrow> string option" where
  "logout_target q =
     (case eq_post_logout_redirect_uri q of None \<Rightarrow> None | Some uri \<Rightarrow>
      if \<not> (starts_with uri ''http://'' \<or> starts_with uri ''https://'') then None
      else Some (uri @ (case eq_state q of None \<Rightarrow> []
             | Some st \<Rightarrow> if st \<noteq> [] then (if CHR ''?'' \<in> set uri then ''&'' else ''?'') @ ''state='' @ urlencoding_encode st
                          else [])))"

definition end_session ::
    "oidc_lib \<Rightarrow> string option \<Rightarrow> end_session_query \<Rightarrow> oidc_store \<Rightarrow> response option \<times> oidc_store" where
  "end_session L cookie q s =
     (with_cookie clear_session_cookie
        (case logout_target q of Some target \<Rightarrow> redirect_temporary L target
         | None \<Rightarrow> answer 200 (HtmlBody
             ''<!DOCTYPE html><html><body><h1>Logged out</h1><p>Session cleared.</p></body></html>'')),
      case parse_cookie cookie SESSION_COOKIE of None \<Rightarrow> s
      | Some sid \<Rightarrow> s\<lparr>st_sessions := (st_sessions s)(sid := None)\<rparr>)"

section \<open>Requests\<close>

datatype oidc_request =
    GetRoot
  | GetDiscovery
  | GetJwks
  | GetAuthorize authorize_query
  | PostLogin login_form
  | PostToken token_form
  | GetUserinfo
  | GetEndSession end_session_query

record incoming =
  in_moment :: moment
  in_cookie :: "string option"
  in_authorization :: "string option"
  in_request :: oidc_request

text \<open>The routes of the server.\<close>

definition handle_request :: "oidc_lib \<Rightarrow> app_state \<Rightarrow> incoming \<Rightarrow> oidc_store \<Rightarrow> response option \<times> oidc_store" where
  "handle_request L A i s =
     (case in_request i of
        GetRoot \<Rightarrow> (answer 200 (HtmlBody (root_html (as_config A))), s)
      | GetDiscovery \<Rightarrow> (answer 200 (JsonBody (discovery A)), s)
      | GetJwks \<Rightarrow> (answer 200 (JsonBody (as_jwks A)), s)
      | GetAuthorize q \<Rightarrow> authorize L A (in_moment i) (in_cookie i) q s
      | PostLogin form \<Rightarrow> login L A (in_moment i) form s
      | PostToken form \<Rightarrow> token L A (in_moment i) (in_authorization i) form s
      | GetUserinfo \<Rightarrow> (userinfo L A (in_moment i) (in_authorization i) s, s)
      | GetEndSession q \<Rightarrow> end_session L (in_cookie i) q s)"

section \<open>Escaping\<close>

definition html_entities :: "(string \<times> char) list" where
  "html_entities = [(''&amp;'', CHR ''&''), (''&lt;'', CHR ''<''), (''&gt;'', CHR ''>''), (''&quot;'', CHR 0x22)]"

definition html_entity :: "string \<Rightarrow> (char \<times> string) option" where
  "html_entity s = find_map (\<lambda>(e, c). map_option (Pair c) (strip_prefix s e)) html_entities"

lemma html_entity_shorter: "html_entity s = Some (c, t) \<Longrightarrow> length t < length s"
  by (auto simp: html_entity_def html_entities_def strip_prefix_Some split: option.splits)

text \<open>How a browser reads an attribute back.\<close>

function html_unescape :: "string \<Rightarrow> string" where
  "html_unescape [] = []"
| "html_unescape (c # cs) =
     (case html_entity (c # cs) of Some (d, rest) \<Rightarrow> d # html_unescape rest | None \<Rightarrow> c # html_unescape cs)"
  by pat_completeness auto
termination
  by (relation "measure length") (auto dest: html_entity_shorter)

definition html_char :: "char \<Rightarrow> string" where
  "html_char c = (if c = CHR ''&'' then ''&amp;'' else if c = CHR ''<'' then ''&lt;'' else if c = CHR ''>'' then ''&gt;''
     else if c = CHR 0x22 then ''&quot;'' else [c])"

lemma html_escape_map: "html_escape s = concat (map html_char s)"
  by (induction s) (simp_all add: html_escape_def replace_char_def html_char_def)

lemma html_entity_char:
  "html_entity (html_char c @ s) = (if length (html_char c) = 1 then None else Some (c, s))"
  by (simp add: html_entity_def html_entities_def html_char_def strip_prefix_def starts_with_def)

declare html_unescape.simps [simp del]

lemma html_unescape_escape: "html_unescape (html_escape s) = s"
proof (induction s)
  case (Cons c s)
  obtain h t where ht: "html_char c = h # t" by (cases "html_char c") (auto simp: html_char_def split: if_splits)
  have one: "h = c \<and> t = []" if "length (html_char c) = 1"
    using that ht by (auto simp: html_char_def split: if_splits)
  have "html_unescape (html_escape (c # s)) = html_unescape (h # t @ html_escape s)"
    by (simp add: html_escape_map ht)
  also have "\<dots> = c # html_unescape (html_escape s)"
  proof (cases "length (html_char c) = 1")
    case True
    have ht': "h = c" "t = []" using one [OF True] by blast+
    have "html_entity (c # html_escape s) = None"
      using html_entity_char [of c "html_escape s"] True unfolding ht ht' by simp
    then show ?thesis unfolding ht' by (simp only: append_Nil html_unescape.simps(2) option.case)
  next
    case False
    then have "html_entity (h # t @ html_escape s) = Some (c, html_escape s)"
      using html_entity_char [of c "html_escape s"] ht by simp
    then show ?thesis by (simp only: html_unescape.simps(2) option.case prod.case)
  qed
  finally show ?case using Cons.IH by simp
qed (simp add: html_escape_map html_unescape.simps)

lemma html_escape_safe: "set (html_escape s) \<inter> {CHR ''<'', CHR ''>'', CHR 0x22} = {}"
  by (induction s) (auto simp: html_escape_map html_char_def split: if_splits)

text \<open>How a client reads a query parameter back.\<close>

definition percent_digit :: "char \<Rightarrow> nat option" where
  "percent_digit c =
     (if is_ascii_digit c then Some (byte c - 48)
      else if 65 \<le> byte c \<and> byte c \<le> 70 then Some (byte c - 55)
      else if 97 \<le> byte c \<and> byte c \<le> 102 then Some (byte c - 87) else None)"

fun percent_decode :: "string \<Rightarrow> string" where
  "percent_decode [] = []"
| "percent_decode [c] = [c]"
| "percent_decode [c, d] = [c, d]"
| "percent_decode (c # h # l # cs) =
     (if c = CHR ''%'' then (case (percent_digit h, percent_digit l) of
          (Some a, Some b) \<Rightarrow> char_of (16 * a + b) # percent_decode cs
        | _ \<Rightarrow> c # percent_decode (h # l # cs))
      else c # percent_decode (h # l # cs))"

lemma percent_decode_plain: "c \<noteq> CHR ''%'' \<Longrightarrow> percent_decode (c # s) = c # percent_decode s"
  by (cases s rule: percent_decode.cases) (auto split: option.splits)

lemma percent_digit_upper: "n < 16 \<Longrightarrow> percent_digit (upper_hex n) = Some n"
  by (auto simp: percent_digit_def upper_hex_def is_ascii_digit_def)

lemma byte_div_16: "byte c div 16 < 16"
  using byte_less [of c] by (intro less_mult_imp_div_less) linarith

lemma byte_mod_16: "byte c mod 16 < 16"
  by simp

lemma percent_decode_encode: "percent_decode (urlencoding_encode s) = s"
proof (induction s)
  case (Cons c s)
  have "c \<noteq> CHR ''%''" if "url_unreserved c"
    using that by (auto simp: url_unreserved_def char_class_defs)
  moreover have "byte c div 16 < 16" "byte c mod 16 < 16" by (rule byte_div_16, rule byte_mod_16)
  moreover have "char_of (16 * (byte c div 16) + byte c mod 16) = c" by simp
  ultimately show ?case
    using Cons by (auto simp: urlencoding_encode_def percent_decode_plain percent_digit_upper)
qed (simp add: urlencoding_encode_def)

lemma upper_hex_unreserved: "n < 16 \<Longrightarrow> url_unreserved (upper_hex n)"
  by (auto simp: url_unreserved_def upper_hex_def char_class_defs)

lemma urlencoding_encode_set:
  assumes "c \<in> set (urlencoding_encode s)"
  shows "c = CHR ''%'' \<or> url_unreserved c"
proof -
  from assms obtain d where
    c: "c \<in> set (if url_unreserved d then [d] else [CHR ''%'', upper_hex (byte d div 16), upper_hex (byte d mod 16)])"
    unfolding urlencoding_encode_def set_concat set_map by blast
  have "byte d div 16 < 16" "byte d mod 16 < 16" by (rule byte_div_16, rule byte_mod_16)
  with c show ?thesis by (auto simp: upper_hex_unreserved split: if_splits)
qed

lemma urlencoding_encode_no:
  assumes "c \<in> {CHR ''&'', CHR ''='', CHR ''?'', CHR ''#''}"
  shows "c \<notin> set (urlencoding_encode s)"
  using urlencoding_encode_set [of c s] assms by (auto simp: url_unreserved_def char_class_defs)

text \<open>The parameters of a query: the text behind the first question mark, at its ampersands.\<close>

definition query_parameters :: "string \<Rightarrow> string list" where
  "query_parameters url = (case split_once (CHR ''?'') url of Some (_, query) \<Rightarrow> split_on (CHR ''&'') query | None \<Rightarrow> [])"

definition redirect_parameters :: "string \<Rightarrow> string option \<Rightarrow> string list" where
  "redirect_parameters code state =
     (''code='' @ urlencoding_encode code)
     # (case nonempty state of Some st \<Rightarrow> [''state='' @ urlencoding_encode st] | None \<Rightarrow> [])"

lemma split_on_last: "split_on d (s @ d # t) = split_on d s @ split_on d t"
  by (induction s) (auto split: list.splits)

lemma redirect_tail:
  "split_on (CHR ''&'') (''code='' @ urlencoding_encode code
     @ (case state of Some st \<Rightarrow> if st \<noteq> [] then ''&state='' @ urlencoding_encode st else [] | None \<Rightarrow> []))
   = redirect_parameters code state"
proof -
  have no: "CHR ''&'' \<notin> set (urlencoding_encode s)" for s by (simp add: urlencoding_encode_no)
  show ?thesis
  proof (cases "nonempty state")
    case None
    then have "(case state of Some st \<Rightarrow> if st \<noteq> [] then ''&state='' @ urlencoding_encode st else [] | None \<Rightarrow> []) = []"
      by (auto simp: nonempty_def split: option.splits list.splits)
    with None show ?thesis by (simp add: redirect_parameters_def split_on_no_sep no)
  next
    case (Some st)
    then have eq: "(case state of Some st \<Rightarrow> if st \<noteq> [] then ''&state='' @ urlencoding_encode st else [] | None \<Rightarrow> [])
      = CHR ''&'' # (''state='' @ urlencoding_encode st)"
      by (auto simp: nonempty_def split: option.splits list.splits)
    have "split_on (CHR ''&'') ((''code='' @ urlencoding_encode code) @ CHR ''&'' # (''state='' @ urlencoding_encode st))
      = [''code='' @ urlencoding_encode code, ''state='' @ urlencoding_encode st]"
      unfolding split_on_last by (simp add: split_on_no_sep no)
    with Some eq show ?thesis by (simp add: redirect_parameters_def)
  qed
qed

lemma split_once_first: "d \<notin> set a \<Longrightarrow> split_once d (a @ d # b) = Some (a, b)"
  by (simp add: split_once_Some)

lemma query_parameters_redirect:
  "query_parameters (build_redirect redirect_uri code state)
   = query_parameters redirect_uri @ redirect_parameters code state"
proof (cases "CHR ''?'' \<in> set redirect_uri")
  case True
  then obtain a b where ab: "split_once (CHR ''?'') redirect_uri = Some (a, b)"
    using split_once_None [of "CHR ''?''" redirect_uri] by (cases "split_once (CHR ''?'') redirect_uri") auto
  then have r: "redirect_uri = a @ CHR ''?'' # b" and a: "CHR ''?'' \<notin> set a" by (simp_all add: split_once_Some)
  have "build_redirect redirect_uri code state = a @ CHR ''?'' # (b @ CHR ''&'' # (''code='' @ urlencoding_encode code
     @ (case state of Some st \<Rightarrow> if st \<noteq> [] then ''&state='' @ urlencoding_encode st else [] | None \<Rightarrow> [])))"
    using True by (simp add: build_redirect_def r)
  then show ?thesis
    unfolding query_parameters_def ab
    by (simp only: split_once_first [OF a] option.case prod.case split_on_last redirect_tail)
next
  case False
  then have "split_once (CHR ''?'') redirect_uri = None" by (simp add: split_once_None)
  moreover have "build_redirect redirect_uri code state = redirect_uri @ CHR ''?'' # (''code='' @ urlencoding_encode code
     @ (case state of Some st \<Rightarrow> if st \<noteq> [] then ''&state='' @ urlencoding_encode st else [] | None \<Rightarrow> []))"
    using False by (simp add: build_redirect_def)
  ultimately show ?thesis
    unfolding query_parameters_def
    by (simp only: split_once_first [OF False] option.case prod.case redirect_tail append_Nil)
qed

section \<open>What the picker submits\<close>

text \<open>A page as a browser reads it.  Outside a tag everything up to the next \<open><\<close> is text; inside a tag the attributes
  are quoted, in either kind of quotation mark, and a \<open>>\<close> outside the quotation marks ends the tag.  A tag carries the
  text before it, its quoted attributes with what stands before each, and what stands before its end.  The texts are
  collected backwards.\<close>

datatype page_tag = PageTag (text_before: string) (quoted_values: "(string \<times> string) list") (tag_ending: string)

datatype page_reading =
    InText string
  | InTag string "(string \<times> string) list" string
  | InValue char string "(string \<times> string) list" string string

fun page_step :: "page_reading \<Rightarrow> char \<Rightarrow> page_tag list \<times> page_reading" where
  "page_step (InText t) c = (if c = CHR ''<'' then ([], InTag (rev t) [] []) else ([], InText (c # t)))"
| "page_step (InTag b as t) c =
     (if c = CHR ''>'' then ([PageTag b as (rev t)], InText [])
      else if c = CHR 0x22 \<or> c = CHR 0x27 then ([], InValue c b as (rev t) [])
      else ([], InTag b as (c # t)))"
| "page_step (InValue q b as t v) c =
     (if c = q then ([], InTag b (as @ [(t, rev v)]) []) else ([], InValue q b as t (c # v)))"

primrec page_scan :: "page_reading \<Rightarrow> string \<Rightarrow> page_tag list \<times> page_reading" where
  "page_scan r [] = ([], r)"
| "page_scan r (c # s) =
     (case page_step r c of (ts, r1) \<Rightarrow> case page_scan r1 s of (us, r2) \<Rightarrow> (ts @ us, r2))"

definition page_tags :: "string \<Rightarrow> page_tag list" where
  "page_tags page = fst (page_scan (InText []) page)"

text \<open>The element a tag opens or closes, its attributes by name, the field it adds to its form, and the text an
  element shows.\<close>

definition tag_element :: "page_tag \<Rightarrow> string" where
  "tag_element t =
     takeWhile (\<lambda>c. c \<noteq> CHR '' '')
       (case quoted_values t of [] \<Rightarrow> tag_ending t | (start, v) # r \<Rightarrow> start)"

definition attribute_name :: "string \<Rightarrow> string" where
  "attribute_name t = takeWhile (\<lambda>c. c \<noteq> CHR ''='') (rev (takeWhile (\<lambda>c. c \<noteq> CHR '' '') (rev t)))"

definition tag_attribute :: "page_tag \<Rightarrow> string \<Rightarrow> string option" where
  "tag_attribute t name = map_option html_unescape (map_of (map (map_prod attribute_name id) (quoted_values t)) name)"

definition tag_fields :: "page_tag \<Rightarrow> (string \<times> string) list" where
  "tag_fields t =
     (if tag_element t \<in> {''input'', ''button''}
      then case (tag_attribute t ''name'', tag_attribute t ''value'') of
             (Some n, Some v) \<Rightarrow> [(n, v)]
           | _ \<Rightarrow> []
      else [])"

definition page_elements :: "page_tag list \<Rightarrow> string list" where
  "page_elements ts = map tag_element ts"

definition page_fields :: "page_tag list \<Rightarrow> (string \<times> string) list" where
  "page_fields ts = concat (map tag_fields ts)"

definition page_shows :: "string \<Rightarrow> page_tag list \<Rightarrow> string list" where
  "page_shows element ts =
     map (\<lambda>t. html_unescape (text_before t)) (filter (\<lambda>t. tag_element t = CHR ''/'' # element) ts)"

lemma page_scan_append:
  "page_scan r (s @ s') = (case page_scan r s of (ts, r1) \<Rightarrow> case page_scan r1 s' of (us, r2) \<Rightarrow> (ts @ us, r2))"
  by (induction s arbitrary: r) (auto split: prod.splits)

lemma page_scan_text: "CHR ''<'' \<notin> set w \<Longrightarrow> page_scan (InText t) w = ([], InText (rev w @ t))"
  by (induction w arbitrary: t) auto

lemma page_scan_value: "q \<notin> set w \<Longrightarrow> page_scan (InValue q b as t v) w = ([], InValue q b as t (rev w @ v))"
  by (induction w arbitrary: v) auto

lemma page_scan_escaped:
  "page_scan (InText t) (html_escape s) = ([], InText (rev (html_escape s) @ t))"
  "page_scan (InValue (CHR 0x22) b as u v) (html_escape s) = ([], InValue (CHR 0x22) b as u (rev (html_escape s) @ v))"
  using html_escape_safe [of s] by (auto intro!: page_scan_text page_scan_value)

lemma hidden_input_tags:
  assumes "CHR 0x22 \<notin> set name"
  shows "page_scan (InText t) (hidden_input name v) =
    ([PageTag (rev t @ ''      '') [(''input type='', ''hidden''), ('' name='', name), ('' value='', html_escape v)] ''/''],
     InText [])"
  unfolding hidden_input_def using assms
  by (simp add: page_scan_append page_scan_value page_scan_escaped)

text \<open>What a browser makes of a piece of a page that starts and ends in text: the elements it opens and closes, the fields
  it adds, and what it shows in bold and beside it.\<close>

type_synonym page_view = "string list \<times> (string \<times> string) list \<times> string list \<times> string list"

definition page_view :: "page_tag list \<Rightarrow> page_view" where
  "page_view ts = (page_elements ts, page_fields ts, page_shows ''strong'' ts, page_shows ''span'' ts)"

fun join_views :: "page_view list \<Rightarrow> page_view" where
  "join_views [] = ([], [], [], [])"
| "join_views ((es, fs, bs, ss) # vs) =
     (case join_views vs of (es', fs', bs', ss') \<Rightarrow> (es @ es', fs @ fs', bs @ bs', ss @ ss'))"

definition reads :: "string \<Rightarrow> page_view \<Rightarrow> bool" where
  "reads s v \<longleftrightarrow> (\<forall>t. \<exists>ts t'. page_scan (InText t) s = (ts, InText t') \<and> page_view ts = v)"

lemmas page_view_simps =
  page_view_def page_elements_def page_fields_def page_shows_def tag_element_def tag_fields_def tag_attribute_def
  attribute_name_def

lemma page_view_append: "page_view (ts @ us) = join_views [page_view ts, page_view us]"
  by (simp add: page_view_def page_elements_def page_fields_def page_shows_def)

lemma reads_words: "CHR ''<'' \<notin> set s \<Longrightarrow> reads s ([], [], [], [])"
  by (simp add: reads_def page_scan_text page_view_simps)

lemma reads_append: "reads a v \<Longrightarrow> reads b w \<Longrightarrow> reads (a @ b) (join_views [v, w])"
  unfolding reads_def
proof
  fix t
  assume a: "\<forall>t. \<exists>ts t'. page_scan (InText t) a = (ts, InText t') \<and> page_view ts = v"
    and b: "\<forall>t. \<exists>ts t'. page_scan (InText t) b = (ts, InText t') \<and> page_view ts = w"
  from a obtain ts t1 where "page_scan (InText t) a = (ts, InText t1)" "page_view ts = v" by metis
  moreover from b obtain us t2 where "page_scan (InText t1) b = (us, InText t2)" "page_view us = w" by metis
  ultimately show "\<exists>ts t'. page_scan (InText t) (a @ b) = (ts, InText t') \<and> page_view ts = join_views [v, w]"
    by (simp add: page_scan_append page_view_append)
qed

lemma join_views_simps:
  "join_views (([], [], [], []) # vs) = join_views vs" "join_views [v, ([], [], [], [])] = v" "join_views [v] = v"
  "join_views [v, join_views vs] = join_views (v # vs)"
  by (cases v; cases "join_views vs"; simp)+

lemma reads_page: "list_all2 reads ls vs \<Longrightarrow> reads (page_of ls) (join_views vs)"
proof (induction rule: list_all2_induct)
  case Nil
  show ?case using reads_words [of "[]"] by (simp add: page_of_def)
next
  case (Cons l ls v vs)
  have "reads (l @ [CHR 0x0A] @ page_of ls) (join_views (v # vs))"
    using reads_append [OF Cons(1) reads_append [OF reads_words Cons(3), of "[CHR 0x0A]"]]
    by (simp only: join_views_simps(1,3,4)) simp
  moreover have "reads (page_of [l]) (join_views [v])"
    using Cons(1) by (simp add: page_of_def join_views_simps(3))
  ultimately show ?case
    using Cons(2) by (cases ls; cases vs) (simp_all add: page_of_def)
qed

lemma field_names:
  "html_unescape ''client_id'' = ''client_id''" "html_unescape ''redirect_uri'' = ''redirect_uri''"
  "html_unescape ''scope'' = ''scope''" "html_unescape ''state'' = ''state''" "html_unescape ''nonce'' = ''nonce''"
  "html_unescape ''code_challenge'' = ''code_challenge''"
  "html_unescape ''code_challenge_method'' = ''code_challenge_method''" "html_unescape ''username'' = ''username''"
  by code_simp+

lemma hidden_input_reads:
  assumes "CHR 0x22 \<notin> set name" and "html_unescape name = name"
  shows "reads (hidden_input name v) ([''input''], [(name, v)], [], [])"
  unfolding reads_def hidden_input_tags [OF assms(1)]
  by (simp add: page_view_simps html_unescape_escape assms(2))

lemma picker_button_tags:
  "page_scan (InText t) (picker_button user) =
     ([PageTag (rev t) [(''button type='', ''submit''), ('' name='', ''username''),
         ('' value='', html_escape (ou_username user)), ('' class='', ''user'')] [],
       PageTag [CHR 0x0A, CHR '' '', CHR '' ''] [] ''strong'', PageTag (html_escape (ou_username user)) [] ''/strong'',
       PageTag [CHR 0x0A, CHR '' '', CHR '' ''] [] ''span'', PageTag (html_escape (ou_email user)) [] ''/span'',
       PageTag [CHR 0x0A] [] ''/button''], InText [])"
  unfolding picker_button_def page_of_def by (simp add: page_scan_append page_scan_escaped)

definition button_elements :: "string list" where
  "button_elements = [''button'', ''strong'', ''/strong'', ''span'', ''/span'', ''/button'']"

lemma picker_button_reads:
  "reads (picker_button user) (button_elements, [(''username'', ou_username user)], [ou_username user], [ou_email user])"
  unfolding reads_def picker_button_tags button_elements_def
  by (simp add: page_view_simps html_unescape_escape field_names)

lemma picker_buttons_read:
  "reads (concat (map picker_button users))
     (concat (map (\<lambda>_. button_elements) users), map (\<lambda>u. (''username'', ou_username u)) users,
      map ou_username users, map ou_email users)"
proof (induction users)
  case (Cons user users)
  from reads_append [OF picker_button_reads [of user] Cons.IH] show ?case by simp
qed (use reads_words [of "[]"] in simp)

text \<open>The lines of the page that do not depend on the request and the users.\<close>

abbreviation static_line :: "string list \<Rightarrow> page_view" where
  "static_line es \<equiv> (es, [], [], [])"

lemma page_head_reads: "list_all2 reads page_head
   (map static_line [[''!DOCTYPE''], [''html''], [''head''], [''meta''], [''meta''], [''title'', ''/title''], [''style''],
      [], [], [], [], [], [], []])"
  unfolding page_head_def list.map list_all2_Cons list_all2_Nil
  by (intro conjI refl, simp_all add: reads_words) (simp_all add: reads_def page_view_simps)

lemma picker_style_reads: "list_all2 reads picker_style
   (map static_line [[], [], [], [], [], [], [], [], [], [''/style''], [''/head''], [''body''], [''main''], [''div'', ''/div''],
      [''h1'', ''/h1''], [''p'', ''/p''], [''form'']])"
  unfolding picker_style_def list.map list_all2_Cons list_all2_Nil
  by (intro conjI refl, simp_all add: reads_words) (simp_all add: reads_def page_view_simps)

lemma picker_end_reads: "list_all2 reads picker_end (map static_line [[''/form''], [''/main''], [''/body''], [''/html'']])"
  unfolding picker_end_def list.map list_all2_Cons list_all2_Nil
  by (intro conjI refl) (simp_all add: reads_def page_view_simps)

text \<open>The elements of a picker with a number of users, in the order of the page.\<close>

definition picker_elements :: "nat \<Rightarrow> string list" where
  "picker_elements n =
     [''!DOCTYPE'', ''html'', ''head'', ''meta'', ''meta'', ''title'', ''/title'', ''style'', ''/style'', ''/head'', ''body'',
      ''main'', ''div'', ''/div'', ''h1'', ''/h1'', ''p'', ''/p'', ''form''] @ replicate 7 ''input''
     @ concat (replicate n button_elements) @ [''/form'', ''/main'', ''/body'', ''/html'']"

lemma picker_html_reads:
  "reads (picker_html config q)
     (picker_elements (length (op_users config)),
      [(''client_id'', or_empty (aq_client_id q)), (''redirect_uri'', or_empty (aq_redirect_uri q)),
       (''scope'', case aq_scope q of Some scope \<Rightarrow> scope | None \<Rightarrow> ''openid profile email''),
       (''state'', or_empty (aq_state q)), (''nonce'', or_empty (aq_nonce q)),
       (''code_challenge'', or_empty (aq_code_challenge q)),
       (''code_challenge_method'', or_empty (aq_code_challenge_method q))]
      @ map (\<lambda>u. (''username'', ou_username u)) (op_users config),
      map ou_username (op_users config), map ou_email (op_users config))"
proof -
  let ?users = "op_users config"
  have buttons: "reads (''      '' @ concat (map picker_button ?users))
      (concat (replicate (length ?users) button_elements), map (\<lambda>u. (''username'', ou_username u)) ?users,
       map ou_username ?users, map ou_email ?users)"
    using reads_append [OF reads_words picker_buttons_read [of ?users], of "''      ''"]
    by (simp add: map_replicate_const)
  let ?inputs =
    "[hidden_input ''client_id'' (or_empty (aq_client_id q)),
      hidden_input ''redirect_uri'' (or_empty (aq_redirect_uri q)),
      hidden_input ''scope'' (case aq_scope q of Some scope \<Rightarrow> scope | None \<Rightarrow> ''openid profile email''),
      hidden_input ''state'' (or_empty (aq_state q)), hidden_input ''nonce'' (or_empty (aq_nonce q)),
      hidden_input ''code_challenge'' (or_empty (aq_code_challenge q)),
      hidden_input ''code_challenge_method'' (or_empty (aq_code_challenge_method q)),
      ''      '' @ concat (map picker_button ?users)]"
  have inputs: "list_all2 reads ?inputs
     [([''input''], [(''client_id'', or_empty (aq_client_id q))], [], []),
      ([''input''], [(''redirect_uri'', or_empty (aq_redirect_uri q))], [], []),
      ([''input''], [(''scope'', case aq_scope q of Some scope \<Rightarrow> scope | None \<Rightarrow> ''openid profile email'')], [], []),
      ([''input''], [(''state'', or_empty (aq_state q))], [], []),
      ([''input''], [(''nonce'', or_empty (aq_nonce q))], [], []),
      ([''input''], [(''code_challenge'', or_empty (aq_code_challenge q))], [], []),
      ([''input''], [(''code_challenge_method'', or_empty (aq_code_challenge_method q))], [], []),
      (concat (replicate (length ?users) button_elements), map (\<lambda>u. (''username'', ou_username u)) ?users,
       map ou_username ?users, map ou_email ?users)]"
    unfolding list_all2_Cons list_all2_Nil
    by (intro conjI refl buttons hidden_input_reads field_names) simp_all
  note lines = list_all2_appendI [OF page_head_reads list_all2_appendI [OF picker_style_reads
      list_all2_appendI [OF inputs picker_end_reads]]]
  from reads_page [OF lines] show ?thesis
    unfolding picker_html_def picker_elements_def by (simp add: numeral_eq_Suc)
qed

text \<open>C19: whatever the request and the users contain, a browser that reads the page of the picker finds the elements of
  a picker with that many users and no other; its fields are those of the request, with the values that were sent, and
  one submitting field for each configured user; and it shows the name and the address of each user as they are
  configured.  So no value of the request, no name and no address can add, hide or change an element or a field.\<close>

theorem picker_submits:
  "page_elements (page_tags (picker_html config q)) = picker_elements (length (op_users config)) \<and>
   page_fields (page_tags (picker_html config q)) =
     [(''client_id'', or_empty (aq_client_id q)), (''redirect_uri'', or_empty (aq_redirect_uri q)),
      (''scope'', case aq_scope q of Some scope \<Rightarrow> scope | None \<Rightarrow> ''openid profile email''),
      (''state'', or_empty (aq_state q)), (''nonce'', or_empty (aq_nonce q)),
      (''code_challenge'', or_empty (aq_code_challenge q)),
      (''code_challenge_method'', or_empty (aq_code_challenge_method q))]
     @ map (\<lambda>u. (''username'', ou_username u)) (op_users config) \<and>
   page_shows ''strong'' (page_tags (picker_html config q)) = map ou_username (op_users config) \<and>
   page_shows ''span'' (page_tags (picker_html config q)) = map ou_email (op_users config)"
  using picker_html_reads [of config q]
  unfolding reads_def page_tags_def page_view_def by (auto dest!: spec [of _ "[]"])

end
