(* ===== verification/OidcFlow.thy ===== *)
theory OidcFlow
  imports Oidc
begin

text \<open>
  What holds of the exchanges of an identity provider that starts with an empty store. A trace has the exchanges
  (requests and responses) with the last one first. The theorems say, of a response, which earlier exchange it rests on:
  a token on a code, a code on a login, user information on a token.
\<close>

section \<open>Traces\<close>

type_synonym exchange = "incoming \<times> response option"

text \<open>\<open>serves L A tr s\<close>: the requests of \<open>tr\<close> were answered as in \<open>tr\<close> and have left the store \<open>s\<close>.\<close>

inductive serves :: "oidc_lib \<Rightarrow> app_state \<Rightarrow> exchange list \<Rightarrow> oidc_store \<Rightarrow> bool" for L :: oidc_lib and A :: app_state where
  start: "serves L A [] empty_store"
| request: "serves L A tr s \<Longrightarrow> handle_request L A i s = (r, s') \<Longrightarrow> serves L A ((i, r) # tr) s'"

inductive_cases serves_ConsE: "serves L A (x # tr) s"

text \<open>\<open>happened x past tr\<close>: the exchange \<open>x\<close> is in \<open>tr\<close>, after the exchanges \<open>past\<close>.\<close>

definition happened :: "exchange \<Rightarrow> exchange list \<Rightarrow> exchange list \<Rightarrow> bool" where
  "happened x past tr \<longleftrightarrow> (\<exists>later. tr = later @ x # past)"

lemma happened_Cons: "happened x past (y # tr) \<longleftrightarrow> x = y \<and> past = tr \<or> happened x past tr"
proof
  assume "happened x past (y # tr)"
  then obtain later where "y # tr = later @ x # past" by (auto simp: happened_def)
  then show "x = y \<and> past = tr \<or> happened x past tr" by (cases later) (auto simp: happened_def)
next
  assume "x = y \<and> past = tr \<or> happened x past tr"
  then show "happened x past (y # tr)"
    unfolding happened_def by (metis append_Cons append_Nil)
qed

lemma happened_Nil [simp]: "\<not> happened x past []"
  by (simp add: happened_def)

lemma happened_set: "happened x past tr \<Longrightarrow> x \<in> set tr"
  by (auto simp: happened_def)

section \<open>Where sessions, codes and tokens come from\<close>

definition registered :: "app_state \<Rightarrow> string \<Rightarrow> string \<Rightarrow> bool" where
  "registered A client_id redirect_uri \<longleftrightarrow>
     (\<exists>client. find_client (as_config A) client_id = Some client \<and> redirect_uri \<in> set (oc_redirect_uris client))"

definition known :: "app_state \<Rightarrow> string \<Rightarrow> bool" where
  "known A username \<longleftrightarrow> find_user (as_config A) username \<noteq> None"

text \<open>The exchange is a login of a configured user that opens the session \<open>sid\<close>.\<close>

definition signed_in :: "oidc_lib \<Rightarrow> app_state \<Rightarrow> exchange \<Rightarrow> string \<Rightarrow> oidc_session \<Rightarrow> bool" where
  "signed_in L A x sid session \<longleftrightarrow>
     (\<exists>form. in_request (fst x) = PostLogin form
        \<and> registered A (lf_client_id form) (lf_redirect_uri form) \<and> known A (lf_username form)
        \<and> sid = mo_id (in_moment (fst x)) 0
        \<and> session = \<lparr>se_username = lf_username form, se_expires_at = mo_now (in_moment (fst x)) 0 + SESSION_TTL_SECS\<rparr>
        \<and> (\<forall>reply. snd x = Some reply \<longrightarrow> rs_set_cookie reply = Some (set_session_cookie sid)))"

text \<open>The code a request asks for, when it is given one.\<close>

definition code_for :: "u64 \<Rightarrow> string \<Rightarrow> string \<Rightarrow> string \<Rightarrow> authorize_query \<Rightarrow> auth_code" where
  "code_for now username client_id redirect_uri q =
     \<lparr>ac_username = username, ac_client_id = client_id, ac_redirect_uri = redirect_uri,
      ac_code_challenge = aq_code_challenge q, ac_code_challenge_method = aq_code_challenge_method q,
      ac_nonce = aq_nonce q, ac_scope = (case aq_scope q of Some scope \<Rightarrow> scope | None \<Rightarrow> DEFAULT_SCOPE),
      ac_expires_at = now + CODE_TTL_SECS\<rparr>"

text \<open>The exchange, after \<open>past\<close>, gives out \<open>code\<close>: at a login, or to a browser whose cookie has a session, not yet
  expired, that a login before it has opened. The response, if there is one, redirects to the client with the code.\<close>

definition granted_at_login :: "oidc_lib \<Rightarrow> app_state \<Rightarrow> exchange \<Rightarrow> string \<Rightarrow> auth_code \<Rightarrow> bool" where
  "granted_at_login L A x code grant \<longleftrightarrow>
     (\<exists>form. in_request (fst x) = PostLogin form
        \<and> registered A (lf_client_id form) (lf_redirect_uri form) \<and> known A (lf_username form)
        \<and> code = mo_id (in_moment (fst x)) 1
        \<and> grant = code_for (mo_now (in_moment (fst x)) 1) (lf_username form) (lf_client_id form) (lf_redirect_uri form)
            (login_query form)
        \<and> (\<forall>reply. snd x = Some reply \<longrightarrow>
             rs_location reply = Some (build_redirect (lf_redirect_uri form) code (lf_state form))))"

definition granted_by_cookie :: "oidc_lib \<Rightarrow> app_state \<Rightarrow> exchange \<Rightarrow> exchange list \<Rightarrow> string \<Rightarrow> auth_code \<Rightarrow> bool" where
  "granted_by_cookie L A x past code grant \<longleftrightarrow>
     (\<exists>q sid session login_exchange before.
        in_request (fst x) = GetAuthorize q \<and> aq_client_id q = Some (ac_client_id grant)
        \<and> aq_redirect_uri q = Some (ac_redirect_uri grant) \<and> registered A (ac_client_id grant) (ac_redirect_uri grant)
        \<and> known A (se_username session) \<and> parse_cookie (in_cookie (fst x)) SESSION_COOKIE = Some sid
        \<and> mo_now (in_moment (fst x)) 0 < se_expires_at session
        \<and> happened login_exchange before past \<and> signed_in L A login_exchange sid session
        \<and> code = mo_id (in_moment (fst x)) 0
        \<and> grant = code_for (mo_now (in_moment (fst x)) 1) (se_username session) (ac_client_id grant) (ac_redirect_uri grant) q
        \<and> (\<forall>reply. snd x = Some reply \<longrightarrow>
             rs_location reply = Some (build_redirect (ac_redirect_uri grant) code (aq_state q))))"

definition granted :: "oidc_lib \<Rightarrow> app_state \<Rightarrow> exchange \<Rightarrow> exchange list \<Rightarrow> string \<Rightarrow> auth_code \<Rightarrow> bool" where
  "granted L A x past code grant \<longleftrightarrow> granted_at_login L A x code grant \<or> granted_by_cookie L A x past code grant"

text \<open>The exchange redeems \<open>code\<close> for the token \<open>t\<close> of \<open>user\<close>, the grant having passed every check.\<close>

definition redeemed :: "oidc_lib \<Rightarrow> app_state \<Rightarrow> exchange \<Rightarrow> string \<Rightarrow> auth_code \<Rightarrow> oidc_user \<Rightarrow> string \<Rightarrow> token_record \<Rightarrow> bool" where
  "redeemed L A x code grant user t tok \<longleftrightarrow>
     (\<exists>form. in_request (fst x) = PostToken form \<and> tf_grant_type form = Some ''authorization_code''
        \<and> tf_code form = Some code
        \<and> token_client L (in_authorization (fst x)) form = Some (ac_client_id grant)
        \<and> check_code L A (mo_now (in_moment (fst x)) 0) (ac_client_id grant) form grant = Inr user
        \<and> t = mo_id (in_moment (fst x)) 0
        \<and> tok = \<lparr>tr_username = ou_username user, tr_client_id = ac_client_id grant, tr_scope = ac_scope grant,
            tr_expires_at = mo_now (in_moment (fst x)) 1 + TOKEN_TTL_SECS\<rparr>
        \<and> snd x = (case ol_sign L (as_kid A) (id_token_claims L A user (ac_client_id grant) (ac_nonce grant)
                     (mo_now (in_moment (fst x)) 2)) of
              Inl e \<Rightarrow> answer 500 (TextBody (''sign id_token: '' @ e))
            | Inr id_token \<Rightarrow> token_response t id_token (ac_scope grant)))"

section \<open>The invariant of the store\<close>

definition session_from :: "oidc_lib \<Rightarrow> app_state \<Rightarrow> exchange list \<Rightarrow> string \<Rightarrow> oidc_session \<Rightarrow> bool" where
  "session_from L A tr sid session \<longleftrightarrow> (\<exists>x past. happened x past tr \<and> signed_in L A x sid session)"

definition code_from :: "oidc_lib \<Rightarrow> app_state \<Rightarrow> exchange list \<Rightarrow> string \<Rightarrow> auth_code \<Rightarrow> bool" where
  "code_from L A tr code grant \<longleftrightarrow> (\<exists>x past. happened x past tr \<and> granted L A x past code grant)"

definition token_from :: "oidc_lib \<Rightarrow> app_state \<Rightarrow> exchange list \<Rightarrow> string \<Rightarrow> token_record \<Rightarrow> bool" where
  "token_from L A tr t tok \<longleftrightarrow>
     (\<exists>x past code grant user. happened x past tr \<and> redeemed L A x code grant user t tok \<and> code_from L A past code grant)"

definition store_inv :: "oidc_lib \<Rightarrow> app_state \<Rightarrow> exchange list \<Rightarrow> oidc_store \<Rightarrow> bool" where
  "store_inv L A tr s \<longleftrightarrow>
     (\<forall>sid session. st_sessions s sid = Some session \<longrightarrow> session_from L A tr sid session)
     \<and> (\<forall>code grant. st_codes s code = Some grant \<longrightarrow> code_from L A tr code grant)
     \<and> (\<forall>t tok. st_access_tokens s t = Some tok \<longrightarrow> token_from L A tr t tok)"

lemma from_Cons [intro]:
  "session_from L A tr sid session \<Longrightarrow> session_from L A (x # tr) sid session"
  "code_from L A tr code grant \<Longrightarrow> code_from L A (x # tr) code grant"
  "token_from L A tr t tok \<Longrightarrow> token_from L A (x # tr) t tok"
  unfolding session_from_def code_from_def token_from_def happened_Cons by blast+

lemma from_now:
  "signed_in L A x sid session \<Longrightarrow> session_from L A (x # tr) sid session"
  "granted L A x tr code grant \<Longrightarrow> code_from L A (x # tr) code grant"
  "redeemed L A x code grant user t tok \<Longrightarrow> code_from L A tr code grant \<Longrightarrow> token_from L A (x # tr) t tok"
  unfolding session_from_def code_from_def token_from_def happened_Cons by blast+

lemma map_le_Some: "m' \<subseteq>\<^sub>m m \<Longrightarrow> m' k = Some v \<Longrightarrow> m k = Some v"
  unfolding map_le_def by (metis domI)

lemma store_inv_less:
  assumes "store_inv L A tr s" and "st_sessions s' \<subseteq>\<^sub>m st_sessions s" and "st_codes s' \<subseteq>\<^sub>m st_codes s"
    and "st_access_tokens s' \<subseteq>\<^sub>m st_access_tokens s"
  shows "store_inv L A (x # tr) s'"
  using assms(1) assms(2-4) [THEN map_le_Some] unfolding store_inv_def by (intro conjI allI impI from_Cons) blast+

lemma find_client_registered:
  "find_client (as_config A) c = Some client \<Longrightarrow> uri \<in> set (oc_redirect_uris client) \<Longrightarrow> registered A c uri"
  by (auto simp: registered_def)

lemma issue_code_store:
  "st_sessions (issue_code code now u c uri q s) = st_sessions s"
  "st_access_tokens (issue_code code now u c uri q s) = st_access_tokens s"
  "st_codes (issue_code code now u c uri q s) = (st_codes s)(code \<mapsto> code_for now u c uri q)"
  by (simp_all add: issue_code_def code_for_def)

lemma redirect_location: "redirect_temporary L uri = Some reply \<Longrightarrow> rs_location reply = Some uri \<and> rs_status reply = 307"
  by (auto simp: redirect_temporary_def split: if_splits)

lemma with_cookie_Some:
  "with_cookie v r = Some reply \<longleftrightarrow> (\<exists>r'. r = Some r' \<and> reply = r'\<lparr>rs_set_cookie := Some v\<rparr>)"
  by (auto simp: with_cookie_def)

text \<open>The outcomes of each handler that change the store or answer with a redirect or a token.\<close>

lemma authorize_cases:
  assumes "authorize L A m cookie q s = (r, s')"
  obtains (same) "s' = s" and "\<And>reply. r = Some reply \<Longrightarrow> rs_status reply \<noteq> 307"
  | (expired) sid where "parse_cookie cookie SESSION_COOKIE = Some sid" and "s' = s\<lparr>st_sessions := (st_sessions s)(sid := None)\<rparr>"
      and "\<And>reply. r = Some reply \<Longrightarrow> rs_status reply \<noteq> 307"
  | (code) client_id uri sid session where "aq_client_id q = Some client_id" and "aq_redirect_uri q = Some uri"
      and "registered A client_id uri" and "parse_cookie cookie SESSION_COOKIE = Some sid"
      and "st_sessions s sid = Some session" and "mo_now m 0 < se_expires_at session" and "known A (se_username session)"
      and "r = redirect_temporary L (build_redirect uri (mo_id m 0) (aq_state q))"
      and "s' = issue_code (mo_id m 0) (mo_now m 1) (se_username session) client_id uri q s"
proof -
  have status: "bad_request e \<noteq> Some reply" "answer 200 b \<noteq> Some reply" if "rs_status reply = 307" for e b reply
    using that by (auto simp: bad_request_def answer_def)
  show ?thesis
  proof (cases "\<exists>client_id uri client. aq_response_type q = Some ''code'' \<and> aq_client_id q = Some client_id
      \<and> aq_redirect_uri q = Some uri \<and> find_client (as_config A) client_id = Some client \<and> uri \<in> set (oc_redirect_uris client)")
    case False
    then have "s' = s" "\<exists>e. r = bad_request e"
      using assms by (auto simp: authorize_def split: if_splits option.splits)
    with status show ?thesis by (intro same) metis+
  next
    case True
    then obtain client_id uri client where
      q: "aq_response_type q = Some ''code''" "aq_client_id q = Some client_id" "aq_redirect_uri q = Some uri"
        "find_client (as_config A) client_id = Some client" "uri \<in> set (oc_redirect_uris client)" by blast
    show ?thesis
    proof (cases "Option.bind (parse_cookie cookie SESSION_COOKIE) (st_sessions s)")
      case None
      then have "s' = s" "\<exists>b. r = answer 200 b"
        using assms q by (auto simp: authorize_def Let_def bind_eq_None_conv split: option.splits)
      with status show ?thesis by (intro same) metis+
    next
      case (Some session)
      then obtain sid where sid: "parse_cookie cookie SESSION_COOKIE = Some sid" "st_sessions s sid = Some session"
        by (auto simp: bind_eq_Some_conv)
      note eq = assms [unfolded authorize_def Let_def q sid option.case, simplified q(5)]
      show ?thesis
      proof (cases "mo_now m 0 < se_expires_at session \<and> known A (se_username session)")
        case True
        with eq q sid show ?thesis
          by (intro code [OF q(2,3) _ sid]) (auto simp: registered_def known_def)
      next
        case False
        with eq status show ?thesis by (intro expired [OF sid(1)]) (auto simp: known_def)
      qed
    qed
  qed
qed

lemma login_cases:
  assumes "login L A m form s = (r, s')"
  obtains (refused) "s' = s" and "\<And>reply. r = Some reply \<Longrightarrow> rs_status reply \<noteq> 307"
  | (code) "registered A (lf_client_id form) (lf_redirect_uri form)" and "known A (lf_username form)"
      and "r = with_cookie (set_session_cookie (mo_id m 0))
                 (redirect_temporary L (build_redirect (lf_redirect_uri form) (mo_id m 1) (lf_state form)))"
      and "s' = issue_code (mo_id m 1) (mo_now m 1) (lf_username form) (lf_client_id form) (lf_redirect_uri form)
                 (login_query form) (s\<lparr>st_sessions := (st_sessions s)(mo_id m 0 \<mapsto>
                   \<lparr>se_username = lf_username form, se_expires_at = mo_now m 0 + SESSION_TTL_SECS\<rparr>)\<rparr>)"
  using assms unfolding login_def Let_def
  by (auto simp: bad_request_def answer_def known_def registered_def split: if_splits option.splits)

lemma check_code_client: "check_code L A now client form grant = Inr user \<Longrightarrow> ac_client_id grant = client"
  by (auto simp: check_code_def split: if_splits)

lemma token_cases:
  assumes "token L A m authorization form s = (r, s')"
  obtains (same) "s' = s" and "\<And>reply. r = Some reply \<Longrightarrow> rs_status reply \<noteq> 200"
  | (spent) code grant where "tf_code form = Some code" and "st_codes s code = Some grant"
      and "s' = s\<lparr>st_codes := (st_codes s)(code := None)\<rparr>" and "\<And>reply. r = Some reply \<Longrightarrow> rs_status reply \<noteq> 200"
  | (redeemed) code grant user where "st_codes s code = Some grant" and "tf_code form = Some code"
      and "redeemed L A (\<lparr>in_moment = m, in_cookie = cookie, in_authorization = authorization, in_request = PostToken form\<rparr>, r)
             code grant user (mo_id m 0) \<lparr>tr_username = ou_username user, tr_client_id = ac_client_id grant,
               tr_scope = ac_scope grant, tr_expires_at = mo_now m 1 + TOKEN_TTL_SECS\<rparr>"
      and "s' = s\<lparr>st_codes := (st_codes s)(code := None), st_access_tokens := (st_access_tokens s)(mo_id m 0 \<mapsto>
             \<lparr>tr_username = ou_username user, tr_client_id = ac_client_id grant, tr_scope = ac_scope grant,
               tr_expires_at = mo_now m 1 + TOKEN_TTL_SECS\<rparr>)\<rparr>"
proof (cases "tf_grant_type form = Some ''authorization_code''")
  case False
  with assms show ?thesis by (intro same) (auto simp: token_def json_error_def answer_def)
next
  case grant: True
  have status: "rs_status reply \<noteq> 200" if "json_error n e = Some reply" and "n \<noteq> 200" for n e reply
    using that by (auto simp: json_error_def answer_def)
  show ?thesis
  proof (cases "\<exists>code client_id client. tf_code form = Some code \<and> token_client L authorization form = Some client_id
      \<and> find_client (as_config A) client_id = Some client \<and> st_codes s code \<noteq> None")
    case False
    then have "s' = s" "\<exists>n e. r = json_error n e \<and> n \<noteq> 200"
      using assms grant by (auto simp: token_def split: option.splits)
    with status show ?thesis by (intro same) auto
  next
    case True
    then obtain code client_id client g where
      f: "tf_code form = Some code" "token_client L authorization form = Some client_id"
        "find_client (as_config A) client_id = Some client" "st_codes s code = Some g" by auto
    note eq = assms [unfolded token_def Let_def f option.case]
    show ?thesis
    proof (cases "check_code L A (mo_now m 0) client_id form g")
      case (Inl e)
      with eq grant status show ?thesis by (intro spent [OF f(1,4)]) auto
    next
      case (Inr user)
      from check_code_client [OF Inr] have "client_id = ac_client_id g" by simp
      with eq grant Inr f show ?thesis
        by (intro redeemed [where user = user, OF f(4,1)]) (simp_all add: redeemed_def)
    qed
  qed
qed

lemma inv_authorize:
  assumes "store_inv L A tr s" and "authorize L A (in_moment i) (in_cookie i) q s = (r, s')" and "in_request i = GetAuthorize q"
  shows "store_inv L A ((i, r) # tr) s'"
  using assms(2)
proof (cases rule: authorize_cases)
  case same
  with assms(1) show ?thesis by (auto intro: store_inv_less)
next
  case (expired sid)
  with assms(1) show ?thesis by (auto intro!: store_inv_less simp: map_le_def)
next
  case (code client_id uri sid session)
  let ?code = "mo_id (in_moment i) 0"
  let ?grant = "code_for (mo_now (in_moment i) 1) (se_username session) client_id uri q"
  from assms(1) code(5) have "session_from L A tr sid session" by (simp add: store_inv_def)
  then obtain x past where "happened x past tr" "signed_in L A x sid session" by (auto simp: session_from_def)
  then have "granted_by_cookie L A (i, r) tr ?code ?grant"
    unfolding granted_by_cookie_def using code assms(3)
    by (intro exI [of _ q] exI [of _ sid] exI [of _ session] exI [of _ x] exI [of _ past])
      (auto simp: code_for_def dest: redirect_location)
  then have "granted L A (i, r) tr ?code ?grant" by (simp add: granted_def)
  from from_now(2) [OF this] assms(1) show ?thesis
    by (auto simp: store_inv_def code(9) issue_code_store)
qed

lemma inv_login:
  assumes "store_inv L A tr s" and "login L A (in_moment i) form s = (r, s')" and "in_request i = PostLogin form"
  shows "store_inv L A ((i, r) # tr) s'"
  using assms(2)
proof (cases rule: login_cases)
  case refused
  with assms(1) show ?thesis by (auto intro: store_inv_less)
next
  case code
  let ?m = "in_moment i"
  have "signed_in L A (i, r) (mo_id ?m 0) \<lparr>se_username = lf_username form, se_expires_at = mo_now ?m 0 + SESSION_TTL_SECS\<rparr>"
    unfolding signed_in_def using code assms(3) by (auto simp: with_cookie_Some)
  moreover have "granted L A (i, r) tr (mo_id ?m 1) (code_for (mo_now ?m 1) (lf_username form) (lf_client_id form)
      (lf_redirect_uri form) (login_query form))"
    unfolding granted_def granted_at_login_def using code assms(3)
    by (auto simp: with_cookie_Some dest: redirect_location)
  ultimately show ?thesis
    using assms(1) from_now(1,2) by (auto simp: store_inv_def code(4) issue_code_store)
qed

lemma inv_token:
  assumes "store_inv L A tr s" and "token L A (in_moment i) (in_authorization i) form s = (r, s')"
    and "in_request i = PostToken form"
  shows "store_inv L A ((i, r) # tr) s'"
  using assms(2)
proof (cases rule: token_cases [where cookie = "in_cookie i"])
  case same
  with assms(1) show ?thesis by (auto intro: store_inv_less)
next
  case (spent code grant)
  with assms(1) show ?thesis by (auto intro!: store_inv_less simp: map_le_def)
next
  case (redeemed code grant user)
  have "i = \<lparr>in_moment = in_moment i, in_cookie = in_cookie i, in_authorization = in_authorization i, in_request = PostToken form\<rparr>"
    using assms(3) by simp
  with redeemed(3) have "redeemed L A (i, r) code grant user (mo_id (in_moment i) 0)
      \<lparr>tr_username = ou_username user, tr_client_id = ac_client_id grant, tr_scope = ac_scope grant,
       tr_expires_at = mo_now (in_moment i) 1 + TOKEN_TTL_SECS\<rparr>" by simp
  moreover from assms(1) redeemed(1) have "code_from L A tr code grant" by (simp add: store_inv_def)
  ultimately show ?thesis
    using assms(1) from_now(3) by (auto simp: store_inv_def redeemed(4) split: if_splits)
qed

lemma inv_request:
  assumes "store_inv L A tr s" and "handle_request L A i s = (r, s')"
  shows "store_inv L A ((i, r) # tr) s'"
proof (cases "in_request i")
  case (GetAuthorize q)
  with assms inv_authorize show ?thesis by (simp add: handle_request_def)
next
  case (PostLogin form)
  with assms inv_login show ?thesis by (simp add: handle_request_def)
next
  case (PostToken form)
  with assms inv_token show ?thesis by (simp add: handle_request_def)
next
  case (GetEndSession q)
  with assms(2) have "s' = s \<or> (\<exists>sid. s' = s\<lparr>st_sessions := (st_sessions s)(sid := None)\<rparr>)"
    by (auto simp: handle_request_def end_session_def split: option.splits)
  with assms(1) show ?thesis by (auto intro!: store_inv_less simp: map_le_def)
qed (use assms in \<open>auto simp: handle_request_def intro: store_inv_less\<close>)

lemma serves_inv: "serves L A tr s \<Longrightarrow> store_inv L A tr s"
proof (induction rule: serves.induct)
  case start
  show ?case by (simp add: store_inv_def empty_store_def)
next
  case (request tr s i r s')
  then show ?case by (blast intro: inv_request)
qed

section \<open>What a response rests on\<close>

text \<open>Proof key for code exchange (RFC 7636): the verifier is the challenge, or its hash is.\<close>

definition pkce_holds :: "oidc_lib \<Rightarrow> auth_code \<Rightarrow> string option \<Rightarrow> bool" where
  "pkce_holds L grant verifier \<longleftrightarrow>
     (\<forall>challenge. ac_code_challenge grant = Some challenge \<longrightarrow>
        (\<exists>v. verifier = Some v
           \<and> (ac_code_challenge_method grant = Some ''S256'' \<and> challenge = ol_base64url L (ol_sha256 L v)
              \<or> ac_code_challenge_method grant \<in> {None, Some ''plain''} \<and> challenge = v)))"

lemma verify_pkce_iff: "verify_pkce L grant verifier = Inr () \<longleftrightarrow> pkce_holds L grant verifier"
  by (auto simp: verify_pkce_def pkce_holds_def Let_def split: option.splits)

lemma find_user_name: "find_user config username = Some user \<Longrightarrow> ou_username user = username"
  by (auto simp: find_user_def find_Some_iff)

lemma check_code_Inr:
  "check_code L A now client form grant = Inr user \<longleftrightarrow>
     now \<le> ac_expires_at grant \<and> ac_client_id grant = client
     \<and> (\<forall>uri. tf_redirect_uri form = Some uri \<longrightarrow> uri = ac_redirect_uri grant)
     \<and> pkce_holds L grant (tf_code_verifier form) \<and> find_user (as_config A) (ac_username grant) = Some user"
  unfolding verify_pkce_iff [symmetric]
  by (cases "verify_pkce L grant (tf_code_verifier form)")
    (auto simp: check_code_def not_less split: option.splits)

lemma token_ok:
  assumes "serves L A ((i, Some reply) # tr) s" and "in_request i = PostToken form" and "rs_status reply = 200"
  shows "\<exists>code grant user t tok. redeemed L A (i, Some reply) code grant user t tok \<and> code_from L A tr code grant"
proof -
  from assms(1) obtain s0 where s0: "serves L A tr s0" "handle_request L A i s0 = (Some reply, s)"
    by (auto elim: serves_ConsE)
  then have "token L A (in_moment i) (in_authorization i) form s0 = (Some reply, s)"
    using assms(2) by (simp add: handle_request_def)
  then show ?thesis
  proof (cases rule: token_cases [where cookie = "in_cookie i"])
    case (redeemed code grant user)
    have "i = \<lparr>in_moment = in_moment i, in_cookie = in_cookie i, in_authorization = in_authorization i, in_request = PostToken form\<rparr>"
      using assms(2) by simp
    moreover have "code_from L A tr code grant" using serves_inv [OF s0(1)] redeemed(1) by (simp add: store_inv_def)
    ultimately show ?thesis using redeemed(3) by metis
  qed (use assms(3) in auto)
qed

lemma userinfo_ok:
  assumes "userinfo L A m authorization s = Some reply" and "rs_status reply = 200"
  obtains t tok user where "authorization = Some (''Bearer '' @ t)" and "st_access_tokens s t = Some tok"
    and "mo_now m 0 \<le> tr_expires_at tok" and "find_user (as_config A) (tr_username tok) = Some user"
    and "rs_body reply = JsonBody (userinfo_body L user)"
  using assms unfolding userinfo_def
  by (auto simp: json_error_def answer_def strip_prefix_Some bind_eq_Some_conv not_less split: option.splits if_splits)

lemma userinfo_rests:
  assumes "serves L A ((i, Some reply) # tr) s" and "in_request i = GetUserinfo" and "rs_status reply = 200"
  shows "\<exists>x past code grant user t. in_authorization i = Some (''Bearer '' @ t) \<and> happened x past tr
    \<and> mo_now (in_moment i) 0 \<le> mo_now (in_moment (fst x)) 1 + TOKEN_TTL_SECS
    \<and> redeemed L A x code grant user t \<lparr>tr_username = ou_username user, tr_client_id = ac_client_id grant,
        tr_scope = ac_scope grant, tr_expires_at = mo_now (in_moment (fst x)) 1 + TOKEN_TTL_SECS\<rparr>
    \<and> code_from L A past code grant \<and> rs_body reply = JsonBody (userinfo_body L user)"
proof -
  from assms(1) obtain s0 where s0: "serves L A tr s0" "handle_request L A i s0 = (Some reply, s)"
    by (auto elim: serves_ConsE)
  then have "userinfo L A (in_moment i) (in_authorization i) s0 = Some reply"
    using assms(2) by (auto simp: handle_request_def)
  from userinfo_ok [OF this assms(3)] obtain t tok user where
    t: "in_authorization i = Some (''Bearer '' @ t)" "st_access_tokens s0 t = Some tok"
      "mo_now (in_moment i) 0 \<le> tr_expires_at tok" "find_user (as_config A) (tr_username tok) = Some user"
      "rs_body reply = JsonBody (userinfo_body L user)" by blast
  from serves_inv [OF s0(1)] t(2) have "token_from L A tr t tok" by (simp add: store_inv_def)
  then obtain x past code grant u where
    x: "happened x past tr" "redeemed L A x code grant u t tok" "code_from L A past code grant"
    by (auto simp: token_from_def)
  from x(2) have tok: "tok = \<lparr>tr_username = ou_username u, tr_client_id = ac_client_id grant,
      tr_scope = ac_scope grant, tr_expires_at = mo_now (in_moment (fst x)) 1 + TOKEN_TTL_SECS\<rparr>"
    and "find_user (as_config A) (ac_username grant) = Some u"
    by (auto simp: redeemed_def check_code_Inr)
  then have "find_user (as_config A) (ou_username u) = Some u" by (metis find_user_name)
  with t(4) tok have u: "u = user" by simp
  show ?thesis
    by (rule exI [of _ x], rule exI [of _ past], rule exI [of _ code], rule exI [of _ grant], rule exI [of _ user],
        rule exI [of _ t]) (use t x tok u in simp)
qed

section \<open>Fresh identifiers\<close>

definition drawn :: "exchange list \<Rightarrow> string list" where
  "drawn tr = concat (map (\<lambda>x. [mo_id (in_moment (fst x)) 0, mo_id (in_moment (fst x)) 1]) tr)"

lemma drawn_simps [simp]: "drawn [] = []"
  "drawn (x # tr) = mo_id (in_moment (fst x)) 0 # mo_id (in_moment (fst x)) 1 # drawn tr"
  "drawn (tr @ tr') = drawn tr @ drawn tr'"
  by (simp_all add: drawn_def)

text \<open>No request brings a session or a code back unless it draws its name.\<close>

lemma handle_absent:
  assumes "handle_request L A i s = (r, s')"
    and "k \<noteq> mo_id (in_moment i) 0" and "k \<noteq> mo_id (in_moment i) 1"
  shows "st_sessions s k = None \<Longrightarrow> st_sessions s' k = None" and "st_codes s k = None \<Longrightarrow> st_codes s' k = None"
proof -
  have "(st_sessions s k = None \<longrightarrow> st_sessions s' k = None) \<and> (st_codes s k = None \<longrightarrow> st_codes s' k = None)"
  proof (cases "in_request i")
    case (GetAuthorize q)
    then have "authorize L A (in_moment i) (in_cookie i) q s = (r, s')" using assms(1) by (simp add: handle_request_def)
    then show ?thesis by (cases rule: authorize_cases) (use assms(2,3) in \<open>auto simp: issue_code_store\<close>)
  next
    case (PostLogin form)
    then have "login L A (in_moment i) form s = (r, s')" using assms(1) by (simp add: handle_request_def)
    then show ?thesis by (cases rule: login_cases) (use assms(2,3) in \<open>auto simp: issue_code_store\<close>)
  next
    case (PostToken form)
    then have "token L A (in_moment i) (in_authorization i) form s = (r, s')" using assms(1) by (simp add: handle_request_def)
    then show ?thesis by (cases rule: token_cases) auto
  qed (use assms(1) in \<open>auto simp: handle_request_def end_session_def split: option.splits\<close>)
  then show "st_sessions s k = None \<Longrightarrow> st_sessions s' k = None" "st_codes s k = None \<Longrightarrow> st_codes s' k = None" by simp_all
qed

lemma serves_later:
  "serves L A (later @ tr) s \<Longrightarrow> \<exists>s0. serves L A tr s0
    \<and> (\<forall>k. k \<notin> set (drawn later) \<longrightarrow> (st_sessions s0 k = None \<longrightarrow> st_sessions s k = None)
           \<and> (st_codes s0 k = None \<longrightarrow> st_codes s k = None))"
proof (induction later arbitrary: s)
  case (Cons x later)
  obtain i r where x: "x = (i, r)" by (cases x)
  from Cons.prems obtain s1 where s1: "serves L A (later @ tr) s1" "handle_request L A i s1 = (r, s)"
    unfolding x by (auto elim: serves_ConsE)
  from Cons.IH [OF s1(1)] obtain s0 where "serves L A tr s0" "\<forall>k. k \<notin> set (drawn later) \<longrightarrow>
      (st_sessions s0 k = None \<longrightarrow> st_sessions s1 k = None) \<and> (st_codes s0 k = None \<longrightarrow> st_codes s1 k = None)" by blast
  with handle_absent [OF s1(2)] show ?case unfolding x by auto
qed auto

section \<open>Redirects\<close>

text \<open>The client, the redirect and the state a request names.\<close>

definition requested :: "oidc_request \<Rightarrow> (string option \<times> string option \<times> string option)" where
  "requested q = (case q of
      GetAuthorize q \<Rightarrow> (aq_client_id q, aq_redirect_uri q, aq_state q)
    | PostLogin form \<Rightarrow> (Some (lf_client_id form), Some (lf_redirect_uri form), lf_state form)
    | _ \<Rightarrow> (None, None, None))"

definition parameter_of :: "string \<Rightarrow> string list \<Rightarrow> string option" where
  "parameter_of name ps = map_option percent_decode (find_map (\<lambda>p. strip_prefix p (name @ ''='')) ps)"

lemma redirect_parameters_read:
  "parameter_of ''code'' (redirect_parameters code state) = Some code"
  "parameter_of ''state'' (redirect_parameters code state) = nonempty state"
  by (auto simp: parameter_of_def redirect_parameters_def strip_prefix_def starts_with_def percent_decode_encode
      split: option.splits)

lemma redirect_request:
  assumes "handle_request L A i s = (Some reply, s')" and "rs_status reply = 307" and "requested (in_request i) = (Some c, uri, st)"
  shows "\<exists>u code grant. uri = Some u \<and> registered A c u \<and> rs_location reply = Some (build_redirect u code st)
    \<and> st_codes s' code = Some grant \<and> ac_client_id grant = c \<and> ac_redirect_uri grant = u"
proof (cases "in_request i")
  case (GetAuthorize q)
  then have "authorize L A (in_moment i) (in_cookie i) q s = (Some reply, s')" using assms(1) by (simp add: handle_request_def)
  then show ?thesis
  proof (cases rule: authorize_cases)
    case (code client_id u sid session)
    then have "rs_location reply = Some (build_redirect u (mo_id (in_moment i) 0) (aq_state q))"
      by (auto dest: redirect_location [OF sym])
    with code show ?thesis
      using assms(3) GetAuthorize
      by (intro exI [of _ u] exI [of _ "mo_id (in_moment i) 0"]
          exI [of _ "code_for (mo_now (in_moment i) 1) (se_username session) client_id u q"])
        (simp add: requested_def issue_code_store, simp add: code_for_def)
  qed (use assms(2) in auto)
next
  case (PostLogin form)
  then have "login L A (in_moment i) form s = (Some reply, s')" using assms(1) by (simp add: handle_request_def)
  then show ?thesis
  proof (cases rule: login_cases)
    case code
    from code(3) have "rs_location reply = Some (build_redirect (lf_redirect_uri form) (mo_id (in_moment i) 1) (lf_state form))"
      by (auto simp: with_cookie_Some eq_commute [of "Some reply"] dest: redirect_location)
    with code(1,4) assms(3) PostLogin show ?thesis
      by (auto simp: requested_def issue_code_store code_for_def)
  qed (use assms(2) in auto)
qed (use assms(3) in \<open>simp_all add: requested_def\<close>)

section \<open>The whole flow\<close>

definition serve_all :: "oidc_lib \<Rightarrow> app_state \<Rightarrow> incoming list \<Rightarrow> oidc_store \<Rightarrow> oidc_store" where
  "serve_all L A is s = foldl (\<lambda>s i. snd (handle_request L A i s)) s is"

text \<open>The request neither redeems \<open>code\<close> nor draws it again.\<close>

definition leaves :: "string \<Rightarrow> incoming \<Rightarrow> bool" where
  "leaves code i \<longleftrightarrow> mo_id (in_moment i) 0 \<noteq> code \<and> mo_id (in_moment i) 1 \<noteq> code
     \<and> (case in_request i of PostToken form \<Rightarrow> tf_code form \<noteq> Some code | _ \<Rightarrow> True)"

lemma leaves_code:
  assumes "leaves code i"
  shows "st_codes (snd (handle_request L A i s)) code = st_codes s code"
proof -
  obtain r s' where h: "handle_request L A i s = (r, s')" by fastforce
  have "st_codes s' code = st_codes s code"
  proof (cases "in_request i")
    case (GetAuthorize q)
    then have "authorize L A (in_moment i) (in_cookie i) q s = (r, s')" using h by (simp add: handle_request_def)
    then show ?thesis by (cases rule: authorize_cases) (use assms in \<open>auto simp: issue_code_store leaves_def\<close>)
  next
    case (PostLogin form)
    then have "login L A (in_moment i) form s = (r, s')" using h by (simp add: handle_request_def)
    then show ?thesis by (cases rule: login_cases) (use assms in \<open>auto simp: issue_code_store leaves_def\<close>)
  next
    case (PostToken form)
    then have "token L A (in_moment i) (in_authorization i) form s = (r, s')" using h by (simp add: handle_request_def)
    then show ?thesis by (cases rule: token_cases) (use assms PostToken in \<open>auto simp: leaves_def\<close>)
  qed (use h in \<open>auto simp: handle_request_def end_session_def split: option.splits\<close>)
  with h show ?thesis by simp
qed

lemma serve_all_leaves: "list_all (leaves code) is \<Longrightarrow> st_codes (serve_all L A is s) code = st_codes s code"
  by (induction "is" arbitrary: s) (simp_all add: serve_all_def leaves_code)

section \<open>A sample server\<close>

definition sample_oidc :: oidc_lib where
  "sample_oidc = \<lparr>ol_sha256 = \<lambda>_. [], ol_base64url = \<lambda>_. [], ol_decode = \<lambda>_. None, ol_sign = \<lambda>_ _. Inr ''jwt'',
     ol_header = \<lambda>_. True\<rparr>"

definition sample_user :: oidc_user where
  "sample_user = \<lparr>ou_username = ''alice'', ou_email = ''alice@dev.local'', ou_claims = []\<rparr>"

definition sample_app :: app_state where
  "sample_app = \<lparr>as_config = \<lparr>op_issuer = ''http://idp'', op_listen = ''127.0.0.1:1'',
       op_clients = [\<lparr>oc_id = ''web'', oc_secret = ''s'', oc_redirect_uris = [''http://app/cb'']\<rparr>],
       op_users = [sample_user]\<rparr>, as_jwks = JNull, as_kid = ''k''\<rparr>"

definition sample_moment :: "string \<Rightarrow> string \<Rightarrow> moment" where
  "sample_moment a b = \<lparr>mo_now = \<lambda>_. 100, mo_id = \<lambda>k. if k = 0 then a else b\<rparr>"

definition sample_form :: login_form where
  "sample_form = \<lparr>lf_username = ''alice'', lf_client_id = ''web'', lf_redirect_uri = ''http://app/cb'', lf_scope = ''openid'',
     lf_state = Some ''x'', lf_nonce = None, lf_code_challenge = Some ''v'', lf_code_challenge_method = Some ''plain''\<rparr>"

definition sample_wanted :: token_form where
  "sample_wanted = \<lparr>tf_grant_type = Some ''authorization_code'', tf_code = Some ''c1'', tf_redirect_uri = None,
     tf_client_id = Some ''web'', tf_client_secret = None, tf_code_verifier = Some ''v''\<rparr>"

definition sample_login :: incoming where
  "sample_login = \<lparr>in_moment = sample_moment ''s1'' ''c1'', in_cookie = None, in_authorization = None,
     in_request = PostLogin sample_form\<rparr>"

definition sample_token :: "string \<Rightarrow> string \<Rightarrow> incoming" where
  "sample_token a b = \<lparr>in_moment = sample_moment a b, in_cookie = None, in_authorization = None,
     in_request = PostToken sample_wanted\<rparr>"

definition sample_userinfo :: incoming where
  "sample_userinfo = \<lparr>in_moment = sample_moment ''u1'' ''u2'', in_cookie = None, in_authorization = Some ''Bearer t1'',
     in_request = GetUserinfo\<rparr>"

definition sample_logout :: incoming where
  "sample_logout = \<lparr>in_moment = sample_moment ''l1'' ''l2'', in_cookie = Some ''vzctl_oidc_simple=s1'', in_authorization = None,
     in_request = GetEndSession \<lparr>eq_post_logout_redirect_uri = None, eq_client_id = None, eq_state = None\<rparr>\<rparr>"

definition sample_query :: authorize_query where
  "sample_query = login_query sample_form"

lemmas sample_server_defs = sample_oidc_def sample_user_def sample_app_def sample_moment_def sample_form_def sample_wanted_def
  sample_login_def sample_token_def sample_userinfo_def sample_logout_def sample_query_def

definition sample_grant :: auth_code where
  "sample_grant = code_for 100 ''alice'' ''web'' ''http://app/cb'' sample_query"

definition sample_signed_in :: oidc_store where
  "sample_signed_in = snd (handle_request sample_oidc sample_app sample_login empty_store)"

definition sample_redeemed :: oidc_store where
  "sample_redeemed = snd (handle_request sample_oidc sample_app (sample_token ''t1'' ''t2'') sample_signed_in)"

lemma sample_signed_in_fields:
  "st_codes sample_signed_in = [''c1'' \<mapsto> sample_grant]"
  "st_sessions sample_signed_in = [''s1'' \<mapsto> \<lparr>se_username = ''alice'', se_expires_at = 100 + SESSION_TTL_SECS\<rparr>]"
  by (simp_all add: sample_signed_in_def handle_request_def login_def Let_def sample_server_defs find_client_def find_user_def
      issue_code_store empty_store_def sample_grant_def)

lemma sample_login_run:
  "\<exists>reply. handle_request sample_oidc sample_app sample_login empty_store = (Some reply, sample_signed_in) \<and> rs_status reply = 307"
  by (simp add: sample_signed_in_def handle_request_def login_def Let_def sample_server_defs find_client_def find_user_def
      redirect_temporary_def with_cookie_def)

lemma sample_checked:
  "check_code sample_oidc sample_app 100 ''web'' sample_wanted sample_grant = Inr sample_user"
  by (simp add: check_code_Inr sample_server_defs sample_grant_def code_for_def login_query_def nonempty_def pkce_holds_def
      find_user_def CODE_TTL_SECS_def)

lemma sample_token_run:
  "\<exists>reply. handle_request sample_oidc sample_app (sample_token ''t1'' ''t2'') sample_signed_in = (Some reply, sample_redeemed)
     \<and> rs_status reply = 200"
  "st_codes sample_redeemed = Map.empty"
  "st_access_tokens sample_redeemed ''t1'' = Some \<lparr>tr_username = ''alice'', tr_client_id = ''web'', tr_scope = ac_scope sample_grant,
     tr_expires_at = 100 + TOKEN_TTL_SECS\<rparr>"
proof -
  have fields: "in_request (sample_token a b) = PostToken sample_wanted" "in_authorization (sample_token a b) = None"
    "mo_now (in_moment (sample_token a b)) = (\<lambda>_. 100)" "mo_id (in_moment (sample_token a b)) 0 = a" for a b
    by (simp_all add: sample_token_def sample_moment_def)
  have form: "tf_grant_type sample_wanted = Some ''authorization_code''" "tf_code sample_wanted = Some ''c1''"
    "token_client sample_oidc None sample_wanted = Some ''web''" "\<exists>client. find_client (as_config sample_app) ''web'' = Some client"
    "\<And>k c. ol_sign sample_oidc k c = Inr ''jwt''" "ou_username sample_user = ''alice''"
    by (simp_all add: sample_server_defs token_client_def find_client_def)
  from form(4) obtain client where "find_client (as_config sample_app) ''web'' = Some client" by blast
  note run = this form fields sample_checked sample_signed_in_fields(1)
  show "\<exists>reply. handle_request sample_oidc sample_app (sample_token ''t1'' ''t2'') sample_signed_in = (Some reply, sample_redeemed)
     \<and> rs_status reply = 200" "st_codes sample_redeemed = Map.empty"
    "st_access_tokens sample_redeemed ''t1'' = Some \<lparr>tr_username = ''alice'', tr_client_id = ''web'', tr_scope = ac_scope sample_grant,
     tr_expires_at = 100 + TOKEN_TTL_SECS\<rparr>"
    by (simp_all add: sample_redeemed_def handle_request_def token_def Let_def run token_response_def answer_def)
qed

lemma serves_sample:
  "\<exists>r1 r2. serves sample_oidc sample_app [(sample_token ''t1'' ''t2'', Some r2), (sample_login, Some r1)] sample_redeemed
     \<and> rs_status r2 = 200"
  using sample_login_run sample_token_run(1) by (metis serves.start serves.request)

text \<open>C13: every token rests on a login. A token request that succeeds names a code that an earlier exchange gave out, at
  the login of a configured user or to the cookie of such a login, by a redirect to a registered address of the same
  client; the code is at most five minutes old, its redirect and its challenge match, and the signed token has that
  user, client and nonce.\<close>

theorem token_rests_on_login:
  assumes "serves L A ((i, Some reply) # tr) s" and "in_request i = PostToken form" and "rs_status reply = 200"
  shows "\<exists>code grant user x past id_token. tf_code form = Some code
    \<and> happened x past tr \<and> granted L A x past code grant \<and> mo_now (in_moment i) 0 \<le> ac_expires_at grant
    \<and> token_client L (in_authorization i) form = Some (ac_client_id grant)
    \<and> (\<forall>uri. tf_redirect_uri form = Some uri \<longrightarrow> uri = ac_redirect_uri grant)
    \<and> pkce_holds L grant (tf_code_verifier form)
    \<and> find_user (as_config A) (ac_username grant) = Some user
    \<and> ol_sign L (as_kid A) (id_token_claims L A user (ac_client_id grant) (ac_nonce grant) (mo_now (in_moment i) 2)) = Inr id_token
    \<and> Some reply = token_response (mo_id (in_moment i) 0) id_token (ac_scope grant)"
proof -
  from token_ok [OF assms] obtain code grant user t tok where
    r: "redeemed L A (i, Some reply) code grant user t tok" and g: "code_from L A tr code grant" by blast
  from g obtain x past where x: "happened x past tr" "granted L A x past code grant" by (auto simp: code_from_def)
  have "\<exists>id_token. ol_sign L (as_kid A) (id_token_claims L A user (ac_client_id grant) (ac_nonce grant)
      (mo_now (in_moment i) 2)) = Inr id_token \<and> Some reply = token_response (mo_id (in_moment i) 0) id_token (ac_scope grant)"
    using r assms(3) by (auto simp: redeemed_def answer_def split: sum.splits)
  then obtain id_token where "ol_sign L (as_kid A) (id_token_claims L A user (ac_client_id grant) (ac_nonce grant)
      (mo_now (in_moment i) 2)) = Inr id_token" "Some reply = token_response (mo_id (in_moment i) 0) id_token (ac_scope grant)"
    by blast
  moreover have "tf_code form = Some code" "token_client L (in_authorization i) form = Some (ac_client_id grant)"
    and "check_code L A (mo_now (in_moment i) 0) (ac_client_id grant) form grant = Inr user"
    using r assms(2) by (auto simp: redeemed_def)
  ultimately show ?thesis using x unfolding check_code_Inr by blast
qed

theorem token_rests_on_login_witness:
  "\<exists>r1 r2. serves sample_oidc sample_app [(sample_token ''t1'' ''t2'', Some r2), (sample_login, Some r1)] sample_redeemed
    \<and> (\<exists>id_token scope. Some r2 = token_response ''t1'' id_token scope)"
proof -
  from serves_sample obtain r1 r2 where
    run: "serves sample_oidc sample_app [(sample_token ''t1'' ''t2'', Some r2), (sample_login, Some r1)] sample_redeemed"
      "rs_status r2 = 200" by blast
  have "in_request (sample_token ''t1'' ''t2'') = PostToken sample_wanted" "mo_id (in_moment (sample_token ''t1'' ''t2'')) 0 = ''t1''"
    by (simp_all add: sample_token_def sample_moment_def)
  with token_rests_on_login [OF run(1) _ run(2)] run(1) show ?thesis by metis
qed

text \<open>C14: a code is redeemed at most once. When the identifiers the server draws are distinct, a token request that
  names a code with which an earlier request has succeeded fails.\<close>

theorem code_redeemed_once:
  assumes "serves L A ((i, Some reply) # tr) s" and "distinct (drawn tr)"
    and "happened (j, Some earlier) past tr" and "in_request j = PostToken form" and "rs_status earlier = 200"
    and "in_request i = PostToken again" and "tf_code again = tf_code form"
  shows "rs_status reply \<noteq> 200"
proof
  assume ok: "rs_status reply = 200"
  from assms(3) obtain later where tr: "tr = later @ (j, Some earlier) # past" by (auto simp: happened_def)
  from assms(1) obtain s0 where s0: "serves L A tr s0" "handle_request L A i s0 = (Some reply, s)"
    by (auto elim: serves_ConsE)
  from serves_later [OF s0(1) [unfolded tr]] obtain s1 where
    s1: "serves L A ((j, Some earlier) # past) s1"
      "\<forall>k. k \<notin> set (drawn later) \<longrightarrow> st_codes s1 k = None \<longrightarrow> st_codes s0 k = None" by blast
  from s1(1) obtain s2 where s2: "serves L A past s2" "handle_request L A j s2 = (Some earlier, s1)"
    by (auto elim: serves_ConsE)
  then have t2: "token L A (in_moment j) (in_authorization j) form s2 = (Some earlier, s1)"
    using assms(4) by (simp add: handle_request_def)
  from t2 obtain code where code: "tf_code form = Some code" "st_codes s1 code = None" "code \<in> set (drawn past)"
  proof (cases rule: token_cases [where cookie = None])
    case (redeemed code grant user)
    from serves_inv [OF s2(1)] redeemed(1) have "code_from L A past code grant" by (simp add: store_inv_def)
    then obtain x before where
      "happened x before past" "granted L A x before code grant" unfolding code_from_def by blast
    then have "code \<in> set (drawn past)"
      by (auto simp: happened_def granted_def granted_at_login_def granted_by_cookie_def)
    with redeemed that show ?thesis by simp
  qed (use assms(5) in auto)
  from code(3) assms(2) have "code \<notin> set (drawn later)" by (auto simp: tr)
  with s1(2) code(2) have none: "st_codes s0 code = None" by blast
  have "token L A (in_moment i) (in_authorization i) again s0 = (Some reply, s)"
    using s0(2) assms(6) by (simp add: handle_request_def)
  then show False
    by (cases rule: token_cases) (use ok none code(1) assms(7) in auto)
qed

theorem code_redeemed_once_witness:
  "\<exists>r1 r2 r3 s. serves sample_oidc sample_app [(sample_token ''t3'' ''t4'', Some r3), (sample_token ''t1'' ''t2'', Some r2),
      (sample_login, Some r1)] s \<and> rs_status r2 = 200 \<and> rs_status r3 \<noteq> 200"
proof -
  from serves_sample obtain r1 r2 where
    run: "serves sample_oidc sample_app [(sample_token ''t1'' ''t2'', Some r2), (sample_login, Some r1)] sample_redeemed"
      "rs_status r2 = 200" by blast
  have form: "in_request (sample_token a b) = PostToken sample_wanted" for a b by (simp add: sample_token_def)
  have "\<exists>r3 s. handle_request sample_oidc sample_app (sample_token ''t3'' ''t4'') sample_redeemed = (Some r3, s)"
    by (simp add: handle_request_def form token_def sample_token_run(2) json_error_def answer_def split: option.splits)
  with run(1) obtain r3 s where again: "serves sample_oidc sample_app [(sample_token ''t3'' ''t4'', Some r3),
      (sample_token ''t1'' ''t2'', Some r2), (sample_login, Some r1)] s" by (blast intro: serves.request)
  have "distinct (drawn [(sample_token ''t1'' ''t2'', Some r2), (sample_login, Some r1)])"
    by (simp add: sample_token_def sample_login_def sample_moment_def)
  moreover have "happened (sample_token ''t1'' ''t2'', Some r2) [(sample_login, Some r1)]
      [(sample_token ''t1'' ''t2'', Some r2), (sample_login, Some r1)]" by (simp add: happened_Cons)
  ultimately show ?thesis
    using code_redeemed_once [OF again _ _ form run(2) form] again run(2) by blast
qed

text \<open>C15: user information is given only to the bearer of a token that an earlier request was given for that user, at
  most an hour ago, with a code that was granted before.\<close>

theorem userinfo_rests_on_token:
  assumes "serves L A ((i, Some reply) # tr) s" and "in_request i = GetUserinfo" and "rs_status reply = 200"
  shows "\<exists>x past code grant user t. in_authorization i = Some (''Bearer '' @ t) \<and> happened x past tr
    \<and> mo_now (in_moment i) 0 \<le> mo_now (in_moment (fst x)) 1 + TOKEN_TTL_SECS
    \<and> redeemed L A x code grant user t \<lparr>tr_username = ou_username user, tr_client_id = ac_client_id grant,
        tr_scope = ac_scope grant, tr_expires_at = mo_now (in_moment (fst x)) 1 + TOKEN_TTL_SECS\<rparr>
    \<and> code_from L A past code grant \<and> rs_body reply = JsonBody (userinfo_body L user)"
  using assms by (rule userinfo_rests)

theorem userinfo_rests_on_token_witness:
  "\<exists>r1 r2 r3 s. serves sample_oidc sample_app [(sample_userinfo, Some r3), (sample_token ''t1'' ''t2'', Some r2),
      (sample_login, Some r1)] s \<and> (\<exists>user. rs_body r3 = JsonBody (userinfo_body sample_oidc user))"
proof -
  from serves_sample obtain r1 r2 where
    run: "serves sample_oidc sample_app [(sample_token ''t1'' ''t2'', Some r2), (sample_login, Some r1)] sample_redeemed" by blast
  have request: "in_request sample_userinfo = GetUserinfo" by (simp add: sample_userinfo_def)
  have "find_user (as_config sample_app) ''alice'' = Some sample_user" by (simp add: find_user_def sample_app_def sample_user_def)
  then have "\<exists>r3 s. handle_request sample_oidc sample_app sample_userinfo sample_redeemed = (Some r3, s) \<and> rs_status r3 = 200"
    by (simp add: handle_request_def userinfo_def sample_userinfo_def sample_moment_def strip_prefix_def starts_with_def
        sample_token_run(3) TOKEN_TTL_SECS_def answer_def)
  then obtain r3 s where r3: "handle_request sample_oidc sample_app sample_userinfo sample_redeemed = (Some r3, s)" "rs_status r3 = 200"
    by blast
  from userinfo_rests_on_token [OF serves.request [OF run r3(1)] request r3(2)] serves.request [OF run r3(1)]
  show ?thesis by blast
qed

text \<open>C16: a login or an authorization redirects only to an address that is registered for the client it names, and the
  client reads there, behind the parameters of its address, a code the store now has for it, and the state it sent.\<close>

theorem redirects_are_registered:
  assumes "handle_request L A i s = (Some reply, s')" and "rs_status reply = 307" and "requested (in_request i) = (Some c, uri, st)"
  shows "\<exists>u code grant location ps. uri = Some u \<and> registered A c u \<and> rs_location reply = Some location
    \<and> st_codes s' code = Some grant \<and> ac_client_id grant = c \<and> ac_redirect_uri grant = u
    \<and> starts_with location u \<and> query_parameters location = query_parameters u @ ps
    \<and> parameter_of ''code'' ps = Some code \<and> parameter_of ''state'' ps = nonempty st"
proof -
  from redirect_request [OF assms] obtain u code grant where
    "uri = Some u" "registered A c u" "rs_location reply = Some (build_redirect u code st)" "st_codes s' code = Some grant"
    "ac_client_id grant = c" "ac_redirect_uri grant = u" by blast
  moreover have "starts_with (build_redirect u code st) u" by (simp add: build_redirect_def)
  ultimately show ?thesis
    by (intro exI [of _ u] exI [of _ code] exI [of _ grant] exI [of _ "build_redirect u code st"]
        exI [of _ "redirect_parameters code st"])
      (simp add: query_parameters_redirect redirect_parameters_read)
qed

theorem redirects_are_registered_witness:
  "\<exists>reply location. fst (handle_request sample_oidc sample_app sample_login empty_store) = Some reply
    \<and> rs_location reply = Some location \<and> starts_with location ''http://app/cb''"
proof -
  from sample_login_run obtain reply where
    run: "handle_request sample_oidc sample_app sample_login empty_store = (Some reply, sample_signed_in)" "rs_status reply = 307"
    by blast
  have "requested (in_request sample_login) = (Some ''web'', Some ''http://app/cb'', Some ''x'')"
    by (simp add: sample_login_def sample_form_def requested_def)
  from redirects_are_registered [OF run this] run(1) show ?thesis by auto
qed

text \<open>C17: after a logout the cookie of the session is worth nothing: as long as its identifier is not drawn again, no
  authorization with it redirects.\<close>

theorem logout_ends_session:
  assumes "serves L A tr s" and "tr = later @ (i, r) # past" and "in_request i = GetEndSession q"
    and "parse_cookie (in_cookie i) SESSION_COOKIE = Some sid" and "sid \<notin> set (drawn later)"
    and "parse_cookie cookie SESSION_COOKIE = Some sid" and "authorize L A m cookie query s = (Some reply, s')"
  shows "rs_status reply \<noteq> 307"
proof -
  from serves_later [OF assms(1) [unfolded assms(2)]] obtain s1 where
    s1: "serves L A ((i, r) # past) s1" "st_sessions s1 sid = None \<longrightarrow> st_sessions s sid = None"
    using assms(5) by blast
  from s1(1) obtain s2 where "handle_request L A i s2 = (r, s1)" by (auto elim: serves_ConsE)
  then have "st_sessions s1 sid = None" using assms(3,4) by (auto simp: handle_request_def end_session_def)
  with s1(2) have none: "st_sessions s sid = None" by blast
  from assms(7) show ?thesis by (cases rule: authorize_cases) (use none assms(6) in auto)
qed

theorem logout_ends_session_witness:
  "\<exists>r1 r2 s reply. serves sample_oidc sample_app [(sample_logout, r2), (sample_login, Some r1)] s
    \<and> fst (authorize sample_oidc sample_app (sample_moment ''a1'' ''a2'') (in_cookie sample_logout) sample_query s) = Some reply
    \<and> rs_status reply \<noteq> 307"
proof -
  from sample_login_run obtain r1 where
    "handle_request sample_oidc sample_app sample_login empty_store = (Some r1, sample_signed_in)" by blast
  from serves.request [OF serves.start this] have
    "serves sample_oidc sample_app [(sample_login, Some r1)] sample_signed_in" .
  moreover obtain r2 s where logout: "handle_request sample_oidc sample_app sample_logout sample_signed_in = (r2, s)" by fastforce
  ultimately have tr: "serves sample_oidc sample_app [(sample_logout, r2), (sample_login, Some r1)] s" by (rule serves.request)
  have cookie: "parse_cookie (in_cookie sample_logout) SESSION_COOKIE = Some ''s1''"
    by (simp add: sample_logout_def parse_cookie_def SESSION_COOKIE_def trim_def is_whitespace_def whitespace_chars_def
        is_continuation_def strip_prefix_def starts_with_def)
  have "st_sessions s ''s1'' = None"
    using logout cookie by (auto simp: handle_request_def end_session_def sample_logout_def)
  then have "\<exists>reply s'. authorize sample_oidc sample_app (sample_moment ''a1'' ''a2'') (in_cookie sample_logout) sample_query s = (Some reply, s')"
    unfolding authorize_def cookie
    by (simp add: Let_def answer_def bad_request_def split: option.splits)
  then obtain reply s' where
    "authorize sample_oidc sample_app (sample_moment ''a1'' ''a2'') (in_cookie sample_logout) sample_query s = (Some reply, s')" by blast
  moreover from logout_ends_session [OF tr _ _ cookie _ cookie this, of "[]"] have "rs_status reply \<noteq> 307"
    by (simp add: sample_logout_def)
  ultimately show ?thesis using tr by (metis fst_conv)
qed

text \<open>C18: the flow succeeds. Whatever the store and whatever is requested in between, short of the code itself, the code
  of a login can be redeemed for five minutes by its client with the right verifier, for a token that gives the
  information of the user for an hour.\<close>

theorem login_flow_succeeds:
  assumes "registered A (lf_client_id form) (lf_redirect_uri form)"
    and "find_user (as_config A) (lf_username form) = Some user"
    and "grant = code_for (mo_now m 1) (lf_username form) (lf_client_id form) (lf_redirect_uri form) (login_query form)"
    and "list_all (leaves (mo_id m 1)) between"
    and "tf_grant_type wanted = Some ''authorization_code''" and "tf_code wanted = Some (mo_id m 1)"
    and "tf_client_id wanted = Some (lf_client_id form)" and "tf_redirect_uri wanted \<in> {None, Some (lf_redirect_uri form)}"
    and "pkce_holds L grant (tf_code_verifier wanted)" and "mo_now n 0 \<le> mo_now m 1 + CODE_TTL_SECS"
    and "ol_sign L (as_kid A) (id_token_claims L A user (lf_client_id form) (ac_nonce grant) (mo_now n 2)) = Inr id_token"
    and "mo_now k 0 \<le> mo_now n 1 + TOKEN_TTL_SECS"
  shows "\<exists>s'. token L A n authorization wanted (serve_all L A between (snd (login L A m form s)))
      = (token_response (mo_id n 0) id_token (lf_scope form), s')
    \<and> userinfo L A k (Some (''Bearer '' @ mo_id n 0)) s' = answer 200 (JsonBody (userinfo_body L user))"
proof -
  let ?s = "serve_all L A between (snd (login L A m form s))"
  from assms(1) obtain client where client: "find_client (as_config A) (lf_client_id form) = Some client"
    "lf_redirect_uri form \<in> set (oc_redirect_uris client)" by (auto simp: registered_def)
  have "st_codes (snd (login L A m form s)) (mo_id m 1) = Some grant"
    using client assms(2) by (simp add: login_def Let_def issue_code_store assms(3))
  with serve_all_leaves [OF assms(4)] have code: "st_codes ?s (mo_id m 1) = Some grant" by simp
  have grant: "ac_client_id grant = lf_client_id form" "ac_redirect_uri grant = lf_redirect_uri form"
    "ac_username grant = lf_username form" "ac_scope grant = lf_scope form" "ac_expires_at grant = mo_now m 1 + CODE_TTL_SECS"
    by (simp_all add: assms(3) code_for_def login_query_def)
  have checked: "check_code L A (mo_now n 0) (lf_client_id form) wanted grant = Inr user"
    unfolding check_code_Inr using assms(2,8,9,10) grant by auto
  have name: "find_user (as_config A) (ou_username user) = Some user"
    using assms(2) find_user_name by metis
  have found: "token_client L authorization wanted = Some (lf_client_id form)" using assms(7) by (simp add: token_client_def)
  have bearer: "strip_prefix (''Bearer '' @ mo_id n 0) ''Bearer '' = Some (mo_id n 0)" by (simp add: strip_prefix_Some)
  let ?s' = "snd (token L A n authorization wanted ?s)"
  have "token L A n authorization wanted ?s = (token_response (mo_id n 0) id_token (lf_scope form), ?s')
    \<and> st_access_tokens ?s' (mo_id n 0) = Some \<lparr>tr_username = ou_username user, tr_client_id = lf_client_id form,
        tr_scope = lf_scope form, tr_expires_at = mo_now n 1 + TOKEN_TTL_SECS\<rparr>"
    using assms(5,6,11) code checked found client(1) grant(4) by (simp add: token_def Let_def)
  moreover from this have "userinfo L A k (Some (''Bearer '' @ mo_id n 0)) ?s' = answer 200 (JsonBody (userinfo_body L user))"
    using assms(12) name by (simp only: userinfo_def bind.bind_lunit bearer option.case token_record.simps not_less if_False
        split: if_splits) (auto simp: not_less)
  ultimately show ?thesis by blast
qed

theorem login_flow_succeeds_witness:
  "\<exists>s'. token sample_oidc sample_app (sample_moment ''t1'' ''t2'') None sample_wanted
      (serve_all sample_oidc sample_app [sample_userinfo] (snd (login sample_oidc sample_app (sample_moment ''s1'' ''c1'') sample_form empty_store)))
    = (token_response ''t1'' ''jwt'' ''openid'', s')"
proof -
  let ?m = "sample_moment ''s1'' ''c1''" and ?n = "sample_moment ''t1'' ''t2''"
  have "registered sample_app (lf_client_id sample_form) (lf_redirect_uri sample_form)"
    and user: "find_user (as_config sample_app) (lf_username sample_form) = Some sample_user"
    by (simp_all add: registered_def find_client_def find_user_def sample_server_defs)
  moreover have "list_all (leaves (mo_id ?m 1)) [sample_userinfo]"
    by (simp add: leaves_def sample_userinfo_def sample_moment_def)
  moreover have "pkce_holds sample_oidc (code_for (mo_now ?m 1) (lf_username sample_form) (lf_client_id sample_form)
      (lf_redirect_uri sample_form) (login_query sample_form)) (tf_code_verifier sample_wanted)"
    by (simp add: pkce_holds_def code_for_def sample_server_defs login_query_def nonempty_def)
  moreover have "\<And>k c. ol_sign sample_oidc k c = Inr ''jwt''" by (simp add: sample_oidc_def)
  moreover have "mo_now ?n 0 \<le> mo_now ?m 1 + CODE_TTL_SECS" "mo_now ?n 0 \<le> mo_now ?n 1 + TOKEN_TTL_SECS"
    by (simp_all add: sample_moment_def CODE_TTL_SECS_def TOKEN_TTL_SECS_def)
  moreover have "tf_grant_type sample_wanted = Some ''authorization_code''" "tf_code sample_wanted = Some (mo_id ?m 1)"
    "tf_client_id sample_wanted = Some (lf_client_id sample_form)"
    "tf_redirect_uri sample_wanted \<in> {None, Some (lf_redirect_uri sample_form)}"
    by (simp_all add: sample_wanted_def sample_moment_def sample_form_def)
  ultimately have "\<exists>s'. token sample_oidc sample_app ?n None sample_wanted
      (serve_all sample_oidc sample_app [sample_userinfo] (snd (login sample_oidc sample_app ?m sample_form empty_store)))
    = (token_response (mo_id ?n 0) ''jwt'' (lf_scope sample_form), s')"
    using login_flow_succeeds [OF _ user refl, of ?m "[sample_userinfo]" sample_wanted sample_oidc ?n "''jwt''" ?n None empty_store]
    by blast
  then show ?thesis by (simp add: sample_moment_def sample_form_def)
qed

section \<open>Observations\<close>

text \<open>A claim \<open>sub\<close> in the configuration of a user replaces the subject in the user information; the identity token still
  has the subject of the provider.\<close>

lemma claim_replaces_subject:
  "ou_claims user = [(''sub'', v)] \<Longrightarrow> json_get (userinfo_body L user) ''sub'' = v"
  by (simp add: userinfo_body_def json_get_obj)

text \<open>A logout to an address that is no header value ends in a panic instead of a response.\<close>

lemma logout_without_response:
  "logout_target q = Some target \<Longrightarrow> \<not> ol_header L target \<Longrightarrow> fst (end_session L cookie q s) = None"
  by (simp add: end_session_def redirect_temporary_def with_cookie_def)

end
