(* ===== verification/Spec2Isabelle.thy ===== *)
theory Spec2Isabelle
  imports Validate Services Kubernetes Manifests Names Issues Ports Deps Memory Edit Plan Rpc Network Reconcile Dns Migration KubeApply KubeResolver Shell KubeEnsure ImageTags OidcFlow
begin

text \<open>
  A model of \<open>vzctl\<close>, the command that runs stacks of virtual machines on macOS from one declarative file
  (\<open>hypernetwork.config.yaml\<close>). All paths below are relative to \<open>src/crates/vzctl/src/\<close>.

  \<^bold>\<open>The program.\<close> \<open>config.rs\<close> reads a file: YAML, a JSON schema, deserialisation, then a semantic validation of
  several passes that reports issues with JSON paths. \<open>reconciler.rs\<close> takes an accepted environment, computes the
  resources it declares, compares them with the recorded ones into a plan (\<open>reconciler/plan.rs\<close>), and executes the
  plan as a journal of steps. The steps talk to a supervisor process over a socket (\<open>reconciler/io.rs\<close>); those
  about networks are \<open>reconciler/network.rs\<close>. \<open>dns.rs\<close> has a DNS client of its own and computes the reverse zones
  of the networks. \<open>image.rs\<close> keeps a store of disk images: it pulls them from a catalog of distributions, normalises
  them to raw objects named after their digest, and records baked and sealed variants per tag in manifests; the image step
  of the reconciler fills it. Everything else starts processes, moves files or prints.

  \<^bold>\<open>Theories and sources.\<close> Definitions have the names of the functions and types they model. A loop body or a phase
  of a long function that has a definition of its own is named after what it does.

  \<^item> \<open>Prelude\<close> (results, binding, \<open>emit\<close>), \<open>RustStr\<close> (strings as bytes), \<open>RustNum\<close> (machine integers, addresses,
    parsing and printing), \<open>OrdMap\<close> (\<open>BTreeMap\<close>, with the locale \<open>ordered_map\<close> and its interpretation):
    the part of the standard library the source uses. \<open>Ipnet\<close>: the interface of the crate \<open>ipnet\<close>. \<open>Samples\<close>: the
    environment the theorems are applied to.
  \<^item> \<open>ConfigTypes\<close>: the structs and enums of \<open>config.rs\<close>, \<open>kubernetes.rs\<close> and \<open>controllers/config.rs\<close>.
  \<^item> \<open>Names\<close>, \<open>Issues\<close>, \<open>Ports\<close>, \<open>Memory\<close>: the grammars and checks that the passes share: name predicates,
    runtime identifiers and project names; issues and their order; port forwards, publishes, volumes and
    upstreams; memory sizes (\<open>vm_create.rs\<close>) and the advisory budget (\<open>resource_budget.rs\<close>).
  \<^item> \<open>Deps\<close>: \<open>detect_dependency_cycles\<close> (\<open>config.rs\<close>) and \<open>dependency_order\<close> (\<open>reconciler/plan.rs\<close>), both
    instances of a depth-first search whose invariant is the locale \<open>settling\<close>.
  \<^item> \<open>ValidateNet\<close>, \<open>ValidateVm\<close>, \<open>ValidateEdge\<close>, \<open>Kubernetes\<close>, \<open>Services\<close>: the passes of \<open>validate_references\<close>,
    \<open>kubernetes.rs\<close> and \<open>controllers/validation.rs\<close>. \<open>Validate\<close> composes them, in the order of the code, to
    \<open>validate_references\<close> and \<open>validate_source_with_base\<close>.
  \<^item> \<open>Manifests\<close>: \<open>kubernetes/manifests.rs\<close>.
  \<^item> \<open>Edit\<close>: the operations of \<open>config.rs\<close> that change an environment, \<open>serialize_environment_yaml\<close> and
    \<open>write_environment_atomic\<close>.
  \<^item> \<open>Plan\<close>: \<open>desired_resources\<close>, \<open>append_input_resources\<close>, \<open>build_plan\<close>, \<open>final_resources\<close>.
  \<^item> \<open>Rpc\<close>: an operation with effects is a function from a session (the state of the world and the log of the
    calls made so far) to a result and a session; requests, responses, checkpoints and \<open>rpc_retrying\<close>.
  \<^item> \<open>Network\<close>: \<open>validate_network_ownership\<close>, \<open>ensure_networks\<close>, \<open>ensure_attachments\<close>, pruning, detaching, ports.
  \<^item> \<open>Reconcile\<close>: \<open>execute_step\<close>, \<open>run\<close> with its journal, resume, lease and confirmation.
  \<^item> \<open>Dns\<close>: names, queries, responses and reverse zones of \<open>dns.rs\<close>.
  \<^item> \<open>ManagedFields\<close>: \<open>kubernetes/managed_fields.rs\<close>, the migration of field ownership of a Kubernetes object.
    \<open>FieldSets\<close> proves that its field sets behave as sets of paths; \<open>Migration\<close> has the reference for JSON Patch
    (RFC 6902) and the theorems of the migration.
  \<^item> \<open>Kubectl\<close>: operations that call \<open>kubectl\<close>, over a session with the log of the calls, and the locale
    \<open>call_policy\<close> of the logs an operation keeps to. \<open>KubeApply\<close>: \<open>apply_owned_object\<close> of \<open>kubernetes/controller.rs\<close>
    with the policy it follows, an interpretation of that locale. \<open>KubeResolver\<close>: \<open>kubernetes/resolver.rs\<close>, with
    another policy for its rollout.
  \<^item> \<open>Shell\<close>: quoting, how a shell reads the words of a command, and the script of \<open>run_self_elevated\<close>
    (\<open>reconciler/io.rs\<close>). \<open>Guest\<close>: commands in a guest (\<open>vm/rpc.rs\<close>, \<open>Guest\<close>).
    \<open>KubeNodes\<close>: \<open>ensure\<close> of \<open>kubernetes/controller.rs\<close>, which installs the nodes and calls the operations above through
    a guest. \<open>KubeEnsure\<close> shows the order it keeps.
  \<^item> \<open>Images\<close>: the catalog of \<open>image.rs\<close>, aliases and tags, the paths a manifest may name, digests in checksum files,
    and \<open>resolve_source\<close>. \<open>ImageStore\<close>: operations on the disk of the store, the lookups (\<open>resolve_alias_tag\<close>,
    \<open>resolve_alias_for_vm\<close>), \<open>list\<close>, \<open>normalize\<close> and \<open>pull_with\<close>. \<open>ImageTags\<close>: preparing and recording baked and sealed
    images, \<open>ensure_images_from_cache\<close> (\<open>reconciler/vm.rs\<close>), and \<open>store_step\<close>, the commands as steps of a store.
  \<^item> \<open>Oidc\<close>: the identity provider \<open>src/crates/vzctl-oidc-simple\<close>, a program of its own that a stack runs for its login:
    its store of sessions, codes and tokens, every handler of \<open>server.rs\<close>, and its pages. \<open>OidcFlow\<close> has the traces of a server (\<open>serves\<close>) and the invariant
    that ties every session, code and token to the exchange it comes from.

  \<^bold>\<open>What the theorems show.\<close> Validation: \<open>validate_source_with_base\<close> succeeds exactly when the document satisfies a
  declarative contract (\<open>env_accepted\<close>), and that contract gives the facts the rest of the program relies on: no
  address is assigned twice, every address is a usable host of its network, routers are attached to what
  they join, docker networks have one owner, pod and service ranges are exclusive, claims do not collide, and the
  VMs have a start order. Edit: writing either replaces the file by its validated text or leaves it, additions are
  undone by removals, the proposed address is the first free one. Plan: for each command, when its plan is
  empty, the state recorded by a run needs no further action, and destruction is marked as breaking. Rpc and
  Network: whatever the supervisor answers, only resources of the stack are deleted or detached, and when an
  operation returns, what was declared is there or has been requested. Reconcile: steps are marked in order, a
  state is committed only after all of them, in a session in which the configuration still has the hash the run began
  with, and breaking changes that are not confirmed change nothing and close the journal again. Dns: names survive encoding, an accepted response answers the query and each of its
  answers lies within the packet, and the reverse zones cover the network. Kubernetes: the patch of a migration replaces the recorded
  managers by the retained ones and touches nothing else, a migration takes from us exactly what it moves, and
  whatever the cluster answers, an object is changed only when it was read before, is ours, and is still the same
  object; a rollout changes one annotation, once; nothing is installed on a node before all nodes have passed their
  checks, and when \<open>ensure\<close> returns they have been seen ready. Images: whatever fails, a pull
  publishes only what has the promised digest (for Fedora CoreOS, if its metadata does not name the file as one of the
  work files of a pull), no command changes an object of the store, a lookup never leaves the
  store, and a VM is created only from the sealed image that a tag of its alias
  names. Identity provider: a token
  rests on a login and a code that is redeemed once, redirects go to registered addresses, a logout ends a session, a
  login can always be completed, and a browser finds in the page that offers the users no element
  and no field but its own, whatever the values are. The smaller theorems characterise the parsers and searches these
  rest on.

  \<^bold>\<open>Parameters.\<close> Code outside the repository is an argument. \<open>ipnet_lib\<close> is the crate \<open>ipnet\<close>; \<open>ipnet_laws\<close> states its
  documented behaviour, and the arithmetic on prefixes (\<open>cidr_lib\<close>) satisfies it. \<open>file_system\<close> answers the
  tests of paths; \<open>config_lib\<close> and \<open>manifest_lib\<close> are YAML, the schema validator, serde and SHA-256; \<open>plan_lib\<close>
  renders values and digests; \<open>json_lib\<close> parses and prints JSON; \<open>kubectl\<close> is any function of the arguments, the
  input and the world; \<open>guest_lib\<close> and \<open>node_lib\<close> are the exchange with the supervisor for a VM, base64, YAML, the token
  file, private files and the clock; \<open>upstream\<close> and \<open>image_lib\<close> are what the network answers, the external programs
  that decode and convert images, digests, JSON text, the order of a directory, and the fault that ends any single file
  operation; \<open>oidc_lib\<close> is SHA-256, base64 and the signature; \<open>host\<close> collects what a run reads or starts: the exchange with the supervisor, the
  files, the clock, the terminal, and the steps of other source files (\<open>h_step\<close>, \<open>h_adopt\<close>). \<open>quiet_host\<close> says
  that those steps do not themselves mark or commit a journal; \<open>clock_laws\<close> that sleeping passes
  the time asked for. Each hypothesis has a witness that instantiates it.

  \<^bold>\<open>Bounds.\<close> \<open>u16\<close>, \<open>u32\<close> and \<open>u64\<close> are words where the code computes with them: checked and saturating operations
  are written out. Recursions are structural or have a measure. \<open>retry_until\<close> has no fuel: its bound of 61
  attempts follows from a deadline of 120 seconds and a pause of 2 seconds (\<open>rpc_retrying_returns\<close>). Waiting for a node
  has fuel for 91 attempts, enough for a deadline of 180 seconds (\<open>wait_loop_deadline\<close>). The decoder of
  DNS names is total because the number of jumps is bounded by the length of the packet; the search for a disk in an
  unpacked archive ends because the weight of its stack decreases.

  \<^bold>\<open>Not modelled.\<close> The steps of \<open>reconciler/vm.rs\<close>, \<open>guest.rs\<close>, \<open>services.rs\<close> and \<open>adopt.rs\<close> (processes, cloud-init
  images and guest commands; parameters of the run), \<open>ensure_dns\<close> and \<open>apply_routes\<close> (subprocesses), the resolver
  files, the bind helper and the UDP exchange of \<open>dns.rs\<close>, option parsing and output of every command,
  \<open>progress.rs\<close> (terminal output; its step lists are used), \<open>docker.rs\<close>, \<open>image_cli.rs\<close> with the
  builder VM it starts, the transfer and its progress meters in \<open>image.rs\<close>, the signing key of the identity provider, \<open>observability.rs\<close>, \<open>stack.rs\<close>, the provisioning controllers under \<open>controllers/\<close>, the desktop application and
  the Swift daemon. These are I/O for the most part; their pure parts are left to extensions of this library.
\<close>

end
